(* ===== verification/Prelude.thy ===== *)
theory Prelude
  imports Complex_Main "HOL-Library.AList"
begin

text \<open>
  Shared vocabulary of the development.

  \<^item> A Python \<open>dict\<close> or \<open>OrderedDict\<close> is an association list in insertion order:
    \<open>AList.update\<close> overwrites in place or appends at the end, \<open>AList.delete\<close> removes a key,
    \<open>map_of\<close> is \<open>.get\<close>. \<open>wf_dict\<close> says that keys are distinct, which every Python
    dictionary satisfies; each component proves that its operations keep it.
  \<^item> \<open>lru_put\<close> is the idiom \<open>d[k] = v; d.move_to_end(k); while len(d) > n: d.popitem(last=False)\<close>
    that several components use to bound a cache; the locale \<open>bounded_cache\<close> states its contract.
  \<^item> \<open>deque_append\<close> is \<open>deque(maxlen=n).append\<close>.
  \<^item> The locales \<open>machine\<close>, \<open>mono_machine\<close> and \<open>guarded_machine\<close> carry an invariant (and a
    non-decreasing measure) from one operation to every sequence of operations.
  \<^item> Instants of the monotonic clock and durations are \<open>real\<close> numbers of seconds: the code's
    floats without their rounding. Connection epochs and sequence numbers, which the code's
    models constrain to be non-negative, are \<open>nat\<close>.
\<close>

type_synonym instant = real
type_synonym epoch = nat
type_synonym ('k, 'v) dict = "('k \<times> 'v) list"

named_theorems dict_simps "lookup and key laws of dictionaries"
named_theorems inv_defs "definitions of the component invariants"
named_theorems op_defs "definitions of the component operations"

section \<open>Dictionaries in insertion order\<close>

abbreviation dkeys :: "('k, 'v) dict \<Rightarrow> 'k list" where
  "dkeys d \<equiv> map fst d"

abbreviation dvals :: "('k, 'v) dict \<Rightarrow> 'v list" where
  "dvals d \<equiv> map snd d"

definition wf_dict :: "('k, 'v) dict \<Rightarrow> bool" where
  "wf_dict d \<longleftrightarrow> distinct (dkeys d)"

lemma map_of_dset [dict_simps, simp]:
  "map_of (AList.update k v d) k' = (if k' = k then Some v else map_of d k')"
  by (simp add: update_conv)

lemma map_of_dpop [dict_simps, simp]:
  "map_of (AList.delete k d) k' = (if k' = k then None else map_of d k')"
  by (simp add: delete_conv)

lemma dkeys_dset [dict_simps]:
  "dkeys (AList.update k v d) = (if k \<in> set (dkeys d) then dkeys d else dkeys d @ [k])"
  by (rule update_keys)

lemma set_dkeys_dset [dict_simps, simp]:
  "set (dkeys (AList.update k v d)) = insert k (set (dkeys d))"
  by (auto simp: dkeys_dset)

lemma dkeys_dpop [dict_simps]: "dkeys (AList.delete k d) = filter (\<lambda>x. x \<noteq> k) (dkeys d)"
  by (induction d) (auto simp: AList.delete_eq)

lemma set_dkeys_dpop [dict_simps, simp]: "set (dkeys (AList.delete k d)) = set (dkeys d) - {k}"
  by (auto simp: dkeys_dpop)

lemma wf_dict_Nil [simp]: "wf_dict []"
  by (simp add: wf_dict_def)

lemma wf_dict_dset [simp, intro]: "wf_dict d \<Longrightarrow> wf_dict (AList.update k v d)"
  by (simp add: wf_dict_def distinct_update)

lemma wf_dict_dpop [simp, intro]: "wf_dict d \<Longrightarrow> wf_dict (AList.delete k d)"
  by (simp add: wf_dict_def dkeys_dpop)

lemma map_of_None_iff: "map_of d k = None \<longleftrightarrow> k \<notin> set (dkeys d)"
  by (simp add: map_of_eq_None_iff)

lemma map_of_Some_key: "map_of d k = Some v \<Longrightarrow> k \<in> set (dkeys d)"
  by (auto dest: map_of_SomeD intro: rev_image_eqI)

lemma key_map_of: "k \<in> set (dkeys d) \<Longrightarrow> \<exists>v. map_of d k = Some v"
  by (metis map_of_None_iff not_None_eq)

lemma wf_dict_map_of: "wf_dict d \<Longrightarrow> (k, v) \<in> set d \<longleftrightarrow> map_of d k = Some v"
  by (auto simp: wf_dict_def dest: map_of_SomeD)

lemma length_dpop: "k \<in> set (dkeys d) \<Longrightarrow> length (AList.delete k d) < length d"
proof -
  assume "k \<in> set (dkeys d)"
  then have "length (filter (\<lambda>x. x \<noteq> k) (dkeys d)) < length (dkeys d)"
    by (intro length_filter_less) auto
  moreover have "length (AList.delete k d) = length (filter (\<lambda>x. x \<noteq> k) (dkeys d))"
    by (metis dkeys_dpop length_map)
  ultimately show ?thesis by simp
qed

lemma length_dset: "length (AList.update k v d) = (if k \<in> set (dkeys d) then length d else Suc (length d))"
  by (metis dkeys_dset length_append_singleton length_map)

lemma set_dset: "set (AList.update k v d) \<subseteq> insert (k, v) (set d)"
  by (induction d) auto

lemma dpop_absent: "k \<notin> set (dkeys d) \<Longrightarrow> AList.delete k d = d"
  by (induction d) (auto simp: AList.delete_eq)

section \<open>Bounded caches\<close>

definition move_to_end :: "'k \<Rightarrow> ('k, 'v) dict \<Rightarrow> ('k, 'v) dict" where
  "move_to_end k d = (case map_of d k of None \<Rightarrow> d | Some v \<Rightarrow> AList.delete k d @ [(k, v)])"

fun popitem_over :: "nat \<Rightarrow> ('k, 'v) dict \<Rightarrow> ('k, 'v) dict" where
  "popitem_over n [] = []"
| "popitem_over n (p # d) = (if n < length (p # d) then popitem_over n d else p # d)"

definition lru_put :: "nat \<Rightarrow> 'k \<Rightarrow> 'v \<Rightarrow> ('k, 'v) dict \<Rightarrow> ('k, 'v) dict" where
  "lru_put n k v d = popitem_over n (move_to_end k (AList.update k v d))"

definition deque_append :: "nat \<Rightarrow> 'a \<Rightarrow> 'a list \<Rightarrow> 'a list" where
  "deque_append n x xs = drop (length xs + 1 - n) (xs @ [x])"

lemma popitem_over_drop: "popitem_over n d = drop (length d - n) d"
  by (induction d) (auto simp: Suc_diff_le)

lemma dpop_dset: "AList.delete k (AList.update k v d) = AList.delete k d"
  by (induction d) (auto simp: AList.delete_eq)

lemma move_to_end_dset: "move_to_end k (AList.update k v d) = AList.delete k d @ [(k, v)]"
  by (simp add: move_to_end_def dpop_dset)

lemma lru_put_eq:
  "lru_put n k v d = drop (Suc (length (AList.delete k d)) - n) (AList.delete k d @ [(k, v)])"
  by (simp add: lru_put_def move_to_end_dset popitem_over_drop)

lemma length_lru_put: "length (lru_put n k v d) \<le> n"
  by (simp add: lru_put_eq)

lemma map_of_drop: "wf_dict d \<Longrightarrow> map_of (drop m d) k = Some v \<Longrightarrow> map_of d k = Some v"
  by (metis distinct_map in_set_dropD map_of_SomeD map_of_eq_Some_iff wf_dict_def)

lemma wf_dict_lru_put [simp, intro]: "wf_dict d \<Longrightarrow> wf_dict (lru_put n k v d)"
  by (auto simp: lru_put_eq wf_dict_def dkeys_dpop drop_map [symmetric] simp del: drop_append)

lemma map_of_lru_put_same:
  assumes "wf_dict d" and "0 < n"
  shows "map_of (lru_put n k v d) k = Some v"
proof -
  have "wf_dict (lru_put n k v d)" using assms(1) by simp
  moreover have "(k, v) \<in> set (lru_put n k v d)"
    using assms(2) by (simp add: lru_put_eq)
  ultimately show ?thesis by (simp add: wf_dict_map_of)
qed

lemma map_of_lru_put_other:
  assumes "wf_dict d" and "k' \<noteq> k" and "map_of (lru_put n k v d) k' = Some w"
  shows "map_of d k' = Some w"
proof -
  have "wf_dict (AList.delete k d @ [(k, v)])"
    using assms(1) by (auto simp: wf_dict_def dkeys_dpop)
  with assms(3) have "map_of (AList.delete k d @ [(k, v)]) k' = Some w"
    by (auto simp: lru_put_eq simp del: drop_append dest: map_of_drop)
  with assms(2) show ?thesis by (simp add: map_add_def split: option.splits)
qed

lemma length_deque_append: "0 < n \<Longrightarrow> length (deque_append n x xs) \<le> n"
  by (simp add: deque_append_def)

lemma set_deque_append: "set (deque_append n x xs) \<subseteq> insert x (set xs)"
  by (auto simp: deque_append_def simp del: drop_append dest: in_set_dropD)

lemma sorted_deque_append:
  assumes "sorted_wrt P xs" and "\<And>y. y \<in> set xs \<Longrightarrow> P y x"
  shows "sorted_wrt P (deque_append n x xs)"
proof -
  have "sorted_wrt P (xs @ [x])" using assms by (simp add: sorted_wrt_append)
  then show ?thesis by (simp add: deque_append_def sorted_wrt_drop del: drop_append)
qed

text \<open>
  The contract of a bounded cache, as its clients use it: a put is found again, never changes
  what other keys map to (it may evict them), and never grows the cache past its limit.
\<close>

locale bounded_cache =
  fixes put :: "'k \<Rightarrow> 'v \<Rightarrow> 'c \<Rightarrow> 'c"
    and get :: "'c \<Rightarrow> 'k \<Rightarrow> 'v option"
    and size_of :: "'c \<Rightarrow> nat"
    and limit :: nat
    and invar :: "'c \<Rightarrow> bool"
  assumes put_invar: "invar c \<Longrightarrow> invar (put k v c)"
    and put_bounded: "invar c \<Longrightarrow> size_of (put k v c) \<le> limit"
    and get_put_same: "invar c \<Longrightarrow> get (put k v c) k = Some v"
    and get_put_other: "invar c \<Longrightarrow> k' \<noteq> k \<Longrightarrow> get (put k v c) k' = Some w \<Longrightarrow> get c k' = Some w"
begin

definition put_all :: "('k \<times> 'v) list \<Rightarrow> 'c \<Rightarrow> 'c" where
  "put_all ps c = fold (\<lambda>(k, v). put k v) ps c"

lemma put_all_invar: "invar c \<Longrightarrow> invar (put_all ps c)"
  unfolding put_all_def by (induction ps arbitrary: c) (auto simp: put_invar)

lemma put_all_bounded: "invar c \<Longrightarrow> size_of c \<le> limit \<Longrightarrow> size_of (put_all ps c) \<le> limit"
  unfolding put_all_def by (induction ps arbitrary: c) (auto simp: put_invar put_bounded)

lemma put_all_last: "invar c \<Longrightarrow> get (put_all (ps @ [(k, v)]) c) k = Some v"
  using put_all_invar [of c ps] by (simp add: put_all_def get_put_same)

lemma put_all_origin:
  assumes "invar c" and "get (put_all ps c) k = Some v"
  shows "get c k = Some v \<or> (k, v) \<in> set ps"
  using assms
proof (induction ps arbitrary: c)
  case Nil
  then show ?case by (simp add: put_all_def)
next
  case (Cons p ps)
  obtain k' v' where p: "p = (k', v')" by (cases p)
  from Cons.prems p have "get (put_all ps (put k' v' c)) k = Some v" by (simp add: put_all_def)
  with Cons.IH [of "put k' v' c"] put_invar Cons.prems(1)
  have "get (put k' v' c) k = Some v \<or> (k, v) \<in> set ps" by blast
  then show ?case
    using get_put_same [OF Cons.prems(1), of k' v'] get_put_other [OF Cons.prems(1), of k k' v' v] p
    by (cases "k = k'") auto
qed

end

section \<open>Machines\<close>

text \<open>
  An operation set that keeps an invariant; the lemmas of the locale carry the invariant to every
  sequence of operations.
\<close>

locale machine =
  fixes step :: "'e \<Rightarrow> 's \<Rightarrow> 's"
    and inv :: "'s \<Rightarrow> bool"
  assumes step_inv: "inv s \<Longrightarrow> inv (step e s)"
begin

lemma run_inv: "inv s \<Longrightarrow> inv (fold step es s)"
  by (induction es arbitrary: s) (auto simp: step_inv)

end

text \<open>A machine with a preorder between states that every operation respects.\<close>

locale mono_machine = machine +
  fixes leq :: "'s \<Rightarrow> 's \<Rightarrow> bool"
  assumes leq_refl: "leq s s"
    and leq_trans: "leq s t \<Longrightarrow> leq t u \<Longrightarrow> leq s u"
    and step_leq: "inv s \<Longrightarrow> leq s (step e s)"
begin

lemma run_leq: "inv s \<Longrightarrow> leq s (fold step es s)"
proof (induction es arbitrary: s)
  case Nil
  then show ?case by (simp add: leq_refl)
next
  case (Cons e es)
  then have "leq s (step e s)" and "leq (step e s) (fold step es (step e s))"
    by (simp_all add: step_inv step_leq)
  then show ?case by (auto intro: leq_trans)
qed

end

text \<open>A machine whose operations have a precondition on the state they run in.\<close>

locale guarded_machine =
  fixes step :: "'e \<Rightarrow> 's \<Rightarrow> 's"
    and ok :: "'e \<Rightarrow> 's \<Rightarrow> bool"
    and inv :: "'s \<Rightarrow> bool"
  assumes step_inv: "inv s \<Longrightarrow> ok e s \<Longrightarrow> inv (step e s)"
begin

fun legal :: "'e list \<Rightarrow> 's \<Rightarrow> bool" where
  "legal [] s \<longleftrightarrow> True"
| "legal (e # es) s \<longleftrightarrow> ok e s \<and> legal es (step e s)"

lemma run_inv: "inv s \<Longrightarrow> legal es s \<Longrightarrow> inv (fold step es s)"
  by (induction es arbitrary: s) (auto simp: step_inv)

end

text \<open>A machine without precondition is a guarded one.\<close>

sublocale machine \<subseteq> unguarded: guarded_machine step "\<lambda>_ _. True" inv
  by unfold_locales (rule step_inv)

section \<open>Strings\<close>

definition is_space :: "char \<Rightarrow> bool" where
  "is_space c \<longleftrightarrow> c \<in> {CHR '' '', CHR 0x09, CHR 0x0A, CHR 0x0B, CHR 0x0C, CHR 0x0D,
                      CHR 0x1C, CHR 0x1D, CHR 0x1E, CHR 0x1F, CHR 0x85, CHR 0xA0}"

definition py_strip :: "string \<Rightarrow> string" where
  "py_strip s = rev (dropWhile is_space (rev (dropWhile is_space s)))"

text \<open>Decimal notation of a natural number, as in an f-string.\<close>

fun show_nat :: "nat \<Rightarrow> string" where
  "show_nat n = (if n < 10 then [char_of (48 + n)] else show_nat (n div 10) @ [char_of (48 + n mod 10)])"

declare show_nat.simps [simp del]

fun read_nat :: "string \<Rightarrow> nat" where
  "read_nat s = foldl (\<lambda>acc c. acc * 10 + (of_char c - 48)) 0 s"

lemma read_show_nat: "read_nat (show_nat n) = n"
proof (induction n rule: show_nat.induct)
  case (1 n)
  then show ?case
    by (cases "n < 10") (auto simp: show_nat.simps [of n])
qed

lemma show_nat_inj: "show_nat m = show_nat n \<longleftrightarrow> m = n"
  by (metis read_show_nat)

end
