(* ===== verification/Speech_Lifecycle.thy ===== *)
theory Speech_Lifecycle
  imports Prelude "HOL-Library.Product_Lexorder"
begin

text \<open>
  The speech generation lifecycle of \<open>server/speech_lifecycle.py\<close>: the coordinator that owns the
  single transport slot, its timers, context tokens, tombstones and the exactly-once terminal
  notification, and the two frame processors that feed it.

  The coordinator's coroutines are values of \<open>lc_task\<close>: one constructor per coroutine that may be
  scheduled and one (\<open>W...\<close>) per point at which a coroutine is suspended on a callback. \<open>run_task\<close>
  runs a coroutine from where it is to its next suspension, and \<open>lc_step\<close> lets the environment pick
  which one runs next and whether the callback it waits for succeeded or raised: every interleaving of
  the event loop is a list of such steps. Calls of the three callbacks (\<open>dispatch_cleanup\<close>,
  \<open>dispatch_teardown\<close>, \<open>on_terminal\<close>, all given, as the session host gives them) are entries of
  \<open>ls_effects\<close>. Tokens minted by \<open>uuid4\<close> are arguments. Timers are those of \<open>ManualTimerScheduler\<close>,
  which is both clock and scheduler. An event loop is running (without one, \<open>record_interruption\<close>
  runs the same coroutine to its end at once).
\<close>

section \<open>Data\<close>

datatype generation_phase =
  ADMITTED | HANDED_TO_TTS | SYNTHESIZING | PHASE_SYNTHESIS_ENDED | TRANSPORT_STARTED | TRANSPORT_STOPPED

datatype delivery_disposition =
  D_PAUSED | D_INTERRUPTED | D_CANCELLED | D_DELIVERY_COMPLETED | D_DELIVERY_UNKNOWN

datatype generation_role = Result_Role | Ack_Role

record generation_identity =
  gi_utterance_id :: string
  gi_work_item_id :: string
  gi_origin_epoch :: "epoch option"
  gi_role :: generation_role
  gi_turn_id :: "string option"
  gi_ack_id :: "string option"

datatype pre_admission_terminal_reason = NO_TTS | UNAVAILABLE_TRANSPORT | CONNECTION_CLOSED | CANCELLED

record speech_generation =
  gn_token :: string
  gn_identity :: generation_identity
  gn_phase :: generation_phase
  gn_disposition :: "delivery_disposition option"
  gn_context_id :: "string option"
  gn_audio_duration_seconds :: real
  gn_audio_submitted :: bool
  gn_synthesis_ended_at :: "instant option"
  gn_cleanup_pending :: bool
  gn_teardown_pending :: bool
  gn_tombstoned :: bool
  gn_terminalized :: bool

datatype pre_admission =
    PreAdmissionAdmit speech_generation
  | PreAdmissionTerminal pre_admission_terminal_reason
  | PreAdmissionBusy

text \<open>Coroutines: not yet started ones, then the suspension points.\<close>

datatype lc_task =
    KNoop
  | KTerminalize string delivery_disposition
  | KStartTimeout string
  | KDrainTimeout string
  | KInterruptionTimeout string
  | KFlushAckTimeout string
  | KFinalizeUncontexted string delivery_disposition
  | KNotify string generation_identity delivery_disposition
  | KProviderError string
  | KAckFlush string
  | KTeardownComplete string
  | WCleanup string
  | WFinalize string delivery_disposition
  | WTeardown string
  | WNotified string
  | WTeardownNotified string

datatype lc_effect =
    EAdmit string generation_identity
  | ECleanup string generation_identity
  | ETeardown string generation_identity
  | ETerminal string generation_identity delivery_disposition

section \<open>Timers\<close>

record timers =
  tm_now :: instant
  tm_pending :: "(instant \<times> nat \<times> lc_task) list"
  tm_seq :: nat

definition call_at :: "instant \<Rightarrow> lc_task \<Rightarrow> timers \<Rightarrow> timers \<times> nat" where
  "call_at when callback tm =
     (let seq = tm_seq tm + 1
      in (tm\<lparr>tm_seq := seq, tm_pending := tm_pending tm @ [(when, seq, callback)]\<rparr>, seq))"

definition timer_cancel :: "nat \<Rightarrow> timers \<Rightarrow> timers" where
  "timer_cancel seq tm = tm\<lparr>tm_pending := filter (\<lambda>e. fst (snd e) \<noteq> seq) (tm_pending tm)\<rparr>"

text \<open>The due entries in firing order, with the entries they leave behind.\<close>

definition fire_due :: "timers \<Rightarrow> timers \<times> lc_task list" where
  "fire_due tm =
     (let due = sort_key (\<lambda>e. (fst e, fst (snd e))) (filter (\<lambda>e. fst e \<le> tm_now tm) (tm_pending tm))
      in (fold timer_cancel (map (\<lambda>e. fst (snd e)) due) tm, map (\<lambda>e. snd (snd e)) due))"

section \<open>Coordinator state\<close>

record lifecycle =
  ls_timers :: timers
  ls_start_timeout :: real
  ls_grace :: real
  ls_tombstone_limit :: nat
  ls_tts_available :: bool
  ls_generations :: "(string, speech_generation) dict"
  ls_slot_token :: "string option"
  ls_context_tokens :: "(string, string) dict"
  ls_context_tombstones :: "(string, unit) dict"
  ls_timer_handles :: "(string, nat) dict"
  ls_tasks :: "lc_task list"
  ls_awaited :: "lc_task list"
  ls_connection_closed :: bool
  ls_teardown_generation :: nat
  ls_effects :: "lc_effect list"

definition init_lifecycle :: "instant \<Rightarrow> real \<Rightarrow> real \<Rightarrow> int \<Rightarrow> bool \<Rightarrow> lifecycle" where
  "init_lifecycle start start_timeout grace limit tts =
     \<lparr>ls_timers = \<lparr>tm_now = start, tm_pending = [], tm_seq = 0\<rparr>, ls_start_timeout = start_timeout,
      ls_grace = grace, ls_tombstone_limit = nat (max limit 0), ls_tts_available = tts,
      ls_generations = [], ls_slot_token = None, ls_context_tokens = [], ls_context_tombstones = [],
      ls_timer_handles = [], ls_tasks = [], ls_awaited = [], ls_connection_closed = False,
      ls_teardown_generation = 0, ls_effects = []\<rparr>"

definition occupied :: "lifecycle \<Rightarrow> bool" where
  "occupied s \<longleftrightarrow> ls_slot_token s \<noteq> None"

definition is_tombstoned :: "string \<Rightarrow> lifecycle \<Rightarrow> bool" where
  "is_tombstoned c s \<longleftrightarrow> map_of (ls_context_tombstones s) c \<noteq> None"

definition live :: "string \<Rightarrow> lifecycle \<Rightarrow> speech_generation option" where
  "live token s =
     (case map_of (ls_generations s) token of
        None \<Rightarrow> None
      | Some g \<Rightarrow> if gn_terminalized g then None else Some g)"

definition occupied_generation :: "lifecycle \<Rightarrow> speech_generation option" where
  "occupied_generation s =
     (case ls_slot_token s of None \<Rightarrow> None | Some t \<Rightarrow> map_of (ls_generations s) t)"

text \<open>Mutating a generation object in place.\<close>

definition put_gen :: "string \<Rightarrow> speech_generation \<Rightarrow> lifecycle \<Rightarrow> lifecycle" where
  "put_gen token g s = s\<lparr>ls_generations := AList.update token g (ls_generations s)\<rparr>"

definition schedule :: "lc_task \<Rightarrow> lifecycle \<Rightarrow> lifecycle" where
  "schedule k s = s\<lparr>ls_tasks := ls_tasks s @ [k]\<rparr>"

definition effect :: "lc_effect \<Rightarrow> lifecycle \<Rightarrow> lifecycle" where
  "effect e s = s\<lparr>ls_effects := ls_effects s @ [e]\<rparr>"

definition cancel_timer :: "string \<Rightarrow> lifecycle \<Rightarrow> lifecycle" where
  "cancel_timer token s =
     (case map_of (ls_timer_handles s) token of
        None \<Rightarrow> s
      | Some seq \<Rightarrow> s\<lparr>ls_timer_handles := AList.delete token (ls_timer_handles s),
                      ls_timers := timer_cancel seq (ls_timers s)\<rparr>)"

definition arm :: "string \<Rightarrow> instant \<Rightarrow> lc_task \<Rightarrow> lifecycle \<Rightarrow> lifecycle" where
  "arm token when callback s =
     (let s = cancel_timer token s; (tm, handle) = call_at when callback (ls_timers s)
      in s\<lparr>ls_timers := tm, ls_timer_handles := AList.update token handle (ls_timer_handles s)\<rparr>)"

definition clock_now :: "lifecycle \<Rightarrow> instant" where
  "clock_now s = tm_now (ls_timers s)"

section \<open>Admission and hand-off\<close>

definition new_generation :: "string \<Rightarrow> generation_identity \<Rightarrow> speech_generation" where
  "new_generation token i =
     \<lparr>gn_token = token, gn_identity = i, gn_phase = ADMITTED, gn_disposition = None, gn_context_id = None,
      gn_audio_duration_seconds = 0, gn_audio_submitted = False, gn_synthesis_ended_at = None,
      gn_cleanup_pending = False, gn_teardown_pending = False, gn_tombstoned = False,
      gn_terminalized = False\<rparr>"

definition try_admit ::
    "string \<Rightarrow> generation_identity \<Rightarrow> lifecycle \<Rightarrow> lifecycle \<times> speech_generation option" where
  "try_admit token i s =
     (if ls_connection_closed s \<or> ls_slot_token s \<noteq> None then (s, None)
      else
        let g = new_generation token i in
        (effect (EAdmit token i) ((put_gen token g s)\<lparr>ls_slot_token := Some token\<rparr>), Some g))"

definition pre_admission_disposition ::
    "bool option \<Rightarrow> string \<Rightarrow> generation_identity \<Rightarrow> lifecycle \<Rightarrow> lifecycle \<times> pre_admission" where
  "pre_admission_disposition transport_acceptance token i s =
     (if \<not> ls_tts_available s then (s, PreAdmissionTerminal NO_TTS)
      else if gi_role i = Ack_Role \<and> transport_acceptance = Some False
      then (s, PreAdmissionTerminal UNAVAILABLE_TRANSPORT)
      else if ls_connection_closed s then (s, PreAdmissionTerminal CONNECTION_CLOSED)
      else
        case try_admit token i s of
          (s', None) \<Rightarrow> (s', PreAdmissionBusy)
        | (s', Some g) \<Rightarrow> (s', PreAdmissionAdmit g))"

definition mark_handed_to_tts :: "string \<Rightarrow> lifecycle \<Rightarrow> lifecycle" where
  "mark_handed_to_tts token s =
     (case live token s of
        None \<Rightarrow> s
      | Some g \<Rightarrow>
          if gn_tombstoned g then s
          else arm token (clock_now s + ls_start_timeout s) (KStartTimeout token)
                 (put_gen token (g\<lparr>gn_phase := HANDED_TO_TTS\<rparr>) s))"

definition bind_context :: "string \<Rightarrow> string \<Rightarrow> lifecycle \<Rightarrow> lifecycle \<times> bool" where
  "bind_context token c s =
     (case live token s of
        None \<Rightarrow> (s, False)
      | Some g \<Rightarrow>
          if gn_tombstoned g then (s, False)
          else if c \<noteq> gi_utterance_id (gn_identity g) then (s, False)
          else if gn_context_id g \<noteq> None
          then (s, gn_context_id g = Some c \<and> map_of (ls_context_tokens s) c = Some token)
          else if (case map_of (ls_context_tokens s) c of None \<Rightarrow> False | Some owner \<Rightarrow> owner \<noteq> token)
          then (s, False)
          else if is_tombstoned c s then (s, False)
          else ((put_gen token (g\<lparr>gn_context_id := Some c\<rparr>) s)
                  \<lparr>ls_context_tokens := AList.update c token (ls_context_tokens s)\<rparr>, True))"

section \<open>Provider synthesis\<close>

definition on_tts_started :: "string \<Rightarrow> lifecycle \<Rightarrow> lifecycle \<times> bool" where
  "on_tts_started c s =
     (case map_of (ls_context_tokens s) c of
        None \<Rightarrow> (s, False)
      | Some token \<Rightarrow>
          (case live token s of
             None \<Rightarrow> (s, False)
           | Some g \<Rightarrow>
               if gn_tombstoned g then (s, False)
               else (put_gen token (g\<lparr>gn_phase := SYNTHESIZING\<rparr>) (cancel_timer token s), True)))"

text \<open>\<open>on_tts_audio\<close> and \<open>on_tts_stopped\<close> accept a frame for the same generations.\<close>

definition frame_generation :: "string \<Rightarrow> lifecycle \<Rightarrow> (string \<times> speech_generation) option" where
  "frame_generation c s =
     (case map_of (ls_context_tokens s) c of
        None \<Rightarrow> None
      | Some token \<Rightarrow>
          (case map_of (ls_generations s) token of
             None \<Rightarrow> None
           | Some g \<Rightarrow> if gn_terminalized g \<or> gn_tombstoned g then None else Some (token, g)))"

definition audio_seconds :: "nat \<Rightarrow> int \<Rightarrow> int \<Rightarrow> real" where
  "audio_seconds len sample_rate num_channels =
     (real len / (real_of_int (max num_channels 1) * 2)) / real_of_int (max sample_rate 1)"

definition on_tts_audio :: "string \<Rightarrow> nat \<Rightarrow> int \<Rightarrow> int \<Rightarrow> lifecycle \<Rightarrow> lifecycle \<times> bool" where
  "on_tts_audio c len sample_rate num_channels s =
     (case frame_generation c s of
        None \<Rightarrow> (s, False)
      | Some (token, g) \<Rightarrow>
          (put_gen token
             (g\<lparr>gn_audio_duration_seconds :=
                  gn_audio_duration_seconds g + audio_seconds len sample_rate num_channels,
                gn_audio_submitted := True\<rparr>) s, True))"

definition on_tts_stopped :: "string \<Rightarrow> lifecycle \<Rightarrow> lifecycle \<times> bool" where
  "on_tts_stopped c s =
     (case frame_generation c s of
        None \<Rightarrow> (s, False)
      | Some (token, g) \<Rightarrow>
          (arm token (clock_now s + gn_audio_duration_seconds g + ls_grace s) (KDrainTimeout token)
             (put_gen token (g\<lparr>gn_phase := PHASE_SYNTHESIS_ENDED,
                              gn_synthesis_ended_at := Some (clock_now s)\<rparr>) s), True))"

section \<open>Transport frames\<close>

definition on_transport_bot_started :: "lifecycle \<Rightarrow> lifecycle" where
  "on_transport_bot_started s =
     (case occupied_generation s of
        None \<Rightarrow> s
      | Some g \<Rightarrow> put_gen (gn_token g) (g\<lparr>gn_phase := TRANSPORT_STARTED\<rparr>) s)"

definition on_transport_bot_stopped :: "lifecycle \<Rightarrow> lifecycle" where
  "on_transport_bot_stopped s =
     (case occupied_generation s of
        None \<Rightarrow> schedule KNoop s
      | Some g \<Rightarrow>
          schedule (KTerminalize (gn_token g) D_DELIVERY_UNKNOWN)
            (put_gen (gn_token g) (g\<lparr>gn_phase := TRANSPORT_STOPPED\<rparr>) (cancel_timer (gn_token g) s)))"

section \<open>Terminalization\<close>

text \<open>\<open>generation.disposition or disposition\<close>: the recorded disposition wins.\<close>

definition final_disposition :: "speech_generation \<Rightarrow> delivery_disposition \<Rightarrow> delivery_disposition" where
  "final_disposition g d = (case gn_disposition g of Some d' \<Rightarrow> d' | None \<Rightarrow> d)"

definition reap_context :: "string \<Rightarrow> speech_generation \<Rightarrow> lifecycle \<Rightarrow> lifecycle" where
  "reap_context token g s =
     (case gn_context_id g of
        None \<Rightarrow> s
      | Some c \<Rightarrow>
          s\<lparr>ls_context_tokens := (if map_of (ls_context_tokens s) c = Some token
                                 then AList.delete c (ls_context_tokens s) else ls_context_tokens s),
            ls_context_tombstones := (if ls_tombstone_limit s \<noteq> 0
                                 then lru_put (ls_tombstone_limit s) c () (ls_context_tombstones s)
                                 else ls_context_tombstones s)\<rparr>)"

definition terminalize_state ::
    "string \<Rightarrow> delivery_disposition \<Rightarrow> lifecycle \<Rightarrow> lifecycle \<times> (generation_identity \<times> delivery_disposition) option"
  where
  "terminalize_state token d s =
     (case live token s of
        None \<Rightarrow> (s, None)
      | Some g \<Rightarrow>
          let s = cancel_timer token s;
              s = (if ls_slot_token s = Some token then s\<lparr>ls_slot_token := None\<rparr> else s);
              s = reap_context token g s
          in (s\<lparr>ls_generations := AList.delete token (ls_generations s)\<rparr>,
              Some (gn_identity g, final_disposition g d)))"

definition terminalize ::
    "string \<Rightarrow> delivery_disposition \<Rightarrow> (string \<Rightarrow> lc_task) \<Rightarrow> lifecycle \<Rightarrow> lifecycle \<times> lc_task option" where
  "terminalize token d after s =
     (case terminalize_state token d s of
        (s, None) \<Rightarrow> (s, None)
      | (s, Some (i, d')) \<Rightarrow> (effect (ETerminal token i d') s, Some (after token)))"

definition request_teardown :: "string \<Rightarrow> lifecycle \<Rightarrow> lifecycle \<times> lc_task option" where
  "request_teardown token s =
     (case live token s of
        None \<Rightarrow> (s, None)
      | Some g \<Rightarrow>
          if gn_teardown_pending g then (s, None)
          else (effect (ETeardown token (gn_identity g))
                  (cancel_timer token (put_gen token (g\<lparr>gn_teardown_pending := True\<rparr>) s)),
                Some (WTeardown token)))"

definition begin_cleanup :: "string \<Rightarrow> speech_generation \<Rightarrow> lifecycle \<Rightarrow> lifecycle \<times> lc_task option" where
  "begin_cleanup token g s =
     (if gn_cleanup_pending g then (s, None)
      else (effect (ECleanup token (gn_identity g)) (put_gen token (g\<lparr>gn_cleanup_pending := True\<rparr>) s),
            Some (WCleanup token)))"

text \<open>What \<open>_begin_cleanup\<close> does once \<open>dispatch_cleanup\<close> has returned (\<open>ok\<close>) or raised.\<close>

definition cleanup_dispatched :: "bool \<Rightarrow> string \<Rightarrow> lifecycle \<Rightarrow> lifecycle \<times> lc_task option" where
  "cleanup_dispatched ok token s =
     (if \<not> ok then request_teardown token s
      else
        case live token s of
          None \<Rightarrow> (s, None)
        | Some g \<Rightarrow>
            if gn_audio_submitted g then request_teardown token s
            else (arm token (clock_now s + ls_grace s) (KFlushAckTimeout token) s, None))"

definition begin_delivery_unknown :: "string \<Rightarrow> lifecycle \<Rightarrow> lifecycle \<times> lc_task option" where
  "begin_delivery_unknown token s =
     (case live token s of
        None \<Rightarrow> (s, None)
      | Some g \<Rightarrow>
          let g = g\<lparr>gn_disposition := Some (final_disposition g D_DELIVERY_UNKNOWN), gn_tombstoned := True\<rparr>
          in begin_cleanup token g (put_gen token g s))"

definition on_interruption_timeout :: "string \<Rightarrow> lifecycle \<Rightarrow> lifecycle \<times> lc_task option" where
  "on_interruption_timeout token s =
     (case live token s of None \<Rightarrow> (s, None) | Some g \<Rightarrow> begin_cleanup token g s)"

definition acknowledge_tts_lane_flush :: "string \<Rightarrow> lifecycle \<Rightarrow> lifecycle \<times> lc_task option" where
  "acknowledge_tts_lane_flush token s =
     (case map_of (ls_generations s) token of
        None \<Rightarrow> (s, None)
      | Some g \<Rightarrow>
          if \<not> (gn_cleanup_pending g \<or> gn_tombstoned g) \<or> gn_audio_submitted g \<or> gn_teardown_pending g
          then (s, None)
          else terminalize token (final_disposition g D_DELIVERY_UNKNOWN) WNotified s)"

definition teardown_complete :: "string \<Rightarrow> lifecycle \<Rightarrow> lifecycle \<times> lc_task option" where
  "teardown_complete token s =
     (case map_of (ls_generations s) token of
        None \<Rightarrow> (s, None)
      | Some g \<Rightarrow>
          (case terminalize token (final_disposition g D_DELIVERY_UNKNOWN) WTeardownNotified s of
             (s, None) \<Rightarrow> (s\<lparr>ls_teardown_generation := ls_teardown_generation s + 1\<rparr>, None)
           | (s, Some k) \<Rightarrow> (s, Some k)))"

definition finalize_uncontexted ::
    "string \<Rightarrow> delivery_disposition \<Rightarrow> lifecycle \<Rightarrow> lifecycle \<times> lc_task option" where
  "finalize_uncontexted token d s =
     (case live token s of
        None \<Rightarrow> (s, None)
      | Some g \<Rightarrow> (effect (ECleanup token (gn_identity g)) s, Some (WFinalize token d)))"

text \<open>Run a coroutine to its next suspension; \<open>ok\<close> is the outcome of the callback it waits for.\<close>

fun run_task :: "bool \<Rightarrow> lc_task \<Rightarrow> lifecycle \<Rightarrow> lifecycle \<times> lc_task option" where
  "run_task ok KNoop s = (s, None)"
| "run_task ok (KTerminalize t d) s = terminalize t d WNotified s"
| "run_task ok (KStartTimeout t) s = begin_delivery_unknown t s"
| "run_task ok (KDrainTimeout t) s = begin_delivery_unknown t s"
| "run_task ok (KProviderError t) s = begin_delivery_unknown t s"
| "run_task ok (KInterruptionTimeout t) s = on_interruption_timeout t s"
| "run_task ok (KFlushAckTimeout t) s = request_teardown t s"
| "run_task ok (KFinalizeUncontexted t d) s = finalize_uncontexted t d s"
| "run_task ok (KNotify t i d) s = (effect (ETerminal t i d) s, Some (WNotified t))"
| "run_task ok (KAckFlush t) s = acknowledge_tts_lane_flush t s"
| "run_task ok (KTeardownComplete t) s = teardown_complete t s"
| "run_task ok (WCleanup t) s = cleanup_dispatched ok t s"
| "run_task ok (WFinalize t d) s = (if ok then terminalize t d WNotified s else request_teardown t s)"
| "run_task ok (WTeardown t) s = (s, None)"
| "run_task ok (WNotified t) s = (s, None)"
| "run_task ok (WTeardownNotified t) s =
     (if ok then s\<lparr>ls_teardown_generation := ls_teardown_generation s + 1\<rparr> else s, None)"

section \<open>Interruption, release and close\<close>

definition record_interruption :: "string \<Rightarrow> bool \<Rightarrow> lifecycle \<Rightarrow> lifecycle" where
  "record_interruption token pause s =
     (case live token s of
        None \<Rightarrow> s
      | Some g \<Rightarrow>
          let s = cancel_timer token s;
              d = (if pause then D_PAUSED else D_INTERRUPTED);
              s = put_gen token (g\<lparr>gn_disposition := Some d, gn_tombstoned := True\<rparr>) s
          in if gn_context_id g = None then schedule (KFinalizeUncontexted token d) s
             else arm token (clock_now s + ls_grace s) (KInterruptionTimeout token) s)"

definition release_generation :: "string \<Rightarrow> bool \<Rightarrow> delivery_disposition \<Rightarrow> lifecycle \<Rightarrow> lifecycle" where
  "release_generation token notify d s =
     (case terminalize_state token d s of
        (s, None) \<Rightarrow> s
      | (s, Some (i, d')) \<Rightarrow> if notify then schedule (KNotify token i d') s else s)"

definition drop_stale_frame :: "string \<Rightarrow> lifecycle \<Rightarrow> bool" where
  "drop_stale_frame c s \<longleftrightarrow>
     (if is_tombstoned c s then True
      else case map_of (ls_context_tokens s) c of
             None \<Rightarrow> False
           | Some token \<Rightarrow>
               (case map_of (ls_generations s) token of
                  None \<Rightarrow> True
                | Some g \<Rightarrow> gn_terminalized g \<or> gn_tombstoned g))"

definition close_connection :: "lifecycle \<Rightarrow> lifecycle" where
  "close_connection s =
     (fold (\<lambda>seq s. s\<lparr>ls_timers := timer_cancel seq (ls_timers s)\<rparr>) (dvals (ls_timer_handles s)) s)
       \<lparr>ls_timer_handles := [], ls_tasks := [], ls_context_tokens := [], ls_context_tombstones := [],
        ls_generations := [], ls_slot_token := None, ls_connection_closed := True\<rparr>"

section \<open>Frame processors\<close>

datatype frame_direction = DOWNSTREAM | UPSTREAM

datatype lane_frame =
    GenerationMarker string
  | FlushAck string
  | TTSStarted "string option"
  | TTSAudioRaw "string option" nat int int
  | TTSStopped "string option"
  | BotStartedSpeaking
  | BotStoppedSpeaking
  | ProviderErrorFrame bool
  | OtherFrame

datatype forwarding = Consumed | Forwarded

text \<open>A context id that is not falsy.\<close>

definition real_context :: "string option \<Rightarrow> bool" where
  "real_context c \<longleftrightarrow> (case c of None \<Rightarrow> False | Some x \<Rightarrow> x \<noteq> [])"

text \<open>
  \<open>TransportSpeechLifecycleProcessor.process_frame\<close>: the new pending token, the coordinator and
  whether the frame is pushed on. The coroutine awaited for a flush acknowledgement starts at once.
\<close>

definition await_task :: "lc_task \<Rightarrow> lifecycle \<Rightarrow> lifecycle" where
  "await_task k s =
     (case run_task True k s of
        (s, None) \<Rightarrow> s
      | (s, Some k') \<Rightarrow> s\<lparr>ls_awaited := ls_awaited s @ [k']\<rparr>)"

definition transport_process_frame ::
    "lane_frame \<Rightarrow> frame_direction \<Rightarrow> string option \<Rightarrow> lifecycle \<Rightarrow> string option \<times> lifecycle \<times> forwarding" where
  "transport_process_frame frame direction pending s =
     (case frame of
        GenerationMarker token \<Rightarrow> (Some token, s, Consumed)
      | FlushAck token \<Rightarrow> (pending, await_task (KAckFlush token) s, Consumed)
      | TTSStarted c \<Rightarrow>
          if direction = UPSTREAM then (pending, s, Forwarded)
          else if \<not> real_context c then (pending, s, Consumed)
          else
            let (pending, s) =
                  (case pending of
                     None \<Rightarrow> (None, s)
                   | Some token \<Rightarrow>
                       (case bind_context token (the c) s of
                          (s, bound) \<Rightarrow> (if bound then None else Some token, s)));
                (s, started) = on_tts_started (the c) s
            in (pending, s, if started then Forwarded else Consumed)
      | TTSAudioRaw c len rate channels \<Rightarrow>
          if direction = UPSTREAM then (pending, s, Forwarded)
          else if \<not> real_context c then (pending, s, Consumed)
          else let (s, ok) = on_tts_audio (the c) len rate channels s
               in (pending, s, if ok then Forwarded else Consumed)
      | TTSStopped c \<Rightarrow>
          if direction = UPSTREAM then (pending, s, Forwarded)
          else if \<not> real_context c then (pending, s, Consumed)
          else let (s, ok) = on_tts_stopped (the c) s
               in (pending, s, if ok then Forwarded else Consumed)
      | BotStartedSpeaking \<Rightarrow> (pending, on_transport_bot_started s, Forwarded)
      | BotStoppedSpeaking \<Rightarrow> (pending, on_transport_bot_stopped s, Forwarded)
      | _ \<Rightarrow> (pending, s, Forwarded))"

text \<open>\<open>GenericProviderErrorObserver.process_frame\<close>: every frame is pushed on.\<close>

definition error_process_frame ::
    "lane_frame \<Rightarrow> frame_direction \<Rightarrow> string option \<Rightarrow> lifecycle \<Rightarrow> string option \<times> lifecycle \<times> forwarding" where
  "error_process_frame frame direction captured s =
     (case frame of
        GenerationMarker token \<Rightarrow> (Some token, s, Forwarded)
      | ProviderErrorFrame from_tts \<Rightarrow>
          (case captured of
             None \<Rightarrow> (None, s, Forwarded)
           | Some token \<Rightarrow>
               if direction = UPSTREAM \<and> from_tts
               then (None, await_task (KProviderError token) s, Forwarded)
               else (captured, s, Forwarded))
      | _ \<Rightarrow> (captured, s, Forwarded))"

end
