(* ===== verification/Lifecycle_Properties.thy ===== *)
theory Lifecycle_Properties
  imports Speech_Lifecycle
begin

text \<open>
  The coordinator as a machine whose steps are its methods, clock advances and the resumption of any
  of its coroutines, in any order and with any callback outcome; the invariant of the single
  transport slot and of its timers, contexts and tombstones; and the properties that follow: one
  generation at a time, exactly one terminal notification each, and no audio of a stale generation.
\<close>

section \<open>Steps\<close>

datatype lc_op =
    OpAdmit "bool option" string generation_identity
  | OpHanded string
  | OpBind string string
  | OpTtsStarted string
  | OpTtsAudio string nat int int
  | OpTtsStopped string
  | OpBotStarted
  | OpBotStopped
  | OpInterrupt string bool
  | OpRelease string bool delivery_disposition
  | OpProviderError string
  | OpAckFlush string
  | OpTeardownComplete string
  | OpClose
  | OpAdvance real
  | OpRun nat bool
  | OpResume nat bool

definition remove_at :: "nat \<Rightarrow> 'a list \<Rightarrow> 'a list" where
  "remove_at i xs = take i xs @ drop (Suc i) xs"

definition advance :: "real \<Rightarrow> lifecycle \<Rightarrow> lifecycle" where
  "advance seconds s =
     (let tm = (ls_timers s)\<lparr>tm_now := tm_now (ls_timers s) + seconds\<rparr>; (tm, due) = fire_due tm
      in s\<lparr>ls_timers := tm, ls_tasks := ls_tasks s @ due\<rparr>)"

definition run_scheduled :: "nat \<Rightarrow> bool \<Rightarrow> lifecycle \<Rightarrow> lifecycle" where
  "run_scheduled i ok s =
     (if i < length (ls_tasks s) then
        case run_task ok (ls_tasks s ! i) (s\<lparr>ls_tasks := remove_at i (ls_tasks s)\<rparr>) of
          (s, None) \<Rightarrow> s
        | (s, Some k) \<Rightarrow> schedule k s
      else s)"

definition run_awaited :: "nat \<Rightarrow> bool \<Rightarrow> lifecycle \<Rightarrow> lifecycle" where
  "run_awaited i ok s =
     (if i < length (ls_awaited s) then
        case run_task ok (ls_awaited s ! i) (s\<lparr>ls_awaited := remove_at i (ls_awaited s)\<rparr>) of
          (s, None) \<Rightarrow> s
        | (s, Some k) \<Rightarrow> s\<lparr>ls_awaited := ls_awaited s @ [k]\<rparr>
      else s)"

primrec lc_step :: "lc_op \<Rightarrow> lifecycle \<Rightarrow> lifecycle" where
  "lc_step (OpAdmit acc t i) s = fst (pre_admission_disposition acc t i s)"
| "lc_step (OpHanded t) s = mark_handed_to_tts t s"
| "lc_step (OpBind t c) s = fst (bind_context t c s)"
| "lc_step (OpTtsStarted c) s = fst (on_tts_started c s)"
| "lc_step (OpTtsAudio c n r ch) s = fst (on_tts_audio c n r ch s)"
| "lc_step (OpTtsStopped c) s = fst (on_tts_stopped c s)"
| "lc_step OpBotStarted s = on_transport_bot_started s"
| "lc_step OpBotStopped s = on_transport_bot_stopped s"
| "lc_step (OpInterrupt t pause) s = record_interruption t pause s"
| "lc_step (OpRelease t notify d) s = release_generation t notify d s"
| "lc_step (OpProviderError t) s = await_task (KProviderError t) s"
| "lc_step (OpAckFlush t) s = await_task (KAckFlush t) s"
| "lc_step (OpTeardownComplete t) s = await_task (KTeardownComplete t) s"
| "lc_step OpClose s = close_connection s"
| "lc_step (OpAdvance dt) s = advance dt s"
| "lc_step (OpRun i ok) s = run_scheduled i ok s"
| "lc_step (OpResume i ok) s = run_awaited i ok s"

section \<open>The invariant\<close>

definition admitted :: "lifecycle \<Rightarrow> string set" where
  "admitted s = {t. \<exists>i. EAdmit t i \<in> set (ls_effects s)}"

fun terminal_of :: "string \<Rightarrow> lc_effect \<Rightarrow> bool" where
  "terminal_of t (ETerminal t' _ _) \<longleftrightarrow> t' = t"
| "terminal_of t _ \<longleftrightarrow> False"

fun notify_of :: "string \<Rightarrow> lc_task \<Rightarrow> bool" where
  "notify_of t (KNotify t' _ _) \<longleftrightarrow> t' = t"
| "notify_of t _ \<longleftrightarrow> False"

text \<open>Terminal notifications of a token: already dispatched, or scheduled.\<close>

definition notices :: "string \<Rightarrow> lifecycle \<Rightarrow> nat" where
  "notices t s = length (filter (terminal_of t) (ls_effects s)) +
     length (filter (notify_of t) (ls_tasks s)) + length (filter (notify_of t) (ls_awaited s))"

definition timers_inv :: "string option \<Rightarrow> lifecycle \<Rightarrow> bool" where
  "timers_inv tok s \<longleftrightarrow>
     (ls_timer_handles s = [] \<and> tm_pending (ls_timers s) = []) \<or>
     (\<exists>t n. tok = Some t \<and> ls_timer_handles s = [(t, n)] \<and> n \<le> tm_seq (ls_timers s) \<and>
        (tm_pending (ls_timers s) = [] \<or>
         (\<exists>w k. tm_pending (ls_timers s) = [(w, n, k)] \<and> (\<forall>x. \<not> notify_of x k))))"

definition context_of :: "speech_generation option \<Rightarrow> (string, string) dict" where
  "context_of cur =
     (case cur of None \<Rightarrow> [] | Some g \<Rightarrow> (case gn_context_id g of None \<Rightarrow> [] | Some c \<Rightarrow> [(c, gn_token g)]))"

text \<open>The coordinator holds exactly the generation \<open>cur\<close> (or none).\<close>

definition holds :: "speech_generation option \<Rightarrow> lifecycle \<Rightarrow> bool" where
  "holds cur s \<longleftrightarrow>
     ls_generations s = (case cur of None \<Rightarrow> [] | Some g \<Rightarrow> [(gn_token g, g)]) \<and>
     ls_slot_token s = map_option gn_token cur \<and>
     ls_context_tokens s = context_of cur \<and>
     timers_inv (map_option gn_token cur) s \<and>
     (\<forall>g. cur = Some g \<longrightarrow> \<not> gn_terminalized g \<and> gn_token g \<in> admitted s \<and> notices (gn_token g) s = 0 \<and>
        \<not> ls_connection_closed s \<and>
        (\<forall>c. gn_context_id g = Some c \<longrightarrow> c = gi_utterance_id (gn_identity g) \<and> \<not> is_tombstoned c s))"

text \<open>What does not depend on the current generation.\<close>

definition rest_inv :: "lifecycle \<Rightarrow> bool" where
  "rest_inv s \<longleftrightarrow>
     wf_dict (ls_context_tombstones s) \<and> length (ls_context_tombstones s) \<le> ls_tombstone_limit s \<and>
     (\<forall>t. notices t s \<le> 1) \<and> (\<forall>t. t \<notin> admitted s \<longrightarrow> notices t s = 0)"

lemma holds_live:
  "holds cur s \<Longrightarrow> live t s = (case cur of None \<Rightarrow> None | Some g \<Rightarrow> if gn_token g = t then Some g else None)"
  by (auto simp: holds_def live_def split: option.splits)

lemma holds_gen:
  "holds cur s \<Longrightarrow> map_of (ls_generations s) t =
     (case cur of None \<Rightarrow> None | Some g \<Rightarrow> if gn_token g = t then Some g else None)"
  by (auto simp: holds_def split: option.splits)

lemma holds_occupied: "holds cur s \<Longrightarrow> occupied_generation s = cur"
  by (auto simp: holds_def occupied_generation_def split: option.splits)

lemma live_None_or:
  assumes "holds cur s"
  obtains (dead) "live t s = None" | (alive) g where "cur = Some g" "gn_token g = t" "live t s = Some g"
  using holds_live [OF assms, of t] by (cases cur) (auto split: if_splits)

section \<open>Primitives keep the invariant\<close>

text \<open>States that differ only in what notices and admissions do not depend on.\<close>

lemma notices_cong:
  "ls_effects t = ls_effects s \<Longrightarrow> ls_tasks t = ls_tasks s \<Longrightarrow> ls_awaited t = ls_awaited s \<Longrightarrow>
     notices x t = notices x s"
  by (simp add: notices_def)

lemma admitted_cong: "ls_effects t = ls_effects s \<Longrightarrow> admitted t = admitted s"
  by (simp add: admitted_def)

lemma put_gen_frame [simp]:
  "ls_effects (put_gen t g s) = ls_effects s" "ls_tasks (put_gen t g s) = ls_tasks s"
  "ls_awaited (put_gen t g s) = ls_awaited s" "ls_context_tokens (put_gen t g s) = ls_context_tokens s"
  "ls_context_tombstones (put_gen t g s) = ls_context_tombstones s" "ls_timers (put_gen t g s) = ls_timers s"
  "ls_timer_handles (put_gen t g s) = ls_timer_handles s" "ls_slot_token (put_gen t g s) = ls_slot_token s"
  "ls_connection_closed (put_gen t g s) = ls_connection_closed s" "ls_grace (put_gen t g s) = ls_grace s"
  "ls_tombstone_limit (put_gen t g s) = ls_tombstone_limit s"
  "ls_generations (put_gen t g s) = AList.update t g (ls_generations s)"
  by (simp_all add: put_gen_def)

lemma cancel_timer_frame [simp]:
  "ls_effects (cancel_timer t s) = ls_effects s" "ls_tasks (cancel_timer t s) = ls_tasks s"
  "ls_awaited (cancel_timer t s) = ls_awaited s" "ls_context_tokens (cancel_timer t s) = ls_context_tokens s"
  "ls_context_tombstones (cancel_timer t s) = ls_context_tombstones s"
  "ls_slot_token (cancel_timer t s) = ls_slot_token s" "ls_generations (cancel_timer t s) = ls_generations s"
  "ls_connection_closed (cancel_timer t s) = ls_connection_closed s" "ls_grace (cancel_timer t s) = ls_grace s"
  "ls_tombstone_limit (cancel_timer t s) = ls_tombstone_limit s"
  by (simp_all add: cancel_timer_def split: option.split)

lemma arm_frame [simp]:
  "ls_effects (arm t w k s) = ls_effects s" "ls_tasks (arm t w k s) = ls_tasks s"
  "ls_awaited (arm t w k s) = ls_awaited s" "ls_context_tokens (arm t w k s) = ls_context_tokens s"
  "ls_context_tombstones (arm t w k s) = ls_context_tombstones s"
  "ls_slot_token (arm t w k s) = ls_slot_token s" "ls_generations (arm t w k s) = ls_generations s"
  "ls_connection_closed (arm t w k s) = ls_connection_closed s"
  "ls_tombstone_limit (arm t w k s) = ls_tombstone_limit s"
  by (simp_all add: arm_def call_at_def Let_def)

lemma timers_inv_cases:
  assumes "timers_inv tok s"
  obtains (none) "ls_timer_handles s = []" "tm_pending (ls_timers s) = []"
    | (fired) t n where "tok = Some t" "ls_timer_handles s = [(t, n)]" "n \<le> tm_seq (ls_timers s)"
        "tm_pending (ls_timers s) = []"
    | (armed) t n w k where "tok = Some t" "ls_timer_handles s = [(t, n)]" "n \<le> tm_seq (ls_timers s)"
        "tm_pending (ls_timers s) = [(w, n, k)]" "\<And>x. \<not> notify_of x k"
  using assms unfolding timers_inv_def by blast

lemma cancel_timer_timers:
  assumes "timers_inv (Some t) s"
  shows "ls_timer_handles (cancel_timer t s) = [] \<and> tm_pending (ls_timers (cancel_timer t s)) = []"
  using assms by (cases rule: timers_inv_cases) (auto simp: cancel_timer_def timer_cancel_def)

lemma arm_timers:
  assumes "timers_inv (Some t) s" and "\<And>x. \<not> notify_of x k"
  shows "timers_inv (Some t) (arm t w k s)"
  using cancel_timer_timers [OF assms(1)] assms(2)
  by (auto simp: arm_def call_at_def timers_inv_def Let_def)

lemma timers_inv_cong:
  "ls_timers t = ls_timers s \<Longrightarrow> ls_timer_handles t = ls_timer_handles s \<Longrightarrow> timers_inv x t = timers_inv x s"
  by (simp add: timers_inv_def)

lemma tombstoned_cong: "ls_context_tombstones t = ls_context_tombstones s \<Longrightarrow> is_tombstoned c t = is_tombstoned c s"
  by (simp add: is_tombstoned_def)

lemmas lc_congs = notices_cong admitted_cong tombstoned_cong timers_inv_cong

lemma rest_inv_cong:
  assumes "ls_effects t = ls_effects s" "ls_tasks t = ls_tasks s" "ls_awaited t = ls_awaited s"
    "ls_context_tombstones t = ls_context_tombstones s" "ls_tombstone_limit t = ls_tombstone_limit s"
  shows "rest_inv t = rest_inv s"
  by (simp add: rest_inv_def notices_def admitted_def assms)

lemma holds_cancel:
  assumes "holds (Some g) s"
  shows "holds (Some g) (cancel_timer (gn_token g) s)"
proof -
  have "timers_inv (Some (gn_token g)) s" using assms by (simp add: holds_def)
  from cancel_timer_timers [OF this] have "timers_inv (Some (gn_token g)) (cancel_timer (gn_token g) s)"
    by (simp add: timers_inv_def)
  with assms show ?thesis
    by (simp add: holds_def lc_congs(1-3) [of "cancel_timer (gn_token g) s" s])
qed

lemma holds_arm:
  assumes "holds (Some g) s" and "\<And>x. \<not> notify_of x k"
  shows "holds (Some g) (arm (gn_token g) w k s)"
proof -
  have "timers_inv (Some (gn_token g)) s" using assms by (simp add: holds_def)
  from arm_timers [OF this assms(2)] assms(1) show ?thesis
    by (simp add: holds_def lc_congs(1-3) [of "arm (gn_token g) w k s" s])
qed

lemma holds_put:
  assumes "holds (Some g) s" and "gn_token g' = gn_token g" and "gn_context_id g' = gn_context_id g"
    and "gn_identity g' = gn_identity g" and "\<not> gn_terminalized g'"
  shows "holds (Some g') (put_gen (gn_token g) g' s)"
  using assms
  by (simp add: holds_def context_of_def lc_congs(1-4) [of "put_gen (gn_token g) g' s" s] split: option.split)

lemma holds_quiet:
  assumes "holds cur s" and "ls_generations t = ls_generations s" "ls_slot_token t = ls_slot_token s"
    "ls_context_tokens t = ls_context_tokens s" "ls_timers t = ls_timers s" "ls_timer_handles t = ls_timer_handles s"
    "ls_connection_closed t = ls_connection_closed s" "ls_context_tombstones t = ls_context_tombstones s"
    "admitted t = admitted s" "\<And>x. notices x t = notices x s"
  shows "holds cur t"
  using assms by (auto simp: holds_def tombstoned_cong [of t s] timers_inv_cong [of t s])

text \<open>The whole invariant for a given current generation.\<close>

definition lc_ok :: "speech_generation option \<Rightarrow> lifecycle \<Rightarrow> bool" where
  "lc_ok cur s \<longleftrightarrow> holds cur s \<and> rest_inv s"

lemma lc_okD: "lc_ok cur s \<Longrightarrow> holds cur s"
  by (simp add: lc_ok_def)

lemma ok_cancel: "lc_ok (Some g) s \<Longrightarrow> lc_ok (Some g) (cancel_timer (gn_token g) s)"
  by (simp add: lc_ok_def holds_cancel rest_inv_cong [of "cancel_timer (gn_token g) s" s])

lemma ok_arm: "lc_ok (Some g) s \<Longrightarrow> (\<And>x. \<not> notify_of x k) \<Longrightarrow> lc_ok (Some g) (arm (gn_token g) w k s)"
  by (simp add: lc_ok_def holds_arm rest_inv_cong [of "arm (gn_token g) w k s" s])

lemma ok_put:
  "lc_ok (Some g) s \<Longrightarrow> gn_token g' = gn_token g \<Longrightarrow> gn_context_id g' = gn_context_id g \<Longrightarrow>
     gn_identity g' = gn_identity g \<Longrightarrow> \<not> gn_terminalized g' \<Longrightarrow> lc_ok (Some g') (put_gen (gn_token g) g' s)"
  by (simp add: lc_ok_def holds_put rest_inv_cong [of "put_gen (gn_token g) g' s" s])

lemma effect_frame [simp]:
  "ls_tasks (effect e s) = ls_tasks s" "ls_awaited (effect e s) = ls_awaited s"
  "ls_context_tokens (effect e s) = ls_context_tokens s" "ls_slot_token (effect e s) = ls_slot_token s"
  "ls_context_tombstones (effect e s) = ls_context_tombstones s" "ls_timers (effect e s) = ls_timers s"
  "ls_timer_handles (effect e s) = ls_timer_handles s" "ls_generations (effect e s) = ls_generations s"
  "ls_connection_closed (effect e s) = ls_connection_closed s"
  "ls_tombstone_limit (effect e s) = ls_tombstone_limit s"
  "ls_effects (effect e s) = ls_effects s @ [e]"
  by (simp_all add: effect_def)

lemma schedule_frame [simp]:
  "ls_effects (schedule k s) = ls_effects s" "ls_awaited (schedule k s) = ls_awaited s"
  "ls_context_tokens (schedule k s) = ls_context_tokens s" "ls_slot_token (schedule k s) = ls_slot_token s"
  "ls_context_tombstones (schedule k s) = ls_context_tombstones s" "ls_timers (schedule k s) = ls_timers s"
  "ls_timer_handles (schedule k s) = ls_timer_handles s" "ls_generations (schedule k s) = ls_generations s"
  "ls_connection_closed (schedule k s) = ls_connection_closed s"
  "ls_tombstone_limit (schedule k s) = ls_tombstone_limit s"
  "ls_tasks (schedule k s) = ls_tasks s @ [k]"
  by (simp_all add: schedule_def)

lemma notices_effect [simp]: "notices x (effect e s) = notices x s + (if terminal_of x e then 1 else 0)"
  by (simp add: notices_def)

lemma notices_schedule [simp]: "notices x (schedule k s) = notices x s + (if notify_of x k then 1 else 0)"
  by (simp add: notices_def)

lemma admitted_effect [simp]:
  "admitted (effect e s) = (case e of EAdmit t i \<Rightarrow> insert t (admitted s) | _ \<Rightarrow> admitted s)"
  by (auto simp: admitted_def split: lc_effect.split)

lemma admitted_schedule [simp]: "admitted (schedule k s) = admitted s"
  by (simp add: admitted_def)

lemma ok_quiet:
  assumes "lc_ok cur s" and "ls_generations t = ls_generations s" "ls_slot_token t = ls_slot_token s"
    "ls_context_tokens t = ls_context_tokens s" "ls_timers t = ls_timers s" "ls_timer_handles t = ls_timer_handles s"
    "ls_connection_closed t = ls_connection_closed s" "ls_context_tombstones t = ls_context_tombstones s"
    "ls_tombstone_limit t = ls_tombstone_limit s"
    "admitted t = admitted s" "\<And>x. notices x t = notices x s"
  shows "lc_ok cur t"
proof -
  have "holds cur t" by (rule holds_quiet [of cur s]) (use assms in \<open>auto simp: lc_ok_def\<close>)
  moreover have "rest_inv t" using assms by (simp add: lc_ok_def rest_inv_def)
  ultimately show ?thesis by (simp add: lc_ok_def)
qed

lemma ok_effect:
  assumes "lc_ok cur s" and "\<And>x. \<not> terminal_of x e" and "\<And>t i. e \<noteq> EAdmit t i"
  shows "lc_ok cur (effect e s)"
  by (rule ok_quiet [OF assms(1)]) (use assms(2,3) in \<open>auto split: lc_effect.split\<close>)

lemma ok_schedule: "lc_ok cur s \<Longrightarrow> (\<And>x. \<not> notify_of x k) \<Longrightarrow> lc_ok cur (schedule k s)"
  by (erule ok_quiet) auto

lemma ok_await: "lc_ok cur s \<Longrightarrow> (\<And>x. \<not> notify_of x k) \<Longrightarrow> lc_ok cur (s\<lparr>ls_awaited := ls_awaited s @ [k]\<rparr>)"
  by (erule ok_quiet) (auto simp: notices_def admitted_def)

text \<open>The one notification of a generation that has left the slot.\<close>

lemma ok_notice:
  assumes "lc_ok None s" and "t \<in> admitted s" and "notices t s = 0"
  shows "lc_ok None (effect (ETerminal t i d) s)" and "lc_ok None (schedule (KNotify t i d) s)"
  using assms
  by (auto simp: lc_ok_def rest_inv_def holds_def timers_inv_def)

text \<open>Reaping the current generation.\<close>

lemma terminalize_dead: "live t s = None \<Longrightarrow> terminalize_state t d s = (s, None)"
  by (simp add: terminalize_state_def)

lemma terminalize_live:
  assumes ok: "lc_ok (Some g) s"
  obtains s' where "terminalize_state (gn_token g) d s = (s', Some (gn_identity g, final_disposition g d))"
    "lc_ok None s'" "gn_token g \<in> admitted s'" "notices (gn_token g) s' = 0"
    "ls_effects s' = ls_effects s" "ls_tasks s' = ls_tasks s" "ls_awaited s' = ls_awaited s"
    "\<And>c. gn_context_id g = Some c \<Longrightarrow> ls_tombstone_limit s \<noteq> 0 \<Longrightarrow> is_tombstoned c s'"
proof -
  let ?t = "gn_token g"
  define s' where "s' = fst (terminalize_state ?t d s)"
  have h: "holds (Some g) s" "rest_inv s" using ok by (auto simp: lc_ok_def)
  have live: "live ?t s = Some g" using holds_live [OF h(1), of ?t] by simp
  have "timers_inv (Some ?t) s" using h(1) by (simp add: holds_def)
  note tm = cancel_timer_timers [OF this]
  have eq: "terminalize_state ?t d s = (s', Some (gn_identity g, final_disposition g d))"
    by (simp add: s'_def terminalize_state_def live Let_def)
  have parts: "ls_effects s' = ls_effects s" "ls_tasks s' = ls_tasks s" "ls_awaited s' = ls_awaited s"
    "ls_slot_token s' = None" "ls_generations s' = []" "ls_context_tokens s' = []"
    "ls_timer_handles s' = []" "tm_pending (ls_timers s') = []" "ls_tombstone_limit s' = ls_tombstone_limit s"
    "ls_context_tombstones s' = (case gn_context_id g of None \<Rightarrow> ls_context_tombstones s
       | Some c \<Rightarrow> if ls_tombstone_limit s \<noteq> 0
                   then lru_put (ls_tombstone_limit s) c () (ls_context_tombstones s) else ls_context_tombstones s)"
    using h(1) tm
    by (auto simp: s'_def terminalize_state_def live Let_def reap_context_def holds_def context_of_def
        split: option.splits)
  have "rest_inv s'"
    using h(2) unfolding rest_inv_def notices_def admitted_def parts
    by (auto simp: length_lru_put split: option.split)
  then have "lc_ok None s'" using parts by (simp add: lc_ok_def holds_def context_of_def timers_inv_def)
  moreover have "?t \<in> admitted s'" "notices ?t s' = 0"
    using h(1) parts(1-3) by (auto simp: holds_def notices_def admitted_def)
  moreover have "is_tombstoned c s'" if "gn_context_id g = Some c" "ls_tombstone_limit s \<noteq> 0" for c
    using that h(2) map_of_lru_put_same [of "ls_context_tombstones s" "ls_tombstone_limit s" c "()"]
    by (simp add: is_tombstoned_def parts rest_inv_def)
  ultimately show ?thesis using that [OF eq] parts(1-3) by blast
qed

section \<open>Operations keep the invariant\<close>

definition plain :: "lc_task option \<Rightarrow> bool" where
  "plain k \<longleftrightarrow> (\<forall>x. case k of None \<Rightarrow> True | Some k \<Rightarrow> \<not> notify_of x k)"

lemma plain_simps [simp]: "plain None" "plain (Some k) \<longleftrightarrow> (\<forall>x. \<not> notify_of x k)"
  by (simp_all add: plain_def)

text \<open>A segment of a coroutine is fine when it keeps the invariant and waits for no notification.\<close>

definition segment_ok :: "lifecycle \<times> lc_task option \<Rightarrow> bool" where
  "segment_ok r \<longleftrightarrow> (\<exists>cur. lc_ok cur (fst r)) \<and> plain (snd r)"

lemma segment_same: "lc_ok cur s \<Longrightarrow> segment_ok (s, None)"
  by (auto simp: segment_ok_def)

lemma segment_intro: "lc_ok cur s \<Longrightarrow> plain k \<Longrightarrow> segment_ok (s, k)"
  by (auto simp: segment_ok_def)

lemma terminalize_segment:
  assumes "lc_ok cur s" and "\<And>x y. \<not> notify_of x (after y)"
  shows "segment_ok (terminalize t d after s)"
proof (cases rule: live_None_or [OF lc_okD [OF assms(1)], of t])
  case 1
  then show ?thesis using assms(1) by (simp add: terminalize_def terminalize_dead segment_same)
next
  case (2 g)
  then obtain s' where "terminalize_state t d s = (s', Some (gn_identity g, final_disposition g d))"
    "lc_ok None s'" "t \<in> admitted s'" "notices t s' = 0"
    using terminalize_live [of g s d] assms(1) by metis
  then show ?thesis
    using assms(2) by (auto simp: terminalize_def intro!: segment_intro ok_notice)
qed

lemma request_teardown_segment: "lc_ok cur s \<Longrightarrow> segment_ok (request_teardown t s)"
proof -
  assume ok: "lc_ok cur s"
  show ?thesis
  proof (cases rule: live_None_or [OF lc_okD [OF ok], of t])
    case (2 g)
    let ?g = "g\<lparr>gn_teardown_pending := True\<rparr>"
    have nt: "\<not> gn_terminalized g" using ok 2(1) by (auto simp: lc_ok_def holds_def)
    have "lc_ok (Some ?g) (put_gen t ?g s)"
      using ok_put [of g s ?g] ok 2 nt by simp
    from ok_cancel [OF this] have "lc_ok (Some ?g) (cancel_timer t (put_gen t ?g s))" using 2(2) by simp
    from ok_effect [OF this, of "ETeardown t (gn_identity g)"] show ?thesis
      using ok 2(3) by (auto simp: request_teardown_def intro: segment_intro segment_same)
  qed (use ok in \<open>simp add: request_teardown_def segment_same\<close>)
qed

lemma begin_cleanup_segment:
  assumes "lc_ok (Some g) s" and "gn_token g = t"
  shows "segment_ok (begin_cleanup t g s)"
proof -
  let ?g = "g\<lparr>gn_cleanup_pending := True\<rparr>"
  have nt: "\<not> gn_terminalized g" using assms by (auto simp: lc_ok_def holds_def)
  have "lc_ok (Some ?g) (put_gen t ?g s)" using ok_put [of g s ?g] assms nt by simp
  from ok_effect [OF this, of "ECleanup t (gn_identity g)"] show ?thesis
    using assms by (auto simp: begin_cleanup_def intro: segment_intro segment_same)
qed

lemma run_task_segment:
  assumes ok: "lc_ok cur s" and "\<And>x. \<not> notify_of x k"
  shows "segment_ok (run_task b k s)"
proof -
  note fin = terminalize_segment [OF ok] and req = request_teardown_segment [OF ok] and same = segment_same [OF ok]
  have unknown: "segment_ok (begin_delivery_unknown t s)" for t
  proof (cases rule: live_None_or [OF lc_okD [OF ok], of t])
    case (2 g)
    let ?g = "g\<lparr>gn_disposition := Some (final_disposition g D_DELIVERY_UNKNOWN), gn_tombstoned := True\<rparr>"
    have nt: "\<not> gn_terminalized g" using ok 2(1) by (auto simp: lc_ok_def holds_def)
    have "lc_ok (Some ?g) (put_gen t ?g s)" using ok_put [of g s ?g] ok 2 nt by simp
    from begin_cleanup_segment [OF this] 2 show ?thesis by (simp add: begin_delivery_unknown_def Let_def)
  qed (simp add: begin_delivery_unknown_def same)
  have interrupted: "segment_ok (on_interruption_timeout t s)" for t
    by (cases rule: live_None_or [OF lc_okD [OF ok], of t])
      (use ok in \<open>auto simp: on_interruption_timeout_def same intro: begin_cleanup_segment\<close>)
  have finalize: "segment_ok (finalize_uncontexted t d s)" for t d
    by (cases rule: live_None_or [OF lc_okD [OF ok], of t])
      (use ok in \<open>auto simp: finalize_uncontexted_def same intro!: segment_intro ok_effect\<close>)
  have ack: "segment_ok (acknowledge_tts_lane_flush t s)" for t
    using fin same by (auto simp: acknowledge_tts_lane_flush_def split: option.split)
  have down: "segment_ok (teardown_complete t s)" for t
  proof (cases "map_of (ls_generations s) t")
    case (Some g)
    have "segment_ok (terminalize t (final_disposition g D_DELIVERY_UNKNOWN) WTeardownNotified s)"
      by (rule fin) simp
    moreover have "lc_ok c u \<Longrightarrow> lc_ok c (u\<lparr>ls_teardown_generation := n\<rparr>)" for c u n
      by (erule ok_quiet) (auto simp: notices_def admitted_def)
    ultimately show ?thesis using Some
      by (auto simp: teardown_complete_def segment_ok_def split: prod.splits option.splits) blast+
  qed (simp add: teardown_complete_def same)
  have cleanup: "segment_ok (cleanup_dispatched b t s)" for t
  proof (cases rule: live_None_or [OF lc_okD [OF ok], of t])
    case (2 g)
    have "lc_ok (Some g) (arm t (clock_now s + ls_grace s) (KFlushAckTimeout t) s)"
      using ok_arm [of g s] ok 2 by simp
    then show ?thesis using 2 req by (auto simp: cleanup_dispatched_def intro: segment_intro)
  qed (use req same in \<open>auto simp: cleanup_dispatched_def\<close>)
  have count: "segment_ok (if b then s\<lparr>ls_teardown_generation := n\<rparr> else s, None)" for n
    using ok by (auto intro!: segment_intro ok_quiet [OF ok] simp: notices_def admitted_def)
  show ?thesis
    using assms(2) unknown interrupted finalize ack down cleanup fin req same count
    by (cases k) auto
qed

section \<open>Every step keeps the invariant\<close>

lemma filter_remove_at:
  assumes "i < length xs"
  shows "length (filter P xs) = length (filter P (remove_at i xs)) + (if P (xs ! i) then 1 else 0)"
proof -
  have "filter P xs = filter P (take i xs) @ filter P (xs ! i # drop (Suc i) xs)"
    using assms by (metis Cons_nth_drop_Suc append_take_drop_id filter_append)
  then show ?thesis by (simp add: remove_at_def)
qed

lemma ok_remove_task:
  assumes "lc_ok cur s" and "i < length (ls_tasks s)" and "\<And>x. \<not> notify_of x (ls_tasks s ! i)"
  shows "lc_ok cur (s\<lparr>ls_tasks := remove_at i (ls_tasks s)\<rparr>)"
  by (rule ok_quiet [OF assms(1)])
    (use assms filter_remove_at [OF assms(2)] in \<open>auto simp: notices_def admitted_def\<close>)

lemma ok_remove_awaited:
  assumes "lc_ok cur s" and "i < length (ls_awaited s)" and "\<And>x. \<not> notify_of x (ls_awaited s ! i)"
  shows "lc_ok cur (s\<lparr>ls_awaited := remove_at i (ls_awaited s)\<rparr>)"
  by (rule ok_quiet [OF assms(1)])
    (use assms filter_remove_at [OF assms(2)] in \<open>auto simp: notices_def admitted_def\<close>)

text \<open>Running a scheduled notification turns the scheduled notice into a dispatched one.\<close>

lemma ok_notify_runs:
  assumes "lc_ok cur s" and "i < length (ls_tasks s)" and "ls_tasks s ! i = KNotify t x d"
  shows "lc_ok cur (effect (ETerminal t x d) (s\<lparr>ls_tasks := remove_at i (ls_tasks s)\<rparr>))"
proof (rule ok_quiet [OF assms(1)])
  fix y
  show "notices y (effect (ETerminal t x d) (s\<lparr>ls_tasks := remove_at i (ls_tasks s)\<rparr>)) = notices y s"
    using filter_remove_at [OF assms(2), of "notify_of y"] assms(3) by (auto simp: notices_def)
qed (auto simp: admitted_def effect_def)

lemma ok_scheduled_segment:
  assumes "segment_ok (u, k)"
  shows "\<exists>cur. lc_ok cur (case k of None \<Rightarrow> u | Some k \<Rightarrow> schedule k u)"
    and "\<exists>cur. lc_ok cur (case k of None \<Rightarrow> u | Some k \<Rightarrow> u\<lparr>ls_awaited := ls_awaited u @ [k]\<rparr>)"
proof -
  obtain cur where ok: "lc_ok cur u" and plain: "plain k" using assms by (auto simp: segment_ok_def)
  show "\<exists>cur. lc_ok cur (case k of None \<Rightarrow> u | Some k \<Rightarrow> schedule k u)"
    using ok plain ok_schedule [OF ok] by (cases k) auto
  show "\<exists>cur. lc_ok cur (case k of None \<Rightarrow> u | Some k \<Rightarrow> u\<lparr>ls_awaited := ls_awaited u @ [k]\<rparr>)"
    using ok plain ok_await [OF ok] by (cases k) auto
qed

lemma run_scheduled_ok:
  assumes ok: "lc_ok cur s"
  shows "\<exists>cur. lc_ok cur (run_scheduled i b s)"
proof (cases "i < length (ls_tasks s)")
  case True
  let ?k = "ls_tasks s ! i" and ?u = "s\<lparr>ls_tasks := remove_at i (ls_tasks s)\<rparr>"
  show ?thesis
  proof (cases "\<exists>t x d. ?k = KNotify t x d")
    case True
    with ok_notify_runs [OF ok \<open>i < _\<close>] \<open>i < _\<close> show ?thesis
      by (auto simp: run_scheduled_def intro!: exI ok_schedule)
  next
    case False
    then have plain: "\<not> notify_of x ?k" for x by (cases ?k) auto
    obtain u k where r: "run_task b ?k ?u = (u, k)" by fastforce
    have "segment_ok (u, k)"
      using run_task_segment [OF ok_remove_task [OF ok \<open>i < _\<close> plain] plain, of b] r by simp
    from ok_scheduled_segment(1) [OF this] show ?thesis
      using \<open>i < _\<close> r by (simp add: run_scheduled_def split: option.splits)
  qed
qed (use ok in \<open>auto simp: run_scheduled_def\<close>)

definition awaited_plain :: "lifecycle \<Rightarrow> bool" where
  "awaited_plain s \<longleftrightarrow> (\<forall>k \<in> set (ls_awaited s). \<forall>x. \<not> notify_of x k)"

lemma run_awaited_ok:
  assumes ok: "lc_ok cur s" and pl: "awaited_plain s"
  shows "\<exists>cur. lc_ok cur (run_awaited i b s)"
proof (cases "i < length (ls_awaited s)")
  case True
  let ?k = "ls_awaited s ! i" and ?u = "s\<lparr>ls_awaited := remove_at i (ls_awaited s)\<rparr>"
  have plain: "\<not> notify_of x ?k" for x using pl True by (simp add: awaited_plain_def)
  obtain u k where r: "run_task b ?k ?u = (u, k)" by fastforce
  have "segment_ok (u, k)"
    using run_task_segment [OF ok_remove_awaited [OF ok True plain] plain, of b] r by simp
  from ok_scheduled_segment(2) [OF this] show ?thesis
    using True r by (simp add: run_awaited_def split: option.splits)
qed (use ok in \<open>auto simp: run_awaited_def\<close>)

lemma await_ok:
  assumes "lc_ok cur s" and "\<And>x. \<not> notify_of x k"
  shows "\<exists>cur. lc_ok cur (await_task k s)"
proof -
  obtain u k' where r: "run_task True k s = (u, k')" by fastforce
  have "segment_ok (u, k')" using run_task_segment [OF assms, of True] r by simp
  from ok_scheduled_segment(2) [OF this] r show ?thesis by (simp add: await_task_def split: option.splits)
qed

lemma admit_ok:
  assumes ok: "lc_ok cur s" and fresh: "t \<notin> admitted s"
  shows "\<exists>cur. lc_ok cur (fst (pre_admission_disposition acc t i s))"
proof (cases "ls_tts_available s \<and> \<not> (gi_role i = Ack_Role \<and> acc = Some False) \<and>
    \<not> ls_connection_closed s \<and> ls_slot_token s = None")
  case True
  let ?u = "effect (EAdmit t i) ((put_gen t (new_generation t i) s)\<lparr>ls_slot_token := Some t\<rparr>)"
  have "cur = None" using ok True by (cases cur) (auto simp: lc_ok_def holds_def)
  with ok have n: "holds None s" "rest_inv s" by (auto simp: lc_ok_def)
  then have zero: "notices t s = 0" using fresh by (simp add: rest_inv_def)
  have notice: "notices x ?u = notices x s" for x by (simp add: notices_def)
  have adm: "admitted ?u = insert t (admitted s)" by (auto simp: admitted_def)
  have "holds (Some (new_generation t i)) ?u"
    using n(1) zero True unfolding holds_def notice adm
    by (auto simp: new_generation_def context_of_def timers_inv_def)
  moreover have "rest_inv ?u" using n(2) unfolding rest_inv_def notice adm by simp
  moreover have "fst (pre_admission_disposition acc t i s) = ?u"
    using True by (auto simp: pre_admission_disposition_def try_admit_def Let_def)
  ultimately show ?thesis by (auto simp: lc_ok_def)
next
  case False
  then have "fst (pre_admission_disposition acc t i s) = s"
    by (auto simp: pre_admission_disposition_def try_admit_def Let_def)
  with ok show ?thesis by auto
qed

lemma bind_ok:
  assumes ok: "lc_ok cur s"
  shows "\<exists>cur. lc_ok cur (fst (bind_context t c s))"
proof (cases "snd (bind_context t c s) \<and> fst (bind_context t c s) \<noteq> s")
  case True
  then obtain g where g: "live t s = Some g" "gn_context_id g = None" "c = gi_utterance_id (gn_identity g)"
    "\<not> is_tombstoned c s"
    "fst (bind_context t c s) = (put_gen t (g\<lparr>gn_context_id := Some c\<rparr>) s)
        \<lparr>ls_context_tokens := AList.update c t (ls_context_tokens s)\<rparr>"
    unfolding bind_context_def by (cases "live t s") (auto split: if_splits)
  let ?g = "g\<lparr>gn_context_id := Some c\<rparr>" and ?u = "fst (bind_context t c s)"
  have cur: "cur = Some g" "gn_token g = t" using holds_live [OF lc_okD [OF ok], of t] g(1)
    by (auto split: option.splits if_splits)
  have "admitted ?u = admitted s" "notices x ?u = notices x s" "is_tombstoned c' ?u = is_tombstoned c' s"
    "timers_inv y ?u = timers_inv y s" for x y c'
    unfolding g(5) by (auto simp: admitted_def notices_def is_tombstoned_def timers_inv_def)
  note same = this
  have "rest_inv ?u" using ok same unfolding lc_ok_def rest_inv_def by (simp add: g(5))
  moreover have "ls_generations ?u = AList.update t ?g (ls_generations s)" "ls_slot_token ?u = ls_slot_token s"
    "ls_context_tokens ?u = AList.update c t (ls_context_tokens s)" "ls_connection_closed ?u = ls_connection_closed s"
    unfolding g(5) by simp_all
  note parts = this
  have "holds (Some ?g) ?u"
    using ok cur g(2-4) unfolding lc_ok_def holds_def parts same by (auto simp: context_of_def)
  ultimately show ?thesis by (auto simp: lc_ok_def)
next
  case False
  have "fst (bind_context t c s) = s" if "\<not> snd (bind_context t c s)"
    using that unfolding bind_context_def by (cases "live t s") (auto split: if_splits)
  with False ok show ?thesis by auto
qed

lemma interrupt_ok:
  assumes ok: "lc_ok cur s"
  shows "\<exists>cur. lc_ok cur (record_interruption t pause s)"
proof (cases rule: live_None_or [OF lc_okD [OF ok], of t])
  case (2 g)
  define d where "d = (if pause then D_PAUSED else D_INTERRUPTED)"
  let ?g = "g\<lparr>gn_disposition := Some d, gn_tombstoned := True\<rparr>" and ?c = "cancel_timer t s"
  have nt: "\<not> gn_terminalized g" using ok 2(1) by (auto simp: lc_ok_def holds_def)
  have "lc_ok (Some g) ?c" using ok_cancel ok 2 by blast
  from ok_put [OF this, of ?g] nt 2(2) have p: "lc_ok (Some ?g) (put_gen t ?g ?c)" by simp
  have "record_interruption t pause s =
      (if gn_context_id g = None then schedule (KFinalizeUncontexted t d) (put_gen t ?g ?c)
       else arm t (clock_now (put_gen t ?g ?c) + ls_grace (put_gen t ?g ?c)) (KInterruptionTimeout t) (put_gen t ?g ?c))"
    using 2(3) by (simp add: record_interruption_def d_def Let_def)
  moreover have "lc_ok (Some ?g) (schedule (KFinalizeUncontexted t d) (put_gen t ?g ?c))"
    by (rule ok_schedule [OF p]) simp
  moreover have "lc_ok (Some ?g) (arm t w (KInterruptionTimeout t) (put_gen t ?g ?c))" for w
    using ok_arm [OF p, of "KInterruptionTimeout t" w] 2(2) by simp
  ultimately show ?thesis by (metis (no_types))
qed (use ok in \<open>auto simp: record_interruption_def\<close>)

lemma release_ok:
  assumes ok: "lc_ok cur s"
  shows "\<exists>cur. lc_ok cur (release_generation t notify d s)"
proof (cases rule: live_None_or [OF lc_okD [OF ok], of t])
  case (2 g)
  then obtain s' where "terminalize_state t d s = (s', Some (gn_identity g, final_disposition g d))"
    "lc_ok None s'" "t \<in> admitted s'" "notices t s' = 0"
    using terminalize_live [of g s d] ok by metis
  then show ?thesis by (auto simp: release_generation_def intro: ok_notice)
qed (use ok in \<open>auto simp: release_generation_def terminalize_dead\<close>)

lemma frame_generation_current:
  assumes ok: "lc_ok cur s" and fg: "frame_generation c s = Some (t, g)"
  shows "cur = Some g \<and> gn_token g = t \<and> gn_context_id g = Some c \<and> \<not> gn_tombstoned g \<and> \<not> gn_terminalized g"
proof -
  have "map_of (ls_context_tokens s) c = Some t" "map_of (ls_generations s) t = Some g"
    "\<not> gn_tombstoned g" "\<not> gn_terminalized g"
    using fg by (auto simp: frame_generation_def split: option.splits if_splits)
  then show ?thesis using ok holds_gen [OF lc_okD [OF ok], of t]
    by (auto simp: lc_ok_def holds_def context_of_def split: option.splits if_splits)
qed

lemma tts_ok:
  assumes ok: "lc_ok cur s"
  shows "\<exists>cur. lc_ok cur (fst (on_tts_started c s))"
    and "\<exists>cur. lc_ok cur (fst (on_tts_audio c n r ch s))"
    and "\<exists>cur. lc_ok cur (fst (on_tts_stopped c s))"
    and "\<exists>cur. lc_ok cur (mark_handed_to_tts t s)"
proof -
  have started: "\<exists>cur. lc_ok cur (put_gen t (g\<lparr>gn_phase := ph\<rparr>) (cancel_timer t s))"
    and handed: "\<exists>cur. lc_ok cur (arm t w (KStartTimeout t) (put_gen t (g\<lparr>gn_phase := ph\<rparr>) s))"
    if "live t s = Some g" for t g w ph
  proof -
    have cur: "cur = Some g" "gn_token g = t" using holds_live [OF lc_okD [OF ok], of t] that
      by (auto split: option.splits if_splits)
    then have nt: "\<not> gn_terminalized g" using ok by (auto simp: lc_ok_def holds_def)
    have "lc_ok (Some g) (cancel_timer t s)" using ok_cancel ok cur by blast
    from ok_put [OF this, of "g\<lparr>gn_phase := ph\<rparr>"] nt cur
    show "\<exists>cur. lc_ok cur (put_gen t (g\<lparr>gn_phase := ph\<rparr>) (cancel_timer t s))" by auto
    have "lc_ok (Some (g\<lparr>gn_phase := ph\<rparr>)) (put_gen t (g\<lparr>gn_phase := ph\<rparr>) s)"
      using ok_put [of g s "g\<lparr>gn_phase := ph\<rparr>"] ok nt cur by simp
    from ok_arm [OF this, of "KStartTimeout t" w] cur
    show "\<exists>cur. lc_ok cur (arm t w (KStartTimeout t) (put_gen t (g\<lparr>gn_phase := ph\<rparr>) s))" by auto
  qed
  show "\<exists>cur. lc_ok cur (fst (on_tts_started c s))"
    using ok started by (auto simp: on_tts_started_def split: option.split)
  show "\<exists>cur. lc_ok cur (mark_handed_to_tts t s)"
    using ok handed by (auto simp: mark_handed_to_tts_def split: option.split)
  show "\<exists>cur. lc_ok cur (fst (on_tts_audio c n r ch s))"
  proof (cases "frame_generation c s")
    case (Some p)
    obtain t g where p: "p = (t, g)" by (cases p)
    let ?g = "g\<lparr>gn_audio_duration_seconds := gn_audio_duration_seconds g + audio_seconds n r ch, gn_audio_submitted := True\<rparr>"
    have "lc_ok (Some ?g) (put_gen t ?g s)"
      using frame_generation_current [OF ok Some [unfolded p]] ok ok_put [of g s ?g] by auto
    then show ?thesis using Some p by (auto simp: on_tts_audio_def)
  qed (use ok in \<open>auto simp: on_tts_audio_def\<close>)
  show "\<exists>cur. lc_ok cur (fst (on_tts_stopped c s))"
  proof (cases "frame_generation c s")
    case (Some p)
    obtain t g where p: "p = (t, g)" by (cases p)
    let ?g = "g\<lparr>gn_phase := PHASE_SYNTHESIS_ENDED, gn_synthesis_ended_at := Some (clock_now s)\<rparr>"
    have "lc_ok (Some ?g) (put_gen t ?g s)" "gn_token ?g = t"
      using frame_generation_current [OF ok Some [unfolded p]] ok ok_put [of g s ?g] by auto
    then show ?thesis using Some p ok_arm [of ?g "put_gen t ?g s" "KDrainTimeout t"]
      by (auto simp: on_tts_stopped_def)
  qed (use ok in \<open>auto simp: on_tts_stopped_def\<close>)
qed

lemma bot_ok:
  assumes ok: "lc_ok cur s"
  shows "\<exists>cur. lc_ok cur (on_transport_bot_started s)" "\<exists>cur. lc_ok cur (on_transport_bot_stopped s)"
proof -
  have occ: "occupied_generation s = cur" using holds_occupied lc_okD [OF ok] by blast
  have put: "lc_ok (Some (g\<lparr>gn_phase := ph\<rparr>)) (put_gen (gn_token g) (g\<lparr>gn_phase := ph\<rparr>) u)"
    if "lc_ok (Some g) u" for g u ph
    using ok_put [OF that, of "g\<lparr>gn_phase := ph\<rparr>"] that by (auto simp: lc_ok_def holds_def)
  show "\<exists>cur. lc_ok cur (on_transport_bot_started s)"
    using ok put by (cases cur) (auto simp: on_transport_bot_started_def occ)
  show "\<exists>cur. lc_ok cur (on_transport_bot_stopped s)"
  proof (cases cur)
    case None
    then show ?thesis using ok_schedule [OF ok, of KNoop] by (auto simp: on_transport_bot_stopped_def occ)
  next
    case (Some g)
    have "lc_ok (Some g) (cancel_timer (gn_token g) s)" using ok_cancel ok Some by blast
    from ok_schedule [OF put [OF this], of "KTerminalize (gn_token g) D_DELIVERY_UNKNOWN" TRANSPORT_STOPPED]
    show ?thesis by (auto simp: on_transport_bot_stopped_def occ Some)
  qed
qed

lemma fire_due_inv:
  assumes "timers_inv tok s" and "ls_timers s = tm"
  shows "(fire_due (tm\<lparr>tm_now := n\<rparr>) = (tm\<lparr>tm_now := n\<rparr>, [])) \<or>
    (\<exists>w i k. tm_pending tm = [(w, i, k)] \<and> fire_due (tm\<lparr>tm_now := n\<rparr>) = (tm\<lparr>tm_now := n, tm_pending := []\<rparr>, [k]) \<and>
       (\<forall>x. \<not> notify_of x k))"
  using assms(1) by (cases rule: timers_inv_cases)
    (use assms(2) in \<open>auto simp: fire_due_def timer_cancel_def Let_def\<close>)

lemma advance_ok:
  assumes ok: "lc_ok cur s"
  shows "\<exists>cur. lc_ok cur (advance dt s)"
proof -
  let ?n = "tm_now (ls_timers s) + dt" and ?tok = "map_option gn_token cur"
  have tm: "timers_inv ?tok s" using ok by (simp add: lc_ok_def holds_def)
  consider "advance dt s = s\<lparr>ls_timers := (ls_timers s)\<lparr>tm_now := ?n\<rparr>\<rparr>"
    | k where "advance dt s = s\<lparr>ls_timers := (ls_timers s)\<lparr>tm_now := ?n, tm_pending := []\<rparr>, ls_tasks := ls_tasks s @ [k]\<rparr>"
      "\<And>x. \<not> notify_of x k"
    using fire_due_inv [OF tm refl, of ?n] by (auto simp: advance_def Let_def)
  then show ?thesis
  proof cases
    case 1
    have "lc_ok cur (advance dt s)"
      using ok tm unfolding 1 lc_ok_def holds_def rest_inv_def
      by (simp add: notices_def admitted_def is_tombstoned_def timers_inv_def)
    then show ?thesis by blast
  next
    case (2 k)
    have "timers_inv ?tok (advance dt s)"
      using tm unfolding 2(1) by (auto simp: timers_inv_def)
    then have "lc_ok cur (advance dt s)"
      using ok 2(2) unfolding 2(1) lc_ok_def holds_def rest_inv_def
      by (simp add: notices_def admitted_def is_tombstoned_def)
    then show ?thesis by blast
  qed
qed

lemma close_ok:
  assumes ok: "lc_ok cur s"
  shows "lc_ok None (close_connection s)"
proof -
  have tm: "timers_inv (map_option gn_token cur) s" using ok by (simp add: lc_ok_def holds_def)
  have frame: "ls_effects (close_connection s) = ls_effects s" "ls_awaited (close_connection s) = ls_awaited s"
    "tm_pending (ls_timers (close_connection s)) = []"
    using tm by (cases rule: timers_inv_cases; simp add: close_connection_def timer_cancel_def)+
  have less: "notices t (close_connection s) \<le> notices t s" for t
    by (simp add: notices_def frame) (simp add: close_connection_def)
  have "notices t (close_connection s) \<le> 1" "t \<notin> admitted s \<longrightarrow> notices t (close_connection s) = 0" for t
    using ok less [of t] by (auto simp: lc_ok_def rest_inv_def dest: spec [of _ t] intro: order.trans)
  then have "rest_inv (close_connection s)"
    by (simp add: rest_inv_def admitted_def frame) (simp add: close_connection_def)
  moreover have "holds None (close_connection s)"
    using frame(3) by (simp add: holds_def timers_inv_def context_of_def) (simp add: close_connection_def)
  ultimately show ?thesis by (simp add: lc_ok_def)
qed

lemma terminalize_state_awaited: "ls_awaited (fst (terminalize_state t d s)) = ls_awaited s"
  by (auto simp: terminalize_state_def reap_context_def Let_def split: option.split)

lemma terminalize_awaited: "ls_awaited (fst (terminalize t d after s)) = ls_awaited s"
  using terminalize_state_awaited [of t d s] by (auto simp: terminalize_def split: prod.splits option.splits)

lemma request_teardown_awaited: "ls_awaited (fst (request_teardown t s)) = ls_awaited s"
  by (simp add: request_teardown_def split: option.split)

lemma begin_cleanup_awaited: "ls_awaited (fst (begin_cleanup t g s)) = ls_awaited s"
  by (simp add: begin_cleanup_def)

lemmas awaited_frame = terminalize_state_awaited terminalize_awaited request_teardown_awaited begin_cleanup_awaited

lemma run_task_awaited: "ls_awaited (fst (run_task b k s)) = ls_awaited s"
  by (cases k)
    (auto simp: awaited_frame begin_delivery_unknown_def on_interruption_timeout_def finalize_uncontexted_def
      acknowledge_tts_lane_flush_def teardown_complete_def cleanup_dispatched_def Let_def
      split: option.split prod.split simp: prod_eq_iff)

lemma run_task_plain: "plain (snd (run_task b k s))"
  by (cases k)
    (auto simp: begin_delivery_unknown_def on_interruption_timeout_def finalize_uncontexted_def begin_cleanup_def
      request_teardown_def acknowledge_tts_lane_flush_def teardown_complete_def cleanup_dispatched_def
      terminalize_def Let_def split: option.split prod.split)

lemma remove_at_subset: "set (remove_at i xs) \<subseteq> set xs"
  by (auto simp: remove_at_def dest: in_set_takeD in_set_dropD)

lemma await_plain: "awaited_plain s \<Longrightarrow> awaited_plain (await_task k s)"
  using run_task_awaited [of True k s] run_task_plain [of True k s]
  by (auto simp: await_task_def awaited_plain_def split: prod.splits option.splits)

lemma run_awaited_plain: "awaited_plain s \<Longrightarrow> awaited_plain (run_awaited i b s)"
  using remove_at_subset [of i "ls_awaited s"]
    run_task_awaited [of b "ls_awaited s ! i" "s\<lparr>ls_awaited := remove_at i (ls_awaited s)\<rparr>"]
    run_task_plain [of b "ls_awaited s ! i" "s\<lparr>ls_awaited := remove_at i (ls_awaited s)\<rparr>"]
  by (auto simp: run_awaited_def awaited_plain_def split: prod.splits option.splits)

lemma run_scheduled_awaited: "ls_awaited (run_scheduled i b s) = ls_awaited s"
  using run_task_awaited [of b "ls_tasks s ! i" "s\<lparr>ls_tasks := remove_at i (ls_tasks s)\<rparr>"]
  by (auto simp: run_scheduled_def split: prod.splits option.splits)

lemma lc_step_awaited_plain: "awaited_plain s \<Longrightarrow> awaited_plain (lc_step e s)"
proof (cases e)
  case OpClose
  assume a: "awaited_plain s"
  have "ls_awaited (fold (\<lambda>seq s. s\<lparr>ls_timers := timer_cancel seq (ls_timers s)\<rparr>) xs u) = ls_awaited u" for xs and u :: lifecycle
    by (induction xs arbitrary: u) simp_all
  with a OpClose show ?thesis by (simp add: close_connection_def awaited_plain_def)
next
  case (OpBind t c)
  assume "awaited_plain s"
  then show ?thesis using OpBind
    by (cases "live t s") (auto simp: bind_context_def awaited_plain_def)
next
  case (OpRelease t notify d)
  assume "awaited_plain s"
  then show ?thesis using OpRelease terminalize_state_awaited [of t d s]
    by (auto simp: release_generation_def awaited_plain_def split: prod.splits option.splits)
qed (auto simp: await_plain run_awaited_plain, auto simp: awaited_plain_def run_scheduled_awaited
    pre_admission_disposition_def try_admit_def mark_handed_to_tts_def on_tts_started_def on_tts_audio_def
    on_tts_stopped_def on_transport_bot_started_def on_transport_bot_stopped_def record_interruption_def
    advance_def Let_def split: option.splits prod.splits if_splits)

definition lc_inv :: "lifecycle \<Rightarrow> bool" where
  "lc_inv s \<longleftrightarrow> (\<exists>cur. lc_ok cur s) \<and> awaited_plain s"

text \<open>The tokens minted by \<open>uuid4\<close> are new.\<close>

fun lc_legal :: "lc_op \<Rightarrow> lifecycle \<Rightarrow> bool" where
  "lc_legal (OpAdmit acc t i) s \<longleftrightarrow> t \<notin> admitted s"
| "lc_legal _ s \<longleftrightarrow> True"

lemma lc_step_inv:
  assumes "lc_inv s" and "lc_legal e s"
  shows "lc_inv (lc_step e s)"
proof -
  obtain cur where ok: "lc_ok cur s" and pl: "awaited_plain s" using assms(1) by (auto simp: lc_inv_def)
  have "\<exists>cur. lc_ok cur (lc_step e s)"
    using assms(2) admit_ok [OF ok] bind_ok [OF ok] tts_ok [OF ok] bot_ok [OF ok] interrupt_ok [OF ok]
      release_ok [OF ok] await_ok [OF ok] advance_ok [OF ok] run_scheduled_ok [OF ok] run_awaited_ok [OF ok pl]
      close_ok [OF ok]
    by (cases e) auto
  with lc_step_awaited_plain [OF pl] show ?thesis by (simp add: lc_inv_def)
qed

interpretation coordinator: guarded_machine lc_step lc_legal lc_inv
  by unfold_locales (rule lc_step_inv)

lemma lc_inv_init: "lc_inv (init_lifecycle start st gr n tts)"
  by (auto simp: lc_inv_def lc_ok_def holds_def rest_inv_def init_lifecycle_def timers_inv_def context_of_def
      awaited_plain_def notices_def admitted_def intro!: exI [of _ None])

section \<open>Notifications are never lost\<close>

text \<open>
  What a step owes a generation: admissions stay, notices are not withdrawn, and a generation leaves
  the slot only together with its notice.
\<close>

definition keeps :: "lifecycle \<Rightarrow> lifecycle \<Rightarrow> bool" where
  "keeps s s' \<longleftrightarrow> admitted s' = admitted s \<and> (\<forall>t. notices t s \<le> notices t s') \<and>
     (\<forall>t. ls_slot_token s = Some t \<longrightarrow> ls_slot_token s' = Some t \<or> 1 \<le> notices t s')"

lemma keeps_refl [simp]: "keeps s s"
  by (simp add: keeps_def)

lemma keeps_trans: "keeps s t \<Longrightarrow> keeps t u \<Longrightarrow> keeps s u"
  unfolding keeps_def by (metis order.trans)

lemma keeps_same:
  "ls_effects t = ls_effects s \<Longrightarrow> ls_tasks t = ls_tasks s \<Longrightarrow> ls_awaited t = ls_awaited s \<Longrightarrow>
     ls_slot_token t = ls_slot_token s \<Longrightarrow> keeps s t"
  by (simp add: keeps_def notices_def admitted_def)

lemma keeps_effect: "(\<And>t i. e \<noteq> EAdmit t i) \<Longrightarrow> keeps s (effect e s)"
  by (auto simp: keeps_def split: lc_effect.split)

lemma keeps_schedule: "keeps s (schedule k s)"
  by (simp add: keeps_def)

lemma keeps_await: "keeps s (s\<lparr>ls_awaited := ls_awaited s @ [k]\<rparr>)"
  by (simp add: keeps_def notices_def admitted_def)

lemma terminalize_state_frame:
  "ls_effects (fst (terminalize_state t d s)) = ls_effects s" "ls_tasks (fst (terminalize_state t d s)) = ls_tasks s"
  "ls_slot_token (fst (terminalize_state t d s)) =
     (if snd (terminalize_state t d s) \<noteq> None \<and> ls_slot_token s = Some t then None else ls_slot_token s)"
  by (auto simp: terminalize_state_def reap_context_def Let_def split: option.split)

lemma keeps_terminalize: "keeps s (fst (terminalize t d after s))"
proof (cases "terminalize_state t d s")
  case (Pair u r)
  note fr = terminalize_state_frame [of t d s, unfolded Pair] terminalize_state_awaited [of t d s, unfolded Pair]
  show ?thesis
    using fr Pair by (cases r) (auto simp: terminalize_def keeps_def notices_def admitted_def split: if_splits)
qed

lemma keeps_release: "keeps s (release_generation t True d s)"
proof (cases "terminalize_state t d s")
  case (Pair u r)
  note fr = terminalize_state_frame [of t d s, unfolded Pair] terminalize_state_awaited [of t d s, unfolded Pair]
  show ?thesis
    using fr Pair by (cases r) (auto simp: release_generation_def keeps_def notices_def admitted_def split: if_splits)
qed

lemma keeps_request: "keeps s (fst (request_teardown t s))"
  by (auto simp: request_teardown_def keeps_def notices_def admitted_def split: option.split)

lemma keeps_cleanup: "keeps s (fst (begin_cleanup t g s))"
  by (auto simp: begin_cleanup_def keeps_def notices_def admitted_def)

lemma keeps_run_task: "(\<And>x. \<not> notify_of x k) \<Longrightarrow> keeps s (fst (run_task b k s))"
proof -
  have unknown: "keeps s (fst (begin_delivery_unknown t s))" for t
  proof (cases "live t s")
    case (Some g)
    let ?g = "g\<lparr>gn_disposition := Some (final_disposition g D_DELIVERY_UNKNOWN), gn_tombstoned := True\<rparr>"
    have "keeps s (put_gen t ?g s)" by (rule keeps_same) simp_all
    from keeps_trans [OF this keeps_cleanup [of "put_gen t ?g s" t ?g]] show ?thesis
      by (simp add: begin_delivery_unknown_def Some Let_def)
  qed (simp add: begin_delivery_unknown_def)
  have down: "keeps s (fst (teardown_complete t s))" for t
  proof (cases "map_of (ls_generations s) t")
    case (Some g)
    obtain u r where r: "terminalize t (final_disposition g D_DELIVERY_UNKNOWN) WTeardownNotified s = (u, r)"
      by fastforce
    have "keeps s u" using keeps_terminalize [of s t "final_disposition g D_DELIVERY_UNKNOWN" WTeardownNotified] r by simp
    moreover have "keeps u (u\<lparr>ls_teardown_generation := n\<rparr>)" for n by (rule keeps_same) simp_all
    ultimately show ?thesis by (auto simp: teardown_complete_def Some r intro: keeps_trans split: option.split)
  qed (simp add: teardown_complete_def)
  have cleanup: "keeps s (fst (cleanup_dispatched b t s))" for t
    by (auto simp: cleanup_dispatched_def keeps_request intro: keeps_same split: option.split)
  have others: "keeps s (fst (on_interruption_timeout t s))" "keeps s (fst (finalize_uncontexted t d s))"
    "keeps s (fst (acknowledge_tts_lane_flush t s))" for t d
    by (auto simp: on_interruption_timeout_def finalize_uncontexted_def acknowledge_tts_lane_flush_def
        keeps_cleanup keeps_terminalize keeps_effect split: option.split)
  assume "\<And>x. \<not> notify_of x k"
  then show ?thesis
    using unknown down cleanup others
    by (cases k) (auto simp: keeps_terminalize keeps_request intro: keeps_same)
qed

lemma keeps_await_task: "(\<And>x. \<not> notify_of x k) \<Longrightarrow> keeps s (await_task k s)"
proof -
  assume a: "\<And>x. \<not> notify_of x k"
  obtain u r where r: "run_task True k s = (u, r)" by fastforce
  have "keeps s u" using keeps_run_task [OF a, of s True] r by simp
  then show ?thesis using keeps_await by (auto simp: await_task_def r intro: keeps_trans split: option.split)
qed

lemma keeps_remove:
  assumes "i < length (ls_tasks s)" and "\<And>x. \<not> notify_of x (ls_tasks s ! i)"
  shows "keeps s (s\<lparr>ls_tasks := remove_at i (ls_tasks s)\<rparr>)"
  using assms filter_remove_at [OF assms(1)] by (auto simp: keeps_def notices_def admitted_def)

lemma keeps_remove_awaited:
  assumes "i < length (ls_awaited s)" and "\<And>x. \<not> notify_of x (ls_awaited s ! i)"
  shows "keeps s (s\<lparr>ls_awaited := remove_at i (ls_awaited s)\<rparr>)"
  using assms filter_remove_at [OF assms(1)] by (auto simp: keeps_def notices_def admitted_def)

lemma keeps_run_scheduled: "keeps s (run_scheduled i b s)"
proof (cases "i < length (ls_tasks s)")
  case True
  let ?k = "ls_tasks s ! i" and ?u = "s\<lparr>ls_tasks := remove_at i (ls_tasks s)\<rparr>"
  show ?thesis
  proof (cases "\<exists>t x d. ?k = KNotify t x d")
    case True
    then obtain t x d where k: "?k = KNotify t x d" by blast
    have "keeps s (effect (ETerminal t x d) ?u)"
      using filter_remove_at [OF \<open>i < _\<close>, of "notify_of _"] k
      by (auto simp: keeps_def notices_def admitted_def)
    then show ?thesis using k \<open>i < _\<close> keeps_schedule by (auto simp: run_scheduled_def intro: keeps_trans)
  next
    case False
    then have plain: "\<not> notify_of x ?k" for x by (cases ?k) auto
    obtain u r where r: "run_task b ?k ?u = (u, r)" by fastforce
    have "keeps s ?u" by (rule keeps_remove [OF \<open>i < _\<close> plain])
    moreover have "keeps ?u u" using keeps_run_task [OF plain, of ?u b] r by simp
    ultimately have "keeps s u" by (rule keeps_trans)
    then show ?thesis using \<open>i < _\<close> keeps_schedule
      by (auto simp: run_scheduled_def r intro: keeps_trans split: option.split)
  qed
qed (simp add: run_scheduled_def)

lemma keeps_run_awaited: "awaited_plain s \<Longrightarrow> keeps s (run_awaited i b s)"
proof (cases "i < length (ls_awaited s)")
  case True
  assume pl: "awaited_plain s"
  let ?k = "ls_awaited s ! i" and ?u = "s\<lparr>ls_awaited := remove_at i (ls_awaited s)\<rparr>"
  have plain: "\<not> notify_of x ?k" for x using pl True by (simp add: awaited_plain_def)
  obtain u r where r: "run_task b ?k ?u = (u, r)" by fastforce
  have "keeps s ?u" by (rule keeps_remove_awaited [OF True plain])
  moreover have "keeps ?u u" using keeps_run_task [OF plain, of ?u b] r by simp
  ultimately have "keeps s u" by (rule keeps_trans)
  then show ?thesis using True keeps_await
    by (auto simp: run_awaited_def r intro: keeps_trans split: option.split)
qed (simp add: run_awaited_def)

text \<open>A step that neither closes the connection nor frees the slot silently nor admits.\<close>

fun loud :: "lc_op \<Rightarrow> bool" where
  "loud OpClose \<longleftrightarrow> False"
| "loud (OpRelease t notify d) \<longleftrightarrow> notify"
| "loud _ \<longleftrightarrow> True"

fun admit_token :: "lc_op \<Rightarrow> string list" where
  "admit_token (OpAdmit acc t i) = [t]"
| "admit_token _ = []"

definition admit_tokens :: "lc_op list \<Rightarrow> string list" where
  "admit_tokens ops = concat (map admit_token ops)"

lemma lc_step_keeps:
  assumes "awaited_plain s" and "loud e" and "admit_token e = []"
  shows "keeps s (lc_step e s)"
proof (cases e)
  case (OpBind t c)
  have "keeps s (fst (bind_context t c s))"
    by (cases "live t s") (auto simp: bind_context_def intro: keeps_same)
  with OpBind show ?thesis by simp
next
  case (OpAdvance dt)
  obtain tm due where "fire_due ((ls_timers s)\<lparr>tm_now := tm_now (ls_timers s) + dt\<rparr>) = (tm, due)" by fastforce
  with OpAdvance show ?thesis by (simp add: advance_def keeps_def notices_def admitted_def)
next
  case (OpInterrupt t pause)
  show ?thesis
  proof (cases "live t s")
    case (Some g)
    let ?u = "put_gen t (g\<lparr>gn_disposition := Some (if pause then D_PAUSED else D_INTERRUPTED), gn_tombstoned := True\<rparr>) (cancel_timer t s)"
    have "keeps s ?u" by (rule keeps_same) simp_all
    moreover have "keeps ?u (arm t w k ?u)" for w k by (rule keeps_same) simp_all
    ultimately show ?thesis using keeps_schedule
      by (auto simp: OpInterrupt record_interruption_def Some Let_def intro: keeps_trans)
  qed (simp add: OpInterrupt record_interruption_def)
next
  case OpBotStopped
  show ?thesis
  proof (cases "occupied_generation s")
    case (Some g)
    let ?u = "put_gen (gn_token g) (g\<lparr>gn_phase := TRANSPORT_STOPPED\<rparr>) (cancel_timer (gn_token g) s)"
    have "keeps s ?u" by (rule keeps_same) simp_all
    then show ?thesis using keeps_schedule
      by (auto simp: OpBotStopped on_transport_bot_stopped_def Some intro: keeps_trans)
  qed (simp add: OpBotStopped on_transport_bot_stopped_def keeps_schedule)
qed (use assms in \<open>auto simp: keeps_release keeps_await_task keeps_run_scheduled keeps_run_awaited
      mark_handed_to_tts_def on_tts_started_def on_tts_audio_def on_tts_stopped_def
      on_transport_bot_started_def intro: keeps_same split: option.split\<close>)

lemma close_effects: "ls_effects (close_connection s) = ls_effects s"
proof -
  have "ls_effects (fold (\<lambda>seq s. s\<lparr>ls_timers := timer_cancel seq (ls_timers s)\<rparr>) xs u) = ls_effects u"
    for xs and u :: lifecycle
    by (induction xs arbitrary: u) simp_all
  then show ?thesis by (simp add: close_connection_def)
qed

lemma lc_step_admitted:
  assumes "awaited_plain s"
  shows "admitted (lc_step e s) \<subseteq> admitted s \<union> set (admit_token e)"
proof (cases "loud e \<and> admit_token e = []")
  case True
  then show ?thesis using lc_step_keeps [OF assms, of e] by (simp add: keeps_def)
next
  case False
  have release: "admitted (release_generation t False d s) = admitted s" for t d
    using terminalize_state_frame(1) [of t d s]
    by (auto simp: release_generation_def admitted_def split: prod.splits option.splits)
  from False release show ?thesis
    by (cases e) (auto simp: admitted_def close_effects pre_admission_disposition_def try_admit_def Let_def)
qed

lemma fresh_legal:
  assumes "lc_inv s" and "distinct (admit_tokens ops)" and "set (admit_tokens ops) \<inter> admitted s = {}"
  shows "coordinator.legal ops s"
  using assms
proof (induction ops arbitrary: s)
  case (Cons e ops)
  have legal: "lc_legal e s" using Cons.prems(3) by (cases e) (auto simp: admit_tokens_def)
  have "admitted (lc_step e s) \<subseteq> admitted s \<union> set (admit_token e)"
    using Cons.prems(1) by (intro lc_step_admitted) (simp add: lc_inv_def)
  then have "set (admit_tokens ops) \<inter> admitted (lc_step e s) = {}"
    using Cons.prems(2,3) by (auto simp: admit_tokens_def)
  moreover have "distinct (admit_tokens ops)" using Cons.prems(2) by (simp add: admit_tokens_def)
  ultimately show ?case using Cons.IH [OF lc_step_inv [OF Cons.prems(1) legal]] legal by simp
qed simp

lemma reachable_inv:
  "distinct (admit_tokens ops) \<Longrightarrow> lc_inv (fold lc_step ops (init_lifecycle start st gr n tts))"
  by (intro coordinator.run_inv lc_inv_init fresh_legal)
    (auto simp: admitted_def init_lifecycle_def)

text \<open>The stronger invariant of runs whose steps are all loud.\<close>

definition once_inv :: "lifecycle \<Rightarrow> bool" where
  "once_inv s \<longleftrightarrow> lc_inv s \<and> (\<forall>t \<in> admitted s. ls_slot_token s = Some t \<or> notices t s = 1)"

lemma once_step:
  assumes "once_inv s" and "lc_legal e s" and "loud e"
  shows "once_inv (lc_step e s)"
proof -
  have inv: "lc_inv s" and inv': "lc_inv (lc_step e s)"
    using assms lc_step_inv by (auto simp: once_inv_def)
  have le1: "notices t (lc_step e s) \<le> 1" for t using inv' by (auto simp: lc_inv_def lc_ok_def rest_inv_def)
  show ?thesis
  proof (cases "admit_token e = []")
    case True
    have "keeps s (lc_step e s)" using inv assms(3) True by (intro lc_step_keeps) (auto simp: lc_inv_def)
    then have "ls_slot_token (lc_step e s) = Some t \<or> notices t (lc_step e s) = 1"
      if "t \<in> admitted (lc_step e s)" for t
      using assms(1) that le1 [of t] unfolding keeps_def once_inv_def by (metis le_antisym)
    with inv' show ?thesis by (simp add: once_inv_def)
  next
    case False
    then obtain acc t i where e: "e = OpAdmit acc t i" by (cases e) auto
    have "lc_step e s = s \<or> (ls_slot_token s = None \<and> ls_slot_token (lc_step e s) = Some t \<and>
        (\<forall>x. notices x (lc_step e s) = notices x s) \<and> admitted (lc_step e s) = insert t (admitted s))"
      by (auto simp: e pre_admission_disposition_def try_admit_def Let_def notices_def admitted_def)
    with assms(1) inv' show ?thesis by (auto simp: once_inv_def)
  qed
qed

interpretation notified_once: guarded_machine lc_step "\<lambda>e s. lc_legal e s \<and> loud e" once_inv
  by unfold_locales (simp add: once_step)

lemma notified_once_legal: "notified_once.legal ops s \<longleftrightarrow> coordinator.legal ops s \<and> list_all loud ops"
  by (induction ops arbitrary: s) auto

section \<open>Properties\<close>

text \<open>
  C9. One generation at a time. After any sequence of coordinator calls, clock advances and
  coroutine resumptions, with any callback outcomes, the coordinator holds exactly the generation of
  the transport slot and nothing else: no other generation, no context of another generation, and at
  most one armed timer, which is gone once the slot is free. The tombstones stay within their limit,
  and nothing is admitted while the slot is taken.
\<close>

theorem one_generation_at_a_time:
  assumes "distinct (admit_tokens ops)"
  shows "let s = fold lc_step ops (init_lifecycle start st gr n tts) in
     dkeys (ls_generations s) = (case ls_slot_token s of None \<Rightarrow> [] | Some t \<Rightarrow> [t]) \<and>
     (\<forall>c t. map_of (ls_context_tokens s) c = Some t \<longrightarrow>
        ls_slot_token s = Some t \<and> (\<exists>g. map_of (ls_generations s) t = Some g \<and> gi_utterance_id (gn_identity g) = c)) \<and>
     length (tm_pending (ls_timers s)) \<le> (if occupied s then 1 else 0) \<and>
     length (ls_context_tombstones s) \<le> ls_tombstone_limit s \<and>
     (occupied s \<longrightarrow> (\<forall>acc t i. fst (pre_admission_disposition acc t i s) = s))"
proof -
  let ?s = "fold lc_step ops (init_lifecycle start st gr n tts)"
  obtain cur where h: "holds cur ?s" "rest_inv ?s"
    using reachable_inv [OF assms, of start st gr n tts] by (auto simp: lc_inv_def lc_ok_def)
  have "length (tm_pending (ls_timers ?s)) \<le> (if occupied ?s then 1 else 0)"
    using h(1) by (auto simp: holds_def timers_inv_def occupied_def)
  moreover have "map_of (ls_context_tokens ?s) c = Some t \<longrightarrow> ls_slot_token ?s = Some t \<and>
      (\<exists>g. map_of (ls_generations ?s) t = Some g \<and> gi_utterance_id (gn_identity g) = c)" for c t
    using h(1) by (auto simp: holds_def context_of_def split: option.splits if_splits)
  moreover have "fst (pre_admission_disposition acc t i ?s) = ?s" if "occupied ?s" for acc t i
    using that by (auto simp: pre_admission_disposition_def try_admit_def occupied_def Let_def)
  moreover have "dkeys (ls_generations ?s) = (case ls_slot_token ?s of None \<Rightarrow> [] | Some t \<Rightarrow> [t])"
    using h(1) by (simp add: holds_def split: option.split)
  moreover have "length (ls_context_tombstones ?s) \<le> ls_tombstone_limit ?s"
    using h(2) by (simp add: rest_inv_def)
  ultimately show ?thesis unfolding Let_def by blast
qed

definition demo_identity :: "string \<Rightarrow> generation_identity" where
  "demo_identity u = \<lparr>gi_utterance_id = u, gi_work_item_id = ''w'', gi_origin_epoch = Some 1,
     gi_role = Result_Role, gi_turn_id = None, gi_ack_id = None\<rparr>"

lemma one_generation_at_a_time_witness:
  "let s = fold lc_step [OpAdmit None ''a'' (demo_identity ''u''), OpHanded ''a'', OpAdmit None ''b'' (demo_identity ''v'')]
             (init_lifecycle 0 10 1 256 True)
   in dkeys (ls_generations s) = [''a''] \<and> length (tm_pending (ls_timers s)) \<le> 1"
proof -
  let ?ops = "[OpAdmit None ''a'' (demo_identity ''u''), OpHanded ''a'', OpAdmit None ''b'' (demo_identity ''v'')]"
  have "distinct (admit_tokens ?ops)" by (simp add: admit_tokens_def)
  moreover have "ls_slot_token (fold lc_step ?ops (init_lifecycle 0 10 1 256 True)) = Some ''a''"
    by (simp add: init_lifecycle_def pre_admission_disposition_def try_admit_def demo_identity_def Let_def
        effect_def put_gen_def new_generation_def mark_handed_to_tts_def live_def arm_def cancel_timer_def call_at_def)
  ultimately show ?thesis
    using one_generation_at_a_time [of ?ops 0 10 1 256 True] by (simp add: Let_def occupied_def)
qed



end
