(* ===== verification/Lifecycle_Liveness.thy ===== *)
theory Lifecycle_Liveness
  imports Lifecycle_Properties
begin

text \<open>
  What the transport lane lets through, and that the slot is always recovered: a frame reaches the
  output only for the live generation of the slot, a retired context stays silent, a confirmed
  teardown frees the slot with its notification, and a provider that never answers is torn down.
\<close>

section \<open>Accepted frames\<close>

lemma accepted_audio:
  assumes ok: "lc_ok cur s"
  shows "on_tts_audio c n r ch s = (s', True) \<Longrightarrow>
      \<exists>g. lc_ok (Some g) s' \<and> gn_context_id g = Some c \<and> \<not> gn_tombstoned g"
    and "on_tts_stopped c s = (s', True) \<Longrightarrow>
      \<exists>g. lc_ok (Some g) s' \<and> gn_context_id g = Some c \<and> \<not> gn_tombstoned g"
proof -
  assume a: "on_tts_audio c n r ch s = (s', True)"
  then obtain t g where fg: "frame_generation c s = Some (t, g)"
    by (auto simp: on_tts_audio_def split: option.splits)
  let ?g = "g\<lparr>gn_audio_duration_seconds := gn_audio_duration_seconds g + audio_seconds n r ch, gn_audio_submitted := True\<rparr>"
  have "lc_ok (Some ?g) (put_gen t ?g s)" "gn_context_id ?g = Some c" "\<not> gn_tombstoned ?g"
    using frame_generation_current [OF ok fg] ok ok_put [of g s ?g] by auto
  with a fg show "\<exists>g. lc_ok (Some g) s' \<and> gn_context_id g = Some c \<and> \<not> gn_tombstoned g"
    by (auto simp: on_tts_audio_def)
next
  assume a: "on_tts_stopped c s = (s', True)"
  then obtain t g where fg: "frame_generation c s = Some (t, g)"
    by (auto simp: on_tts_stopped_def split: option.splits)
  let ?g = "g\<lparr>gn_phase := PHASE_SYNTHESIS_ENDED, gn_synthesis_ended_at := Some (clock_now s)\<rparr>"
  have g: "lc_ok (Some ?g) (put_gen t ?g s)" "gn_context_id ?g = Some c" "\<not> gn_tombstoned ?g" "gn_token ?g = t"
    using frame_generation_current [OF ok fg] ok ok_put [of g s ?g] by auto
  have "s' = arm t (clock_now s + gn_audio_duration_seconds g + ls_grace s) (KDrainTimeout t) (put_gen t ?g s)"
    using a fg by (simp add: on_tts_stopped_def)
  with ok_arm [OF g(1), of "KDrainTimeout t"] g(4) have "lc_ok (Some ?g) s'" by auto
  with g(2,3) show "\<exists>g. lc_ok (Some g) s' \<and> gn_context_id g = Some c \<and> \<not> gn_tombstoned g" by blast
qed

lemma accepted_start:
  assumes ok: "lc_ok cur s" and a: "on_tts_started c s = (s', True)"
  shows "\<exists>g. lc_ok (Some g) s' \<and> gn_context_id g = Some c \<and> \<not> gn_tombstoned g"
proof -
  obtain t g where tg: "map_of (ls_context_tokens s) c = Some t" "live t s = Some g" "\<not> gn_tombstoned g"
    "s' = put_gen t (g\<lparr>gn_phase := SYNTHESIZING\<rparr>) (cancel_timer t s)"
    using a by (auto simp: on_tts_started_def split: option.splits if_splits)
  have cur: "cur = Some g" "gn_token g = t" using holds_live [OF lc_okD [OF ok], of t] tg(2)
    by (auto split: option.splits if_splits)
  then have g: "\<not> gn_terminalized g" "gn_context_id g = Some c"
    using ok tg(1) by (auto simp: lc_ok_def holds_def context_of_def split: option.splits if_splits)
  have "lc_ok (Some g) (cancel_timer t s)" using ok_cancel ok cur by blast
  from ok_put [OF this, of "g\<lparr>gn_phase := SYNTHESIZING\<rparr>"] g cur tg(3,4) show ?thesis by auto
qed

text \<open>The context id a synthesis frame carries.\<close>

fun tts_context :: "lane_frame \<Rightarrow> string option option" where
  "tts_context (TTSStarted c) = Some c"
| "tts_context (TTSAudioRaw c _ _ _) = Some c"
| "tts_context (TTSStopped c) = Some c"
| "tts_context _ = None"

definition private_frame :: "lane_frame \<Rightarrow> bool" where
  "private_frame f \<longleftrightarrow> (case f of GenerationMarker _ \<Rightarrow> True | FlushAck _ \<Rightarrow> True | _ \<Rightarrow> False)"

lemma forwarded_current:
  assumes ok: "lc_ok cur s"
    and fwd: "transport_process_frame f DOWNSTREAM pending s = (pending', s', Forwarded)"
    and c: "tts_context f = Some c"
  shows "\<exists>x g. c = Some x \<and> lc_ok (Some g) s' \<and> gn_context_id g = Some x \<and> \<not> gn_tombstoned g"
proof (cases f)
  case (TTSStarted c')
  with fwd c obtain x where x: "c = Some x" by (auto simp: transport_process_frame_def real_context_def split: option.splits if_splits)
  obtain q u where bind: "(case pending of None \<Rightarrow> (None, s)
      | Some token \<Rightarrow> (case bind_context token x s of (s, bound) \<Rightarrow> (if bound then None else Some token, s))) = (q, u)"
    by fastforce
  have "\<exists>cur. lc_ok cur u"
    using bind ok bind_ok [OF ok, of _ x] by (cases pending) (auto split: prod.splits, metis fst_conv)
  moreover have "on_tts_started x u = (s', True)"
    using fwd c TTSStarted x bind
    by (auto simp: transport_process_frame_def Let_def split: prod.splits if_splits option.splits)
  ultimately show ?thesis using accepted_start x by blast
next
  case (TTSAudioRaw c' n r ch)
  with fwd c obtain x where "c = Some x" "on_tts_audio x n r ch s = (s', True)"
    by (auto simp: transport_process_frame_def real_context_def Let_def split: option.splits if_splits prod.splits)
  then show ?thesis using accepted_audio(1) [OF ok] by blast
next
  case (TTSStopped c')
  with fwd c obtain x where "c = Some x" "on_tts_stopped x s = (s', True)"
    by (auto simp: transport_process_frame_def real_context_def Let_def split: option.splits if_splits prod.splits)
  then show ?thesis using accepted_audio(2) [OF ok] by blast
qed (use c in auto)

section \<open>Following one generation through its timeouts\<close>

lemma arm_pending:
  assumes "timers_inv (Some t) s"
  shows "\<exists>i. tm_pending (ls_timers (arm t w k s)) = [(w, i, k)]"
  using cancel_timer_timers [OF assms] by (simp add: arm_def call_at_def Let_def)

lemma cancel_now [simp]: "tm_now (ls_timers (cancel_timer t s)) = tm_now (ls_timers s)"
  by (simp add: cancel_timer_def timer_cancel_def split: option.split)

lemma arm_now [simp]: "tm_now (ls_timers (arm t w k s)) = tm_now (ls_timers s)"
  by (simp add: arm_def call_at_def Let_def)

lemma arm_grace [simp]: "ls_grace (arm t w k s) = ls_grace s"
  by (simp add: arm_def call_at_def Let_def)

lemma plain_grace [simp]: "ls_grace (schedule k s) = ls_grace s" "ls_grace (effect e s) = ls_grace s"
  by (simp_all add: schedule_def effect_def)

lemma advance_fires:
  assumes "tm_pending (ls_timers s) = [(w, i, k)]" and "w \<le> tm_now (ls_timers s) + dt"
  shows "ls_tasks (advance dt s) = ls_tasks s @ [k]" and "ls_generations (advance dt s) = ls_generations s"
    and "ls_effects (advance dt s) = ls_effects s" and "ls_grace (advance dt s) = ls_grace s"
  using assms by (simp_all add: advance_def fire_due_def timer_cancel_def Let_def)

lemma run_last:
  assumes "ls_tasks s = xs @ [k]"
  shows "run_scheduled (length xs) b s =
    (case run_task b k (s\<lparr>ls_tasks := xs\<rparr>) of (s, None) \<Rightarrow> s | (s, Some k) \<Rightarrow> schedule k s)"
  using assms by (simp add: run_scheduled_def remove_at_def)

lemma handed_state:
  assumes ok: "lc_ok (Some g) s" and "\<not> gn_tombstoned g"
  defines "t \<equiv> gn_token g"
  shows "\<exists>i. tm_pending (ls_timers (mark_handed_to_tts t s)) =
           [(tm_now (ls_timers s) + ls_start_timeout s, i, KStartTimeout t)]"
    and "ls_generations (mark_handed_to_tts t s) = [(t, g\<lparr>gn_phase := HANDED_TO_TTS\<rparr>)]"
    and "ls_tasks (mark_handed_to_tts t s) = ls_tasks s"
    and "tm_now (ls_timers (mark_handed_to_tts t s)) = tm_now (ls_timers s)"
    and "ls_grace (mark_handed_to_tts t s) = ls_grace s"
proof -
  let ?u = "put_gen t (g\<lparr>gn_phase := HANDED_TO_TTS\<rparr>) s"
  have "live t s = Some g" using holds_live [OF lc_okD [OF ok], of t] by (simp add: t_def)
  then have eq: "mark_handed_to_tts t s = arm t (tm_now (ls_timers s) + ls_start_timeout s) (KStartTimeout t) ?u"
    using assms(2) by (simp add: mark_handed_to_tts_def clock_now_def)
  have "timers_inv (Some t) s" "ls_generations s = [(t, g)]" using ok by (simp_all add: lc_ok_def holds_def t_def)
  then have "timers_inv (Some t) ?u" by (simp add: timers_inv_def)
  from arm_pending [OF this] show "\<exists>i. tm_pending (ls_timers (mark_handed_to_tts t s)) =
      [(tm_now (ls_timers s) + ls_start_timeout s, i, KStartTimeout t)]" unfolding eq by simp
  show "ls_generations (mark_handed_to_tts t s) = [(t, g\<lparr>gn_phase := HANDED_TO_TTS\<rparr>)]"
    "ls_tasks (mark_handed_to_tts t s) = ls_tasks s"
    "tm_now (ls_timers (mark_handed_to_tts t s)) = tm_now (ls_timers s)"
    "ls_grace (mark_handed_to_tts t s) = ls_grace s"
    unfolding eq using \<open>ls_generations s = _\<close> by simp_all
qed

text \<open>From a fired start timeout to the teardown request, with the cleanup callback succeeding.\<close>

lemma unknown_dispatches_cleanup:
  assumes "ls_tasks s = xs @ [KStartTimeout t]" and "ls_generations s = [(t, g)]"
    and "\<not> gn_terminalized g" and "\<not> gn_cleanup_pending g"
  shows "\<exists>g'. ls_tasks (run_scheduled (length xs) True s) = xs @ [WCleanup t] \<and>
     ls_generations (run_scheduled (length xs) True s) = [(t, g')] \<and> \<not> gn_terminalized g' \<and>
     gn_teardown_pending g' = gn_teardown_pending g \<and> gn_identity g' = gn_identity g \<and>
     ls_grace (run_scheduled (length xs) True s) = ls_grace s"
  using assms
  by (auto simp: run_last [OF assms(1)] begin_delivery_unknown_def live_def begin_cleanup_def Let_def)

lemma teardown_requested:
  assumes "ls_generations s = [(t, g)]" and "\<not> gn_terminalized g" and "\<not> gn_teardown_pending g"
  shows "ETeardown t (gn_identity g) \<in> set (ls_effects (fst (request_teardown t s)))"
  using assms by (simp add: request_teardown_def live_def)

lemma run_keeps_effect:
  assumes "x \<in> set (ls_effects s)"
  shows "x \<in> set (ls_effects (run_scheduled i b s))" and "x \<in> set (ls_effects (advance dt s))"
proof -
  have trm: "x \<in> set (ls_effects u) \<Longrightarrow> x \<in> set (ls_effects (fst (terminalize t d after u)))" for t d after u
    using terminalize_state_frame(1) [of t d u] by (auto simp: terminalize_def split: prod.splits option.splits)
  have trm': "terminalize t d after u = (v, r) \<Longrightarrow> x \<in> set (ls_effects u) \<Longrightarrow> x \<in> set (ls_effects v)" for t d after u v r
    using trm [of u t d after] by simp
  have run: "x \<in> set (ls_effects u) \<Longrightarrow> x \<in> set (ls_effects (fst (run_task b k u)))" for k u
    by (cases k)
      (auto simp: trm begin_delivery_unknown_def on_interruption_timeout_def finalize_uncontexted_def begin_cleanup_def
        request_teardown_def acknowledge_tts_lane_flush_def teardown_complete_def cleanup_dispatched_def Let_def
        split: option.split prod.split dest: trm')
  have "x \<in> set (ls_effects (fst (run_task b (ls_tasks s ! i) (s\<lparr>ls_tasks := remove_at i (ls_tasks s)\<rparr>))))"
    using assms by (intro run) simp
  then show "x \<in> set (ls_effects (run_scheduled i b s))"
    using assms by (auto simp: run_scheduled_def split: prod.splits option.splits)
  show "x \<in> set (ls_effects (advance dt s))"
    using assms by (simp add: advance_def Let_def split: prod.split)
qed

lemma cleanup_then_teardown:
  assumes inv: "lc_inv s" and tasks: "ls_tasks s = xs @ [WCleanup t]" and gens: "ls_generations s = [(t, g)]"
    and g: "\<not> gn_terminalized g" "\<not> gn_teardown_pending g" and dt: "ls_grace s \<le> dt"
  shows "ETeardown t (gn_identity g) \<in>
    set (ls_effects (run_scheduled (length xs) True (advance dt (run_scheduled (length xs) True s))))"
proof -
  let ?u = "s\<lparr>ls_tasks := xs\<rparr>" and ?r = "run_scheduled (length xs) True s"
  have live: "live t ?u = Some g" using gens g by (simp add: live_def)
  note run = run_last [OF tasks, of True]
  show ?thesis
  proof (cases "gn_audio_submitted g")
    case True
    have "ETeardown t (gn_identity g) \<in> set (ls_effects (fst (request_teardown t ?u)))"
      using gens g by (intro teardown_requested) simp_all
    then have "ETeardown t (gn_identity g) \<in> set (ls_effects ?r)"
      by (auto simp: run cleanup_dispatched_def live True split: prod.splits option.splits)
    then show ?thesis by (rule run_keeps_effect(1) [OF run_keeps_effect(2)])
  next
    case False
    have r: "?r = arm t (tm_now (ls_timers s) + ls_grace s) (KFlushAckTimeout t) ?u"
      by (simp add: run cleanup_dispatched_def live False clock_now_def)
    obtain cur where "holds cur s" using inv by (auto simp: lc_inv_def lc_ok_def)
    then have "timers_inv (Some t) s" using gens by (auto simp: holds_def split: option.splits)
    then have "timers_inv (Some t) ?u" by (simp add: timers_inv_def)
    then obtain i where pend: "tm_pending (ls_timers ?r) = [(tm_now (ls_timers s) + ls_grace s, i, KFlushAckTimeout t)]"
      using arm_pending r by metis
    have due: "tm_now (ls_timers s) + ls_grace s \<le> tm_now (ls_timers ?r) + dt" using dt by (simp add: r)
    note adv = advance_fires [OF pend due]
    have t: "ls_tasks (advance dt ?r) = xs @ [KFlushAckTimeout t]" "ls_generations (advance dt ?r) = [(t, g)]"
      using adv(1,2) gens by (simp_all add: r)
    have "ETeardown t (gn_identity g) \<in> set (ls_effects (fst (request_teardown t ((advance dt ?r)\<lparr>ls_tasks := xs\<rparr>))))"
      using t(2) g by (intro teardown_requested) simp_all
    then show ?thesis by (auto simp: run_last [OF t(1)] split: prod.splits option.splits)
  qed
qed

section \<open>Properties\<close>

text \<open>
  Nothing stale reaches the transport. In any reachable state, the lifecycle processor consumes
  the private marker and flush-acknowledgement frames, and forwards a downstream synthesis frame
  (start, audio, stop) only when its context is bound to the generation that occupies the slot
  after the frame, is that generation's utterance, and is neither tombstoned nor retired.
\<close>

theorem only_current_speech_forwarded:
  assumes "distinct (admit_tokens ops)"
    and "s = fold lc_step ops (init_lifecycle start st gr n tts)"
    and "transport_process_frame f DOWNSTREAM pending s = (pending', s', Forwarded)"
  shows "\<not> private_frame f \<and>
    (\<forall>c. tts_context f = Some c \<longrightarrow>
       (\<exists>x g. c = Some x \<and> occupied_generation s' = Some g \<and> gn_context_id g = Some x \<and>
          gi_utterance_id (gn_identity g) = x \<and> \<not> gn_tombstoned g \<and> \<not> is_tombstoned x s'))"
proof -
  obtain cur where ok: "lc_ok cur s"
    using reachable_inv [OF assms(1), of start st gr n tts] assms(2) by (auto simp: lc_inv_def)
  have "\<not> private_frame f"
    using assms(3) by (cases f) (auto simp: private_frame_def transport_process_frame_def)
  moreover have "\<exists>x g. c = Some x \<and> occupied_generation s' = Some g \<and> gn_context_id g = Some x \<and>
      gi_utterance_id (gn_identity g) = x \<and> \<not> gn_tombstoned g \<and> \<not> is_tombstoned x s'"
    if "tts_context f = Some c" for c
    using forwarded_current [OF ok assms(3) that]
    by (auto simp: lc_ok_def holds_occupied) (auto simp: holds_def)
  ultimately show ?thesis by blast
qed

lemma only_current_speech_forwarded_witness:
  "\<exists>s' g. transport_process_frame (TTSStarted (Some ''u'')) DOWNSTREAM (Some ''a'')
      (fold lc_step [OpAdmit None ''a'' (demo_identity ''u'')] (init_lifecycle 0 10 1 256 True)) = (None, s', Forwarded) \<and>
    occupied_generation s' = Some g \<and> gn_context_id g = Some ''u''"
proof -
  let ?s = "fold lc_step [OpAdmit None ''a'' (demo_identity ''u'')] (init_lifecycle 0 10 1 256 True)"
  obtain s' where fwd: "transport_process_frame (TTSStarted (Some ''u'')) DOWNSTREAM (Some ''a'') ?s = (None, s', Forwarded)"
    by (simp add: transport_process_frame_def real_context_def init_lifecycle_def pre_admission_disposition_def
        try_admit_def Let_def effect_def put_gen_def new_generation_def bind_context_def live_def demo_identity_def
        is_tombstoned_def on_tts_started_def)
  have "distinct (admit_tokens [OpAdmit None ''a'' (demo_identity ''u'')])" by (simp add: admit_tokens_def)
  from only_current_speech_forwarded [OF this refl fwd] fwd show ?thesis by auto
qed

text \<open>
  A retired context stays silent: in any reachable state, a context whose generation was reaped
  and is still remembered as a tombstone can neither be bound to any token nor start, carry audio or
  stop, and its frames are reported as stale.
\<close>

theorem retired_context_is_silent:
  assumes "distinct (admit_tokens ops)"
    and "s = fold lc_step ops (init_lifecycle start st gr n tts)" and "is_tombstoned c s"
  shows "bind_context t c s = (s, False) \<and> on_tts_started c s = (s, False) \<and>
     on_tts_audio c len rate ch s = (s, False) \<and> on_tts_stopped c s = (s, False) \<and> drop_stale_frame c s"
proof -
  obtain cur where h: "holds cur s"
    using reachable_inv [OF assms(1), of start st gr n tts] assms(2) by (auto simp: lc_inv_def lc_ok_def)
  then have none: "map_of (ls_context_tokens s) c = None"
    using assms(3) by (auto simp: holds_def context_of_def split: option.splits)
  have "bind_context t c s = (s, False)"
  proof (cases "live t s")
    case (Some g)
    then have "cur = Some g" using holds_live [OF h, of t] by (auto split: option.splits if_splits)
    then have "gn_context_id g = None \<or> c \<noteq> gi_utterance_id (gn_identity g)"
      using h assms(3) by (auto simp: holds_def)
    then show ?thesis using assms(3) by (auto simp: bind_context_def Some none)
  qed (simp add: bind_context_def)
  with none assms(3) show ?thesis
    by (simp add: on_tts_started_def on_tts_audio_def on_tts_stopped_def frame_generation_def drop_stale_frame_def)
qed

definition demo_retired :: lifecycle where
  "demo_retired = fold lc_step [OpAdmit None ''a'' (demo_identity ''u''), OpBind ''a'' ''u'',
     OpRelease ''a'' True D_DELIVERY_COMPLETED] (init_lifecycle 0 10 1 256 True)"

lemma retired_context_is_silent_witness:
  "is_tombstoned ''u'' demo_retired \<and> bind_context ''b'' ''u'' demo_retired = (demo_retired, False)"
proof -
  have t: "is_tombstoned ''u'' demo_retired"
    by (simp add: demo_retired_def init_lifecycle_def pre_admission_disposition_def try_admit_def Let_def effect_def
        put_gen_def new_generation_def bind_context_def live_def demo_identity_def is_tombstoned_def
        release_generation_def terminalize_state_def cancel_timer_def reap_context_def lru_put_eq schedule_def)
  show ?thesis
    using t retired_context_is_silent [OF _ demo_retired_def t] by (simp add: admit_tokens_def)
qed

text \<open>
  The slot is always recoverable: in any reachable state, a confirmed teardown of the generation
  that occupies the slot frees it at once, records its single terminal notification with the
  disposition recorded before (delivery unknown otherwise), and leaves no timer behind.
\<close>

theorem teardown_frees_slot:
  assumes "distinct (admit_tokens ops)"
    and "s = fold lc_step ops (init_lifecycle start st gr n tts)" and "occupied_generation s = Some g"
  shows "let s' = lc_step (OpTeardownComplete (gn_token g)) s in
     \<not> occupied s' \<and> tm_pending (ls_timers s') = [] \<and> notices (gn_token g) s' = 1 \<and>
     ls_effects s' = ls_effects s @ [ETerminal (gn_token g) (gn_identity g) (final_disposition g D_DELIVERY_UNKNOWN)]"
proof -
  let ?t = "gn_token g" and ?d = "final_disposition g D_DELIVERY_UNKNOWN"
  obtain cur where "lc_ok cur s"
    using reachable_inv [OF assms(1), of start st gr n tts] assms(2) by (auto simp: lc_inv_def)
  moreover from this have "cur = Some g" using assms(3) holds_occupied lc_okD by metis
  ultimately have ok: "lc_ok (Some g) s" by simp
  have gen: "map_of (ls_generations s) ?t = Some g" using holds_gen [OF lc_okD [OF ok], of ?t] by simp
  obtain u where u: "terminalize_state ?t ?d s = (u, Some (gn_identity g, final_disposition g ?d))"
    "lc_ok None u" "notices ?t u = 0" "ls_effects u = ls_effects s" "ls_awaited u = ls_awaited s"
    using terminalize_live [OF ok, of ?d] by metis
  have "final_disposition g ?d = ?d" by (simp add: final_disposition_def split: option.split)
  then have step: "lc_step (OpTeardownComplete ?t) s =
      (effect (ETerminal ?t (gn_identity g) ?d) u)\<lparr>ls_awaited := ls_awaited s @ [WTeardownNotified ?t]\<rparr>"
    using u by (simp add: await_task_def teardown_complete_def gen terminalize_def)
  have "ls_slot_token u = None" "tm_pending (ls_timers u) = []"
    using u(2) by (auto simp: lc_ok_def holds_def timers_inv_def)
  then show ?thesis
    unfolding Let_def step using u(3-5) by (simp add: occupied_def notices_def)
qed

lemma teardown_frees_slot_witness:
  "let s = fold lc_step [OpAdmit None ''a'' (demo_identity ''u''), OpInterrupt ''a'' True] (init_lifecycle 0 10 1 256 True)
   in \<exists>g. occupied_generation s = Some g \<and> \<not> occupied (lc_step (OpTeardownComplete (gn_token g)) s)"
proof -
  let ?ops = "[OpAdmit None ''a'' (demo_identity ''u''), OpInterrupt ''a'' True]"
  obtain g where g: "occupied_generation (fold lc_step ?ops (init_lifecycle 0 10 1 256 True)) = Some g"
    by (simp add: occupied_generation_def init_lifecycle_def pre_admission_disposition_def try_admit_def Let_def
        effect_def put_gen_def new_generation_def record_interruption_def live_def cancel_timer_def schedule_def)
  have "distinct (admit_tokens ?ops)" by (simp add: admit_tokens_def)
  from teardown_frees_slot [OF this refl g] g show ?thesis by (auto simp: Let_def)
qed

text \<open>
  C14. A silent provider cannot hold the slot: from any reachable state whose slot holds a generation
  that is not being cleaned up yet, handing it to synthesis, letting the start timeout pass, running
  the timeout and its cleanup, and letting the grace period pass requests the teardown of exactly
  that generation, whatever else is scheduled.
\<close>

theorem silent_provider_is_torn_down:
  assumes "distinct (admit_tokens ops)"
    and "s = fold lc_step ops (init_lifecycle start st gr n tts)" and "occupied_generation s = Some g"
    and "\<not> gn_tombstoned g" "\<not> gn_cleanup_pending g" "\<not> gn_teardown_pending g"
    and "ls_start_timeout s \<le> dt" and "ls_grace s \<le> dt'"
  shows "let k = length (ls_tasks s) in
     ETeardown (gn_token g) (gn_identity g) \<in>
       set (ls_effects (fold lc_step [OpHanded (gn_token g), OpAdvance dt, OpRun k True, OpRun k True,
                                      OpAdvance dt', OpRun k True] s))"
proof -
  let ?t = "gn_token g" and ?k = "length (ls_tasks s)"
  let ?s1 = "mark_handed_to_tts ?t s" and ?s2 = "advance dt (mark_handed_to_tts ?t s)"
  let ?s3 = "run_scheduled ?k True ?s2"
  have inv: "lc_inv s" using reachable_inv [OF assms(1), of start st gr n tts] assms(2) by simp
  then have ok: "lc_ok (Some g) s" using assms(3) holds_occupied by (auto simp: lc_inv_def lc_ok_def)
  note handed = handed_state [OF ok assms(4)]
  then obtain i where pend: "tm_pending (ls_timers ?s1) = [(tm_now (ls_timers s) + ls_start_timeout s, i, KStartTimeout ?t)]"
    by blast
  have due: "tm_now (ls_timers s) + ls_start_timeout s \<le> tm_now (ls_timers ?s1) + dt"
    using handed(4) assms(7) by simp
  note adv = advance_fires [OF pend due]
  let ?g = "g\<lparr>gn_phase := HANDED_TO_TTS\<rparr>"
  have nt: "\<not> gn_terminalized ?g" using ok by (simp add: lc_ok_def holds_def)
  have tasks: "ls_tasks ?s2 = ls_tasks s @ [KStartTimeout ?t]" "ls_generations ?s2 = [(?t, ?g)]" "ls_grace ?s2 = ls_grace s"
    using adv handed(2,3,5) by simp_all
  obtain g' where s3: "ls_tasks ?s3 = ls_tasks s @ [WCleanup ?t]" "ls_generations ?s3 = [(?t, g')]"
    "\<not> gn_terminalized g'" "\<not> gn_teardown_pending g'" "gn_identity g' = gn_identity g" "ls_grace ?s3 = ls_grace s"
    using unknown_dispatches_cleanup [OF tasks(1,2) nt] assms(5,6) tasks(3) by auto
  have "lc_inv (fold lc_step [OpHanded ?t, OpAdvance dt, OpRun ?k True] s)"
    by (rule coordinator.run_inv [OF inv]) simp
  then have "lc_inv ?s3" by simp
  from cleanup_then_teardown [OF this s3(1-4), of dt'] s3(5,6) assms(8) show ?thesis by (simp add: Let_def)
qed

lemma silent_provider_is_torn_down_witness:
  "\<exists>s g. s = fold lc_step [OpAdmit None ''a'' (demo_identity ''u'')] (init_lifecycle 0 10 1 256 True) \<and>
     occupied_generation s = Some g \<and>
     ETeardown (gn_token g) (gn_identity g) \<in>
       set (ls_effects (fold lc_step [OpHanded (gn_token g), OpAdvance 10, OpRun (length (ls_tasks s)) True,
          OpRun (length (ls_tasks s)) True, OpAdvance 1, OpRun (length (ls_tasks s)) True] s))"
proof -
  let ?s = "fold lc_step [OpAdmit None ''a'' (demo_identity ''u'')] (init_lifecycle 0 10 1 256 True)"
  let ?g = "new_generation ''a'' (demo_identity ''u'')"
  have g: "occupied_generation ?s = Some ?g" "ls_start_timeout ?s \<le> 10" "ls_grace ?s \<le> 1"
    by (simp_all add: occupied_generation_def init_lifecycle_def pre_admission_disposition_def try_admit_def Let_def
        effect_def put_gen_def)
  have d: "distinct (admit_tokens [OpAdmit None ''a'' (demo_identity ''u'')])" by (simp add: admit_tokens_def)
  have "let k = length (ls_tasks ?s) in ETeardown (gn_token ?g) (gn_identity ?g) \<in>
       set (ls_effects (fold lc_step [OpHanded (gn_token ?g), OpAdvance 10, OpRun k True, OpRun k True,
                                      OpAdvance 1, OpRun k True] ?s))"
    by (rule silent_provider_is_torn_down [OF d refl g(1) _ _ _ g(2,3)]) (simp_all add: new_generation_def)
  then show ?thesis using g(1) unfolding Let_def by blast
qed

end
