(* ===== verification/Contracts.thy ===== *)
theory Contracts
  imports Prelude "HOL-Library.Sublist" "HOL-Library.Char_ord" "HOL-Library.List_Lexorder"
begin

text \<open>
  The versioned contract models of \<open>server/contracts.py\<close>: delivery states, routing decisions,
  grounded results, speech progress, work status and its transition table, runtime snapshots with
  their per-session watermark, and the snapshot handshake. A pydantic model is a record, and its
  validators are functions into \<open>contract_error + 'a\<close> that return the model or the error the
  validator raises. Literal types and enums are datatypes. Timestamps are opaque strings here.
\<close>

datatype contract_error =
    UnsupportedVersion string
  | NotMonotonic
  | WorkerRouteIncomplete
  | MissingWorkerId
  | WorkerNotInCatalogue
  | HallucinatedWorker
  | UnavailableCapability
  | PrivateCapabilityAsSearch
  | NonWorkerSelectsWorker
  | BlankProjection
  | EmptyField
  | ReasonWithoutFailure
  | EmptyCapability

section \<open>Delivery states\<close>

datatype delivery_state =
    DISPLAYED | QUEUED | STARTED | SYNTHESIS_ENDED | DELIVERY_COMPLETED | DELIVERY_UNKNOWN
  | INTERRUPTED | INTERRUPTED_BY_RECONNECT | PAUSED | RESUMED

record speech_progress =
  sp_result_id :: string
  sp_work_item_id :: string
  sp_run_id :: string
  sp_utterance_id :: string
  sp_state :: delivery_state
  sp_origin_epoch :: "epoch option"

section \<open>Routing decisions\<close>

datatype routing_action = Direct | Unsupported | Clarify | ExistingWorker | NewWorker

record routing_decision =
  rd_action :: routing_action
  rd_worker_id :: "string option"
  rd_worker_type :: "string option"
  rd_topic :: "string option"
  rd_capability :: "string option"
  rd_capability_available :: bool
  rd_model_policy :: "string option"
  rd_catalogue_version :: string
  rd_catalogue_worker_ids :: "string list"
  rd_origin_epoch :: "epoch option"

text \<open>Python truthiness of an optional string: present and non-empty.\<close>

definition truthy :: "string option \<Rightarrow> bool" where
  "truthy s \<longleftrightarrow> s \<noteq> None \<and> s \<noteq> Some []"

definition ascii_lower :: "string \<Rightarrow> string" where
  "ascii_lower s = map (\<lambda>c. if CHR ''A'' \<le> c \<and> c \<le> CHR ''Z'' then char_of (of_char c + 32 :: nat) else c) s"

definition is_worker_route :: "routing_action \<Rightarrow> bool" where
  "is_worker_route a \<longleftrightarrow> a \<in> {ExistingWorker, NewWorker}"

definition validate_selection :: "routing_decision \<Rightarrow> contract_error + routing_decision" where
  "validate_selection d =
     (if is_worker_route (rd_action d) then
        if \<not> truthy (rd_worker_type d) \<or> \<not> truthy (rd_topic d) \<or> \<not> truthy (rd_model_policy d)
        then Inl WorkerRouteIncomplete
        else if rd_action d = ExistingWorker \<and> \<not> truthy (rd_worker_id d) then Inl MissingWorkerId
        else if rd_action d = ExistingWorker \<and> rd_catalogue_worker_ids d \<noteq> []
                \<and> the (rd_worker_id d) \<notin> set (rd_catalogue_worker_ids d)
        then Inl WorkerNotInCatalogue
        else if truthy (rd_worker_id d) \<and> sublist ''hallucinated'' (ascii_lower (the (rd_worker_id d)))
        then Inl HallucinatedWorker
        else if \<not> rd_capability_available d
                \<and> rd_capability d \<notin> {None, Some ''private_calendar''}
        then Inl UnavailableCapability
        else if \<not> rd_capability_available d \<and> rd_worker_type d = Some ''web_search''
        then Inl PrivateCapabilityAsSearch
        else Inr d
      else if rd_worker_id d \<noteq> None \<or> rd_worker_type d \<noteq> None \<or> rd_topic d \<noteq> None
      then Inl NonWorkerSelectsWorker
      else Inr d)"

record routing_state =
  rs_turn_id :: string
  rs_action :: routing_action
  rs_worker_id :: "string option"
  rs_worker_type :: "string option"
  rs_topic :: "string option"
  rs_model_policy :: "string option"
  rs_origin_epoch :: "epoch option"

datatype transcript_role = User | Assistant

record transcript_entry =
  te_role :: transcript_role
  te_text :: string
  te_turn_id :: string
  te_timestamp :: string
  te_origin_epoch :: "epoch option"

record worker_state =
  wk_worker_id :: string
  wk_topic :: string
  wk_model_policy :: string
  wk_status :: string
  wk_latest_result_id :: "string option"
  wk_origin_epoch :: "epoch option"

section \<open>Grounded results\<close>

record citation =
  ci_title :: string
  ci_url :: string

record grounded_result =
  gr_result_id :: string
  gr_worker_id :: string
  gr_turn_id :: string
  gr_timestamp :: string
  gr_text :: string
  gr_citations :: "citation list"
  gr_spoken_text :: string
  gr_origin_epoch :: "epoch option"

definition validate_projections :: "grounded_result \<Rightarrow> contract_error + grounded_result" where
  "validate_projections r =
     (if [] \<in> {gr_result_id r, gr_worker_id r, gr_turn_id r, gr_timestamp r, gr_text r, gr_spoken_text r}
      then Inl EmptyField
      else if py_strip (gr_text r) = [] \<or> py_strip (gr_spoken_text r) = [] then Inl BlankProjection
      else Inr r)"

section \<open>Work status\<close>

datatype work_status_state = WsRouting | WsSearching | WsBackground | WsResultReady | WsFailed | WsCancelled

datatype terminal_reason = MissingWorker | RetentionRejected

fun ws_transitions :: "work_status_state \<Rightarrow> work_status_state set" where
  "ws_transitions WsRouting = {WsSearching, WsFailed, WsCancelled}"
| "ws_transitions WsSearching = {WsBackground, WsResultReady, WsFailed, WsCancelled}"
| "ws_transitions WsBackground = {WsResultReady, WsFailed, WsCancelled}"
| "ws_transitions WsResultReady = {}"
| "ws_transitions WsFailed = {}"
| "ws_transitions WsCancelled = {}"

definition ws_terminal :: "work_status_state \<Rightarrow> bool" where
  "ws_terminal s \<longleftrightarrow> ws_transitions s = {}"

definition ws_cold_start :: "work_status_state set" where
  "ws_cold_start = {WsRouting, WsSearching, WsBackground, WsResultReady, WsFailed}"

definition legal_work_status_transition :: "work_status_state option \<Rightarrow> work_status_state \<Rightarrow> bool" where
  "legal_work_status_transition previous s =
     (case previous of
        None \<Rightarrow> s \<in> ws_cold_start
      | Some p \<Rightarrow> if p = s then False else s \<in> ws_transitions p)"

record work_status =
  ws_turn_id :: string
  ws_work_item_id :: "string option"
  ws_worker_id :: "string option"
  ws_state :: work_status_state
  ws_event_sequence :: nat
  ws_terminal_reason :: "terminal_reason option"
  ws_origin_epoch :: "epoch option"

definition validate_work_status :: "work_status \<Rightarrow> contract_error + work_status" where
  "validate_work_status w =
     (if ws_turn_id w = [] then Inl EmptyField
      else if ws_terminal_reason w \<noteq> None \<and> ws_state w \<noteq> WsFailed then Inl ReasonWithoutFailure
      else Inr w)"

definition WORK_STATUS_V1 :: string where
  "WORK_STATUS_V1 = ''work_status_v1''"

definition resolve_work_status_wire_presence :: "string set \<Rightarrow> bool" where
  "resolve_work_status_wire_presence capabilities \<longleftrightarrow> WORK_STATUS_V1 \<in> capabilities"

section \<open>Snapshots and their watermark\<close>

definition CONTRACT_VERSION :: string where
  "CONTRACT_VERSION = ''v1.0''"

record runtime_snapshot =
  sn_contract_version :: string
  sn_session_id :: string
  sn_snapshot_sequence :: nat
  sn_workers :: "worker_state list"
  sn_results :: "grounded_result list"
  sn_speech_progress :: "speech_progress list"
  sn_routing :: "routing_state option"
  sn_transcript :: "transcript_entry list"
  sn_origin_epoch :: "epoch option"
  sn_work_status :: "work_status list"

definition MAX_WATERMARK_SESSIONS :: nat where
  "MAX_WATERMARK_SESSIONS = 256"

type_synonym watermarks = "(string, nat) dict"

definition reset_monotonicity :: "string \<Rightarrow> watermarks \<Rightarrow> watermarks" where
  "reset_monotonicity session wm = AList.delete session wm"

definition validate_version_and_monotonicity ::
    "watermarks \<Rightarrow> runtime_snapshot \<Rightarrow> contract_error + watermarks" where
  "validate_version_and_monotonicity wm sn =
     (if sn_contract_version sn \<noteq> CONTRACT_VERSION then Inl (UnsupportedVersion (sn_contract_version sn))
      else
        let previous = map_of wm (sn_session_id sn) in
        if (case previous of None \<Rightarrow> False | Some p \<Rightarrow> sn_snapshot_sequence sn < p) then Inl NotMonotonic
        else Inr (lru_put MAX_WATERMARK_SESSIONS (sn_session_id sn)
                    (max (case previous of None \<Rightarrow> 0 | Some p \<Rightarrow> p) (sn_snapshot_sequence sn)) wm))"

definition wire_work_status :: "bool \<Rightarrow> runtime_snapshot \<Rightarrow> work_status list option" where
  "wire_work_status include_work_status sn =
     (if include_work_status then Some (sn_work_status sn) else None)"

section \<open>Snapshot handshake\<close>

record snapshot_handshake =
  hs_contract_version :: string
  hs_session_id :: string
  hs_resume_token :: string
  hs_proposed_epoch :: epoch
  hs_snapshot_sequence :: nat
  hs_capabilities :: "string list"
  hs_capabilities_present :: bool

definition validate_capabilities :: "string list \<Rightarrow> contract_error + string list" where
  "validate_capabilities value =
     (if [] \<in> set value then Inl EmptyCapability else Inr (sort (remdups value)))"

section \<open>Lemmas\<close>

lemma ws_terminal_simps [simp]:
  "\<not> ws_terminal WsRouting" "\<not> ws_terminal WsSearching" "\<not> ws_terminal WsBackground"
  "ws_terminal WsResultReady" "ws_terminal WsFailed" "ws_terminal WsCancelled"
  by (simp_all add: ws_terminal_def)

lemma legal_from_terminal: "ws_terminal p \<Longrightarrow> \<not> legal_work_status_transition (Some p) s"
  by (simp add: legal_work_status_transition_def ws_terminal_def)

text \<open>Progress of a work status: every legal move raises it, so a record settles after three moves.\<close>

fun ws_progress :: "work_status_state \<Rightarrow> nat" where
  "ws_progress WsRouting = 0"
| "ws_progress WsSearching = 1"
| "ws_progress WsBackground = 2"
| "ws_progress WsResultReady = 3"
| "ws_progress WsFailed = 3"
| "ws_progress WsCancelled = 3"

lemma legal_raises_progress: "legal_work_status_transition (Some p) s \<Longrightarrow> ws_progress p < ws_progress s"
  by (cases p; cases s) (simp_all add: legal_work_status_transition_def)

lemma ws_terminal_progress: "ws_terminal s \<longleftrightarrow> ws_progress s = 3"
  by (cases s) simp_all

fun ws_chain :: "work_status_state option \<Rightarrow> work_status_state list \<Rightarrow> bool" where
  "ws_chain p [] \<longleftrightarrow> True"
| "ws_chain p (s # ss) \<longleftrightarrow> legal_work_status_transition p s \<and> ws_chain (Some s) ss"

lemma ws_chain_length: "ws_chain (Some p) ss \<Longrightarrow> length ss + ws_progress p \<le> 3"
proof (induction ss arbitrary: p)
  case Nil
  then show ?case by (cases p) simp_all
next
  case (Cons s ss)
  then have "ws_progress p < ws_progress s" and "length ss + ws_progress s \<le> 3"
    by (auto dest: legal_raises_progress)
  then show ?case by simp
qed

lemma validate_work_status_Inr: "validate_work_status w = Inr w' \<longleftrightarrow>
    w' = w \<and> ws_turn_id w \<noteq> [] \<and> (ws_terminal_reason w = None \<or> ws_state w = WsFailed)"
  by (auto simp: validate_work_status_def)

interpretation watermark_cache: bounded_cache "lru_put MAX_WATERMARK_SESSIONS" map_of length
    MAX_WATERMARK_SESSIONS "wf_dict :: watermarks \<Rightarrow> bool"
  by unfold_locales
    (auto simp: length_lru_put map_of_lru_put_same MAX_WATERMARK_SESSIONS_def dest: map_of_lru_put_other)

section \<open>Properties\<close>

text \<open>
  A work-status record started cold settles after at most four legal writes, whatever they
  are: the transition table of the contract has no cycles, and a terminal state has no successor.
\<close>

theorem work_status_settles:
  assumes "ws_chain None ss"
  shows "length ss \<le> 4 \<and> WsCancelled \<notin> set (take 1 ss) \<and> (\<forall>s \<in> set (butlast ss). \<not> ws_terminal s)"
proof (cases ss)
  case Nil
  then show ?thesis by simp
next
  case (Cons s rest)
  with assms have cold: "s \<in> ws_cold_start" and chain: "ws_chain (Some s) rest"
    by (simp_all add: legal_work_status_transition_def)
  have inner: "ws_chain p xs \<Longrightarrow> \<forall>x \<in> set (butlast xs). \<not> ws_terminal x" for p xs
  proof (induction xs arbitrary: p)
    case (Cons x xs)
    then show ?case by (cases xs) (auto dest: legal_from_terminal)
  qed simp
  show ?thesis
    using Cons cold ws_chain_length [OF chain] inner [OF assms] by (auto simp: ws_cold_start_def)
qed

lemma work_status_settles_witness:
  "ws_chain None [WsRouting, WsSearching, WsBackground, WsFailed] \<and>
   length [WsRouting, WsSearching, WsBackground, WsFailed] \<le> 4"
proof -
  have "ws_chain None [WsRouting, WsSearching, WsBackground, WsFailed]"
    by (simp add: legal_work_status_transition_def ws_cold_start_def)
  with work_status_settles [OF this] show ?thesis by simp
qed

text \<open>
  Snapshot validation accepts a snapshot exactly when the contract version matches and the
  sequence is at least the session's recorded watermark; acceptance raises that session's watermark
  to the new sequence, touches no other retained session's watermark, and keeps at most 256 sessions.
\<close>

theorem snapshot_watermark_monotonic:
  assumes "wf_dict wm"
  shows "((\<exists>wm'. validate_version_and_monotonicity wm sn = Inr wm') \<longleftrightarrow>
           sn_contract_version sn = CONTRACT_VERSION \<and>
           (\<forall>p. map_of wm (sn_session_id sn) = Some p \<longrightarrow> p \<le> sn_snapshot_sequence sn)) \<and>
         (\<forall>wm'. validate_version_and_monotonicity wm sn = Inr wm' \<longrightarrow>
           map_of wm' (sn_session_id sn) = Some (sn_snapshot_sequence sn) \<and>
           (\<forall>k w. k \<noteq> sn_session_id sn \<longrightarrow> map_of wm' k = Some w \<longrightarrow> map_of wm k = Some w) \<and>
           length wm' \<le> 256 \<and> wf_dict wm')"
proof (intro conjI allI impI)
  show "(\<exists>wm'. validate_version_and_monotonicity wm sn = Inr wm') \<longleftrightarrow>
           sn_contract_version sn = CONTRACT_VERSION \<and>
           (\<forall>p. map_of wm (sn_session_id sn) = Some p \<longrightarrow> p \<le> sn_snapshot_sequence sn)"
    by (auto simp: validate_version_and_monotonicity_def Let_def split: option.splits)
next
  fix wm'
  assume "validate_version_and_monotonicity wm sn = Inr wm'"
  then have wm': "wm' = lru_put MAX_WATERMARK_SESSIONS (sn_session_id sn) (sn_snapshot_sequence sn) wm"
    by (auto simp: validate_version_and_monotonicity_def Let_def max_def
        split: option.splits if_splits)
  note laws = watermark_cache.get_put_same [OF assms] watermark_cache.get_put_other [OF assms]
    watermark_cache.put_bounded [OF assms] watermark_cache.put_invar [OF assms]
  show "map_of wm' (sn_session_id sn) = Some (sn_snapshot_sequence sn)" unfolding wm' by (rule laws)
  show "map_of wm k = Some w" if "k \<noteq> sn_session_id sn" "map_of wm' k = Some w" for k w
    using that unfolding wm' by (rule laws)
  show "length wm' \<le> 256" using laws(3) unfolding wm' by (simp add: MAX_WATERMARK_SESSIONS_def)
  show "wf_dict wm'" unfolding wm' by (rule laws)
qed

lemma snapshot_watermark_monotonic_witness:
  "validate_version_and_monotonicity [(''s1'', 7)]
     \<lparr>sn_contract_version = ''v1.0'', sn_session_id = ''s1'', sn_snapshot_sequence = 9, sn_workers = [],
      sn_results = [], sn_speech_progress = [], sn_routing = None, sn_transcript = [],
      sn_origin_epoch = None, sn_work_status = []\<rparr> = Inr [(''s1'', 9)] \<and>
   length [(''s1'', 9 :: nat)] \<le> 256"
proof -
  let ?sn = "\<lparr>sn_contract_version = ''v1.0'', sn_session_id = ''s1'', sn_snapshot_sequence = 9, sn_workers = [],
      sn_results = [], sn_speech_progress = [], sn_routing = None, sn_transcript = [],
      sn_origin_epoch = None, sn_work_status = []\<rparr>"
  have wf: "wf_dict [(''s1'', 7 :: nat)]" by (simp add: wf_dict_def)
  have v: "validate_version_and_monotonicity [(''s1'', 7)] ?sn = Inr [(''s1'', 9)]"
    by (simp add: validate_version_and_monotonicity_def CONTRACT_VERSION_def lru_put_eq
        MAX_WATERMARK_SESSIONS_def)
  show ?thesis using v snapshot_watermark_monotonic [OF wf, of ?sn] by auto
qed

text \<open>
  A routing decision that validation accepts never dispatches to a worker it does not name:
  a worker route carries a worker type, topic and model policy, an existing-worker route names a
  worker of the catalogue snapshot (when one is given), an unavailable capability is never turned
  into web search, and a non-worker route names no worker at all.
\<close>

theorem accepted_selection_is_closed:
  assumes "validate_selection d = Inr d'"
  shows "d' = d \<and>
    (is_worker_route (rd_action d) \<longrightarrow>
       truthy (rd_worker_type d) \<and> truthy (rd_topic d) \<and> truthy (rd_model_policy d) \<and>
       (rd_capability_available d \<or>
          (rd_worker_type d \<noteq> Some ''web_search'' \<and> rd_capability d \<in> {None, Some ''private_calendar''}))) \<and>
    (rd_action d = ExistingWorker \<longrightarrow>
       (\<exists>w. rd_worker_id d = Some w \<and> w \<noteq> [] \<and> \<not> sublist ''hallucinated'' (ascii_lower w) \<and>
            (rd_catalogue_worker_ids d = [] \<or> w \<in> set (rd_catalogue_worker_ids d)))) \<and>
    (\<not> is_worker_route (rd_action d) \<longrightarrow>
       rd_worker_id d = None \<and> rd_worker_type d = None \<and> rd_topic d = None)"
  using assms
  by (cases "rd_worker_id d")
    (auto simp: validate_selection_def truthy_def is_worker_route_def split: if_splits)

lemma accepted_selection_is_closed_witness:
  "let d = \<lparr>rd_action = ExistingWorker, rd_worker_id = Some ''worker-1'', rd_worker_type = Some ''web_search'',
       rd_topic = Some ''news'', rd_capability = Some ''public_web'', rd_capability_available = True,
       rd_model_policy = Some ''deep'', rd_catalogue_version = ''catalogue-1'',
       rd_catalogue_worker_ids = [''worker-1''], rd_origin_epoch = None\<rparr>
   in validate_selection d = Inr d \<and> ''worker-1'' \<in> set (rd_catalogue_worker_ids d)"
proof -
  let ?d = "\<lparr>rd_action = ExistingWorker, rd_worker_id = Some ''worker-1'', rd_worker_type = Some ''web_search'',
       rd_topic = Some ''news'', rd_capability = Some ''public_web'', rd_capability_available = True,
       rd_model_policy = Some ''deep'', rd_catalogue_version = ''catalogue-1'',
       rd_catalogue_worker_ids = [''worker-1''], rd_origin_epoch = None\<rparr>"
  have v: "validate_selection ?d = Inr ?d"
    by code_simp
  show ?thesis using v accepted_selection_is_closed [OF v] by simp
qed

end
