(* ===== verification/Session_State.thy ===== *)
theory Session_State
  imports Contracts
begin

text \<open>
  The process-lifetime session state of \<open>server/session_state.py\<close> with the result log of
  \<open>server/results.py\<close>: the epoch fences, the delivery state machine of speech progress, result
  commits, the bounded event log, and the work-status ledger (children, parent aggregate, per-key
  sequence, tombstones, restored keys, TTL pruning and overflow eviction), with the snapshot and
  its rehydration.

  Every method is a function from the state to the new state and what it returns; a method that can
  raise returns \<open>Inl\<close> of the error together with the state it leaves behind. \<open>time.monotonic()\<close>
  is the argument \<open>now\<close>. A listener of \<open>subscribe\<close> sees exactly the events the operations return
  (they are the ones \<open>_emit\<close> passes on); theory \<open>Observers\<close> models the one listener there is.
\<close>

section \<open>Delivery ranks\<close>

definition delivery_terminal :: "delivery_state \<Rightarrow> bool" where
  "delivery_terminal s \<longleftrightarrow>
     s \<in> {DELIVERY_COMPLETED, DELIVERY_UNKNOWN, INTERRUPTED, INTERRUPTED_BY_RECONNECT}"

fun delivery_rank :: "delivery_state \<Rightarrow> nat" where
  "delivery_rank DISPLAYED = 0"
| "delivery_rank QUEUED = 1"
| "delivery_rank STARTED = 2"
| "delivery_rank SYNTHESIS_ENDED = 3"
| "delivery_rank PAUSED = 3"
| "delivery_rank RESUMED = 2"
| "delivery_rank DELIVERY_UNKNOWN = 5"
| "delivery_rank DELIVERY_COMPLETED = 6"
| "delivery_rank INTERRUPTED = 7"
| "delivery_rank INTERRUPTED_BY_RECONNECT = 8"

section \<open>State\<close>

datatype payload =
    PWorker worker_state
  | PRouting routing_state
  | PTranscript transcript_entry
  | PResult grounded_result
  | PSpeech speech_progress
  | PWorkStatus work_status

fun event_kind :: "payload \<Rightarrow> string" where
  "event_kind (PWorker _) = ''worker''"
| "event_kind (PRouting _) = ''routing''"
| "event_kind (PTranscript e) = (if te_role e = User then ''user_transcript'' else ''bot_transcript'')"
| "event_kind (PResult _) = ''result''"
| "event_kind (PSpeech _) = ''speech_progress''"
| "event_kind (PWorkStatus _) = ''work_status''"

record state_event =
  ev_sequence :: nat
  ev_kind :: string
  ev_payload :: payload

record ws_key =
  wk_epoch :: "epoch option"
  wk_turn_id :: string
  wk_parent_key :: string

record ws_record =
  wr_status :: work_status
  wr_terminal_at :: "instant option"

record session_state =
  ss_session_id :: string
  ss_resume_token :: string
  ss_sequence :: nat
  ss_workers :: "(string, worker_state) dict"
  ss_results :: "grounded_result list"
  ss_speech :: "(string, speech_progress) dict"
  ss_routing :: "routing_state option"
  ss_transcript :: "transcript_entry list"
  ss_events :: "state_event list"
  ss_active_epoch :: "epoch option"
  ss_speech_history :: "(string, speech_progress list) dict"
  ss_ws_children :: "(ws_key, (string, work_status) dict) dict"
  ss_ws_parents :: "(ws_key, ws_record) dict"
  ss_ws_sequence :: "(ws_key, nat) dict"
  ss_ws_terminal_keys :: "ws_key set"
  ss_ws_nonauth_keys :: "ws_key set"
  ss_ws_nonauth_at :: "(ws_key, instant) dict"

definition WORK_STATUS_TTL_SECONDS :: instant where
  "WORK_STATUS_TTL_SECONDS = 300"

definition MAX_WORK_STATUS_KEYS :: nat where
  "MAX_WORK_STATUS_KEYS = 256"

definition MAX_EVENTS :: nat where
  "MAX_EVENTS = 2000"

definition init_session :: "string \<Rightarrow> string \<Rightarrow> session_state" where
  "init_session session_id resume_token =
     \<lparr>ss_session_id = session_id, ss_resume_token = resume_token, ss_sequence = 0, ss_workers = [],
      ss_results = [], ss_speech = [], ss_routing = None, ss_transcript = [], ss_events = [],
      ss_active_epoch = None, ss_speech_history = [], ss_ws_children = [], ss_ws_parents = [],
      ss_ws_sequence = [], ss_ws_terminal_keys = {}, ss_ws_nonauth_keys = {}, ss_ws_nonauth_at = []\<rparr>"

section \<open>Emission and fenced setters\<close>

definition emit :: "payload \<Rightarrow> session_state \<Rightarrow> session_state \<times> state_event" where
  "emit p s =
     (let n = ss_sequence s + 1;
          event = \<lparr>ev_sequence = n, ev_kind = event_kind p, ev_payload = p\<rparr>
      in (s\<lparr>ss_sequence := n, ss_events := deque_append MAX_EVENTS event (ss_events s)\<rparr>, event))"

text \<open>The guard of the setters: with an active epoch, only that epoch may write.\<close>

definition stale_epoch :: "epoch option \<Rightarrow> session_state \<Rightarrow> bool" where
  "stale_epoch origin s \<longleftrightarrow>
     ss_active_epoch s \<noteq> None \<and> (origin = None \<or> origin \<noteq> ss_active_epoch s)"

definition set_worker :: "worker_state \<Rightarrow> session_state \<Rightarrow> session_state \<times> state_event option" where
  "set_worker w s =
     (if stale_epoch (wk_origin_epoch w) s then (s, None)
      else let (s', e) = emit (PWorker w) (s\<lparr>ss_workers := AList.update (wk_worker_id w) w (ss_workers s)\<rparr>)
           in (s', Some e))"

definition set_routing :: "routing_state \<Rightarrow> session_state \<Rightarrow> session_state \<times> state_event option" where
  "set_routing r s =
     (if stale_epoch (rs_origin_epoch r) s then (s, None)
      else let (s', e) = emit (PRouting r) (s\<lparr>ss_routing := Some r\<rparr>) in (s', Some e))"

definition append_transcript ::
    "transcript_entry \<Rightarrow> session_state \<Rightarrow> session_state \<times> state_event option" where
  "append_transcript t s =
     (if stale_epoch (te_origin_epoch t) s then (s, None)
      else if \<exists>item \<in> set (ss_transcript s).
                te_role item = te_role t \<and> te_turn_id item = te_turn_id t \<and> te_text item = te_text t
      then (s, None)
      else let (s', e) = emit (PTranscript t) (s\<lparr>ss_transcript := ss_transcript s @ [t]\<rparr>)
           in (s', Some e))"

section \<open>Results\<close>

datatype session_error = DuplicateResult string | InvalidStatus contract_error

definition result_log_append ::
    "grounded_result \<Rightarrow> grounded_result list \<Rightarrow> session_error + grounded_result list" where
  "result_log_append r rlog =
     (if \<exists>x \<in> set rlog. gr_result_id x = gr_result_id r then Inl (DuplicateResult (gr_result_id r))
      else Inr (rlog @ [r]))"

definition for_worker :: "string \<Rightarrow> grounded_result list \<Rightarrow> grounded_result list" where
  "for_worker worker_id rlog = filter (\<lambda>r. gr_worker_id r = worker_id) rlog"

definition append_result ::
    "grounded_result \<Rightarrow> nat option \<Rightarrow> epoch option \<Rightarrow> session_state
       \<Rightarrow> session_state \<times> (session_error + state_event option)" where
  "append_result r sequence origin s =
     (if ss_active_epoch s \<noteq> None \<and> origin = None then (s, Inr None)
      else if origin \<noteq> None \<and> gr_origin_epoch r \<noteq> None \<and> origin \<noteq> gr_origin_epoch r then (s, Inr None)
      else
        let r = (if origin \<noteq> None \<and> gr_origin_epoch r = None then r\<lparr>gr_origin_epoch := origin\<rparr> else r) in
        if \<exists>x \<in> set (ss_results s). gr_result_id x = gr_result_id r then (s, Inr None)
        else
          let effective = (if origin \<noteq> None then origin else gr_origin_epoch r) in
          if ss_active_epoch s \<noteq> None \<and> effective \<noteq> ss_active_epoch s then
            (case result_log_append r (ss_results s) of
               Inl e \<Rightarrow> (s, Inl e)
             | Inr rlog \<Rightarrow> let (s', e) = emit (PResult r) (s\<lparr>ss_results := rlog\<rparr>) in (s', Inr (Some e)))
          else
            let s = (case sequence of None \<Rightarrow> s
                     | Some q \<Rightarrow> if ss_sequence s < q then s\<lparr>ss_sequence := q - 1\<rparr> else s) in
            (case result_log_append r (ss_results s) of
               Inl e \<Rightarrow> (s, Inl e)
             | Inr rlog \<Rightarrow>
                 let s = s\<lparr>ss_results := rlog,
                          ss_workers := (case map_of (ss_workers s) (gr_worker_id r) of
                             None \<Rightarrow> ss_workers s
                           | Some w \<Rightarrow> AList.update (gr_worker_id r)
                                         (w\<lparr>wk_latest_result_id := Some (gr_result_id r)\<rparr>) (ss_workers s))\<rparr>;
                     (s', e) = emit (PResult r) s
                 in (s', Inr (Some e))))"

section \<open>Speech progress\<close>

definition speech_progress_op ::
    "speech_progress \<Rightarrow> bool \<Rightarrow> session_state \<Rightarrow> session_state \<times> speech_progress" where
  "speech_progress_op p allow_stale_reconnect s =
     (if \<not> allow_stale_reconnect \<and> stale_epoch (sp_origin_epoch p) s
      then (s, case map_of (ss_speech s) (sp_utterance_id p) of None \<Rightarrow> p | Some q \<Rightarrow> q)
      else
        case map_of (ss_speech s) (sp_utterance_id p) of
          Some q \<Rightarrow>
            if delivery_terminal (sp_state q) then (s, q)
            else if delivery_rank (sp_state p) < delivery_rank (sp_state q) then (s, q)
            else (fst (emit (PSpeech p)
                    (s\<lparr>ss_speech := AList.update (sp_utterance_id p) p (ss_speech s),
                       ss_speech_history := AList.update (sp_utterance_id p)
                         ((case map_of (ss_speech_history s) (sp_utterance_id p) of None \<Rightarrow> [] | Some h \<Rightarrow> h) @ [p])
                         (ss_speech_history s)\<rparr>)), p)
        | None \<Rightarrow>
            (fst (emit (PSpeech p)
                    (s\<lparr>ss_speech := AList.update (sp_utterance_id p) p (ss_speech s),
                       ss_speech_history := AList.update (sp_utterance_id p)
                         ((case map_of (ss_speech_history s) (sp_utterance_id p) of None \<Rightarrow> [] | Some h \<Rightarrow> h) @ [p])
                         (ss_speech_history s)\<rparr>)), p))"

definition apply_speech_progress ::
    "speech_progress \<Rightarrow> epoch option \<Rightarrow> bool \<Rightarrow> session_state \<Rightarrow> session_state \<times> speech_progress" where
  "apply_speech_progress p origin allow_stale_reconnect s =
     speech_progress_op
       (p\<lparr>sp_origin_epoch := (if origin \<noteq> None then origin else sp_origin_epoch p)\<rparr>) allow_stale_reconnect s"

definition speech_history :: "session_state \<Rightarrow> string \<Rightarrow> speech_progress list" where
  "speech_history s u = (case map_of (ss_speech_history s) u of None \<Rightarrow> [] | Some h \<Rightarrow> h)"

section \<open>Work-status ledger\<close>

definition aggregate :: "work_status list \<Rightarrow> work_status_state \<times> terminal_reason option" where
  "aggregate children =
     (if \<exists>c \<in> set children. ws_state c = WsRouting then (WsRouting, None)
      else if \<exists>c \<in> set children. ws_state c = WsSearching then (WsSearching, None)
      else if \<exists>c \<in> set children. \<not> ws_terminal (ws_state c) then (WsBackground, None)
      else
        let failed = filter (\<lambda>c. ws_state c = WsFailed) children in
        if failed \<noteq> [] then
          (WsFailed, case find (\<lambda>c. ws_terminal_reason c \<noteq> None) failed of
                       None \<Rightarrow> None | Some c \<Rightarrow> ws_terminal_reason c)
        else if \<forall>c \<in> set children. ws_state c = WsCancelled then (WsCancelled, None)
        else (WsResultReady, None))"

definition forget_work_status :: "ws_key \<Rightarrow> session_state \<Rightarrow> session_state" where
  "forget_work_status key s =
     (let record = map_of (ss_ws_parents s) key;
          s' = s\<lparr>ss_ws_children := AList.delete key (ss_ws_children s),
                 ss_ws_nonauth_at := AList.delete key (ss_ws_nonauth_at s),
                 ss_ws_parents := AList.delete key (ss_ws_parents s)\<rparr>
      in case record of
           Some r \<Rightarrow> if ws_terminal (ws_state (wr_status r))
                     then s'\<lparr>ss_ws_terminal_keys := insert key (ss_ws_terminal_keys s')\<rparr> else s'
         | None \<Rightarrow> s')"

definition expiry_stamp :: "session_state \<Rightarrow> ws_key \<Rightarrow> instant option" where
  "expiry_stamp s key =
     (case map_of (ss_ws_parents s) key of
        None \<Rightarrow> None
      | Some r \<Rightarrow> (case wr_terminal_at r of Some t \<Rightarrow> Some t | None \<Rightarrow> map_of (ss_ws_nonauth_at s) key))"

text \<open>\<open>min(candidates, key=...)\<close>: the first pair with the least stamp.\<close>

fun first_min :: "('a \<times> instant) list \<Rightarrow> 'a option" where
  "first_min [] = None"
| "first_min (p # ps) = Some (fst (foldl (\<lambda>best q. if snd q < snd best then q else best) p ps))"

definition eviction_candidates :: "ws_key \<Rightarrow> session_state \<Rightarrow> (ws_key \<times> instant) list" where
  "eviction_candidates protect s =
     map (\<lambda>k. (k, the (expiry_stamp s k)))
       (filter (\<lambda>k. k \<noteq> protect \<and> expiry_stamp s k \<noteq> None) (dkeys (ss_ws_parents s)))"

lemma foldl_pick: "foldl (\<lambda>best q. if P q best then q else best) p ps \<in> set (p # ps)"
  by (induction ps arbitrary: p) (auto split: if_splits)

lemma first_min_in: "first_min ps = Some k \<Longrightarrow> \<exists>t. (k, t) \<in> set ps"
proof (cases ps)
  case (Cons p qs)
  assume "first_min ps = Some k"
  with Cons have "k = fst (foldl (\<lambda>best q. if snd q < snd best then q else best) p qs)" by simp
  moreover have "foldl (\<lambda>best q. if snd q < snd best then q else best) p qs \<in> set ps"
    unfolding Cons by (rule foldl_pick)
  ultimately have "(k, snd (foldl (\<lambda>best q. if snd q < snd best then q else best) p qs)) \<in> set ps"
    by simp
  then show ?thesis by blast
qed simp

lemma eviction_candidates_iff:
  "(k, t) \<in> set (eviction_candidates protect s) \<longleftrightarrow>
     k \<in> set (dkeys (ss_ws_parents s)) \<and> k \<noteq> protect \<and> expiry_stamp s k = Some t"
  by (auto simp: eviction_candidates_def image_iff)

lemma forget_parents: "ss_ws_parents (forget_work_status key s) = AList.delete key (ss_ws_parents s)"
  by (simp add: forget_work_status_def Let_def split: option.split)

function evict_overflow :: "ws_key \<Rightarrow> session_state \<Rightarrow> session_state" where
  "evict_overflow protect s =
     (if length (ss_ws_parents s) \<le> MAX_WORK_STATUS_KEYS then s
      else case first_min (eviction_candidates protect s) of
             None \<Rightarrow> s
           | Some oldest \<Rightarrow> evict_overflow protect (forget_work_status oldest s))"
  by pat_completeness auto
termination
  by (relation "measure (\<lambda>(protect, s). length (ss_ws_parents s))")
    (auto simp: forget_parents eviction_candidates_iff dest!: first_min_in intro!: length_dpop)

declare evict_overflow.simps [simp del]

definition reaggregate_parent ::
    "instant \<Rightarrow> ws_key \<Rightarrow> session_state \<Rightarrow> session_state \<times> (session_error + state_event option)" where
  "reaggregate_parent now key s =
     (let children = (case map_of (ss_ws_children s) key of None \<Rightarrow> [] | Some d \<Rightarrow> dvals d) in
      if children = [] then (s, Inr None)
      else
        let (parent_state, parent_reason) = aggregate children;
            record = map_of (ss_ws_parents s) key in
        if record = None \<and> key \<in> ss_ws_terminal_keys s
        then (s\<lparr>ss_ws_children := AList.delete key (ss_ws_children s)\<rparr>, Inr None)
        else if (case record of None \<Rightarrow> False | Some r \<Rightarrow> ws_state (wr_status r) = parent_state)
        then (s, Inr None)
        else if (case record of None \<Rightarrow> False | Some r \<Rightarrow> ws_terminal (ws_state (wr_status r)))
        then (s, Inr None)
        else if key \<in> ss_ws_nonauth_keys s \<and> ws_terminal parent_state
        then (if record = None then s\<lparr>ss_ws_children := AList.delete key (ss_ws_children s)\<rparr> else s, Inr None)
        else
          let next_sequence = (case map_of (ss_ws_sequence s) key of None \<Rightarrow> 0 | Some n \<Rightarrow> n) + 1;
              s = s\<lparr>ss_ws_sequence := AList.update key next_sequence (ss_ws_sequence s)\<rparr>
          in case validate_work_status
                    \<lparr>ws_turn_id = wk_turn_id key, ws_work_item_id = Some (wk_parent_key key),
                     ws_worker_id = None, ws_state = parent_state, ws_event_sequence = next_sequence,
                     ws_terminal_reason = parent_reason, ws_origin_epoch = wk_epoch key\<rparr> of
               Inl e \<Rightarrow> (s, Inl (InvalidStatus e))
             | Inr status \<Rightarrow>
                 let s = (if key \<in> ss_ws_nonauth_keys s \<and> map_of (ss_ws_nonauth_at s) key = None
                          then s\<lparr>ss_ws_nonauth_at := AList.update key now (ss_ws_nonauth_at s)\<rparr> else s);
                     s = s\<lparr>ss_ws_parents := AList.update key
                            \<lparr>wr_status = status,
                             wr_terminal_at = (if ws_terminal parent_state then Some now else None)\<rparr>
                            (ss_ws_parents s)\<rparr>;
                     (s, e) = emit (PWorkStatus status) (evict_overflow key s)
                 in (s, Inr (Some e)))"

record child_report =
  cr_turn_id :: string
  cr_work_item_id :: string
  cr_parent_work_item_id :: "string option"
  cr_worker_id :: "string option"
  cr_state :: work_status_state
  cr_origin_epoch :: "epoch option"
  cr_terminal_reason :: "terminal_reason option"

definition child_key :: "child_report \<Rightarrow> ws_key" where
  "child_key c =
     \<lparr>wk_epoch = cr_origin_epoch c, wk_turn_id = cr_turn_id c,
      wk_parent_key = (if truthy (cr_parent_work_item_id c) then the (cr_parent_work_item_id c)
                       else cr_work_item_id c)\<rparr>"

definition child_status :: "child_report \<Rightarrow> work_status" where
  "child_status c =
     \<lparr>ws_turn_id = cr_turn_id c, ws_work_item_id = Some (cr_work_item_id c),
      ws_worker_id = cr_worker_id c, ws_state = cr_state c, ws_event_sequence = 0,
      ws_terminal_reason = cr_terminal_reason c, ws_origin_epoch = cr_origin_epoch c\<rparr>"

definition set_child_work_status ::
    "instant \<Rightarrow> child_report \<Rightarrow> session_state \<Rightarrow> session_state \<times> (session_error + state_event option)" where
  "set_child_work_status now c s =
     (let key = child_key c;
          existing = map_of (ss_ws_children s) key;
          previous = (case existing of None \<Rightarrow> None | Some d \<Rightarrow> map_of d (cr_work_item_id c)) in
      if \<not> legal_work_status_transition (map_option ws_state previous) (cr_state c) then (s, Inr None)
      else
        let children = (case existing of None \<Rightarrow> [] | Some d \<Rightarrow> d);
            s = (if existing = None then s\<lparr>ss_ws_children := AList.update key [] (ss_ws_children s)\<rparr> else s) in
        case validate_work_status (child_status c) of
          Inl e \<Rightarrow> (s, Inl (InvalidStatus e))
        | Inr status \<Rightarrow>
            reaggregate_parent now key
              (s\<lparr>ss_ws_children := AList.update key
                   (AList.update (cr_work_item_id c) status children) (ss_ws_children s)\<rparr>))"

definition expired_keys :: "instant \<Rightarrow> session_state \<Rightarrow> ws_key list" where
  "expired_keys now s =
     filter (\<lambda>k. case expiry_stamp s k of None \<Rightarrow> False | Some t \<Rightarrow> WORK_STATUS_TTL_SECONDS \<le> now - t)
       (dkeys (ss_ws_parents s))"

definition prune_expired_work_status :: "instant \<Rightarrow> session_state \<Rightarrow> session_state" where
  "prune_expired_work_status now s = fold forget_work_status (expired_keys now s) s"

definition work_status_snapshot :: "instant \<Rightarrow> session_state \<Rightarrow> session_state \<times> work_status list" where
  "work_status_snapshot now s =
     (let s = prune_expired_work_status now s in (s, map wr_status (dvals (ss_ws_parents s))))"

section \<open>Snapshot and rehydration\<close>

definition snapshot ::
    "instant \<Rightarrow> epoch option \<Rightarrow> bool \<Rightarrow> session_state \<Rightarrow> session_state \<times> runtime_snapshot" where
  "snapshot now origin include_work_status s =
     (let (s', ws) = (if include_work_status then work_status_snapshot now s else (s, [])) in
      (s', \<lparr>sn_contract_version = ''v1.0'', sn_session_id = ss_session_id s,
            sn_snapshot_sequence = ss_sequence s, sn_workers = dvals (ss_workers s),
            sn_results = ss_results s, sn_speech_progress = dvals (ss_speech s),
            sn_routing = ss_routing s, sn_transcript = ss_transcript s,
            sn_origin_epoch = origin, sn_work_status = ws\<rparr>))"

definition restore_key :: "work_status \<Rightarrow> ws_key" where
  "restore_key w =
     \<lparr>wk_epoch = ws_origin_epoch w, wk_turn_id = ws_turn_id w,
      wk_parent_key = (if truthy (ws_work_item_id w) then the (ws_work_item_id w) else [])\<rparr>"

definition restore_status :: "instant \<Rightarrow> work_status \<Rightarrow> session_state \<Rightarrow> session_state" where
  "restore_status restored_at w s =
     (let key = restore_key w in
      s\<lparr>ss_ws_children := (if map_of (ss_ws_children s) key = None
                          then AList.update key [] (ss_ws_children s) else ss_ws_children s),
        ss_ws_sequence := AList.update key (ws_event_sequence w) (ss_ws_sequence s),
        ss_ws_parents := AList.update key
          \<lparr>wr_status = w, wr_terminal_at = (if ws_terminal (ws_state w) then Some restored_at else None)\<rparr>
          (ss_ws_parents s),
        ss_ws_nonauth_keys := insert key (ss_ws_nonauth_keys s),
        ss_ws_nonauth_at := AList.update key restored_at (ss_ws_nonauth_at s)\<rparr>)"

fun restore_results :: "grounded_result list \<Rightarrow> session_state \<Rightarrow> session_error + session_state" where
  "restore_results [] s = Inr s"
| "restore_results (r # rs) s =
     (case result_log_append r (ss_results s) of
        Inl e \<Rightarrow> Inl e
      | Inr rlog \<Rightarrow> restore_results rs (s\<lparr>ss_results := rlog\<rparr>))"

text \<open>\<open>fresh_id\<close> and \<open>fresh_token\<close> stand for the identifiers the constructor mints with \<open>uuid4\<close>.\<close>

definition from_snapshot ::
    "string \<Rightarrow> string \<Rightarrow> instant \<Rightarrow> runtime_snapshot \<Rightarrow> session_error + session_state" where
  "from_snapshot fresh_id fresh_token restored_at sn =
     (let s = init_session (if sn_session_id sn = [] then fresh_id else sn_session_id sn) fresh_token;
          s = s\<lparr>ss_sequence := sn_snapshot_sequence sn,
                ss_workers := fold (\<lambda>w. AList.update (wk_worker_id w) w) (sn_workers sn) []\<rparr>
      in case restore_results (sn_results sn) s of
           Inl e \<Rightarrow> Inl e
         | Inr s \<Rightarrow>
             Inr (fold (restore_status restored_at) (sn_work_status sn)
               (s\<lparr>ss_speech := fold (\<lambda>p. AList.update (sp_utterance_id p) p) (sn_speech_progress sn) [],
                  ss_speech_history :=
                    fold (\<lambda>p. AList.update (sp_utterance_id p) [p]) (sn_speech_progress sn) [],
                  ss_routing := sn_routing sn,
                  ss_transcript := sn_transcript sn\<rparr>)))"

end
