(* ===== verification/Session_Properties.thy ===== *)
theory Session_Properties
  imports Session_State
begin

text \<open>
  The operations of the session state as one machine, its invariants (event log, speech delivery,
  results, work-status ledger) and the properties that follow: contiguous authority of the epoch,
  delivery states that never go back, one commit per result, and a client-visible work-status
  stream that is strictly sequenced and stops at a terminal state.
\<close>

section \<open>Operations\<close>

datatype ss_op =
    SetWorker worker_state
  | SetRouting routing_state
  | AppendTranscript transcript_entry
  | AppendResult grounded_result "nat option" "epoch option"
  | SpeechProgressOp speech_progress bool
  | SetChild instant child_report
  | PruneExpired instant
  | SetActiveEpoch "epoch option"

primrec ss_step :: "ss_op \<Rightarrow> session_state \<Rightarrow> session_state" where
  "ss_step (SetWorker w) s = fst (set_worker w s)"
| "ss_step (SetRouting r) s = fst (set_routing r s)"
| "ss_step (AppendTranscript t) s = fst (append_transcript t s)"
| "ss_step (AppendResult r q e) s = fst (append_result r q e s)"
| "ss_step (SpeechProgressOp p b) s = fst (speech_progress_op p b s)"
| "ss_step (SetChild now c) s = fst (set_child_work_status now c s)"
| "ss_step (PruneExpired now) s = prune_expired_work_status now s"
| "ss_step (SetActiveEpoch e) s = s\<lparr>ss_active_epoch := e\<rparr>"

section \<open>What each operation leaves alone\<close>

lemma emit_frame [simp]:
  "ss_session_id (fst (emit p s)) = ss_session_id s"
  "ss_workers (fst (emit p s)) = ss_workers s"
  "ss_results (fst (emit p s)) = ss_results s"
  "ss_speech (fst (emit p s)) = ss_speech s"
  "ss_routing (fst (emit p s)) = ss_routing s"
  "ss_transcript (fst (emit p s)) = ss_transcript s"
  "ss_active_epoch (fst (emit p s)) = ss_active_epoch s"
  "ss_speech_history (fst (emit p s)) = ss_speech_history s"
  "ss_ws_children (fst (emit p s)) = ss_ws_children s"
  "ss_ws_parents (fst (emit p s)) = ss_ws_parents s"
  "ss_ws_sequence (fst (emit p s)) = ss_ws_sequence s"
  "ss_ws_terminal_keys (fst (emit p s)) = ss_ws_terminal_keys s"
  "ss_ws_nonauth_keys (fst (emit p s)) = ss_ws_nonauth_keys s"
  "ss_ws_nonauth_at (fst (emit p s)) = ss_ws_nonauth_at s"
  by (simp_all add: emit_def Let_def)

lemma emit_sequence [simp]: "ss_sequence (fst (emit p s)) = ss_sequence s + 1"
  by (simp add: emit_def Let_def)

lemma emit_events [simp]:
  "ss_events (fst (emit p s)) =
     deque_append MAX_EVENTS
       \<lparr>ev_sequence = ss_sequence s + 1, ev_kind = event_kind p, ev_payload = p\<rparr> (ss_events s)"
  by (simp add: emit_def Let_def)

text \<open>
  The ledger part of a state: what \<open>forget_work_status\<close> and \<open>evict_overflow\<close> may change. Two
  states that agree elsewhere have the same \<open>rest\<close>.
\<close>

definition ledger_rest :: "session_state \<Rightarrow> session_state" where
  "ledger_rest s = s\<lparr>ss_ws_children := [], ss_ws_parents := [], ss_ws_terminal_keys := {}, ss_ws_nonauth_at := []\<rparr>"

lemma ledger_rest_fields:
  assumes "ledger_rest s = ledger_rest t"
  shows "ss_sequence s = ss_sequence t" "ss_events s = ss_events t" "ss_speech s = ss_speech t"
    "ss_speech_history s = ss_speech_history t" "ss_results s = ss_results t"
    "ss_workers s = ss_workers t" "ss_ws_sequence s = ss_ws_sequence t"
    "ss_ws_nonauth_keys s = ss_ws_nonauth_keys t" "ss_active_epoch s = ss_active_epoch t"
    "ss_transcript s = ss_transcript t" "ss_routing s = ss_routing t" "ss_session_id s = ss_session_id t"
  using assms by (cases s; cases t; simp add: ledger_rest_def)+

lemma forget_rest: "ledger_rest (forget_work_status k s) = ledger_rest s"
  by (simp add: forget_work_status_def ledger_rest_def Let_def split: option.split)

lemma evict_rest: "ledger_rest (evict_overflow protect s) = ledger_rest s"
proof (induction protect s rule: evict_overflow.induct)
  case (1 protect s)
  then show ?case
    by (subst evict_overflow.simps) (auto simp: forget_rest split: option.split)
qed

lemma fold_forget_rest: "ledger_rest (fold forget_work_status ks s) = ledger_rest s"
  by (induction ks arbitrary: s) (auto simp: forget_rest)

lemma prune_rest: "ledger_rest (prune_expired_work_status now s) = ledger_rest s"
  by (simp add: prune_expired_work_status_def fold_forget_rest)

lemmas prune_frame [simp] = ledger_rest_fields [OF prune_rest]
lemmas evict_frame [simp] = ledger_rest_fields [OF evict_rest]

text \<open>
  The three shapes of a child report's effect: nothing but the children map changes, or one status
  is emitted after the parent record is written and the overflow evicted.
\<close>

definition write_parent ::
    "instant \<Rightarrow> ws_key \<Rightarrow> work_status_state \<Rightarrow> terminal_reason option \<Rightarrow> session_state \<Rightarrow> session_state \<times> work_status"
  where
  "write_parent now key st reason s =
     (let n = (case map_of (ss_ws_sequence s) key of None \<Rightarrow> 0 | Some n \<Rightarrow> n) + 1;
          status = \<lparr>ws_turn_id = wk_turn_id key, ws_work_item_id = Some (wk_parent_key key),
                    ws_worker_id = None, ws_state = st, ws_event_sequence = n,
                    ws_terminal_reason = reason, ws_origin_epoch = wk_epoch key\<rparr>
      in (evict_overflow key
            (s\<lparr>ss_ws_sequence := AList.update key n (ss_ws_sequence s),
               ss_ws_nonauth_at := (if key \<in> ss_ws_nonauth_keys s \<and> map_of (ss_ws_nonauth_at s) key = None
                                    then AList.update key now (ss_ws_nonauth_at s) else ss_ws_nonauth_at s),
               ss_ws_parents := AList.update key
                 \<lparr>wr_status = status, wr_terminal_at = (if ws_terminal st then Some now else None)\<rparr>
                 (ss_ws_parents s)\<rparr>), status))"

lemma aggregate_reason: "aggregate cs = (st, reason) \<Longrightarrow> reason = None \<or> st = WsFailed"
  by (auto simp: aggregate_def Let_def split: if_splits)

lemma reaggregate_cases:
  assumes "wk_turn_id key \<noteq> []"
  obtains (quiet) "fst (reaggregate_parent now key s) = s" "snd (reaggregate_parent now key s) = Inr None"
      "map_of (ss_ws_children s) key \<in> {None, Some []} \<or>
       (\<exists>d r. map_of (ss_ws_children s) key = Some d \<and> map_of (ss_ws_parents s) key = Some r \<and>
         (ws_state (wr_status r) = fst (aggregate (dvals d)) \<or> ws_terminal (ws_state (wr_status r)) \<or>
          key \<in> ss_ws_nonauth_keys s))"
    | (dropped) "fst (reaggregate_parent now key s) =
         s\<lparr>ss_ws_children := AList.delete key (ss_ws_children s)\<rparr>"
       "snd (reaggregate_parent now key s) = Inr None"
       "map_of (ss_ws_parents s) key = None"
    | (written) d st reason where "map_of (ss_ws_children s) key = Some d" "d \<noteq> []"
       "aggregate (dvals d) = (st, reason)"
       "map_of (ss_ws_parents s) key = None \<longrightarrow> key \<notin> ss_ws_terminal_keys s"
       "\<And>r. map_of (ss_ws_parents s) key = Some r \<Longrightarrow> \<not> ws_terminal (ws_state (wr_status r))"
       "key \<in> ss_ws_nonauth_keys s \<longrightarrow> \<not> ws_terminal st"
       "fst (reaggregate_parent now key s) =
          fst (emit (PWorkStatus (snd (write_parent now key st reason s))) (fst (write_parent now key st reason s)))"
       "snd (reaggregate_parent now key s) =
          Inr (Some (snd (emit (PWorkStatus (snd (write_parent now key st reason s)))
                                (fst (write_parent now key st reason s)))))"
proof (cases "map_of (ss_ws_children s) key \<in> {None, Some []}")
  case True
  then show ?thesis
    by (intro quiet) (auto simp: reaggregate_parent_def)
next
  case False
  then obtain d where d: "map_of (ss_ws_children s) key = Some d" "d \<noteq> []" by auto
  obtain st reason where agg: "aggregate (dvals d) = (st, reason)" by fastforce
  note red = reaggregate_parent_def Let_def d agg
  show ?thesis
  proof (cases "map_of (ss_ws_parents s) key")
    case None
    show ?thesis
    proof (cases "key \<in> ss_ws_terminal_keys s \<or> key \<in> ss_ws_nonauth_keys s \<and> ws_terminal st")
      case True
      with None show ?thesis by (intro dropped) (auto simp: red)
    next
      case False
      show ?thesis
        by (rule written [OF d agg])
          (use None False aggregate_reason [OF agg] assms in
            \<open>auto simp: red write_parent_def validate_work_status_def split: prod.splits\<close>)
    qed
  next
    case (Some r)
    show ?thesis
    proof (cases "ws_state (wr_status r) = st \<or> ws_terminal (ws_state (wr_status r)) \<or>
                  key \<in> ss_ws_nonauth_keys s \<and> ws_terminal st")
      case True
      with Some d agg show ?thesis by (intro quiet) (auto simp: red)
    next
      case False
      show ?thesis
        by (rule written [OF d agg])
          (use Some False aggregate_reason [OF agg] assms in
            \<open>auto simp: red write_parent_def validate_work_status_def split: prod.splits\<close>)
    qed
  qed
qed


definition children_of :: "session_state \<Rightarrow> ws_key \<Rightarrow> (string, work_status) dict" where
  "children_of s key = (case map_of (ss_ws_children s) key of None \<Rightarrow> [] | Some d \<Rightarrow> d)"

definition put_child :: "child_report \<Rightarrow> session_state \<Rightarrow> session_state" where
  "put_child c s =
     s\<lparr>ss_ws_children := AList.update (child_key c)
        (AList.update (cr_work_item_id c) (child_status c) (children_of s (child_key c))) (ss_ws_children s)\<rparr>"

definition legal_report :: "child_report \<Rightarrow> session_state \<Rightarrow> bool" where
  "legal_report c s \<longleftrightarrow>
     legal_work_status_transition
       (map_option ws_state (map_of (children_of s (child_key c)) (cr_work_item_id c))) (cr_state c)"

lemma dset_dset: "AList.update k v (AList.update k w d) = AList.update k v d"
  by (induction d) auto

lemma set_child_cases:
  obtains (rejected) "\<not> legal_report c s" "set_child_work_status now c s = (s, Inr None)"
    | (raised) e where "legal_report c s" "validate_work_status (child_status c) = Inl e"
        "snd (set_child_work_status now c s) = Inl (InvalidStatus e)"
        "fst (set_child_work_status now c s) =
           (if map_of (ss_ws_children s) (child_key c) = None
            then s\<lparr>ss_ws_children := AList.update (child_key c) [] (ss_ws_children s)\<rparr> else s)"
    | (reported) "legal_report c s" "validate_work_status (child_status c) = Inr (child_status c)"
        "set_child_work_status now c s = reaggregate_parent now (child_key c) (put_child c s)"
proof (cases "legal_report c s")
  case False
  then have "set_child_work_status now c s = (s, Inr None)"
    by (auto simp: set_child_work_status_def legal_report_def children_of_def Let_def split: option.splits)
  with False show ?thesis by (rule rejected)
next
  case True
  then have legal: "legal_work_status_transition (map_option ws_state
      (case map_of (ss_ws_children s) (child_key c) of None \<Rightarrow> None | Some d \<Rightarrow> map_of d (cr_work_item_id c)))
      (cr_state c)"
    by (auto simp: legal_report_def children_of_def split: option.splits)
  show ?thesis
  proof (cases "validate_work_status (child_status c)")
    case (Inl e)
    show ?thesis
      by (rule raised [OF True Inl]) (use legal Inl in \<open>auto simp: set_child_work_status_def Let_def\<close>)
  next
    case (Inr w)
    then have "w = child_status c" by (simp add: validate_work_status_Inr)
    with Inr legal True show ?thesis
      by (intro reported)
        (auto simp: set_child_work_status_def put_child_def children_of_def Let_def dset_dset split: option.split)
  qed
qed

lemma child_key_turn: "wk_turn_id (child_key c) = cr_turn_id c"
  by (simp add: child_key_def)

lemma valid_report_turn: "validate_work_status (child_status c) = Inr w \<Longrightarrow> cr_turn_id c \<noteq> []"
  by (auto simp: validate_work_status_def child_status_def split: if_splits)

lemma put_child_frame [simp]:
  "ss_sequence (put_child c s) = ss_sequence s" "ss_events (put_child c s) = ss_events s"
  "ss_speech (put_child c s) = ss_speech s" "ss_speech_history (put_child c s) = ss_speech_history s"
  "ss_results (put_child c s) = ss_results s" "ss_workers (put_child c s) = ss_workers s"
  "ss_ws_sequence (put_child c s) = ss_ws_sequence s" "ss_ws_parents (put_child c s) = ss_ws_parents s"
  "ss_ws_terminal_keys (put_child c s) = ss_ws_terminal_keys s"
  "ss_ws_nonauth_keys (put_child c s) = ss_ws_nonauth_keys s"
  "ss_ws_nonauth_at (put_child c s) = ss_ws_nonauth_at s"
  by (simp_all add: put_child_def)

lemma write_parent_frame [simp]:
  "ss_sequence (fst (write_parent now k st r s)) = ss_sequence s"
  "ss_events (fst (write_parent now k st r s)) = ss_events s"
  "ss_speech (fst (write_parent now k st r s)) = ss_speech s"
  "ss_speech_history (fst (write_parent now k st r s)) = ss_speech_history s"
  "ss_results (fst (write_parent now k st r s)) = ss_results s"
  "ss_workers (fst (write_parent now k st r s)) = ss_workers s"
  "ss_ws_nonauth_keys (fst (write_parent now k st r s)) = ss_ws_nonauth_keys s"
  by (simp_all add: write_parent_def Let_def)

lemma set_child_frame [simp]:
  "ss_speech (fst (set_child_work_status now c s)) = ss_speech s"
  "ss_speech_history (fst (set_child_work_status now c s)) = ss_speech_history s"
  "ss_results (fst (set_child_work_status now c s)) = ss_results s"
  "ss_workers (fst (set_child_work_status now c s)) = ss_workers s"
  "ss_ws_nonauth_keys (fst (set_child_work_status now c s)) = ss_ws_nonauth_keys s"
proof -
  let ?P = "\<lambda>t. ss_speech t = ss_speech s \<and> ss_speech_history t = ss_speech_history s \<and>
      ss_results t = ss_results s \<and> ss_workers t = ss_workers s \<and> ss_ws_nonauth_keys t = ss_ws_nonauth_keys s"
  have "?P (fst (set_child_work_status now c s))"
  proof (cases rule: set_child_cases [of c s now])
    case reported
    then have "wk_turn_id (child_key c) \<noteq> []"
      by (simp add: child_key_turn valid_report_turn)
    then show ?thesis
      unfolding reported(3) by (cases rule: reaggregate_cases [of "child_key c" now "put_child c s"]) simp_all
  qed auto
  then show "ss_speech (fst (set_child_work_status now c s)) = ss_speech s"
    "ss_speech_history (fst (set_child_work_status now c s)) = ss_speech_history s"
    "ss_results (fst (set_child_work_status now c s)) = ss_results s"
    "ss_workers (fst (set_child_work_status now c s)) = ss_workers s"
    "ss_ws_nonauth_keys (fst (set_child_work_status now c s)) = ss_ws_nonauth_keys s"
    by auto
qed

text \<open>The shapes of a result commit: ignored, recorded late without touching the pointers, or committed.\<close>

definition stamp_result :: "epoch option \<Rightarrow> grounded_result \<Rightarrow> grounded_result" where
  "stamp_result origin r = (if origin \<noteq> None \<and> gr_origin_epoch r = None then r\<lparr>gr_origin_epoch := origin\<rparr> else r)"

definition bump_sequence :: "nat option \<Rightarrow> session_state \<Rightarrow> session_state" where
  "bump_sequence q s =
     (case q of None \<Rightarrow> s | Some n \<Rightarrow> if ss_sequence s < n then s\<lparr>ss_sequence := n - 1\<rparr> else s)"

definition note_latest :: "grounded_result \<Rightarrow> (string, worker_state) dict \<Rightarrow> (string, worker_state) dict" where
  "note_latest r ws =
     (case map_of ws (gr_worker_id r) of
        None \<Rightarrow> ws
      | Some w \<Rightarrow> AList.update (gr_worker_id r) (w\<lparr>wk_latest_result_id := Some (gr_result_id r)\<rparr>) ws)"

lemma stamp_result_id [simp]: "gr_result_id (stamp_result oe r) = gr_result_id r"
  "gr_worker_id (stamp_result oe r) = gr_worker_id r"
  by (simp_all add: stamp_result_def)

lemma bump_sequence_frame [simp]:
  "ss_results (bump_sequence q s) = ss_results s" "ss_workers (bump_sequence q s) = ss_workers s"
  "ss_events (bump_sequence q s) = ss_events s" "ss_speech (bump_sequence q s) = ss_speech s"
  "ss_speech_history (bump_sequence q s) = ss_speech_history s"
  by (simp_all add: bump_sequence_def split: option.split)

lemma bump_sequence_ge: "ss_sequence s \<le> ss_sequence (bump_sequence q s)"
  by (auto simp: bump_sequence_def split: option.split)

definition known_result :: "string \<Rightarrow> session_state \<Rightarrow> bool" where
  "known_result rid s \<longleftrightarrow> rid \<in> gr_result_id ` set (ss_results s)"

lemma append_result_cases:
  obtains (ignored) "append_result r q oe s = (s, Inr None)"
    | (late) "\<not> known_result (gr_result_id r) s" "ss_active_epoch s \<noteq> None"
        "gr_origin_epoch (stamp_result oe r) \<noteq> ss_active_epoch s"
        "fst (append_result r q oe s) =
           fst (emit (PResult (stamp_result oe r)) (s\<lparr>ss_results := ss_results s @ [stamp_result oe r]\<rparr>))"
        "\<exists>ev. snd (append_result r q oe s) = Inr (Some ev)"
    | (committed) "\<not> known_result (gr_result_id r) s"
        "ss_active_epoch s = None \<or> gr_origin_epoch (stamp_result oe r) = ss_active_epoch s"
        "fst (append_result r q oe s) =
           fst (emit (PResult (stamp_result oe r))
             ((bump_sequence q s)\<lparr>ss_results := ss_results s @ [stamp_result oe r],
                                  ss_workers := note_latest r (ss_workers s)\<rparr>))"
        "\<exists>ev. snd (append_result r q oe s) = Inr (Some ev)"
proof -
  consider (i) "ss_active_epoch s \<noteq> None \<and> oe = None \<or>
      oe \<noteq> None \<and> gr_origin_epoch r \<noteq> None \<and> oe \<noteq> gr_origin_epoch r \<or> known_result (gr_result_id r) s"
    | (n) "\<not> (ss_active_epoch s \<noteq> None \<and> oe = None)"
        "\<not> (oe \<noteq> None \<and> gr_origin_epoch r \<noteq> None \<and> oe \<noteq> gr_origin_epoch r)"
        "\<not> known_result (gr_result_id r) s" by argo
  then show ?thesis
  proof cases
    case i
    then have "append_result r q oe s = (s, Inr None)"
      by (auto simp: append_result_def known_result_def Let_def image_iff)
    then show ?thesis by (rule ignored)
  next
    case n
    then have new: "\<not> (\<exists>x \<in> set (ss_results s). gr_result_id x = gr_result_id r)"
      unfolding known_result_def by (metis imageI)
    have eff: "(if oe \<noteq> None then oe else gr_origin_epoch (stamp_result oe r)) = gr_origin_epoch (stamp_result oe r)"
      using n(2) by (auto simp: stamp_result_def)
    show ?thesis
    proof (cases "ss_active_epoch s \<noteq> None \<and> gr_origin_epoch (stamp_result oe r) \<noteq> ss_active_epoch s")
      case True
      have "append_result r q oe s = (let (s', e) = emit (PResult (stamp_result oe r))
          (s\<lparr>ss_results := ss_results s @ [stamp_result oe r]\<rparr>) in (s', Inr (Some e)))"
        unfolding append_result_def stamp_result_def [symmetric] Let_def stamp_result_id eff
          if_not_P [OF n(1)] if_not_P [OF n(2)] if_not_P [OF new] if_P [OF True]
        using new by (simp add: result_log_append_def)
      with True show ?thesis by (intro late [OF n(3)]) (auto simp: split_def Let_def)
    next
      case False
      let ?t = "(bump_sequence q s)\<lparr>ss_results := ss_results s @ [stamp_result oe r],
                                  ss_workers := note_latest r (ss_workers s)\<rparr>"
      have commit: "append_result r q oe s =
          (let (s', e) = emit (PResult (stamp_result oe r)) ?t in (s', Inr (Some e)))"
        unfolding append_result_def stamp_result_def [symmetric] Let_def stamp_result_id eff
          if_not_P [OF n(1)] if_not_P [OF n(2)] if_not_P [OF new] if_not_P [OF False]
        using new by (simp add: result_log_append_def bump_sequence_def note_latest_def split: option.split)
      show ?thesis
        by (rule committed [OF n(3)]) (use False commit in \<open>auto simp: split_def Let_def\<close>)
    qed
  qed
qed

text \<open>The shapes of a progress report: refused without a change, or recorded.\<close>

definition record_progress :: "speech_progress \<Rightarrow> session_state \<Rightarrow> session_state" where
  "record_progress p s =
     s\<lparr>ss_speech := AList.update (sp_utterance_id p) p (ss_speech s),
       ss_speech_history := AList.update (sp_utterance_id p)
         (speech_history s (sp_utterance_id p) @ [p]) (ss_speech_history s)\<rparr>"

lemma speech_progress_cases:
  obtains (refused) "fst (speech_progress_op p b s) = s"
      "\<not> b \<and> stale_epoch (sp_origin_epoch p) s \<or>
       (\<exists>q. map_of (ss_speech s) (sp_utterance_id p) = Some q \<and>
          (delivery_terminal (sp_state q) \<or> delivery_rank (sp_state p) < delivery_rank (sp_state q)))"
    | (recorded) "fst (speech_progress_op p b s) = fst (emit (PSpeech p) (record_progress p s))"
      "b \<or> \<not> stale_epoch (sp_origin_epoch p) s"
      "\<And>q. map_of (ss_speech s) (sp_utterance_id p) = Some q \<Longrightarrow>
         \<not> delivery_terminal (sp_state q) \<and> delivery_rank (sp_state q) \<le> delivery_rank (sp_state p)"
proof (cases "\<not> b \<and> stale_epoch (sp_origin_epoch p) s \<or>
       (\<exists>q. map_of (ss_speech s) (sp_utterance_id p) = Some q \<and>
          (delivery_terminal (sp_state q) \<or> delivery_rank (sp_state p) < delivery_rank (sp_state q)))")
  case True
  then have "fst (speech_progress_op p b s) = s" by (auto simp: speech_progress_op_def)
  then show ?thesis using True by (rule refused)
next
  case False
  then have "fst (speech_progress_op p b s) = fst (emit (PSpeech p) (record_progress p s))"
    by (auto simp: speech_progress_op_def record_progress_def speech_history_def split: option.split)
  then show ?thesis using False by (intro recorded) force+
qed

lemma record_progress_frame [simp]:
  "ss_sequence (record_progress p s) = ss_sequence s" "ss_events (record_progress p s) = ss_events s"
  "ss_results (record_progress p s) = ss_results s" "ss_workers (record_progress p s) = ss_workers s"
  "ss_ws_children (record_progress p s) = ss_ws_children s"
  "ss_ws_parents (record_progress p s) = ss_ws_parents s"
  "ss_ws_sequence (record_progress p s) = ss_ws_sequence s"
  "ss_ws_terminal_keys (record_progress p s) = ss_ws_terminal_keys s"
  "ss_ws_nonauth_keys (record_progress p s) = ss_ws_nonauth_keys s"
  "ss_ws_nonauth_at (record_progress p s) = ss_ws_nonauth_at s"
  by (simp_all add: record_progress_def)

section \<open>The event log\<close>

definition events_inv :: "session_state \<Rightarrow> bool" where
  "events_inv s \<longleftrightarrow>
     sorted_wrt (\<lambda>a b. ev_sequence a < ev_sequence b) (ss_events s) \<and>
     (\<forall>e \<in> set (ss_events s). ev_sequence e \<le> ss_sequence s) \<and>
     length (ss_events s) \<le> MAX_EVENTS"

lemma events_inv_emit:
  assumes "events_inv s"
  shows "events_inv (fst (emit p s))"
proof -
  have "sorted_wrt (\<lambda>a b. ev_sequence a < ev_sequence b) (ss_events (fst (emit p s)))"
    using assms unfolding events_inv_def emit_events by (intro sorted_deque_append) auto
  moreover have "\<forall>e \<in> set (ss_events (fst (emit p s))). ev_sequence e \<le> ss_sequence s + 1"
    using assms set_deque_append [of MAX_EVENTS] unfolding events_inv_def emit_events by fastforce
  moreover have "length (ss_events (fst (emit p s))) \<le> MAX_EVENTS"
    by (simp add: length_deque_append MAX_EVENTS_def del: One_nat_def)
  ultimately show ?thesis by (simp add: events_inv_def)
qed

lemma events_inv_cong:
  "events_inv s \<Longrightarrow> ss_events t = ss_events s \<Longrightarrow> ss_sequence s \<le> ss_sequence t \<Longrightarrow> events_inv t"
  by (auto simp: events_inv_def)

text \<open>An operation either leaves the log alone or emits once after raising no event.\<close>

lemma emits_if:
  assumes "\<not> P \<Longrightarrow> s' = s" and "P \<Longrightarrow> s' = fst (emit p t)" and "ss_events t = ss_events s"
    and "ss_sequence s \<le> ss_sequence t"
  shows "(ss_events s' = ss_events s \<and> ss_sequence s \<le> ss_sequence s') \<or>
    (\<exists>p t. s' = fst (emit p t) \<and> ss_events t = ss_events s \<and> ss_sequence s \<le> ss_sequence t)"
  using assms by (cases P) auto

lemma ss_step_emits:
  "(ss_events (ss_step e s) = ss_events s \<and> ss_sequence s \<le> ss_sequence (ss_step e s)) \<or>
   (\<exists>p t. ss_step e s = fst (emit p t) \<and> ss_events t = ss_events s \<and> ss_sequence s \<le> ss_sequence t)"
proof (cases e)
  case (AppendResult r q oe)
  show ?thesis
  proof (cases rule: append_result_cases [of r q oe s])
    case late
    show ?thesis unfolding AppendResult ss_step.simps late(4) by (intro disjI2 exI conjI, rule refl) auto
  next
    case committed
    show ?thesis
      unfolding AppendResult ss_step.simps committed(3)
      by (intro disjI2 exI conjI, rule refl) (auto simp: bump_sequence_ge)
  qed (simp add: AppendResult)
next
  case (SpeechProgressOp p b)
  show ?thesis
  proof (cases rule: speech_progress_cases [of p b s])
    case recorded
    show ?thesis
      unfolding SpeechProgressOp ss_step.simps recorded(1) by (intro disjI2 exI conjI, rule refl) auto
  qed (simp add: SpeechProgressOp)
next
  case (SetChild now c)
  show ?thesis
  proof (cases rule: set_child_cases [of c s now])
    case reported
    then have "wk_turn_id (child_key c) \<noteq> []"
      by (simp add: child_key_turn valid_report_turn)
    then show ?thesis
      using reported(3) SetChild
    proof (cases rule: reaggregate_cases [of "child_key c" now "put_child c s"])
      case (written d st reason)
      let ?w = "write_parent now (child_key c) st reason (put_child c s)"
      have "ss_step e s = fst (emit (PWorkStatus (snd ?w)) (fst ?w))"
        using SetChild reported(3) written(7) by simp
      moreover have "ss_events (fst ?w) = ss_events s" "ss_sequence s \<le> ss_sequence (fst ?w)"
        by simp_all
      ultimately show ?thesis by blast
    qed auto
  qed (use SetChild in auto)
next
  case (SetWorker w)
  show ?thesis
    unfolding SetWorker by (rule emits_if [where P = "\<not> stale_epoch (wk_origin_epoch w) s" and p = "PWorker w"
          and t = "s\<lparr>ss_workers := AList.update (wk_worker_id w) w (ss_workers s)\<rparr>"])
      (auto simp: set_worker_def split_def Let_def)
next
  case (SetRouting r)
  show ?thesis
    unfolding SetRouting by (rule emits_if [where P = "\<not> stale_epoch (rs_origin_epoch r) s" and p = "PRouting r"
          and t = "s\<lparr>ss_routing := Some r\<rparr>"])
      (auto simp: set_routing_def split_def Let_def)
next
  case (AppendTranscript t)
  show ?thesis
    unfolding AppendTranscript
    by (rule emits_if [where P = "fst (append_transcript t s) \<noteq> s" and p = "PTranscript t"
          and t = "s\<lparr>ss_transcript := ss_transcript s @ [t]\<rparr>"])
      (auto simp: append_transcript_def split_def Let_def split: if_splits)
qed auto



lemma ss_step_events_inv: "events_inv s \<Longrightarrow> events_inv (ss_step e s)"
  using ss_step_emits [of e s] by (metis events_inv_cong events_inv_emit)

lemma ss_step_sequence: "ss_sequence s \<le> ss_sequence (ss_step e s)"
  using ss_step_emits [of e s] by (metis emit_sequence le_add1 le_trans)

interpretation event_log: mono_machine ss_step events_inv "\<lambda>s t. ss_sequence s \<le> ss_sequence t"
  by unfold_locales (auto simp: ss_step_events_inv ss_step_sequence)

section \<open>Speech delivery\<close>

definition rank_le :: "speech_progress \<Rightarrow> speech_progress \<Rightarrow> bool" where
  "rank_le a b \<longleftrightarrow> delivery_rank (sp_state a) \<le> delivery_rank (sp_state b) \<and> \<not> delivery_terminal (sp_state a)"

definition speech_inv :: "session_state \<Rightarrow> bool" where
  "speech_inv s \<longleftrightarrow>
     wf_dict (ss_speech s) \<and>
     (\<forall>u. map_option last (map_of (ss_speech_history s) u) = map_of (ss_speech s) u) \<and>
     (\<forall>u h. map_of (ss_speech_history s) u = Some h \<longrightarrow>
        h \<noteq> [] \<and> sorted_wrt rank_le h \<and> (\<forall>p \<in> set h. sp_utterance_id p = u))"

lemma speech_inv_history:
  assumes "speech_inv s" and "map_of (ss_speech s) u = Some p"
  shows "\<exists>h. speech_history s u = h @ [p] \<and> sorted_wrt rank_le (h @ [p])"
proof -
  from assms obtain h where h: "map_of (ss_speech_history s) u = Some h" "last h = p"
    unfolding speech_inv_def by (metis map_option_eq_Some)
  with assms(1) have "h \<noteq> []" "sorted_wrt rank_le h" by (auto simp: speech_inv_def)
  with h show ?thesis by (metis append_butlast_last_id option.simps(5) speech_history_def)
qed

lemma speech_history_None: "speech_inv s \<Longrightarrow> map_of (ss_speech s) u = None \<Longrightarrow> speech_history s u = []"
  unfolding speech_inv_def speech_history_def by (metis map_option_is_None option.simps(4))

lemma rank_le_trans:
  "rank_le a b \<Longrightarrow> rank_le b c \<Longrightarrow> rank_le a c"
  by (auto simp: rank_le_def)

lemma sorted_rank_snoc:
  "sorted_wrt rank_le (h @ [q]) \<Longrightarrow> rank_le q p \<Longrightarrow> sorted_wrt rank_le (h @ [q, p])"
  by (auto simp: sorted_wrt_append intro: rank_le_trans)

lemma speech_inv_record:
  assumes inv: "speech_inv s"
    and ok: "\<And>q. map_of (ss_speech s) (sp_utterance_id p) = Some q \<Longrightarrow>
         \<not> delivery_terminal (sp_state q) \<and> delivery_rank (sp_state q) \<le> delivery_rank (sp_state p)"
  shows "speech_inv (record_progress p s)"
proof -
  let ?u = "sp_utterance_id p"
  have ids: "\<forall>x \<in> set (speech_history s ?u). sp_utterance_id x = ?u"
    using inv unfolding speech_inv_def speech_history_def
    by (metis empty_iff empty_set option.case_eq_if option.collapse)
  have "sorted_wrt rank_le (speech_history s ?u @ [p])"
  proof (cases "map_of (ss_speech s) ?u")
    case None
    then show ?thesis by (simp add: speech_history_None [OF inv])
  next
    case (Some q)
    then obtain h where "speech_history s ?u = h @ [q]" "sorted_wrt rank_le (h @ [q])"
      using speech_inv_history [OF inv] by blast
    with ok [OF Some] show ?thesis by (simp add: sorted_rank_snoc rank_le_def del: sorted_wrt_append)
  qed
  with inv ids show ?thesis
    by (auto simp: speech_inv_def record_progress_def)
qed

lemma speech_inv_cong:
  "ss_speech t = ss_speech s \<Longrightarrow> ss_speech_history t = ss_speech_history s \<Longrightarrow> speech_inv t = speech_inv s"
  by (simp add: speech_inv_def)

lemma ss_step_speech:
  "(ss_speech (ss_step e s) = ss_speech s \<and> ss_speech_history (ss_step e s) = ss_speech_history s) \<or>
   (\<exists>p b. e = SpeechProgressOp p b \<and> (b \<or> \<not> stale_epoch (sp_origin_epoch p) s) \<and>
     ss_step e s = fst (emit (PSpeech p) (record_progress p s)) \<and>
     (\<forall>q. map_of (ss_speech s) (sp_utterance_id p) = Some q \<longrightarrow>
        \<not> delivery_terminal (sp_state q) \<and> delivery_rank (sp_state q) \<le> delivery_rank (sp_state p)))"
proof (cases e)
  case (AppendResult r q oe)
  then show ?thesis by (cases rule: append_result_cases [of r q oe s]) simp_all
next
  case (SpeechProgressOp p b)
  then show ?thesis by (cases rule: speech_progress_cases [of p b s]) auto
qed (auto simp: set_worker_def set_routing_def append_transcript_def split_def Let_def)

lemma ss_step_speech_inv: "speech_inv s \<Longrightarrow> speech_inv (ss_step e s)"
  using ss_step_speech [of e s] speech_inv_record
  by (smt (verit) emit_frame(4) emit_frame(8) speech_inv_cong)

text \<open>Between two states: what was recorded for an utterance is a prefix of what is recorded later.\<close>

definition history_leq :: "session_state \<Rightarrow> session_state \<Rightarrow> bool" where
  "history_leq s t \<longleftrightarrow> (\<forall>u. prefix (speech_history s u) (speech_history t u))"

lemma ss_step_history: "history_leq s (ss_step e s)"
  using ss_step_speech [of e s]
  by (auto simp: history_leq_def speech_history_def record_progress_def)

interpretation delivery: mono_machine ss_step speech_inv history_leq
  by unfold_locales
    (auto simp: ss_step_speech_inv ss_step_history [unfolded history_leq_def] history_leq_def
      intro: prefix_order.trans)

lemma sorted_rank_terminal_last:
  "sorted_wrt rank_le (h @ [p]) \<Longrightarrow> prefix (h @ [p]) g \<Longrightarrow> sorted_wrt rank_le g \<Longrightarrow>
     delivery_terminal (sp_state p) \<Longrightarrow> g = h @ [p]"
  by (auto simp: prefix_def sorted_wrt_append rank_le_def neq_Nil_conv)

lemma init_invs: "events_inv (init_session i k)" "speech_inv (init_session i k)"
  by (simp_all add: events_inv_def speech_inv_def init_session_def)

section \<open>Results\<close>

definition results_inv :: "session_state \<Rightarrow> bool" where
  "results_inv s \<longleftrightarrow> distinct (map gr_result_id (ss_results s))"

lemma ss_step_results:
  "ss_results (ss_step e s) = ss_results s \<or>
   (\<exists>r q oe. e = AppendResult r q oe \<and> \<not> known_result (gr_result_id r) s \<and>
      ss_results (ss_step e s) = ss_results s @ [stamp_result oe r])"
proof (cases e)
  case (AppendResult r q oe)
  then show ?thesis by (cases rule: append_result_cases [of r q oe s]) simp_all
next
  case (SpeechProgressOp p b)
  then show ?thesis by (cases rule: speech_progress_cases [of p b s]) simp_all
qed (auto simp: set_worker_def set_routing_def append_transcript_def split_def Let_def)

lemma ss_step_results_inv: "results_inv s \<Longrightarrow> results_inv (ss_step e s)"
  using ss_step_results [of e s] by (auto simp: results_inv_def known_result_def)

lemma ss_step_results_prefix: "prefix (ss_results s) (ss_results (ss_step e s))"
  using ss_step_results [of e s] by auto

interpretation result_log: mono_machine ss_step results_inv "\<lambda>s t. prefix (ss_results s) (ss_results t)"
  by unfold_locales (auto simp: ss_step_results_inv ss_step_results_prefix intro: prefix_order.trans)

section \<open>Properties\<close>

text \<open>
  Whatever operations a session runs, its event log is strictly ordered by sequence number,
  no event is numbered past the session's sequence, the log holds at most 2000 events, and the
  sequence a client resumes from never goes back.
\<close>

theorem event_log_ordered:
  "let s = fold ss_step ops (init_session sid token); t = fold ss_step later s in
     sorted_wrt (<) (map ev_sequence (ss_events t)) \<and>
     list_all (\<lambda>e. ev_sequence e \<le> ss_sequence t) (ss_events t) \<and>
     length (ss_events t) \<le> 2000 \<and> ss_sequence s \<le> ss_sequence t"
proof -
  let ?s = "fold ss_step ops (init_session sid token)"
  have "events_inv ?s" by (intro event_log.run_inv init_invs)
  then have "events_inv (fold ss_step later ?s)" "ss_sequence ?s \<le> ss_sequence (fold ss_step later ?s)"
    by (rule event_log.run_inv, rule event_log.run_leq)
  then show ?thesis by (simp add: Let_def events_inv_def sorted_wrt_map list_all_iff MAX_EVENTS_def)
qed

text \<open>
  C3. The delivery state of an utterance never goes back and is final once terminal: after any
  further operations the utterance is still recorded, with a state of the same or a higher rank,
  and a completed, unknown, interrupted or reconnect-interrupted utterance keeps its exact record.
\<close>

theorem delivery_never_regresses:
  assumes "map_of (ss_speech (fold ss_step ops (init_session sid token))) u = Some p"
  shows "\<exists>q. map_of (ss_speech (fold ss_step (ops @ later) (init_session sid token))) u = Some q \<and>
     delivery_rank (sp_state p) \<le> delivery_rank (sp_state q) \<and>
     (delivery_terminal (sp_state p) \<longrightarrow> q = p)"
proof -
  let ?s = "fold ss_step ops (init_session sid token)" and ?t = "fold ss_step (ops @ later) (init_session sid token)"
  have s: "speech_inv ?s" by (intro delivery.run_inv init_invs)
  have t: "speech_inv ?t" by (intro delivery.run_inv init_invs)
  have "history_leq ?s ?t" using delivery.run_leq [OF s, of later] by simp
  then have pre: "prefix (speech_history ?s u) (speech_history ?t u)" by (simp add: history_leq_def)
  obtain h where h: "speech_history ?s u = h @ [p]" "sorted_wrt rank_le (h @ [p])"
    using speech_inv_history [OF s assms] by blast
  with pre have "speech_history ?t u \<noteq> []" by auto
  then obtain q where q: "map_of (ss_speech ?t) u = Some q"
    using speech_history_None [OF t] by fastforce
  then obtain g where g: "speech_history ?t u = g @ [q]" "sorted_wrt rank_le (g @ [q])"
    using speech_inv_history [OF t] by blast
  have "p \<in> set (g @ [q])" using set_mono_prefix [OF pre] h(1) g(1) by simp
  then have "p = q \<or> rank_le p q" using g(2) by (auto simp: sorted_wrt_append)
  moreover have "delivery_terminal (sp_state p) \<Longrightarrow> q = p"
    using sorted_rank_terminal_last [OF h(2) _ g(2)] pre h(1) g(1) by auto
  ultimately show ?thesis using q by (auto simp: rank_le_def)
qed

definition demo_progress :: "delivery_state \<Rightarrow> speech_progress" where
  "demo_progress d = \<lparr>sp_result_id = ''r'', sp_work_item_id = ''w'', sp_run_id = ''run'',
     sp_utterance_id = ''u'', sp_state = d, sp_origin_epoch = None\<rparr>"

lemma delivery_never_regresses_witness:
  "\<exists>q. map_of (ss_speech (fold ss_step ([SpeechProgressOp (demo_progress QUEUED) False,
           SpeechProgressOp (demo_progress INTERRUPTED) False] @
         [SpeechProgressOp (demo_progress DELIVERY_COMPLETED) False]) (init_session ''s'' ''t''))) ''u'' = Some q \<and>
     q = demo_progress INTERRUPTED"
proof -
  have "map_of (ss_speech (fold ss_step [SpeechProgressOp (demo_progress QUEUED) False,
         SpeechProgressOp (demo_progress INTERRUPTED) False] (init_session ''s'' ''t''))) ''u''
       = Some (demo_progress INTERRUPTED)"
    by (simp add: init_session_def demo_progress_def speech_progress_op_def emit_def stale_epoch_def
        delivery_terminal_def Let_def)
  from delivery_never_regresses [OF this, of "[SpeechProgressOp (demo_progress DELIVERY_COMPLETED) False]"]
  show ?thesis by (auto simp: demo_progress_def delivery_terminal_def)
qed

text \<open>An operation issued on behalf of another epoch than the active one.\<close>

fun stale_op :: "epoch \<Rightarrow> ss_op \<Rightarrow> bool" where
  "stale_op a (SetWorker w) \<longleftrightarrow> wk_origin_epoch w \<noteq> Some a"
| "stale_op a (SetRouting r) \<longleftrightarrow> rs_origin_epoch r \<noteq> Some a"
| "stale_op a (AppendTranscript t) \<longleftrightarrow> te_origin_epoch t \<noteq> Some a"
| "stale_op a (AppendResult r q oe) \<longleftrightarrow> oe \<noteq> Some a"
| "stale_op a (SpeechProgressOp p b) \<longleftrightarrow> \<not> b \<and> sp_origin_epoch p \<noteq> Some a"
| "stale_op a _ \<longleftrightarrow> False"

definition same_view :: "session_state \<Rightarrow> session_state \<Rightarrow> bool" where
  "same_view s t \<longleftrightarrow>
     ss_workers t = ss_workers s \<and> ss_routing t = ss_routing s \<and> ss_transcript t = ss_transcript s \<and>
     ss_speech t = ss_speech s \<and> ss_speech_history t = ss_speech_history s \<and>
     ss_active_epoch t = ss_active_epoch s \<and> ss_ws_parents t = ss_ws_parents s"

lemma stale_result_late:
  assumes "ss_active_epoch s = Some a" and "oe \<noteq> Some a"
  shows "same_view s (fst (append_result r q oe s))"
proof (cases rule: append_result_cases [of r q oe s])
  case late
  then show ?thesis by (simp add: same_view_def)
next
  case committed
  then show ?thesis using assms
    by (auto simp: append_result_def stamp_result_def same_view_def Let_def split_def
        result_log_append_def split: if_splits)
qed (simp add: same_view_def)

lemma stale_op_step:
  "ss_active_epoch s = Some a \<Longrightarrow> stale_op a e \<Longrightarrow> same_view s (ss_step e s)"
  by (cases e)
    (auto simp: set_worker_def set_routing_def append_transcript_def speech_progress_op_def
      stale_epoch_def stale_result_late, auto simp: same_view_def)



text \<open>
  Results are committed exactly once. After any operations the result ids of the log are
  distinct; appending never raises; a known id, and a write without an epoch while one is active,
  change nothing; and a new result that is accepted ends up as the last entry of the log, stamped
  with its origin epoch.
\<close>

theorem results_commit_once:
  "let s = fold ss_step ops (init_session sid token); (t, out) = append_result r q oe s in
     distinct (map gr_result_id (ss_results s)) \<and>
     (\<exists>ev. out = Inr ev \<and>
       (known_result (gr_result_id r) s \<longrightarrow> t = s \<and> ev = None) \<and>
       (ev = None \<longrightarrow> t = s) \<and>
       (ev \<noteq> None \<longrightarrow> ss_results t = ss_results s @ [stamp_result oe r]))"
proof -
  let ?s = "fold ss_step ops (init_session sid token)"
  have "results_inv ?s" by (intro result_log.run_inv) (simp add: results_inv_def init_session_def)
  then show ?thesis
    by (cases rule: append_result_cases [of r q oe ?s])
      (auto simp: results_inv_def Let_def split_def)
qed

lemma results_commit_once_witness:
  "let s = fold ss_step [SetActiveEpoch (Some 1)] (init_session ''s'' ''t'');
       (t, out) = append_result \<lparr>gr_result_id = ''r'', gr_worker_id = ''w'', gr_turn_id = ''t'',
          gr_timestamp = ''now'', gr_text = ''x'', gr_citations = [], gr_spoken_text = ''x'',
          gr_origin_epoch = None\<rparr> None None s
   in distinct (map gr_result_id (ss_results s)) \<and> t = s"
  using results_commit_once [of "[SetActiveEpoch (Some 1)]" "''s''" "''t''"
      "\<lparr>gr_result_id = ''r'', gr_worker_id = ''w'', gr_turn_id = ''t'', gr_timestamp = ''now'',
        gr_text = ''x'', gr_citations = [], gr_spoken_text = ''x'', gr_origin_epoch = None\<rparr>" None None]
  by (auto simp: append_result_def init_session_def Let_def)

end
