(* ===== verification/Speech_Scheduler.thy ===== *)
theory Speech_Scheduler
  imports Session_Properties Lifecycle_Properties
begin

text \<open>
  The speech scheduler of \<open>server/speech_scheduler.py\<close>: per-work-item queues, the one active lease,
  paused items, provider contexts and the deferred queue advance. It embeds the session state (all
  progress goes through \<open>emit_progress\<close>) and the lifecycle coordinator.

  \<open>start_next\<close> awaits the submission of the item to synthesis, so it is three steps here: \<open>start_next\<close>
  up to that await, and \<open>submission_done\<close> and \<open>submission_failed\<close> after it; a call in flight is an
  entry of \<open>sc_submissions\<close>. The calls of the \<open>stop\<close> and \<open>on_ack_terminal\<close> callbacks (both given)
  are recorded in \<open>sc_stops\<close> and \<open>sc_acks\<close>. Identifiers minted by \<open>uuid4\<close> are arguments. The scan
  for an admissible item is a \<open>while True\<close> loop: it is defined with \<open>partial_function\<close>, and shown to
  return.
\<close>

section \<open>Data\<close>

datatype speech_role = ROLE_RESULT | ROLE_TIMEOUT_NOTICE | ROLE_ACK

record speech_item =
  si_result_id :: "string option"
  si_work_item_id :: string
  si_run_id :: string
  si_text :: string
  si_utterance_id :: string
  si_origin_epoch :: "epoch option"
  si_role :: speech_role
  si_ack_id :: "string option"
  si_turn_id :: "string option"

datatype item_error = AckWithoutId | AckWithResult | ResultIdMissing | AckIdMismatch

definition post_init :: "speech_item \<Rightarrow> item_error + speech_item" where
  "post_init item =
     (if si_role item = ROLE_ACK then
        if si_ack_id item = None then Inl AckWithoutId
        else if si_result_id item \<noteq> None then Inl AckWithResult else Inr item
      else if si_result_id item = None then Inl ResultIdMissing else Inr item)"

record utterance_lease =
  ul_item :: speech_item
  ul_token :: string

datatype submission = Speaking speech_item string | Failing speech_item string

record scheduler =
  sc_state :: session_state
  sc_lifecycle :: lifecycle
  sc_queues :: "(string, speech_item list) dict"
  sc_active :: "utterance_lease option"
  sc_paused :: "(string, speech_item) dict"
  sc_provider_contexts :: "(string, string) dict"
  sc_advance :: "string list"
  sc_discarded :: bool
  sc_submissions :: "submission list"
  sc_acks :: "(generation_identity \<times> pre_admission_terminal_reason) list"
  sc_stops :: "speech_item list"

definition init_scheduler :: "session_state \<Rightarrow> lifecycle \<Rightarrow> scheduler" where
  "init_scheduler ss lc =
     \<lparr>sc_state = ss, sc_lifecycle = lc, sc_queues = [], sc_active = None, sc_paused = [],
      sc_provider_contexts = [], sc_advance = [], sc_discarded = False, sc_submissions = [],
      sc_acks = [], sc_stops = []\<rparr>"

definition ack_identity :: "speech_item \<Rightarrow> generation_identity" where
  "ack_identity item =
     \<lparr>gi_utterance_id = si_utterance_id item, gi_work_item_id = si_work_item_id item,
      gi_origin_epoch = si_origin_epoch item, gi_role = Ack_Role, gi_turn_id = si_turn_id item,
      gi_ack_id = si_ack_id item\<rparr>"

definition candidate_identity :: "speech_item \<Rightarrow> generation_identity" where
  "candidate_identity item =
     (ack_identity item)\<lparr>gi_role := (if si_role item = ROLE_ACK then Ack_Role else Result_Role)\<rparr>"

definition ack_terminal :: "generation_identity \<Rightarrow> pre_admission_terminal_reason \<Rightarrow> scheduler \<Rightarrow> scheduler" where
  "ack_terminal i reason s = s\<lparr>sc_acks := sc_acks s @ [(i, reason)]\<rparr>"

definition notify_ack_swept :: "pre_admission_terminal_reason \<Rightarrow> speech_item \<Rightarrow> scheduler \<Rightarrow> scheduler" where
  "notify_ack_swept reason item s =
     (if si_role item \<noteq> ROLE_ACK then s else ack_terminal (ack_identity item) reason s)"

definition signal_stop :: "speech_item \<Rightarrow> scheduler \<Rightarrow> scheduler" where
  "signal_stop item s = s\<lparr>sc_stops := sc_stops s @ [item]\<rparr>"

definition progress :: "speech_item \<Rightarrow> delivery_state \<Rightarrow> epoch option \<Rightarrow> speech_progress" where
  "progress item d origin =
     \<lparr>sp_result_id = (case si_result_id item of None \<Rightarrow> [] | Some r \<Rightarrow> r),
      sp_work_item_id = si_work_item_id item, sp_run_id = si_run_id item,
      sp_utterance_id = si_utterance_id item, sp_state = d, sp_origin_epoch = origin\<rparr>"

text \<open>\<open>_emit_progress\<close> with the \<open>origin_epoch\<close> and \<open>allow_stale_reconnect\<close> extras of \<open>interrupt\<close>.\<close>

definition emit_progress_with ::
    "epoch option \<Rightarrow> bool \<Rightarrow> delivery_state \<Rightarrow> speech_item \<Rightarrow> scheduler \<Rightarrow> scheduler" where
  "emit_progress_with override allow d item s =
     (if si_role item = ROLE_ACK then s
      else s\<lparr>sc_state := fst (speech_progress_op
               (progress item d (case override of None \<Rightarrow> si_origin_epoch item | Some e \<Rightarrow> Some e))
               allow (sc_state s))\<rparr>)"

definition emit_progress :: "delivery_state \<Rightarrow> speech_item \<Rightarrow> scheduler \<Rightarrow> scheduler" where
  "emit_progress d item s = emit_progress_with None False d item s"

section \<open>Queues\<close>

definition queue_of :: "scheduler \<Rightarrow> string \<Rightarrow> speech_item list" where
  "queue_of s k = (case map_of (sc_queues s) k of None \<Rightarrow> [] | Some q \<Rightarrow> q)"

definition pending_work_item_ids :: "string option \<Rightarrow> scheduler \<Rightarrow> string set" where
  "pending_work_item_ids exclude s =
     set (map fst (filter (\<lambda>(k, q). q \<noteq> [] \<and> Some k \<noteq> exclude) (sc_queues s)))"

definition paused :: "string option \<Rightarrow> scheduler \<Rightarrow> speech_item option" where
  "paused work_item_id s =
     (case work_item_id of
        Some k \<Rightarrow> map_of (sc_paused s) k
      | None \<Rightarrow> if sc_paused s = [] then None else Some (snd (last (sc_paused s))))"

definition enqueue ::
    "speech_item \<Rightarrow> scheduler \<Rightarrow> scheduler \<times> (item_error + speech_item)" where
  "enqueue item s =
     (let ack_id = (if si_role item = ROLE_ACK \<and> si_ack_id item = None then Some (si_work_item_id item)
                    else si_ack_id item) in
      if si_role item = ROLE_ACK \<and> ack_id \<noteq> Some (si_work_item_id item) then (s, Inl AckIdMismatch)
      else
        case post_init (item\<lparr>si_ack_id := ack_id\<rparr>) of
          Inl e \<Rightarrow> (s, Inl e)
        | Inr item \<Rightarrow>
            let s = s\<lparr>sc_queues := AList.update (si_work_item_id item)
                       (queue_of s (si_work_item_id item) @ [item]) (sc_queues s)\<rparr>;
                s = emit_progress DISPLAYED item s;
                s = emit_progress QUEUED item s
            in (s, Inr item))"

definition set_queue :: "string \<Rightarrow> speech_item list \<Rightarrow> scheduler \<Rightarrow> scheduler" where
  "set_queue k items s =
     s\<lparr>sc_queues := (if items \<noteq> [] then AList.update k items (sc_queues s) else AList.delete k (sc_queues s))\<rparr>"

definition discard_queued ::
    "string \<Rightarrow> (speech_item \<Rightarrow> bool) \<Rightarrow> scheduler \<Rightarrow> scheduler \<times> speech_item list" where
  "discard_queued k matches s =
     (let queue = queue_of s k; discarded = filter matches queue in
      if discarded = [] then (s, [])
      else (set_queue k (filter (\<lambda>i. \<not> matches i) queue) s, discarded))"

definition discard_queued_ack :: "string \<Rightarrow> scheduler \<Rightarrow> scheduler \<times> speech_item option" where
  "discard_queued_ack ack_id s =
     (case discard_queued ack_id (\<lambda>i. si_role i = ROLE_ACK \<and> si_ack_id i = Some ack_id) s of
        (s, []) \<Rightarrow> (s, None)
      | (s, i # _) \<Rightarrow> (s, Some i))"

definition discard_queued_notice :: "string \<Rightarrow> scheduler \<Rightarrow> scheduler \<times> speech_item list" where
  "discard_queued_notice k s =
     (case discard_queued k (\<lambda>i. si_role i = ROLE_TIMEOUT_NOTICE) s of
        (s, discarded) \<Rightarrow> (fold (emit_progress INTERRUPTED) discarded s, discarded))"

definition discard_from_queue :: "speech_item \<Rightarrow> scheduler \<Rightarrow> scheduler" where
  "discard_from_queue item s =
     (case queue_of s (si_work_item_id item) of
        [] \<Rightarrow> s
      | i # q \<Rightarrow> if i = item then set_queue (si_work_item_id item) q s else s)"

section \<open>Leases\<close>

definition active_item :: "string \<Rightarrow> scheduler \<Rightarrow> speech_item option" where
  "active_item utterance_id s =
     (case sc_active s of
        None \<Rightarrow> None
      | Some l \<Rightarrow> if si_utterance_id (ul_item l) \<noteq> utterance_id then None else Some (ul_item l))"

definition provider_item :: "string \<Rightarrow> scheduler \<Rightarrow> speech_item option" where
  "provider_item c s =
     (case sc_active s of
        None \<Rightarrow> None
      | Some l \<Rightarrow> if map_of (sc_provider_contexts s) c \<noteq> Some (ul_token l) then None else Some (ul_item l))"

definition release :: "string \<Rightarrow> scheduler \<Rightarrow> scheduler" where
  "release utterance_id s =
     (case sc_active s of
        None \<Rightarrow> s
      | Some l \<Rightarrow>
          if si_utterance_id (ul_item l) = utterance_id
          then s\<lparr>sc_provider_contexts := filter (\<lambda>(c, t). t \<noteq> ul_token l) (sc_provider_contexts s),
                 sc_active := None\<rparr>
          else s)"

section \<open>Admission\<close>

datatype scan = ScanNothing | ScanBusy | ScanAdmit speech_item speech_generation

text \<open>What a pre-admission terminal disposition does to the candidate.\<close>

definition reject_candidate :: "pre_admission_terminal_reason \<Rightarrow> speech_item \<Rightarrow> scheduler \<Rightarrow> scheduler" where
  "reject_candidate reason item s =
     (let s = discard_from_queue item s in
      if si_role item = ROLE_ACK then ack_terminal (candidate_identity item) reason s
      else emit_progress DELIVERY_UNKNOWN item s)"

partial_function (option) scan_key ::
    "bool option \<Rightarrow> string \<Rightarrow> string \<Rightarrow> scheduler \<Rightarrow> (scheduler \<times> scan) option" where
  "scan_key acceptance token k s =
     (case queue_of s k of
        [] \<Rightarrow> Some (s, ScanNothing)
      | candidate # rest \<Rightarrow>
          (case snd (pre_admission_disposition acceptance token (candidate_identity candidate) (sc_lifecycle s)) of
             PreAdmissionTerminal reason \<Rightarrow> scan_key acceptance token k (reject_candidate reason candidate s)
           | PreAdmissionBusy \<Rightarrow> Some (s, ScanBusy)
           | PreAdmissionAdmit g \<Rightarrow>
               Some (s\<lparr>sc_lifecycle := fst (pre_admission_disposition acceptance token
                          (candidate_identity candidate) (sc_lifecycle s))\<rparr>, ScanAdmit candidate g)))"

fun scan_keys ::
    "bool option \<Rightarrow> string \<Rightarrow> string list \<Rightarrow> scheduler \<Rightarrow> (scheduler \<times> scan) option" where
  "scan_keys acceptance token [] s = Some (s, ScanNothing)"
| "scan_keys acceptance token (k # ks) s =
     (case scan_key acceptance token k s of
        None \<Rightarrow> None
      | Some (s, ScanNothing) \<Rightarrow> scan_keys acceptance token ks s
      | Some r \<Rightarrow> Some r)"

definition take_lease :: "speech_item \<Rightarrow> speech_generation \<Rightarrow> scheduler \<Rightarrow> scheduler" where
  "take_lease item g s =
     (let s = set_queue (si_work_item_id item) (tl (queue_of s (si_work_item_id item))) s;
          s = s\<lparr>sc_active := Some \<lparr>ul_item = item, ul_token = gn_token g\<rparr>\<rparr>;
          s = emit_progress STARTED item s
      in s\<lparr>sc_lifecycle := mark_handed_to_tts (gn_token g) (sc_lifecycle s),
           sc_submissions := sc_submissions s @ [Speaking item (gn_token g)]\<rparr>)"

definition start_next ::
    "bool option \<Rightarrow> string \<Rightarrow> string option \<Rightarrow> scheduler \<Rightarrow> (scheduler \<times> speech_item option) option" where
  "start_next acceptance token work_item_id s =
     (if sc_active s \<noteq> None \<or> occupied (sc_lifecycle s) then Some (s, None)
      else
        case scan_keys acceptance token
               (case work_item_id of Some k \<Rightarrow> [k] | None \<Rightarrow> dkeys (sc_queues s)) s of
          None \<Rightarrow> None
        | Some (s, ScanAdmit item g) \<Rightarrow> Some (take_lease item g s, Some item)
        | Some (s, _) \<Rightarrow> Some (s, None))"

text \<open>The deferred advance of another queue after a failed submission.\<close>

definition schedule_queue_advance :: "string \<Rightarrow> scheduler \<Rightarrow> scheduler" where
  "schedule_queue_advance exclude s =
     (if sc_discarded s then s else s\<lparr>sc_advance := sc_advance s @ [exclude]\<rparr>)"

definition advance_key :: "string \<Rightarrow> scheduler \<Rightarrow> string option" where
  "advance_key exclude s =
     map_option fst (find (\<lambda>(k, q). q \<noteq> [] \<and> k \<noteq> exclude) (sc_queues s))"

definition run_advance :: "bool option \<Rightarrow> string \<Rightarrow> nat \<Rightarrow> scheduler \<Rightarrow> scheduler option" where
  "run_advance acceptance token i s =
     (if i < length (sc_advance s) then
        let exclude = sc_advance s ! i; s = s\<lparr>sc_advance := remove_at i (sc_advance s)\<rparr> in
        (case advance_key exclude s of
           None \<Rightarrow> Some s
         | Some k \<Rightarrow> map_option fst (start_next acceptance token (Some k) s))
      else Some s)"

text \<open>
  The rest of \<open>start_next\<close>: a submission that returned, the first part of the handler of one that
  raised (up to the await of \<open>provider_error\<close>), and the rest of that handler.
\<close>

definition submission_done :: "nat \<Rightarrow> bool \<Rightarrow> scheduler \<Rightarrow> scheduler" where
  "submission_done i ok s =
     (if i < length (sc_submissions s) then
        case sc_submissions s ! i of
          Speaking item token \<Rightarrow>
            if ok then s\<lparr>sc_submissions := remove_at i (sc_submissions s)\<rparr>
            else
              let s = s\<lparr>sc_submissions := (sc_submissions s)[i := Failing item token]\<rparr>;
                  s = emit_progress DELIVERY_UNKNOWN item s
              in s\<lparr>sc_lifecycle := await_task (KProviderError token) (sc_lifecycle s)\<rparr>
        | Failing item token \<Rightarrow> s
      else s)"

definition submission_failed :: "nat \<Rightarrow> scheduler \<Rightarrow> scheduler" where
  "submission_failed i s =
     (if i < length (sc_submissions s) then
        case sc_submissions s ! i of
          Failing item token \<Rightarrow>
            let s = s\<lparr>sc_submissions := remove_at i (sc_submissions s)\<rparr>;
                s = s\<lparr>sc_lifecycle := release_generation token False D_DELIVERY_UNKNOWN (sc_lifecycle s)\<rparr>;
                s = release (si_utterance_id item) s
            in schedule_queue_advance (si_work_item_id item) s
        | Speaking item token \<Rightarrow> s
      else s)"

section \<open>Provider events\<close>

definition provider_started :: "string \<Rightarrow> scheduler \<Rightarrow> scheduler" where
  "provider_started c s =
     (case sc_active s of
        None \<Rightarrow> s
      | Some l \<Rightarrow>
          if map_of (sc_provider_contexts s) c \<noteq> None \<or> c \<noteq> si_utterance_id (ul_item l) then s
          else s\<lparr>sc_provider_contexts := AList.update c (ul_token l) (sc_provider_contexts s)\<rparr>)"

definition synthesis_ended :: "string \<Rightarrow> scheduler \<Rightarrow> scheduler" where
  "synthesis_ended u s = (case active_item u s of None \<Rightarrow> s | Some item \<Rightarrow> emit_progress SYNTHESIS_ENDED item s)"

text \<open>\<open>delivery_completed\<close> and \<open>delivery_unknown\<close> differ in the progress and disposition they record.\<close>

definition delivery_finished ::
    "delivery_state \<Rightarrow> delivery_disposition \<Rightarrow> string \<Rightarrow> scheduler \<Rightarrow> scheduler" where
  "delivery_finished d disp u s =
     (case active_item u s of
        None \<Rightarrow> s
      | Some item \<Rightarrow>
          let token = map_option ul_token (sc_active s);
              s = emit_progress d item s;
              s = (case token of
                     None \<Rightarrow> s
                   | Some t \<Rightarrow> s\<lparr>sc_lifecycle := release_generation t True disp (sc_lifecycle s)\<rparr>)
          in release u s)"

definition delivery_completed :: "string \<Rightarrow> scheduler \<Rightarrow> scheduler" where
  "delivery_completed u s = delivery_finished DELIVERY_COMPLETED D_DELIVERY_COMPLETED u s"

definition delivery_unknown :: "string \<Rightarrow> scheduler \<Rightarrow> scheduler" where
  "delivery_unknown u s = delivery_finished DELIVERY_UNKNOWN D_DELIVERY_UNKNOWN u s"

definition provider_synthesis_ended :: "string \<Rightarrow> scheduler \<Rightarrow> scheduler \<times> bool" where
  "provider_synthesis_ended c s =
     (case provider_item c s of
        None \<Rightarrow> (s, False)
      | Some item \<Rightarrow> (synthesis_ended (si_utterance_id item) s, True))"

definition provider_delivery_completed :: "string \<Rightarrow> scheduler \<Rightarrow> scheduler \<times> bool" where
  "provider_delivery_completed c s =
     (case provider_item c s of
        None \<Rightarrow> (s, False)
      | Some item \<Rightarrow>
          let s = delivery_completed (si_utterance_id item) s
          in (s\<lparr>sc_provider_contexts := AList.delete c (sc_provider_contexts s)\<rparr>, True))"

definition provider_delivery_unknown :: "string \<Rightarrow> scheduler \<Rightarrow> scheduler \<times> bool" where
  "provider_delivery_unknown c s =
     (case provider_item c s of
        None \<Rightarrow> (s, False)
      | Some item \<Rightarrow>
          let s = delivery_unknown (si_utterance_id item) s
          in (s\<lparr>sc_provider_contexts := AList.delete c (sc_provider_contexts s)\<rparr>, True))"

section \<open>Interrupt, pause, resume, cancel\<close>

definition sweep_item ::
    "epoch option \<Rightarrow> delivery_state \<Rightarrow> speech_item \<Rightarrow> scheduler \<Rightarrow> scheduler" where
  "sweep_item override d item s =
     notify_ack_swept CONNECTION_CLOSED item (emit_progress_with override True d item s)"

definition interrupt_lease ::
    "epoch option \<Rightarrow> bool \<Rightarrow> delivery_state \<Rightarrow> scheduler \<Rightarrow> scheduler" where
  "interrupt_lease override allow d s =
     (case sc_active s of
        None \<Rightarrow> s
      | Some l \<Rightarrow>
          let s = s\<lparr>sc_lifecycle := record_interruption (ul_token l) False (sc_lifecycle s)\<rparr>;
              s = signal_stop (ul_item l) s;
              s = emit_progress_with override allow d (ul_item l) s
          in release (si_utterance_id (ul_item l)) s)"

definition sweep_all :: "epoch option \<Rightarrow> delivery_state \<Rightarrow> scheduler \<Rightarrow> scheduler" where
  "sweep_all override d s =
     (let s = s\<lparr>sc_discarded := True\<rparr>;
          s = fold (sweep_item override d) (concat (dvals (sc_queues s))) s;
          s = s\<lparr>sc_queues := [], sc_advance := []\<rparr>;
          s = fold (sweep_item override d) (dvals (sc_paused s)) s
      in s\<lparr>sc_paused := []\<rparr>)"

definition interrupt ::
    "epoch option \<Rightarrow> bool \<Rightarrow> bool \<Rightarrow> scheduler \<Rightarrow> scheduler \<times> speech_item option" where
  "interrupt override reconnect full_stop s =
     (let d = (if reconnect then INTERRUPTED_BY_RECONNECT else INTERRUPTED);
          active = map_option ul_item (sc_active s) in
      if active = None \<and> \<not> reconnect \<and> \<not> full_stop then (s, None)
      else
        let s = interrupt_lease override (reconnect \<or> full_stop) d s;
            s = (if reconnect \<or> full_stop then sweep_all override d s else s)
        in (s, active))"

definition pause :: "string \<Rightarrow> scheduler \<Rightarrow> scheduler" where
  "pause k s =
     (case sc_active s of
        None \<Rightarrow> s
      | Some l \<Rightarrow>
          if si_work_item_id (ul_item l) = k then
            let s = s\<lparr>sc_lifecycle := record_interruption (ul_token l) True (sc_lifecycle s)\<rparr>;
                s = s\<lparr>sc_paused := AList.update k (ul_item l) (sc_paused s)\<rparr>;
                s = signal_stop (ul_item l) s;
                s = emit_progress PAUSED (ul_item l) s
            in release (si_utterance_id (ul_item l)) s
          else s)"

datatype resume_target = ResumeLatest | ResumeKey string | ResumeItem speech_item

definition resume :: "string \<Rightarrow> resume_target \<Rightarrow> scheduler \<Rightarrow> scheduler \<times> speech_item option" where
  "resume fresh_utterance target s =
     (let key = (case target of ResumeLatest \<Rightarrow> None | ResumeKey k \<Rightarrow> Some k | ResumeItem i \<Rightarrow> Some (si_work_item_id i));
          stored = paused key s;
          chosen = (case stored of
                      Some i \<Rightarrow> Some i
                    | None \<Rightarrow> (case target of ResumeItem i \<Rightarrow> Some i | _ \<Rightarrow> None)) in
      case chosen of
        None \<Rightarrow> (s, None)
      | Some item \<Rightarrow>
          let s = (if map_of (sc_paused s) (si_work_item_id item) = Some item
                   then s\<lparr>sc_paused := AList.delete (si_work_item_id item) (sc_paused s)\<rparr> else s) in
          if si_role item = ROLE_ACK
          then (ack_terminal (ack_identity item) UNAVAILABLE_TRANSPORT s, None)
          else
            let s = (if stored \<noteq> None then emit_progress INTERRUPTED item s else s) in
            (case enqueue (item\<lparr>si_utterance_id := fresh_utterance\<rparr>) s of
               (s, Inl e) \<Rightarrow> (s, None)
             | (s, Inr replay) \<Rightarrow> (emit_progress RESUMED replay s, Some replay)))"

definition cancel_item :: "speech_item \<Rightarrow> scheduler \<Rightarrow> scheduler" where
  "cancel_item item s = notify_ack_swept CANCELLED item (emit_progress INTERRUPTED item s)"

definition cancel_queue :: "string \<Rightarrow> scheduler \<times> speech_item list \<Rightarrow> scheduler \<times> speech_item list" where
  "cancel_queue k r =
     (let (s, cancelled) = r; items = queue_of s k in
      (fold cancel_item items (s\<lparr>sc_queues := AList.delete k (sc_queues s)\<rparr>), cancelled @ items))"

definition cancel_paused :: "string \<Rightarrow> scheduler \<times> speech_item list \<Rightarrow> scheduler \<times> speech_item list" where
  "cancel_paused k r =
     (let (s, cancelled) = r in
      case map_of (sc_paused s) k of
        None \<Rightarrow> (s, cancelled)
      | Some item \<Rightarrow> (cancel_item item (s\<lparr>sc_paused := AList.delete k (sc_paused s)\<rparr>), cancelled @ [item]))"

definition cancel :: "string option \<Rightarrow> scheduler \<Rightarrow> scheduler \<times> speech_item list" where
  "cancel work_item_id s =
     (let r = (case sc_active s of
                 None \<Rightarrow> (s, [])
               | Some l \<Rightarrow>
                   if work_item_id = None \<or> work_item_id = Some (si_work_item_id (ul_item l)) then
                     let s = s\<lparr>sc_lifecycle := record_interruption (ul_token l) False (sc_lifecycle s)\<rparr>;
                         s = signal_stop (ul_item l) s;
                         s = emit_progress INTERRUPTED (ul_item l) s
                     in (release (si_utterance_id (ul_item l)) s, [ul_item l])
                   else (s, []));
          r = fold cancel_queue
                (case work_item_id of Some k \<Rightarrow> [k] | None \<Rightarrow> dkeys (sc_queues (fst r))) r
      in fold cancel_paused
           (case work_item_id of Some k \<Rightarrow> [k] | None \<Rightarrow> dkeys (sc_paused (fst r))) r)"

end
