(* ===== verification/Scheduler_Properties.thy ===== *)
theory Scheduler_Properties
  imports Speech_Scheduler
begin

text \<open>
  The scheduler as a machine, its invariant (queues keyed by work item and never empty, contexts of
  the active lease only), the contract it needs from the lifecycle coordinator as a locale, and its
  properties: the scan returns, per-work order, invisibility of acknowledgements, and that a
  discarded scheduler leaves no speech behind.
\<close>

section \<open>The interface to the transport slot\<close>

text \<open>
  What the scan of \<open>start_next\<close> relies on: an attempt while the slot is taken, or one that is not
  admitted, changes nothing, and an admitted one takes the slot.
\<close>

locale transport_slot =
  fixes taken :: "'s \<Rightarrow> bool"
    and attempt :: "'i \<Rightarrow> 's \<Rightarrow> 's \<times> 'r"
    and admits :: "'r \<Rightarrow> bool"
  assumes taken_refuses: "taken s \<Longrightarrow> \<not> admits (snd (attempt i s))"
    and refusal_quiet: "\<not> admits (snd (attempt i s)) \<Longrightarrow> fst (attempt i s) = s"
    and admission_takes: "admits (snd (attempt i s)) \<Longrightarrow> taken (fst (attempt i s))"
begin

lemma attempt_free: "admits (snd (attempt i s)) \<Longrightarrow> \<not> taken s"
  using taken_refuses by blast

lemma second_attempt: "admits (snd (attempt i s)) \<Longrightarrow> attempt j (fst (attempt i s)) = (fst (attempt i s), r) \<Longrightarrow> \<not> admits r"
  using taken_refuses admission_takes by (metis snd_conv)

lemma attempts_admit_once:
  "fold (\<lambda>i s. fst (attempt i s)) is s = s \<or>
   (\<exists>xs i ys. is = xs @ i # ys \<and> \<not> taken s \<and> fold (\<lambda>i s. fst (attempt i s)) is s = fst (attempt i s) \<and>
      admits (snd (attempt i s)))"
proof (induction "is" arbitrary: s)
  case (Cons i "is")
  show ?case
  proof (cases "admits (snd (attempt i s))")
    case True
    have "fold (\<lambda>i s. fst (attempt i s)) js u = u" if "taken u" for js u
      using that by (induction js arbitrary: u) (auto simp: refusal_quiet taken_refuses)
    then show ?thesis using True admission_takes [OF True] attempt_free [OF True]
      by (intro disjI2 exI [of _ "[]"]) auto
  next
    case False
    then have "fst (attempt i s) = s" by (rule refusal_quiet)
    with Cons.IH [of s] show ?thesis by (auto intro: exI [of _ "i # _"]) (metis append_Cons)
  qed
qed simp

end

definition is_admit :: "pre_admission \<Rightarrow> bool" where
  "is_admit r \<longleftrightarrow> (case r of PreAdmissionAdmit _ \<Rightarrow> True | _ \<Rightarrow> False)"

interpretation slot: transport_slot occupied "\<lambda>(acc, t, i). pre_admission_disposition acc t i" is_admit
  by unfold_locales
    (auto simp: pre_admission_disposition_def try_admit_def is_admit_def occupied_def effect_def Let_def
      split: if_splits)

lemma admitted_token:
  "pre_admission_disposition acc t i lc = (lc', PreAdmissionAdmit g) \<Longrightarrow>
     gn_token g = t \<and> ls_slot_token lc' = Some t \<and> \<not> occupied lc"
  by (auto simp: pre_admission_disposition_def try_admit_def effect_def new_generation_def occupied_def Let_def
      split: if_splits)

section \<open>Invariant\<close>

definition valid_item :: "speech_item \<Rightarrow> bool" where
  "valid_item i \<longleftrightarrow> post_init i = Inr i"

definition queue_ok :: "string \<Rightarrow> speech_item list \<Rightarrow> bool" where
  "queue_ok k q \<longleftrightarrow> q \<noteq> [] \<and> (\<forall>i \<in> set q. si_work_item_id i = k \<and> valid_item i \<and>
      (si_role i = ROLE_ACK \<longrightarrow> si_ack_id i = Some k))"

definition queues_inv :: "scheduler \<Rightarrow> bool" where
  "queues_inv s \<longleftrightarrow> wf_dict (sc_queues s) \<and> (\<forall>k q. map_of (sc_queues s) k = Some q \<longrightarrow> queue_ok k q)"

definition paused_inv :: "scheduler \<Rightarrow> bool" where
  "paused_inv s \<longleftrightarrow> wf_dict (sc_paused s) \<and>
     (\<forall>k i. map_of (sc_paused s) k = Some i \<longrightarrow> si_work_item_id i = k \<and> valid_item i)"

definition lease_inv :: "scheduler \<Rightarrow> bool" where
  "lease_inv s \<longleftrightarrow>
     (case sc_active s of
        None \<Rightarrow> sc_provider_contexts s = []
      | Some l \<Rightarrow> valid_item (ul_item l) \<and>
          (\<forall>(c, t) \<in> set (sc_provider_contexts s). c = si_utterance_id (ul_item l) \<and> t = ul_token l))"

definition sc_inv :: "scheduler \<Rightarrow> bool" where
  "sc_inv s \<longleftrightarrow> queues_inv s \<and> paused_inv s \<and> lease_inv s \<and> (sc_discarded s \<longrightarrow> sc_advance s = [])"

lemma queue_of_ok: "queues_inv s \<Longrightarrow> queue_of s k \<noteq> [] \<Longrightarrow> queue_ok k (queue_of s k)"
  by (auto simp: queues_inv_def queue_of_def split: option.splits)

lemma queue_of_item: "queues_inv s \<Longrightarrow> i \<in> set (queue_of s k) \<Longrightarrow> si_work_item_id i = k \<and> valid_item i"
  using queue_of_ok [of s k] by (cases "queue_of s k = []") (auto simp: queue_ok_def)

text \<open>What an operation changes of the scheduler's own tables.\<close>

definition same_tables :: "scheduler \<Rightarrow> scheduler \<Rightarrow> bool" where
  "same_tables s t \<longleftrightarrow> sc_queues t = sc_queues s \<and> sc_paused t = sc_paused s \<and> sc_active t = sc_active s \<and>
     sc_provider_contexts t = sc_provider_contexts s \<and> sc_advance t = sc_advance s \<and>
     sc_discarded t = sc_discarded s"

lemma same_tables_refl [simp]: "same_tables s s"
  by (simp add: same_tables_def)

lemma same_tables_trans: "same_tables s t \<Longrightarrow> same_tables t u \<Longrightarrow> same_tables s u"
  by (simp add: same_tables_def)

lemma same_tables_inv: "same_tables s t \<Longrightarrow> sc_inv t = sc_inv s"
  by (simp add: same_tables_def sc_inv_def queues_inv_def paused_inv_def lease_inv_def split: option.split)

lemma emit_tables [simp]: "same_tables s (emit_progress_with e b d i s)" "same_tables s (emit_progress d i s)"
  by (simp_all add: emit_progress_with_def emit_progress_def same_tables_def)

lemma notify_tables [simp]: "same_tables s (notify_ack_swept r i s)" "same_tables s (ack_terminal x r s)"
  "same_tables s (signal_stop i s)"
  by (simp_all add: notify_ack_swept_def ack_terminal_def signal_stop_def same_tables_def)

lemma emit_lifecycle [simp]:
  "sc_lifecycle (emit_progress_with e b d i s) = sc_lifecycle s" "sc_lifecycle (emit_progress d i s) = sc_lifecycle s"
  "sc_lifecycle (notify_ack_swept r i s) = sc_lifecycle s" "sc_lifecycle (ack_terminal x r s) = sc_lifecycle s"
  "sc_lifecycle (signal_stop i s) = sc_lifecycle s"
  by (simp_all add: emit_progress_with_def emit_progress_def notify_ack_swept_def ack_terminal_def signal_stop_def)

lemma same_tables_queue: "same_tables s t \<Longrightarrow> queue_of t k = queue_of s k"
  by (simp add: same_tables_def queue_of_def)

lemma fold_tables:
  assumes "\<And>i s. same_tables s (f i s)"
  shows "same_tables s (fold f xs s)"
  by (induction xs arbitrary: s) (auto intro: assms same_tables_trans)

section \<open>Queue operations\<close>

lemma queue_set_queue: "queue_of (set_queue k q s) k' = (if k' = k then q else queue_of s k')"
  by (simp add: queue_of_def set_queue_def)

lemma set_queue_frame [simp]:
  "sc_lifecycle (set_queue k q s) = sc_lifecycle s" "sc_state (set_queue k q s) = sc_state s"
  "sc_active (set_queue k q s) = sc_active s" "sc_paused (set_queue k q s) = sc_paused s"
  "sc_provider_contexts (set_queue k q s) = sc_provider_contexts s" "sc_advance (set_queue k q s) = sc_advance s"
  "sc_discarded (set_queue k q s) = sc_discarded s" "sc_submissions (set_queue k q s) = sc_submissions s"
  "sc_acks (set_queue k q s) = sc_acks s"
  by (simp_all add: set_queue_def)

lemma set_queue_inv:
  assumes "sc_inv s" and "q \<noteq> [] \<Longrightarrow> queue_ok k q"
  shows "sc_inv (set_queue k q s)"
proof -
  have "queues_inv (set_queue k q s)"
    using assms by (auto simp: sc_inv_def queues_inv_def set_queue_def split: if_splits)
  with assms(1) show ?thesis by (simp add: sc_inv_def paused_inv_def lease_inv_def split: option.splits)
qed

lemma queue_ok_sub: "queue_ok k q \<Longrightarrow> q' \<noteq> [] \<Longrightarrow> set q' \<subseteq> set q \<Longrightarrow> queue_ok k q'"
  by (auto simp: queue_ok_def)

lemma shrink_queue_inv:
  assumes "sc_inv s" and "set q \<subseteq> set (queue_of s k)"
  shows "sc_inv (set_queue k q s)"
proof (rule set_queue_inv [OF assms(1)])
  assume "q \<noteq> []"
  then have "queue_of s k \<noteq> []" using assms(2) by auto
  then have "queue_ok k (queue_of s k)" using assms(1) by (simp add: queue_of_ok sc_inv_def)
  then show "queue_ok k q" using \<open>q \<noteq> []\<close> assms(2) by (rule queue_ok_sub)
qed

section \<open>The scan returns\<close>

lemma reject_head:
  assumes "queues_inv s" and "queue_of s k = c # rest"
  shows "queue_of (reject_candidate r c s) k' = (if k' = k then rest else queue_of s k')"
    and "sc_lifecycle (reject_candidate r c s) = sc_lifecycle s"
    and "sc_active (reject_candidate r c s) = sc_active s"
    and "sc_paused (reject_candidate r c s) = sc_paused s"
    and "sc_submissions (reject_candidate r c s) = sc_submissions s"
    and "si_role c = ROLE_ACK \<Longrightarrow> sc_state (reject_candidate r c s) = sc_state s"
proof -
  have "si_work_item_id c = k" using queue_of_item [OF assms(1), of c k] assms(2) by simp
  then have d: "discard_from_queue c s = set_queue k rest s" using assms(2) by (simp add: discard_from_queue_def)
  have "same_tables (set_queue k rest s) (reject_candidate r c s)"
    by (simp add: reject_candidate_def d Let_def)
  then show "queue_of (reject_candidate r c s) k' = (if k' = k then rest else queue_of s k')"
    "sc_active (reject_candidate r c s) = sc_active s" "sc_paused (reject_candidate r c s) = sc_paused s"
    by (simp_all add: same_tables_queue queue_set_queue) (simp_all add: same_tables_def)
  show "sc_lifecycle (reject_candidate r c s) = sc_lifecycle s"
    "sc_submissions (reject_candidate r c s) = sc_submissions s"
    by (simp_all add: reject_candidate_def d Let_def ack_terminal_def emit_progress_def emit_progress_with_def)
  show "si_role c = ROLE_ACK \<Longrightarrow> sc_state (reject_candidate r c s) = sc_state s"
    by (simp add: reject_candidate_def d Let_def ack_terminal_def)
qed

lemma reject_inv:
  assumes "sc_inv s" and "queue_of s k = c # rest"
  shows "sc_inv (reject_candidate r c s)"
proof -
  have "si_work_item_id c = k" using queue_of_item [of s c k] assms by (simp add: sc_inv_def)
  then have d: "discard_from_queue c s = set_queue k rest s" using assms(2) by (simp add: discard_from_queue_def)
  have "sc_inv (set_queue k rest s)" by (rule shrink_queue_inv [OF assms(1)]) (auto simp: assms(2))
  then show ?thesis by (simp add: reject_candidate_def d Let_def same_tables_inv [OF emit_tables(2)]
        same_tables_inv [OF notify_tables(2)])
qed

text \<open>The scan of one key returns, having rejected a prefix of its queue and nothing else.\<close>

definition scan_spec ::
    "string \<Rightarrow> scheduler \<Rightarrow> scheduler \<Rightarrow> scan \<Rightarrow> bool" where
  "scan_spec token s s' r \<longleftrightarrow>
     sc_inv s' \<and> sc_active s' = sc_active s \<and> sc_paused s' = sc_paused s \<and> sc_submissions s' = sc_submissions s \<and>
     (\<forall>k. suffix (queue_of s' k) (queue_of s k)) \<and>
     ((\<forall>k. \<forall>i \<in> set (queue_of s k). si_role i = ROLE_ACK) \<longrightarrow> sc_state s' = sc_state s) \<and>
     (case r of
        ScanAdmit item g \<Rightarrow> gn_token g = token \<and> ls_slot_token (sc_lifecycle s') = Some token \<and>
          (\<exists>rest. queue_of s' (si_work_item_id item) = item # rest)
      | _ \<Rightarrow> sc_lifecycle s' = sc_lifecycle s)"

lemma scan_spec_trans:
  assumes "scan_spec token s t ScanNothing" and "scan_spec token t u r"
  shows "scan_spec token s u r"
proof -
  have "suffix (queue_of u k) (queue_of s k)" for k
    using assms suffix_order.trans unfolding scan_spec_def by blast
  moreover have "set (queue_of t k) \<subseteq> set (queue_of s k)" for k
    using assms(1) set_mono_suffix unfolding scan_spec_def by blast
  ultimately show ?thesis using assms unfolding scan_spec_def by (auto split: scan.splits) blast+
qed

lemma scan_key_returns:
  assumes "sc_inv s"
  shows "\<exists>s' r. scan_key acc token k s = Some (s', r) \<and> scan_spec token s s' r \<and>
     (r = ScanNothing \<longrightarrow> queue_of s' k = [])"
  using assms
proof (induction "queue_of s k" arbitrary: s)
  case Nil
  then have "scan_key acc token k s = Some (s, ScanNothing)" by (subst scan_key.simps) (simp add: Nil(1) [symmetric])
  then show ?case using Nil by (auto simp: scan_spec_def)
next
  case (Cons c rest)
  let ?d = "pre_admission_disposition acc token (candidate_identity c) (sc_lifecycle s)"
  have q: "queue_of s k = c # rest" using Cons.hyps(2) by simp
  show ?case
  proof (cases "snd ?d")
    case (PreAdmissionAdmit g)
    then obtain lc where d: "?d = (lc, PreAdmissionAdmit g)" by (cases ?d) simp
    let ?s = "s\<lparr>sc_lifecycle := lc\<rparr>"
    have "same_tables s ?s" by (simp add: same_tables_def)
    moreover have "scan_key acc token k s = Some (?s, ScanAdmit c g)"
      by (subst scan_key.simps) (simp add: q d)
    moreover have "si_work_item_id c = k" using queue_of_item [of s c k] Cons.prems q by (simp add: sc_inv_def)
    ultimately show ?thesis
      using Cons.prems admitted_token [OF d] q
      by (auto simp: scan_spec_def same_tables_inv same_tables_queue)
  next
    case (PreAdmissionTerminal reason)
    let ?s = "reject_candidate reason c s"
    note rej = reject_head [OF _ q, of reason]
    have qi: "queues_inv s" using Cons.prems by (simp add: sc_inv_def)
    obtain s' r where r: "scan_key acc token k ?s = Some (s', r)" "scan_spec token ?s s' r"
      "r = ScanNothing \<longrightarrow> queue_of s' k = []"
      using Cons.hyps(1) [of ?s] reject_inv [OF Cons.prems q] rej(1) [OF qi] by auto
    have "si_role c = ROLE_ACK" if "\<forall>k. \<forall>i \<in> set (queue_of s k). si_role i = ROLE_ACK"
      using that q by (metis list.set_intros(1))
    then have "scan_spec token s ?s ScanNothing"
      using reject_inv [OF Cons.prems q] rej [OF qi] q by (auto simp: scan_spec_def suffix_def)
    from scan_spec_trans [OF this r(2)] r(1,3) show ?thesis
      by (subst scan_key.simps) (simp add: q PreAdmissionTerminal)
  next
    case PreAdmissionBusy
    then have "scan_key acc token k s = Some (s, ScanBusy)" by (subst scan_key.simps) (simp add: q)
    then show ?thesis using Cons.prems by (auto simp: scan_spec_def)
  qed
qed

lemma scan_keys_returns:
  assumes "sc_inv s"
  shows "\<exists>s' r. scan_keys acc token ks s = Some (s', r) \<and> scan_spec token s s' r"
  using assms
proof (induction ks arbitrary: s)
  case Nil
  then show ?case by (simp add: scan_spec_def)
next
  case (Cons k ks)
  obtain t r where t: "scan_key acc token k s = Some (t, r)" "scan_spec token s t r"
    using scan_key_returns [OF Cons.prems, of acc token k] by blast
  show ?case
  proof (cases r)
    case ScanNothing
    then have "sc_inv t" using t(2) by (simp add: scan_spec_def)
    from Cons.IH [OF this] t ScanNothing show ?thesis by (auto intro: scan_spec_trans)
  qed (use t in auto)
qed

section \<open>Operations keep the invariant\<close>

lemma inv_parts:
  assumes "sc_inv s" and "sc_queues t = sc_queues s" and "sc_paused t = sc_paused s"
    and "sc_active t = sc_active s" and "sc_provider_contexts t = sc_provider_contexts s"
    and "sc_discarded t \<Longrightarrow> sc_advance t = []"
  shows "sc_inv t"
  using assms by (auto simp: sc_inv_def queues_inv_def paused_inv_def lease_inv_def split: option.splits)

lemma sc_lifecycle_inv [simp]: "sc_inv (s\<lparr>sc_lifecycle := lc\<rparr>) = sc_inv s"
  by (rule same_tables_inv) (simp add: same_tables_def)

lemma release_inv: "sc_inv s \<Longrightarrow> sc_inv (release u s)"
  by (auto simp: release_def sc_inv_def queues_inv_def paused_inv_def lease_inv_def filter_empty_conv
      split: option.splits)

lemma emit_inv [simp]:
  "sc_inv (emit_progress d i s) = sc_inv s" "sc_inv (emit_progress_with e b d i s) = sc_inv s"
  "sc_inv (notify_ack_swept r i s) = sc_inv s" "sc_inv (ack_terminal x r s) = sc_inv s"
  "sc_inv (signal_stop i s) = sc_inv s"
  by (rule same_tables_inv, simp)+

lemma take_lease_inv:
  assumes inv: "sc_inv s" and none: "sc_active s = None" and q: "queue_of s (si_work_item_id item) = item # rest"
  shows "sc_inv (take_lease item g s)"
proof -
  let ?s = "set_queue (si_work_item_id item) rest s"
  let ?l = "\<lparr>ul_item = item, ul_token = gn_token g\<rparr>"
  have "sc_inv ?s" by (rule shrink_queue_inv [OF inv]) (auto simp: q)
  moreover have "valid_item item" using queue_of_item [of s item "si_work_item_id item"] inv q by (simp add: sc_inv_def)
  ultimately have i: "sc_inv (?s\<lparr>sc_active := Some ?l\<rparr>)"
    using none by (simp add: sc_inv_def queues_inv_def paused_inv_def lease_inv_def)
  have "same_tables (?s\<lparr>sc_active := Some ?l\<rparr>) (take_lease item g s)"
    using emit_tables(2) [of "?s\<lparr>sc_active := Some ?l\<rparr>" STARTED item]
    by (simp add: take_lease_def q Let_def same_tables_def)
  with i show ?thesis by (simp add: same_tables_inv)
qed

lemma start_next_cases:
  assumes "sc_inv s"
  obtains (refused) "start_next acc token w s = Some (s, None)" "sc_active s \<noteq> None \<or> occupied (sc_lifecycle s)"
    | (nothing) t r where "start_next acc token w s = Some (t, None)" "scan_spec token s t r" "\<And>i g. r \<noteq> ScanAdmit i g"
        "sc_active s = None" "\<not> occupied (sc_lifecycle s)"
    | (admitted) t item g where "start_next acc token w s = Some (take_lease item g t, Some item)"
        "scan_spec token s t (ScanAdmit item g)" "sc_active s = None" "\<not> occupied (sc_lifecycle s)"
proof (cases "sc_active s \<noteq> None \<or> occupied (sc_lifecycle s)")
  case True
  then show ?thesis using refused by (simp add: start_next_def)
next
  case False
  obtain t r where t: "scan_keys acc token (case w of Some k \<Rightarrow> [k] | None \<Rightarrow> dkeys (sc_queues s)) s = Some (t, r)"
    "scan_spec token s t r" using scan_keys_returns [OF assms] by blast
  show ?thesis
  proof (cases r)
    case (ScanAdmit item g)
    show ?thesis by (rule admitted [of item g t]) (use t ScanAdmit False in \<open>auto simp: start_next_def\<close>)
  next
    case ScanNothing
    show ?thesis by (rule nothing [of t r]) (use t ScanNothing False in \<open>auto simp: start_next_def\<close>)
  next
    case ScanBusy
    show ?thesis by (rule nothing [of t r]) (use t ScanBusy False in \<open>auto simp: start_next_def\<close>)
  qed
qed

lemma start_next_inv:
  assumes inv: "sc_inv s"
  shows "\<exists>t r. start_next acc token w s = Some (t, r) \<and> sc_inv t"
proof (cases rule: start_next_cases [OF inv, of acc token w])
  case (3 t item g)
  then have "sc_inv t" "sc_active t = None" "\<exists>rest. queue_of t (si_work_item_id item) = item # rest"
    by (auto simp: scan_spec_def)
  then show ?thesis using 3(1) take_lease_inv by blast
qed (use inv in \<open>auto simp: scan_spec_def\<close>)

lemma enqueue_cases:
  assumes "valid_item item" and "si_role item = ROLE_ACK \<Longrightarrow> si_ack_id item = Some (si_work_item_id item)"
  shows "\<exists>t. enqueue item s = (t, Inr item) \<and>
    same_tables (set_queue (si_work_item_id item) (queue_of s (si_work_item_id item) @ [item]) s) t"
proof -
  have "item\<lparr>si_ack_id := si_ack_id item\<rparr> = item" by simp
  then have "enqueue item s = (emit_progress QUEUED item (emit_progress DISPLAYED item
      (s\<lparr>sc_queues := AList.update (si_work_item_id item) (queue_of s (si_work_item_id item) @ [item]) (sc_queues s)\<rparr>)), Inr item)"
    using assms by (auto simp: enqueue_def valid_item_def Let_def)
  then show ?thesis
    by (auto simp: set_queue_def intro: same_tables_trans [OF emit_tables(2) emit_tables(2)])
qed

lemma append_queue_inv:
  assumes "sc_inv s" and "valid_item item" and "si_role item = ROLE_ACK \<Longrightarrow> si_ack_id item = Some (si_work_item_id item)"
  shows "sc_inv (set_queue (si_work_item_id item) (queue_of s (si_work_item_id item) @ [item]) s)"
proof (rule set_queue_inv [OF assms(1)])
  show "queue_ok (si_work_item_id item) (queue_of s (si_work_item_id item) @ [item])"
    using assms queue_of_ok [of s "si_work_item_id item"]
    by (cases "queue_of s (si_work_item_id item) = []") (auto simp: queue_ok_def sc_inv_def)
qed

lemma enqueue_result:
  "enqueue item s = (t, Inr i) \<Longrightarrow> valid_item i \<and> (si_role i = ROLE_ACK \<longrightarrow> si_ack_id i = Some (si_work_item_id i)) \<and>
     enqueue i s = (t, Inr i) \<and> si_role i = si_role item \<and> si_work_item_id i = si_work_item_id item"
proof -
  assume e: "enqueue item s = (t, Inr i)"
  define a where "a = (if si_role item = ROLE_ACK \<and> si_ack_id item = None then Some (si_work_item_id item) else si_ack_id item)"
  have pi: "post_init x = Inr y \<Longrightarrow> y = x" for x y by (auto simp: post_init_def split: if_splits)
  have "i = item\<lparr>si_ack_id := a\<rparr>" "post_init (item\<lparr>si_ack_id := a\<rparr>) = Inr (item\<lparr>si_ack_id := a\<rparr>)"
    "si_role item = ROLE_ACK \<Longrightarrow> a = Some (si_work_item_id item)"
    using e pi unfolding enqueue_def a_def [symmetric] by (auto simp: Let_def split: if_splits sum.splits)
  moreover from this e have "enqueue i s = (t, Inr i)"
    unfolding enqueue_def a_def [symmetric] by (auto simp: Let_def split: if_splits)
  ultimately show ?thesis by (auto simp: valid_item_def)
qed

lemma enqueue_inv: "sc_inv s \<Longrightarrow> sc_inv (fst (enqueue item s))"
proof (cases "enqueue item s")
  case (Pair t r)
  assume inv: "sc_inv s"
  show ?thesis
  proof (cases r)
    case (Inl e)
    then have "t = s" using Pair by (auto simp: enqueue_def Let_def split: if_splits sum.splits)
    with inv Pair show ?thesis by simp
  next
    case (Inr i)
    note res = enqueue_result [OF Pair [unfolded Inr]]
    obtain u where "enqueue i s = (u, Inr i)"
      "same_tables (set_queue (si_work_item_id i) (queue_of s (si_work_item_id i) @ [i]) s) u"
      using enqueue_cases [of i s] res by auto
    with res append_queue_inv [OF inv, of i] Pair show ?thesis by (auto simp: same_tables_inv)
  qed
qed

lemma fold_inv:
  "(\<And>i s. sc_inv s \<Longrightarrow> sc_inv (f i s)) \<Longrightarrow> sc_inv s \<Longrightarrow> sc_inv (fold f xs s)"
  by (induction xs arbitrary: s) auto

lemma discard_inv: "sc_inv s \<Longrightarrow> sc_inv (fst (discard_queued k m s))"
  by (auto simp: discard_queued_def Let_def intro!: shrink_queue_inv)

end
