(* ===== verification/Scheduler_Delivery.thy ===== *)
theory Scheduler_Delivery
  imports Scheduler_Properties
begin

text \<open>
  Every operation of the scheduler as one machine, and the properties over its runs: admission in
  queue order, one lease at a time, acknowledgements invisible on the wire, cancellation confined to
  its work item, and a discarded scheduler that leaves every item terminal.
\<close>

section \<open>Steps\<close>

datatype sc_op =
    ScEnqueue speech_item
  | ScStart "bool option" string "string option"
  | ScAdvance "bool option" string nat
  | ScSubmission nat bool
  | ScFailed nat
  | ScProviderStarted string
  | ScProviderSynthesisEnded string
  | ScProviderCompleted string
  | ScProviderUnknown string
  | ScCompleted string
  | ScUnknown string
  | ScInterrupt "epoch option" bool bool
  | ScPause string
  | ScResume string resume_target
  | ScCancel "string option"
  | ScDiscardAck string
  | ScDiscardNotice string
  | ScLifecycle lc_op

primrec sc_step :: "sc_op \<Rightarrow> scheduler \<Rightarrow> scheduler" where
  "sc_step (ScEnqueue i) s = fst (enqueue i s)"
| "sc_step (ScStart acc t w) s = (case start_next acc t w s of None \<Rightarrow> s | Some (s', _) \<Rightarrow> s')"
| "sc_step (ScAdvance acc t i) s = (case run_advance acc t i s of None \<Rightarrow> s | Some s' \<Rightarrow> s')"
| "sc_step (ScSubmission i ok) s = submission_done i ok s"
| "sc_step (ScFailed i) s = submission_failed i s"
| "sc_step (ScProviderStarted c) s = provider_started c s"
| "sc_step (ScProviderSynthesisEnded c) s = fst (provider_synthesis_ended c s)"
| "sc_step (ScProviderCompleted c) s = fst (provider_delivery_completed c s)"
| "sc_step (ScProviderUnknown c) s = fst (provider_delivery_unknown c s)"
| "sc_step (ScCompleted u) s = delivery_completed u s"
| "sc_step (ScUnknown u) s = delivery_unknown u s"
| "sc_step (ScInterrupt oe r f) s = fst (interrupt oe r f s)"
| "sc_step (ScPause k) s = pause k s"
| "sc_step (ScResume u t) s = fst (resume u t s)"
| "sc_step (ScCancel k) s = fst (cancel k s)"
| "sc_step (ScDiscardAck k) s = fst (discard_queued_ack k s)"
| "sc_step (ScDiscardNotice k) s = fst (discard_queued_notice k s)"
| "sc_step (ScLifecycle e) s = s\<lparr>sc_lifecycle := lc_step e (sc_lifecycle s)\<rparr>"

text \<open>An item handed to \<open>resume\<close> is one the scheduler produced.\<close>

fun sc_legal :: "sc_op \<Rightarrow> bool" where
  "sc_legal (ScResume u (ResumeItem i)) \<longleftrightarrow> valid_item i"
| "sc_legal _ \<longleftrightarrow> True"

lemma finished_inv: "sc_inv s \<Longrightarrow> sc_inv (delivery_finished d disp u s)"
  by (auto simp: delivery_finished_def Let_def intro!: release_inv split: option.splits)

lemma drop_context_inv: "sc_inv s \<Longrightarrow> sc_inv (s\<lparr>sc_provider_contexts := AList.delete c (sc_provider_contexts s)\<rparr>)"
  by (auto simp: sc_inv_def queues_inv_def paused_inv_def lease_inv_def AList.delete_eq split: option.splits)

lemma stop_active_inv:
  "sc_inv s \<Longrightarrow> sc_inv (release u (emit_progress_with e b d i (signal_stop j (s\<lparr>sc_lifecycle := lc\<rparr>))))"
  by (intro release_inv) simp

lemma clear_inv: "sc_inv s \<Longrightarrow> sc_inv (s\<lparr>sc_paused := []\<rparr>)"
    "sc_inv s \<Longrightarrow> sc_inv (s\<lparr>sc_queues := [], sc_advance := []\<rparr>)"
  by (auto simp: sc_inv_def queues_inv_def paused_inv_def lease_inv_def split: option.splits)

lemma sweep_tables [simp]: "same_tables s (sweep_item e d i s)"
  by (auto simp: sweep_item_def intro: same_tables_trans [OF emit_tables(1) notify_tables(1)])

lemma interrupt_lease_inv: "sc_inv s \<Longrightarrow> sc_inv (interrupt_lease e b d s)"
  by (auto simp: interrupt_lease_def Let_def intro!: stop_active_inv split: option.split)

lemma sweep_all_inv:
  assumes inv: "sc_inv s"
  shows "sc_inv (sweep_all e d s)"
proof -
  let ?b = "fold (sweep_item e d) (concat (dvals (sc_queues s))) (s\<lparr>sc_discarded := True\<rparr>)"
  let ?c = "?b\<lparr>sc_queues := [], sc_advance := []\<rparr>"
  have "same_tables (s\<lparr>sc_discarded := True\<rparr>) ?b" by (rule fold_tables) simp
  then have c: "sc_inv ?c" using inv
    by (auto simp: same_tables_def sc_inv_def queues_inv_def paused_inv_def lease_inv_def split: option.splits)
  have "same_tables ?c (fold (sweep_item e d) (dvals (sc_paused ?c)) ?c)" by (rule fold_tables) simp
  then have "sc_inv (fold (sweep_item e d) (dvals (sc_paused ?c)) ?c)" using c by (simp add: same_tables_inv)
  from clear_inv(1) [OF this] show ?thesis by (simp add: sweep_all_def Let_def)
qed

lemma interrupt_inv: "sc_inv s \<Longrightarrow> sc_inv (fst (interrupt e r f s))"
  by (simp add: interrupt_def Let_def sweep_all_inv interrupt_lease_inv)

lemma pause_inv: "sc_inv s \<Longrightarrow> sc_inv (pause k s)"
proof (cases "sc_active s")
  case (Some l)
  assume inv: "sc_inv s"
  let ?s = "(s\<lparr>sc_lifecycle := record_interruption (ul_token l) True (sc_lifecycle s)\<rparr>)
      \<lparr>sc_paused := AList.update k (ul_item l) (sc_paused s)\<rparr>"
  have "sc_inv ?s" if "si_work_item_id (ul_item l) = k"
    using inv that Some by (auto simp: sc_inv_def queues_inv_def paused_inv_def lease_inv_def)
  then show ?thesis using inv Some by (auto simp: pause_def Let_def intro!: release_inv)
qed (simp add: pause_def)

lemma resume_inv:
  assumes inv: "sc_inv s"
  shows "sc_inv (fst (resume u t s))"
proof -
  have "sc_inv (s\<lparr>sc_paused := AList.delete k (sc_paused s)\<rparr>)" for k
    using inv by (auto simp: sc_inv_def queues_inv_def paused_inv_def lease_inv_def split: option.splits if_splits)
  then have "sc_inv (if b then s\<lparr>sc_paused := AList.delete k (sc_paused s)\<rparr> else s)" for b k
    using inv by simp
  moreover have "sc_inv v \<Longrightarrow> sc_inv (fst (case enqueue i v of (s, Inl e) \<Rightarrow> (s, None)
      | (s, Inr replay) \<Rightarrow> (emit_progress RESUMED replay s, Some replay)))" for i v
    using enqueue_inv [of v i] by (auto split: prod.splits sum.splits)
  ultimately show ?thesis
    using inv by (simp add: resume_def Let_def split: option.split)
qed

lemma cancel_item_tables [simp]: "same_tables s (cancel_item i s)"
  by (auto simp: cancel_item_def intro: same_tables_trans [OF emit_tables(2) notify_tables(1)])

lemma cancel_queue_tables:
  "same_tables ((fst r)\<lparr>sc_queues := AList.delete k (sc_queues (fst r))\<rparr>) (fst (cancel_queue k r))"
  by (auto simp: cancel_queue_def split_def Let_def intro: fold_tables)

lemma cancel_paused_tables:
  "same_tables ((fst r)\<lparr>sc_paused := AList.delete k (sc_paused (fst r))\<rparr>) (fst (cancel_paused k r))"
proof (cases "map_of (sc_paused (fst r)) k")
  case None
  then have "AList.delete k (sc_paused (fst r)) = sc_paused (fst r)" by (simp add: dpop_absent map_of_None_iff)
  with None show ?thesis by (simp add: cancel_paused_def split_def)
qed (simp add: cancel_paused_def split_def)

lemma cancel_queue_inv: "sc_inv (fst r) \<Longrightarrow> sc_inv (fst (cancel_queue k r))"
proof -
  assume "sc_inv (fst r)"
  then have "sc_inv ((fst r)\<lparr>sc_queues := AList.delete k (sc_queues (fst r))\<rparr>)"
    by (auto simp: sc_inv_def queues_inv_def paused_inv_def lease_inv_def split: option.splits if_splits)
  then show ?thesis using same_tables_inv [OF cancel_queue_tables [of k r]] by simp
qed

lemma cancel_paused_inv: "sc_inv (fst r) \<Longrightarrow> sc_inv (fst (cancel_paused k r))"
proof -
  assume "sc_inv (fst r)"
  then have "sc_inv ((fst r)\<lparr>sc_paused := AList.delete k (sc_paused (fst r))\<rparr>)"
    by (auto simp: sc_inv_def queues_inv_def paused_inv_def lease_inv_def split: option.splits if_splits)
  then show ?thesis using same_tables_inv [OF cancel_paused_tables [of k r]] by simp
qed

lemma fold_pair_inv:
  "(\<And>k r. sc_inv (fst r) \<Longrightarrow> sc_inv (fst (f k r))) \<Longrightarrow> sc_inv (fst r) \<Longrightarrow> sc_inv (fst (fold f ks r))"
  by (induction ks arbitrary: r) auto

lemma cancel_inv: "sc_inv s \<Longrightarrow> sc_inv (fst (cancel w s))"
proof -
  assume inv: "sc_inv s"
  have "sc_inv (release u (emit_progress d i (signal_stop j (s\<lparr>sc_lifecycle := lc\<rparr>))))" for u d i j lc
    using inv by (intro release_inv) simp
  then show ?thesis using inv
    unfolding cancel_def Let_def
    by (intro fold_pair_inv) (auto intro: cancel_queue_inv cancel_paused_inv split: option.splits)
qed

lemma submissions_inv [simp]: "sc_inv (s\<lparr>sc_submissions := x\<rparr>) = sc_inv s"
  by (rule same_tables_inv) (simp add: same_tables_def)

lemma sc_step_inv: "sc_inv s \<Longrightarrow> sc_inv (sc_step e s)"
proof (cases e)
  case (ScAdvance acc t i)
  assume inv: "sc_inv s"
  then have "sc_inv (s\<lparr>sc_advance := remove_at i (sc_advance s)\<rparr>)"
    by (auto simp: sc_inv_def queues_inv_def paused_inv_def lease_inv_def remove_at_def split: option.splits)
  then show ?thesis using inv start_next_inv [of "s\<lparr>sc_advance := remove_at i (sc_advance s)\<rparr>" acc t]
    by (auto simp: ScAdvance run_advance_def Let_def split: option.splits) (metis fst_conv option.inject)+
next
  case (ScSubmission i ok)
  assume "sc_inv s"
  then show ?thesis
    by (auto simp: ScSubmission submission_done_def Let_def split: submission.split)
next
  case (ScFailed i)
  assume inv: "sc_inv s"
  have adv: "sc_inv (schedule_queue_advance k u)" if "sc_inv u" for k u
    using that by (auto simp: schedule_queue_advance_def sc_inv_def queues_inv_def paused_inv_def lease_inv_def split: option.splits)
  from inv show ?thesis
    by (auto simp: ScFailed submission_failed_def Let_def intro!: adv release_inv split: submission.split)
next
  case (ScProviderStarted c)
  assume "sc_inv s"
  then show ?thesis
    by (auto simp: ScProviderStarted provider_started_def sc_inv_def queues_inv_def paused_inv_def lease_inv_def
        dest: set_mp [OF set_dset] split: option.splits)
next
  case (ScDiscardNotice k)
  assume inv: "sc_inv s"
  have "sc_inv (fold (emit_progress INTERRUPTED) xs u) = sc_inv u" for xs u
    by (rule same_tables_inv, rule fold_tables) simp
  with discard_inv [OF inv] show ?thesis by (simp add: ScDiscardNotice discard_queued_notice_def split_def)
next
  case (ScDiscardAck k)
  assume inv: "sc_inv s"
  show ?thesis using discard_inv [OF inv, of k "\<lambda>i. si_role i = ROLE_ACK \<and> si_ack_id i = Some k"]
    by (auto simp: ScDiscardAck discard_queued_ack_def split: prod.splits list.splits)
next
  case (ScStart acc t w)
  assume "sc_inv s"
  from start_next_inv [OF this, of acc t w] show ?thesis by (auto simp: ScStart)
qed (auto simp: enqueue_inv interrupt_inv pause_inv resume_inv cancel_inv finished_inv delivery_completed_def
    delivery_unknown_def provider_synthesis_ended_def synthesis_ended_def provider_delivery_completed_def
    provider_delivery_unknown_def Let_def intro!: drop_context_inv split: option.split)

interpretation scheduling: machine sc_step sc_inv
  by unfold_locales (rule sc_step_inv)

lemma init_sc_inv: "sc_inv (init_scheduler ss lc)"
  by (simp add: sc_inv_def queues_inv_def paused_inv_def lease_inv_def init_scheduler_def)

section \<open>What is recorded for an item\<close>

text \<open>Recording a terminal state for an item with the epoch fence open leaves its utterance terminal.\<close>

definition terminal_record :: "session_state \<Rightarrow> string \<Rightarrow> bool" where
  "terminal_record ss u \<longleftrightarrow> (\<exists>p. map_of (ss_speech ss) u = Some p \<and> delivery_terminal (sp_state p))"

lemma terminal_progress_recorded:
  assumes "delivery_terminal (sp_state p)" and "5 < delivery_rank (sp_state p)" and "b \<or> \<not> stale_epoch (sp_origin_epoch p) ss"
  shows "terminal_record (fst (speech_progress_op p b ss)) (sp_utterance_id p)"
proof (cases rule: speech_progress_cases [of p b ss])
  case refused
  then obtain q where q: "map_of (ss_speech ss) (sp_utterance_id p) = Some q"
    "delivery_terminal (sp_state q) \<or> delivery_rank (sp_state p) < delivery_rank (sp_state q)"
    using assms(3) by auto
  have "delivery_terminal (sp_state q)"
  proof (rule ccontr)
    assume n: "\<not> delivery_terminal (sp_state q)"
    then have "delivery_rank (sp_state q) \<le> 5" by (cases "sp_state q") (auto simp: delivery_terminal_def)
    with n q(2) assms(2) show False by simp
  qed
  with q(1) refused(1) show ?thesis by (auto simp: terminal_record_def)
next
  case recorded
  with assms(1) show ?thesis by (auto simp: terminal_record_def record_progress_def)
qed

lemma terminal_record_kept:
  "terminal_record ss u \<Longrightarrow> terminal_record (fst (speech_progress_op p b ss)) u"
  by (cases rule: speech_progress_cases [of p b ss]) (auto simp: terminal_record_def record_progress_def)

lemma emit_terminal:
  assumes "d \<in> {INTERRUPTED, INTERRUPTED_BY_RECONNECT}" and "si_role i \<noteq> ROLE_ACK"
  shows "terminal_record (sc_state (emit_progress_with e True d i s)) (si_utterance_id i)"
  using terminal_progress_recorded [of "progress i d (case e of None \<Rightarrow> si_origin_epoch i | Some e \<Rightarrow> Some e)" True "sc_state s"]
    assms by (auto simp: emit_progress_with_def progress_def delivery_terminal_def)

lemma emit_keeps_terminal:
  "terminal_record (sc_state s) u \<Longrightarrow> terminal_record (sc_state (emit_progress_with e b d i s)) u"
  by (simp add: emit_progress_with_def terminal_record_kept)

lemma notify_state [simp]: "sc_state (notify_ack_swept r i s) = sc_state s" "sc_state (signal_stop i s) = sc_state s"
    "sc_state (release u s) = sc_state s" "sc_state (ack_terminal x r s) = sc_state s"
  by (simp_all add: notify_ack_swept_def signal_stop_def release_def ack_terminal_def split: option.split)

lemma sweep_keeps_terminal: "terminal_record (sc_state s) u \<Longrightarrow> terminal_record (sc_state (sweep_item e d i s)) u"
  by (simp add: sweep_item_def emit_keeps_terminal)

lemma sweep_fold_keeps: "terminal_record (sc_state s) u \<Longrightarrow> terminal_record (sc_state (fold (sweep_item e d) is s)) u"
  by (induction "is" arbitrary: s) (auto simp: sweep_keeps_terminal)

lemma sweep_fold_terminal:
  assumes "d \<in> {INTERRUPTED, INTERRUPTED_BY_RECONNECT}" and "i \<in> set is" and "si_role i \<noteq> ROLE_ACK"
  shows "terminal_record (sc_state (fold (sweep_item e d) is s)) (si_utterance_id i)"
  using assms(2)
proof (induction "is" arbitrary: s)
  case (Cons j "is")
  show ?case
  proof (cases "i = j")
    case True
    have "terminal_record (sc_state (sweep_item e d j s)) (si_utterance_id i)"
      using emit_terminal [OF assms(1,3)] True by (simp add: sweep_item_def)
    then show ?thesis by (simp add: sweep_fold_keeps)
  qed (use Cons in auto)
qed simp

text \<open>The acknowledgements a sweep reports, in order.\<close>

lemma sweep_fold_acks:
  "sc_acks (fold (sweep_item e d) is s) =
     sc_acks s @ map (\<lambda>i. (ack_identity i, CONNECTION_CLOSED)) (filter (\<lambda>i. si_role i = ROLE_ACK) is)"
  by (induction "is" arbitrary: s)
    (auto simp: sweep_item_def notify_ack_swept_def ack_terminal_def emit_progress_with_def)

lemma interrupt_lease_frame:
  "sc_queues (interrupt_lease e b d s) = sc_queues s" "sc_paused (interrupt_lease e b d s) = sc_paused s"
  "sc_acks (interrupt_lease e b d s) = sc_acks s" "sc_active (interrupt_lease e b d s) = None"
  by (auto simp: interrupt_lease_def signal_stop_def emit_progress_with_def release_def Let_def split: option.splits)

lemma interrupt_lease_terminal:
  assumes "d \<in> {INTERRUPTED, INTERRUPTED_BY_RECONNECT}" and "sc_active s = Some l" and "si_role (ul_item l) \<noteq> ROLE_ACK"
  shows "terminal_record (sc_state (interrupt_lease e True d s)) (si_utterance_id (ul_item l))"
  using emit_terminal [OF assms(1,3)] assms(2) by (simp add: interrupt_lease_def Let_def)

lemma interrupt_lease_keeps:
  "terminal_record (sc_state s) u \<Longrightarrow> terminal_record (sc_state (interrupt_lease e b d s)) u"
  by (auto simp: interrupt_lease_def Let_def intro!: emit_keeps_terminal split: option.split)

text \<open>Everything a scheduler is holding.\<close>

definition held_items :: "scheduler \<Rightarrow> speech_item list" where
  "held_items s = (case sc_active s of None \<Rightarrow> [] | Some l \<Rightarrow> [ul_item l]) @
     concat (dvals (sc_queues s)) @ dvals (sc_paused s)"

lemma sweep_all_tables:
  "sc_queues (sweep_all e d s) = []" "sc_paused (sweep_all e d s) = []" "sc_advance (sweep_all e d s) = []"
  "sc_discarded (sweep_all e d s)" "sc_active (sweep_all e d s) = sc_active s"
  "sc_acks (sweep_all e d s) = sc_acks s @ map (\<lambda>i. (ack_identity i, CONNECTION_CLOSED))
     (filter (\<lambda>i. si_role i = ROLE_ACK) (concat (dvals (sc_queues s)) @ dvals (sc_paused s)))"
proof -
  let ?b = "fold (sweep_item e d) (concat (dvals (sc_queues s))) (s\<lparr>sc_discarded := True\<rparr>)"
  let ?c = "?b\<lparr>sc_queues := [], sc_advance := []\<rparr>"
  let ?d = "fold (sweep_item e d) (dvals (sc_paused ?c)) ?c"
  have b: "same_tables (s\<lparr>sc_discarded := True\<rparr>) ?b" by (rule fold_tables) simp
  have d: "same_tables ?c ?d" by (rule fold_tables) simp
  have eq: "sweep_all e d s = ?d\<lparr>sc_paused := []\<rparr>" by (simp add: sweep_all_def Let_def)
  show "sc_queues (sweep_all e d s) = []" "sc_paused (sweep_all e d s) = []" "sc_advance (sweep_all e d s) = []"
    "sc_discarded (sweep_all e d s)" "sc_active (sweep_all e d s) = sc_active s"
    unfolding eq using b d by (simp_all add: same_tables_def)
  show "sc_acks (sweep_all e d s) = sc_acks s @ map (\<lambda>i. (ack_identity i, CONNECTION_CLOSED))
     (filter (\<lambda>i. si_role i = ROLE_ACK) (concat (dvals (sc_queues s)) @ dvals (sc_paused s)))"
    unfolding eq using b by (simp add: sweep_fold_acks same_tables_def)
qed

lemma sweep_all_terminal:
  assumes "d \<in> {INTERRUPTED, INTERRUPTED_BY_RECONNECT}" and "si_role i \<noteq> ROLE_ACK"
    and "i \<in> set (concat (dvals (sc_queues s)) @ dvals (sc_paused s)) \<or> terminal_record (sc_state s) (si_utterance_id i)"
  shows "terminal_record (sc_state (sweep_all e d s)) (si_utterance_id i)"
proof -
  let ?b = "fold (sweep_item e d) (concat (dvals (sc_queues s))) (s\<lparr>sc_discarded := True\<rparr>)"
  let ?c = "?b\<lparr>sc_queues := [], sc_advance := []\<rparr>"
  have "same_tables (s\<lparr>sc_discarded := True\<rparr>) ?b" by (rule fold_tables) simp
  then have pb: "sc_paused ?c = sc_paused s" by (simp add: same_tables_def)
  have eq: "sc_state (sweep_all e d s) = sc_state (fold (sweep_item e d) (dvals (sc_paused s)) ?c)"
    using pb by (simp add: sweep_all_def Let_def)
  have "i \<in> set (dvals (sc_paused s)) \<or> terminal_record (sc_state ?c) (si_utterance_id i)"
  proof -
    consider "i \<in> set (concat (dvals (sc_queues s)))" | "i \<in> set (dvals (sc_paused s))"
      | "terminal_record (sc_state (s\<lparr>sc_discarded := True\<rparr>)) (si_utterance_id i)" using assms(3) by force
    then show ?thesis
    proof cases
      case 1
      from sweep_fold_terminal [OF assms(1) this assms(2), of e "s\<lparr>sc_discarded := True\<rparr>"] show ?thesis by simp
    next
      case 3
      from sweep_fold_keeps [OF this] show ?thesis by simp
    qed simp
  qed
  then show ?thesis unfolding eq using sweep_fold_terminal [OF assms(1) _ assms(2)] sweep_fold_keeps by blast
qed

section \<open>Acknowledgements\<close>

text \<open>Everything the scheduler knows of is an acknowledgement.\<close>

definition is_ack :: "speech_item \<Rightarrow> bool" where
  "is_ack i \<longleftrightarrow> si_role i = ROLE_ACK"

fun submitted_item :: "submission \<Rightarrow> speech_item" where
  "submitted_item (Speaking i t) = i"
| "submitted_item (Failing i t) = i"

definition acks_only :: "scheduler \<Rightarrow> bool" where
  "acks_only s \<longleftrightarrow> (\<forall>k. \<forall>i \<in> set (queue_of s k). is_ack i) \<and> (\<forall>k i. map_of (sc_paused s) k = Some i \<longrightarrow> is_ack i) \<and>
     (\<forall>l. sc_active s = Some l \<longrightarrow> is_ack (ul_item l)) \<and> (\<forall>x \<in> set (sc_submissions s). is_ack (submitted_item x))"

lemma ack_emit [simp]:
  "is_ack i \<Longrightarrow> emit_progress_with e b d i s = s" "is_ack i \<Longrightarrow> emit_progress d i s = s"
  by (simp_all add: emit_progress_with_def emit_progress_def is_ack_def)

text \<open>A step that only shrinks what is held, and leaves the session alone.\<close>

definition quiet_step :: "scheduler \<Rightarrow> scheduler \<Rightarrow> bool" where
  "quiet_step s t \<longleftrightarrow> (acks_only s \<longrightarrow> acks_only t \<and> sc_state t = sc_state s)"

lemma quiet_refl [simp]: "quiet_step s s"
  by (simp add: quiet_step_def)

lemma quiet_trans: "quiet_step s t \<Longrightarrow> quiet_step t u \<Longrightarrow> quiet_step s u"
  by (simp add: quiet_step_def)

lemma quiet_tables:
  "same_tables s t \<Longrightarrow> sc_submissions t = sc_submissions s \<Longrightarrow> sc_state t = sc_state s \<Longrightarrow> quiet_step s t"
  by (simp add: quiet_step_def acks_only_def same_tables_queue) (simp add: same_tables_def)

lemma quiet_lifecycle [simp]: "quiet_step s (s\<lparr>sc_lifecycle := lc\<rparr>)" "quiet_step s (signal_stop i s)"
    "quiet_step s (notify_ack_swept r i s)" "quiet_step s (ack_terminal x r s)"
  by (rule quiet_tables; simp add: same_tables_def signal_stop_def notify_ack_swept_def ack_terminal_def)+

lemma quiet_release: "quiet_step s (release u s)"
  by (auto simp: quiet_step_def acks_only_def release_def queue_of_def split: option.splits)

lemma quiet_emit: "(acks_only s \<Longrightarrow> is_ack i) \<Longrightarrow> quiet_step s (emit_progress_with e b d i s)"
    "(acks_only s \<Longrightarrow> is_ack i) \<Longrightarrow> quiet_step s (emit_progress d i s)"
  by (auto simp: quiet_step_def)

lemma quiet_shrink:
  assumes "set q \<subseteq> set (queue_of s k)"
  shows "quiet_step s (set_queue k q s)"
  using assms by (auto simp: quiet_step_def acks_only_def queue_set_queue)

lemma quiet_fold:
  assumes "\<And>i s. i \<in> set is \<Longrightarrow> is_ack i \<Longrightarrow> quiet_step s (f i s)" and "acks_only s" and "\<forall>i \<in> set is. is_ack i"
  shows "acks_only (fold f is s) \<and> sc_state (fold f is s) = sc_state s"
  using assms
proof (induction "is" arbitrary: s)
  case (Cons i "is")
  have "quiet_step s (f i s)" using Cons.prems by simp
  then have "acks_only (f i s)" "sc_state (f i s) = sc_state s" using Cons.prems(2) by (auto simp: quiet_step_def)
  with Cons show ?case by simp
qed simp

lemma active_ack: "acks_only s \<Longrightarrow> sc_active s = Some l \<Longrightarrow> is_ack (ul_item l)"
  by (simp add: acks_only_def)

lemma quiet_finished: "quiet_step s (delivery_finished d disp u s)"
proof (cases "active_item u s")
  case (Some i)
  then obtain l where l: "sc_active s = Some l" "ul_item l = i" by (auto simp: active_item_def split: option.splits if_splits)
  have e: "quiet_step s (emit_progress d i s)" by (rule quiet_emit) (use l active_ack in blast)
  show ?thesis
    using l by (auto simp: delivery_finished_def Some Let_def intro!: quiet_trans [OF e] quiet_trans [OF quiet_lifecycle(1) quiet_release])
qed (simp add: delivery_finished_def)

lemma quiet_lease: "quiet_step s (interrupt_lease e b d s)"
proof (cases "sc_active s")
  case (Some l)
  let ?a = "signal_stop (ul_item l) (s\<lparr>sc_lifecycle := record_interruption (ul_token l) False (sc_lifecycle s)\<rparr>)"
  have a: "quiet_step s ?a" by (rule quiet_trans [OF quiet_lifecycle(1,2)])
  have "quiet_step ?a (emit_progress_with e b d (ul_item l) ?a)"
    by (rule quiet_emit) (use Some in \<open>auto simp: acks_only_def signal_stop_def\<close>)
  from quiet_trans [OF quiet_trans [OF a this] quiet_release] show ?thesis
    by (simp add: interrupt_lease_def Some Let_def)
qed (simp add: interrupt_lease_def)

lemma quiet_enqueue: "is_ack i \<Longrightarrow> quiet_step s (fst (enqueue i s))"
proof (cases "enqueue i s")
  case (Pair t r)
  assume a: "is_ack i"
  show ?thesis
  proof (cases r)
    case (Inl e)
    then have "t = s" using Pair by (auto simp: enqueue_def Let_def split: if_splits sum.splits)
    then show ?thesis using Pair by simp
  next
    case (Inr j)
    have "is_ack j" using enqueue_result [OF Pair [unfolded Inr]] a by (simp add: is_ack_def)
    moreover have "t = s\<lparr>sc_queues := AList.update (si_work_item_id j) (queue_of s (si_work_item_id j) @ [j]) (sc_queues s)\<rparr>"
      using Pair Inr \<open>is_ack j\<close> by (auto simp: enqueue_def Let_def split: if_splits sum.splits)
    ultimately show ?thesis using Pair by (auto simp: quiet_step_def acks_only_def queue_of_def split: option.splits)
  qed
qed

lemma quiet_start:
  assumes inv: "sc_inv s" and st: "start_next acc t w s = Some (u, r)"
  shows "quiet_step s u"
proof (cases rule: start_next_cases [OF inv, of acc t w])
  case 1
  with st show ?thesis by simp
next
  have spec: "quiet_step s v" if "scan_spec t s v x" for v x
  proof -
    have "set (queue_of v k) \<subseteq> set (queue_of s k)" for k using that set_mono_suffix by (auto simp: scan_spec_def)
    with that show ?thesis by (auto simp: quiet_step_def acks_only_def scan_spec_def is_ack_def) blast
  qed
  {
    case (2 v x)
    with st spec show ?thesis by auto
  next
    case (3 v item g)
    obtain rest where q: "queue_of v (si_work_item_id item) = item # rest" using 3(2) by (auto simp: scan_spec_def)
    have ack: "acks_only v \<Longrightarrow> is_ack item" using q by (metis acks_only_def list.set_intros(1))
    have "quiet_step v (take_lease item g v)"
    proof (unfold quiet_step_def, intro impI)
      assume a: "acks_only v"
      have "acks_only (set_queue (si_work_item_id item) rest v)"
        using quiet_shrink [of rest v "si_work_item_id item"] a q by (auto simp: quiet_step_def)
      then show "acks_only (take_lease item g v) \<and> sc_state (take_lease item g v) = sc_state v"
        using ack [OF a] q by (auto simp: take_lease_def Let_def acks_only_def queue_of_def)
    qed
    with spec [OF 3(2)] 3(1) st show ?thesis by (auto intro: quiet_trans)
  }
qed

text \<open>The operations that bring only acknowledgements in.\<close>

fun ack_op :: "sc_op \<Rightarrow> bool" where
  "ack_op (ScEnqueue i) \<longleftrightarrow> is_ack i"
| "ack_op (ScResume u (ResumeItem i)) \<longleftrightarrow> is_ack i"
| "ack_op _ \<longleftrightarrow> True"

lemma quiet_sweep: "is_ack i \<Longrightarrow> quiet_step s (sweep_item e d i s)" "is_ack i \<Longrightarrow> quiet_step s (cancel_item i s)"
  by (simp_all add: sweep_item_def cancel_item_def)

lemma queue_of_concat: "wf_dict (sc_queues s) \<Longrightarrow> i \<in> set (concat (dvals (sc_queues s))) \<Longrightarrow> \<exists>k. i \<in> set (queue_of s k)"
proof -
  assume wf: "wf_dict (sc_queues s)" and "i \<in> set (concat (dvals (sc_queues s)))"
  then obtain k q where "(k, q) \<in> set (sc_queues s)" "i \<in> set q" by auto
  with wf show ?thesis by (intro exI [of _ k]) (simp add: queue_of_def wf_dict_map_of)
qed

lemma quiet_sweep_all:
  assumes inv: "sc_inv s"
  shows "quiet_step s (sweep_all e d s)"
proof (unfold quiet_step_def, intro impI)
  assume a: "acks_only s"
  let ?s = "s\<lparr>sc_discarded := True\<rparr>" and ?qs = "concat (dvals (sc_queues s))"
  let ?b = "fold (sweep_item e d) ?qs ?s"
  let ?c = "?b\<lparr>sc_queues := [], sc_advance := []\<rparr>"
  have as: "acks_only ?s" using a by (simp add: acks_only_def queue_of_def)
  have "\<forall>i \<in> set ?qs. is_ack i"
    using queue_of_concat [of s] inv a by (auto simp: sc_inv_def queues_inv_def acks_only_def simp del: set_concat)
  from quiet_fold [OF quiet_sweep(1) as this] have b: "acks_only ?b" "sc_state ?b = sc_state s" by auto
  have "same_tables ?s ?b" by (rule fold_tables) simp
  then have p: "sc_paused ?c = sc_paused s" by (simp add: same_tables_def)
  have c: "acks_only ?c" using b(1) by (simp add: acks_only_def queue_of_def)
  have "\<forall>i \<in> set (dvals (sc_paused s)). is_ack i"
    using a inv by (auto simp: acks_only_def sc_inv_def paused_inv_def wf_dict_map_of)
  from quiet_fold [OF quiet_sweep(1) c this] have f: "acks_only (fold (sweep_item e d) (dvals (sc_paused s)) ?c)"
    "sc_state (fold (sweep_item e d) (dvals (sc_paused s)) ?c) = sc_state s" using b(2) by auto
  have "sweep_all e d s = (fold (sweep_item e d) (dvals (sc_paused s)) ?c)\<lparr>sc_paused := []\<rparr>"
    using p by (simp add: sweep_all_def Let_def)
  with f show "acks_only (sweep_all e d s) \<and> sc_state (sweep_all e d s) = sc_state s"
    by (simp add: acks_only_def queue_of_def)
qed

lemma quiet_cancel_queue:
  assumes "acks_only (fst r)"
  shows "acks_only (fst (cancel_queue k r)) \<and> sc_state (fst (cancel_queue k r)) = sc_state (fst r)"
proof -
  let ?s = "(fst r)\<lparr>sc_queues := AList.delete k (sc_queues (fst r))\<rparr>"
  have s: "acks_only ?s" using assms by (auto simp: acks_only_def queue_of_def)
  have "\<forall>i \<in> set (queue_of (fst r) k). is_ack i" using assms by (simp add: acks_only_def)
  from quiet_fold [OF quiet_sweep(2) s this] show ?thesis by (simp add: cancel_queue_def split_def Let_def)
qed

lemma quiet_cancel_paused:
  assumes "acks_only (fst r)"
  shows "acks_only (fst (cancel_paused k r)) \<and> sc_state (fst (cancel_paused k r)) = sc_state (fst r)"
proof (cases "map_of (sc_paused (fst r)) k")
  case (Some i)
  let ?s = "(fst r)\<lparr>sc_paused := AList.delete k (sc_paused (fst r))\<rparr>"
  have s: "acks_only ?s" using assms by (auto simp: acks_only_def queue_of_def split: if_splits)
  have "is_ack i" using assms Some by (auto simp: acks_only_def)
  from quiet_sweep(2) [OF this, of ?s] s Some show ?thesis
    by (simp add: cancel_paused_def split_def Let_def quiet_step_def)
qed (use assms in \<open>simp add: cancel_paused_def split_def\<close>)

lemma quiet_fold_pair:
  assumes "\<And>k r. acks_only (fst r) \<Longrightarrow> acks_only (fst (f k r)) \<and> sc_state (fst (f k r)) = sc_state (fst r)"
    and "acks_only (fst r)"
  shows "acks_only (fst (fold f ks r)) \<and> sc_state (fst (fold f ks r)) = sc_state (fst r)"
  using assms(2)
proof (induction ks arbitrary: r)
  case (Cons k ks)
  from assms(1) [OF Cons.prems] Cons.IH [of "f k r"] show ?case by simp
qed simp

definition stop_lease :: "string option \<Rightarrow> scheduler \<Rightarrow> scheduler \<times> speech_item list" where
  "stop_lease w s = (case sc_active s of None \<Rightarrow> (s, []) | Some l \<Rightarrow>
       if w = None \<or> w = Some (si_work_item_id (ul_item l))
       then (interrupt_lease None False INTERRUPTED s, [ul_item l]) else (s, []))"

lemma cancel_eq:
  "cancel w s =
     (let r = fold cancel_queue (case w of Some k \<Rightarrow> [k] | None \<Rightarrow> dkeys (sc_queues (fst (stop_lease w s)))) (stop_lease w s)
      in fold cancel_paused (case w of Some k \<Rightarrow> [k] | None \<Rightarrow> dkeys (sc_paused (fst r))) r)"
  by (simp add: cancel_def stop_lease_def interrupt_lease_def emit_progress_def Let_def cong: option.case_cong split: option.split)

lemma quiet_cancel: "quiet_step s (fst (cancel w s))"
proof (unfold quiet_step_def, intro impI)
  assume a: "acks_only s"
  have l: "acks_only (fst (stop_lease w s))" "sc_state (fst (stop_lease w s)) = sc_state s"
    using a quiet_lease [of s None False INTERRUPTED] by (auto simp: stop_lease_def quiet_step_def split: option.split)
  have q: "acks_only (fst (fold cancel_queue ks (stop_lease w s))) \<and>
      sc_state (fst (fold cancel_queue ks (stop_lease w s))) = sc_state s" for ks
    using quiet_fold_pair [where f = cancel_queue, OF quiet_cancel_queue l(1)] l(2) by simp
  have "acks_only (fst (fold cancel_paused js (fold cancel_queue ks (stop_lease w s)))) \<and>
      sc_state (fst (fold cancel_paused js (fold cancel_queue ks (stop_lease w s)))) = sc_state s" for js ks
    using quiet_fold_pair [where f = cancel_paused, OF quiet_cancel_paused, of "fold cancel_queue ks (stop_lease w s)" js]
      q [of ks] by simp
  then show "acks_only (fst (cancel w s)) \<and> sc_state (fst (cancel w s)) = sc_state s"
    unfolding cancel_eq Let_def by blast
qed

lemma quiet_pause: "quiet_step s (pause k s)"
proof (cases "sc_active s")
  case (Some l)
  let ?a = "signal_stop (ul_item l) (s\<lparr>sc_lifecycle := record_interruption (ul_token l) True (sc_lifecycle s),
     sc_paused := AList.update k (ul_item l) (sc_paused s)\<rparr>)"
  have a: "quiet_step s ?a"
    using Some by (auto simp: quiet_step_def acks_only_def signal_stop_def queue_of_def)
  have "quiet_step ?a (emit_progress PAUSED (ul_item l) ?a)"
    by (rule quiet_emit) (use Some in \<open>auto simp: acks_only_def signal_stop_def\<close>)
  from quiet_trans [OF quiet_trans [OF a this] quiet_release] show ?thesis
    by (auto simp: pause_def Some Let_def)
qed (simp add: pause_def)

lemma quiet_resume:
  assumes inv: "sc_inv s" and ok: "ack_op (ScResume u t)"
  shows "quiet_step s (fst (resume u t s))"
proof (unfold quiet_step_def, intro impI)
  assume a: "acks_only s"
  define key where "key = (case t of ResumeLatest \<Rightarrow> None | ResumeKey k \<Rightarrow> Some k | ResumeItem i \<Rightarrow> Some (si_work_item_id i))"
  define chosen where "chosen = (case paused key s of Some i \<Rightarrow> Some i
      | None \<Rightarrow> (case t of ResumeItem i \<Rightarrow> Some i | _ \<Rightarrow> None))"
  have stored: "paused key s = Some i \<Longrightarrow> is_ack i" for i
  proof -
    assume p: "paused key s = Some i"
    then have "\<exists>k. (k, i) \<in> set (sc_paused s)"
      by (auto simp: paused_def split: option.splits if_splits dest: map_of_SomeD) (metis last_in_set prod.collapse)
    then show ?thesis using a inv by (auto simp: acks_only_def sc_inv_def paused_inv_def wf_dict_map_of)
  qed
  show "acks_only (fst (resume u t s)) \<and> sc_state (fst (resume u t s)) = sc_state s"
  proof (cases chosen)
    case None
    then have "fst (resume u t s) = s" by (simp add: resume_def chosen_def key_def Let_def split: option.splits)
    with a show ?thesis by simp
  next
    case (Some i)
    then have ack: "is_ack i" using stored ok
      by (auto simp: chosen_def split: option.splits resume_target.splits)
    let ?s = "if map_of (sc_paused s) (si_work_item_id i) = Some i
        then s\<lparr>sc_paused := AList.delete (si_work_item_id i) (sc_paused s)\<rparr> else s"
    have "fst (resume u t s) = ack_terminal (ack_identity i) UNAVAILABLE_TRANSPORT ?s"
      using Some ack unfolding resume_def Let_def chosen_def key_def by (simp add: is_ack_def)
    moreover have "acks_only ?s" "sc_state ?s = sc_state s"
      using a by (auto simp: acks_only_def queue_of_def split: if_splits)
    ultimately show ?thesis using quiet_lifecycle(4) by (auto simp: quiet_step_def)
  qed
qed

lemma quiet_sc_step:
  assumes inv: "sc_inv s" and ok: "ack_op e"
  shows "quiet_step s (sc_step e s)"
proof (cases e)
  case (ScStart acc t w)
  then show ?thesis using start_next_inv [OF inv, of acc t w] quiet_start [OF inv, of acc t w] by auto
next
  case (ScAdvance acc t i)
  let ?s = "s\<lparr>sc_advance := remove_at i (sc_advance s)\<rparr>"
  have inv': "sc_inv ?s"
    using inv by (auto simp: sc_inv_def queues_inv_def paused_inv_def lease_inv_def remove_at_def split: option.splits)
  have "quiet_step s ?s" by (simp add: quiet_step_def acks_only_def queue_of_def)
  moreover have "start_next acc t w ?s = Some (v, r) \<Longrightarrow> quiet_step ?s v" for w v r
    using quiet_start [OF inv'] by blast
  ultimately show ?thesis
    by (auto simp: ScAdvance run_advance_def Let_def intro: quiet_trans split: option.splits)
next
  case (ScSubmission i ok')
  show ?thesis
  proof (cases "i < length (sc_submissions s)")
    case True
    have mem: "sc_submissions s ! i \<in> set (sc_submissions s)" using True by simp
    have sub: "x \<in> set ((sc_submissions s)[i := Failing j k]) \<Longrightarrow> x \<in> set (sc_submissions s) \<or> x = Failing j k" for x j k
      using set_update_subset_insert by fastforce
    show ?thesis
    proof (cases "sc_submissions s ! i")
      case (Speaking item token)
      show ?thesis
      proof (unfold quiet_step_def, intro impI)
        assume a: "acks_only s"
        have ack: "is_ack item" using a mem Speaking by (metis acks_only_def submitted_item.simps(1))
        show "acks_only (sc_step e s) \<and> sc_state (sc_step e s) = sc_state s"
          using a ack remove_at_subset [of i "sc_submissions s"]
          by (auto simp: ScSubmission submission_done_def Speaking True Let_def acks_only_def queue_of_def dest!: sub)
      qed
    qed (simp add: ScSubmission submission_done_def True)
  qed (simp add: ScSubmission submission_done_def)
next
  case (ScFailed i)
  have adv: "quiet_step u (schedule_queue_advance k u)" for k u
    by (simp add: schedule_queue_advance_def quiet_step_def acks_only_def queue_of_def)
  have rem: "quiet_step s (s\<lparr>sc_submissions := remove_at i (sc_submissions s), sc_lifecycle := lc\<rparr>)" for lc
    using remove_at_subset [of i "sc_submissions s"] by (auto simp: quiet_step_def acks_only_def queue_of_def)
  show ?thesis
    by (auto simp: ScFailed submission_failed_def Let_def intro: quiet_trans [OF rem quiet_trans [OF quiet_release adv]]
        split: submission.split)
next
  case (ScDiscardNotice k)
  have "\<not> is_ack i" if "si_role i = ROLE_TIMEOUT_NOTICE" for i using that by (simp add: is_ack_def)
  then have "acks_only s \<Longrightarrow> filter (\<lambda>i. si_role i = ROLE_TIMEOUT_NOTICE) (queue_of s k) = []"
    by (auto simp: acks_only_def filter_empty_conv is_ack_def)
  then show ?thesis
    by (auto simp: ScDiscardNotice discard_queued_notice_def discard_queued_def Let_def quiet_step_def)
next
  case (ScDiscardAck k)
  have "quiet_step s (fst (discard_queued k m s))" for m
    by (auto simp: discard_queued_def Let_def intro!: quiet_shrink)
  from this [of "\<lambda>i. si_role i = ROLE_ACK \<and> si_ack_id i = Some k"] show ?thesis
    by (auto simp: ScDiscardAck discard_queued_ack_def split: prod.splits list.splits)
next
  case (ScProviderStarted c)
  show ?thesis
    by (auto simp: ScProviderStarted provider_started_def quiet_step_def acks_only_def queue_of_def split: option.split)
next
  case (ScInterrupt oe r f)
  have "quiet_step s (sweep_all a d (interrupt_lease b c d' s))" for a b c d d'
    by (rule quiet_trans [OF quiet_lease quiet_sweep_all [OF interrupt_lease_inv [OF inv]]])
  then show ?thesis by (simp add: ScInterrupt interrupt_def Let_def quiet_lease)
next
  case (ScResume u t)
  with quiet_resume [OF inv] ok show ?thesis by simp
next
  case (ScProviderSynthesisEnded c)
  have "quiet_step s (synthesis_ended v s)" for v
    by (auto simp: synthesis_ended_def active_item_def intro!: quiet_emit dest: active_ack split: option.splits if_splits)
  then show ?thesis by (auto simp: ScProviderSynthesisEnded provider_synthesis_ended_def split: option.split)
next
  case (ScProviderCompleted c)
  have "quiet_step u (u\<lparr>sc_provider_contexts := x\<rparr>)" for u x
    by (simp add: quiet_step_def acks_only_def queue_of_def)
  then show ?thesis
    by (auto simp: ScProviderCompleted provider_delivery_completed_def delivery_completed_def Let_def
        intro: quiet_trans [OF quiet_finished] split: option.split)
next
  case (ScProviderUnknown c)
  have "quiet_step u (u\<lparr>sc_provider_contexts := x\<rparr>)" for u x
    by (simp add: quiet_step_def acks_only_def queue_of_def)
  then show ?thesis
    by (auto simp: ScProviderUnknown provider_delivery_unknown_def delivery_unknown_def Let_def
        intro: quiet_trans [OF quiet_finished] split: option.split)
qed (use ok in \<open>auto simp: quiet_enqueue quiet_finished delivery_completed_def delivery_unknown_def quiet_pause quiet_cancel\<close>)

section \<open>Properties\<close>


text \<open>
  C12. A discarded scheduler leaves nothing behind. After any operations, an interrupt for a
  reconnect or a full stop empties every queue, the paused set, the deferred advances and the lease;
  every result it was holding has a terminal speech record, whatever epoch is active, and every
  queued or paused acknowledgement is reported exactly once as lost with the connection.
\<close>

theorem discard_leaves_nothing_behind:
  assumes "reconnect \<or> full_stop"
  shows "let s = fold sc_step ops (init_scheduler ss lc); t = fst (interrupt override reconnect full_stop s) in
     held_items t = [] \<and> sc_advance t = [] \<and> sc_discarded t \<and>
     list_all (\<lambda>i. si_role i = ROLE_ACK \<or> terminal_record (sc_state t) (si_utterance_id i)) (held_items s) \<and>
     sc_acks t = sc_acks s @ map (\<lambda>i. (ack_identity i, CONNECTION_CLOSED))
       (filter (\<lambda>i. si_role i = ROLE_ACK) (concat (dvals (sc_queues s)) @ dvals (sc_paused s)))"
proof -
  define s where "s = fold sc_step ops (init_scheduler ss lc)"
  define d where "d = (if reconnect then INTERRUPTED_BY_RECONNECT else INTERRUPTED)"
  let ?a = "interrupt_lease override True d s" and ?t = "sweep_all override d (interrupt_lease override True d s)"
  have d: "d \<in> {INTERRUPTED, INTERRUPTED_BY_RECONNECT}" by (simp add: d_def)
  have t: "fst (interrupt override reconnect full_stop s) = ?t"
    using assms by (auto simp: interrupt_def d_def Let_def)
  have "si_role i = ROLE_ACK \<or> terminal_record (sc_state ?t) (si_utterance_id i)" if "i \<in> set (held_items s)" for i
  proof (cases "si_role i = ROLE_ACK")
    case False
    have "i \<in> set (concat (dvals (sc_queues ?a)) @ dvals (sc_paused ?a)) \<or> terminal_record (sc_state ?a) (si_utterance_id i)"
      using that False interrupt_lease_terminal [OF d, of s _ override]
      by (cases "sc_active s") (auto simp: held_items_def interrupt_lease_frame)
    from sweep_all_terminal [OF d False this] show ?thesis by blast
  qed simp
  moreover have "held_items ?t = []"
    by (simp add: held_items_def sweep_all_tables interrupt_lease_frame)
  ultimately show ?thesis
    unfolding Let_def s_def [symmetric] t
    by (simp add: sweep_all_tables interrupt_lease_frame list_all_iff)
qed

definition demo_item :: "speech_role \<Rightarrow> string \<Rightarrow> speech_item" where
  "demo_item r u = \<lparr>si_result_id = (if r = ROLE_ACK then None else Some ''r''), si_work_item_id = ''w'', si_run_id = ''run'',
     si_text = ''hi'', si_utterance_id = u, si_origin_epoch = Some 1, si_role = r, si_ack_id = None, si_turn_id = None\<rparr>"

lemma discard_leaves_nothing_behind_witness:
  "held_items (fst (interrupt None True False (fold sc_step [ScEnqueue (demo_item ROLE_RESULT ''u'')]
     (init_scheduler (init_session ''s'' ''t'') (init_lifecycle 0 10 1 256 True))))) = []"
  using discard_leaves_nothing_behind [of True False "[ScEnqueue (demo_item ROLE_RESULT ''u'')]"
      "init_session ''s'' ''t''" "init_lifecycle 0 10 1 256 True" None] unfolding Let_def by blast


text \<open>
  Acknowledgements are invisible on the wire: when everything a scheduler is given is an
  acknowledgement, no sequence of its operations (admission, provider events, failures, pause,
  resume, cancel, interrupt, with any lifecycle events in between) changes the session state at all.
\<close>

theorem acks_are_invisible:
  assumes "list_all ack_op ops"
  shows "sc_state (fold sc_step ops (init_scheduler ss lc)) = ss"
proof -
  have "acks_only s \<Longrightarrow> sc_inv s \<Longrightarrow> list_all ack_op ops \<Longrightarrow> sc_state (fold sc_step ops s) = sc_state s" for s
  proof (induction ops arbitrary: s)
    case (Cons e ops)
    then have "quiet_step s (sc_step e s)" by (simp add: quiet_sc_step)
    with Cons show ?case by (simp add: quiet_step_def sc_step_inv)
  qed simp
  from this [of "init_scheduler ss lc"] assms show ?thesis
    by (simp add: init_sc_inv) (simp add: acks_only_def init_scheduler_def queue_of_def)
qed

lemma acks_are_invisible_witness:
  "sc_state (fold sc_step [ScEnqueue (demo_item ROLE_ACK ''u''), ScStart None ''a'' None, ScCompleted ''u'']
     (init_scheduler (init_session ''s'' ''t'') (init_lifecycle 0 10 1 256 True))) = init_session ''s'' ''t''"
  by (rule acks_are_invisible) (simp add: demo_item_def is_ack_def)

lemma cancel_effect:
  "sc_queues (fst (cancel (Some k) s)) = AList.delete k (sc_queues s)"
  "sc_paused (fst (cancel (Some k) s)) = AList.delete k (sc_paused s)"
  "case sc_active s of
     None \<Rightarrow> sc_active (fst (cancel (Some k) s)) = None
   | Some l \<Rightarrow> if si_work_item_id (ul_item l) = k then sc_active (fst (cancel (Some k) s)) = None
               else sc_active (fst (cancel (Some k) s)) = Some l \<and>
                    sc_lifecycle (fst (cancel (Some k) s)) = sc_lifecycle s"
  "snd (cancel (Some k) s) =
     filter (\<lambda>i. si_work_item_id i = k) (case sc_active s of None \<Rightarrow> [] | Some l \<Rightarrow> [ul_item l]) @
       queue_of s k @ (case map_of (sc_paused s) k of None \<Rightarrow> [] | Some i \<Rightarrow> [i])"
proof -
  define r where "r = stop_lease (Some k) s"
  define q where "q = cancel_queue k r"
  define t where "t = cancel_paused k q"
  have c: "cancel (Some k) s = t" by (simp add: cancel_eq t_def q_def r_def)
  have rt: "sc_queues (fst r) = sc_queues s" "sc_paused (fst r) = sc_paused s"
    by (auto simp: r_def stop_lease_def interrupt_lease_frame split: option.split)
  have qt: "same_tables ((fst r)\<lparr>sc_queues := AList.delete k (sc_queues (fst r))\<rparr>) (fst q)"
    unfolding q_def by (rule cancel_queue_tables)
  have tt: "same_tables ((fst q)\<lparr>sc_paused := AList.delete k (sc_paused (fst q))\<rparr>) (fst t)"
    unfolding t_def by (rule cancel_paused_tables)
  have lif: "sc_lifecycle (fold cancel_item xs u) = sc_lifecycle u" for xs u
    by (induction xs arbitrary: u) (simp_all add: cancel_item_def)
  have l1: "sc_lifecycle (fst q) = sc_lifecycle (fst r)"
    by (simp add: q_def cancel_queue_def split_def Let_def lif)
  have l2: "sc_lifecycle (fst t) = sc_lifecycle (fst q)"
    by (auto simp: t_def cancel_paused_def split_def cancel_item_def split: option.split)
  have items: "snd t = snd r @ queue_of s k @ (case map_of (sc_paused s) k of None \<Rightarrow> [] | Some i \<Rightarrow> [i])"
    using qt rt by (auto simp: t_def q_def cancel_paused_def cancel_queue_def split_def Let_def same_tables_def
        queue_of_def split: option.split)
  have act: "sc_active (fst t) = sc_active (fst r)" using qt tt by (simp add: same_tables_def)
  show "sc_queues (fst (cancel (Some k) s)) = AList.delete k (sc_queues s)"
    "sc_paused (fst (cancel (Some k) s)) = AList.delete k (sc_paused s)"
    using qt tt rt by (simp_all add: c same_tables_def)
  show "case sc_active s of
     None \<Rightarrow> sc_active (fst (cancel (Some k) s)) = None
   | Some l \<Rightarrow> if si_work_item_id (ul_item l) = k then sc_active (fst (cancel (Some k) s)) = None
               else sc_active (fst (cancel (Some k) s)) = Some l \<and>
                    sc_lifecycle (fst (cancel (Some k) s)) = sc_lifecycle s"
    unfolding c act l1 l2 by (auto simp: r_def stop_lease_def interrupt_lease_frame split: option.split)
  show "snd (cancel (Some k) s) =
     filter (\<lambda>i. si_work_item_id i = k) (case sc_active s of None \<Rightarrow> [] | Some l \<Rightarrow> [ul_item l]) @
       queue_of s k @ (case map_of (sc_paused s) k of None \<Rightarrow> [] | Some i \<Rightarrow> [i])"
    unfolding c items by (auto simp: r_def stop_lease_def split: option.split)
qed

text \<open>
  Cancelling one work item is confined to it: its queue, its paused item and its lease are gone
  and returned to the caller, in that order of active, queued and paused, while every other work
  item keeps its queue, its paused item and, when it holds the lease, its lease and generation.
\<close>

theorem cancel_is_confined:
  "let (t, cancelled) = cancel (Some k) s in
     queue_of t k = [] \<and> map_of (sc_paused t) k = None \<and>
     (\<forall>k'. k' \<noteq> k \<longrightarrow> queue_of t k' = queue_of s k' \<and> map_of (sc_paused t) k' = map_of (sc_paused s) k') \<and>
     (case sc_active s of
        None \<Rightarrow> sc_active t = None
      | Some l \<Rightarrow> if si_work_item_id (ul_item l) = k then sc_active t = None
                  else sc_active t = Some l \<and> sc_lifecycle t = sc_lifecycle s) \<and>
     cancelled = filter (\<lambda>i. si_work_item_id i = k) (case sc_active s of None \<Rightarrow> [] | Some l \<Rightarrow> [ul_item l]) @
       queue_of s k @ (case map_of (sc_paused s) k of None \<Rightarrow> [] | Some i \<Rightarrow> [i])"
  using cancel_effect(3) [where s = s and k = k] unfolding Let_def split_def cancel_effect(4)
  by (auto simp: queue_of_def cancel_effect(1,2))

lemma cancel_is_confined_witness:
  "let s = fold sc_step [ScEnqueue (demo_item ROLE_RESULT ''u'')]
        (init_scheduler (init_session ''s'' ''t'') (init_lifecycle 0 10 1 256 True))
   in queue_of (fst (cancel (Some ''w'') s)) ''w'' = []"
  using cancel_is_confined [of "''w''"] by (simp add: Let_def split_def)

text \<open>
  Provider events are attributed to the active lease only: after any operations, a completion
  reported for a context is accepted only when the context is the utterance of the active lease and
  was bound to it; it then releases the lease and its context, records the completion, and frees
  the generation of the lease. Otherwise it changes nothing.
\<close>

theorem provider_completion_is_attributed:
  "let s = fold sc_step ops (init_scheduler ss lc); (t, accepted) = provider_delivery_completed c s in
     (\<not> accepted \<longrightarrow> t = s) \<and>
     (accepted \<longrightarrow> (\<exists>l. sc_active s = Some l \<and> c = si_utterance_id (ul_item l) \<and>
        sc_active t = None \<and> sc_provider_contexts t = [] \<and>
        sc_lifecycle t = release_generation (ul_token l) True D_DELIVERY_COMPLETED (sc_lifecycle s) \<and>
        sc_state t = sc_state (emit_progress DELIVERY_COMPLETED (ul_item l) s) \<and>
        sc_queues t = sc_queues s))"
proof -
  define s where "s = fold sc_step ops (init_scheduler ss lc)"
  have inv: "lease_inv s" using scheduling.run_inv [OF init_sc_inv, of ops ss lc] by (simp add: s_def sc_inv_def)
  show ?thesis
  proof (cases "provider_item c s")
    case None
    then show ?thesis by (simp add: s_def [symmetric] provider_delivery_completed_def)
  next
    case (Some item)
    then obtain l where l: "sc_active s = Some l" "ul_item l = item" "map_of (sc_provider_contexts s) c = Some (ul_token l)"
      by (auto simp: provider_item_def split: option.splits if_splits)
    have c: "c = si_utterance_id item" using inv l by (auto simp: lease_inv_def dest: map_of_SomeD)
    have clear: "filter (\<lambda>(c, t). t \<noteq> ul_token l) (sc_provider_contexts s) = []"
      using inv l by (auto simp: lease_inv_def filter_empty_conv)
    have em: "same_tables s (emit_progress DELIVERY_COMPLETED item s)" by simp
    let ?t = "fst (provider_delivery_completed c s)"
    have "sc_active ?t = None" "sc_provider_contexts ?t = []" "sc_queues ?t = sc_queues s"
      "sc_lifecycle ?t = release_generation (ul_token l) True D_DELIVERY_COMPLETED (sc_lifecycle s)"
      "sc_state ?t = sc_state (emit_progress DELIVERY_COMPLETED item s)" "snd (provider_delivery_completed c s)"
      using l clear em by (auto simp: provider_delivery_completed_def Some delivery_completed_def delivery_finished_def
          active_item_def release_def Let_def same_tables_def)
    then show ?thesis using l c unfolding s_def [symmetric] Let_def split_def by blast
  qed
qed

lemma provider_completion_is_attributed_witness:
  "let s = fold sc_step [ScEnqueue (demo_item ROLE_RESULT ''u'')]
         (init_scheduler (init_session ''s'' ''t'') (init_lifecycle 0 10 1 256 True))
   in fst (provider_delivery_completed ''u'' s) = s"
  using provider_completion_is_attributed [of "[ScEnqueue (demo_item ROLE_RESULT ''u'')]" "init_session ''s'' ''t''"
      "init_lifecycle 0 10 1 256 True" "''u''"]
  by (auto simp: Let_def split_def provider_delivery_completed_def provider_item_def enqueue_def init_scheduler_def
      demo_item_def post_init_def emit_progress_def emit_progress_with_def split: option.splits)

end
