(* ===== verification/Connection.thy ===== *)
theory Connection
  imports Contracts
begin

text \<open>
  Connection fencing and the browser handshake.

  \<^item> \<open>server/connection_arbiter.py\<close>: \<open>ConnectionArbiter\<close> promotes a handshake to the one active
    connection of the session and answers whether an epoch is the promoted one; its subclass
    \<open>ConnectionEpochArbiter\<close> adds the client and the history of replaced connections.
  \<^item> \<open>server/handshake_gate.py\<close>: \<open>HandshakeGate\<close> mints, prunes, caps and validates resume tokens. The
    token minted by \<open>uuid4\<close> and the reading of the monotonic clock are arguments of the operations.

  Shown here: promoted epochs only grow and exactly one is accepted at a time; a resume token is
  redeemed at most once, only for its epoch and only before it expires; the token store is capped.
\<close>

section \<open>Connection arbiter\<close>

record connection =
  cn_epoch :: epoch
  cn_session_id :: string
  cn_resume_token :: string
  cn_capabilities :: "string list"

record arbiter =
  ar_session_id :: string
  ar_resume_token :: string
  ar_epoch :: epoch
  ar_active :: "connection option"

definition init_arbiter :: "string \<Rightarrow> string \<Rightarrow> arbiter" where
  "init_arbiter session_id resume_token =
     \<lparr>ar_session_id = session_id, ar_resume_token = resume_token, ar_epoch = 0, ar_active = None\<rparr>"

datatype promote_error =
    InvalidHandshake contract_error
  | UnsupportedVersion string
  | InvalidIdentity
  | StaleEpoch

definition promote :: "snapshot_handshake \<Rightarrow> arbiter \<Rightarrow> arbiter \<times> (promote_error + connection)" where
  "promote value s =
     (case validate_capabilities (hs_capabilities value) of
        Inl e \<Rightarrow> (s, Inl (InvalidHandshake e))
      | Inr capabilities \<Rightarrow>
          if hs_contract_version value \<noteq> CONTRACT_VERSION
          then (s, Inl (UnsupportedVersion (hs_contract_version value)))
          else if hs_session_id value \<noteq> ar_session_id s \<or> hs_resume_token value \<noteq> ar_resume_token s
          then (s, Inl InvalidIdentity)
          else if ar_active s \<noteq> None \<and> hs_proposed_epoch value \<le> ar_epoch s
          then (s, Inl StaleEpoch)
          else
            let c = \<lparr>cn_epoch = hs_proposed_epoch value, cn_session_id = ar_session_id s,
                     cn_resume_token = ar_resume_token s, cn_capabilities = capabilities\<rparr>
            in (s\<lparr>ar_epoch := hs_proposed_epoch value, ar_active := Some c\<rparr>, Inr c))"

definition accepts :: "epoch option \<Rightarrow> arbiter \<Rightarrow> bool" where
  "accepts e s = (case ar_active s of None \<Rightarrow> False | Some c \<Rightarrow> e = Some (cn_epoch c))"

definition require_active :: "epoch option \<Rightarrow> arbiter \<Rightarrow> promote_error + unit" where
  "require_active e s = (if \<not> accepts e s then Inl StaleEpoch else Inr ())"

definition route_callback :: "epoch option \<Rightarrow> (unit \<Rightarrow> 'a) \<Rightarrow> arbiter \<Rightarrow> promote_error + 'a" where
  "route_callback e callback s =
     (case require_active e s of Inl x \<Rightarrow> Inl x | Inr _ \<Rightarrow> Inr (callback ()))"

record active_connection =
  ac_client_id :: string
  ac_epoch :: epoch

record epoch_arbiter = arbiter +
  ea_active_client_id :: "string option"
  ea_previous :: "active_connection list"

definition init_epoch_arbiter :: "string \<Rightarrow> string \<Rightarrow> epoch_arbiter" where
  "init_epoch_arbiter session_id resume_token =
     \<lparr>ar_session_id = session_id, ar_resume_token = resume_token, ar_epoch = 0, ar_active = None,
      ea_active_client_id = None, ea_previous = []\<rparr>"

text \<open>The part of the subclass that the inherited methods work on.\<close>

definition base :: "epoch_arbiter \<Rightarrow> arbiter" where
  "base s = \<lparr>ar_session_id = ar_session_id s, ar_resume_token = ar_resume_token s,
             ar_epoch = ar_epoch s, ar_active = ar_active s\<rparr>"

definition validate_handshake :: "string \<Rightarrow> string \<Rightarrow> epoch \<Rightarrow> epoch_arbiter \<Rightarrow> bool" where
  "validate_handshake session_id resume_token proposed s =
     (if session_id \<noteq> ar_session_id s \<or> resume_token \<noteq> ar_resume_token s then False
      else ar_active s = None \<or> ar_epoch s < proposed)"

definition activate ::
    "string \<Rightarrow> epoch \<Rightarrow> epoch_arbiter \<Rightarrow> epoch_arbiter \<times> (promote_error + active_connection)" where
  "activate client proposed s =
     (let previous_client = ea_active_client_id s; previous = ar_active s in
      case promote \<lparr>hs_contract_version = CONTRACT_VERSION, hs_session_id = ar_session_id s,
                    hs_resume_token = ar_resume_token s, hs_proposed_epoch = proposed,
                    hs_snapshot_sequence = 0, hs_capabilities = [], hs_capabilities_present = False\<rparr> (base s) of
        (b, Inl e) \<Rightarrow> (s, Inl e)
      | (b, Inr c) \<Rightarrow>
          let s = s\<lparr>ar_epoch := ar_epoch b, ar_active := ar_active b\<rparr>;
              s = (case previous of
                     None \<Rightarrow> s
                   | Some p \<Rightarrow> s\<lparr>ea_previous := ea_previous s @
                       [\<lparr>ac_client_id = (case previous_client of None \<Rightarrow> [] | Some x \<Rightarrow> x), ac_epoch = cn_epoch p\<rparr>]\<rparr>)
          in (s\<lparr>ea_active_client_id := Some client\<rparr>, Inr \<lparr>ac_client_id = client, ac_epoch = cn_epoch c\<rparr>))"

definition accepts_input :: "string \<Rightarrow> epoch \<Rightarrow> epoch_arbiter \<Rightarrow> bool" where
  "accepts_input client e s \<longleftrightarrow> ea_active_client_id s = Some client \<and> accepts (Some e) (base s)"

definition replacement_interruptions :: "epoch_arbiter \<Rightarrow> (epoch \<times> delivery_state) list" where
  "replacement_interruptions s = map (\<lambda>c. (ac_epoch c, INTERRUPTED_BY_RECONNECT)) (ea_previous s)"

section \<open>Handshake gate\<close>

text \<open>A stored token: its epoch, its expiry and whether it was redeemed.\<close>

type_synonym handshake_tokens = "(string, epoch \<times> instant \<times> bool) dict"

definition MAX_HANDSHAKE_TOKENS :: nat where
  "MAX_HANDSHAKE_TOKENS = 32"

definition prune_handshake_tokens :: "instant \<Rightarrow> handshake_tokens \<Rightarrow> handshake_tokens" where
  "prune_handshake_tokens now g =
     fold AList.delete (map fst (filter (\<lambda>(t, e, expires_at, r). expires_at \<le> now) g)) g"

text \<open>\<open>min(tokens, key=expiry)\<close>: the first of the tokens with the nearest expiry.\<close>

fun nearest_expiry :: "handshake_tokens \<Rightarrow> string" where
  "nearest_expiry [] = []"
| "nearest_expiry [(t, _)] = t"
| "nearest_expiry ((t, e, x, r) # (t', e', x', r') # g) =
     (if x' < x then nearest_expiry ((t', e', x', r') # g) else nearest_expiry ((t, e, x, r) # g))"

function evict_tokens :: "handshake_tokens \<Rightarrow> handshake_tokens" where
  "evict_tokens g =
     (if MAX_HANDSHAKE_TOKENS < length g then evict_tokens (AList.delete (nearest_expiry g) g) else g)"
  by auto

lemma nearest_expiry_key: "g \<noteq> [] \<Longrightarrow> nearest_expiry g \<in> set (dkeys g)"
  by (induction g rule: nearest_expiry.induct) auto

termination evict_tokens
proof (relation "measure length")
  fix g :: handshake_tokens
  assume "MAX_HANDSHAKE_TOKENS < length g"
  then have "g \<noteq> []" by auto
  then show "(AList.delete (nearest_expiry g) g, g) \<in> measure length"
    by (simp add: length_dpop [OF nearest_expiry_key])
qed simp

declare evict_tokens.simps [simp del]

definition issue_token :: "string \<Rightarrow> instant \<Rightarrow> epoch \<Rightarrow> handshake_tokens \<Rightarrow> handshake_tokens" where
  "issue_token token now e g =
     evict_tokens (AList.update token (e, now + 60, False) (prune_handshake_tokens now g))"

definition validate_handshake_token ::
    "string \<Rightarrow> instant \<Rightarrow> epoch \<Rightarrow> bool \<Rightarrow> handshake_tokens \<Rightarrow> handshake_tokens \<times> bool" where
  "validate_handshake_token token now proposed redeem g =
     (let g = prune_handshake_tokens now g in
      case map_of g token of
        None \<Rightarrow> (g, False)
      | Some (e, expires_at, redeemed) \<Rightarrow>
          if expires_at \<le> now \<or> e \<noteq> proposed then (AList.delete token g, False)
          else if redeem then
            if redeemed then (g, False) else (AList.update token (e, expires_at, True) g, True)
          else (g, redeemed))"

datatype handshake_error = CapabilitiesChanged

definition validate_patch_handshake :: "string list option \<Rightarrow> snapshot_handshake \<Rightarrow> handshake_error + unit" where
  "validate_patch_handshake capabilities handshake =
     (if \<not> hs_capabilities_present handshake then Inr ()
      else
        let bound = (case capabilities of None \<Rightarrow> {} | Some cs \<Rightarrow> set cs) in
        if set (hs_capabilities handshake) \<noteq> bound then Inl CapabilitiesChanged else Inr ())"

section \<open>Promotion\<close>

primrec promote_all :: "snapshot_handshake list \<Rightarrow> arbiter \<Rightarrow> arbiter \<times> connection list" where
  "promote_all [] s = (s, [])"
| "promote_all (h # hs) s =
     (case promote h s of
        (s, Inl e) \<Rightarrow> promote_all hs s
      | (s, Inr c) \<Rightarrow> (case promote_all hs s of (s, cs) \<Rightarrow> (s, c # cs)))"

definition normal_capabilities :: "string list \<Rightarrow> bool" where
  "normal_capabilities cs \<longleftrightarrow> sorted cs \<and> distinct cs \<and> [] \<notin> set cs"

lemma validate_capabilities_normal: "validate_capabilities v = Inr cs \<Longrightarrow> normal_capabilities cs \<and> set cs = set v"
  by (auto simp: validate_capabilities_def normal_capabilities_def split: if_splits)

lemma promote_cases [consumes 0, case_names refused promoted]:
  obtains e where "promote h s = (s, Inl e)"
  | c where "promote h s = (s\<lparr>ar_epoch := hs_proposed_epoch h, ar_active := Some c\<rparr>, Inr c)"
      "cn_epoch c = hs_proposed_epoch h" "ar_active s \<noteq> None \<Longrightarrow> ar_epoch s < cn_epoch c"
      "normal_capabilities (cn_capabilities c)" "set (cn_capabilities c) = set (hs_capabilities h)"
proof (cases "validate_capabilities (hs_capabilities h)")
  case (Inr cs)
  note n = validate_capabilities_normal [OF this]
  show ?thesis
  proof (cases "hs_contract_version h = CONTRACT_VERSION \<and> hs_session_id h = ar_session_id s \<and>
      hs_resume_token h = ar_resume_token s \<and> (ar_active s \<noteq> None \<longrightarrow> ar_epoch s < hs_proposed_epoch h)")
    case True
    then show ?thesis
      by (intro that(2) [of "\<lparr>cn_epoch = hs_proposed_epoch h, cn_session_id = ar_session_id s,
            cn_resume_token = ar_resume_token s, cn_capabilities = cs\<rparr>"])
        (use Inr n in \<open>auto simp: promote_def Let_def\<close>)
  next
    case False
    then have "\<exists>e. promote h s = (s, Inl e)" by (auto simp: promote_def Inr)
    then show ?thesis using that(1) by blast
  qed
qed (use that(1) in \<open>simp add: promote_def\<close>)

text \<open>The epoch of the arbiter is the epoch of its active connection.\<close>

definition arbiter_inv :: "arbiter \<Rightarrow> bool" where
  "arbiter_inv s \<longleftrightarrow> (case ar_active s of None \<Rightarrow> True | Some c \<Rightarrow> cn_epoch c = ar_epoch s)"

lemma promote_all_epochs:
  assumes "arbiter_inv s"
  shows "let (t, cs) = promote_all hs s in
     arbiter_inv t \<and> sorted_wrt (<) (map cn_epoch cs) \<and> (\<forall>c \<in> set cs. ar_active s \<noteq> None \<longrightarrow> ar_epoch s < cn_epoch c) \<and>
     list_all (\<lambda>c. normal_capabilities (cn_capabilities c)) cs \<and>
     ar_active t = (if cs = [] then ar_active s else Some (last cs))"
  using assms
proof (induction hs arbitrary: s)
  case (Cons h hs)
  show ?case
  proof (cases rule: promote_cases [of h s])
    case (refused e)
    with Cons.IH [OF Cons.prems] show ?thesis by simp
  next
    case (promoted c)
    let ?s = "s\<lparr>ar_epoch := hs_proposed_epoch h, ar_active := Some c\<rparr>"
    have "arbiter_inv ?s" using promoted(2) by (simp add: arbiter_inv_def)
    note ih = Cons.IH [OF this]
    obtain t cs where r: "promote_all hs ?s = (t, cs)" by (cases "promote_all hs ?s")
    have "ar_active s \<noteq> None \<longrightarrow> ar_epoch s < cn_epoch c'" if "c' \<in> set cs" for c'
      using ih r promoted(2,3) that by force
    with ih r promoted show ?thesis by auto
  qed
qed simp

text \<open>
  Epoch fencing. Over any sequence of handshakes, whatever they contain, the promoted epochs
  strictly increase, every promoted connection has a sorted duplicate-free capability set, and at
  any time exactly the epoch of the connection promoted last is accepted (none before the first).
\<close>

theorem promoted_epochs_increase:
  "let (s, promoted) = promote_all handshakes (init_arbiter session token) in
     sorted_wrt (<) (map cn_epoch promoted) \<and>
     list_all (\<lambda>c. normal_capabilities (cn_capabilities c)) promoted \<and>
     {e. accepts e s} = (if promoted = [] then {} else {Some (cn_epoch (last promoted))})"
proof -
  have "arbiter_inv (init_arbiter session token)" by (simp add: arbiter_inv_def init_arbiter_def)
  from promote_all_epochs [OF this, of handshakes] show ?thesis
    by (auto simp: Let_def accepts_def init_arbiter_def split: prod.splits)
qed

text \<open>The subclass: its history is what was active before, in order.\<close>

primrec activate_all :: "(string \<times> epoch) list \<Rightarrow> epoch_arbiter \<Rightarrow> epoch_arbiter \<times> active_connection list" where
  "activate_all [] s = (s, [])"
| "activate_all (h # hs) s =
     (case activate (fst h) (snd h) s of
        (s, Inl e) \<Rightarrow> activate_all hs s
      | (s, Inr c) \<Rightarrow> (case activate_all hs s of (s, cs) \<Rightarrow> (s, c # cs)))"

lemma activate_cases:
  obtains (refused) "activate client e s = (s, Inl StaleEpoch)" "ar_active s \<noteq> None" "e \<le> ar_epoch s"
  | (activated) c where "activate client e s =
        (s\<lparr>ar_epoch := e, ar_active := Some c, ea_active_client_id := Some client,
           ea_previous := ea_previous s @ (case ar_active s of None \<Rightarrow> []
             | Some p \<Rightarrow> [\<lparr>ac_client_id = (case ea_active_client_id s of None \<Rightarrow> [] | Some x \<Rightarrow> x), ac_epoch = cn_epoch p\<rparr>])\<rparr>,
         Inr \<lparr>ac_client_id = client, ac_epoch = e\<rparr>)"
      "cn_epoch c = e" "ar_active s = None \<or> ar_epoch s < e"
proof (cases "ar_active s \<noteq> None \<and> e \<le> ar_epoch s")
  case True
  then show ?thesis
    by (intro that(1)) (auto simp: activate_def base_def promote_def validate_capabilities_def Let_def)
next
  case False
  then show ?thesis
    by (intro that(2) [of "\<lparr>cn_epoch = e, cn_session_id = ar_session_id s, cn_resume_token = ar_resume_token s,
          cn_capabilities = []\<rparr>"])
      (auto simp: activate_def base_def promote_def validate_capabilities_def Let_def split: option.split)
qed

definition active_now :: "epoch_arbiter \<Rightarrow> active_connection list" where
  "active_now s = (case ar_active s of None \<Rightarrow> []
     | Some c \<Rightarrow> [\<lparr>ac_client_id = the (ea_active_client_id s), ac_epoch = cn_epoch c\<rparr>])"

definition client_inv :: "epoch_arbiter \<Rightarrow> bool" where
  "client_inv s \<longleftrightarrow> (case ar_active s of None \<Rightarrow> ea_previous s = []
     | Some c \<Rightarrow> cn_epoch c = ar_epoch s \<and> ea_active_client_id s \<noteq> None)"

lemma activate_all_history:
  "client_inv s \<Longrightarrow> activate_all hs s = (t, cs) \<Longrightarrow>
     client_inv t \<and> sorted_wrt (<) (map ac_epoch (active_now s @ cs)) \<and>
     ea_previous t @ active_now t = ea_previous s @ active_now s @ cs"
proof (induction hs arbitrary: s t cs)
  case Nil
  then show ?case by (auto simp: active_now_def split: option.splits)
next
  case (Cons h hs)
  show ?case
  proof (cases rule: activate_cases [of "fst h" "snd h" s])
    case refused
    with Cons show ?thesis by simp
  next
    case (activated c)
    let ?s = "fst (activate (fst h) (snd h) s)" and ?c = "\<lparr>ac_client_id = fst h, ac_epoch = snd h\<rparr>"
    obtain u ds where r: "activate_all hs ?s = (u, ds)" by (cases "activate_all hs ?s")
    have all: "t = u" "cs = ?c # ds" using Cons.prems(2) activated(1) r by simp_all
    have "client_inv ?s" using activated by (simp add: client_inv_def)
    note ih = Cons.IH [OF this r]
    have now: "active_now ?s = [?c]" using activated by (simp add: active_now_def)
    have old: "ea_previous ?s = ea_previous s @ active_now s"
      using activated(1) Cons.prems(1) by (auto simp: active_now_def client_inv_def split: option.splits)
    have "x \<in> set (active_now s) \<Longrightarrow> ac_epoch x < snd h" for x
      using activated(3) Cons.prems(1) by (auto simp: active_now_def client_inv_def split: option.splits)
    moreover have "y \<in> set ds \<Longrightarrow> snd h < ac_epoch y" for y using ih now by simp
    ultimately show ?thesis using ih now old all
      by (auto simp: sorted_wrt_append) (fastforce simp: active_now_def split: option.splits)+
  qed
qed

text \<open>
  Replaced connections. Over any sequence of activation attempts, the successful ones have
  strictly increasing epochs, only the client and epoch activated last may send input, and the
  interruptions to report are exactly the epochs of all earlier connections, in order.
\<close>

theorem replaced_connections_recorded:
  "let (s, active) = activate_all attempts (init_epoch_arbiter session token) in
     sorted_wrt (<) (map ac_epoch active) \<and>
     replacement_interruptions s = map (\<lambda>c. (ac_epoch c, INTERRUPTED_BY_RECONNECT)) (butlast active) \<and>
     (accepts_input client e s \<longleftrightarrow> active \<noteq> [] \<and> last active = \<lparr>ac_client_id = client, ac_epoch = e\<rparr>)"
proof -
  let ?i = "init_epoch_arbiter session token"
  obtain s active where r: "activate_all attempts ?i = (s, active)" by (cases "activate_all attempts ?i")
  have i: "client_inv ?i" "active_now ?i = []" "ea_previous ?i = []"
    by (simp_all add: client_inv_def active_now_def init_epoch_arbiter_def)
  have h: "client_inv s" "sorted_wrt (<) (map ac_epoch active)" "ea_previous s @ active_now s = active"
    using activate_all_history [OF i(1) r] i(2,3) by simp_all
  show ?thesis
  proof (cases "ar_active s")
    case None
    then have "active = []" using h by (simp add: client_inv_def active_now_def)
    with None h(1) r show ?thesis
      by (simp add: accepts_input_def accepts_def base_def replacement_interruptions_def client_inv_def)
  next
    case (Some c)
    then have a: "active = ea_previous s @ [\<lparr>ac_client_id = the (ea_active_client_id s), ac_epoch = cn_epoch c\<rparr>]"
      using h(3) by (simp add: active_now_def)
    then show ?thesis using h(1,2) r Some
      by (auto simp: accepts_input_def accepts_def base_def replacement_interruptions_def client_inv_def)
  qed
qed

text \<open>
  Capabilities are bound at promotion: a later candidate request passes exactly when it omits its
  capabilities or presents the same set the promoted handshake declared, in any order and with
  any repetitions.
\<close>

theorem patch_keeps_capabilities:
  assumes "promote h s = (s', Inr c)"
  shows "validate_patch_handshake (Some (cn_capabilities c)) h' = Inr () \<longleftrightarrow>
     \<not> hs_capabilities_present h' \<or> set (hs_capabilities h') = set (hs_capabilities h)"
  by (cases rule: promote_cases [of h s]) (use assms in \<open>auto simp: validate_patch_handshake_def Let_def\<close>)

definition demo_handshake :: "epoch \<Rightarrow> string list \<Rightarrow> snapshot_handshake" where
  "demo_handshake e cs =
     \<lparr>hs_contract_version = CONTRACT_VERSION, hs_session_id = ''s'', hs_resume_token = ''r'',
      hs_proposed_epoch = e, hs_snapshot_sequence = 0, hs_capabilities = cs, hs_capabilities_present = True\<rparr>"

lemma patch_keeps_capabilities_witness:
  "\<exists>c. snd (promote (demo_handshake 1 [''b'', ''a'']) (init_arbiter ''s'' ''r'')) = Inr c \<and>
     validate_patch_handshake (Some (cn_capabilities c)) (demo_handshake 1 [''a'', ''b'', ''a'']) = Inr ()"
proof -
  let ?h = "demo_handshake 1 [''b'', ''a'']" and ?s = "init_arbiter ''s'' ''r''"
  have "\<exists>c. snd (promote ?h ?s) = Inr c"
    by (simp add: promote_def demo_handshake_def init_arbiter_def validate_capabilities_def Let_def)
  then obtain c where c: "snd (promote ?h ?s) = Inr c" ..
  then have p: "promote ?h ?s = (fst (promote ?h ?s), Inr c)" by (metis prod.collapse)
  have "set (hs_capabilities (demo_handshake 1 [''a'', ''b'', ''a''])) = set (hs_capabilities ?h)"
    by (auto simp: demo_handshake_def)
  with c patch_keeps_capabilities [OF p, of "demo_handshake 1 [''a'', ''b'', ''a'']"] show ?thesis by blast
qed

section \<open>Resume tokens\<close>

datatype gate_op =
    GIssue string instant epoch
  | GValidate string instant epoch bool

primrec gate_step :: "gate_op \<Rightarrow> handshake_tokens \<Rightarrow> handshake_tokens \<times> bool" where
  "gate_step (GIssue t now e) g = (issue_token t now e g, False)"
| "gate_step (GValidate t now e redeem) g = validate_handshake_token t now e redeem g"

primrec gate_trace :: "gate_op list \<Rightarrow> handshake_tokens \<Rightarrow> (gate_op \<times> bool) list" where
  "gate_trace [] g = []"
| "gate_trace (x # ops) g = (x, snd (gate_step x g)) # gate_trace ops (fst (gate_step x g))"

fun issued :: "gate_op list \<Rightarrow> string list" where
  "issued [] = []"
| "issued (GIssue t now e # ops) = t # issued ops"
| "issued (GValidate t now e r # ops) = issued ops"

fun redeems :: "string \<Rightarrow> gate_op \<times> bool \<Rightarrow> bool" where
  "redeems t (GValidate t' now e redeem, accepted) \<longleftrightarrow> t = t' \<and> redeem \<and> accepted"
| "redeems t _ \<longleftrightarrow> False"

definition gate_inv :: "handshake_tokens \<Rightarrow> bool" where
  "gate_inv g \<longleftrightarrow> wf_dict g \<and> length g \<le> MAX_HANDSHAKE_TOKENS"

lemma map_of_fold_dpop: "map_of (fold AList.delete ks g) t = (if t \<in> set ks then None else map_of g t)"
  by (induction ks arbitrary: g) auto

lemma wf_fold_dpop: "wf_dict g \<Longrightarrow> wf_dict (fold AList.delete ks g)"
  by (induction ks arbitrary: g) auto

lemma length_fold_dpop: "length (fold AList.delete ks g) \<le> length g"
  by (induction ks arbitrary: g) (auto intro: order.trans [OF _ length_delete_le])

lemma map_of_prune:
  assumes "wf_dict g"
  shows "map_of (prune_handshake_tokens now g) t =
     (case map_of g t of None \<Rightarrow> None | Some (e, x, r) \<Rightarrow> if x \<le> now then None else Some (e, x, r))"
proof -
  have "t \<in> set (map fst (filter (\<lambda>(t, e, x, r). x \<le> now) g)) \<longleftrightarrow> (\<exists>e x r. map_of g t = Some (e, x, r) \<and> x \<le> now)"
    using assms by (force simp: wf_dict_map_of [symmetric])
  then show ?thesis by (auto simp: prune_handshake_tokens_def map_of_fold_dpop split: option.splits)
qed

lemma prune_inv: "wf_dict g \<Longrightarrow> wf_dict (prune_handshake_tokens now g)"
  by (simp add: prune_handshake_tokens_def wf_fold_dpop)

lemma evict_tokens_spec:
  "wf_dict g \<Longrightarrow> wf_dict (evict_tokens g) \<and> length (evict_tokens g) \<le> MAX_HANDSHAKE_TOKENS \<and>
     (\<forall>t v. map_of (evict_tokens g) t = Some v \<longrightarrow> map_of g t = Some v)"
proof (induction g rule: evict_tokens.induct)
  case (1 g)
  show ?case
  proof (cases "MAX_HANDSHAKE_TOKENS < length g")
    case True
    with 1 show ?thesis by (auto simp: evict_tokens.simps [of g] split: if_splits)
  qed (use 1 in \<open>simp add: evict_tokens.simps [of g]\<close>)
qed

lemma issue_lookup:
  assumes "wf_dict g" and "map_of (issue_token t now e g) t' = Some v"
  shows "(if t' = t then v = (e, now + 60, False) else map_of g t' = Some v)"
proof -
  have "map_of (AList.update t (e, now + 60, False) (prune_handshake_tokens now g)) t' = Some v"
    using assms(2) evict_tokens_spec [OF wf_dict_dset [OF prune_inv [OF assms(1)]]] unfolding issue_token_def by blast
  then show ?thesis using assms(1) by (auto simp: map_of_prune split: if_splits option.splits)
qed

lemma validate_lookup:
  assumes "wf_dict g" and "map_of (fst (validate_handshake_token t now e redeem g)) t' = Some v"
  shows "map_of g t' = Some v \<or> t' = t \<and> redeem \<and> (\<exists>x. v = (e, x, True) \<and> map_of g t = Some (e, x, False))"
  using assms by (auto simp: validate_handshake_token_def Let_def map_of_prune split: option.splits prod.splits if_splits)

lemma gate_step_inv: "gate_inv g \<Longrightarrow> gate_inv (fst (gate_step x g))"
proof (cases x)
  case (GIssue t now e)
  assume "gate_inv g"
  then show ?thesis
    using evict_tokens_spec [OF wf_dict_dset [OF prune_inv]] by (simp add: GIssue gate_inv_def issue_token_def)
next
  case (GValidate t now e r)
  assume g: "gate_inv g"
  let ?p = "prune_handshake_tokens now g"
  have p: "wf_dict ?p" "length ?p \<le> MAX_HANDSHAKE_TOKENS"
    using g prune_inv [of g now] order.trans [OF length_fold_dpop] by (auto simp: gate_inv_def prune_handshake_tokens_def)
  have "gate_inv (AList.update t v ?p)" if "map_of ?p t \<noteq> None" for v
    using p that by (auto simp: gate_inv_def length_dset map_of_None_iff)
  moreover have "gate_inv (AList.delete t ?p)"
    using p order.trans [OF length_delete_le p(2)] by (simp add: gate_inv_def)
  ultimately show ?thesis
    using p by (auto simp: GValidate validate_handshake_token_def Let_def gate_inv_def split: option.split)
qed

interpretation gate: machine "\<lambda>x g. fst (gate_step x g)" gate_inv
  by unfold_locales (rule gate_step_inv)

text \<open>A token that is absent or redeemed, and is not minted again, is never redeemed again.\<close>

definition spent :: "string \<Rightarrow> handshake_tokens \<Rightarrow> bool" where
  "spent t g \<longleftrightarrow> (\<forall>e x r. map_of g t = Some (e, x, r) \<longrightarrow> r)"

lemma spent_step:
  assumes "gate_inv g" and "spent t g" and "t \<notin> set (issued [x])"
  shows "spent t (fst (gate_step x g)) \<and> \<not> redeems t (x, snd (gate_step x g))"
proof (cases x)
  case (GIssue t' now e)
  with assms issue_lookup [of g t' now e t] show ?thesis by (auto simp: spent_def gate_inv_def)
next
  case (GValidate t' now e r)
  have "\<not> redeems t (x, snd (gate_step x g))"
    using assms by (auto simp: GValidate validate_handshake_token_def Let_def map_of_prune gate_inv_def spent_def
        split: option.splits if_splits)
  with assms validate_lookup [of g t' now e r t] show ?thesis by (auto simp: GValidate spent_def gate_inv_def)
qed

lemma spent_trace:
  "gate_inv g \<Longrightarrow> spent t g \<Longrightarrow> t \<notin> set (issued ops) \<Longrightarrow> filter (redeems t) (gate_trace ops g) = []"
proof (induction ops arbitrary: g)
  case (Cons x ops)
  then have x: "t \<notin> set (issued [x])" and ops: "t \<notin> set (issued ops)" by (cases x; simp)+
  from Cons.IH [OF gate_step_inv [OF Cons.prems(1)] _ ops] spent_step [OF Cons.prems(1,2) x] show ?case by simp
qed simp

lemma redeemed_spent:
  assumes "gate_inv g" and "redeems t (x, snd (gate_step x g))"
  shows "spent t (fst (gate_step x g)) \<and> map_of g t \<noteq> None"
  using assms
  by (cases x) (auto simp: spent_def validate_handshake_token_def Let_def map_of_prune gate_inv_def
      split: option.splits if_splits)

lemma redeemed_at_most_once:
  "gate_inv g \<Longrightarrow> distinct (issued ops) \<Longrightarrow> (map_of g t \<noteq> None \<Longrightarrow> t \<notin> set (issued ops)) \<Longrightarrow>
     length (filter (redeems t) (gate_trace ops g)) \<le> 1"
proof (induction ops arbitrary: g)
  case (Cons x ops)
  let ?g = "fst (gate_step x g)"
  have g: "gate_inv ?g" using Cons.prems(1) by (rule gate_step_inv)
  have d: "distinct (issued ops)" using Cons.prems(2) by (cases x) auto
  show ?case
  proof (cases "redeems t (x, snd (gate_step x g))")
    case True
    note s = redeemed_spent [OF Cons.prems(1) True]
    then have "t \<notin> set (issued ops)" using Cons.prems(3) by (cases x) auto
    then have "filter (redeems t) (gate_trace ops ?g) = []" using spent_trace [OF g] s by blast
    with True show ?thesis by simp
  next
    case False
    have "t \<notin> set (issued ops)" if n: "map_of ?g t \<noteq> None"
    proof (cases x)
      case (GIssue t' now e)
      with n issue_lookup [of g t' now e t] Cons.prems show ?thesis
        by (cases "t = t'") (auto simp: gate_inv_def)
    next
      case (GValidate t' now e r)
      have "wf_dict g" using Cons.prems(1) by (simp add: gate_inv_def)
      then have "map_of g t \<noteq> None" using n validate_lookup [of g t' now e r t] GValidate by fastforce
      with Cons.prems(3) GValidate show ?thesis by simp
    qed
    from Cons.IH [OF g d this] False show ?thesis by simp
  qed
qed simp

text \<open>Every stored token goes back to its issue.\<close>

definition minted :: "gate_op list \<Rightarrow> handshake_tokens \<Rightarrow> bool" where
  "minted past g \<longleftrightarrow> (\<forall>t e x r. map_of g t = Some (e, x, r) \<longrightarrow> (\<exists>t0. GIssue t t0 e \<in> set past \<and> x = t0 + 60))"

lemma minted_step: "gate_inv g \<Longrightarrow> minted past g \<Longrightarrow> minted (past @ [x]) (fst (gate_step x g))"
proof (cases x)
  case (GIssue t now e)
  assume "gate_inv g" "minted past g"
  with issue_lookup [of g t now e] show ?thesis
    unfolding minted_def GIssue gate_inv_def by simp (metis prod.inject)
next
  case (GValidate t now e r)
  assume "gate_inv g" "minted past g"
  with validate_lookup [of g t now e r] show ?thesis
    unfolding minted_def GValidate gate_inv_def by simp (metis prod.inject)
qed

lemma accepted_minted:
  assumes "gate_inv g" and "minted past g" and "(GValidate t now e r, True) \<in> set (gate_trace ops g)"
  shows "\<exists>xs ys t0. ops = xs @ GValidate t now e r # ys \<and> GIssue t t0 e \<in> set (past @ xs) \<and> now < t0 + 60"
  using assms
proof (induction ops arbitrary: g past)
  case (Cons x ops)
  show ?case
  proof (cases "(GValidate t now e r, True) = (x, snd (gate_step x g))")
    case True
    then have "\<exists>t0. GIssue t t0 e \<in> set past \<and> now < t0 + 60"
      using Cons.prems(1,2)
      by (force simp: minted_def validate_handshake_token_def Let_def map_of_prune gate_inv_def
          split: option.splits if_splits)
    then show ?thesis using True by (intro exI [of _ "[]"] exI [of _ ops]) auto
  next
    case False
    then have "(GValidate t now e r, True) \<in> set (gate_trace ops (fst (gate_step x g)))" using Cons.prems(3) by auto
    from Cons.IH [OF gate_step_inv [OF Cons.prems(1)] minted_step [OF Cons.prems(1,2)] this]
    obtain xs ys t0 where "ops = xs @ GValidate t now e r # ys" "GIssue t t0 e \<in> set ((past @ [x]) @ xs)" "now < t0 + 60"
      by blast
    then show ?thesis by (intro exI [of _ "x # xs"] exI [of _ ys]) auto
  qed
qed simp

text \<open>
  C15. Resume tokens are single use. Over any sequence of issued and validated handshakes, with any
  clock readings, as long as no token is minted twice: each token is redeemed at most once; every
  accepted validation, redeeming or not, is for the epoch the token was issued for and falls within
  60 seconds of its issue; and the store never holds more than 32 tokens.
\<close>

theorem resume_token_single_use:
  assumes "distinct (issued ops)"
  shows "length (filter (redeems t) (gate_trace ops [])) \<le> 1 \<and>
     ((GValidate t now e r, True) \<in> set (gate_trace ops []) \<longrightarrow>
        (\<exists>xs ys t0. ops = xs @ GValidate t now e r # ys \<and> GIssue t t0 e \<in> set xs \<and> now < t0 + 60)) \<and>
     length (fold (\<lambda>x g. fst (gate_step x g)) ops []) \<le> 32"
proof -
  have g: "gate_inv []" by (simp add: gate_inv_def)
  have "length (filter (redeems t) (gate_trace ops [])) \<le> 1" by (rule redeemed_at_most_once [OF g assms]) simp
  moreover have "\<exists>xs ys t0. ops = xs @ GValidate t now e r # ys \<and> GIssue t t0 e \<in> set xs \<and> now < t0 + 60"
    if "(GValidate t now e r, True) \<in> set (gate_trace ops [])"
    using accepted_minted [OF g _ that, of "[]"] by (simp add: minted_def)
  moreover have "length (fold (\<lambda>x g. fst (gate_step x g)) ops []) \<le> 32"
    using gate.run_inv [OF g, of ops] by (simp add: gate_inv_def MAX_HANDSHAKE_TOKENS_def)
  ultimately show ?thesis by blast
qed

lemma resume_token_single_use_witness:
  "(GValidate ''t'' 10 3 True, True) \<in>
     set (gate_trace [GIssue ''t'' 0 3, GValidate ''t'' 10 3 True, GValidate ''t'' 20 3 True] []) \<and>
   length (filter (redeems ''t'') (gate_trace [GIssue ''t'' 0 3, GValidate ''t'' 10 3 True, GValidate ''t'' 20 3 True] [])) \<le> 1"
proof -
  let ?ops = "[GIssue ''t'' 0 3, GValidate ''t'' 10 3 True, GValidate ''t'' 20 3 True]"
  have "(GValidate ''t'' 10 3 True, True) \<in> set (gate_trace ?ops [])"
    by (simp add: issue_token_def evict_tokens.simps MAX_HANDSHAKE_TOKENS_def prune_handshake_tokens_def
        validate_handshake_token_def)
  moreover have "distinct (issued ?ops)" by simp
  ultimately show ?thesis using resume_token_single_use [of ?ops "''t''" 10 3 True] by simp
qed

end
