(* ===== verification/Connection_Pipeline.thy ===== *)
theory Connection_Pipeline
  imports Scheduler_Delivery Connection
begin

text \<open>
  The per-connection runtime of \<open>server/connection_pipeline.py\<close>: one epoch, one scheduler with its
  lifecycle coordinator, and whether the connection is still active. \<open>deactivate\<close> fences the
  connection and sweeps its speech; \<open>shutdown\<close> also stops the worker and closes the coordinator. The
  worker and the speech services are outside the repository: of them the model keeps only whether
  they are attached.

  Shown here: a connection that was shut down never speaks again, whatever happens to it afterwards.
\<close>

section \<open>Data and operations\<close>

record connection_pipeline =
  cp_epoch :: epoch
  cp_scheduler :: scheduler
  cp_lifecycle :: bool
  cp_tts :: bool
  cp_worker :: bool
  cp_worker_task :: bool
  cp_observing :: bool
  cp_active :: bool

definition deactivate :: "bool \<Rightarrow> connection_pipeline \<Rightarrow> connection_pipeline" where
  "deactivate reconnect c =
     c\<lparr>cp_active := False,
       cp_scheduler := fst (interrupt (Some (cp_epoch c)) reconnect True (cp_scheduler c))\<rparr>"

text \<open>\<open>shutdown\<close>: \<open>cp_lifecycle\<close> says that the pipeline holds the coordinator of its scheduler.\<close>

definition shutdown :: "bool \<Rightarrow> connection_pipeline \<Rightarrow> connection_pipeline" where
  "shutdown reconnect c =
     (let c = deactivate reconnect c;
          c = c\<lparr>cp_worker := False, cp_worker_task := False, cp_observing := False\<rparr> in
      if cp_lifecycle c
      then c\<lparr>cp_scheduler := (cp_scheduler c)\<lparr>sc_lifecycle := close_connection (sc_lifecycle (cp_scheduler c))\<rparr>\<rparr>
      else c)"

section \<open>A closed coordinator stays closed\<close>

abbreviation lc_closed :: "lifecycle \<Rightarrow> bool" where
  "lc_closed \<equiv> ls_connection_closed"

lemma closed_primitives [simp]:
  "lc_closed (effect e s) = lc_closed s" "lc_closed (schedule k s) = lc_closed s" "lc_closed (put_gen t g s) = lc_closed s"
  "lc_closed (cancel_timer t s) = lc_closed s"
  by (simp_all add: effect_def schedule_def put_gen_def cancel_timer_def split: option.split)

lemma closed_arm [simp]: "lc_closed (arm t w k s) = lc_closed s"
  by (simp add: arm_def call_at_def Let_def)

lemma closed_terminalize_state [simp]: "lc_closed (fst (terminalize_state t d s)) = lc_closed s"
  by (auto simp: terminalize_state_def reap_context_def Let_def split: option.split)

lemma closed_terminalize [simp]: "lc_closed (fst (terminalize t d w s)) = lc_closed s"
proof (cases "terminalize_state t d s")
  case (Pair u r)
  then show ?thesis using closed_terminalize_state [of t d s] by (cases r) (auto simp: terminalize_def)
qed

lemma closed_segments [simp]:
  "lc_closed (fst (request_teardown t s)) = lc_closed s" "lc_closed (fst (begin_cleanup t g s)) = lc_closed s"
  "lc_closed (fst (begin_delivery_unknown t s)) = lc_closed s" "lc_closed (fst (on_interruption_timeout t s)) = lc_closed s"
  "lc_closed (fst (acknowledge_tts_lane_flush t s)) = lc_closed s" "lc_closed (fst (finalize_uncontexted t d s)) = lc_closed s"
  by (auto simp: request_teardown_def begin_cleanup_def begin_delivery_unknown_def on_interruption_timeout_def
      acknowledge_tts_lane_flush_def finalize_uncontexted_def Let_def split: option.split)

lemma closed_teardown [simp]: "lc_closed (fst (teardown_complete t s)) = lc_closed s"
proof (cases "map_of (ls_generations s) t")
  case (Some g)
  then show ?thesis
    by (auto simp: teardown_complete_def case_prod_beta split: option.split)
qed (simp add: teardown_complete_def)

lemma closed_run_task [simp]: "lc_closed (fst (run_task b k s)) = lc_closed s"
  by (cases k) (auto simp: cleanup_dispatched_def split: option.split)

lemma closed_release [simp]: "lc_closed (release_generation t n d s) = lc_closed s"
proof (cases "terminalize_state t d s")
  case (Pair u r)
  then show ?thesis using closed_terminalize_state [of t d s] by (cases r; cases n) (auto simp: release_generation_def)
qed

lemma closed_await [simp]: "lc_closed (await_task k s) = lc_closed s"
  by (auto simp: await_task_def case_prod_beta split: option.split)

lemma closed_close [simp]: "lc_closed (close_connection s)"
  by (simp add: close_connection_def)

lemma closed_admission:
  "lc_closed s \<Longrightarrow> fst (pre_admission_disposition acc t i s) = s \<and> \<not> is_admit (snd (pre_admission_disposition acc t i s))"
  by (simp add: pre_admission_disposition_def is_admit_def)

lemma closed_record [simp]: "lc_closed (record_interruption t p s) = lc_closed s"
  by (auto simp: record_interruption_def Let_def split: option.split)

lemma closed_frames [simp]:
  "lc_closed (mark_handed_to_tts t s) = lc_closed s" "lc_closed (fst (bind_context t c s)) = lc_closed s"
  "lc_closed (fst (on_tts_started c s)) = lc_closed s" "lc_closed (fst (on_tts_audio c n r ch s)) = lc_closed s"
  "lc_closed (fst (on_tts_stopped c s)) = lc_closed s" "lc_closed (on_transport_bot_started s) = lc_closed s"
  "lc_closed (on_transport_bot_stopped s) = lc_closed s"
  by (auto simp: mark_handed_to_tts_def bind_context_def on_tts_started_def on_tts_audio_def on_tts_stopped_def
      on_transport_bot_started_def on_transport_bot_stopped_def Let_def split: option.split prod.split)

lemma closed_step: "lc_closed s \<Longrightarrow> lc_closed (lc_step e s)"
proof (cases e)
  case (OpRun i b)
  assume "lc_closed s"
  then show ?thesis
    by (auto simp: OpRun run_scheduled_def case_prod_beta split: option.split)
next
  case (OpResume i b)
  assume "lc_closed s"
  then show ?thesis
    by (auto simp: OpResume run_awaited_def case_prod_beta split: option.split)
qed (auto simp: closed_admission advance_def split: prod.split)

section \<open>A retired scheduler never takes a lease\<close>

lemma reject_lifecycle [simp]: "sc_lifecycle (reject_candidate r c s) = sc_lifecycle s"
  by (auto simp: reject_candidate_def discard_from_queue_def Let_def split: list.split)

lemma scan_key_closed:
  "scan_key acc token k s = Some y \<Longrightarrow> lc_closed (sc_lifecycle s) \<Longrightarrow>
     (\<forall>i g. snd y \<noteq> ScanAdmit i g) \<and> sc_lifecycle (fst y) = sc_lifecycle s"
proof (induction rule: scan_key.raw_induct [rotated, consumes 1])
  case (1 scan acc token k s y)
  show ?case
  proof (cases "queue_of s k")
    case (Cons c rest)
    show ?thesis
    proof (cases "snd (pre_admission_disposition acc token (candidate_identity c) (sc_lifecycle s))")
      case (PreAdmissionAdmit g)
      with closed_admission [OF 1(3), of acc token "candidate_identity c"] show ?thesis by (simp add: is_admit_def)
    next
      case (PreAdmissionTerminal reason)
      with 1(2) Cons have "scan acc token k (reject_candidate reason c s) = Some y" by simp
      from 1(1) [OF this] 1(3) show ?thesis by simp
    qed (use 1(2) Cons in auto)
  qed (use 1(2) in auto)
qed

lemma scan_keys_closed:
  "scan_keys acc token ks s = Some y \<Longrightarrow> lc_closed (sc_lifecycle s) \<Longrightarrow> \<forall>i g. snd y \<noteq> ScanAdmit i g"
proof (induction ks arbitrary: s)
  case (Cons k ks)
  then obtain t r where t: "scan_key acc token k s = Some (t, r)" by (auto split: option.splits)
  note c = scan_key_closed [OF t Cons.prems(2)]
  with Cons t show ?case by (cases r) auto
qed auto

definition retired :: "scheduler \<Rightarrow> bool" where
  "retired s \<longleftrightarrow> sc_inv s \<and> lc_closed (sc_lifecycle s) \<and> sc_active s = None"

lemma start_next_retired:
  assumes "retired s"
  shows "\<exists>t. start_next acc token w s = Some (t, None) \<and> retired t"
proof (cases rule: start_next_cases [OF conjunct1 [OF assms [unfolded retired_def]], of acc token w])
  case (3 t item g)
  define ks where "ks = (case w of Some k \<Rightarrow> [k] | None \<Rightarrow> dkeys (sc_queues s))"
  have "\<exists>u j h. scan_keys acc token ks s = Some (u, ScanAdmit j h)"
    using 3(1,3,4) by (auto simp: start_next_def ks_def [symmetric] split: option.splits scan.splits)
  then show ?thesis using scan_keys_closed assms unfolding retired_def by (metis snd_conv)
next
  case (2 t r)
  then show ?thesis using assms by (cases r) (auto simp: retired_def scan_spec_def)
qed (use assms in \<open>auto simp: retired_def\<close>)

lemma enqueue_retired: "retired s \<Longrightarrow> retired (fst (enqueue i s))"
proof -
  assume s: "retired s"
  have "sc_active (fst (enqueue i s)) = sc_active s \<and> sc_lifecycle (fst (enqueue i s)) = sc_lifecycle s"
    using emit_tables(2) by (auto simp: enqueue_def Let_def same_tables_def split: sum.split)
  with s enqueue_inv [of s i] show ?thesis by (simp add: retired_def)
qed

lemma active_emit [simp]: "sc_active (emit_progress d i s) = sc_active s" "sc_active (ack_terminal x r s) = sc_active s"
  using emit_tables(2) [of s d i] by (simp_all add: same_tables_def ack_terminal_def)

lemma sweep_fold_frame: "sc_lifecycle (fold (sweep_item e d) is s) = sc_lifecycle s"
  by (induction "is" arbitrary: s) (auto simp: sweep_item_def)

lemma cancel_fold_frame: "sc_lifecycle (fold cancel_item is s) = sc_lifecycle s"
  by (induction "is" arbitrary: s) (auto simp: cancel_item_def)

lemma interrupt_retired: "retired s \<Longrightarrow> retired (fst (interrupt oe r f s))"
proof -
  assume s: "retired s"
  have "sc_lifecycle (sweep_all oe d s) = sc_lifecycle s" for d
    by (simp add: sweep_all_def Let_def sweep_fold_frame)
  with s interrupt_inv [of s oe r f] show ?thesis
    by (auto simp: retired_def interrupt_def interrupt_lease_def sweep_all_tables Let_def)
qed

lemma cancel_retired: "retired s \<Longrightarrow> retired (fst (cancel w s))"
proof -
  assume s: "retired s"
  have q: "sc_active (fst (cancel_queue k r)) = sc_active (fst r) \<and> sc_lifecycle (fst (cancel_queue k r)) = sc_lifecycle (fst r)" for k r
    using cancel_queue_tables [of k r] by (simp add: same_tables_def cancel_queue_def case_prod_beta Let_def cancel_fold_frame)
  have p: "sc_active (fst (cancel_paused k r)) = sc_active (fst r) \<and> sc_lifecycle (fst (cancel_paused k r)) = sc_lifecycle (fst r)" for k r
    using cancel_paused_tables [of k r] by (simp add: same_tables_def cancel_paused_def cancel_item_def case_prod_beta split: option.split)
  have fq: "sc_active (fst (fold cancel_queue ks r)) = sc_active (fst r) \<and> sc_lifecycle (fst (fold cancel_queue ks r)) = sc_lifecycle (fst r)" for ks r
    by (induction ks arbitrary: r) (auto simp: q)
  have fp: "sc_active (fst (fold cancel_paused ks r)) = sc_active (fst r) \<and> sc_lifecycle (fst (fold cancel_paused ks r)) = sc_lifecycle (fst r)" for ks r
    by (induction ks arbitrary: r) (auto simp: p)
  show ?thesis using s cancel_inv [of s w] fq fp by (simp add: retired_def cancel_def Let_def)
qed

lemma resume_retired: "retired s \<Longrightarrow> retired (fst (resume u t s))"
proof -
  assume s: "retired s"
  have enq: "sc_active (fst (case enqueue i v of (s, Inl e) \<Rightarrow> (s, None)
      | (s, Inr replay) \<Rightarrow> (emit_progress RESUMED replay s, Some replay))) = sc_active v \<and>
     sc_lifecycle (fst (case enqueue i v of (s, Inl e) \<Rightarrow> (s, None)
      | (s, Inr replay) \<Rightarrow> (emit_progress RESUMED replay s, Some replay))) = sc_lifecycle v" for i v
    by (auto simp: enqueue_def Let_def split: sum.split)
  show ?thesis using s resume_inv [of s u t] enq by (simp add: retired_def resume_def Let_def split: option.split)
qed

lemma discard_retired: "retired s \<Longrightarrow> retired (fst (discard_queued k m s))"
  using discard_inv [of s k m] by (auto simp: retired_def discard_queued_def Let_def)

lemma retired_item: "retired s \<Longrightarrow> active_item u s = None" "retired s \<Longrightarrow> provider_item c s = None"
  by (simp_all add: retired_def active_item_def provider_item_def)

lemma retired_step: "retired s \<Longrightarrow> retired (sc_step e s)"
proof (cases e)
  case (ScStart acc t w)
  assume "retired s"
  from start_next_retired [OF this, of acc t w] show ?thesis by (auto simp: ScStart)
next
  case (ScAdvance acc t i)
  assume s: "retired s"
  then have "retired (s\<lparr>sc_advance := remove_at i (sc_advance s)\<rparr>)" if "i < length (sc_advance s)"
    using that by (auto simp: retired_def sc_inv_def queues_inv_def paused_inv_def lease_inv_def)
  with s start_next_retired [of "s\<lparr>sc_advance := remove_at i (sc_advance s)\<rparr>" acc t] show ?thesis
    by (auto simp: ScAdvance run_advance_def Let_def split: option.splits) (metis fst_conv option.inject)+
next
  case (ScDiscardNotice k)
  assume s: "retired s"
  have "sc_lifecycle (fold (emit_progress INTERRUPTED) xs u) = sc_lifecycle u \<and>
      sc_active (fold (emit_progress INTERRUPTED) xs u) = sc_active u" for xs u
    by (induction xs arbitrary: u) auto
  with s discard_retired [OF s] sc_step_inv [of s e] show ?thesis
    by (auto simp: ScDiscardNotice discard_queued_notice_def case_prod_beta retired_def)
next
  case (ScDiscardAck k)
  assume s: "retired s"
  show ?thesis using discard_retired [OF s, of k "\<lambda>i. si_role i = ROLE_ACK \<and> si_ack_id i = Some k"]
    by (auto simp: ScDiscardAck discard_queued_ack_def split: prod.splits list.splits)
next
  case (ScSubmission i ok)
  assume s: "retired s"
  with sc_step_inv [of s e] show ?thesis
    by (auto simp: ScSubmission retired_def submission_done_def Let_def split: submission.split)
next
  case (ScFailed i)
  assume s: "retired s"
  with sc_step_inv [of s e] show ?thesis
    by (auto simp: ScFailed retired_def submission_failed_def schedule_queue_advance_def release_def Let_def split: submission.split)
next
  case (ScLifecycle e')
  assume "retired s"
  then show ?thesis by (simp add: ScLifecycle retired_def closed_step)
next
  case (ScPause k)
  assume "retired s"
  then show ?thesis by (simp add: ScPause retired_def pause_def)
next
  case (ScProviderStarted c)
  assume "retired s"
  then show ?thesis by (simp add: ScProviderStarted retired_def provider_started_def)
qed (auto simp: enqueue_retired interrupt_retired cancel_retired resume_retired retired_item
    delivery_completed_def delivery_unknown_def delivery_finished_def
    provider_synthesis_ended_def provider_delivery_completed_def provider_delivery_unknown_def)

interpretation retirement: machine sc_step retired
  by unfold_locales (rule retired_step)


definition demo_pipeline :: connection_pipeline where
  "demo_pipeline =
     \<lparr>cp_epoch = 1,
      cp_scheduler = fold sc_step [ScEnqueue (demo_item ROLE_RESULT ''u'')]
        (init_scheduler (init_session ''s'' ''t'') (init_lifecycle 0 10 1 256 True)),
      cp_lifecycle = True, cp_tts = True, cp_worker = True, cp_worker_task = True, cp_observing = True,
      cp_active = True\<rparr>"


end
