(* ===== verification/Turn_Ack.thy ===== *)
theory Turn_Ack
  imports Connection_Pipeline
begin

text \<open>
  The turn acknowledgement ledger of \<open>server/turn_ack_ledger.py\<close>: turn ids, the one-ack-per-turn latch,
  the registry of delegated children, and the bounded admission chain that tries to hand a queued
  acknowledgement to the transport.

  Connection pipelines are objects with identity: the host keeps them in a store indexed by a number,
  and \<open>origin\<close> is such an index. What the ledger reads through callables (the feature policy, the text,
  the host's current connection, \<open>accepts\<close>) is an \<open>ack_env\<close>, an argument of every step that reads it.
  The scheduler calls \<open>on_ack_terminal\<close> synchronously and never reads the ledger, so \<open>with_scheduler\<close>
  delivers the notifications of one scheduler call right after it. A coroutine is split at its
  awaits; the suspended coroutines are the entries of \<open>ta_ack_admission_tasks\<close> and \<open>ah_emitting\<close>, and any
  of them may be resumed next. \<open>ah_starts\<close> records the calls of \<open>start_next\<close> an admission chain makes.
\<close>

section \<open>Data\<close>

definition ACK_ADMISSION_MAX_ATTEMPTS :: nat where
  "ACK_ADMISSION_MAX_ATTEMPTS = 4"

definition MAX_ACK_GENERATION_TURNS :: nat where
  "MAX_ACK_GENERATION_TURNS = 2048"

record ack_env =
  ae_enable_early_ack :: bool
  ae_early_ack_text :: string
  ae_connection :: "nat option"
  ae_accepts :: "epoch \<Rightarrow> bool"

text \<open>One admission attempt of a chain.\<close>

record ack_chain =
  ch_origin :: nat
  ch_turn_id :: string
  ch_origin_epoch :: epoch
  ch_attempt :: nat
  ch_generation :: nat

text \<open>
  The coroutines: \<open>admit\<close> before it runs, \<open>admit\<close> inside \<open>start_next\<close> (with the token of its submission, and
  whether it is being cancelled), and \<open>retry_after_delay\<close>.
\<close>

datatype ack_task =
    Admit (task_chain: ack_chain)
  | AwaitAdmit (task_chain: ack_chain) string bool
  | RetryDelay (task_chain: ack_chain)

record turn_ack_ledger =
  ta_turn_sequence :: nat
  ta_ack_emitted_turns :: "string set"
  ta_ack_admission_generation :: "(string, nat) dict"
  ta_ack_generation_sequence :: nat
  ta_turn_work_items :: "(string, string set) dict"
  ta_ack_admission_tasks :: "ack_task list"

definition init_ledger :: turn_ack_ledger where
  "init_ledger =
     \<lparr>ta_turn_sequence = 0, ta_ack_emitted_turns = {}, ta_ack_admission_generation = [],
      ta_ack_generation_sequence = 0, ta_turn_work_items = [], ta_ack_admission_tasks = []\<rparr>"

record ack_host =
  ah_ledger :: turn_ack_ledger
  ah_pipelines :: "nat \<Rightarrow> connection_pipeline"
  ah_emitting :: "(nat \<times> string \<times> epoch) list"
  ah_starts :: "(nat \<times> nat) list"

section \<open>Turn ids, latch and children\<close>

definition next_turn_id :: "turn_ack_ledger \<Rightarrow> turn_ack_ledger \<times> string" where
  "next_turn_id l =
     (let n = ta_turn_sequence l + 1 in (l\<lparr>ta_turn_sequence := n\<rparr>, ''turn-'' @ show_nat n))"

definition ack_work_item_id :: "string \<Rightarrow> string" where
  "ack_work_item_id turn_id = ''ack-'' @ turn_id"

definition clear_ack_latch :: "string \<Rightarrow> turn_ack_ledger \<Rightarrow> turn_ack_ledger" where
  "clear_ack_latch turn_id l = l\<lparr>ta_ack_emitted_turns := ta_ack_emitted_turns l - {turn_id}\<rparr>"

definition register_turn_work_item :: "string \<Rightarrow> string \<Rightarrow> turn_ack_ledger \<Rightarrow> turn_ack_ledger" where
  "register_turn_work_item turn_id work_item_id l =
     l\<lparr>ta_turn_work_items := AList.update turn_id
        (insert work_item_id (case map_of (ta_turn_work_items l) turn_id of None \<Rightarrow> {} | Some ws \<Rightarrow> ws))
        (ta_turn_work_items l)\<rparr>"

definition turn_work_items :: "string \<Rightarrow> turn_ack_ledger \<Rightarrow> string set" where
  "turn_work_items turn_id l = (case map_of (ta_turn_work_items l) turn_id of None \<Rightarrow> {} | Some ws \<Rightarrow> ws)"

definition release_all_turn_work_items :: "string \<Rightarrow> turn_ack_ledger \<Rightarrow> turn_ack_ledger" where
  "release_all_turn_work_items turn_id l =
     clear_ack_latch turn_id (l\<lparr>ta_turn_work_items := AList.delete turn_id (ta_turn_work_items l)\<rparr>)"

definition release_turn_work_item :: "string \<Rightarrow> string \<Rightarrow> turn_ack_ledger \<Rightarrow> turn_ack_ledger" where
  "release_turn_work_item turn_id work_item_id l =
     (case map_of (ta_turn_work_items l) turn_id of
        None \<Rightarrow> l
      | Some items \<Rightarrow>
          let items = items - {work_item_id} in
          if items = {} then release_all_turn_work_items turn_id l
          else l\<lparr>ta_turn_work_items := AList.update turn_id items (ta_turn_work_items l)\<rparr>)"

definition ack_turn_for_work_item :: "string \<Rightarrow> turn_ack_ledger \<Rightarrow> string option" where
  "ack_turn_for_work_item work_item_id l =
     map_option fst (find (\<lambda>(candidate, work_items).
        work_item_id \<in> work_items \<and> candidate \<in> ta_ack_emitted_turns l) (ta_turn_work_items l))"

definition on_ack_terminal ::
    "generation_identity \<Rightarrow> pre_admission_terminal_reason \<Rightarrow> turn_ack_ledger \<Rightarrow> turn_ack_ledger" where
  "on_ack_terminal identity reason l =
     (case gi_turn_id identity of None \<Rightarrow> l | Some t \<Rightarrow> clear_ack_latch t l)"

definition clear_all :: "turn_ack_ledger \<Rightarrow> turn_ack_ledger" where
  "clear_all l = l\<lparr>ta_turn_work_items := [], ta_ack_emitted_turns := {}, ta_ack_admission_generation := []\<rparr>"

section \<open>Calls into a scheduler\<close>

definition with_scheduler :: "nat \<Rightarrow> (scheduler \<Rightarrow> scheduler) \<Rightarrow> ack_host \<Rightarrow> ack_host" where
  "with_scheduler origin f h =
     (let c = ah_pipelines h origin; s = cp_scheduler c; s' = f s in
      h\<lparr>ah_pipelines := (ah_pipelines h)(origin := c\<lparr>cp_scheduler := s'\<rparr>),
        ah_ledger := fold (\<lambda>(i, r). on_ack_terminal i r) (drop (length (sc_acks s)) (sc_acks s')) (ah_ledger h)\<rparr>)"

definition settle_turn_ack :: "nat \<Rightarrow> string \<Rightarrow> bool \<Rightarrow> ack_host \<Rightarrow> ack_host" where
  "settle_turn_ack origin turn_id cancel_admitted h =
     (let k = ack_work_item_id turn_id;
          h = (if cancel_admitted then with_scheduler origin (\<lambda>s. fst (cancel (Some k) s)) h else h);
          h = with_scheduler origin (\<lambda>s. fst (discard_queued_ack k s)) h
      in h\<lparr>ah_ledger := clear_ack_latch turn_id (ah_ledger h)\<rparr>)"

text \<open>The local function \<open>enqueue_ack\<close> of \<open>emit_early_ack\<close>; \<open>utterance\<close> is the id the item mints.\<close>

definition ack_item :: "ack_env \<Rightarrow> string \<Rightarrow> string \<Rightarrow> epoch \<Rightarrow> speech_item" where
  "ack_item env utterance turn_id origin_epoch =
     (let k = ack_work_item_id turn_id in
      \<lparr>si_result_id = None, si_work_item_id = k, si_run_id = ''run-'' @ k, si_text = ae_early_ack_text env,
       si_utterance_id = utterance, si_origin_epoch = Some origin_epoch, si_role = ROLE_ACK,
       si_ack_id = Some k, si_turn_id = Some turn_id\<rparr>)"

definition enqueue_ack :: "ack_env \<Rightarrow> string \<Rightarrow> nat \<Rightarrow> string \<Rightarrow> epoch \<Rightarrow> ack_host \<Rightarrow> ack_host" where
  "enqueue_ack env utterance origin turn_id origin_epoch h =
     with_scheduler origin (\<lambda>s. fst (enqueue (ack_item env utterance turn_id origin_epoch) s)) h"

section \<open>Admission chains\<close>

definition claim_ack_admission_generation :: "string \<Rightarrow> turn_ack_ledger \<Rightarrow> turn_ack_ledger \<times> nat" where
  "claim_ack_admission_generation turn_id l =
     (let g = ta_ack_generation_sequence l + 1 in
      (l\<lparr>ta_ack_generation_sequence := g,
         ta_ack_admission_generation :=
           lru_put MAX_ACK_GENERATION_TURNS turn_id g (ta_ack_admission_generation l)\<rparr>, g))"

definition add_task :: "ack_task \<Rightarrow> ack_host \<Rightarrow> ack_host" where
  "add_task k h = h\<lparr>ah_ledger := (ah_ledger h)\<lparr>ta_ack_admission_tasks := ta_ack_admission_tasks (ah_ledger h) @ [k]\<rparr>\<rparr>"

definition schedule_ack_admission ::
    "nat \<Rightarrow> string \<Rightarrow> epoch \<Rightarrow> nat \<Rightarrow> nat option \<Rightarrow> ack_host \<Rightarrow> ack_host" where
  "schedule_ack_admission origin turn_id origin_epoch attempt generation h =
     (let (l, g) = (case generation of
                      None \<Rightarrow> claim_ack_admission_generation turn_id (ah_ledger h)
                    | Some g \<Rightarrow> (ah_ledger h, g))
      in add_task (Admit \<lparr>ch_origin = origin, ch_turn_id = turn_id, ch_origin_epoch = origin_epoch,
                          ch_attempt = attempt, ch_generation = g\<rparr>) (h\<lparr>ah_ledger := l\<rparr>))"

text \<open>A newer chain holds the turn; an evicted entry does not count.\<close>

definition superseded :: "ack_chain \<Rightarrow> turn_ack_ledger \<Rightarrow> bool" where
  "superseded ch l =
     (case map_of (ta_ack_admission_generation l) (ch_turn_id ch) of
        None \<Rightarrow> False
      | Some g \<Rightarrow> g \<noteq> ch_generation ch)"

definition chain_live :: "ack_env \<Rightarrow> ack_chain \<Rightarrow> ack_host \<Rightarrow> bool" where
  "chain_live env ch h \<longleftrightarrow>
     ch_turn_id ch \<in> ta_ack_emitted_turns (ah_ledger h) \<and> ae_connection env = Some (ch_origin ch) \<and>
     cp_active (ah_pipelines h (ch_origin ch)) \<and>
     cp_epoch (ah_pipelines h (ch_origin ch)) = ch_origin_epoch ch \<and> ae_accepts env (ch_origin_epoch ch)"

definition retry_or_abandon :: "ack_env \<Rightarrow> string \<Rightarrow> bool \<Rightarrow> ack_chain \<Rightarrow> ack_host \<Rightarrow> ack_host" where
  "retry_or_abandon env utterance needs_requeue ch h =
     (if superseded ch (ah_ledger h) then h
      else if \<not> chain_live env ch h then settle_turn_ack (ch_origin ch) (ch_turn_id ch) False h
      else if ACK_ADMISSION_MAX_ATTEMPTS \<le> ch_attempt ch
      then settle_turn_ack (ch_origin ch) (ch_turn_id ch) False h
      else
        add_task (RetryDelay ch)
          (if needs_requeue
           then enqueue_ack env utterance (ch_origin ch) (ch_turn_id ch) (ch_origin_epoch ch) h else h))"

text \<open>
  \<open>admit\<close> up to the await inside \<open>start_next\<close>. \<open>acceptance\<close> and \<open>token\<close> are what \<open>start_next\<close> reads from
  the transport and mints.
\<close>

definition admit :: "ack_env \<Rightarrow> bool option \<Rightarrow> string \<Rightarrow> string \<Rightarrow> ack_chain \<Rightarrow> ack_host \<Rightarrow> ack_host" where
  "admit env acceptance token utterance ch h =
     (if superseded ch (ah_ledger h) then h
      else
        let h = h\<lparr>ah_starts := ah_starts h @ [(ch_generation ch, ch_attempt ch)]\<rparr>;
            k = ack_work_item_id (ch_turn_id ch) in
        case start_next acceptance token (Some k) (cp_scheduler (ah_pipelines h (ch_origin ch))) of
          None \<Rightarrow> h
        | Some (s', result) \<Rightarrow>
            let h = with_scheduler (ch_origin ch) (\<lambda>s. s') h in
            (case result of
               None \<Rightarrow> retry_or_abandon env utterance False ch h
             | Some item \<Rightarrow> add_task (AwaitAdmit ch token False) h))"

text \<open>The submission a suspended \<open>start_next\<close> waits for.\<close>

fun submission_token :: "submission \<Rightarrow> string" where
  "submission_token (Speaking item t) = t"
| "submission_token (Failing item t) = t"

fun submission_index :: "string \<Rightarrow> submission list \<Rightarrow> nat option" where
  "submission_index t [] = None"
| "submission_index t (x # xs) = (if submission_token x = t then Some 0 else map_option Suc (submission_index t xs))"

text \<open>How an await ends: with a value, with an exception, or by cancellation of the task.\<close>

datatype await_outcome = Returned | Raised | TaskCancelled

definition await_admit :: "ack_env \<Rightarrow> string \<Rightarrow> await_outcome \<Rightarrow> ack_chain \<Rightarrow> string \<Rightarrow> bool \<Rightarrow> ack_host \<Rightarrow> ack_host" where
  "await_admit env utterance outcome ch token cancelled h =
     (let s = cp_scheduler (ah_pipelines h (ch_origin ch)) in
      case submission_index token (sc_submissions s) of
        None \<Rightarrow> h
      | Some i \<Rightarrow>
          (case sc_submissions s ! i of
             Speaking item t \<Rightarrow>
               if outcome = Returned then with_scheduler (ch_origin ch) (submission_done i True) h
               else add_task (AwaitAdmit ch token (outcome = TaskCancelled))
                      (with_scheduler (ch_origin ch) (submission_done i False) h)
           | Failing item t \<Rightarrow>
               let h = with_scheduler (ch_origin ch) (submission_failed i) h in
               if cancelled then h else retry_or_abandon env utterance True ch h))"

definition remove_task :: "nat \<Rightarrow> ack_host \<Rightarrow> ack_host" where
  "remove_task i h = h\<lparr>ah_ledger := (ah_ledger h)
     \<lparr>ta_ack_admission_tasks := remove_at i (ta_ack_admission_tasks (ah_ledger h))\<rparr>\<rparr>"

text \<open>Resume one of the suspended coroutines; cancelling one that has not reached \<open>start_next\<close> ends it.\<close>

definition run_ack_task ::
    "ack_env \<Rightarrow> bool option \<Rightarrow> string \<Rightarrow> string \<Rightarrow> await_outcome \<Rightarrow> nat \<Rightarrow> ack_host \<Rightarrow> ack_host" where
  "run_ack_task env acceptance token utterance outcome i h =
     (if i < length (ta_ack_admission_tasks (ah_ledger h)) then
        let k = ta_ack_admission_tasks (ah_ledger h) ! i; h = remove_task i h in
        (case k of
           AwaitAdmit ch t cancelled \<Rightarrow> await_admit env utterance outcome ch t cancelled h
         | Admit ch \<Rightarrow>
             if outcome = TaskCancelled then h else admit env acceptance token utterance ch h
         | RetryDelay ch \<Rightarrow>
             if outcome = TaskCancelled then h
             else schedule_ack_admission (ch_origin ch) (ch_turn_id ch) (ch_origin_epoch ch)
                    (ch_attempt ch + 1) (Some (ch_generation ch)) h)
      else h)"

section \<open>Emitting an acknowledgement\<close>

definition queue_early_ack :: "ack_env \<Rightarrow> string \<Rightarrow> nat \<Rightarrow> string \<Rightarrow> epoch \<Rightarrow> ack_host \<Rightarrow> ack_host" where
  "queue_early_ack env utterance origin turn_id origin_epoch h =
     (let h = enqueue_ack env utterance origin turn_id origin_epoch h;
          h = h\<lparr>ah_ledger := (ah_ledger h)\<lparr>ta_ack_emitted_turns := insert turn_id (ta_ack_emitted_turns (ah_ledger h))\<rparr>\<rparr>
      in schedule_ack_admission origin turn_id origin_epoch 1 None h)"

datatype ack_error = SearchTaskNotDispatched

definition emit_early_ack ::
    "ack_env \<Rightarrow> string \<Rightarrow> nat \<Rightarrow> string \<Rightarrow> epoch \<Rightarrow> bool \<Rightarrow> bool \<Rightarrow> ack_host \<Rightarrow> ack_error + ack_host" where
  "emit_early_ack env utterance origin turn_id origin_epoch dispatched search_task h =
     (if dispatched \<and> \<not> search_task then Inr h
      else if \<not> dispatched \<and> search_task then Inl SearchTaskNotDispatched
      else if \<not> ae_enable_early_ack env \<or> turn_id \<in> ta_ack_emitted_turns (ah_ledger h) then Inr h
      else if \<not> cp_tts (ah_pipelines h origin) \<or> ae_connection env \<noteq> Some origin \<or>
              \<not> cp_active (ah_pipelines h origin) \<or> \<not> ae_accepts env origin_epoch then Inr h
      else if search_task then Inr (h\<lparr>ah_emitting := ah_emitting h @ [(origin, turn_id, origin_epoch)]\<rparr>)
      else Inr (queue_early_ack env utterance origin turn_id origin_epoch h))"

text \<open>After the one scheduling tick of a dispatched search.\<close>

definition emit_resumed :: "ack_env \<Rightarrow> string \<Rightarrow> bool \<Rightarrow> nat \<Rightarrow> ack_host \<Rightarrow> ack_host" where
  "emit_resumed env utterance search_done i h =
     (if i < length (ah_emitting h) then
        let (origin, turn_id, origin_epoch) = ah_emitting h ! i;
            h = h\<lparr>ah_emitting := remove_at i (ah_emitting h)\<rparr> in
        if search_done then h else queue_early_ack env utterance origin turn_id origin_epoch h
      else h)"

end
