(* ===== verification/Turn_Ack_Properties.thy ===== *)
theory Turn_Ack_Properties
  imports Turn_Ack
begin

text \<open>
  The acknowledgement ledger as a machine whose steps are its methods, the resumption of any of its
  coroutines, and arbitrary changes of the connections around it; the invariant of its admission
  chains; and its properties: bounded and fenced admission chains, an abandoned chain that leaves
  nothing behind, and what emitting an acknowledgement does on every branch.
\<close>

section \<open>Steps\<close>

datatype ack_op =
    TaNextTurn
  | TaRegister string string
  | TaRelease string string
  | TaReleaseAll string
  | TaClearLatch string
  | TaClearAll
  | TaSettle nat string bool
  | TaEmit ack_env string nat string epoch bool bool
  | TaEmitResumed ack_env string bool nat
  | TaRun ack_env "bool option" string string await_outcome nat
  | TaScheduler nat sc_op
  | TaPipeline nat connection_pipeline

definition on_ledger :: "(turn_ack_ledger \<Rightarrow> turn_ack_ledger) \<Rightarrow> ack_host \<Rightarrow> ack_host" where
  "on_ledger f h = h\<lparr>ah_ledger := f (ah_ledger h)\<rparr>"

primrec ack_step :: "ack_op \<Rightarrow> ack_host \<Rightarrow> ack_host" where
  "ack_step TaNextTurn h = on_ledger (\<lambda>l. fst (next_turn_id l)) h"
| "ack_step (TaRegister t w) h = on_ledger (register_turn_work_item t w) h"
| "ack_step (TaRelease t w) h = on_ledger (release_turn_work_item t w) h"
| "ack_step (TaReleaseAll t) h = on_ledger (release_all_turn_work_items t) h"
| "ack_step (TaClearLatch t) h = on_ledger (clear_ack_latch t) h"
| "ack_step TaClearAll h = on_ledger clear_all h"
| "ack_step (TaSettle origin t b) h = settle_turn_ack origin t b h"
| "ack_step (TaEmit env u origin t e dispatched search) h =
     (case emit_early_ack env u origin t e dispatched search h of Inl _ \<Rightarrow> h | Inr h' \<Rightarrow> h')"
| "ack_step (TaEmitResumed env u search_done i) h = emit_resumed env u search_done i h"
| "ack_step (TaRun env acc token u outcome i) h = run_ack_task env acc token u outcome i h"
| "ack_step (TaScheduler origin x) h = with_scheduler origin (sc_step x) h"
| "ack_step (TaPipeline origin c) h = h\<lparr>ah_pipelines := (ah_pipelines h)(origin := c)\<rparr>"

definition init_host :: "(nat \<Rightarrow> connection_pipeline) \<Rightarrow> ack_host" where
  "init_host ps = \<lparr>ah_ledger = init_ledger, ah_pipelines = ps, ah_emitting = [], ah_starts = []\<rparr>"

section \<open>Admission chains\<close>

abbreviation gens :: "ack_host \<Rightarrow> (string, nat) dict" where
  "gens h \<equiv> ta_ack_admission_generation (ah_ledger h)"

abbreviation seq :: "ack_host \<Rightarrow> nat" where
  "seq h \<equiv> ta_ack_generation_sequence (ah_ledger h)"

abbreviation tasks :: "ack_host \<Rightarrow> ack_task list" where
  "tasks h \<equiv> ta_ack_admission_tasks (ah_ledger h)"

abbreviation generation_of :: "ack_task \<Rightarrow> nat" where
  "generation_of k \<equiv> ch_generation (task_chain k)"

text \<open>The number the next \<open>start_next\<close> call of a coroutine's chain can have.\<close>

fun next_attempt :: "ack_task \<Rightarrow> nat" where
  "next_attempt (Admit ch) = ch_attempt ch"
| "next_attempt (AwaitAdmit ch t b) = ch_attempt ch + 1"
| "next_attempt (RetryDelay ch) = ch_attempt ch + 1"

fun attempt_ok :: "ack_task \<Rightarrow> bool" where
  "attempt_ok (Admit ch) \<longleftrightarrow> 1 \<le> ch_attempt ch \<and> ch_attempt ch \<le> ACK_ADMISSION_MAX_ATTEMPTS"
| "attempt_ok (AwaitAdmit ch t b) \<longleftrightarrow> 1 \<le> ch_attempt ch \<and> ch_attempt ch \<le> ACK_ADMISSION_MAX_ATTEMPTS"
| "attempt_ok (RetryDelay ch) \<longleftrightarrow> 1 \<le> ch_attempt ch \<and> ch_attempt ch < ACK_ADMISSION_MAX_ATTEMPTS"

definition task_inv :: "ack_host \<Rightarrow> ack_task \<Rightarrow> bool" where
  "task_inv h k \<longleftrightarrow> attempt_ok k \<and> generation_of k \<le> seq h \<and>
     (\<forall>g. map_of (gens h) (ch_turn_id (task_chain k)) = Some g \<longrightarrow> generation_of k \<le> g) \<and>
     (\<forall>a. (generation_of k, a) \<in> set (ah_starts h) \<longrightarrow> a < next_attempt k)"

definition gens_inv :: "ack_host \<Rightarrow> bool" where
  "gens_inv h \<longleftrightarrow> wf_dict (gens h) \<and> length (gens h) \<le> MAX_ACK_GENERATION_TURNS \<and>
     (\<forall>t g. map_of (gens h) t = Some g \<longrightarrow> g \<le> seq h)"

definition starts_inv :: "ack_host \<Rightarrow> bool" where
  "starts_inv h \<longleftrightarrow> distinct (ah_starts h) \<and>
     (\<forall>(g, a) \<in> set (ah_starts h). g \<le> seq h \<and> 1 \<le> a \<and> a \<le> ACK_ADMISSION_MAX_ATTEMPTS)"

definition chains_inv :: "ack_host \<Rightarrow> bool" where
  "chains_inv h \<longleftrightarrow> gens_inv h \<and> starts_inv h \<and> distinct (map generation_of (tasks h)) \<and>
     (\<forall>k \<in> set (tasks h). task_inv h k)"

lemmas chain_defs = chains_inv_def gens_inv_def starts_inv_def task_inv_def

interpretation generations: bounded_cache
  "lru_put MAX_ACK_GENERATION_TURNS" map_of length MAX_ACK_GENERATION_TURNS wf_dict
  by unfold_locales
    (auto simp: length_lru_put map_of_lru_put_same MAX_ACK_GENERATION_TURNS_def dest: map_of_lru_put_other)

text \<open>Most steps leave the chains alone.\<close>

definition same_chains :: "ack_host \<Rightarrow> ack_host \<Rightarrow> bool" where
  "same_chains h h' \<longleftrightarrow> gens h' = gens h \<and> seq h' = seq h \<and> tasks h' = tasks h \<and> ah_starts h' = ah_starts h"

lemma same_chains_inv: "same_chains h h' \<Longrightarrow> chains_inv h' = chains_inv h"
  by (simp add: same_chains_def chain_defs)

lemma same_chains_refl [simp]: "same_chains h h"
  by (simp add: same_chains_def)

lemma same_chains_trans: "same_chains h h' \<Longrightarrow> same_chains h' h'' \<Longrightarrow> same_chains h h''"
  by (simp add: same_chains_def)

lemma ack_terminal_frame:
  "ta_ack_admission_generation (on_ack_terminal i r l) = ta_ack_admission_generation l"
  "ta_ack_generation_sequence (on_ack_terminal i r l) = ta_ack_generation_sequence l"
  "ta_ack_admission_tasks (on_ack_terminal i r l) = ta_ack_admission_tasks l"
  by (simp_all add: on_ack_terminal_def clear_ack_latch_def split: option.split)

lemma ack_terminals_frame:
  "ta_ack_admission_generation (fold (\<lambda>(i, r). on_ack_terminal i r) xs l) = ta_ack_admission_generation l \<and>
   ta_ack_generation_sequence (fold (\<lambda>(i, r). on_ack_terminal i r) xs l) = ta_ack_generation_sequence l \<and>
   ta_ack_admission_tasks (fold (\<lambda>(i, r). on_ack_terminal i r) xs l) = ta_ack_admission_tasks l"
  by (induction xs arbitrary: l) (auto simp: ack_terminal_frame)

lemma same_with_scheduler [simp]: "same_chains h (with_scheduler origin f h)"
  by (simp add: same_chains_def with_scheduler_def Let_def ack_terminals_frame)

lemma same_enqueue_ack [simp]: "same_chains h (enqueue_ack env u origin t e h)"
  by (simp add: enqueue_ack_def)

lemma same_settle [simp]: "same_chains h (settle_turn_ack origin t b h)"
proof -
  have latch: "same_chains h' (h'\<lparr>ah_ledger := clear_ack_latch t (ah_ledger h')\<rparr>)" for h'
    by (simp add: same_chains_def clear_ack_latch_def)
  have two: "same_chains h (with_scheduler origin f (with_scheduler origin g h))" for f g
    by (blast intro: same_chains_trans same_with_scheduler)
  show ?thesis
    by (auto simp: settle_turn_ack_def Let_def intro: same_chains_trans [OF two latch] same_chains_trans [OF same_with_scheduler latch])
qed

lemma same_ledger:
  assumes "ta_ack_admission_generation (f (ah_ledger h)) = gens h" "ta_ack_generation_sequence (f (ah_ledger h)) = seq h"
    "ta_ack_admission_tasks (f (ah_ledger h)) = tasks h"
  shows "same_chains h (on_ledger f h)"
  using assms by (simp add: same_chains_def on_ledger_def)

lemma same_children [simp]:
  "same_chains h (on_ledger (\<lambda>l. fst (next_turn_id l)) h)" "same_chains h (on_ledger (register_turn_work_item t w) h)"
  "same_chains h (on_ledger (release_turn_work_item t w) h)" "same_chains h (on_ledger (release_all_turn_work_items t) h)"
  "same_chains h (on_ledger (clear_ack_latch t) h)"
  by (rule same_ledger; simp add: next_turn_id_def register_turn_work_item_def release_turn_work_item_def
      release_all_turn_work_items_def clear_ack_latch_def Let_def split: option.split)+

section \<open>Transitions of the chains\<close>

text \<open>A coroutine that ran: it may have called \<open>start_next\<close> once and left one successor.\<close>

lemma replace_task_inv:
  assumes inv: "chains_inv h" and i: "i < length (tasks h)"
    and same: "gens h' = gens h" "seq h' = seq h"
    and ts: "tasks h' = remove_at i (tasks h) @ new"
    and st: "ah_starts h' = ah_starts h @ called"
    and called: "called = [] \<or> called = [(generation_of (tasks h ! i), next_attempt (tasks h ! i))] \<and>
        1 \<le> next_attempt (tasks h ! i) \<and> next_attempt (tasks h ! i) \<le> ACK_ADMISSION_MAX_ATTEMPTS"
    and new: "new = [] \<or> (\<exists>k. new = [k] \<and> generation_of k = generation_of (tasks h ! i) \<and>
        ch_turn_id (task_chain k) = ch_turn_id (task_chain (tasks h ! i)) \<and> attempt_ok k \<and>
        next_attempt (tasks h ! i) + length called \<le> next_attempt k)"
  shows "chains_inv h'"
proof -
  define k where "k = tasks h ! i"
  obtain xs ys where t: "tasks h = xs @ k # ys" "remove_at i (tasks h) = xs @ ys"
    using id_take_nth_drop [OF i] by (simp add: remove_at_def k_def)
  note called' = called [folded k_def] and new' = new [folded k_def]
  have d0: "distinct (map generation_of (xs @ k # ys))" and all: "\<forall>x \<in> set (xs @ k # ys). task_inv h x"
    using inv t(1) by (simp_all add: chains_inv_def)
  then have k: "task_inv h k" by simp
  have fresh: "generation_of x \<noteq> generation_of k" if "x \<in> set (xs @ ys)" for x
    using d0 that by (auto simp: image_iff)
  have old: "task_inv h' x" if "x \<in> set (xs @ ys)" for x
  proof -
    have "task_inv h x" using all that by auto
    with fresh [OF that] called' same st show ?thesis by (auto simp: task_inv_def)
  qed
  have succ: "task_inv h' x" if "x \<in> set new" for x
  proof -
    have n: "generation_of x = generation_of k" "ch_turn_id (task_chain x) = ch_turn_id (task_chain k)"
      "attempt_ok x" "next_attempt k + length called \<le> next_attempt x" using new' that by auto
    have "a < next_attempt x" if "(generation_of k, a) \<in> set (ah_starts h')" for a
      using that st called' k n(4) by (force simp: task_inv_def)
    with n k same show ?thesis by (simp add: task_inv_def)
  qed
  have "starts_inv h'"
    using inv called' k same st by (auto simp: chains_inv_def starts_inv_def task_inv_def)
  moreover have "distinct (map generation_of (tasks h'))"
    using new' d0 fresh unfolding ts t(2) by (auto simp: image_iff)
  moreover have "\<forall>x \<in> set (tasks h'). task_inv h' x"
    using old succ unfolding ts t(2) by auto
  ultimately show ?thesis using inv same by (simp add: chains_inv_def gens_inv_def)
qed

lemma claim_inv:
  assumes inv: "chains_inv h" and h': "gens h' = lru_put MAX_ACK_GENERATION_TURNS t (Suc (seq h)) (gens h)"
      "seq h' = Suc (seq h)" "tasks h' = tasks h @ [k]" "ah_starts h' = ah_starts h"
    and k: "generation_of k = Suc (seq h)" "ch_turn_id (task_chain k) = t" "attempt_ok k"
  shows "chains_inv h'"
proof -
  have wf: "wf_dict (gens h)" using inv by (simp add: chain_defs)
  have look: "map_of (gens h') t' = Some g \<Longrightarrow> if t' = t then g = Suc (seq h) else map_of (gens h) t' = Some g" for t' g
    using generations.get_put_same [OF wf, of t "Suc (seq h)"] generations.get_put_other [OF wf, of t' t "Suc (seq h)" g]
    by (auto simp: h'(1))
  have "g \<le> Suc (seq h)" if "map_of (gens h') t' = Some g" for t' g
    using look [OF that] inv by (auto simp: chain_defs split: if_splits intro: le_SucI)
  then have "gens_inv h'"
    using generations.put_invar [OF wf, of t "Suc (seq h)"] generations.put_bounded [OF wf, of t "Suc (seq h)"]
    by (simp add: gens_inv_def h'(1,2))
  moreover have "starts_inv h'" using inv by (auto simp: chains_inv_def starts_inv_def h'(2,4))
  moreover have "task_inv h' x" if "x \<in> set (tasks h)" for x
  proof -
    have x: "task_inv h x" using inv that by (simp add: chains_inv_def)
    then have "generation_of x \<le> g" if "map_of (gens h') (ch_turn_id (task_chain x)) = Some g" for g
      using look [OF that] by (auto simp: task_inv_def split: if_splits)
    with x show ?thesis by (simp add: task_inv_def h'(2,4))
  qed
  moreover have "task_inv h' k"
    using k look [of t] inv by (auto simp: task_inv_def h'(2,4) chains_inv_def starts_inv_def)
  moreover have "generation_of k \<notin> generation_of ` set (tasks h)"
    using inv k(1) by (force simp: chains_inv_def task_inv_def)
  ultimately show ?thesis using inv by (auto simp: chains_inv_def h'(3))
qed

text \<open>What the coroutines do to the chains.\<close>

lemma add_task_chains [simp]:
  "gens (add_task k h) = gens h" "seq (add_task k h) = seq h" "tasks (add_task k h) = tasks h @ [k]"
  "ah_starts (add_task k h) = ah_starts h"
  by (simp_all add: add_task_def)

lemma remove_task_chains [simp]:
  "gens (remove_task i h) = gens h" "seq (remove_task i h) = seq h" "tasks (remove_task i h) = remove_at i (tasks h)"
  "ah_starts (remove_task i h) = ah_starts h"
  by (simp_all add: remove_task_def)

definition successor :: "ack_chain \<Rightarrow> nat \<Rightarrow> ack_task list \<Rightarrow> bool" where
  "successor ch n new \<longleftrightarrow> new = [] \<or> (\<exists>k. new = [k] \<and> task_chain k = ch \<and> n \<le> next_attempt k \<and>
     (1 \<le> ch_attempt ch \<longrightarrow> ch_attempt ch \<le> ACK_ADMISSION_MAX_ATTEMPTS \<longrightarrow> attempt_ok k))"

lemma retry_chains:
  "\<exists>new. gens (retry_or_abandon env u b ch h) = gens h \<and> seq (retry_or_abandon env u b ch h) = seq h \<and>
     ah_starts (retry_or_abandon env u b ch h) = ah_starts h \<and>
     tasks (retry_or_abandon env u b ch h) = tasks h @ new \<and> successor ch (ch_attempt ch + 1) new"
proof -
  have s: "same_chains h (settle_turn_ack origin t c h)" for origin t c by simp
  have e: "same_chains h (enqueue_ack env u origin t e h)" for origin t e by simp
  show ?thesis
    using s e unfolding retry_or_abandon_def same_chains_def
    by (auto simp: successor_def)
qed

lemma admit_chains:
  "\<exists>new called. gens (admit env acc token u ch h) = gens h \<and> seq (admit env acc token u ch h) = seq h \<and>
     ah_starts (admit env acc token u ch h) = ah_starts h @ called \<and>
     tasks (admit env acc token u ch h) = tasks h @ new \<and>
     (called = [] \<or> called = [(ch_generation ch, ch_attempt ch)]) \<and> successor ch (ch_attempt ch + 1) new"
proof (cases "superseded ch (ah_ledger h)")
  case True
  then show ?thesis by (simp add: admit_def successor_def)
next
  case False
  let ?h = "h\<lparr>ah_starts := ah_starts h @ [(ch_generation ch, ch_attempt ch)]\<rparr>"
  let ?r = "start_next acc token (Some (ack_work_item_id (ch_turn_id ch))) (cp_scheduler (ah_pipelines h (ch_origin ch)))"
  show ?thesis
  proof (cases ?r)
    case None
    with False show ?thesis by (simp add: admit_def successor_def Let_def)
  next
    case (Some r)
    obtain s' i where r: "?r = Some (s', i)" using Some by (cases r) simp
    let ?w = "with_scheduler (ch_origin ch) (\<lambda>s. s') ?h"
    have w: "same_chains ?h ?w" by simp
    show ?thesis
    proof (cases i)
      case None
      then have "admit env acc token u ch h = retry_or_abandon env u False ch ?w"
        using False r by (simp add: admit_def Let_def)
      with retry_chains [of env u False ch ?w] w show ?thesis
        by (intro exI [of _ "drop (length (tasks h)) (tasks (admit env acc token u ch h))"]
            exI [of _ "[(ch_generation ch, ch_attempt ch)]"]) (auto simp: same_chains_def)
    next
      case (Some item)
      then have "admit env acc token u ch h = add_task (AwaitAdmit ch token False) ?w"
        using False r by (simp add: admit_def Let_def)
      with w show ?thesis by (auto simp: same_chains_def successor_def)
    qed
  qed
qed

lemma await_chains:
  "\<exists>new. gens (await_admit env u out ch token c h) = gens h \<and> seq (await_admit env u out ch token c h) = seq h \<and>
     ah_starts (await_admit env u out ch token c h) = ah_starts h \<and>
     tasks (await_admit env u out ch token c h) = tasks h @ new \<and> successor ch (ch_attempt ch + 1) new"
proof -
  have w: "same_chains h (with_scheduler origin f h)" for origin f by simp
  have r: "\<exists>new. gens (retry_or_abandon env u True ch (with_scheduler origin f h)) = gens h \<and>
     seq (retry_or_abandon env u True ch (with_scheduler origin f h)) = seq h \<and>
     ah_starts (retry_or_abandon env u True ch (with_scheduler origin f h)) = ah_starts h \<and>
     tasks (retry_or_abandon env u True ch (with_scheduler origin f h)) = tasks h @ new \<and>
     successor ch (ch_attempt ch + 1) new" for origin f
    using retry_chains [of env u True ch "with_scheduler origin f h"] w [of origin f] by (simp add: same_chains_def)
  show ?thesis
    using r w unfolding await_admit_def same_chains_def
    by (auto simp: Let_def successor_def split: option.split submission.split)
qed

lemma run_ack_task_inv:
  assumes inv: "chains_inv h"
  shows "chains_inv (run_ack_task env acc token u out i h)"
proof (cases "i < length (tasks h)")
  case True
  let ?h = "remove_task i h"
  have "task_inv h (tasks h ! i)" using inv True by (simp add: chains_inv_def)
  then have ok: "attempt_ok (tasks h ! i)" by (simp add: task_inv_def)
  note replace = replace_task_inv [OF inv True]
  have removed: "chains_inv ?h" by (rule replace [where new = "[]" and called = "[]"]) simp_all
  show ?thesis
  proof (cases "tasks h ! i")
    case (Admit ch)
    obtain new called where n: "tasks (admit env acc token u ch ?h) = remove_at i (tasks h) @ new"
      "ah_starts (admit env acc token u ch ?h) = ah_starts h @ called"
      "gens (admit env acc token u ch ?h) = gens h" "seq (admit env acc token u ch ?h) = seq h"
      "called = [] \<or> called = [(ch_generation ch, ch_attempt ch)]" "successor ch (ch_attempt ch + 1) new"
      using admit_chains [of env acc token u ch ?h] by auto
    have "chains_inv (admit env acc token u ch ?h)"
      by (rule replace [OF n(3,4,1,2)]) (use n(5,6) ok Admit in \<open>auto simp: successor_def\<close>)
    with Admit True removed show ?thesis by (simp add: run_ack_task_def Let_def)
  next
    case (AwaitAdmit ch t c)
    obtain new where n: "tasks (await_admit env u out ch t c ?h) = remove_at i (tasks h) @ new"
      "ah_starts (await_admit env u out ch t c ?h) = ah_starts h @ []"
      "gens (await_admit env u out ch t c ?h) = gens h" "seq (await_admit env u out ch t c ?h) = seq h"
      "successor ch (ch_attempt ch + 1) new"
      using await_chains [of env u out ch t c ?h] by auto
    have "chains_inv (await_admit env u out ch t c ?h)"
      by (rule replace [OF n(3,4,1,2)]) (use n(5) ok AwaitAdmit in \<open>auto simp: successor_def\<close>)
    with AwaitAdmit True show ?thesis by (simp add: run_ack_task_def Let_def)
  next
    case (RetryDelay ch)
    let ?n = "\<lparr>ch_origin = ch_origin ch, ch_turn_id = ch_turn_id ch, ch_origin_epoch = ch_origin_epoch ch,
        ch_attempt = ch_attempt ch + 1, ch_generation = ch_generation ch\<rparr>"
    have "chains_inv (schedule_ack_admission (ch_origin ch) (ch_turn_id ch) (ch_origin_epoch ch) (ch_attempt ch + 1)
        (Some (ch_generation ch)) ?h)"
      by (rule replace [where new = "[Admit ?n]" and called = "[]"])
        (use ok RetryDelay in \<open>auto simp: schedule_ack_admission_def\<close>)
    with RetryDelay True removed show ?thesis by (simp add: run_ack_task_def Let_def)
  qed
qed (use inv in \<open>simp add: run_ack_task_def\<close>)

lemma queue_early_ack_inv:
  assumes inv: "chains_inv h"
  shows "chains_inv (queue_early_ack env u origin t e h)"
proof -
  have s: "same_chains h (enqueue_ack env u origin t e h)" by simp
  have e: "chains_inv (enqueue_ack env u origin t e h)" using inv by (simp add: same_chains_inv [OF s])
  show ?thesis
    by (rule claim_inv [OF e, where t = t and k = "Admit \<lparr>ch_origin = origin, ch_turn_id = t, ch_origin_epoch = e,
          ch_attempt = 1, ch_generation = Suc (seq (enqueue_ack env u origin t e h))\<rparr>"])
      (simp_all add: queue_early_ack_def schedule_ack_admission_def claim_ack_admission_generation_def
        ACK_ADMISSION_MAX_ATTEMPTS_def Let_def)
qed

lemma ack_step_inv: "chains_inv h \<Longrightarrow> chains_inv (ack_step x h)"
proof (cases x)
  case (TaEmit env u origin t e dispatched search)
  assume inv: "chains_inv h"
  have "same_chains h (h\<lparr>ah_emitting := y\<rparr>)" for y by (simp add: same_chains_def)
  from same_chains_inv [OF this] inv queue_early_ack_inv [OF inv] show ?thesis
    by (simp add: TaEmit emit_early_ack_def)
next
  case (TaEmitResumed env u d i)
  assume inv: "chains_inv h"
  have "same_chains h (h\<lparr>ah_emitting := y\<rparr>)" for y by (simp add: same_chains_def)
  from same_chains_inv [OF this] inv have "chains_inv (h\<lparr>ah_emitting := y\<rparr>)" for y by simp
  from this queue_early_ack_inv [OF this] inv show ?thesis
    by (auto simp: TaEmitResumed emit_resumed_def Let_def split: prod.split)
next
  case TaClearAll
  assume "chains_inv h"
  then show ?thesis by (auto simp: TaClearAll chain_defs on_ledger_def clear_all_def)
next
  case (TaPipeline origin c)
  assume "chains_inv h"
  then show ?thesis by (simp add: TaPipeline chain_defs)
qed (simp_all add: run_ack_task_inv same_chains_inv [OF same_settle] same_chains_inv [OF same_with_scheduler]
    same_children [THEN same_chains_inv])

interpretation chains: machine ack_step chains_inv
  by unfold_locales (rule ack_step_inv)

lemma init_chains: "chains_inv (init_host ps)"
  by (simp add: chain_defs init_host_def init_ledger_def)

section \<open>Settling\<close>

lemma discard_ack_queue:
  "queue_of (fst (discard_queued_ack k s)) k' =
     (if k' = k then filter (\<lambda>i. \<not> (si_role i = ROLE_ACK \<and> si_ack_id i = Some k)) (queue_of s k) else queue_of s k')"
proof -
  let ?m = "\<lambda>i. si_role i = ROLE_ACK \<and> si_ack_id i = Some k"
  have fst: "fst (discard_queued_ack k s) = fst (discard_queued k ?m s)"
    by (auto simp: discard_queued_ack_def split: prod.split list.split)
  show ?thesis
  proof (cases "filter ?m (queue_of s k) = []")
    case True
    then have "filter (\<lambda>i. \<not> ?m i) (queue_of s k) = queue_of s k" by (simp add: filter_empty_conv filter_id_conv)
    with True show ?thesis unfolding fst by (simp add: discard_queued_def Let_def)
  next
    case False
    then show ?thesis unfolding fst by (simp add: discard_queued_def Let_def queue_set_queue)
  qed
qed

lemma with_scheduler_pipelines:
  "ah_pipelines (with_scheduler origin f h) origin' =
     (if origin' = origin then (ah_pipelines h origin)\<lparr>cp_scheduler := f (cp_scheduler (ah_pipelines h origin))\<rparr>
      else ah_pipelines h origin')"
  by (simp add: with_scheduler_def Let_def)

lemma with_scheduler_id: "with_scheduler origin (\<lambda>s. cp_scheduler (ah_pipelines h origin)) h = h"
  by (simp add: with_scheduler_def Let_def)

lemma settle_no_ack:
  assumes "i \<in> set (queue_of (cp_scheduler (ah_pipelines (settle_turn_ack origin t False h) origin)) (ack_work_item_id t))"
  shows "\<not> (si_role i = ROLE_ACK \<and> si_ack_id i = Some (ack_work_item_id t))"
  using assms by (auto simp: settle_turn_ack_def Let_def with_scheduler_pipelines discard_ack_queue)

lemma settle_latch: "t \<notin> ta_ack_emitted_turns (ah_ledger (settle_turn_ack origin t b h))"
  by (simp add: settle_turn_ack_def Let_def clear_ack_latch_def)

section \<open>A busy transport\<close>

definition transport_busy :: "nat \<Rightarrow> ack_host \<Rightarrow> bool" where
  "transport_busy origin h \<longleftrightarrow> sc_active (cp_scheduler (ah_pipelines h origin)) \<noteq> None \<or>
     occupied (sc_lifecycle (cp_scheduler (ah_pipelines h origin)))"

lemma admit_busy:
  assumes "transport_busy (ch_origin ch) h" and "\<not> superseded ch (ah_ledger h)"
  shows "admit env acc token u ch h =
     retry_or_abandon env u False ch (h\<lparr>ah_starts := ah_starts h @ [(ch_generation ch, ch_attempt ch)]\<rparr>)"
proof -
  let ?h = "h\<lparr>ah_starts := ah_starts h @ [(ch_generation ch, ch_attempt ch)]\<rparr>"
  have "start_next acc token w (cp_scheduler (ah_pipelines h (ch_origin ch))) =
      Some (cp_scheduler (ah_pipelines h (ch_origin ch)), None)" for w
    using assms(1) by (simp add: start_next_def transport_busy_def)
  then show ?thesis using assms(2) with_scheduler_id [of "ch_origin ch" ?h] by (simp add: admit_def Let_def)
qed

text \<open>The state of a chain whose last coroutine is an admission attempt.\<close>

definition at_attempt :: "ack_task list \<Rightarrow> ack_chain \<Rightarrow> nat \<Rightarrow> ack_host \<Rightarrow> ack_host" where
  "at_attempt rest ch n h = h\<lparr>ah_ledger := (ah_ledger h)\<lparr>ta_ack_admission_tasks := rest @ [Admit (ch\<lparr>ch_attempt := n\<rparr>)]\<rparr>,
     ah_starts := ah_starts h @ map (\<lambda>a. (ch_generation ch, a)) [1..<n]\<rparr>"

definition run_last :: "ack_env \<Rightarrow> nat \<Rightarrow> bool option \<times> string \<times> string \<Rightarrow> ack_host \<Rightarrow> ack_host" where
  "run_last env i r h = (case r of (acc, token, u) \<Rightarrow> run_ack_task env acc token u Returned i h)"

lemma superseded_frame [simp]:
  "superseded (ch\<lparr>ch_attempt := n\<rparr>) l = superseded ch l" "superseded ch (l\<lparr>ta_ack_admission_tasks := x\<rparr>) = superseded ch l"
  by (simp_all add: superseded_def split: option.split)

lemma host_update_order: "h\<lparr>ah_starts := x, ah_ledger := l\<rparr> = h\<lparr>ah_ledger := l, ah_starts := x\<rparr>"
  by simp

lemma remove_last [simp]: "remove_at (length xs) (xs @ [x]) = xs"
  by (simp add: remove_at_def)

lemma busy_attempt:
  assumes "transport_busy (ch_origin ch) h" and "\<not> superseded ch (ah_ledger h)" and "chain_live env ch h"
    and "1 \<le> n" and "n < ACK_ADMISSION_MAX_ATTEMPTS"
  shows "run_last env (length rest) r' (run_last env (length rest) r (at_attempt rest ch n h)) = at_attempt rest ch (Suc n) h"
proof -
  obtain acc token u where r: "r = (acc, token, u)" by (cases r)
  obtain acc' token' u' where r': "r' = (acc', token', u')" by (cases r')
  let ?c = "ch\<lparr>ch_attempt := n\<rparr>"
  define g where "g = h\<lparr>ah_ledger := (ah_ledger h)\<lparr>ta_ack_admission_tasks := rest\<rparr>,
     ah_starts := ah_starts h @ map (\<lambda>a. (ch_generation ch, a)) [1..<n]\<rparr>"
  have e: "run_last env (length rest) r (at_attempt rest ch n h) = admit env acc token u ?c g"
    by (simp add: run_last_def r run_ack_task_def at_attempt_def remove_task_def g_def host_update_order)
  also have "\<dots> = add_task (RetryDelay ?c) (g\<lparr>ah_starts := ah_starts g @ [(ch_generation ch, n)]\<rparr>)"
    using assms by (subst admit_busy) (simp_all add: g_def transport_busy_def retry_or_abandon_def chain_live_def)
  finally have "run_last env (length rest) r (at_attempt rest ch n h) = \<dots>" .
  then show ?thesis
    using assms(4)
    by (simp add: run_last_def r' run_ack_task_def add_task_def remove_task_def g_def schedule_ack_admission_def at_attempt_def host_update_order)
qed

lemma busy_last_attempt:
  assumes "transport_busy (ch_origin ch) h" and "\<not> superseded ch (ah_ledger h)" and "chain_live env ch h"
  shows "\<exists>g. run_last env (length rest) r (at_attempt rest ch ACK_ADMISSION_MAX_ATTEMPTS h) =
     settle_turn_ack (ch_origin ch) (ch_turn_id ch) False g \<and> tasks g = rest \<and>
     ah_starts g = ah_starts h @ map (\<lambda>a. (ch_generation ch, a)) [1..<Suc ACK_ADMISSION_MAX_ATTEMPTS]"
proof -
  obtain acc token u where r: "r = (acc, token, u)" by (cases r)
  let ?c = "ch\<lparr>ch_attempt := ACK_ADMISSION_MAX_ATTEMPTS\<rparr>"
  define g where "g = h\<lparr>ah_ledger := (ah_ledger h)\<lparr>ta_ack_admission_tasks := rest\<rparr>,
     ah_starts := ah_starts h @ map (\<lambda>a. (ch_generation ch, a)) [1..<ACK_ADMISSION_MAX_ATTEMPTS]\<rparr>"
  have "run_last env (length rest) r (at_attempt rest ch ACK_ADMISSION_MAX_ATTEMPTS h) = admit env acc token u ?c g"
    by (simp add: run_last_def r run_ack_task_def at_attempt_def remove_task_def g_def host_update_order)
  also have "\<dots> = settle_turn_ack (ch_origin ch) (ch_turn_id ch) False
      (g\<lparr>ah_starts := ah_starts g @ [(ch_generation ch, ACK_ADMISSION_MAX_ATTEMPTS)]\<rparr>)"
    using assms by (subst admit_busy) (simp_all add: g_def transport_busy_def retry_or_abandon_def chain_live_def)
  finally have eq: "run_last env (length rest) r (at_attempt rest ch ACK_ADMISSION_MAX_ATTEMPTS h) = \<dots>" .
  have "1 \<le> ACK_ADMISSION_MAX_ATTEMPTS" by (simp add: ACK_ADMISSION_MAX_ATTEMPTS_def)
  then show ?thesis
    by (intro exI [of _ "g\<lparr>ah_starts := ah_starts g @ [(ch_generation ch, ACK_ADMISSION_MAX_ATTEMPTS)]\<rparr>"] conjI, intro eq)
      (simp_all add: g_def)
qed

section \<open>Properties\<close>

text \<open>
  C16. Admission chains are bounded and never confused. After any operations, in any interleaving of the
  suspended coroutines and with any changes of the connections: no chain has called \<open>start_next\<close> more than
  four times, and never twice with the same attempt; every chain has at most one coroutine left, the
  generations of different chains differ, at most 2048 turns keep a generation, and a chain that finds
  another generation for its turn was superseded by a newer one.
\<close>

theorem admission_chains_bounded:
  "let h = fold ack_step ops (init_host ps) in
     (\<forall>g. distinct (filter (\<lambda>x. fst x = g) (ah_starts h)) \<and> length (filter (\<lambda>x. fst x = g) (ah_starts h)) \<le> 4) \<and>
     distinct (map generation_of (tasks h)) \<and> length (gens h) \<le> 2048 \<and>
     (\<forall>k \<in> set (tasks h). superseded (task_chain k) (ah_ledger h) \<longrightarrow>
        (\<exists>g. map_of (gens h) (ch_turn_id (task_chain k)) = Some g \<and> generation_of k < g))"
proof -
  define h where "h = fold ack_step ops (init_host ps)"
  have inv: "chains_inv h" unfolding h_def by (intro chains.run_inv init_chains)
  have len: "length (filter (\<lambda>x. fst x = g) (ah_starts h)) \<le> 4" for g
  proof -
    let ?f = "filter (\<lambda>x. fst x = g) (ah_starts h)"
    have "distinct ?f" using inv by (simp add: chain_defs)
    then have "length ?f = card (set ?f)" by (rule distinct_card [symmetric])
    also have "set ?f \<subseteq> {g} \<times> {1..4}"
      using inv by (auto simp: chain_defs ACK_ADMISSION_MAX_ATTEMPTS_def)
    then have "card (set ?f) \<le> card ({g} \<times> {1..4::nat})" by (intro card_mono) simp_all
    finally show ?thesis by simp
  qed
  have newer: "\<exists>g. map_of (gens h) (ch_turn_id (task_chain k)) = Some g \<and> generation_of k < g"
    if "k \<in> set (tasks h)" "superseded (task_chain k) (ah_ledger h)" for k
    using that inv by (auto simp: chain_defs superseded_def split: option.splits)
  have "distinct (map generation_of (tasks h))" "length (gens h) \<le> 2048" "distinct (ah_starts h)"
    using inv by (simp_all add: chain_defs MAX_ACK_GENERATION_TURNS_def)
  with len newer show ?thesis unfolding h_def [symmetric] Let_def by auto
qed

definition demo_env :: ack_env where
  "demo_env = \<lparr>ae_enable_early_ack = True, ae_early_ack_text = ''one moment'', ae_connection = Some 0, ae_accepts = (\<lambda>e. e = 1)\<rparr>"

lemma admission_chains_bounded_witness:
  "\<exists>k. tasks (fold ack_step [TaEmit demo_env ''u'' 0 ''turn-1'' 1 False False] (init_host (\<lambda>_. demo_pipeline))) = [k] \<and>
     \<not> superseded (task_chain k)
       (ah_ledger (fold ack_step [TaEmit demo_env ''u'' 0 ''turn-1'' 1 False False] (init_host (\<lambda>_. demo_pipeline))))"
proof -
  let ?h = "fold ack_step [TaEmit demo_env ''u'' 0 ''turn-1'' 1 False False] (init_host (\<lambda>_. demo_pipeline))"
  have k: "\<exists>k. tasks ?h = [k] \<and> generation_of k = 1 \<and> seq ?h = 1"
    by (simp add: emit_early_ack_def demo_env_def init_host_def init_ledger_def demo_pipeline_def queue_early_ack_def
        schedule_ack_admission_def claim_ack_admission_generation_def enqueue_ack_def with_scheduler_def add_task_def
        ack_terminals_frame Let_def)
  have "chains_inv ?h" by (intro chains.run_inv init_chains)
  then have "map_of (gens ?h) t = Some g \<Longrightarrow> g \<le> 1" for t g using k by (auto simp: chain_defs)
  moreover have "\<forall>k \<in> set (tasks ?h). superseded (task_chain k) (ah_ledger ?h) \<longrightarrow>
      (\<exists>g. map_of (gens ?h) (ch_turn_id (task_chain k)) = Some g \<and> generation_of k < g)"
    using admission_chains_bounded [of "[TaEmit demo_env ''u'' 0 ''turn-1'' 1 False False]" "\<lambda>_. demo_pipeline"]
    unfolding Let_def by (elim conjE)
  moreover obtain k where "tasks ?h = [k]" "generation_of k = 1" using k by blast
  ultimately show ?thesis by fastforce
qed

text \<open>
  A superseded admission attempt is inert. After any operations, resuming an attempt whose turn was
  taken over by a newer chain changes nothing but that the coroutine ends: it makes no \<open>start_next\<close> call,
  and leaves the newer chain's queued acknowledgement, latch and coroutines alone.
\<close>

theorem superseded_attempt_is_inert:
  assumes "h = fold ack_step ops (init_host ps)" and "i < length (tasks h)" and "tasks h ! i = Admit ch"
    and "superseded ch (ah_ledger h)"
  shows "run_ack_task env acc token u outcome i h =
       h\<lparr>ah_ledger := (ah_ledger h)\<lparr>ta_ack_admission_tasks := remove_at i (tasks h)\<rparr>\<rparr> \<and>
     (\<exists>g. map_of (gens h) (ch_turn_id ch) = Some g \<and> ch_generation ch < g)"
proof -
  have inv: "chains_inv h" unfolding assms(1) by (intro chains.run_inv init_chains)
  then have "task_inv h (Admit ch)" using assms(2,3) by (metis chains_inv_def nth_mem)
  then have "\<exists>g. map_of (gens h) (ch_turn_id ch) = Some g \<and> ch_generation ch < g"
    using assms(4) by (auto simp: task_inv_def superseded_def split: option.splits)
  moreover have "superseded ch (ah_ledger (remove_task i h))"
    using assms(4) by (simp add: remove_task_def)
  ultimately show ?thesis
    using assms(2,3) by (simp add: run_ack_task_def admit_def remove_task_def Let_def)
qed

lemmas emit_defs = emit_early_ack_def queue_early_ack_def schedule_ack_admission_def claim_ack_admission_generation_def
  enqueue_ack_def with_scheduler_def add_task_def on_ledger_def clear_ack_latch_def

lemma acks_enqueue: "sc_acks (fst (enqueue i s)) = sc_acks s"
  by (auto simp: enqueue_def emit_progress_def emit_progress_with_def Let_def split: sum.split)

lemma superseded_attempt_is_inert_witness:
  "let h = fold ack_step [TaEmit demo_env ''u'' 0 ''turn-1'' 1 False False, TaClearLatch ''turn-1'',
        TaEmit demo_env ''v'' 0 ''turn-1'' 1 False False] (init_host (\<lambda>_. demo_pipeline)) in
   \<exists>ch. tasks h ! 0 = Admit ch \<and> superseded ch (ah_ledger h) \<and> ah_starts (run_ack_task demo_env None ''a'' ''w'' Returned 0 h) = []"
proof -
  define h where "h = fold ack_step [TaEmit demo_env ''u'' 0 ''turn-1'' 1 False False, TaClearLatch ''turn-1'',
        TaEmit demo_env ''v'' 0 ''turn-1'' 1 False False] (init_host (\<lambda>_. demo_pipeline))"
  define ch where "ch = \<lparr>ch_origin = 0, ch_turn_id = ''turn-1'', ch_origin_epoch = 1, ch_attempt = 1, ch_generation = 1\<rparr>"
  have h: "tasks h ! 0 = Admit ch" "0 < length (tasks h)" "superseded ch (ah_ledger h)" "ah_starts h = []"
    by (simp_all add: h_def ch_def emit_defs demo_env_def init_host_def init_ledger_def demo_pipeline_def acks_enqueue Let_def
        superseded_def lru_put_eq MAX_ACK_GENERATION_TURNS_def AList.delete_eq)
  from superseded_attempt_is_inert [OF h_def h(2,1,3), of demo_env None "''a''" "''w''" Returned] h
  show ?thesis unfolding h_def [symmetric] Let_def by auto
qed

text \<open>
  A busy transport abandons the acknowledgement. When a chain's first attempt is about to run, its
  turn and connection stay live and the transport stays busy, then running the chain's coroutines to
  the end makes exactly the attempts 1 to 4 and then settles: no acknowledgement of the turn is queued
  any more, its latch is free again, and no coroutine of the chain is left.
\<close>

theorem busy_transport_abandons_ack:
  assumes "h = fold ack_step ops (init_host ps)" and "tasks h = rest @ [Admit ch]" and "ch_attempt ch = 1"
    and "transport_busy (ch_origin ch) h" and "\<not> superseded ch (ah_ledger h)" and "chain_live env ch h"
    and "length rs = 7"
  shows "let h' = fold (run_last env (length rest)) rs h in
     ah_starts h' = ah_starts h @ map (\<lambda>a. (ch_generation ch, a)) [1, 2, 3, 4] \<and> tasks h' = rest \<and>
     ch_turn_id ch \<notin> ta_ack_emitted_turns (ah_ledger h') \<and>
     list_all (\<lambda>i. \<not> (si_role i = ROLE_ACK \<and> si_ack_id i = Some (ack_work_item_id (ch_turn_id ch))))
       (queue_of (cp_scheduler (ah_pipelines h' (ch_origin ch))) (ack_work_item_id (ch_turn_id ch)))"
proof -
  obtain r1 r2 r3 r4 r5 r6 r7 where rs: "rs = [r1, r2, r3, r4, r5, r6, r7]"
    using assms(7) by (auto simp: numeral_eq_Suc length_Suc_conv)
  have "ch\<lparr>ch_attempt := 1\<rparr> = ch" using assms(3) by simp
  then have "h = at_attempt rest ch 1 h" using assms(2) by (simp add: at_attempt_def)
  then have start: "fold (run_last env (length rest)) rs h = fold (run_last env (length rest)) rs (at_attempt rest ch 1 h)"
    by (rule arg_cong)
  note step = busy_attempt [OF assms(4,5,6), unfolded ACK_ADMISSION_MAX_ATTEMPTS_def]
  have h: "fold (run_last env (length rest)) rs h =
      run_last env (length rest) r7 (at_attempt rest ch (Suc (Suc (Suc 1))) h)"
    unfolding start unfolding rs by (simp add: step)
  have four: "Suc (Suc (Suc 1)) = ACK_ADMISSION_MAX_ATTEMPTS" by (simp add: ACK_ADMISSION_MAX_ATTEMPTS_def)
  obtain g where g: "fold (run_last env (length rest)) rs h = settle_turn_ack (ch_origin ch) (ch_turn_id ch) False g"
    "tasks g = rest" "ah_starts g = ah_starts h @ map (\<lambda>a. (ch_generation ch, a)) [1..<Suc ACK_ADMISSION_MAX_ATTEMPTS]"
    using busy_last_attempt [OF assms(4,5,6), of rest r7] h four by auto
  have "[1..<Suc ACK_ADMISSION_MAX_ATTEMPTS] = [1, 2, 3, 4]" by (simp add: ACK_ADMISSION_MAX_ATTEMPTS_def upt_rec)
  with g same_settle [of g "ch_origin ch" "ch_turn_id ch" False] settle_no_ack settle_latch show ?thesis
    by (auto simp: Let_def same_chains_def list_all_iff)
qed

definition demo_busy :: connection_pipeline where
  "demo_busy = demo_pipeline\<lparr>cp_scheduler := init_scheduler (init_session ''s'' ''t'')
     ((init_lifecycle 0 10 1 256 True)\<lparr>ls_slot_token := Some ''a''\<rparr>)\<rparr>"

lemma busy_transport_abandons_ack_witness:
  "let h = fold ack_step [TaEmit demo_env ''u'' 0 ''turn-1'' 1 False False] (init_host (\<lambda>_. demo_busy));
       h' = fold (run_last demo_env 0) (replicate 7 (None, ''a'', ''w'')) h in
   ''turn-1'' \<in> ta_ack_emitted_turns (ah_ledger h) \<and> ''turn-1'' \<notin> ta_ack_emitted_turns (ah_ledger h') \<and> tasks h' = []"
proof -
  define h where "h = fold ack_step [TaEmit demo_env ''u'' 0 ''turn-1'' 1 False False] (init_host (\<lambda>_. demo_busy))"
  define ch where "ch = \<lparr>ch_origin = 0, ch_turn_id = ''turn-1'', ch_origin_epoch = 1, ch_attempt = 1, ch_generation = 1\<rparr>"
  note evaluate = h_def ch_def emit_defs demo_env_def init_host_def init_ledger_def demo_busy_def demo_pipeline_def acks_enqueue Let_def
  have task: "tasks h = [] @ [Admit ch]" by (simp add: evaluate)
  have latch: "''turn-1'' \<in> ta_ack_emitted_turns (ah_ledger h)" by (simp add: evaluate)
  have "sc_lifecycle (fst (enqueue i s)) = sc_lifecycle s" for i s
    by (auto simp: enqueue_def Let_def split: sum.split)
  then have busy: "transport_busy (ch_origin ch) h"
    by (simp add: evaluate transport_busy_def init_scheduler_def occupied_def)
  have fresh: "\<not> superseded ch (ah_ledger h)"
    by (simp add: evaluate superseded_def lru_put_eq MAX_ACK_GENERATION_TURNS_def)
  have live: "chain_live demo_env ch h" by (simp add: evaluate chain_live_def)
  show ?thesis
    using busy_transport_abandons_ack [OF h_def task _ busy fresh live, of "replicate 7 (None, ''a'', ''w'')"] latch
    unfolding h_def [symmetric] Let_def by (simp add: ch_def)
qed

text \<open>
  One acknowledgement per turn. After any operations, emitting an acknowledgement at a delegation
  decision, when the feature is on, the turn is not latched and its connection is the live one, appends
  exactly one acknowledgement to the turn's own queue, changes no other queue and nothing on the wire,
  latches the turn and starts one chain at attempt 1 with a generation no chain had before; any further
  emission for the turn changes nothing.
\<close>

theorem early_ack_queued_once:
  assumes "h = fold ack_step ops (init_host ps)" and "ae_enable_early_ack env" and "t \<notin> ta_ack_emitted_turns (ah_ledger h)"
    and "cp_tts (ah_pipelines h origin)" and "cp_active (ah_pipelines h origin)" and "ae_connection env = Some origin"
    and "ae_accepts env e"
  shows "\<exists>h'. emit_early_ack env u origin t e False False h = Inr h' \<and>
     (let s = cp_scheduler (ah_pipelines h origin); s' = cp_scheduler (ah_pipelines h' origin);
          ch = \<lparr>ch_origin = origin, ch_turn_id = t, ch_origin_epoch = e, ch_attempt = 1, ch_generation = seq h + 1\<rparr> in
      queue_of s' (ack_work_item_id t) = queue_of s (ack_work_item_id t) @ [ack_item env u t e] \<and>
      (\<forall>k. k \<noteq> ack_work_item_id t \<longrightarrow> queue_of s' k = queue_of s k) \<and> sc_state s' = sc_state s \<and>
      t \<in> ta_ack_emitted_turns (ah_ledger h') \<and> tasks h' = tasks h @ [Admit ch] \<and>
      seq h + 1 \<notin> set (map generation_of (tasks h)) \<and> seq h + 1 \<notin> set (map fst (ah_starts h))) \<and>
     emit_early_ack env' u' origin' t e' False False h' = Inr h'"
proof -
  let ?i = "ack_item env u t e" and ?k = "ack_work_item_id t" and ?s = "cp_scheduler (ah_pipelines h origin)"
  define h' where "h' = queue_early_ack env u origin t e h"
  have emit: "emit_early_ack env u origin t e False False h = Inr h'"
    using assms(2-) by (simp add: emit_early_ack_def h'_def)
  have "enqueue ?i ?s = (set_queue ?k (queue_of ?s ?k @ [?i]) ?s, Inr ?i)"
    by (simp add: enqueue_def ack_item_def post_init_def emit_progress_def emit_progress_with_def set_queue_def Let_def)
  then have s': "cp_scheduler (ah_pipelines h' origin) = set_queue ?k (queue_of ?s ?k @ [?i]) ?s"
    by (simp add: h'_def emit_defs Let_def)
  have latch: "t \<in> ta_ack_emitted_turns (ah_ledger h')" by (simp add: h'_def emit_defs Let_def)
  have e: "same_chains h (enqueue_ack env u origin t e h)" by simp
  have task: "tasks h' = tasks h @ [Admit \<lparr>ch_origin = origin, ch_turn_id = t, ch_origin_epoch = e, ch_attempt = 1,
      ch_generation = seq h + 1\<rparr>]"
    using e by (simp add: h'_def queue_early_ack_def schedule_ack_admission_def claim_ack_admission_generation_def
        same_chains_def Let_def)
  have inv: "chains_inv h" unfolding assms(1) by (intro chains.run_inv init_chains)
  then have fresh: "seq h + 1 \<notin> set (map generation_of (tasks h))" "seq h + 1 \<notin> set (map fst (ah_starts h))"
    by (force simp: chain_defs)+
  have "emit_early_ack env' u' origin' t e' False False h' = Inr h'" using latch by (simp add: emit_early_ack_def)
  with emit s' latch task fresh show ?thesis
    by (intro exI [of _ h']) (simp add: Let_def queue_set_queue)
qed

lemma early_ack_queued_once_witness:
  "\<exists>h'. emit_early_ack demo_env ''u'' 0 ''turn-1'' 1 False False (fold ack_step [TaNextTurn] (init_host (\<lambda>_. demo_pipeline))) = Inr h' \<and>
     ''turn-1'' \<in> ta_ack_emitted_turns (ah_ledger h')"
proof -
  define h where "h = fold ack_step [TaNextTurn] (init_host (\<lambda>_. demo_pipeline))"
  have "ae_enable_early_ack demo_env" "''turn-1'' \<notin> ta_ack_emitted_turns (ah_ledger h)" "cp_tts (ah_pipelines h 0)"
    "cp_active (ah_pipelines h 0)" "ae_connection demo_env = Some 0" "ae_accepts demo_env 1"
    by (simp_all add: h_def demo_env_def init_host_def init_ledger_def demo_pipeline_def on_ledger_def next_turn_id_def Let_def)
  from early_ack_queued_once [OF h_def this, of "''u''"] show ?thesis unfolding h_def [symmetric] Let_def by blast
qed

section \<open>Turn ids and children\<close>

text \<open>Turn ids are never reused: the sequence only grows, also across \<open>clear_all\<close>.\<close>

lemma turn_ids_differ: "m \<noteq> n \<Longrightarrow> ''turn-'' @ show_nat m \<noteq> ''turn-'' @ show_nat n"
  by (simp add: show_nat_inj)

text \<open>The latch lives exactly as long as a registered child of the turn.\<close>

lemma release_children:
  assumes "map_of (ta_turn_work_items l) t = Some ws" and "ws \<noteq> {}" and "t \<in> ta_ack_emitted_turns l"
  shows "turn_work_items t (fold (release_turn_work_item t) xs l) = ws - set xs \<and>
     (t \<in> ta_ack_emitted_turns (fold (release_turn_work_item t) xs l) \<longleftrightarrow> ws - set xs \<noteq> {})"
  using assms
proof (induction xs arbitrary: l ws)
  case (Cons x xs)
  have none: "map_of (ta_turn_work_items m) t = None \<Longrightarrow> fold (release_turn_work_item t) ys m = m" for ys m
    by (induction ys) (simp_all add: release_turn_work_item_def)
  show ?case
  proof (cases "ws - {x} = {}")
    case True
    then have "release_turn_work_item t x l = release_all_turn_work_items t l"
      using Cons.prems(1) by (simp add: release_turn_work_item_def)
    moreover have "ws - set (x # xs) = {}" using True by auto
    ultimately show ?thesis
      by (simp add: none release_all_turn_work_items_def clear_ack_latch_def turn_work_items_def)
  next
    case False
    then have r: "release_turn_work_item t x l = l\<lparr>ta_turn_work_items := AList.update t (ws - {x}) (ta_turn_work_items l)\<rparr>"
      using Cons.prems(1) by (simp add: release_turn_work_item_def Let_def)
    have "ws - set (x # xs) = ws - {x} - set xs" by auto
    then show ?thesis using Cons.IH [of "release_turn_work_item t x l" "ws - {x}"] False Cons.prems(3) by (simp add: r)
  qed
qed (simp add: turn_work_items_def)

end
