(* ===== verification/Routing.thy ===== *)
theory Routing
  imports Contracts
begin

text \<open>
  Routing: \<open>server/router.py\<close> (the catalogue, the completion of a structured decision and its validation
  against a catalogue snapshot), \<open>server/registry.py\<close> (the process-lifetime worker registry), the worker
  metadata of \<open>server/workers/base.py\<close>, and the dispatch of a decision
  (\<open>WorkItemCoordinator.dispatch\<close>).

  The model provider is outside the repository: a parameter that maps the catalogue and the transcript to
  the fields of a decision before validation. A worker object is what the registry reads of it: whether
  it has a callable \<open>search\<close>, its metadata, its status. The worker factory is a parameter of the registry.
\<close>

section \<open>Text\<close>

fun py_split_on :: "string \<Rightarrow> string \<Rightarrow> string list" where
  "py_split_on word [] = (if word = [] then [] else [word])"
| "py_split_on word (c # cs) =
     (if is_space c then (if word = [] then py_split_on [] cs else word # py_split_on [] cs)
      else py_split_on (word @ [c]) cs)"

definition py_split :: "string \<Rightarrow> string list" where
  "py_split s = py_split_on [] s"

fun py_join :: "string \<Rightarrow> string list \<Rightarrow> string" where
  "py_join sep [] = []"
| "py_join sep [w] = w"
| "py_join sep (w # ws) = w @ sep @ py_join sep ws"

section \<open>Catalogue\<close>

record worker_catalogue_entry =
  ce_worker_id :: string
  ce_worker_type :: string
  ce_topic :: string
  ce_status :: string
  ce_capabilities :: "(string, bool) dict"
  ce_model_policies :: "string list"
  ce_topic_summary :: string
  ce_model_policy :: string

record worker_catalogue =
  wc_version :: string
  wc_workers :: "worker_catalogue_entry list"
  wc_capability_labels :: "string list"
  wc_model_policies :: "string list"

definition worker_ids :: "worker_catalogue \<Rightarrow> string list" where
  "worker_ids c = map ce_worker_id (wc_workers c)"

definition opt_in :: "string option \<Rightarrow> string list \<Rightarrow> bool" where
  "opt_in x xs = (case x of None \<Rightarrow> False | Some s \<Rightarrow> s \<in> set xs)"

datatype routing_error =
    SnapshotMismatch
  | NonWorkerRouteSelects
  | NewWorkerExists
  | FirstWorkerUnavailable
  | TypeNotAllowlisted
  | NewWorkerNotAllowlisted
  | SelectionMismatch
  | PolicyNotAllowlisted
  | CapabilityUnavailable
  | InvalidDecision contract_error

definition validate_decision :: "routing_decision \<Rightarrow> worker_catalogue \<Rightarrow> routing_error + routing_decision" where
  "validate_decision d c =
     (if rd_catalogue_version d \<noteq> wc_version c \<or> rd_catalogue_worker_ids d \<noteq> worker_ids c
      then Inl SnapshotMismatch
      else if \<not> is_worker_route (rd_action d) then
        if rd_worker_id d \<noteq> None \<or> rd_worker_type d \<noteq> None \<or> rd_topic d \<noteq> None
        then Inl NonWorkerRouteSelects else Inr d
      else if rd_action d = NewWorker then
        if opt_in (rd_worker_id d) (worker_ids c) then Inl NewWorkerExists
        else if wc_workers c = [] then
          if rd_worker_type d \<noteq> Some ''web_search'' \<or>
             wc_model_policies c \<noteq> [] \<and> \<not> opt_in (rd_model_policy d) (wc_model_policies c) \<or>
             \<not> truthy (rd_capability d) \<or>
             wc_capability_labels c \<noteq> [] \<and> \<not> opt_in (rd_capability d) (wc_capability_labels c) \<or>
             \<not> rd_capability_available d
          then Inl FirstWorkerUnavailable else Inr d
        else if \<not> opt_in (rd_worker_type d) (map ce_worker_type (wc_workers c)) then Inl TypeNotAllowlisted
        else if \<not> opt_in (rd_model_policy d) (wc_model_policies c) \<or>
                \<not> opt_in (rd_capability d) (wc_capability_labels c) \<or> \<not> rd_capability_available d
        then Inl NewWorkerNotAllowlisted
        else Inr d
      else
        case find (\<lambda>w. Some (ce_worker_id w) = rd_worker_id d) (wc_workers c) of
          None \<Rightarrow> Inl SelectionMismatch
        | Some entry \<Rightarrow>
            if rd_worker_type d \<noteq> Some (ce_worker_type entry) \<or> rd_topic d \<noteq> Some (ce_topic entry)
            then Inl SelectionMismatch
            else
              let policies = (if ce_model_policies entry \<noteq> [] then ce_model_policies entry else [ce_model_policy entry]) in
              if \<not> opt_in (rd_model_policy d) policies \<or> \<not> opt_in (rd_capability d) (wc_capability_labels c)
              then Inl PolicyNotAllowlisted
              else if rd_capability_available d \<noteq> (map_of (ce_capabilities entry) (the (rd_capability d)) = Some True) \<or>
                      \<not> rd_capability_available d
              then Inl CapabilityUnavailable
              else Inr d)"

section \<open>Completion and routing\<close>

text \<open>\<open>_complete_unambiguous_new_worker_fields\<close> on the fields of a decision.\<close>

definition complete_new_worker_fields :: "routing_decision \<Rightarrow> string \<Rightarrow> worker_catalogue \<Rightarrow> routing_decision" where
  "complete_new_worker_fields d transcript c =
     (if rd_action d \<noteq> NewWorker then d
      else
        let worker_types = (if wc_workers c = [] then [''web_search'']
                            else remdups (map ce_worker_type (wc_workers c)));
            d = (if rd_worker_type d = None \<and> length worker_types = 1
                 then d\<lparr>rd_worker_type := Some (hd worker_types)\<rparr> else d);
            d = (if rd_model_policy d = None \<and> length (wc_model_policies c) = 1
                 then d\<lparr>rd_model_policy := Some (hd (wc_model_policies c))\<rparr> else d);
            d = (if rd_capability d = None \<and> rd_worker_type d = Some ''web_search'' \<and>
                    ''public_web'' \<in> set (wc_capability_labels c)
                 then d\<lparr>rd_capability := Some ''public_web''\<rparr> else d);
            topic = py_strip (py_join '' '' (py_split transcript))
        in (if rd_topic d = None \<and> topic \<noteq> [] then d\<lparr>rd_topic := Some (take 200 topic)\<rparr> else d))"

text \<open>\<open>route_envelope\<close>; \<open>call\<close> is the model provider.\<close>

definition route_envelope ::
    "(worker_catalogue \<Rightarrow> string \<Rightarrow> routing_decision \<times> string option) \<Rightarrow> string \<Rightarrow> worker_catalogue \<Rightarrow>
     routing_error + routing_decision \<times> string option" where
  "route_envelope call transcript c =
     (let (raw, prose) = call c transcript; payload = complete_new_worker_fields raw transcript c in
      case validate_selection payload of
        Inl e \<Rightarrow> Inl (InvalidDecision e)
      | Inr d \<Rightarrow> (case validate_decision d c of Inl e \<Rightarrow> Inl e | Inr d \<Rightarrow> Inr (d, prose)))"

section \<open>Registry\<close>

record worker_metadata =
  wm_worker_id :: string
  wm_worker_type :: string
  wm_topic :: string
  wm_topic_summary :: string
  wm_model_policy :: string
  wm_capabilities :: "(string, bool) dict"

record worker_object =
  wk_search :: bool
  wk_metadata :: "worker_metadata option"
  wk_status :: "string option"

record registered_worker =
  rw_metadata :: worker_metadata
  rw_worker :: worker_object

record registry =
  rg_worker_model_policy :: "(string, string) dict"
  rg_worker_factory :: "(string \<Rightarrow> worker_object) option"
  rg_workers :: "(string, registered_worker) dict"
  rg_version :: nat

datatype registry_error =
    UnsupportedWorkerType string
  | AlreadyRegistered string
  | UnknownPolicy string
  | EmptyWorkerId
  | NoSearchMethod
  | NoMetadata
  | MetadataMismatch
  | UnknownWorker string
  | IncompatiblePolicy
  | EvictionDisabled

definition init_registry :: "(string, string) dict \<Rightarrow> (string \<Rightarrow> worker_object) option \<Rightarrow> registry" where
  "init_registry policies factory =
     \<lparr>rg_worker_model_policy = policies, rg_worker_factory = factory, rg_workers = [], rg_version = 0\<rparr>"

definition require_web_search_capability :: "worker_object \<Rightarrow> registry_error + worker_object" where
  "require_web_search_capability w = (if \<not> wk_search w then Inl NoSearchMethod else Inr w)"

definition require_matching_identity :: "worker_object \<Rightarrow> worker_metadata \<Rightarrow> registry_error + worker_metadata" where
  "require_matching_identity w expected =
     (case wk_metadata w of
        None \<Rightarrow> Inl NoMetadata
      | Some m \<Rightarrow>
          if wm_worker_id m \<noteq> wm_worker_id expected \<or> wm_worker_type m \<noteq> wm_worker_type expected \<or>
             wm_topic m \<noteq> wm_topic expected \<or> wm_model_policy m \<noteq> wm_model_policy expected
          then Inl MetadataMismatch else Inr m)"

text \<open>The worker the registry builds itself: a \<open>WebSearchWorker\<close>, idle, with its own metadata.\<close>

definition web_search_worker :: "string \<Rightarrow> worker_metadata \<Rightarrow> worker_object" where
  "web_search_worker model m =
     \<lparr>wk_search = True,
      wk_metadata = Some \<lparr>wm_worker_id = wm_worker_id m, wm_worker_type = ''web_search'', wm_topic = wm_topic m,
        wm_topic_summary = wm_topic m,
        wm_model_policy = (if wm_model_policy m = [] then model else wm_model_policy m),
        wm_capabilities = [(''public_web'', True)]\<rparr>,
      wk_status = Some ''idle''\<rparr>"

definition create_web_search_worker :: "string \<Rightarrow> worker_metadata \<Rightarrow> registry \<Rightarrow> registry_error + worker_object" where
  "create_web_search_worker model m r =
     (case rg_worker_factory r of
        Some factory \<Rightarrow> require_web_search_capability (factory (wm_worker_id m))
      | None \<Rightarrow> Inr (web_search_worker model m))"

definition register ::
    "string \<Rightarrow> string \<Rightarrow> string \<Rightarrow> string \<Rightarrow> string \<Rightarrow> (string, bool) dict option \<Rightarrow> worker_object option \<Rightarrow>
     registry \<Rightarrow> registry \<times> (registry_error + registered_worker)" where
  "register worker_id worker_type topic topic_summary model_policy capabilities worker r =
     (if worker_type \<noteq> ''web_search'' then (r, Inl (UnsupportedWorkerType worker_type))
      else if map_of (rg_workers r) worker_id \<noteq> None then (r, Inl (AlreadyRegistered worker_id))
      else
        case map_of (rg_worker_model_policy r) model_policy of
          None \<Rightarrow> (r, Inl (UnknownPolicy model_policy))
        | Some model \<Rightarrow>
            if py_strip worker_id = [] then (r, Inl EmptyWorkerId)
            else
              let m = \<lparr>wm_worker_id = worker_id, wm_worker_type = worker_type, wm_topic = topic,
                       wm_topic_summary = topic_summary, wm_model_policy = model_policy,
                       wm_capabilities = (case capabilities of None \<Rightarrow> [] | Some c \<Rightarrow> c)\<rparr> in
              (case (case worker of None \<Rightarrow> create_web_search_worker model m r | Some w \<Rightarrow> Inr w) of
                 Inl e \<Rightarrow> (r, Inl e)
               | Inr w \<Rightarrow>
                   (case require_web_search_capability w of
                      Inl e \<Rightarrow> (r, Inl e)
                    | Inr w \<Rightarrow>
                        (case require_matching_identity w m of
                           Inl e \<Rightarrow> (r, Inl e)
                         | Inr own \<Rightarrow>
                             let m = (if capabilities = None then m\<lparr>wm_capabilities := wm_capabilities own\<rparr> else m);
                                 x = \<lparr>rw_metadata = m, rw_worker = w\<rparr>
                             in (r\<lparr>rg_workers := AList.update worker_id x (rg_workers r),
                                   rg_version := rg_version r + 1\<rparr>, Inr x)))))"

definition get_worker :: "string \<Rightarrow> registry \<Rightarrow> registry_error + registered_worker" where
  "get_worker worker_id r =
     (case map_of (rg_workers r) worker_id of None \<Rightarrow> Inl (UnknownWorker worker_id) | Some x \<Rightarrow> Inr x)"

definition get_or_create ::
    "string \<Rightarrow> string \<Rightarrow> string \<Rightarrow> registry \<Rightarrow> registry \<times> (registry_error + registered_worker)" where
  "get_or_create topic worker_type model_policy r =
     (if worker_type \<noteq> ''web_search'' then (r, Inl (UnsupportedWorkerType worker_type))
      else
        case find (\<lambda>x. wm_topic (rw_metadata x) = topic \<and> wm_worker_type (rw_metadata x) = worker_type)
               (dvals (rg_workers r)) of
          Some x \<Rightarrow>
            if wm_model_policy (rw_metadata x) \<noteq> model_policy then (r, Inl IncompatiblePolicy) else (r, Inr x)
        | None \<Rightarrow>
            register (''worker-'' @ show_nat (length (rg_workers r) + 1)) worker_type topic [] model_policy None None r)"

definition entry_of :: "registered_worker \<Rightarrow> worker_catalogue_entry" where
  "entry_of x =
     (let m = rw_metadata x in
      \<lparr>ce_worker_id = wm_worker_id m, ce_worker_type = wm_worker_type m, ce_topic = wm_topic m,
       ce_status = (case wk_status (rw_worker x) of None \<Rightarrow> ''idle'' | Some s \<Rightarrow> s),
       ce_capabilities = wm_capabilities m, ce_model_policies = [wm_model_policy m],
       ce_topic_summary = wm_topic_summary m, ce_model_policy = wm_model_policy m\<rparr>)"

definition catalogue :: "registry \<Rightarrow> worker_catalogue" where
  "catalogue r =
     (let entries = map entry_of (dvals (rg_workers r));
          labels = concat (map (\<lambda>e. dkeys (ce_capabilities e)) entries);
          labels = (if labels = [] then [''public_web''] else labels)
      in \<lparr>wc_version = ''catalogue-'' @ show_nat (rg_version r), wc_workers = entries,
          wc_capability_labels = sort (remdups labels),
          wc_model_policies = sort (dkeys (rg_worker_model_policy r))\<rparr>)"

definition remove_worker :: "string \<Rightarrow> registry \<Rightarrow> registry \<times> (registry_error + unit)" where
  "remove_worker worker_id r = (r, Inl EvictionDisabled)"

section \<open>Dispatch\<close>

datatype dispatch_error = RoutingRejected routing_error | RegistryRejected registry_error

definition dispatch ::
    "routing_decision \<Rightarrow> worker_catalogue option \<Rightarrow> registry \<Rightarrow> registry \<times> (dispatch_error + registered_worker option)" where
  "dispatch d snapshot r =
     (case validate_decision d (case snapshot of None \<Rightarrow> catalogue r | Some c \<Rightarrow> c) of
        Inl e \<Rightarrow> (r, Inl (RoutingRejected e))
      | Inr _ \<Rightarrow>
          if rd_action d = NewWorker then
            (case get_or_create (case rd_topic d of None \<Rightarrow> [] | Some x \<Rightarrow> x)
                    (case rd_worker_type d of None \<Rightarrow> [] | Some x \<Rightarrow> x)
                    (case rd_model_policy d of None \<Rightarrow> [] | Some x \<Rightarrow> x) r of
               (r, Inl e) \<Rightarrow> (r, Inl (RegistryRejected e))
             | (r, Inr x) \<Rightarrow> (r, Inr (Some x)))
          else if truthy (rd_worker_id d) then
            (case get_worker (the (rd_worker_id d)) r of
               Inl e \<Rightarrow> (r, Inl (RegistryRejected e))
             | Inr x \<Rightarrow> (r, Inr (Some x)))
          else (r, Inr None))"

section \<open>Accepted decisions\<close>

lemma accepted_routes:
  assumes "validate_selection d = Inr d'"
  shows "is_worker_route (rd_action d) \<Longrightarrow> truthy (rd_worker_type d) \<and> truthy (rd_topic d) \<and> truthy (rd_model_policy d)"
    and "rd_action d = ExistingWorker \<Longrightarrow> \<exists>w. rd_worker_id d = Some w \<and> w \<noteq> []"
    and "\<not> is_worker_route (rd_action d) \<Longrightarrow> rd_worker_id d = None \<and> rd_worker_type d = None \<and> rd_topic d = None"
  using assms by (auto simp: validate_selection_def truthy_def is_worker_route_def split: if_splits)

end
