(* ===== verification/Routing_Properties.thy ===== *)
theory Routing_Properties
  imports Routing
begin

text \<open>
  The registry as a machine that only ever grows, and what follows for routing: a decision is valid
  exactly for the snapshot it was made against, a validated decision dispatches to the worker it names,
  and a new-worker decision that omits the deterministic fields is completed to a valid one.
\<close>

section \<open>The registry grows\<close>

lemma find_member: "find P xs = Some x \<Longrightarrow> x \<in> set xs \<and> P x"
  by (induction xs) (auto split: if_splits)

datatype reg_op =
    RgRegister string string string string string "(string, bool) dict option" "worker_object option"
  | RgGetOrCreate string string string
  | RgRemove string

primrec reg_step :: "reg_op \<Rightarrow> registry \<Rightarrow> registry" where
  "reg_step (RgRegister i t topic summary policy caps w) r = fst (register i t topic summary policy caps w r)"
| "reg_step (RgGetOrCreate topic t policy) r = fst (get_or_create topic t policy r)"
| "reg_step (RgRemove i) r = fst (remove_worker i r)"

definition worker_ok :: "registry \<Rightarrow> string \<Rightarrow> registered_worker \<Rightarrow> bool" where
  "worker_ok r k x \<longleftrightarrow> wm_worker_id (rw_metadata x) = k \<and> wm_worker_type (rw_metadata x) = ''web_search'' \<and>
     map_of (rg_worker_model_policy r) (wm_model_policy (rw_metadata x)) \<noteq> None \<and> wk_search (rw_worker x)"

definition registry_inv :: "registry \<Rightarrow> bool" where
  "registry_inv r \<longleftrightarrow> wf_dict (rg_workers r) \<and> rg_version r = length (rg_workers r) \<and>
     (\<forall>k x. map_of (rg_workers r) k = Some x \<longrightarrow> worker_ok r k x)"

text \<open>A registration either fails and changes nothing, or appends one worker under a fresh id.\<close>

lemma register_cases:
  obtains (refused) e where "register i t topic summary policy caps w r = (r, Inl e)"
  | (registered) x where "register i t topic summary policy caps w r =
        (r\<lparr>rg_workers := rg_workers r @ [(i, x)], rg_version := rg_version r + 1\<rparr>, Inr x)"
      "map_of (rg_workers r) i = None" "worker_ok r i x" "t = ''web_search''" "wm_topic (rw_metadata x) = topic"
      "wm_model_policy (rw_metadata x) = policy"
proof -
  have fresh: "AList.update i x d = d @ [(i, x)]" if "map_of d i = None" for x and d :: "(string, registered_worker) dict"
    using that by (induction d) (auto split: if_splits)
  obtain r' res where e: "register i t topic summary policy caps w r = (r', res)" by fastforce
  show ?thesis
  proof (cases res)
    case (Inl err)
    then have "r' = r" using e by (auto simp: register_def Let_def split: if_splits option.splits sum.splits)
    with Inl e refused show ?thesis by blast
  next
    case (Inr x)
    then have "register i t topic summary policy caps w r =
        (r\<lparr>rg_workers := AList.update i x (rg_workers r), rg_version := rg_version r + 1\<rparr>, Inr x) \<and>
        map_of (rg_workers r) i = None \<and> worker_ok r i x \<and> t = ''web_search'' \<and> wm_topic (rw_metadata x) = topic \<and>
        wm_model_policy (rw_metadata x) = policy"
      using e by (auto simp: register_def Let_def worker_ok_def require_web_search_capability_def
          split: if_splits option.splits sum.splits)
    then show ?thesis using fresh registered by metis
  qed
qed

lemma get_or_create_cases:
  obtains (refused) e where "get_or_create topic t policy r = (r, Inl e)"
  | (found) k x where "get_or_create topic t policy r = (r, Inr x)" "(k, x) \<in> set (rg_workers r)"
      "wm_topic (rw_metadata x) = topic" "wm_worker_type (rw_metadata x) = t" "wm_model_policy (rw_metadata x) = policy"
  | (created) i x where "get_or_create topic t policy r =
        (r\<lparr>rg_workers := rg_workers r @ [(i, x)], rg_version := rg_version r + 1\<rparr>, Inr x)"
      "map_of (rg_workers r) i = None" "worker_ok r i x" "t = ''web_search''" "wm_topic (rw_metadata x) = topic"
      "wm_model_policy (rw_metadata x) = policy"
      "\<forall>y \<in> set (dvals (rg_workers r)). \<not> (wm_topic (rw_metadata y) = topic \<and> wm_worker_type (rw_metadata y) = t)"
proof -
  let ?P = "\<lambda>x. wm_topic (rw_metadata x) = topic \<and> wm_worker_type (rw_metadata x) = t"
  show ?thesis
  proof (cases "t = ''web_search''")
    case False
    then show ?thesis using refused by (simp add: get_or_create_def)
  next
    case True
    show ?thesis
    proof (cases "find ?P (dvals (rg_workers r))")
      case (Some x)
      then have "x \<in> set (dvals (rg_workers r))" "?P x" using find_member [OF Some] by auto
      with Some True show ?thesis using refused found [of x] by (cases "wm_model_policy (rw_metadata x) = policy")
          (auto simp: get_or_create_def)
    next
      case None
      let ?i = "''worker-'' @ show_nat (length (rg_workers r) + 1)"
      have eq: "get_or_create topic t policy r = register ?i t topic [] policy None None r"
        using None True by (simp add: get_or_create_def)
      have none: "\<forall>y \<in> set (dvals (rg_workers r)). \<not> ?P y" using None by (simp add: find_None_iff)
      show ?thesis
      proof (cases rule: register_cases [of ?i t topic "[]" policy None None r])
        case (refused e)
        with eq show ?thesis using \<open>\<And>e. get_or_create topic t policy r = (r, Inl e) \<Longrightarrow> thesis\<close> by simp
      next
        case (registered x)
        show ?thesis by (rule created [of ?i x]) (use eq registered none in simp_all)
      qed
    qed
  qed
qed

definition grows :: "registry \<Rightarrow> registry \<Rightarrow> bool" where
  "grows r r' \<longleftrightarrow> prefix (rg_workers r) (rg_workers r') \<and> rg_worker_model_policy r' = rg_worker_model_policy r"

lemma append_worker_inv:
  assumes "registry_inv r" and "map_of (rg_workers r) i = None" and "worker_ok r i x"
  shows "registry_inv (r\<lparr>rg_workers := rg_workers r @ [(i, x)], rg_version := rg_version r + 1\<rparr>)"
proof -
  have "wf_dict (rg_workers r @ [(i, x)])"
    using assms(1,2) by (auto simp: registry_inv_def wf_dict_def map_of_None_iff)
  then show ?thesis using assms by (auto simp: registry_inv_def worker_ok_def map_add_def split: option.splits if_splits)
qed

lemma reg_step_spec: "registry_inv r \<Longrightarrow> registry_inv (reg_step e r) \<and> grows r (reg_step e r)"
proof (cases e)
  case (RgRegister i t topic summary policy caps w)
  assume inv: "registry_inv r"
  show ?thesis
    by (cases rule: register_cases [of i t topic summary policy caps w r])
      (use inv append_worker_inv [OF inv] in \<open>auto simp: RgRegister grows_def\<close>)
next
  case (RgGetOrCreate topic t policy)
  assume inv: "registry_inv r"
  show ?thesis
    by (cases rule: get_or_create_cases [of topic t policy r])
      (use inv append_worker_inv [OF inv] in \<open>auto simp: RgGetOrCreate grows_def\<close>)
qed (simp add: remove_worker_def grows_def)

interpretation registry: mono_machine reg_step registry_inv grows
proof unfold_locales
  fix r r' r''
  assume "grows r r'" "grows r' r''"
  then show "grows r r''" unfolding grows_def by (metis prefix_order.trans)
qed (use reg_step_spec in \<open>auto simp: grows_def\<close>)

lemma init_registry_inv: "registry_inv (init_registry policies factory)"
  by (simp add: registry_inv_def init_registry_def)

section \<open>Snapshots\<close>

lemma validated_version: "validate_decision d c = Inr d' \<Longrightarrow> d' = d \<and> rd_catalogue_version d = wc_version c \<and> rd_catalogue_worker_ids d = worker_ids c"
  by (auto simp: validate_decision_def Let_def split: if_splits option.splits)

lemma catalogue_version_inj: "wc_version (catalogue r) = wc_version (catalogue r') \<longleftrightarrow> rg_version r = rg_version r'"
  by (simp add: catalogue_def Let_def show_nat_inj)

text \<open>
  Decisions are bound to their snapshot. Workers are never removed or replaced: every later state of
  the registry extends the earlier one. A decision that was valid for the catalogue of one state is
  valid for the catalogue of a later state exactly when nothing was registered in between.
\<close>

theorem decision_bound_to_snapshot:
  assumes "r = fold reg_step before (init_registry policies factory)" and "validate_decision d (catalogue r) = Inr d'"
  shows "let r' = fold reg_step after r in
     prefix (rg_workers r) (rg_workers r') \<and>
     (validate_decision d (catalogue r') = Inr d' \<longleftrightarrow> rg_workers r' = rg_workers r)"
proof -
  let ?r' = "fold reg_step after r"
  have inv: "registry_inv r" unfolding assms(1) by (intro registry.run_inv init_registry_inv)
  then have inv': "registry_inv ?r'" by (rule registry.run_inv)
  have g: "grows r ?r'" using inv by (rule registry.run_leq)
  have "validate_decision d (catalogue ?r') = Inr d'" if "rg_workers ?r' = rg_workers r"
  proof -
    have "catalogue ?r' = catalogue r" using that g inv inv' by (simp add: catalogue_def grows_def registry_inv_def)
    with assms(2) show ?thesis by simp
  qed
  moreover have "rg_workers ?r' = rg_workers r" if "validate_decision d (catalogue ?r') = Inr d'"
  proof -
    have "wc_version (catalogue ?r') = wc_version (catalogue r)"
      using validated_version [OF that] validated_version [OF assms(2)] by simp
    then have "length (rg_workers ?r') = length (rg_workers r)"
      using inv inv' by (simp add: catalogue_version_inj registry_inv_def)
    with g show ?thesis by (auto simp: grows_def prefix_def)
  qed
  ultimately show ?thesis using g by (auto simp: Let_def grows_def)
qed

section \<open>Dispatch\<close>

lemma catalogue_find:
  assumes "registry_inv r" and "find (\<lambda>w. Some (ce_worker_id w) = Some k) (wc_workers (catalogue r)) = Some entry"
  shows "\<exists>x. map_of (rg_workers r) k = Some x \<and> entry = entry_of x"
proof -
  have "entry \<in> set (wc_workers (catalogue r))" "ce_worker_id entry = k"
    using assms(2) by (auto simp: find_Some_iff)
  then obtain k' x where x: "(k', x) \<in> set (rg_workers r)" "entry = entry_of x"
    by (auto simp: catalogue_def Let_def)
  then have "map_of (rg_workers r) k' = Some x" using assms(1) by (simp add: registry_inv_def wf_dict_map_of)
  moreover have "k' = k" using x \<open>ce_worker_id entry = k\<close> calculation assms(1)
    by (simp add: registry_inv_def worker_ok_def entry_of_def Let_def)
  ultimately show ?thesis using x(2) by blast
qed

lemma existing_dispatch:
  assumes inv: "registry_inv r" and sel: "rd_action d = ExistingWorker" "rd_worker_id d = Some k" "k \<noteq> []"
    and v: "validate_decision d (catalogue r) = Inr d'"
  shows "\<exists>x. dispatch d None r = (r, Inr (Some x)) \<and> map_of (rg_workers r) k = Some x \<and>
     rd_worker_type d = Some (wm_worker_type (rw_metadata x)) \<and> rd_topic d = Some (wm_topic (rw_metadata x)) \<and>
     rd_model_policy d = Some (wm_model_policy (rw_metadata x)) \<and>
     (\<exists>cap. rd_capability d = Some cap \<and> map_of (wm_capabilities (rw_metadata x)) cap = Some True)"
proof -
  obtain entry where e: "find (\<lambda>w. Some (ce_worker_id w) = Some k) (wc_workers (catalogue r)) = Some entry"
    using v sel by (auto simp: validate_decision_def is_worker_route_def split: if_splits option.splits)
  from catalogue_find [OF inv e] obtain x where x: "map_of (rg_workers r) k = Some x" "entry = entry_of x" by blast
  have facts: "rd_worker_type d = Some (ce_worker_type entry)" "rd_topic d = Some (ce_topic entry)"
    "opt_in (rd_model_policy d) (ce_model_policies entry)" "opt_in (rd_capability d) (wc_capability_labels (catalogue r))"
    "map_of (ce_capabilities entry) (the (rd_capability d)) = Some True"
    using v sel e x(2) by (auto simp: validate_decision_def is_worker_route_def Let_def entry_of_def split: if_splits option.splits)
  then show ?thesis using v sel x
    by (auto simp: dispatch_def get_worker_def truthy_def entry_of_def opt_in_def Let_def split: option.splits)
qed

text \<open>
  A validated decision dispatches to what it names. After any registrations, dispatching a decision
  that passed both validations against the current catalogue: an existing-worker decision returns the
  registered worker of that id, whose type, topic and policy are the decision's and which offers the
  capability; a direct, unsupported or clarifying decision returns none; a new-worker decision returns a
  worker of its topic, type and policy, either the one already registered for the topic or a fresh one
  appended under a new id when the topic had none. A refused dispatch changes nothing.
\<close>

theorem validated_decision_dispatches:
  assumes "r = fold reg_step ops (init_registry policies factory)" and "validate_selection d = Inr d"
    and "validate_decision d (catalogue r) = Inr d"
  shows "case dispatch d None r of
       (r', Inl e) \<Rightarrow> r' = r \<and> rd_action d = NewWorker \<and> (\<exists>x. e = RegistryRejected x)
     | (r', Inr res) \<Rightarrow>
         if rd_action d = ExistingWorker then
           r' = r \<and> (\<exists>k x cap. rd_worker_id d = Some k \<and> res = Some x \<and> map_of (rg_workers r) k = Some x \<and>
             rd_worker_type d = Some (wm_worker_type (rw_metadata x)) \<and> rd_topic d = Some (wm_topic (rw_metadata x)) \<and>
             rd_model_policy d = Some (wm_model_policy (rw_metadata x)) \<and>
             rd_capability d = Some cap \<and> map_of (wm_capabilities (rw_metadata x)) cap = Some True)
         else if rd_action d = NewWorker then
           (\<exists>x. res = Some x \<and> rd_topic d = Some (wm_topic (rw_metadata x)) \<and>
             rd_worker_type d = Some (wm_worker_type (rw_metadata x)) \<and>
             rd_model_policy d = Some (wm_model_policy (rw_metadata x)) \<and>
             (r' = r \<and> x \<in> set (dvals (rg_workers r)) \<or>
              (\<exists>i. rg_workers r' = rg_workers r @ [(i, x)] \<and> i \<notin> set (dkeys (rg_workers r)) \<and>
                 wm_topic (rw_metadata x) \<notin> wm_topic ` rw_metadata ` set (dvals (rg_workers r)))))
         else r' = r \<and> res = None"
proof -
  have inv: "registry_inv r" unfolding assms(1) by (intro registry.run_inv init_registry_inv)
  note sel = accepted_routes [OF assms(2)]
  consider (existing) "rd_action d = ExistingWorker" | (fresh) "rd_action d = NewWorker" | (none) "\<not> is_worker_route (rd_action d)"
    by (cases "rd_action d") (auto simp: is_worker_route_def)
  then show ?thesis
  proof cases
    case existing
    then obtain k where "rd_worker_id d = Some k" "k \<noteq> []" using sel(2) by blast
    from existing_dispatch [OF inv existing this assms(3)] this existing show ?thesis by auto
  next
    case none
    then show ?thesis using assms(3) sel(3)
      by (auto simp: dispatch_def is_worker_route_def truthy_def)
  next
    case fresh
    then obtain t topic policy where f: "rd_worker_type d = Some t" "rd_topic d = Some topic" "rd_model_policy d = Some policy"
      using sel(1) by (auto simp: is_worker_route_def truthy_def)
    have types: "wm_worker_type (rw_metadata y) = ''web_search''" if "y \<in> set (dvals (rg_workers r))" for y
    proof -
      from that obtain k where "map_of (rg_workers r) k = Some y" using inv by (auto simp: registry_inv_def wf_dict_map_of)
      with inv show ?thesis by (simp add: registry_inv_def worker_ok_def)
    qed
    show ?thesis
    proof (cases rule: get_or_create_cases [of topic t policy r])
      case (refused e)
      with fresh f assms(3) show ?thesis by (simp add: dispatch_def)
    next
      case (found k x)
      with fresh f assms(3) show ?thesis by (force simp: dispatch_def)
    next
      case (created i x)
      then have "topic \<notin> wm_topic ` rw_metadata ` set (dvals (rg_workers r))" using types by fastforce
      with created fresh f assms(3) show ?thesis by (auto simp: dispatch_def map_of_None_iff worker_ok_def)
    qed
  qed
qed

section \<open>Completion\<close>

lemma py_split_on_words: "w \<in> set (py_split_on v s) \<Longrightarrow> (\<forall>c \<in> set v. \<not> is_space c) \<Longrightarrow> w \<noteq> [] \<and> (\<forall>c \<in> set w. \<not> is_space c)"
proof (induction v s rule: py_split_on.induct)
  case (2 v c cs)
  show ?case
  proof (cases "is_space c")
    case True
    then consider "w = v" "v \<noteq> []" | "w \<in> set (py_split_on [] cs)" using 2(4) by (simp split: if_splits) blast
    then show ?thesis
    proof cases
      case 1
      then show ?thesis using 2(5) by simp
    next
      case found: 2
      have "\<forall>c \<in> set ([] :: string). \<not> is_space c" by simp
      then show ?thesis using 2(1) [OF True _ found] 2(2) [OF True _ found] by blast
    qed
  next
    case False
    then have "w \<in> set (py_split_on (v @ [c]) cs)" "\<forall>x \<in> set (v @ [c]). \<not> is_space x" using 2(4,5) by auto
    then show ?thesis using 2(3) [OF False] by blast
  qed
qed (simp split: if_splits)

lemma py_strip_empty: "py_strip s = [] \<longleftrightarrow> (\<forall>c \<in> set s. is_space c)"
proof -
  have "py_strip s = [] \<longleftrightarrow> (\<forall>c \<in> set (dropWhile is_space s). is_space c)" by (simp add: py_strip_def)
  also have "\<dots> \<longleftrightarrow> (\<forall>c \<in> set s. is_space c)"
    by (induction s) auto
  finally show ?thesis .
qed

lemma distinct_singleton: "distinct xs \<Longrightarrow> set xs = {a} \<Longrightarrow> xs = [a]"
  by (cases xs) (auto simp: subset_singleton_iff insert_eq_iff)

lemma set_py_join: "w \<in> set ws \<Longrightarrow> set w \<subseteq> set (py_join sep ws)"
  by (induction sep ws rule: py_join.induct) auto

lemma collapsed_nonempty: "py_split s \<noteq> [] \<Longrightarrow> py_strip (py_join '' '' (py_split s)) \<noteq> []"
proof -
  assume "py_split s \<noteq> []"
  then obtain w where w: "w \<in> set (py_split s)" by (meson last_in_set)
  then have "w \<noteq> []" "\<forall>c \<in> set w. \<not> is_space c" using py_split_on_words [of w "[]" s] by (auto simp: py_split_def)
  then obtain c where "c \<in> set w" "\<not> is_space c" by (cases w) auto
  then show ?thesis using set_py_join [OF w] by (auto simp: py_strip_empty)
qed

text \<open>
  An incomplete new-worker decision is completed deterministically. When the configuration has one
  worker policy and the catalogue offers public web search, a new-worker decision for the current
  snapshot that leaves its worker fields open is completed to web search, that policy, that capability,
  and the whitespace-collapsed transcript cut at 200 characters as its topic, and passes both validations.
\<close>

theorem new_worker_completed:
  assumes "r = fold reg_step ops (init_registry [(policy, model)] factory)" and "policy \<noteq> []"
    and "''public_web'' \<in> set (wc_capability_labels (catalogue r))" and "py_split transcript \<noteq> []"
    and "raw = \<lparr>rd_action = NewWorker, rd_worker_id = None, rd_worker_type = None, rd_topic = None, rd_capability = None,
           rd_capability_available = True, rd_model_policy = None, rd_catalogue_version = wc_version (catalogue r),
           rd_catalogue_worker_ids = worker_ids (catalogue r), rd_origin_epoch = e\<rparr>"
  shows "route_envelope (\<lambda>_ _. (raw, prose)) transcript (catalogue r) =
     Inr (raw\<lparr>rd_worker_type := Some ''web_search'', rd_model_policy := Some policy, rd_capability := Some ''public_web'',
             rd_topic := Some (take 200 (py_strip (py_join '' '' (py_split transcript))))\<rparr>, prose)"
proof -
  let ?c = "catalogue r" and ?topic = "py_strip (py_join '' '' (py_split transcript))"
  let ?d = "raw\<lparr>rd_worker_type := Some ''web_search'', rd_model_policy := Some policy, rd_capability := Some ''public_web'',
      rd_topic := Some (take 200 ?topic)\<rparr>"
  have inv: "registry_inv r" unfolding assms(1) by (intro registry.run_inv init_registry_inv)
  have "grows (init_registry [(policy, model)] factory) r"
    unfolding assms(1) by (intro registry.run_leq init_registry_inv)
  then have policies: "wc_model_policies ?c = [policy]"
    by (simp add: grows_def init_registry_def catalogue_def Let_def)
  have types: "set (map ce_worker_type (wc_workers ?c)) \<subseteq> {''web_search''}"
  proof -
    have "wm_worker_type (rw_metadata x) = ''web_search''" if "(k, x) \<in> set (rg_workers r)" for k x
      using that inv by (simp add: registry_inv_def wf_dict_map_of worker_ok_def)
    then show ?thesis by (auto simp: catalogue_def entry_of_def Let_def)
  qed
  have one: "remdups (map ce_worker_type (wc_workers ?c)) = [''web_search'']" if "wc_workers ?c \<noteq> []"
  proof -
    have "set (remdups (map ce_worker_type (wc_workers ?c))) = {''web_search''}"
      using types that by (cases "wc_workers ?c") auto
    then show ?thesis by (rule distinct_singleton [OF distinct_remdups])
  qed
  have "?topic \<noteq> []" using assms(4) by (rule collapsed_nonempty)
  then have "complete_new_worker_fields raw transcript ?c = ?d"
    using policies one assms(3) by (auto simp: complete_new_worker_fields_def assms(5) Let_def)
  moreover have "validate_selection ?d = Inr ?d"
    using \<open>?topic \<noteq> []\<close> assms(2) by (simp add: validate_selection_def is_worker_route_def truthy_def assms(5))
  moreover have "''web_search'' \<in> ce_worker_type ` set (wc_workers ?c)" if "wc_workers ?c \<noteq> []"
    using types that by (cases "wc_workers ?c") auto
  then have "validate_decision ?d ?c = Inr ?d"
    using policies assms(3) by (auto simp: validate_decision_def is_worker_route_def opt_in_def truthy_def assms(5))
  ultimately show ?thesis by (simp add: route_envelope_def)
qed

section \<open>Witnesses\<close>

definition demo_registry :: registry where
  "demo_registry = fold reg_step [RgGetOrCreate ''news'' ''web_search'' ''deep''] (init_registry [(''deep'', ''model'')] None)"

definition demo_decision :: routing_decision where
  "demo_decision = \<lparr>rd_action = ExistingWorker, rd_worker_id = Some ''worker-1'', rd_worker_type = Some ''web_search'',
     rd_topic = Some ''news'', rd_capability = Some ''public_web'', rd_capability_available = True,
     rd_model_policy = Some ''deep'', rd_catalogue_version = ''catalogue-1'',
     rd_catalogue_worker_ids = [''worker-1''], rd_origin_epoch = None\<rparr>"

lemma demo_decision_valid: "validate_selection demo_decision = Inr demo_decision"
    "validate_decision demo_decision (catalogue demo_registry) = Inr demo_decision"
  by code_simp+

lemma decision_bound_to_snapshot_witness:
  "validate_decision demo_decision
     (catalogue (fold reg_step [RgGetOrCreate ''sport'' ''web_search'' ''deep''] demo_registry)) \<noteq> Inr demo_decision"
proof -
  have "rg_workers (fold reg_step [RgGetOrCreate ''sport'' ''web_search'' ''deep''] demo_registry) \<noteq> rg_workers demo_registry"
    by code_simp
  then show ?thesis
    using decision_bound_to_snapshot [OF demo_registry_def demo_decision_valid(2),
        of "[RgGetOrCreate ''sport'' ''web_search'' ''deep'']"] unfolding Let_def by blast
qed

lemma validated_decision_dispatches_witness:
  "\<exists>r' res. dispatch demo_decision None demo_registry = (r', Inr res) \<and> r' = demo_registry"
proof -
  have "case snd (dispatch demo_decision None demo_registry) of Inl e \<Rightarrow> False | Inr res \<Rightarrow> True" by code_simp
  then obtain r' res where d: "dispatch demo_decision None demo_registry = (r', Inr res)"
    by (cases "dispatch demo_decision None demo_registry") (auto split: sum.splits)
  from validated_decision_dispatches [OF demo_registry_def demo_decision_valid] d show ?thesis
    by (simp add: demo_decision_def)
qed

lemma new_worker_completed_witness:
  "\<exists>d prose. route_envelope (\<lambda>_ _. (\<lparr>rd_action = NewWorker, rd_worker_id = None, rd_worker_type = None, rd_topic = None,
       rd_capability = None, rd_capability_available = True, rd_model_policy = None,
       rd_catalogue_version = wc_version (catalogue demo_registry),
       rd_catalogue_worker_ids = worker_ids (catalogue demo_registry), rd_origin_epoch = None\<rparr>, None))
     ''find  the score'' (catalogue demo_registry) = Inr (d, prose) \<and>
     rd_topic d = Some (take 200 (py_strip (py_join '' '' (py_split ''find  the score''))))"
proof -
  have l: "''public_web'' \<in> set (wc_capability_labels (catalogue demo_registry))" by code_simp
  have t: "py_split ''find  the score'' \<noteq> []" by code_simp
  from new_worker_completed [OF demo_registry_def _ l t refl, of None] show ?thesis by simp
qed

end
