(* ===== verification/Session_Ledger.thy ===== *)
theory Session_Ledger
  imports Session_Properties
begin

text \<open>
  The work-status ledger of \<open>SessionState\<close>: the per-key invariant that ties children, parent
  record, sequence, tombstones and restored keys together, its preservation by every operation, the
  stream of statuses a client sees, overflow eviction, and the snapshot round trip.
\<close>

section \<open>The ledger invariant\<close>

text \<open>Whether a key has reached its terminal state: in its live record or as a tombstone.\<close>

definition settled :: "ws_key \<Rightarrow> session_state \<Rightarrow> bool" where
  "settled k s \<longleftrightarrow> k \<in> ss_ws_terminal_keys s \<or>
     (case map_of (ss_ws_parents s) k of None \<Rightarrow> False | Some r \<Rightarrow> ws_terminal (ws_state (wr_status r)))"

definition last_sequence :: "session_state \<Rightarrow> ws_key \<Rightarrow> nat" where
  "last_sequence s k = (case map_of (ss_ws_sequence s) k of None \<Rightarrow> 0 | Some n \<Rightarrow> n)"

definition record_ok :: "session_state \<Rightarrow> ws_key \<Rightarrow> ws_record \<Rightarrow> bool" where
  "record_ok s k r \<longleftrightarrow>
     restore_key (wr_status r) = k \<and>
     map_of (ss_ws_sequence s) k = Some (ws_event_sequence (wr_status r)) \<and>
     (wr_terminal_at r \<noteq> None \<longleftrightarrow> ws_terminal (ws_state (wr_status r))) \<and>
     k \<notin> ss_ws_terminal_keys s \<and>
     map_of (ss_ws_children s) k \<noteq> None \<and>
     (k \<notin> ss_ws_nonauth_keys s \<longrightarrow>
        children_of s k \<noteq> [] \<and>
        (ws_terminal (ws_state (wr_status r)) \<or>
         ws_state (wr_status r) = fst (aggregate (dvals (children_of s k)))))"

definition key_ok :: "session_state \<Rightarrow> ws_key \<Rightarrow> bool" where
  "key_ok s k \<longleftrightarrow>
     (case map_of (ss_ws_parents s) k of
        None \<Rightarrow> map_of (ss_ws_children s) k = None
      | Some r \<Rightarrow> record_ok s k r)"

definition ledger_inv :: "session_state \<Rightarrow> bool" where
  "ledger_inv s \<longleftrightarrow> wf_dict (ss_ws_parents s) \<and> wf_dict (ss_ws_children s) \<and> (\<forall>k. key_ok s k)"

text \<open>What the invariant at a key depends on.\<close>

definition same_key :: "ws_key \<Rightarrow> session_state \<Rightarrow> session_state \<Rightarrow> bool" where
  "same_key k s t \<longleftrightarrow>
     map_of (ss_ws_parents t) k = map_of (ss_ws_parents s) k \<and>
     map_of (ss_ws_children t) k = map_of (ss_ws_children s) k \<and>
     map_of (ss_ws_sequence t) k = map_of (ss_ws_sequence s) k \<and>
     (k \<in> ss_ws_terminal_keys t \<longleftrightarrow> k \<in> ss_ws_terminal_keys s) \<and>
     (k \<in> ss_ws_nonauth_keys t \<longleftrightarrow> k \<in> ss_ws_nonauth_keys s)"

lemma same_key_ok: "same_key k s t \<Longrightarrow> key_ok t k = key_ok s k"
  by (simp add: same_key_def key_ok_def record_ok_def children_of_def split: option.split)

lemma same_key_settled: "same_key k s t \<Longrightarrow> settled k t = settled k s"
  by (simp add: same_key_def settled_def)

lemma forget_same_key: "k' \<noteq> k \<Longrightarrow> same_key k' s (forget_work_status k s)"
  by (auto simp: same_key_def forget_work_status_def Let_def split: option.split)

lemma forget_key_ok: "key_ok (forget_work_status k s) k"
  by (auto simp: key_ok_def forget_work_status_def Let_def split: option.split)

lemma forget_wf:
  "wf_dict (ss_ws_parents s) \<Longrightarrow> wf_dict (ss_ws_parents (forget_work_status k s))"
  "wf_dict (ss_ws_children s) \<Longrightarrow> wf_dict (ss_ws_children (forget_work_status k s))"
  by (auto simp: forget_work_status_def Let_def split: option.split)

lemma forget_inv: "ledger_inv s \<Longrightarrow> ledger_inv (forget_work_status k s)"
  unfolding ledger_inv_def using forget_key_ok forget_same_key same_key_ok forget_wf by metis

lemma forget_settled: "settled k s \<Longrightarrow> settled k (forget_work_status k' s)"
proof (cases "k' = k")
  case True
  assume "settled k s"
  with True show ?thesis
    by (auto simp: settled_def forget_work_status_def Let_def split: option.splits)
qed (simp add: same_key_settled [OF forget_same_key])

text \<open>A fact that forgetting keeps is kept by eviction and by pruning.\<close>

lemma evict_keeps:
  assumes "\<And>k s. P s \<Longrightarrow> P (forget_work_status k s)" and "P s"
  shows "P (evict_overflow protect s)"
  using assms(2)
proof (induction protect s rule: evict_overflow.induct)
  case (1 protect s)
  then show ?case
    by (subst evict_overflow.simps) (auto simp: assms(1) split: option.split)
qed

lemma prune_keeps:
  assumes "\<And>k s. P s \<Longrightarrow> P (forget_work_status k s)" and "P s"
  shows "P (prune_expired_work_status now s)"
proof -
  have "P (fold forget_work_status ks s)" for ks
    using assms(2) by (induction ks arbitrary: s) (auto simp: assms(1))
  then show ?thesis by (simp add: prune_expired_work_status_def)
qed

lemma evict_protect:
  "map_of (ss_ws_parents (evict_overflow protect s)) protect = map_of (ss_ws_parents s) protect"
proof (induction protect s rule: evict_overflow.induct)
  case (1 protect s)
  then show ?case
    by (subst evict_overflow.simps)
      (auto simp: forget_parents eviction_candidates_iff split: option.split dest!: first_min_in)
qed

section \<open>Every operation keeps the ledger invariant\<close>

text \<open>The state a child report writes before overflow eviction.\<close>

definition put_record ::
    "instant \<Rightarrow> ws_key \<Rightarrow> work_status_state \<Rightarrow> terminal_reason option \<Rightarrow> session_state \<Rightarrow> session_state" where
  "put_record now key st reason s =
     (let n = last_sequence s key + 1 in
      s\<lparr>ss_ws_sequence := AList.update key n (ss_ws_sequence s),
        ss_ws_nonauth_at := (if key \<in> ss_ws_nonauth_keys s \<and> map_of (ss_ws_nonauth_at s) key = None
                             then AList.update key now (ss_ws_nonauth_at s) else ss_ws_nonauth_at s),
        ss_ws_parents := AList.update key
          \<lparr>wr_status = \<lparr>ws_turn_id = wk_turn_id key, ws_work_item_id = Some (wk_parent_key key),
                    ws_worker_id = None, ws_state = st, ws_event_sequence = n,
                    ws_terminal_reason = reason, ws_origin_epoch = wk_epoch key\<rparr>,
           wr_terminal_at = (if ws_terminal st then Some now else None)\<rparr> (ss_ws_parents s)\<rparr>)"

lemma write_parent_put: "fst (write_parent now key st reason s) = evict_overflow key (put_record now key st reason s)"
  by (simp add: write_parent_def put_record_def last_sequence_def Let_def)

lemma write_parent_status:
  "restore_key (snd (write_parent now key st reason s)) = key"
  "ws_event_sequence (snd (write_parent now key st reason s)) = last_sequence s key + 1"
  "ws_state (snd (write_parent now key st reason s)) = st"
  by (auto simp: write_parent_def restore_key_def last_sequence_def truthy_def Let_def)

lemma put_record_same: "k \<noteq> key \<Longrightarrow> same_key k s (put_record now key st reason s)"
  by (auto simp: same_key_def put_record_def Let_def)

lemma put_child_same: "k \<noteq> child_key c \<Longrightarrow> same_key k s (put_child c s)"
  by (auto simp: same_key_def put_child_def)

lemma put_child_children [simp]: "children_of (put_child c s) (child_key c) =
    AList.update (cr_work_item_id c) (child_status c) (children_of s (child_key c))"
  by (simp add: children_of_def put_child_def)

lemma dset_nonempty [simp]: "AList.update k v d \<noteq> []"
  by (cases d) auto

text \<open>What a valid report does: nothing, drop the children it added, or write the parent record.\<close>

lemma reported_cases:
  assumes "validate_work_status (child_status c) = Inr w" and "legal_report c s"
  obtains (quiet) r where "set_child_work_status now c s = (put_child c s, Inr None)"
      "map_of (ss_ws_parents s) (child_key c) = Some r"
      "ws_state (wr_status r) = fst (aggregate (dvals (children_of (put_child c s) (child_key c)))) \<or>
       ws_terminal (ws_state (wr_status r)) \<or> child_key c \<in> ss_ws_nonauth_keys s"
    | (dropped) "set_child_work_status now c s =
        ((put_child c s)\<lparr>ss_ws_children := AList.delete (child_key c) (ss_ws_children (put_child c s))\<rparr>, Inr None)"
      "map_of (ss_ws_parents s) (child_key c) = None"
    | (written) st reason ev where "aggregate (dvals (children_of (put_child c s) (child_key c))) = (st, reason)"
      "\<not> settled (child_key c) s \<or> map_of (ss_ws_parents s) (child_key c) \<noteq> None"
      "\<And>r. map_of (ss_ws_parents s) (child_key c) = Some r \<Longrightarrow> \<not> ws_terminal (ws_state (wr_status r))"
      "child_key c \<in> ss_ws_nonauth_keys s \<Longrightarrow> \<not> ws_terminal st"
      "fst (set_child_work_status now c s) =
         fst (emit (PWorkStatus (snd (write_parent now (child_key c) st reason (put_child c s))))
               (evict_overflow (child_key c) (put_record now (child_key c) st reason (put_child c s))))"
      "snd (set_child_work_status now c s) = Inr (Some ev)"
      "ev_payload ev = PWorkStatus (snd (write_parent now (child_key c) st reason (put_child c s)))"
proof -
  let ?k = "child_key c" and ?t = "put_child c s"
  have turn: "wk_turn_id ?k \<noteq> []" using assms(1) by (simp add: child_key_turn valid_report_turn)
  have rep: "set_child_work_status now c s = reaggregate_parent now ?k ?t"
    by (cases rule: set_child_cases [of c s now]) (use assms in auto)
  have ch: "map_of (ss_ws_children ?t) ?k = Some (children_of ?t ?k)" "children_of ?t ?k \<noteq> []"
    by (simp_all add: put_child_def children_of_def)
  show ?thesis
  proof (cases rule: reaggregate_cases [OF turn, of now ?t])
    case 1
    then obtain r where "map_of (ss_ws_parents s) ?k = Some r"
      "ws_state (wr_status r) = fst (aggregate (dvals (children_of ?t ?k))) \<or>
       ws_terminal (ws_state (wr_status r)) \<or> ?k \<in> ss_ws_nonauth_keys s"
      using ch by auto
    moreover have "set_child_work_status now c s = (?t, Inr None)"
      using 1(1,2) rep by (simp add: prod_eq_iff)
    ultimately show ?thesis by (intro quiet) auto
  next
    case 2
    then show ?thesis using rep by (intro dropped) (simp_all add: prod_eq_iff)
  next
    case (3 d st reason)
    have d: "d = children_of ?t ?k" using 3(1) ch(1) by simp
    show ?thesis
      by (rule written [of st reason "snd (emit (PWorkStatus (snd (write_parent now ?k st reason ?t)))
                                (fst (write_parent now ?k st reason ?t)))"])
        (use 3 rep in \<open>auto simp: d write_parent_put settled_def emit_def Let_def\<close>)
  qed
qed

lemma put_record_ok:
  assumes "aggregate (dvals (children_of s k)) = (st, reason)" and "children_of s k \<noteq> []"
    and "k \<notin> ss_ws_terminal_keys s"
  shows "key_ok (put_record now k st reason s) k"
  using assms
  by (auto simp: key_ok_def record_ok_def put_record_def children_of_def restore_key_def truthy_def Let_def
      split: option.splits)

lemma ledger_inv_cong:
  assumes "ss_ws_parents t = ss_ws_parents s" "ss_ws_children t = ss_ws_children s"
    "ss_ws_sequence t = ss_ws_sequence s" "ss_ws_terminal_keys t = ss_ws_terminal_keys s"
    "ss_ws_nonauth_keys t = ss_ws_nonauth_keys s"
  shows "ledger_inv t = ledger_inv s"
proof -
  have "key_ok t k = key_ok s k" for k by (rule same_key_ok) (simp add: same_key_def assms)
  then show ?thesis by (simp add: ledger_inv_def assms)
qed

lemma ledger_inv_emit: "ledger_inv (fst (emit p s)) = ledger_inv s"
  by (rule ledger_inv_cong) simp_all

lemma put_child_wf:
  "wf_dict (ss_ws_children s) \<Longrightarrow> wf_dict (ss_ws_children (put_child c s))"
  by (simp add: put_child_def)

lemma unsettled_tombstone:
  "ledger_inv s \<Longrightarrow> map_of (ss_ws_parents s) k = Some r \<Longrightarrow> k \<notin> ss_ws_terminal_keys s"
  unfolding ledger_inv_def key_ok_def record_ok_def by (elim conjE allE [of _ k]) simp

lemma set_child_inv:
  assumes inv: "ledger_inv s" and valid: "validate_work_status (child_status c) = Inr w"
  shows "ledger_inv (fst (set_child_work_status now c s))"
proof (cases "legal_report c s")
  case True
  let ?k = "child_key c" and ?t = "put_child c s"
  have wf: "wf_dict (ss_ws_parents s)" "wf_dict (ss_ws_children ?t)"
    using inv by (auto simp: ledger_inv_def put_child_wf)
  have others: "k \<noteq> ?k \<Longrightarrow> key_ok ?t k" for k
    using inv put_child_same [of k c s] by (simp add: ledger_inv_def same_key_ok)
  show ?thesis
  proof (cases rule: reported_cases [OF valid True, of now])
    case (1 r)
    have "key_ok s ?k" using inv by (simp add: ledger_inv_def)
    then have "key_ok ?t ?k"
      using 1(2,3) by (auto simp: key_ok_def record_ok_def) (auto simp: put_child_def)
    with others have "key_ok ?t k" for k by (cases "k = ?k") auto
    then have "ledger_inv ?t" using wf by (simp add: ledger_inv_def)
    with 1(1) show ?thesis by simp
  next
    case 2
    let ?u = "?t\<lparr>ss_ws_children := AList.delete ?k (ss_ws_children ?t)\<rparr>"
    have "k \<noteq> ?k \<Longrightarrow> same_key k ?t ?u" for k by (simp add: same_key_def)
    moreover have "key_ok ?u ?k" using 2(2) by (simp add: key_ok_def)
    ultimately have "key_ok ?u k" for k
      using others [of k] same_key_ok [of k ?t ?u] by (cases "k = ?k") auto
    then show ?thesis using wf 2(1) by (simp add: ledger_inv_def)
  next
    case (3 st reason ev)
    let ?u = "put_record now ?k st reason ?t"
    have "?k \<notin> ss_ws_terminal_keys s"
      using 3(2) unsettled_tombstone [OF inv, of ?k] by (auto simp: settled_def)
    then have "key_ok ?u ?k" using 3(1) by (intro put_record_ok) auto
    moreover have "k \<noteq> ?k \<Longrightarrow> key_ok ?u k" for k
      using others [of k] same_key_ok [OF put_record_same [of k ?k ?t]] by simp
    ultimately have "key_ok ?u k" for k by (cases "k = ?k") auto
    moreover have "wf_dict (ss_ws_parents ?u)" "wf_dict (ss_ws_children ?u)"
      using wf by (simp_all add: put_record_def Let_def)
    ultimately have "ledger_inv ?u" by (simp add: ledger_inv_def)
    then show ?thesis
      unfolding 3(5) ledger_inv_emit using evict_keeps [where P = ledger_inv, OF forget_inv] by blast
  qed
next
  case False
  then show ?thesis using inv by (cases rule: set_child_cases [of c s now]) auto
qed

text \<open>The reports the publisher makes: a turn id, and a reason only with a failure.\<close>

fun ss_ok :: "ss_op \<Rightarrow> bool" where
  "ss_ok (SetChild now c) \<longleftrightarrow> cr_turn_id c \<noteq> [] \<and> (cr_terminal_reason c = None \<or> cr_state c = WsFailed)"
| "ss_ok _ \<longleftrightarrow> True"

lemma ss_ok_valid: "ss_ok (SetChild now c) \<Longrightarrow> validate_work_status (child_status c) = Inr (child_status c)"
  by (simp add: validate_work_status_Inr) (simp add: child_status_def)

text \<open>Operations other than child reports and pruning do not touch the ledger.\<close>

definition ledger_op :: "ss_op \<Rightarrow> bool" where
  "ledger_op e \<longleftrightarrow> (case e of SetChild _ _ \<Rightarrow> True | PruneExpired _ \<Rightarrow> True | _ \<Rightarrow> False)"

lemma ss_step_ledger_frame:
  assumes "\<not> ledger_op e"
  shows "ss_ws_parents (ss_step e s) = ss_ws_parents s" "ss_ws_children (ss_step e s) = ss_ws_children s"
    "ss_ws_sequence (ss_step e s) = ss_ws_sequence s"
    "ss_ws_terminal_keys (ss_step e s) = ss_ws_terminal_keys s"
    "ss_ws_nonauth_keys (ss_step e s) = ss_ws_nonauth_keys s"
proof -
  let ?P = "\<lambda>t. ss_ws_parents t = ss_ws_parents s \<and> ss_ws_children t = ss_ws_children s \<and>
      ss_ws_sequence t = ss_ws_sequence s \<and> ss_ws_terminal_keys t = ss_ws_terminal_keys s \<and>
      ss_ws_nonauth_keys t = ss_ws_nonauth_keys s"
  have "?P (ss_step e s)"
  proof (cases e)
    case (AppendResult r q oe)
    then show ?thesis
      by (cases rule: append_result_cases [of r q oe s]) (auto simp: bump_sequence_def split: option.split)
  next
    case (SpeechProgressOp p b)
    then show ?thesis by (cases rule: speech_progress_cases [of p b s]) simp_all
  qed (use assms in \<open>auto simp: ledger_op_def set_worker_def set_routing_def append_transcript_def
        split_def Let_def\<close>)
  then show "ss_ws_parents (ss_step e s) = ss_ws_parents s" "ss_ws_children (ss_step e s) = ss_ws_children s"
    "ss_ws_sequence (ss_step e s) = ss_ws_sequence s"
    "ss_ws_terminal_keys (ss_step e s) = ss_ws_terminal_keys s"
    "ss_ws_nonauth_keys (ss_step e s) = ss_ws_nonauth_keys s" by auto
qed

lemma ss_step_ledger_inv: "ledger_inv s \<Longrightarrow> ss_ok e \<Longrightarrow> ledger_inv (ss_step e s)"
proof (cases "ledger_op e")
  case True
  assume inv: "ledger_inv s" and ok: "ss_ok e"
  show ?thesis
  proof (cases e)
    case (SetChild now c)
    then show ?thesis using ok set_child_inv [OF inv ss_ok_valid] by simp
  next
    case (PruneExpired now)
    then show ?thesis using prune_keeps [where P = ledger_inv, OF forget_inv inv] by simp
  qed (use True in \<open>simp_all add: ledger_op_def\<close>)
qed (simp add: ledger_inv_cong [OF ss_step_ledger_frame])

interpretation ledger: guarded_machine ss_step "\<lambda>e s. ss_ok e" ledger_inv
  by unfold_locales (rule ss_step_ledger_inv)

lemma legal_ops: "ledger.legal es s \<longleftrightarrow> list_all ss_ok es"
  by (induction es arbitrary: s) auto

lemma ledger_init: "ledger_inv (init_session i k)"
  by (simp add: ledger_inv_def key_ok_def init_session_def)

section \<open>The client-visible stream\<close>

text \<open>The status an operation emits, and the statuses a sequence of operations emits.\<close>

definition emitted_status :: "ss_op \<Rightarrow> session_state \<Rightarrow> work_status list" where
  "emitted_status e s =
     (case e of
        SetChild now c \<Rightarrow>
          (case snd (set_child_work_status now c s) of
             Inr (Some ev) \<Rightarrow> (case ev_payload ev of PWorkStatus w \<Rightarrow> [w] | _ \<Rightarrow> [])
           | _ \<Rightarrow> [])
      | _ \<Rightarrow> [])"

fun status_trace :: "ss_op list \<Rightarrow> session_state \<Rightarrow> work_status list" where
  "status_trace [] s = []"
| "status_trace (e # es) s = emitted_status e s @ status_trace es (ss_step e s)"

lemma last_sequence_cong: "ss_ws_sequence s = ss_ws_sequence t \<Longrightarrow> last_sequence s = last_sequence t"
  by (simp add: last_sequence_def fun_eq_iff)

text \<open>One report at the key it concerns: it emits nothing, or the next status of an unsettled key.\<close>

lemma set_child_emits:
  assumes inv: "ledger_inv s" and ok: "ss_ok (SetChild now c)"
  shows "(emitted_status (SetChild now c) s = [] \<and>
            last_sequence (fst (set_child_work_status now c s)) = last_sequence s) \<or>
         (\<exists>w. emitted_status (SetChild now c) s = [w] \<and> \<not> settled (restore_key w) s \<and>
            ws_event_sequence w = last_sequence s (restore_key w) + 1 \<and>
            last_sequence (fst (set_child_work_status now c s)) =
              (last_sequence s)(restore_key w := ws_event_sequence w) \<and>
            (restore_key w \<in> ss_ws_nonauth_keys s \<longrightarrow> \<not> ws_terminal (ws_state w)) \<and>
            (ws_terminal (ws_state w) \<longrightarrow> settled (restore_key w) (fst (set_child_work_status now c s))))"
proof (cases "legal_report c s")
  case True
  let ?k = "child_key c" and ?t = "put_child c s"
  have seq: "last_sequence ?t = last_sequence s" by (rule last_sequence_cong) simp
  show ?thesis
  proof (cases rule: reported_cases [OF ss_ok_valid [OF ok] True, of now])
    case (3 st reason ev)
    define w where "w = snd (write_parent now ?k st reason ?t)"
    note w = write_parent_status [of now ?k st reason ?t, folded w_def, unfolded seq]
    have "\<not> settled ?k s"
      using 3(2,3) unsettled_tombstone [OF inv, of ?k] by (auto simp: settled_def split: option.splits)
    moreover have "last_sequence (fst (set_child_work_status now c s)) = (last_sequence s)(?k := last_sequence s ?k + 1)"
      unfolding 3(5) by (rule ext) (auto simp: last_sequence_def put_record_def Let_def)
    moreover have "ws_terminal st \<Longrightarrow> settled ?k (fst (set_child_work_status now c s))"
      unfolding 3(5) settled_def by (simp add: evict_protect) (simp add: put_record_def Let_def)
    moreover have "emitted_status (SetChild now c) s = [w]"
      using 3(6,7) by (simp add: emitted_status_def w_def)
    ultimately show ?thesis using w 3(4) by auto
  qed (auto simp: emitted_status_def seq intro!: disjI1 last_sequence_cong)
next
  case False
  then show ?thesis by (cases rule: set_child_cases [of c s now]) (auto simp: emitted_status_def)
qed

lemma evict_settled: "settled k s \<Longrightarrow> settled k (evict_overflow protect s)"
  using evict_keeps [where P = "settled k", OF forget_settled] by blast

lemma prune_settled: "settled k s \<Longrightarrow> settled k (prune_expired_work_status now s)"
  using prune_keeps [where P = "settled k", OF forget_settled] by blast

lemma settled_emit [simp]: "settled k (fst (emit p s)) = settled k s"
  by (simp add: settled_def)

lemma set_child_settled:
  assumes inv: "ledger_inv s" and ok: "ss_ok (SetChild now c)" and set: "settled k s"
  shows "settled k (fst (set_child_work_status now c s))"
proof (cases "legal_report c s")
  case True
  have put: "settled k (put_child c s)" using set by (simp add: settled_def)
  show ?thesis
  proof (cases rule: reported_cases [OF ss_ok_valid [OF ok] True, of now])
    case (3 st reason ev)
    have "k \<noteq> child_key c"
      using set 3(2,3) unsettled_tombstone [OF inv, of k] by (auto simp: settled_def split: option.splits)
    then have "settled k (put_record now (child_key c) st reason (put_child c s))"
      using put same_key_settled [OF put_record_same] by blast
    then show ?thesis unfolding 3(5) by (simp add: evict_settled)
  qed (use put in \<open>simp_all add: settled_def\<close>)
next
  case False
  then show ?thesis using set by (cases rule: set_child_cases [of c s now]) auto
qed

text \<open>One step of the ledger machine: settled keys stay settled and sequences never go back.\<close>

lemma ss_step_settled:
  assumes "ledger_inv s" and "ss_ok e" and "settled k s"
  shows "settled k (ss_step e s)"
proof (cases "ledger_op e")
  case True
  then show ?thesis
    using assms prune_settled set_child_settled by (cases e) (auto simp: ledger_op_def)
qed (use assms in \<open>simp add: settled_def ss_step_ledger_frame\<close>)

lemma ss_step_sequences:
  assumes "ledger_inv s" and "ss_ok e"
  shows "last_sequence s k \<le> last_sequence (ss_step e s) k"
proof (cases "ledger_op e")
  case True
  then show ?thesis
  proof (cases e)
    case (SetChild now c)
    with assms set_child_emits [of s now c] show ?thesis by auto
  next
    case (PruneExpired now)
    then show ?thesis by (simp add: last_sequence_def)
  qed (auto simp: ledger_op_def)
qed (simp add: last_sequence_def ss_step_ledger_frame)

lemma ss_step_nonauth: "ss_ws_nonauth_keys (ss_step e s) = ss_ws_nonauth_keys s"
  using ss_step_ledger_frame(5) [of e s] by (cases e) (auto simp: ledger_op_def)

text \<open>Everything a run emits for a key comes after what the key had, and only if it was unsettled.\<close>

lemma trace_fresh:
  assumes "ledger_inv s" and "ledger.legal es s" and "w \<in> set (status_trace es s)"
  shows "\<not> settled (restore_key w) s \<and> last_sequence s (restore_key w) < ws_event_sequence w \<and>
    (restore_key w \<in> ss_ws_nonauth_keys s \<longrightarrow> \<not> ws_terminal (ws_state w))"
  using assms
proof (induction es arbitrary: s)
  case (Cons e es)
  then have ok: "ss_ok e" "ledger.legal es (ss_step e s)" by auto
  show ?case
  proof (cases "w \<in> set (emitted_status e s)")
    case True
    then obtain now c where e: "e = SetChild now c" by (auto simp: emitted_status_def split: ss_op.splits)
    with True set_child_emits [of s now c] Cons.prems(1) ok(1) show ?thesis by auto
  next
    case False
    with Cons.prems have "w \<in> set (status_trace es (ss_step e s))" by simp
    with Cons.IH [OF ss_step_ledger_inv [OF Cons.prems(1) ok(1)] ok(2)]
    have "\<not> settled (restore_key w) (ss_step e s)"
      "last_sequence (ss_step e s) (restore_key w) < ws_event_sequence w"
      "restore_key w \<in> ss_ws_nonauth_keys s \<longrightarrow> \<not> ws_terminal (ws_state w)"
      by (auto simp: ss_step_nonauth)
    then show ?thesis
      using ss_step_settled [OF Cons.prems(1) ok(1)] ss_step_sequences [OF Cons.prems(1) ok(1)]
      by (meson le_less_trans)
  qed
qed simp

lemma trace_sorted:
  assumes "ledger_inv s" and "ledger.legal es s"
  shows "sorted_wrt (\<lambda>a b. restore_key a = restore_key b \<longrightarrow>
      ws_event_sequence a < ws_event_sequence b \<and> \<not> ws_terminal (ws_state a)) (status_trace es s)"
  using assms
proof (induction es arbitrary: s)
  case (Cons e es)
  then have ok: "ss_ok e" "ledger.legal es (ss_step e s)" by auto
  note inv' = ss_step_ledger_inv [OF Cons.prems(1) ok(1)]
  show ?case
  proof (cases "emitted_status e s")
    case Nil
    then show ?thesis using Cons.IH [OF inv' ok(2)] by simp
  next
    case (Cons w ws)
    then obtain now c where e: "e = SetChild now c" by (auto simp: emitted_status_def split: ss_op.splits)
    with set_child_emits [of s now c] Cons.prems(1) ok(1) Cons
    have ws: "ws = []" "last_sequence (ss_step e s) (restore_key w) = ws_event_sequence w"
      "ws_terminal (ws_state w) \<longrightarrow> settled (restore_key w) (ss_step e s)" by auto
    have "restore_key w = restore_key b \<longrightarrow> ws_event_sequence w < ws_event_sequence b \<and> \<not> ws_terminal (ws_state w)"
      if "b \<in> set (status_trace es (ss_step e s))" for b
      using trace_fresh [OF inv' ok(2) that] ws(2,3) by auto
    then show ?thesis using Cons.IH [OF inv' ok(2)] Cons ws(1) by simp
  qed
qed simp

section \<open>Overflow eviction\<close>

lemma foldl_min:
  fixes ps :: "('a \<times> instant) list"
  assumes "q \<in> set (p # ps)"
  shows "snd (foldl (\<lambda>best q. if snd q < snd best then q else best) p ps) \<le> snd q"
  using assms
proof (induction ps arbitrary: p q)
  case (Cons r ps)
  let ?p = "if snd r < snd p then r else p"
  consider "q \<in> set (?p # ps)" | "snd ?p \<le> snd q" using Cons.prems by auto
  then show ?case
  proof cases
    case 1
    then show ?thesis using Cons.IH [of q ?p] by simp
  next
    case 2
    have "snd (foldl (\<lambda>best q. if snd q < snd best then q else best) ?p ps) \<le> snd ?p"
      by (rule Cons.IH) simp
    with 2 show ?thesis by simp
  qed
qed simp

lemma first_min_least:
  assumes "first_min ps = Some k"
  shows "\<exists>t. (k, t) \<in> set ps \<and> (\<forall>q \<in> set ps. t \<le> snd q)"
proof (cases ps)
  case (Cons p qs)
  let ?m = "foldl (\<lambda>best q. if snd q < snd best then q else best) p qs"
  have "?m \<in> set ps" unfolding Cons by (rule foldl_pick)
  moreover have "\<forall>q \<in> set ps. snd ?m \<le> snd q" using foldl_min [of _ p qs] Cons by blast
  moreover have "k = fst ?m" using assms Cons by simp
  ultimately show ?thesis by (intro exI [of _ "snd ?m"]) auto
qed (use assms in simp)

lemma forget_stamp: "k' \<noteq> k \<Longrightarrow> expiry_stamp (forget_work_status k s) k' = expiry_stamp s k'"
  by (auto simp: expiry_stamp_def forget_work_status_def Let_def split: option.split)

definition evicted :: "session_state \<Rightarrow> session_state \<Rightarrow> ws_key set" where
  "evicted s t = set (dkeys (ss_ws_parents s)) - set (dkeys (ss_ws_parents t))"

text \<open>What one round of eviction leaves, in terms of the keys it removed.\<close>

definition eviction_spec :: "ws_key \<Rightarrow> session_state \<Rightarrow> session_state \<Rightarrow> bool" where
  "eviction_spec protect s t \<longleftrightarrow>
     (length (ss_ws_parents t) \<le> MAX_WORK_STATUS_KEYS \<or>
        (\<forall>k \<in> set (dkeys (ss_ws_parents t)). k = protect \<or> expiry_stamp t k = None)) \<and>
     min MAX_WORK_STATUS_KEYS (length (ss_ws_parents s)) \<le> length (ss_ws_parents t) \<and>
     (\<forall>k \<in> evicted s t. k \<noteq> protect \<and>
        (\<exists>x. expiry_stamp s k = Some x \<and>
           (\<forall>k' \<in> set (dkeys (ss_ws_parents t)). \<forall>y. k' \<noteq> protect \<longrightarrow> expiry_stamp t k' = Some y \<longrightarrow> x \<le> y))) \<and>
     (\<forall>k \<in> set (dkeys (ss_ws_parents t)). map_of (ss_ws_parents t) k = map_of (ss_ws_parents s) k \<and>
        expiry_stamp t k = expiry_stamp s k)"

lemma eviction_spec_refl:
  "length (ss_ws_parents s) \<le> MAX_WORK_STATUS_KEYS \<or> eviction_candidates protect s = [] \<Longrightarrow>
     eviction_spec protect s s"
  by (auto simp: eviction_spec_def evicted_def eviction_candidates_def filter_empty_conv)

lemma length_forget_Suc:
  "wf_dict d \<Longrightarrow> k \<in> set (dkeys d) \<Longrightarrow> Suc (length (AList.delete k d)) = length d"
proof -
  assume wf: "wf_dict d" and k: "k \<in> set (dkeys d)"
  have "length (AList.delete k d) = length (filter (\<lambda>x. x \<noteq> k) (dkeys d))"
    by (metis dkeys_dpop length_map)
  also have "\<dots> = length (removeAll k (dkeys d))" by (simp add: removeAll_filter_not_eq eq_commute)
  also have "\<dots> = length (remove1 k (dkeys d))"
    using wf by (simp add: wf_dict_def distinct_remove1_removeAll)
  finally have "length (AList.delete k d) = length d - 1" using k by (simp add: length_remove1)
  moreover have "0 < length d" using k by (cases d) auto
  ultimately show ?thesis by simp
qed

lemma eviction_spec_step:
  assumes "first_min (eviction_candidates protect s) = Some k" and "wf_dict (ss_ws_parents s)"
    and "MAX_WORK_STATUS_KEYS < length (ss_ws_parents s)"
    and spec: "eviction_spec protect (forget_work_status k s) t"
  shows "eviction_spec protect s t"
proof -
  let ?f = "forget_work_status k s"
  obtain x where k: "k \<in> set (dkeys (ss_ws_parents s))" "k \<noteq> protect" "expiry_stamp s k = Some x"
    and least: "\<And>k' y. k' \<in> set (dkeys (ss_ws_parents s)) \<Longrightarrow> k' \<noteq> protect \<Longrightarrow>
       expiry_stamp s k' = Some y \<Longrightarrow> x \<le> y"
    using first_min_least [OF assms(1)] eviction_candidates_iff by (metis snd_conv)
  have keys: "set (dkeys (ss_ws_parents ?f)) = set (dkeys (ss_ws_parents s)) - {k}"
    unfolding forget_parents by (rule set_dkeys_dpop)
  have sub: "set (dkeys (ss_ws_parents t)) \<subseteq> set (dkeys (ss_ws_parents ?f))"
    using spec unfolding eviction_spec_def by (metis map_of_None_iff subsetI)
  have len: "Suc (length (ss_ws_parents ?f)) = length (ss_ws_parents s)"
    using assms(2) k(1) by (simp add: forget_parents length_forget_Suc)
  have same: "map_of (ss_ws_parents ?f) k' = map_of (ss_ws_parents s) k'"
    "expiry_stamp ?f k' = expiry_stamp s k'" if "k' \<noteq> k" for k'
    using that by (simp_all add: forget_parents forget_stamp)
  have ev: "evicted s t = insert k (evicted ?f t)"
    using k(1) keys sub by (auto simp: evicted_def)
  show ?thesis
    unfolding eviction_spec_def
  proof (intro conjI ballI)
    fix j assume j: "j \<in> evicted s t"
    show "j \<noteq> protect" using j spec k(2) unfolding ev eviction_spec_def by auto
    have kept: "expiry_stamp t k' = expiry_stamp s k' \<and> k' \<in> set (dkeys (ss_ws_parents s))"
      if "k' \<in> set (dkeys (ss_ws_parents t))" for k'
    proof -
      have "k' \<noteq> k" "k' \<in> set (dkeys (ss_ws_parents s))" using that sub keys by auto
      moreover have "expiry_stamp t k' = expiry_stamp ?f k'" using that spec unfolding eviction_spec_def by blast
      ultimately show ?thesis using same(2) by simp
    qed
    show "\<exists>x. expiry_stamp s j = Some x \<and>
        (\<forall>k' \<in> set (dkeys (ss_ws_parents t)). \<forall>y. k' \<noteq> protect \<longrightarrow> expiry_stamp t k' = Some y \<longrightarrow> x \<le> y)"
    proof (cases "j = k")
      case True
      then show ?thesis using k(3) kept least by auto
    next
      case False
      then have "j \<in> evicted ?f t" using j ev by blast
      then show ?thesis
        using spec unfolding eviction_spec_def same(2) [OF False, symmetric] by blast
    qed
  next
    fix j assume j: "j \<in> set (dkeys (ss_ws_parents t))"
    then have "j \<noteq> k" using sub keys by blast
    then show "map_of (ss_ws_parents t) j = map_of (ss_ws_parents s) j" "expiry_stamp t j = expiry_stamp s j"
      using spec j same unfolding eviction_spec_def by metis+
  next
    show "length (ss_ws_parents t) \<le> MAX_WORK_STATUS_KEYS \<or>
        (\<forall>k \<in> set (dkeys (ss_ws_parents t)). k = protect \<or> expiry_stamp t k = None)"
      using spec unfolding eviction_spec_def by (elim conjE)
  next
    have "min MAX_WORK_STATUS_KEYS (length (ss_ws_parents ?f)) \<le> length (ss_ws_parents t)"
      using spec unfolding eviction_spec_def by (elim conjE)
    then show "min MAX_WORK_STATUS_KEYS (length (ss_ws_parents s)) \<le> length (ss_ws_parents t)"
      using len assms(3) by simp
  qed
qed

lemma first_min_None: "first_min ps = None \<longleftrightarrow> ps = []"
  by (cases ps) auto

lemma evict_overflow_spec:
  "wf_dict (ss_ws_parents s) \<Longrightarrow> eviction_spec protect s (evict_overflow protect s)"
proof (induction protect s rule: evict_overflow.induct)
  case (1 protect s)
  show ?case
  proof (cases "length (ss_ws_parents s) \<le> MAX_WORK_STATUS_KEYS \<or> eviction_candidates protect s = []")
    case True
    then show ?thesis by (subst evict_overflow.simps) (auto simp: eviction_spec_refl first_min_None)
  next
    case False
    then obtain k where k: "first_min (eviction_candidates protect s) = Some k"
      by (metis first_min_None option.exhaust)
    have "evict_overflow protect s = evict_overflow protect (forget_work_status k s)"
      using False k by (subst evict_overflow.simps) simp
    moreover have "eviction_spec protect (forget_work_status k s) (evict_overflow protect (forget_work_status k s))"
      using 1 False k by (simp add: forget_wf)
    ultimately show ?thesis using eviction_spec_step [OF k] 1(2) False by simp
  qed
qed

section \<open>Snapshot round trip\<close>

text \<open>The keyed collections a snapshot lists: each value is stored under its own identifier.\<close>

definition keyed :: "('v \<Rightarrow> 'k) \<Rightarrow> ('k, 'v) dict \<Rightarrow> bool" where
  "keyed f d \<longleftrightarrow> wf_dict d \<and> (\<forall>(k, v) \<in> set d. f v = k)"

lemma keyed_dset: "keyed f d \<Longrightarrow> keyed f (AList.update (f v) v d)"
proof -
  assume a: "keyed f d"
  have "(k, w) \<in> set (AList.update (f v) v d) \<Longrightarrow> f w = k" for k w
    using a by (auto simp: keyed_def wf_dict_map_of split: if_splits dest!: map_of_SomeD)
  with a show ?thesis by (auto simp: keyed_def)
qed

lemma keyed_at: "keyed f d \<Longrightarrow> map_of d k = Some v \<Longrightarrow> f v = k"
  by (auto simp: keyed_def dest: map_of_SomeD)

lemma dset_append: "k \<notin> set (dkeys d) \<Longrightarrow> AList.update k v d = d @ [(k, v)]"
  by (induction d) auto

text \<open>Rebuilding a keyed dictionary from its values gives the dictionary back, in order.\<close>

lemma rebuild_keyed:
  assumes "keyed f (d @ e)"
  shows "fold (\<lambda>v. AList.update (f v) (g v)) (dvals e) (map (\<lambda>(k, v). (k, g v)) d) =
         map (\<lambda>(k, v). (k, g v)) (d @ e)"
  using assms
proof (induction e arbitrary: d)
  case (Cons p e)
  obtain k v where p: "p = (k, v)" by (cases p)
  have k: "f v = k" "k \<notin> set (dkeys d)" using Cons.prems by (auto simp: keyed_def wf_dict_def p)
  then have "AList.update (f v) (g v) (map (\<lambda>(k, v). (k, g v)) d) = map (\<lambda>(k, v). (k, g v)) (d @ [p])"
    by (subst dset_append) (auto simp: p split_def image_iff)
  then show ?case using Cons.IH [of "d @ [p]"] Cons.prems by (simp add: p)
qed simp

lemmas rebuild_dict = rebuild_keyed [where d = "[]", simplified]

definition views_inv :: "session_state \<Rightarrow> bool" where
  "views_inv s \<longleftrightarrow> keyed wk_worker_id (ss_workers s) \<and> keyed sp_utterance_id (ss_speech s) \<and>
     results_inv s \<and> ss_session_id s \<noteq> []"

lemma note_latest_keyed:
  "keyed wk_worker_id ws \<Longrightarrow> keyed wk_worker_id (note_latest r ws)"
proof (cases "map_of ws (gr_worker_id r)")
  case (Some w)
  assume k: "keyed wk_worker_id ws"
  then have "wk_worker_id (w\<lparr>wk_latest_result_id := Some (gr_result_id r)\<rparr>) = gr_worker_id r"
    using keyed_at [OF k Some] by simp
  then show ?thesis using keyed_dset [OF k, of "w\<lparr>wk_latest_result_id := Some (gr_result_id r)\<rparr>"]
    by (simp add: note_latest_def Some)
qed (simp add: note_latest_def)

lemma ss_step_session_id: "ss_session_id (ss_step e s) = ss_session_id s"
proof (cases e)
  case (AppendResult r q oe)
  then show ?thesis
    by (cases rule: append_result_cases [of r q oe s]) (auto simp: bump_sequence_def split: option.split)
next
  case (SpeechProgressOp p b)
  then show ?thesis by (cases rule: speech_progress_cases [of p b s]) (auto simp: record_progress_def)
next
  case (SetChild now c)
  show ?thesis
  proof (cases rule: set_child_cases [of c s now])
    case reported
    then have turn: "wk_turn_id (child_key c) \<noteq> []" by (simp add: child_key_turn valid_report_turn)
    have "ss_session_id (put_child c s) = ss_session_id s" by (simp add: put_child_def)
    then show ?thesis
      unfolding SetChild ss_step.simps reported(3)
      by (cases rule: reaggregate_cases [OF turn, of now "put_child c s"])
        (simp_all add: write_parent_def Let_def)
  qed (simp_all add: SetChild)
qed (auto simp: set_worker_def set_routing_def append_transcript_def split_def Let_def)

lemma ss_step_views: "views_inv s \<Longrightarrow> views_inv (ss_step e s)"
proof -
  assume inv: "views_inv s"
  have "keyed sp_utterance_id (ss_speech (ss_step e s))"
    using ss_step_speech [of e s] inv by (auto simp: views_inv_def record_progress_def keyed_dset)
  moreover have "keyed wk_worker_id (ss_workers (ss_step e s))"
  proof (cases e)
    case (SetWorker w)
    with inv show ?thesis by (auto simp: views_inv_def set_worker_def split_def Let_def keyed_dset)
  next
    case (AppendResult r q oe)
    with inv show ?thesis
      by (cases rule: append_result_cases [of r q oe s]) (auto simp: views_inv_def note_latest_keyed)
  next
    case (SpeechProgressOp p b)
    with inv show ?thesis by (cases rule: speech_progress_cases [of p b s]) (auto simp: views_inv_def)
  qed (use inv in \<open>auto simp: views_inv_def set_routing_def append_transcript_def split_def Let_def\<close>)
  ultimately show ?thesis
    using inv ss_step_results_inv by (simp add: views_inv_def ss_step_session_id)
qed

interpretation views: machine ss_step views_inv
  by unfold_locales (rule ss_step_views)

lemma views_init: "i \<noteq> [] \<Longrightarrow> views_inv (init_session i k)"
  by (simp add: views_inv_def init_session_def keyed_def results_inv_def)

lemma restore_results_all:
  "distinct (map gr_result_id (ss_results s @ rs)) \<Longrightarrow>
     restore_results rs s = Inr (s\<lparr>ss_results := ss_results s @ rs\<rparr>)"
proof (induction rs arbitrary: s)
  case (Cons r rs)
  have "gr_result_id r \<notin> gr_result_id ` set (ss_results s)" using Cons.prems by auto
  then have "\<not> (\<exists>x \<in> set (ss_results s). gr_result_id x = gr_result_id r)" by (metis imageI)
  then show ?case using Cons by (simp add: result_log_append_def)
qed simp

lemma restore_status_one [simp]:
  "ss_session_id (restore_status t w s) = ss_session_id s"
  "ss_sequence (restore_status t w s) = ss_sequence s"
  "ss_workers (restore_status t w s) = ss_workers s"
  "ss_results (restore_status t w s) = ss_results s"
  "ss_speech (restore_status t w s) = ss_speech s"
  "ss_routing (restore_status t w s) = ss_routing s"
  "ss_transcript (restore_status t w s) = ss_transcript s"
  "ss_ws_terminal_keys (restore_status t w s) = ss_ws_terminal_keys s"
  "ss_ws_nonauth_keys (restore_status t w s) = insert (restore_key w) (ss_ws_nonauth_keys s)"
  by (simp_all add: restore_status_def Let_def)

lemma restore_status_frame [simp]:
  "ss_session_id (fold (restore_status t) ws s) = ss_session_id s"
  "ss_sequence (fold (restore_status t) ws s) = ss_sequence s"
  "ss_workers (fold (restore_status t) ws s) = ss_workers s"
  "ss_results (fold (restore_status t) ws s) = ss_results s"
  "ss_speech (fold (restore_status t) ws s) = ss_speech s"
  "ss_routing (fold (restore_status t) ws s) = ss_routing s"
  "ss_transcript (fold (restore_status t) ws s) = ss_transcript s"
  "ss_ws_terminal_keys (fold (restore_status t) ws s) = ss_ws_terminal_keys s"
  by (induction ws arbitrary: s; simp)+

definition restored_record :: "instant \<Rightarrow> work_status \<Rightarrow> ws_record" where
  "restored_record t w = \<lparr>wr_status = w, wr_terminal_at = (if ws_terminal (ws_state w) then Some t else None)\<rparr>"

lemma restore_parents:
  "ss_ws_parents (fold (restore_status t) ws s) =
     fold (\<lambda>w. AList.update (restore_key w) (restored_record t w)) ws (ss_ws_parents s)"
  by (induction ws arbitrary: s) (simp_all add: restore_status_def restored_record_def Let_def)

lemma restore_nonauth:
  "ss_ws_nonauth_keys (fold (restore_status t) ws s) = restore_key ` set ws \<union> ss_ws_nonauth_keys s"
  by (induction ws arbitrary: s) auto

lemma restore_status_inv:
  assumes "ledger_inv s" and "ss_ws_terminal_keys s = {}"
  shows "ledger_inv (restore_status t w s)"
proof -
  let ?k = "restore_key w" and ?t = "restore_status t w s"
  have "k \<noteq> ?k \<Longrightarrow> same_key k s ?t" for k
    by (auto simp: same_key_def restore_status_def Let_def)
  moreover have "key_ok ?t ?k"
    using assms(2) by (auto simp: key_ok_def record_ok_def restore_status_def Let_def)
  ultimately have "key_ok ?t k" for k
    using assms(1) same_key_ok [of k s ?t] by (cases "k = ?k") (auto simp: ledger_inv_def)
  moreover have "wf_dict (ss_ws_parents ?t)" "wf_dict (ss_ws_children ?t)"
    using assms(1) by (auto simp: ledger_inv_def restore_status_def Let_def)
  ultimately show ?thesis by (simp add: ledger_inv_def)
qed

lemma restore_all_inv:
  "ledger_inv s \<Longrightarrow> ss_ws_terminal_keys s = {} \<Longrightarrow> ledger_inv (fold (restore_status t) ws s)"
proof (induction ws arbitrary: s)
  case (Cons w ws)
  then show ?case using Cons.IH [of "restore_status t w s"] restore_status_inv [of s t w] by simp
qed simp

lemma ledger_inv_keyed:
  assumes "ledger_inv s"
  shows "keyed (\<lambda>r. restore_key (wr_status r)) (ss_ws_parents s)"
proof -
  have "restore_key (wr_status r) = k" if "(k, r) \<in> set (ss_ws_parents s)" for k r
  proof -
    have "map_of (ss_ws_parents s) k = Some r" using assms that by (simp add: ledger_inv_def wf_dict_map_of)
    moreover have "key_ok s k" using assms by (simp add: ledger_inv_def)
    ultimately show ?thesis by (simp add: key_ok_def record_ok_def)
  qed
  with assms show ?thesis by (auto simp: keyed_def ledger_inv_def)
qed

lemma restore_stamp:
  "expiry_stamp (restore_status t w s) k = (if k = restore_key w then Some t else expiry_stamp s k)"
  by (auto simp: expiry_stamp_def restore_status_def Let_def split: option.split)

lemma restore_stamps:
  "(\<And>x. expiry_stamp s k = Some x \<Longrightarrow> x = t) \<Longrightarrow> expiry_stamp (fold (restore_status t) ws s) k = Some x \<Longrightarrow> x = t"
proof (induction ws arbitrary: s)
  case (Cons w ws)
  show ?case
    by (rule Cons.IH [of "restore_status t w s"]) (use Cons.prems in \<open>auto simp: restore_stamp split: if_splits\<close>)
qed simp

lemma restored_snapshot:
  assumes "distinct (map restore_key ws)" and "ss_ws_parents s = []"
  shows "work_status_snapshot t (fold (restore_status t) ws s) = (fold (restore_status t) ws s, ws)"
    and "ss_ws_parents (fold (restore_status t) ws s) = map (\<lambda>w. (restore_key w, restored_record t w)) ws"
proof -
  let ?r = "fold (restore_status t) ws s"
  have "keyed restore_key (map (\<lambda>w. (restore_key w, w)) ws)"
    using assms(1) by (auto simp: keyed_def wf_dict_def o_def)
  from rebuild_dict [OF this, of "restored_record t"]
  show parents: "ss_ws_parents ?r = map (\<lambda>w. (restore_key w, restored_record t w)) ws"
    by (simp add: restore_parents assms(2) o_def)
  have stamps: "expiry_stamp ?r k = Some x \<Longrightarrow> x = t" for k x
    by (rule restore_stamps) (use assms(2) in \<open>auto simp: expiry_stamp_def\<close>)
  have "expired_keys t ?r = []"
    by (auto simp: expired_keys_def filter_empty_conv WORK_STATUS_TTL_SECONDS_def
        split: option.split dest!: stamps)
  then show "work_status_snapshot t ?r = (?r, ws)"
    by (simp add: work_status_snapshot_def prune_expired_work_status_def parents restored_record_def o_def)
qed

lemma from_snapshot_shape:
  assumes "from_snapshot fi ft t sn = Inr r"
  obtains s where "r = fold (restore_status t) (sn_work_status sn) s"
    "ss_ws_parents s = []" "ledger_inv s" "ss_ws_terminal_keys s = {}" "ss_ws_nonauth_keys s = {}"
proof -
  have res: "restore_results rs s = Inr u \<Longrightarrow> \<exists>rlog. u = s\<lparr>ss_results := rlog\<rparr>" for rs s u
  proof (induction rs arbitrary: s)
    case Nil
    then have "u = s\<lparr>ss_results := ss_results s\<rparr>" by simp
    then show ?case by blast
  next
    case (Cons x rs)
    then obtain rlog where "restore_results rs (s\<lparr>ss_results := rlog\<rparr>) = Inr u" by (auto split: sum.splits)
    from Cons.IH [OF this] show ?case by auto
  qed
  from assms obtain s where s: "r = fold (restore_status t) (sn_work_status sn) s"
    "ss_ws_parents s = []" "ss_ws_children s = []" "ss_ws_terminal_keys s = {}" "ss_ws_nonauth_keys s = {}"
    by (auto simp: from_snapshot_def init_session_def Let_def split: sum.splits dest!: res)
  moreover from s have "ledger_inv s" by (simp add: ledger_inv_def key_ok_def)
  ultimately show ?thesis using that by blast
qed

lemma round_trip_at:
  assumes views: "views_inv s" and inv: "ledger_inv s"
  shows "\<exists>r. from_snapshot fi ft t (snd (snapshot now origin True s)) = Inr r \<and>
         snd (snapshot t origin True r) = snd (snapshot now origin True s)"
proof -
  let ?p = "prune_expired_work_status now s" and ?sn = "snd (snapshot now origin True s)"
  define ws where ws: "ws = map wr_status (dvals (ss_ws_parents ?p))"
  have "ledger_inv ?p" using prune_keeps [where P = ledger_inv, OF forget_inv inv] by blast
  then have kp: "keyed (\<lambda>r. restore_key (wr_status r)) (ss_ws_parents ?p)" by (rule ledger_inv_keyed)
  then have keys: "map restore_key ws = dkeys (ss_ws_parents ?p)" by (auto simp: keyed_def ws)
  have dist: "distinct (map restore_key ws)" using kp unfolding keys by (simp add: keyed_def wf_dict_def)
  have sn: "sn_work_status ?sn = ws" "sn_session_id ?sn = ss_session_id s" "sn_results ?sn = ss_results s"
    "sn_workers ?sn = dvals (ss_workers s)" "sn_speech_progress ?sn = dvals (ss_speech s)"
    "sn_routing ?sn = ss_routing s" "sn_transcript ?sn = ss_transcript s"
    "sn_snapshot_sequence ?sn = ss_sequence s" "sn_contract_version ?sn = ''v1.0''" "sn_origin_epoch ?sn = origin"
    by (simp_all add: snapshot_def work_status_snapshot_def ws Let_def)
  have dicts: "fold (\<lambda>w. AList.update (wk_worker_id w) w) (dvals (ss_workers s)) [] = ss_workers s"
    "fold (\<lambda>p. AList.update (sp_utterance_id p) p) (dvals (ss_speech s)) [] = ss_speech s"
    using views rebuild_dict [of wk_worker_id _ "\<lambda>v. v"] rebuild_dict [of sp_utterance_id _ "\<lambda>v. v"]
    by (auto simp: views_inv_def)
  have res: "restore_results (ss_results s) u = Inr (u\<lparr>ss_results := ss_results s\<rparr>)" if "ss_results u = []" for u
    using restore_results_all [of u "ss_results s"] views that by (simp add: views_inv_def results_inv_def)
  obtain u where u: "from_snapshot fi ft t ?sn = Inr (fold (restore_status t) ws u)"
    "ss_ws_parents u = []" "ss_session_id u = ss_session_id s" "ss_sequence u = ss_sequence s"
    "ss_workers u = ss_workers s" "ss_results u = ss_results s" "ss_speech u = ss_speech s"
    "ss_routing u = ss_routing s" "ss_transcript u = ss_transcript s"
    using views by (simp add: from_snapshot_def sn res init_session_def Let_def dicts views_inv_def)
  have "snd (snapshot t origin True (fold (restore_status t) ws u)) = ?sn"
    unfolding snapshot_def Let_def if_True restored_snapshot(1) [OF dist u(2)]
    using u(3-9) by (simp add: work_status_snapshot_def ws Let_def)
  with u(1) show ?thesis by blast
qed

section \<open>Properties\<close>


definition demo_report :: "string \<Rightarrow> work_status_state \<Rightarrow> child_report" where
  "demo_report item st = \<lparr>cr_turn_id = ''turn'', cr_work_item_id = item, cr_parent_work_item_id = Some ''parent'',
     cr_worker_id = None, cr_state = st, cr_origin_epoch = Some 1, cr_terminal_reason = None\<rparr>"


text \<open>
  C2. The statuses a client receives for one work item are strictly increasing in their event
  sequence and stop at the first terminal one, over any operations: also when the record is pruned
  or evicted in between and more reports for the same key arrive afterwards.
\<close>

theorem status_stream_ordered:
  assumes "list_all ss_ok ops"
  shows "sorted_wrt (\<lambda>a b. restore_key a = restore_key b \<longrightarrow>
      ws_event_sequence a < ws_event_sequence b \<and> \<not> ws_terminal (ws_state a))
    (status_trace ops (init_session sid token))"
  using assms by (intro trace_sorted ledger_init) (simp add: legal_ops)

lemma status_stream_ordered_witness:
  "sorted_wrt (\<lambda>a b. restore_key a = restore_key b \<longrightarrow>
      ws_event_sequence a < ws_event_sequence b \<and> \<not> ws_terminal (ws_state a))
    (status_trace [SetChild 0 (demo_report ''a'' WsRouting), SetChild 1 (demo_report ''a'' WsFailed),
       PruneExpired 400, SetChild 500 (demo_report ''a'' WsRouting)] (init_session ''s'' ''t''))"
  by (rule status_stream_ordered) (simp add: demo_report_def)

text \<open>
  Overflow eviction: it stops with at most 256 records unless nothing else may be evicted, never
  removes more than it has to, never removes the record being written or a record without an expiry
  stamp, removes oldest stamps first, and leaves every surviving record as it was.
\<close>

theorem eviction_is_minimal_and_oldest_first:
  assumes "wf_dict (ss_ws_parents s)"
  shows "let t = evict_overflow protect s in
     (length (ss_ws_parents t) \<le> 256 \<or>
        (\<forall>k \<in> set (dkeys (ss_ws_parents t)). k = protect \<or> expiry_stamp t k = None)) \<and>
     min 256 (length (ss_ws_parents s)) \<le> length (ss_ws_parents t) \<and>
     (\<forall>k \<in> evicted s t. k \<noteq> protect \<and>
        (\<exists>x. expiry_stamp s k = Some x \<and>
           (\<forall>k' \<in> set (dkeys (ss_ws_parents t)). \<forall>y. k' \<noteq> protect \<longrightarrow> expiry_stamp t k' = Some y \<longrightarrow> x \<le> y))) \<and>
     (\<forall>k \<in> set (dkeys (ss_ws_parents t)). map_of (ss_ws_parents t) k = map_of (ss_ws_parents s) k \<and>
        expiry_stamp t k = expiry_stamp s k)"
  using evict_overflow_spec [OF assms, of protect]
  unfolding Let_def eviction_spec_def MAX_WORK_STATUS_KEYS_def .

lemma eviction_is_minimal_and_oldest_first_witness:
  "min 256 (length (ss_ws_parents (init_session ''s'' ''t''))) \<le>
     length (ss_ws_parents (evict_overflow (child_key (demo_report ''a'' WsRouting)) (init_session ''s'' ''t'')))"
proof -
  have "wf_dict (ss_ws_parents (init_session ''s'' ''t''))" by (simp add: init_session_def)
  from eviction_is_minimal_and_oldest_first [OF this, of "child_key (demo_report ''a'' WsRouting)"]
  show ?thesis unfolding Let_def by (elim conjE)
qed

text \<open>
  Work items restored from a snapshot are not authoritative: whatever children report after the
  restart, no terminal status is ever emitted for a restored key, a key restored in a terminal
  state emits nothing more, and any status that is emitted is sequenced after the restored one.
\<close>

theorem restored_keys_never_terminalize:
  assumes "from_snapshot fresh_id fresh_token restored_at sn = Inr s" and "list_all ss_ok ops"
    and "distinct (map restore_key (sn_work_status sn))"
    and "x \<in> set (sn_work_status sn)" and "w \<in> set (status_trace ops s)"
    and "restore_key w = restore_key x"
  shows "\<not> ws_terminal (ws_state w) \<and> \<not> ws_terminal (ws_state x) \<and>
         ws_event_sequence x < ws_event_sequence w"
proof -
  obtain s0 where s: "s = fold (restore_status restored_at) (sn_work_status sn) s0"
    and s0: "ss_ws_parents s0 = []" "ledger_inv s0" "ss_ws_terminal_keys s0 = {}" "ss_ws_nonauth_keys s0 = {}"
    by (rule from_snapshot_shape [OF assms(1)])
  have inv: "ledger_inv s" unfolding s by (rule restore_all_inv [OF s0(2,3)])
  have "map_of (ss_ws_parents s) (restore_key x) = Some (restored_record restored_at x)"
    unfolding s restored_snapshot(2) [OF assms(3) s0(1)]
    using assms(3,4) by (intro map_of_is_SomeI) (auto simp: o_def)
  moreover from this have "record_ok s (restore_key x) (restored_record restored_at x)"
    using inv unfolding ledger_inv_def key_ok_def by (metis option.simps(5))
  moreover have "restore_key x \<in> ss_ws_nonauth_keys s" using assms(4) by (simp add: s restore_nonauth)
  ultimately show ?thesis
    using trace_fresh [OF inv _ assms(5)] assms(2,6)
    by (auto simp: legal_ops settled_def record_ok_def last_sequence_def restored_record_def)
qed

definition demo_restored :: work_status where
  "demo_restored = \<lparr>ws_turn_id = ''turn'', ws_work_item_id = Some ''parent'', ws_worker_id = None,
     ws_state = WsSearching, ws_event_sequence = 3, ws_terminal_reason = None, ws_origin_epoch = Some 1\<rparr>"

definition demo_snapshot :: runtime_snapshot where
  "demo_snapshot = \<lparr>sn_contract_version = ''v1.0'', sn_session_id = ''s'', sn_snapshot_sequence = 9,
     sn_workers = [], sn_results = [], sn_speech_progress = [], sn_routing = None, sn_transcript = [],
     sn_origin_epoch = None, sn_work_status = [demo_restored]\<rparr>"

lemma restored_keys_never_terminalize_witness:
  "\<exists>s w. from_snapshot ''f'' ''g'' 0 demo_snapshot = Inr s \<and>
     w \<in> set (status_trace [SetChild 5 (demo_report ''a'' WsRouting)] s) \<and>
     \<not> ws_terminal (ws_state w) \<and> 3 < ws_event_sequence w"
proof -
  let ?s = "restore_status 0 demo_restored ((init_session ''s'' ''g'')\<lparr>ss_sequence := 9\<rparr>)"
  let ?ops = "[SetChild 5 (demo_report ''a'' WsRouting)]"
  have s: "from_snapshot ''f'' ''g'' 0 demo_snapshot = Inr ?s"
    by (simp add: from_snapshot_def demo_snapshot_def init_session_def Let_def)
  have "\<exists>w. status_trace ?ops ?s = [w] \<and> restore_key w = restore_key demo_restored"
    by (simp add: emitted_status_def set_child_work_status_def reaggregate_parent_def restore_status_def
        init_session_def demo_restored_def demo_report_def child_key_def child_status_def restore_key_def
        truthy_def aggregate_def legal_work_status_transition_def ws_cold_start_def validate_work_status_def
        evict_overflow.simps MAX_WORK_STATUS_KEYS_def emit_def Let_def)
  then obtain w where w: "status_trace ?ops ?s = [w]" "restore_key w = restore_key demo_restored" by blast
  have "\<not> ws_terminal (ws_state w) \<and> \<not> ws_terminal (ws_state demo_restored) \<and>
      ws_event_sequence demo_restored < ws_event_sequence w"
    by (rule restored_keys_never_terminalize [OF s, of ?ops])
      (use w in \<open>simp_all add: demo_report_def demo_snapshot_def\<close>)
  then show ?thesis using s w(1) by (intro exI [of _ ?s] exI [of _ w]) (simp add: demo_restored_def)
qed

text \<open>
  C5. Restoring a session from its own snapshot loses nothing the snapshot shows: for every session
  reached by valid operations, rehydrating its snapshot succeeds, and the snapshot of the
  rehydrated session at that instant is the snapshot it was restored from.
\<close>

theorem snapshot_round_trip:
  assumes "sid \<noteq> []" and "list_all ss_ok ops"
  shows "let s = fold ss_step ops (init_session sid token); sn = snd (snapshot now origin True s) in
     \<exists>r. from_snapshot fresh_id fresh_token restored_at sn = Inr r \<and>
         snd (snapshot restored_at origin True r) = sn"
  unfolding Let_def
  by (intro round_trip_at views.run_inv views_init assms(1) ledger.run_inv ledger_init)
    (simp add: legal_ops assms(2))

lemma snapshot_round_trip_witness:
  "let s = fold ss_step [SetChild 0 (demo_report ''a'' WsRouting)] (init_session ''s'' ''t'');
       sn = snd (snapshot 1 (Some 1) True s) in
     \<exists>r. from_snapshot ''f'' ''g'' 2 sn = Inr r \<and> snd (snapshot 2 (Some 1) True r) = sn"
  by (rule snapshot_round_trip) (simp_all add: demo_report_def)

end
