(* ===== verification/Observers.thy ===== *)
theory Observers
  imports Session_Ledger Connection_Pipeline
begin

text \<open>
  What one connection's client is sent: \<open>server/observers.py\<close> (the entitlement filter, the
  connection-projected sequence, the pause/replay buffer and the snapshot barrier),
  \<open>server/rtvi_messages.py\<close> (the message envelope and the publisher), and the snapshot handling of
  \<open>server/app.py\<close> that drives them (\<open>emit_frame\<close>, \<open>on_client_ready\<close>, \<open>on_client_message\<close>,
  \<open>attempt_snapshot_delivery\<close>).

  The observer is a listener of the session: \<open>link_step\<close> hands it the events a session operation
  raises. Its emitter is the coroutine function \<open>emit_frame\<close>: a call only schedules a task, so the
  pending tasks are a list of projected events, run first in first out. The writes to the transport are
  the list \<open>lk_wire\<close>. A snapshot delivery is split at its awaits: \<open>start_attempt\<close> up to the flush frame,
  and \<open>attempt_installed\<close>, \<open>attempt_failed\<close> or \<open>attempt_cancelled\<close> when the await ends.
\<close>

section \<open>Projection\<close>

fun payload_epoch :: "payload \<Rightarrow> epoch option" where
  "payload_epoch (PWorker w) = wk_origin_epoch w"
| "payload_epoch (PRouting r) = rs_origin_epoch r"
| "payload_epoch (PTranscript t) = te_origin_epoch t"
| "payload_epoch (PResult r) = gr_origin_epoch r"
| "payload_epoch (PSpeech p) = sp_origin_epoch p"
| "payload_epoch (PWorkStatus w) = ws_origin_epoch w"

record projected_event =
  pe_kind :: string
  pe_data :: payload
  pe_sequence :: nat
  pe_origin_epoch :: epoch

text \<open>
  \<open>ob_attached\<close>: the session holds the raw listener; \<open>ob_emitting\<close>: an emitter is installed.
\<close>

record observer =
  ob_epoch :: epoch
  ob_capabilities :: "string set"
  ob_attached :: bool
  ob_projected_sequence :: nat
  ob_emitting :: bool
  ob_paused :: bool
  ob_buffer :: "state_event list"

definition init_observer :: "epoch \<Rightarrow> string set \<Rightarrow> observer" where
  "init_observer epoch capabilities =
     \<lparr>ob_epoch = epoch, ob_capabilities = capabilities, ob_attached = False, ob_projected_sequence = 0,
      ob_emitting = False, ob_paused = False, ob_buffer = []\<rparr>"

definition ALWAYS_VISIBLE_KINDS :: "string list" where
  "ALWAYS_VISIBLE_KINDS =
     [''runtime_snapshot'', ''result'', ''speech_progress'', ''worker'', ''routing'', ''user_transcript'', ''bot_transcript'']"

definition supports_work_status :: "observer \<Rightarrow> bool" where
  "supports_work_status ob = resolve_work_status_wire_presence (ob_capabilities ob)"

definition capability_gate :: "string \<Rightarrow> (observer \<Rightarrow> bool) option" where
  "capability_gate kind = (if kind = ''work_status'' then Some supports_work_status else None)"

definition visible :: "observer \<Rightarrow> state_event \<Rightarrow> bool" where
  "visible ob event =
     (if payload_epoch (ev_payload event) \<noteq> Some (ob_epoch ob) then False
      else if (case capability_gate (ev_kind event) of None \<Rightarrow> False | Some gate \<Rightarrow> \<not> gate ob) then False
      else ev_kind event \<in> set ALWAYS_VISIBLE_KINDS \<or> capability_gate (ev_kind event) \<noteq> None)"

definition seed :: "nat \<Rightarrow> observer \<Rightarrow> observer" where
  "seed n ob = ob\<lparr>ob_projected_sequence := n\<rparr>"

definition project :: "state_event \<Rightarrow> observer \<Rightarrow> observer \<times> projected_event option" where
  "project event ob =
     (if \<not> visible ob event then (ob, None)
      else
        let n = ob_projected_sequence ob + 1 in
        (ob\<lparr>ob_projected_sequence := n\<rparr>,
         Some \<lparr>pe_kind = ev_kind event, pe_data = ev_payload event, pe_sequence = n,
               pe_origin_epoch = (case payload_epoch (ev_payload event) of None \<Rightarrow> ob_epoch ob | Some e \<Rightarrow> e)\<rparr>))"

text \<open>What \<open>_deliver\<close> hands to the emitter, if anything.\<close>

definition deliver :: "state_event \<Rightarrow> observer \<Rightarrow> observer \<times> projected_event option" where
  "deliver event ob = (if \<not> ob_emitting ob then (ob, None) else project event ob)"

definition on_event :: "state_event \<Rightarrow> observer \<Rightarrow> observer \<times> projected_event option" where
  "on_event event ob =
     (if ob_paused ob then (ob\<lparr>ob_buffer := ob_buffer ob @ [event]\<rparr>, None) else deliver event ob)"

definition subscribe :: "observer \<Rightarrow> observer" where
  "subscribe ob = ob\<lparr>ob_emitting := True, ob_attached := True\<rparr>"

definition unsubscribe :: "observer \<Rightarrow> observer" where
  "unsubscribe ob = ob\<lparr>ob_attached := False, ob_emitting := False, ob_paused := False, ob_buffer := []\<rparr>"

definition pause_observer :: "observer \<Rightarrow> observer" where
  "pause_observer ob = ob\<lparr>ob_paused := True, ob_attached := True\<rparr>"

text \<open>
  The drain loop of \<open>resume\<close>. \<open>react\<close> is what an emitter raises synchronously while it is called; the
  observer is still paused, so such events go to the end of the buffer.
\<close>

partial_function (option) drain ::
    "(projected_event \<Rightarrow> state_event list) \<Rightarrow> nat option \<Rightarrow> nat \<Rightarrow> observer \<Rightarrow> projected_event list \<Rightarrow>
     (observer \<times> projected_event list) option" where
  "drain react watermark index ob out =
     (if index < length (ob_buffer ob) then
        let event = ob_buffer ob ! index in
        if (case watermark of None \<Rightarrow> False | Some w \<Rightarrow> ev_sequence event \<le> w)
        then drain react watermark (index + 1) ob out
        else
          (case deliver event ob of
             (ob, None) \<Rightarrow> drain react watermark (index + 1) ob out
           | (ob, Some p) \<Rightarrow>
               drain react watermark (index + 1) (ob\<lparr>ob_buffer := ob_buffer ob @ react p\<rparr>) (out @ [p]))
      else Some (ob, out))"

definition resume_observer ::
    "(projected_event \<Rightarrow> state_event list) \<Rightarrow> nat option \<Rightarrow> observer \<Rightarrow> (observer \<times> projected_event list) option" where
  "resume_observer react watermark ob =
     (let ob = (case watermark of None \<Rightarrow> ob | Some w \<Rightarrow> seed w ob) in
      map_option (\<lambda>(ob, out). (ob\<lparr>ob_buffer := [], ob_paused := False\<rparr>, out)) (drain react watermark 0 ob []))"

record projected_message =
  pm_sequence :: nat
  pm_kind :: string
  pm_data :: payload
  pm_origin_epoch :: epoch

definition message_payload :: "observer \<Rightarrow> state_event \<Rightarrow> nat \<Rightarrow> projected_message" where
  "message_payload ob event n =
     \<lparr>pm_sequence = n, pm_kind = ev_kind event, pm_data = ev_payload event,
      pm_origin_epoch = (case payload_epoch (ev_payload event) of None \<Rightarrow> ob_epoch ob | Some e \<Rightarrow> e)\<rparr>"

fun collect_messages :: "observer \<Rightarrow> nat \<Rightarrow> nat \<Rightarrow> state_event list \<Rightarrow> projected_message list" where
  "collect_messages ob after n [] = []"
| "collect_messages ob after n (e # es) =
     (if \<not> visible ob e then collect_messages ob after n es
      else if after < n + 1 then message_payload ob e (n + 1) # collect_messages ob after (n + 1) es
      else collect_messages ob after (n + 1) es)"

definition messages :: "nat \<Rightarrow> session_state \<Rightarrow> observer \<Rightarrow> projected_message list" where
  "messages after_sequence s ob = collect_messages ob after_sequence 0 (ss_events s)"

section \<open>Envelopes and the publisher\<close>

datatype rtvi_data = SnapshotData runtime_snapshot | EventData payload

record rtvi_message =
  rm_session_id :: string
  rm_sequence :: nat
  rm_kind :: string
  rm_data :: rtvi_data
  rm_origin_epoch :: epoch

datatype rtvi_error =
    EmptySession
  | PayloadInvalid contract_error
  | EpochMismatch
  | RoleMismatch
  | SessionMismatch
  | SequenceMismatch
  | StaleClientReady

text \<open>The validators of the payload models that can refuse a value of its record type.\<close>

fun validate_payload :: "payload \<Rightarrow> contract_error + unit" where
  "validate_payload (PResult r) = (case validate_projections r of Inl e \<Rightarrow> Inl e | Inr _ \<Rightarrow> Inr ())"
| "validate_payload (PWorkStatus w) = (case validate_work_status w of Inl e \<Rightarrow> Inl e | Inr _ \<Rightarrow> Inr ())"
| "validate_payload p = Inr ()"

definition validate_versioned_payload :: "watermarks \<Rightarrow> rtvi_message \<Rightarrow> rtvi_error + watermarks" where
  "validate_versioned_payload wm m =
     (if rm_session_id m = [] then Inl EmptySession
      else
        case rm_data m of
          SnapshotData sn \<Rightarrow>
            (case validate_version_and_monotonicity wm sn of
               Inl e \<Rightarrow> Inl (PayloadInvalid e)
             | Inr wm \<Rightarrow>
                 if sn_origin_epoch sn \<noteq> Some (rm_origin_epoch m) then Inl EpochMismatch
                 else if sn_session_id sn \<noteq> rm_session_id m then Inl SessionMismatch
                 else if sn_snapshot_sequence sn \<noteq> rm_sequence m then Inl SequenceMismatch
                 else Inr wm)
        | EventData p \<Rightarrow>
            (case validate_payload p of
               Inl e \<Rightarrow> Inl (PayloadInvalid e)
             | Inr _ \<Rightarrow>
                 if payload_epoch p \<noteq> Some (rm_origin_epoch m) then Inl EpochMismatch
                 else if rm_kind m = ''user_transcript'' \<and> (case p of PTranscript t \<Rightarrow> te_role t \<noteq> User | _ \<Rightarrow> True)
                 then Inl RoleMismatch
                 else if rm_kind m = ''bot_transcript'' \<and> (case p of PTranscript t \<Rightarrow> te_role t \<noteq> Assistant | _ \<Rightarrow> True)
                 then Inl RoleMismatch
                 else Inr wm))"

record rtvi_publisher =
  pu_session_id :: string
  pu_active_epoch :: epoch
  pu_watermark :: nat
  pu_ready :: bool
  pu_snapshot :: "runtime_snapshot option"

definition init_publisher :: "string \<Rightarrow> epoch \<Rightarrow> watermarks \<Rightarrow> rtvi_publisher \<times> watermarks" where
  "init_publisher session_id active_epoch wm =
     (\<lparr>pu_session_id = session_id, pu_active_epoch = active_epoch, pu_watermark = 0, pu_ready = False, pu_snapshot = None\<rparr>,
      reset_monotonicity session_id wm)"

definition incremental ::
    "projected_event \<Rightarrow> watermarks \<Rightarrow> rtvi_publisher \<Rightarrow> rtvi_publisher \<times> (rtvi_error + rtvi_message option)" where
  "incremental pe wm pu =
     (if pe_origin_epoch pe \<noteq> pu_active_epoch pu then (pu, Inr None)
      else
        let pu = pu\<lparr>pu_watermark := max (pu_watermark pu) (pe_sequence pe)\<rparr>;
            m = \<lparr>rm_session_id = pu_session_id pu, rm_sequence = pe_sequence pe, rm_kind = pe_kind pe,
                 rm_data = EventData (pe_data pe), rm_origin_epoch = pe_origin_epoch pe\<rparr> in
        case validate_versioned_payload wm m of Inl e \<Rightarrow> (pu, Inl e) | Inr _ \<Rightarrow> (pu, Inr (Some m)))"

definition client_ready :: "epoch \<Rightarrow> rtvi_publisher \<Rightarrow> rtvi_error + rtvi_publisher" where
  "client_ready epoch pu =
     (if epoch \<noteq> pu_active_epoch pu then Inl StaleClientReady else Inr (pu\<lparr>pu_ready := True\<rparr>))"

definition set_snapshot :: "runtime_snapshot \<Rightarrow> rtvi_publisher \<Rightarrow> rtvi_publisher" where
  "set_snapshot sn pu =
     (let sn = (if sn_origin_epoch sn = None then sn\<lparr>sn_origin_epoch := Some (pu_active_epoch pu)\<rparr> else sn) in
      pu\<lparr>pu_snapshot := Some sn, pu_watermark := max (pu_watermark pu) (sn_snapshot_sequence sn)\<rparr>)"

definition empty_snapshot_data :: "string \<Rightarrow> epoch \<Rightarrow> runtime_snapshot" where
  "empty_snapshot_data session_id origin_epoch =
     \<lparr>sn_contract_version = CONTRACT_VERSION, sn_session_id = session_id, sn_snapshot_sequence = 0, sn_workers = [],
      sn_results = [], sn_speech_progress = [], sn_routing = None, sn_transcript = [],
      sn_origin_epoch = Some origin_epoch, sn_work_status = []\<rparr>"

definition publish_snapshot ::
    "nat option \<Rightarrow> watermarks \<Rightarrow> rtvi_publisher \<Rightarrow> rtvi_publisher \<times> watermarks \<times> (rtvi_error + rtvi_message option)" where
  "publish_snapshot sequence_provider wm pu =
     (if \<not> pu_ready pu then (pu, wm, Inr None)
      else
        let data = (case pu_snapshot pu of
                      None \<Rightarrow> empty_snapshot_data (pu_session_id pu) (pu_active_epoch pu)
                    | Some sn \<Rightarrow> sn);
            n = (case sequence_provider of None \<Rightarrow> pu_watermark pu | Some n \<Rightarrow> n);
            data = data\<lparr>sn_snapshot_sequence := n\<rparr>;
            pu = pu\<lparr>pu_watermark := n\<rparr>;
            m = \<lparr>rm_session_id = pu_session_id pu, rm_sequence = n, rm_kind = ''runtime_snapshot'',
                 rm_data = SnapshotData data, rm_origin_epoch = pu_active_epoch pu\<rparr> in
        case validate_versioned_payload wm m of
          Inl e \<Rightarrow> (pu, wm, Inl e)
        | Inr wm \<Rightarrow> (pu, wm, Inr (Some m)))"

text \<open>What is written: a snapshot carries its status section only on a capable connection.\<close>

datatype wire_frame =
    WireSnapshot nat runtime_snapshot "work_status list option"
  | WireEvent nat string payload

definition rtvi_wire_payload :: "bool \<Rightarrow> rtvi_message \<Rightarrow> wire_frame" where
  "rtvi_wire_payload include_work_status m =
     (case rm_data m of
        SnapshotData sn \<Rightarrow> WireSnapshot (rm_sequence m) sn (wire_work_status include_work_status sn)
      | EventData p \<Rightarrow> WireEvent (rm_sequence m) (rm_kind m) p)"

section \<open>The connection's link\<close>

record snapshot_barrier =
  ba_open :: bool
  ba_generation :: nat

definition subscribe_paused :: "observer \<Rightarrow> snapshot_barrier \<Rightarrow> snapshot_barrier \<times> observer" where
  "subscribe_paused ob ba = (ba\<lparr>ba_open := True\<rparr>, pause_observer ob)"

datatype barrier_error = BarrierNotOpen

text \<open>\<open>install_baseline\<close> up to its first await; how the awaits end is the \<open>attempt_\<close> operation that follows.\<close>

definition install_baseline :: "snapshot_barrier \<Rightarrow> barrier_error + snapshot_barrier" where
  "install_baseline ba =
     (if \<not> ba_open ba then Inl BarrierNotOpen else Inr (ba\<lparr>ba_generation := ba_generation ba + 1\<rparr>))"

text \<open>
  \<open>lk_attempt\<close> is the delivery in flight (the snapshot lock is held exactly then): its message, its barrier
  and its index in the retry loop. \<open>lk_accepted\<close> is \<open>host.accepts(runtime.epoch)\<close>. \<open>lk_raised\<close> records the
  events of the session since the observer was attached.
\<close>

record link =
  lk_state :: session_state
  lk_watermarks :: watermarks
  lk_observer :: observer
  lk_publisher :: rtvi_publisher
  lk_accepted :: bool
  lk_attempt :: "(rtvi_message \<times> snapshot_barrier \<times> nat) option"
  lk_recheck :: bool
  lk_emit_tasks :: "projected_event list"
  lk_wire :: "wire_frame list"
  lk_raised :: "state_event list"

definition attach_link :: "session_state \<Rightarrow> watermarks \<Rightarrow> epoch \<Rightarrow> string set \<Rightarrow> link" where
  "attach_link s wm epoch capabilities =
     (let (pu, wm) = init_publisher (ss_session_id s) epoch wm in
      \<lparr>lk_state = s, lk_watermarks = wm,
       lk_observer = subscribe (seed (ss_sequence s) (init_observer epoch capabilities)),
       lk_publisher = pu, lk_accepted = True, lk_attempt = None, lk_recheck = False, lk_emit_tasks = [], lk_wire = [],
       lk_raised = []\<rparr>)"

text \<open>\<open>emit_frame\<close>: the first pending task runs; a refused envelope ends the task without a write.\<close>

definition run_emit :: "link \<Rightarrow> link" where
  "run_emit l =
     (case lk_emit_tasks l of
        [] \<Rightarrow> l
      | pe # rest \<Rightarrow>
          let l = l\<lparr>lk_emit_tasks := rest\<rparr> in
          if \<not> lk_accepted l then l
          else
            (case incremental pe (lk_watermarks l) (lk_publisher l) of
               (pu, Inr (Some m)) \<Rightarrow> l\<lparr>lk_publisher := pu, lk_wire := lk_wire l @ [rtvi_wire_payload True m]\<rparr>
             | (pu, _) \<Rightarrow> l\<lparr>lk_publisher := pu\<rparr>))"

text \<open>The emitter schedules and raises nothing itself.\<close>

definition link_resume :: "nat option \<Rightarrow> link \<Rightarrow> link" where
  "link_resume watermark l =
     (case resume_observer (\<lambda>_. []) watermark (lk_observer l) of
        None \<Rightarrow> l
      | Some (ob, out) \<Rightarrow> l\<lparr>lk_observer := ob, lk_emit_tasks := lk_emit_tasks l @ out\<rparr>)"

definition barrier_cancel :: "snapshot_barrier \<Rightarrow> link \<Rightarrow> link" where
  "barrier_cancel ba l = (if \<not> ba_open ba then l else link_resume None l)"

definition link_client_ready :: "link \<Rightarrow> link" where
  "link_client_ready l =
     (if lk_accepted l then
        (case client_ready (ob_epoch (lk_observer l)) (lk_publisher l) of
           Inl _ \<Rightarrow> l
         | Inr pu \<Rightarrow> l\<lparr>lk_publisher := pu\<rparr>)
      else l)"

text \<open>
  One iteration of the retry loop up to the flush frame: the barrier opens, the snapshot is read and
  published. A construction that fails or a client that is not ready aborts at once, and the loop ends
  because no request can have been coalesced meanwhile.
\<close>

definition start_attempt :: "instant \<Rightarrow> nat \<Rightarrow> link \<Rightarrow> link" where
  "start_attempt now k l =
     (let l = l\<lparr>lk_attempt := None\<rparr> in
      if \<not> lk_accepted l then l
      else
        let (ba, ob) = subscribe_paused (lk_observer l) \<lparr>ba_open = False, ba_generation = 0\<rparr>;
            (s, sn) = snapshot now (Some (ob_epoch ob)) (supports_work_status ob) (lk_state l);
            l = l\<lparr>lk_recheck := False, lk_observer := ob, lk_state := s\<rparr> in
        case validate_version_and_monotonicity (lk_watermarks l) sn of
          Inl _ \<Rightarrow> barrier_cancel ba l
        | Inr wm \<Rightarrow>
            (case publish_snapshot (Some (ss_sequence s)) wm (set_snapshot sn (lk_publisher l)) of
               (pu, wm, Inr (Some m)) \<Rightarrow>
                 let l = l\<lparr>lk_publisher := pu, lk_watermarks := wm\<rparr> in
                 (case install_baseline ba of
                    Inl _ \<Rightarrow> barrier_cancel ba l
                  | Inr ba \<Rightarrow> l\<lparr>lk_attempt := Some (m, ba, k)\<rparr>)
             | (pu, wm, _) \<Rightarrow> barrier_cancel ba (l\<lparr>lk_publisher := pu, lk_watermarks := wm\<rparr>)))"

definition snapshot_request :: "instant \<Rightarrow> link \<Rightarrow> link" where
  "snapshot_request now l =
     (if \<not> lk_accepted l then l
      else if lk_attempt l \<noteq> None then l\<lparr>lk_recheck := True\<rparr>
      else start_attempt now 0 l)"

definition attempt_installed :: "link \<Rightarrow> link" where
  "attempt_installed l =
     (case lk_attempt l of
        None \<Rightarrow> l
      | Some (m, ba, k) \<Rightarrow>
          link_resume (Some (rm_sequence m))
            (l\<lparr>lk_attempt := None,
               lk_wire := lk_wire l @ [rtvi_wire_payload (supports_work_status (lk_observer l)) m]\<rparr>))"

definition attempt_failed :: "instant \<Rightarrow> link \<Rightarrow> link" where
  "attempt_failed now l =
     (case lk_attempt l of
        None \<Rightarrow> l
      | Some (m, ba, k) \<Rightarrow>
          let l = barrier_cancel ba (l\<lparr>lk_attempt := None\<rparr>) in
          if lk_recheck l \<and> k + 1 < 2 then start_attempt now (k + 1) l else l)"

definition attempt_cancelled :: "link \<Rightarrow> link" where
  "attempt_cancelled l =
     (case lk_attempt l of
        None \<Rightarrow> l
      | Some (m, ba, k) \<Rightarrow> barrier_cancel ba (l\<lparr>lk_attempt := None\<rparr>))"

text \<open>A session operation, with the events it raises handed to the attached listener in order.\<close>

definition raised_by :: "session_state \<Rightarrow> session_state \<Rightarrow> state_event list" where
  "raised_by s s' = filter (\<lambda>e. ss_sequence s < ev_sequence e) (ss_events s')"

definition observe :: "state_event \<Rightarrow> link \<Rightarrow> link" where
  "observe e l =
     (let l = l\<lparr>lk_raised := lk_raised l @ [e]\<rparr> in
      if \<not> ob_attached (lk_observer l) then l
      else
        case on_event e (lk_observer l) of
          (ob, None) \<Rightarrow> l\<lparr>lk_observer := ob\<rparr>
        | (ob, Some p) \<Rightarrow> l\<lparr>lk_observer := ob, lk_emit_tasks := lk_emit_tasks l @ [p]\<rparr>)"

definition link_session :: "ss_op \<Rightarrow> link \<Rightarrow> link" where
  "link_session op l =
     (let s = ss_step op (lk_state l) in fold observe (raised_by (lk_state l) s) (l\<lparr>lk_state := s\<rparr>))"

datatype link_op =
    LSession ss_op
  | LRunEmit
  | LClientReady
  | LSnapshotRequest instant
  | LInstalled
  | LFailed instant
  | LCancelled
  | LRetire
  | LUnsubscribe

fun link_step :: "link_op \<Rightarrow> link \<Rightarrow> link" where
  "link_step (LSession op) l = link_session op l"
| "link_step LRunEmit l = run_emit l"
| "link_step LClientReady l = link_client_ready l"
| "link_step (LSnapshotRequest now) l = snapshot_request now l"
| "link_step LInstalled l = attempt_installed l"
| "link_step (LFailed now) l = attempt_failed now l"
| "link_step LCancelled l = attempt_cancelled l"
| "link_step LRetire l = l\<lparr>lk_accepted := False\<rparr>"
| "link_step LUnsubscribe l = l\<lparr>lk_observer := unsubscribe (lk_observer l)\<rparr>"

text \<open>
  The reports and results of the session are valid models; the flush frame is acknowledged only after
  the emit tasks scheduled before it have run.
\<close>

fun link_ok :: "link_op \<Rightarrow> link \<Rightarrow> bool" where
  "link_ok (LSession op) l \<longleftrightarrow>
     ss_ok op \<and> (case op of AppendResult r _ _ \<Rightarrow> validate_projections r = Inr r | _ \<Rightarrow> True)"
| "link_ok LInstalled l \<longleftrightarrow> lk_emit_tasks l = []"
| "link_ok _ l \<longleftrightarrow> True"

end
