(* ===== verification/Observers_Properties.thy ===== *)
theory Observers_Properties
  imports Observers
begin

text \<open>
  Properties of the connection-scoped projection: the replay of a paused observer returns and is in
  order; the wire a client sees is numbered without gaps across snapshots and carries every visible
  event exactly once; the diagnostic message list is the projection of the event log.
\<close>

section \<open>The projection of a list of events\<close>

definition projected :: "observer \<Rightarrow> state_event \<Rightarrow> nat \<Rightarrow> projected_event" where
  "projected ob e n = \<lparr>pe_kind = ev_kind e, pe_data = ev_payload e, pe_sequence = n, pe_origin_epoch = ob_epoch ob\<rparr>"

fun projection :: "observer \<Rightarrow> nat \<Rightarrow> state_event list \<Rightarrow> projected_event list" where
  "projection ob n [] = []"
| "projection ob n (e # es) =
     (if visible ob e then projected ob e (Suc n) # projection ob (Suc n) es else projection ob n es)"

definition entitled :: "observer \<Rightarrow> state_event list \<Rightarrow> state_event list" where
  "entitled ob es = filter (visible ob) es"

definition same_entitlement :: "observer \<Rightarrow> observer \<Rightarrow> bool" where
  "same_entitlement a b \<longleftrightarrow> ob_epoch a = ob_epoch b \<and> ob_capabilities a = ob_capabilities b"

lemma visible_cong: "same_entitlement a b \<Longrightarrow> visible a = visible b"
  by (auto simp: same_entitlement_def visible_def capability_gate_def supports_work_status_def fun_eq_iff split: option.splits)

lemma projected_cong: "same_entitlement a b \<Longrightarrow> projected a = projected b"
  by (auto simp: same_entitlement_def projected_def fun_eq_iff)

lemma projection_cong: "same_entitlement a b \<Longrightarrow> projection a n es = projection b n es"
  by (induction es arbitrary: n) (auto simp: visible_cong [of a b] projected_cong [of a b])

lemma same_entitlement_simps [simp]:
  "same_entitlement a a"
  "same_entitlement (a\<lparr>ob_projected_sequence := n\<rparr>) b = same_entitlement a b"
  "same_entitlement (a\<lparr>ob_buffer := es\<rparr>) b = same_entitlement a b"
  "same_entitlement (a\<lparr>ob_paused := p\<rparr>) b = same_entitlement a b"
  "same_entitlement (seed n a) b = same_entitlement a b"
  by (simp_all add: same_entitlement_def seed_def)

lemma projection_append:
  "projection ob n (xs @ ys) = projection ob n xs @ projection ob (n + length (entitled ob xs)) ys"
  by (induction xs arbitrary: n) (simp_all add: entitled_def)

lemma projection_data: "map pe_data (projection ob n es) = map ev_payload (entitled ob es)"
  by (induction es arbitrary: n) (simp_all add: entitled_def projected_def)

lemma projection_length [simp]: "length (projection ob n es) = length (entitled ob es)"
  by (induction es arbitrary: n) (simp_all add: entitled_def)

text \<open>Consecutive sequence numbers after \<open>n\<close>.\<close>

fun numbered :: "nat \<Rightarrow> projected_event list \<Rightarrow> bool" where
  "numbered n [] \<longleftrightarrow> True"
| "numbered n (p # ps) \<longleftrightarrow> pe_sequence p = Suc n \<and> numbered (Suc n) ps"

lemma numbered_append [simp]: "numbered n (xs @ ys) \<longleftrightarrow> numbered n xs \<and> numbered (n + length xs) ys"
  by (induction xs arbitrary: n) auto

lemma numbered_projection [simp]: "numbered n (projection ob n es)"
  by (induction es arbitrary: n) (auto simp: projected_def)

lemma visible_epoch: "visible ob e \<Longrightarrow> payload_epoch (ev_payload e) = Some (ob_epoch ob)"
  by (auto simp: visible_def split: if_splits)

lemma project_eq:
  "project e ob =
     (if visible ob e then (ob\<lparr>ob_projected_sequence := Suc (ob_projected_sequence ob)\<rparr>,
        Some (projected ob e (Suc (ob_projected_sequence ob)))) else (ob, None))"
  by (simp add: project_def projected_def visible_epoch Let_def)

section \<open>Replay\<close>

definition above :: "nat option \<Rightarrow> state_event \<Rightarrow> bool" where
  "above watermark e \<longleftrightarrow> (case watermark of None \<Rightarrow> True | Some w \<Rightarrow> w < ev_sequence e)"

lemma drain_step:
  assumes "ob_emitting ob" and "i < length (ob_buffer ob)"
  defines "e \<equiv> ob_buffer ob ! i"
  defines "p \<equiv> projected ob e (Suc (ob_projected_sequence ob))"
  shows "drain react wm i ob out =
    (if above wm e \<and> visible ob e
     then drain react wm (Suc i) (ob\<lparr>ob_projected_sequence := Suc (ob_projected_sequence ob),
            ob_buffer := ob_buffer ob @ react p\<rparr>) (out @ [p])
     else drain react wm (Suc i) ob out)"
  using assms
  by (subst drain.simps) (auto simp: above_def deliver_def project_eq Let_def split: option.splits)

text \<open>
  Work left in a drain: each buffered event costs itself and what its emission may raise.
\<close>

definition pending_weight :: "(payload \<Rightarrow> nat) \<Rightarrow> state_event list \<Rightarrow> nat" where
  "pending_weight wt es = (\<Sum>e\<leftarrow>es. Suc (wt (ev_payload e)))"

definition settles :: "(payload \<Rightarrow> nat) \<Rightarrow> (projected_event \<Rightarrow> state_event list) \<Rightarrow> bool" where
  "settles wt react \<longleftrightarrow> (\<forall>p. pending_weight wt (react p) \<le> wt (pe_data p))"

definition drained :: "(projected_event \<Rightarrow> state_event list) \<Rightarrow> nat option \<Rightarrow> nat \<Rightarrow> observer \<Rightarrow> projected_event list \<Rightarrow> observer \<times> projected_event list \<Rightarrow> bool" where
  "drained react wm i ob out r \<longleftrightarrow>
     (let (ob', out') = r; es = filter (above wm) (drop i (ob_buffer ob')) in
      same_entitlement ob ob' \<and> ob_emitting ob' \<and> ob_attached ob' = ob_attached ob \<and> ob_paused ob' = ob_paused ob \<and>
      prefix (ob_buffer ob) (ob_buffer ob') \<and> ((\<forall>p. react p = []) \<longrightarrow> ob_buffer ob' = ob_buffer ob) \<and>
      out' = out @ projection ob (ob_projected_sequence ob) es \<and>
      ob_projected_sequence ob' = ob_projected_sequence ob + length (entitled ob es))"

text \<open>
  A drain returns and has emitted the entitled events above the watermark of the whole buffer, the
  re-entrantly raised ones at its end included, in order and numbered on.
\<close>

lemma drained_skip:
  assumes "drained react wm (Suc i) ob out r" and "i < length (ob_buffer ob)"
    and "\<not> (above wm (ob_buffer ob ! i) \<and> visible ob (ob_buffer ob ! i))"
  shows "drained react wm i ob out r"
proof -
  obtain ob' out' where r: "r = (ob', out')" by (cases r)
  from assms(1) have "prefix (ob_buffer ob) (ob_buffer ob')" by (simp add: drained_def r Let_def)
  with assms(2) have "drop i (ob_buffer ob') = ob_buffer ob ! i # drop (Suc i) (ob_buffer ob')"
    by (auto simp: prefix_def nth_append Cons_nth_drop_Suc)
  then show ?thesis
    using assms(1,3) by (cases "above wm (ob_buffer ob ! i)") (simp_all add: drained_def r entitled_def Let_def)
qed

lemma drained_emit:
  fixes ob i
  defines "p \<equiv> projected ob (ob_buffer ob ! i) (Suc (ob_projected_sequence ob))"
  assumes "drained react wm (Suc i) (ob\<lparr>ob_projected_sequence := Suc (ob_projected_sequence ob), ob_buffer := ob_buffer ob @ react p\<rparr>)
      (out @ [p]) r" and "i < length (ob_buffer ob)"
    and "above wm (ob_buffer ob ! i)" "visible ob (ob_buffer ob ! i)"
  shows "drained react wm i ob out r"
proof -
  let ?ob = "ob\<lparr>ob_projected_sequence := Suc (ob_projected_sequence ob), ob_buffer := ob_buffer ob @ react p\<rparr>"
  obtain ob' out' where r: "r = (ob', out')" by (cases r)
  have same: "same_entitlement ?ob ob" by simp
  from assms(2) have pre: "prefix (ob_buffer ob) (ob_buffer ob')" by (auto simp: drained_def r Let_def dest: append_prefixD)
  with assms(3) have "drop i (ob_buffer ob') = ob_buffer ob ! i # drop (Suc i) (ob_buffer ob')"
    by (auto simp: prefix_def nth_append Cons_nth_drop_Suc)
  then show ?thesis
    using assms(2,4,5) pre projection_cong [OF same] visible_cong [OF same]
    by (simp add: drained_def r entitled_def Let_def p_def same_entitlement_def)
qed

lemma drain_returns:
  assumes "settles wt react" and "ob_emitting ob" and "i \<le> length (ob_buffer ob)"
  shows "\<exists>r. drain react wm i ob out = Some r \<and> drained react wm i ob out r"
  using assms(2,3)
proof (induction "pending_weight wt (drop i (ob_buffer ob))" arbitrary: i ob out rule: less_induct)
  case less
  let ?e = "ob_buffer ob ! i"
  let ?p = "projected ob ?e (Suc (ob_projected_sequence ob))"
  let ?ob = "ob\<lparr>ob_projected_sequence := Suc (ob_projected_sequence ob), ob_buffer := ob_buffer ob @ react ?p\<rparr>"
  note step = drain_step [OF less.prems(1), of i react wm out]
  have drop: "drop i (ob_buffer ob) = ?e # drop (Suc i) (ob_buffer ob)" if "i < length (ob_buffer ob)"
    using that by (simp add: Cons_nth_drop_Suc)
  consider (over) "i = length (ob_buffer ob)" | (skip) "i < length (ob_buffer ob)" "\<not> (above wm ?e \<and> visible ob ?e)"
    | (emit) "i < length (ob_buffer ob)" "above wm ?e" "visible ob ?e"
    using less.prems(2) by linarith
  then show ?case
  proof cases
    case over
    then show ?thesis using less.prems by (subst drain.simps) (simp add: drained_def entitled_def)
  next
    case skip
    have "pending_weight wt (drop (Suc i) (ob_buffer ob)) < pending_weight wt (drop i (ob_buffer ob))"
      unfolding drop [OF skip(1)] by (simp add: pending_weight_def)
    from less.hyps [OF this less.prems(1), of out] skip
    obtain r where r: "drain react wm (Suc i) ob out = Some r" "drained react wm (Suc i) ob out r" by (auto simp: Suc_le_eq)
    have "drain react wm i ob out = Some r" unfolding step [OF skip(1)] if_not_P [OF skip(2)] by (rule r(1))
    with drained_skip [OF r(2) skip] show ?thesis by blast
  next
    case emit
    have "pending_weight wt (react ?p) \<le> wt (ev_payload ?e)"
      using spec [OF assms(1) [unfolded settles_def], of ?p] by (simp add: projected_def)
    then have less': "pending_weight wt (drop (Suc i) (ob_buffer ?ob)) < pending_weight wt (drop i (ob_buffer ob))"
      using emit(1) unfolding drop [OF emit(1)] by (simp add: pending_weight_def)
    have "ob_emitting ?ob" "Suc i \<le> length (ob_buffer ?ob)" using less.prems emit by simp_all
    from less.hyps [OF less' this, of "out @ [?p]"]
    obtain r where r: "drain react wm (Suc i) ?ob (out @ [?p]) = Some r" "drained react wm (Suc i) ?ob (out @ [?p]) r" by blast
    have "drain react wm i ob out = Some r" unfolding step [OF emit(1)] using emit r(1) by simp
    with drained_emit [OF r(2) emit] show ?thesis by blast
  qed
qed

lemma resume_returns:
  assumes "settles wt react" and "ob_emitting ob"
  shows "\<exists>ob' all. resume_observer react wm ob =
      Some (ob', projection ob (case wm of None \<Rightarrow> ob_projected_sequence ob | Some w \<Rightarrow> w) (filter (above wm) all)) \<and>
    prefix (ob_buffer ob) all \<and> ((\<forall>p. react p = []) \<longrightarrow> all = ob_buffer ob) \<and> same_entitlement ob ob' \<and> ob_emitting ob' \<and> ob_attached ob' = ob_attached ob \<and>
    ob_buffer ob' = [] \<and> \<not> ob_paused ob' \<and>
    ob_projected_sequence ob' =
      (case wm of None \<Rightarrow> ob_projected_sequence ob | Some w \<Rightarrow> w) + length (entitled ob (filter (above wm) all))"
proof -
  define sb where "sb = (case wm of None \<Rightarrow> ob | Some w \<Rightarrow> seed w ob)"
  have same: "same_entitlement sb ob" by (simp add: sb_def split: option.split)
  have em: "ob_emitting sb" using assms(2) by (simp add: sb_def seed_def split: option.split)
  have fields: "ob_projected_sequence sb = (case wm of None \<Rightarrow> ob_projected_sequence ob | Some w \<Rightarrow> w)"
      "ob_buffer sb = ob_buffer ob" "ob_attached sb = ob_attached ob"
    by (simp_all add: sb_def seed_def split: option.split)
  obtain ob' out where r: "drain react wm 0 sb [] = Some (ob', out)" and d: "drained react wm 0 sb [] (ob', out)"
    using drain_returns [OF assms(1) em, of 0 wm "[]"] by auto
  have "resume_observer react wm ob = Some (ob'\<lparr>ob_buffer := [], ob_paused := False\<rparr>, out)"
    using r by (simp add: resume_observer_def sb_def)
  moreover have "same_entitlement ob ob'" using d same by (simp add: drained_def same_entitlement_def Let_def)
  ultimately show ?thesis
    using d fields projection_cong [OF same] visible_cong [OF same]
    by (intro exI [of _ "ob'\<lparr>ob_buffer := [], ob_paused := False\<rparr>"] exI [of _ "ob_buffer ob'"])
      (simp add: drained_def entitled_def same_entitlement_def Let_def)
qed

lemma quiet_settles: "settles (\<lambda>_. 0) (\<lambda>_. [])"
  by (simp add: settles_def pending_weight_def)

text \<open>With an emitter that raises nothing, exactly the buffer is replayed.\<close>


section \<open>The wire\<close>

fun wire_sequence :: "wire_frame \<Rightarrow> nat" where
  "wire_sequence (WireSnapshot n _ _) = n"
| "wire_sequence (WireEvent n _ _) = n"

text \<open>An event is numbered one above the frame before it; a snapshot restarts the numbering.\<close>

fun contiguous :: "nat \<Rightarrow> wire_frame list \<Rightarrow> bool" where
  "contiguous n [] \<longleftrightarrow> True"
| "contiguous n (WireSnapshot w _ _ # fs) \<longleftrightarrow> contiguous w fs"
| "contiguous n (WireEvent k _ _ # fs) \<longleftrightarrow> k = Suc n \<and> contiguous k fs"

fun wire_end :: "nat \<Rightarrow> wire_frame list \<Rightarrow> nat" where
  "wire_end n [] = n"
| "wire_end n (f # fs) = wire_end (wire_sequence f) fs"

text \<open>The watermark of the last snapshot and the events written after it.\<close>

fun since_step :: "nat \<times> payload list \<Rightarrow> wire_frame \<Rightarrow> nat \<times> payload list" where
  "since_step (w, ps) (WireSnapshot n _ _) = (n, [])"
| "since_step (w, ps) (WireEvent n _ p) = (w, ps @ [p])"

definition since_snapshot :: "nat \<Rightarrow> wire_frame list \<Rightarrow> nat \<times> payload list" where
  "since_snapshot n fs = foldl since_step (n, []) fs"

lemma contiguous_append: "contiguous n (fs @ gs) \<longleftrightarrow> contiguous n fs \<and> contiguous (wire_end n fs) gs"
  by (induction n fs rule: contiguous.induct) auto

lemma wire_end_append [simp]: "wire_end n (fs @ gs) = wire_end (wire_end n fs) gs"
  by (induction fs arbitrary: n) auto

lemma since_append [simp]: "since_snapshot n (fs @ [f]) = since_step (since_snapshot n fs) f"
  by (simp add: since_snapshot_def)

fun frame_entitled :: "observer \<Rightarrow> wire_frame \<Rightarrow> bool" where
  "frame_entitled ob (WireSnapshot n sn ws) \<longleftrightarrow>
     sn_snapshot_sequence sn = n \<and> sn_origin_epoch sn = Some (ob_epoch ob) \<and>
     ws = (if supports_work_status ob then Some (sn_work_status sn) else None)"
| "frame_entitled ob (WireEvent n kind p) \<longleftrightarrow>
     payload_epoch p = Some (ob_epoch ob) \<and> kind = event_kind p \<and> (kind = ''work_status'' \<longrightarrow> supports_work_status ob)"

section \<open>Invariant of the link\<close>

definition valid_event :: "state_event \<Rightarrow> bool" where
  "valid_event e \<longleftrightarrow> ev_kind e = event_kind (ev_payload e) \<and> validate_payload (ev_payload e) = Inr ()"

text \<open>A pending task is the projection of a valid visible event.\<close>

definition task_ok :: "observer \<Rightarrow> projected_event \<Rightarrow> bool" where
  "task_ok ob p \<longleftrightarrow> (\<exists>e n. p = projected ob e n \<and> visible ob e \<and> valid_event e)"

definition identity_inv :: "link \<Rightarrow> bool" where
  "identity_inv l \<longleftrightarrow>
     pu_session_id (lk_publisher l) = ss_session_id (lk_state l) \<and> ss_session_id (lk_state l) \<noteq> [] \<and>
     pu_active_epoch (lk_publisher l) = ob_epoch (lk_observer l) \<and> wf_dict (lk_watermarks l) \<and>
     (\<forall>w. map_of (lk_watermarks l) (ss_session_id (lk_state l)) = Some w \<longrightarrow> w \<le> ss_sequence (lk_state l))"

definition raised_inv :: "link \<Rightarrow> bool" where
  "raised_inv l \<longleftrightarrow> events_inv (lk_state l) \<and> list_all valid_event (lk_raised l) \<and> list_all valid_event (ob_buffer (lk_observer l)) \<and>
     (\<forall>e \<in> set (lk_raised l). ev_sequence e \<le> ss_sequence (lk_state l))"

fun attempt_ok ::
    "nat \<Rightarrow> state_event list \<Rightarrow> observer \<Rightarrow> (rtvi_message \<times> snapshot_barrier \<times> nat) option \<Rightarrow> bool" where
  "attempt_ok sequence raised ob None \<longleftrightarrow> (ob_emitting ob \<longrightarrow> \<not> ob_paused ob \<and> ob_buffer ob = [])"
| "attempt_ok sequence raised ob (Some (m, ba, k)) \<longleftrightarrow>
     ba_open ba \<and> k < 2 \<and> rm_sequence m \<le> sequence \<and>
     (\<exists>sn. rm_data m = SnapshotData sn \<and> sn_snapshot_sequence sn = rm_sequence m \<and> sn_origin_epoch sn = Some (ob_epoch ob)) \<and>
     (ob_emitting ob \<longrightarrow> ob_paused ob \<and> ob_buffer ob = filter (above (Some (rm_sequence m))) raised)"

definition attempt_inv :: "link \<Rightarrow> bool" where
  "attempt_inv l \<longleftrightarrow>
     (ob_emitting (lk_observer l) \<longrightarrow> ob_attached (lk_observer l)) \<and>
     attempt_ok (ss_sequence (lk_state l)) (lk_raised l) (lk_observer l) (lk_attempt l)"

definition stream_inv :: "nat \<Rightarrow> link \<Rightarrow> bool" where
  "stream_inv n l \<longleftrightarrow>
     contiguous n (lk_wire l) \<and> list_all (frame_entitled (lk_observer l)) (lk_wire l) \<and>
     list_all (task_ok (lk_observer l)) (lk_emit_tasks l) \<and>
     (lk_accepted l \<longrightarrow>
        numbered (wire_end n (lk_wire l)) (lk_emit_tasks l) \<and>
        ob_projected_sequence (lk_observer l) = wire_end n (lk_wire l) + length (lk_emit_tasks l) \<and>
        (ob_emitting (lk_observer l) \<longrightarrow>
           (let (w, ps) = since_snapshot n (lk_wire l) in
            w \<le> ss_sequence (lk_state l) \<and>
            ps @ map pe_data (lk_emit_tasks l) @ map ev_payload (entitled (lk_observer l) (ob_buffer (lk_observer l))) =
              map ev_payload (entitled (lk_observer l) (filter (above (Some w)) (lk_raised l))))))"

definition link_inv :: "nat \<Rightarrow> link \<Rightarrow> bool" where
  "link_inv n l \<longleftrightarrow> identity_inv l \<and> raised_inv l \<and> attempt_inv l \<and> stream_inv n l"

lemmas link_invs = link_inv_def identity_inv_def raised_inv_def attempt_inv_def stream_inv_def

lemma attach_inv:
  assumes "events_inv s" and "ss_session_id s \<noteq> []" and "wf_dict wm"
  shows "link_inv (ss_sequence s) (attach_link s wm e caps)"
  using assms
  by (simp add: link_invs attach_link_def init_publisher_def reset_monotonicity_def subscribe_def seed_def
      init_observer_def since_snapshot_def entitled_def Let_def)

text \<open>Each part reads a few fields only.\<close>

lemma identity_frame [simp]:
  "identity_inv (l\<lparr>lk_emit_tasks := ts\<rparr>) = identity_inv l"
  "identity_inv (l\<lparr>lk_wire := fs\<rparr>) = identity_inv l"
  "identity_inv (l\<lparr>lk_attempt := a\<rparr>) = identity_inv l"
  "identity_inv (l\<lparr>lk_recheck := b\<rparr>) = identity_inv l"
  "identity_inv (l\<lparr>lk_accepted := b\<rparr>) = identity_inv l"
  "identity_inv (l\<lparr>lk_raised := es\<rparr>) = identity_inv l"
  "ob_epoch ob = ob_epoch (lk_observer l) \<Longrightarrow> identity_inv (l\<lparr>lk_observer := ob\<rparr>) = identity_inv l"
  "pu_session_id pu = pu_session_id (lk_publisher l) \<Longrightarrow> pu_active_epoch pu = pu_active_epoch (lk_publisher l) \<Longrightarrow>
     identity_inv (l\<lparr>lk_publisher := pu\<rparr>) = identity_inv l"
  by (simp_all add: identity_inv_def)

lemma raised_frame [simp]:
  "raised_inv (l\<lparr>lk_emit_tasks := ts\<rparr>) = raised_inv l"
  "raised_inv (l\<lparr>lk_wire := fs\<rparr>) = raised_inv l"
  "raised_inv (l\<lparr>lk_attempt := a\<rparr>) = raised_inv l"
  "raised_inv (l\<lparr>lk_recheck := b\<rparr>) = raised_inv l"
  "raised_inv (l\<lparr>lk_accepted := b\<rparr>) = raised_inv l"
  "raised_inv (l\<lparr>lk_publisher := pu\<rparr>) = raised_inv l"
  "raised_inv (l\<lparr>lk_watermarks := wm\<rparr>) = raised_inv l"
  by (simp_all add: raised_inv_def)

lemma attempt_frame [simp]:
  "attempt_inv (l\<lparr>lk_emit_tasks := ts\<rparr>) = attempt_inv l"
  "attempt_inv (l\<lparr>lk_wire := fs\<rparr>) = attempt_inv l"
  "attempt_inv (l\<lparr>lk_recheck := b\<rparr>) = attempt_inv l"
  "attempt_inv (l\<lparr>lk_accepted := b\<rparr>) = attempt_inv l"
  "attempt_inv (l\<lparr>lk_publisher := pu\<rparr>) = attempt_inv l"
  "attempt_inv (l\<lparr>lk_watermarks := wm\<rparr>) = attempt_inv l"
  by (simp_all add: attempt_inv_def)

lemma stream_frame [simp]:
  "stream_inv n (l\<lparr>lk_attempt := a\<rparr>) = stream_inv n l"
  "stream_inv n (l\<lparr>lk_recheck := b\<rparr>) = stream_inv n l"
  "stream_inv n (l\<lparr>lk_publisher := pu\<rparr>) = stream_inv n l"
  "stream_inv n (l\<lparr>lk_watermarks := wm\<rparr>) = stream_inv n l"
  "stream_inv n l \<Longrightarrow> stream_inv n (l\<lparr>lk_accepted := False\<rparr>)"
  by (simp_all add: stream_inv_def)

subsection \<open>Writing\<close>

lemma event_envelope_valid:
  assumes "valid_event e" and "payload_epoch (ev_payload e) = Some ep" and "sid \<noteq> []"
  shows "validate_versioned_payload wm \<lparr>rm_session_id = sid, rm_sequence = n, rm_kind = ev_kind e,
      rm_data = EventData (ev_payload e), rm_origin_epoch = ep\<rparr> = Inr wm"
proof -
  have "validate_payload (ev_payload e) = Inr ()" and kind: "ev_kind e = event_kind (ev_payload e)"
    using assms(1) by (simp_all add: valid_event_def)
  moreover have "ev_kind e = ''user_transcript'' \<Longrightarrow> \<exists>t. ev_payload e = PTranscript t \<and> te_role t = User"
    and "ev_kind e = ''bot_transcript'' \<Longrightarrow> \<exists>t. ev_payload e = PTranscript t \<and> te_role t = Assistant"
    unfolding kind by (cases "ev_payload e"; simp split: if_splits; metis transcript_role.exhaust)+
  ultimately show ?thesis
    using assms(2,3) by (auto simp: validate_versioned_payload_def simp del: validate_payload.simps event_kind.simps)
qed

lemma incremental_valid:
  assumes "task_ok ob p" and "pu_active_epoch pu = ob_epoch ob" and "pu_session_id pu \<noteq> []"
  shows "incremental p wm pu =
    (pu\<lparr>pu_watermark := max (pu_watermark pu) (pe_sequence p)\<rparr>,
     Inr (Some \<lparr>rm_session_id = pu_session_id pu, rm_sequence = pe_sequence p, rm_kind = pe_kind p,
       rm_data = EventData (pe_data p), rm_origin_epoch = ob_epoch ob\<rparr>)) \<and>
    frame_entitled ob (WireEvent (pe_sequence p) (pe_kind p) (pe_data p))"
proof -
  obtain e n where p: "p = projected ob e n" and vis: "visible ob e" and ok: "valid_event e"
    using assms(1) by (auto simp: task_ok_def)
  have "ev_kind e = ''work_status'' \<Longrightarrow> supports_work_status ob"
    using vis by (auto simp: visible_def capability_gate_def split: if_splits)
  then have "frame_entitled ob (WireEvent n (ev_kind e) (ev_payload e))"
    using ok visible_epoch [OF vis] by (simp add: valid_event_def del: event_kind.simps)
  then show ?thesis
    using assms(2,3) event_envelope_valid [OF ok visible_epoch [OF vis] assms(3)]
    by (simp add: p projected_def incremental_def Let_def del: frame_entitled.simps)
qed

lemma run_emit_inv:
  assumes inv: "link_inv n l"
  shows "link_inv n (run_emit l)"
proof (cases "lk_emit_tasks l")
  case (Cons p rest)
  have parts: "identity_inv l" "raised_inv l" "attempt_inv l" "stream_inv n l" using inv by (simp_all add: link_inv_def)
  show ?thesis
  proof (cases "lk_accepted l")
    case True
    let ?f = "WireEvent (pe_sequence p) (pe_kind p) (pe_data p)"
    let ?pu = "(lk_publisher l)\<lparr>pu_watermark := max (pu_watermark (lk_publisher l)) (pe_sequence p)\<rparr>"
    have "task_ok (lk_observer l) p" using parts(4) Cons by (simp add: stream_inv_def)
    then have step: "run_emit l = l\<lparr>lk_emit_tasks := rest, lk_publisher := ?pu, lk_wire := lk_wire l @ [?f]\<rparr>"
        and ent: "frame_entitled (lk_observer l) ?f"
      using incremental_valid [of "lk_observer l" p "lk_publisher l" "lk_watermarks l"] parts(1) Cons True
      by (simp_all add: run_emit_def rtvi_wire_payload_def identity_inv_def del: frame_entitled.simps)
    obtain w ps where since: "since_snapshot n (lk_wire l) = (w, ps)" by (cases "since_snapshot n (lk_wire l)")
    have "stream_inv n (run_emit l)"
      using parts(4) True Cons ent unfolding step
      by (simp add: stream_inv_def since contiguous_append del: frame_entitled.simps)
    then show ?thesis using parts unfolding step by (simp add: link_inv_def)
  next
    case False
    have "stream_inv n (l\<lparr>lk_emit_tasks := rest\<rparr>)" using parts(4) Cons False by (simp add: stream_inv_def)
    then show ?thesis using parts Cons False by (simp add: run_emit_def link_inv_def)
  qed
qed (simp add: run_emit_def assms)

subsection \<open>Session events\<close>

lemma last_deque_append: "0 < n \<Longrightarrow> last (deque_append n x xs) = x"
  by (simp add: deque_append_def)

lemma last_emitted:
  "last (ss_events (fst (emit p s))) = \<lparr>ev_sequence = ss_sequence s + 1, ev_kind = event_kind p, ev_payload = p\<rparr>"
  by (simp add: last_deque_append MAX_EVENTS_def)

lemma last_event_valid:
  assumes "link_ok (LSession op) l" and "ss_events (ss_step op s) \<noteq> ss_events s"
  shows "valid_event (last (ss_events (ss_step op s)))"
proof (cases op)
  case (AppendResult r q oe)
  have "validate_payload (PResult (stamp_result oe r)) = Inr ()"
    using assms(1) AppendResult by (auto simp: stamp_result_def validate_projections_def split: if_splits)
  then show ?thesis
    using assms(2) AppendResult
    by (cases rule: append_result_cases [of r q oe s])
      (auto simp: last_emitted valid_event_def simp del: emit_events validate_payload.simps)
next
  case (SpeechProgressOp p b)
  then show ?thesis
    using assms(2)
    by (cases rule: speech_progress_cases [of p b s]) (auto simp: last_emitted valid_event_def simp del: emit_events)
next
  case (SetChild now c)
  have turn: "wk_turn_id (child_key c) \<noteq> []" using assms(1) SetChild by (simp add: child_key_turn)
  have report: "set_child_work_status now c s = reaggregate_parent now (child_key c) (put_child c s)"
    using assms SetChild ss_ok_valid [of now c]
    by (cases rule: set_child_cases [of c s now]) auto
  show ?thesis
  proof (cases rule: reaggregate_cases [OF turn, of now "put_child c s"])
    case (3 d st reason)
    let ?w = "write_parent now (child_key c) st reason (put_child c s)"
    have "validate_work_status (snd ?w) = Inr (snd ?w)"
      using aggregate_reason [OF 3(3)] turn by (simp add: validate_work_status_Inr) (simp add: write_parent_def Let_def)
    then have "valid_event (last (ss_events (fst (emit (PWorkStatus (snd ?w)) (fst ?w)))))"
      by (simp add: last_emitted valid_event_def del: emit_events)
    then show ?thesis using 3 SetChild report by simp
  qed (use assms(2) SetChild report in auto)
next
  case (SetWorker w)
  then show ?thesis using assms(2) by (auto simp: set_worker_def last_emitted valid_event_def split_def Let_def simp del: emit_events split: if_splits)
next
  case (SetRouting r)
  then show ?thesis using assms(2) by (auto simp: set_routing_def last_emitted valid_event_def split_def Let_def simp del: emit_events split: if_splits)
next
  case (AppendTranscript t)
  then show ?thesis using assms(2) by (auto simp: append_transcript_def last_emitted valid_event_def split_def Let_def simp del: emit_events split: if_splits)
qed (use assms(2) in auto)

text \<open>An operation raises nothing, or one valid event above everything before.\<close>

lemma raised_cases:
  assumes "events_inv s" and "link_ok (LSession op) l"
  obtains (quiet) "raised_by s (ss_step op s) = []"
    | (one) e where "raised_by s (ss_step op s) = [e]" "valid_event e" "ss_sequence s < ev_sequence e"
        "ev_sequence e = ss_sequence (ss_step op s)"
proof (cases "ss_events (ss_step op s) = ss_events s")
  case True
  then have "raised_by s (ss_step op s) = []"
    using assms(1) by (auto simp: raised_by_def events_inv_def filter_empty_conv)
  then show ?thesis by (rule quiet)
next
  case False
  then obtain p t where step: "ss_step op s = fst (emit p t)" "ss_events t = ss_events s" "ss_sequence s \<le> ss_sequence t"
    using ss_step_emits [of op s] by blast
  let ?e = "\<lparr>ev_sequence = ss_sequence t + 1, ev_kind = event_kind p, ev_payload = p\<rparr>"
  have "filter (\<lambda>e. ss_sequence s < ev_sequence e) (drop n (ss_events s)) = []" for n
    using assms(1) by (fastforce simp: events_inv_def filter_empty_conv dest: in_set_dropD)
  then have "raised_by s (ss_step op s) = [?e]"
    using step(2,3) unfolding raised_by_def step(1) by (simp add: deque_append_def MAX_EVENTS_def)
  moreover have "valid_event ?e" using last_event_valid [OF assms(2) False] unfolding step(1) last_emitted .
  ultimately show ?thesis using step by (intro one [of ?e]) simp_all
qed

lemma filter_above_none: "(\<And>e. e \<in> set es \<Longrightarrow> ev_sequence e \<le> w) \<Longrightarrow> filter (above (Some w)) es = []"
  by (auto simp: filter_empty_conv above_def not_less)

lemma entitled_simps [simp]: "entitled ob [] = []"
  "entitled ob (xs @ ys) = entitled ob xs @ entitled ob ys"
  "entitled ob [e] = (if visible ob e then [e] else [])"
  by (simp_all add: entitled_def)

lemma entitled_cong: "same_entitlement a b \<Longrightarrow> entitled a = entitled b"
  by (simp add: entitled_def visible_cong fun_eq_iff)

lemma task_ok_cong: "same_entitlement a b \<Longrightarrow> task_ok a = task_ok b"
  by (simp add: task_ok_def visible_cong projected_cong fun_eq_iff)

lemma frame_entitled_cong: "same_entitlement a b \<Longrightarrow> frame_entitled a = frame_entitled b"
proof
  fix f assume "same_entitlement a b"
  then show "frame_entitled a f = frame_entitled b f"
    by (cases f) (auto simp: same_entitlement_def supports_work_status_def)
qed

lemma entitlement_updates [simp]:
  "task_ok (ob\<lparr>ob_projected_sequence := q\<rparr>) = task_ok ob" "task_ok (ob\<lparr>ob_buffer := b\<rparr>) = task_ok ob"
  "entitled (ob\<lparr>ob_projected_sequence := q\<rparr>) = entitled ob" "entitled (ob\<lparr>ob_buffer := b\<rparr>) = entitled ob"
  "frame_entitled (ob\<lparr>ob_projected_sequence := q\<rparr>) = frame_entitled ob" "frame_entitled (ob\<lparr>ob_buffer := b\<rparr>) = frame_entitled ob"
  by (rule task_ok_cong entitled_cong frame_entitled_cong, simp)+

text \<open>The session part of a link may only grow its sequence.\<close>

lemma state_step_inv:
  assumes "link_inv n l" and "ss_session_id s' = ss_session_id (lk_state l)" and "ss_sequence (lk_state l) \<le> ss_sequence s'"
    and "events_inv s'"
  shows "link_inv n (l\<lparr>lk_state := s'\<rparr>)"
proof -
  have "attempt_ok (ss_sequence s') (lk_raised l) (lk_observer l) (lk_attempt l)"
    if "attempt_ok (ss_sequence (lk_state l)) (lk_raised l) (lk_observer l) (lk_attempt l)"
    using that assms(3) by (cases "lk_attempt l") auto
  with assms show ?thesis by (auto simp: link_invs intro: order_trans split: prod.splits)
qed

lemma observe_eq:
  "observe e l = (let ob = lk_observer l; l = l\<lparr>lk_raised := lk_raised l @ [e]\<rparr> in
     if \<not> ob_attached ob then l
     else if ob_paused ob then l\<lparr>lk_observer := ob\<lparr>ob_buffer := ob_buffer ob @ [e]\<rparr>\<rparr>
     else if ob_emitting ob \<and> visible ob e
     then l\<lparr>lk_observer := ob\<lparr>ob_projected_sequence := Suc (ob_projected_sequence ob)\<rparr>,
            lk_emit_tasks := lk_emit_tasks l @ [projected ob e (Suc (ob_projected_sequence ob))]\<rparr>
     else l)"
  by (auto simp: observe_def on_event_def deliver_def project_eq Let_def)

lemma observe_inv:
  assumes inv: "link_inv n l" and e: "valid_event e" "ev_sequence e = ss_sequence (lk_state l)"
    and above_attempt: "\<And>m ba k. lk_attempt l = Some (m, ba, k) \<Longrightarrow> rm_sequence m < ev_sequence e"
    and above_last: "lk_accepted l \<Longrightarrow> ob_emitting (lk_observer l) \<Longrightarrow> fst (since_snapshot n (lk_wire l)) < ev_sequence e"
  shows "link_inv n (observe e l)"
proof -
  let ?ob = "lk_observer l" and ?q = "Suc (ob_projected_sequence (lk_observer l))"
  obtain w ps where since: "since_snapshot n (lk_wire l) = (w, ps)" by (cases "since_snapshot n (lk_wire l)")
  have parts: "identity_inv l" "raised_inv l" "attempt_inv l" "stream_inv n l" using inv by (simp_all add: link_inv_def)
  have "identity_inv (observe e l)" using parts(1) by (simp add: observe_eq Let_def)
  moreover have "raised_inv (observe e l)"
    using parts(2) e by (auto simp: observe_eq raised_inv_def Let_def)
  moreover have "attempt_inv (observe e l)"
  proof (cases "lk_attempt l")
    case None
    then show ?thesis using parts(3) by (auto simp: observe_eq attempt_inv_def Let_def)
  next
    case (Some x)
    then obtain m ba k where x: "lk_attempt l = Some (m, ba, k)" by (cases x) auto
    with above_attempt have "above (Some (rm_sequence m)) e" by (simp add: above_def)
    then show ?thesis using parts(3) x by (auto simp: observe_eq attempt_inv_def Let_def)
  qed
  moreover have "stream_inv n (observe e l)"
  proof -
    let ?p = "projected ?ob e ?q"
    have task: "visible ?ob e \<Longrightarrow> task_ok ?ob ?p" using e(1) by (auto simp: task_ok_def)
    have last: "above (Some w) e" if "lk_accepted l" "ob_emitting ?ob" using above_last that since by (simp add: above_def)
    have idle: "ob_buffer ?ob = []" if "ob_emitting ?ob" "\<not> ob_paused ?ob"
      using parts(3) that by (cases "lk_attempt l") (auto simp: attempt_inv_def)
    have attached: "ob_emitting ?ob \<Longrightarrow> ob_attached ?ob" using parts(3) by (simp add: attempt_inv_def)
    have p: "pe_sequence ?p = ?q" "pe_data ?p = ev_payload e" by (simp_all add: projected_def)
    let ?C = "map ev_payload (entitled ?ob (filter (above (Some w)) (lk_raised l)))"
    have tail: "ps @ map pe_data (lk_emit_tasks l) @ map ev_payload (entitled ?ob (ob_buffer ?ob)) @ t = ?C @ t"
      if "lk_accepted l" "ob_emitting ?ob" for t
    proof -
      have "ps @ map pe_data (lk_emit_tasks l) @ map ev_payload (entitled ?ob (ob_buffer ?ob)) = ?C"
        using parts(4) that since by (simp add: stream_inv_def)
      then show ?thesis by (metis append_assoc)
    qed
    consider (detached) "\<not> ob_attached ?ob" | (paused) "ob_attached ?ob" "ob_paused ?ob"
      | (mute) "ob_attached ?ob" "\<not> ob_paused ?ob" "\<not> (ob_emitting ?ob \<and> visible ?ob e)"
      | (sent) "ob_attached ?ob" "\<not> ob_paused ?ob" "ob_emitting ?ob" "visible ?ob e" by blast
    then show ?thesis
    proof cases
      case detached
      then show ?thesis using parts(4) attached by (auto simp: observe_eq stream_inv_def Let_def)
    next
      case paused
      then show ?thesis
        using parts(4) last tail [of "[ev_payload e]"] by (auto simp: observe_eq stream_inv_def since Let_def)
    next
      case mute
      then show ?thesis
        using parts(4) last by (auto simp: observe_eq stream_inv_def since Let_def)
    next
      case sent
      then show ?thesis
        using parts(4) last task idle p tail [of "[ev_payload e]"]
        by (auto simp: observe_eq stream_inv_def since Let_def)
    qed
  qed
  ultimately show ?thesis by (simp add: link_inv_def)
qed

lemma attempt_below: "link_inv n l \<Longrightarrow> lk_attempt l = Some (m, ba, k) \<Longrightarrow> rm_sequence m \<le> ss_sequence (lk_state l)"
  by (simp add: link_inv_def attempt_inv_def)

lemma since_below: "link_inv n l \<Longrightarrow> lk_accepted l \<Longrightarrow> ob_emitting (lk_observer l) \<Longrightarrow>
    fst (since_snapshot n (lk_wire l)) \<le> ss_sequence (lk_state l)"
  by (auto simp: link_inv_def stream_inv_def split: prod.splits)

lemma link_session_inv:
  assumes inv: "link_inv n l" and ok: "link_ok (LSession op) l"
  shows "link_inv n (link_session op l)"
proof -
  let ?s = "lk_state l"
  let ?l = "l\<lparr>lk_state := ss_step op ?s\<rparr>"
  have ev: "events_inv ?s" using inv by (simp add: link_inv_def raised_inv_def)
  have "link_inv n ?l" using inv by (intro state_step_inv) (simp_all add: ss_step_session_id ss_step_sequence ss_step_events_inv ev)
  moreover have "link_inv n (observe e ?l)" if "valid_event e" "ss_sequence ?s < ev_sequence e" "ev_sequence e = ss_sequence (ss_step op ?s)" for e
    using that calculation attempt_below [OF inv] since_below [OF inv]
    by (intro observe_inv) (auto intro: le_less_trans)
  ultimately show ?thesis
    by (cases rule: raised_cases [OF ev ok]) (simp_all add: link_session_def Let_def)
qed

subsection \<open>Snapshot deliveries\<close>

lemma drain_mute:
  assumes "\<not> ob_emitting ob" and "i \<le> length (ob_buffer ob)"
  shows "drain react wm i ob out = Some (ob, out)"
  using assms(2)
proof (induction "length (ob_buffer ob) - i" arbitrary: i)
  case 0
  then show ?case by (subst drain.simps) simp
next
  case (Suc d)
  then have "drain react wm (Suc i) ob out = Some (ob, out)" by simp
  with assms(1) show ?case by (subst drain.simps) (simp add: deliver_def Let_def)
qed

lemma link_resume_cases:
  obtains ob' out where "link_resume wm l = l\<lparr>lk_observer := ob', lk_emit_tasks := lk_emit_tasks l @ out\<rparr>"
    "same_entitlement (lk_observer l) ob'" "ob_emitting ob' = ob_emitting (lk_observer l)"
    "ob_attached ob' = ob_attached (lk_observer l)" "ob_buffer ob' = []" "\<not> ob_paused ob'"
    "out = (if ob_emitting (lk_observer l)
       then projection (lk_observer l) (case wm of None \<Rightarrow> ob_projected_sequence (lk_observer l) | Some w \<Rightarrow> w)
              (filter (above wm) (ob_buffer (lk_observer l))) else [])"
    "ob_projected_sequence ob' = (case wm of None \<Rightarrow> ob_projected_sequence (lk_observer l) | Some w \<Rightarrow> w) + length out"
proof (cases "ob_emitting (lk_observer l)")
  case True
  from resume_returns [OF quiet_settles True, of wm] show ?thesis
    using True by (auto simp: link_resume_def intro!: that)
next
  case False
  let ?ob = "case wm of None \<Rightarrow> lk_observer l | Some w \<Rightarrow> seed w (lk_observer l)"
  have "\<not> ob_emitting ?ob" using False by (simp add: seed_def split: option.split)
  then have "resume_observer (\<lambda>_. []) wm (lk_observer l) = Some (?ob\<lparr>ob_buffer := [], ob_paused := False\<rparr>, [])"
    by (simp add: resume_observer_def drain_mute)
  then show ?thesis
    using False by (intro that [where ob' = "?ob\<lparr>ob_buffer := [], ob_paused := False\<rparr>" and out = "[]"])
      (auto simp: link_resume_def same_entitlement_def seed_def split: option.splits)
qed

lemma projection_tasks: "list_all valid_event es \<Longrightarrow> list_all (task_ok ob) (projection ob n es)"
  by (induction es arbitrary: n) (auto simp: task_ok_def)

lemma filter_above_idem: "filter (above wm) (filter (above wm) es) = filter (above wm) es"
  by simp

lemma filter_above_None [simp]: "filter (above None) es = es"
  by (simp add: above_def)

text \<open>Resuming without a watermark turns the buffer into tasks.\<close>

lemma abort_inv:
  assumes "identity_inv l" "raised_inv l" "stream_inv n l" "ob_emitting (lk_observer l) \<longrightarrow> ob_attached (lk_observer l)"
  shows "link_inv n (link_resume None (l\<lparr>lk_attempt := None\<rparr>))"
proof (rule link_resume_cases [of None "l\<lparr>lk_attempt := None\<rparr>"])
  fix ob' out
  let ?ob = "lk_observer (l\<lparr>lk_attempt := None\<rparr>)"
  assume r: "link_resume None (l\<lparr>lk_attempt := None\<rparr>) =
      (l\<lparr>lk_attempt := None\<rparr>)\<lparr>lk_observer := ob', lk_emit_tasks := lk_emit_tasks (l\<lparr>lk_attempt := None\<rparr>) @ out\<rparr>"
    and same: "same_entitlement ?ob ob'" and fields: "ob_emitting ob' = ob_emitting ?ob" "ob_attached ob' = ob_attached ?ob"
      "ob_buffer ob' = []" "\<not> ob_paused ob'"
    and out: "out = (if ob_emitting ?ob then projection ?ob (case None of None \<Rightarrow> ob_projected_sequence ?ob | Some w \<Rightarrow> w)
        (filter (above None) (ob_buffer ?ob)) else [])"
    and seq: "ob_projected_sequence ob' = (case None of None \<Rightarrow> ob_projected_sequence ?ob | Some w \<Rightarrow> w) + length out"
  have epoch: "ob_epoch ob' = ob_epoch (lk_observer l)" using same by (simp add: same_entitlement_def)
  have cong: "entitled ob' = entitled (lk_observer l)" "task_ok ob' = task_ok (lk_observer l)"
      "frame_entitled ob' = frame_entitled (lk_observer l)"
    using same by (simp_all add: entitled_cong [symmetric] task_ok_cong [symmetric] frame_entitled_cong [symmetric])
  have tasks: "list_all (task_ok (lk_observer l)) out"
    using assms(2) by (simp add: out raised_inv_def projection_tasks)
  have data: "map pe_data out = map ev_payload (entitled (lk_observer l) (ob_buffer (lk_observer l)))" if "ob_emitting (lk_observer l)"
    using that by (simp add: out projection_data)
  have num: "numbered (ob_projected_sequence (lk_observer l)) out" by (simp add: out)
  have "stream_inv n (link_resume None (l\<lparr>lk_attempt := None\<rparr>))"
    using assms(3) tasks data num seq fields unfolding r
    by (auto simp: stream_inv_def cong split: prod.splits)
  moreover have "attempt_inv (link_resume None (l\<lparr>lk_attempt := None\<rparr>))"
    using assms(4) fields unfolding r by (simp add: attempt_inv_def)
  moreover have "raised_inv (link_resume None (l\<lparr>lk_attempt := None\<rparr>))"
    using assms(2) fields unfolding r by (simp add: raised_inv_def)
  ultimately show ?thesis using assms(1) epoch unfolding r by (simp add: link_inv_def)
qed

lemma cancel_attempt_inv:
  assumes "link_inv n l" and "lk_attempt l = Some (m, ba, k)"
  shows "link_inv n (barrier_cancel ba (l\<lparr>lk_attempt := None\<rparr>))"
proof -
  have "ba_open ba" using assms by (simp add: link_inv_def attempt_inv_def)
  moreover have "link_inv n (link_resume None (l\<lparr>lk_attempt := None\<rparr>))"
    using assms(1) by (intro abort_inv) (simp_all add: link_inv_def attempt_inv_def)
  ultimately show ?thesis by (simp add: barrier_cancel_def)
qed

lemma attempt_cancelled_inv: "link_inv n l \<Longrightarrow> link_inv n (attempt_cancelled l)"
  by (simp add: attempt_cancelled_def cancel_attempt_inv split: option.split)

lemma attempt_installed_inv:
  assumes inv: "link_inv n l" and ok: "lk_emit_tasks l = []"
  shows "link_inv n (attempt_installed l)"
proof (cases "lk_attempt l")
  case None
  then show ?thesis using inv by (simp add: attempt_installed_def)
next
  case (Some x)
  then obtain m ba k where x: "lk_attempt l = Some (m, ba, k)" by (cases x) auto
  let ?w = "rm_sequence m"
  have parts: "identity_inv l" "raised_inv l" "attempt_inv l" "stream_inv n l" using inv by (simp_all add: link_inv_def)
  then obtain sn where sn: "rm_data m = SnapshotData sn" "sn_snapshot_sequence sn = ?w"
      "sn_origin_epoch sn = Some (ob_epoch (lk_observer l))"
    using x by (auto simp: attempt_inv_def)
  define f where "f = rtvi_wire_payload (supports_work_status (lk_observer l)) m"
  have f: "f = WireSnapshot ?w sn (wire_work_status (supports_work_status (lk_observer l)) sn)"
    and ent: "frame_entitled (lk_observer l) f"
    using sn by (simp_all add: f_def rtvi_wire_payload_def wire_work_status_def)
  define l' where "l' = l\<lparr>lk_attempt := None, lk_wire := lk_wire l @ [f]\<rparr>"
  have step: "attempt_installed l = link_resume (Some ?w) l'"
    using x by (simp add: attempt_installed_def l'_def f_def)
  show ?thesis
  proof (rule link_resume_cases [of "Some ?w" l'])
    fix ob' out
    assume r: "link_resume (Some ?w) l' = l'\<lparr>lk_observer := ob', lk_emit_tasks := lk_emit_tasks l' @ out\<rparr>"
      and same: "same_entitlement (lk_observer l') ob'" and fields: "ob_emitting ob' = ob_emitting (lk_observer l')"
        "ob_attached ob' = ob_attached (lk_observer l')" "ob_buffer ob' = []" "\<not> ob_paused ob'"
      and out: "out = (if ob_emitting (lk_observer l') then projection (lk_observer l')
          (case Some ?w of None \<Rightarrow> ob_projected_sequence (lk_observer l') | Some w \<Rightarrow> w)
          (filter (above (Some ?w)) (ob_buffer (lk_observer l'))) else [])"
      and seq: "ob_projected_sequence ob' = (case Some ?w of None \<Rightarrow> ob_projected_sequence (lk_observer l') | Some w \<Rightarrow> w) + length out"
    have cong: "entitled ob' = entitled (lk_observer l)" "task_ok ob' = task_ok (lk_observer l)"
        "frame_entitled ob' = frame_entitled (lk_observer l)" "ob_epoch ob' = ob_epoch (lk_observer l)"
      using same by (simp_all add: l'_def entitled_cong [symmetric] task_ok_cong [symmetric] frame_entitled_cong [symmetric] same_entitlement_def [symmetric])
        (simp add: same_entitlement_def)
    have tasks: "list_all (task_ok (lk_observer l)) out"
    proof -
      have "list_all valid_event (filter (above (Some ?w)) (ob_buffer (lk_observer l)))"
        using parts(2) by (auto simp: raised_inv_def list_all_iff)
      then show ?thesis by (simp add: out l'_def projection_tasks)
    qed
    have data: "map pe_data out = map ev_payload (entitled (lk_observer l) (filter (above (Some ?w)) (lk_raised l)))"
      if "ob_emitting (lk_observer l)"
      using that parts(3) x by (simp add: out l'_def projection_data attempt_inv_def)
    have num: "numbered ?w out" by (simp add: out)
    have below: "?w \<le> ss_sequence (lk_state l)" using parts(3) x by (simp add: attempt_inv_def)
    have "stream_inv n (link_resume (Some ?w) l')"
      using parts(4) tasks data num seq fields ent below ok unfolding r
      by (auto simp: stream_inv_def cong l'_def contiguous_append f split: prod.splits)
    moreover have "attempt_inv (link_resume (Some ?w) l')"
      using parts(3) fields unfolding r by (simp add: attempt_inv_def l'_def)
    moreover have "raised_inv (link_resume (Some ?w) l')"
      using parts(2) fields unfolding r by (simp add: raised_inv_def l'_def)
    moreover have "identity_inv (link_resume (Some ?w) l')"
      using parts(1) cong(4) unfolding r by (simp add: l'_def)
    ultimately show ?thesis unfolding step by (simp add: link_inv_def)
  qed
qed

lemma snapshot_fields:
  "ss_session_id (fst (snapshot now oe b s)) = ss_session_id s" "ss_sequence (fst (snapshot now oe b s)) = ss_sequence s"
  "ss_events (fst (snapshot now oe b s)) = ss_events s"
  "sn_contract_version (snd (snapshot now oe b s)) = CONTRACT_VERSION" "sn_session_id (snd (snapshot now oe b s)) = ss_session_id s"
  "sn_snapshot_sequence (snd (snapshot now oe b s)) = ss_sequence s" "sn_origin_epoch (snd (snapshot now oe b s)) = oe"
  by (simp_all add: snapshot_def work_status_snapshot_def CONTRACT_VERSION_def split_def Let_def)

text \<open>A snapshot at or above the recorded watermark is accepted and recorded.\<close>

lemma watermark_accepts:
  assumes "wf_dict wm" and "sn_contract_version sn = CONTRACT_VERSION"
    and "\<And>w. map_of wm (sn_session_id sn) = Some w \<Longrightarrow> w \<le> sn_snapshot_sequence sn"
  shows "\<exists>wm'. validate_version_and_monotonicity wm sn = Inr wm' \<and> wf_dict wm' \<and>
    map_of wm' (sn_session_id sn) = Some (sn_snapshot_sequence sn)"
proof -
  let ?wm = "lru_put MAX_WATERMARK_SESSIONS (sn_session_id sn) (sn_snapshot_sequence sn) wm"
  have "validate_version_and_monotonicity wm sn = Inr ?wm"
    using assms(2,3) by (auto simp: validate_version_and_monotonicity_def Let_def max_def split: option.splits)
  then show ?thesis
    using watermark_cache.get_put_same [OF assms(1)] watermark_cache.put_invar [OF assms(1)] by blast
qed

lemma publish_ready:
  assumes "pu_ready pu" and "wf_dict wm" and "map_of wm (ss_session_id s) = Some (ss_sequence s)"
    and "pu_session_id pu = ss_session_id s" "ss_session_id s \<noteq> []"
    and sn: "sn = snd (snapshot now (Some (pu_active_epoch pu)) b s)"
  shows "\<exists>pu' wm' m. publish_snapshot (Some (ss_sequence s)) wm (set_snapshot sn pu) = (pu', wm', Inr (Some m)) \<and>
    pu_session_id pu' = pu_session_id pu \<and> pu_active_epoch pu' = pu_active_epoch pu \<and> wf_dict wm' \<and>
    map_of wm' (ss_session_id s) = Some (ss_sequence s) \<and> rm_data m = SnapshotData sn \<and> rm_sequence m = ss_sequence s"
proof -
  have f: "sn_contract_version sn = CONTRACT_VERSION" "sn_session_id sn = ss_session_id s"
      "sn_snapshot_sequence sn = ss_sequence s" "sn_origin_epoch sn = Some (pu_active_epoch pu)"
    unfolding sn by (simp_all add: snapshot_fields)
  then have upd: "sn\<lparr>sn_snapshot_sequence := ss_sequence s\<rparr> = sn" by simp
  obtain wm' where "validate_version_and_monotonicity wm sn = Inr wm'" "wf_dict wm'"
      "map_of wm' (ss_session_id s) = Some (ss_sequence s)"
    using watermark_accepts [OF assms(2) f(1)] assms(3) f by auto
  then show ?thesis
    using assms(1,4,5) f by (simp add: publish_snapshot_def set_snapshot_def validate_versioned_payload_def Let_def upd)
qed

lemma publish_not_ready: "\<not> pu_ready pu \<Longrightarrow> publish_snapshot p wm (set_snapshot sn pu) = (set_snapshot sn pu, wm, Inr None)"
  by (simp add: publish_snapshot_def set_snapshot_def Let_def)

lemma set_snapshot_identity [simp]:
  "pu_session_id (set_snapshot sn pu) = pu_session_id pu" "pu_active_epoch (set_snapshot sn pu) = pu_active_epoch pu"
  by (simp_all add: set_snapshot_def Let_def)

text \<open>The link after the snapshot was read with the observer paused.\<close>

lemma paused_parts:
  assumes "link_inv n l" and "lk_attempt l = None" and "ss_session_id s = ss_session_id (lk_state l)"
    and "ss_sequence s = ss_sequence (lk_state l)" and "ss_events s = ss_events (lk_state l)"
    and "wf_dict wm" and "map_of wm (ss_session_id s) = Some (ss_sequence s)"
  defines "l' \<equiv> l\<lparr>lk_recheck := False, lk_observer := pause_observer (lk_observer l), lk_state := s, lk_watermarks := wm\<rparr>"
  shows "identity_inv l'" "raised_inv l'" "stream_inv n l'" "ob_attached (lk_observer l')"
    "attempt_ok (ss_sequence s) (lk_raised l) (pause_observer (lk_observer l)) (Some (m, ba, k)) \<longleftrightarrow>
       ba_open ba \<and> k < 2 \<and> rm_sequence m \<le> ss_sequence s \<and>
       (\<exists>sn. rm_data m = SnapshotData sn \<and> sn_snapshot_sequence sn = rm_sequence m \<and>
          sn_origin_epoch sn = Some (ob_epoch (lk_observer l))) \<and>
       (ob_emitting (lk_observer l) \<longrightarrow> filter (above (Some (rm_sequence m))) (lk_raised l) = [])"
proof -
  have parts: "identity_inv l" "raised_inv l" "attempt_inv l" "stream_inv n l" using assms(1) by (simp_all add: link_inv_def)
  have same: "same_entitlement (pause_observer (lk_observer l)) (lk_observer l)"
    by (simp add: pause_observer_def same_entitlement_def)
  note cong = entitled_cong [OF same] task_ok_cong [OF same] frame_entitled_cong [OF same]
  show "identity_inv l'" using parts(1) assms(3,4,6,7) by (simp add: l'_def identity_inv_def pause_observer_def)
  show "raised_inv l'" using parts(2) assms(4,5) by (simp add: l'_def raised_inv_def events_inv_def pause_observer_def)
  show "stream_inv n l'" using parts(4) assms(4) cong by (simp add: l'_def stream_inv_def) (simp add: pause_observer_def)
  show "ob_attached (lk_observer l')" by (simp add: l'_def pause_observer_def)
  show "attempt_ok (ss_sequence s) (lk_raised l) (pause_observer (lk_observer l)) (Some (m, ba, k)) \<longleftrightarrow>
       ba_open ba \<and> k < 2 \<and> rm_sequence m \<le> ss_sequence s \<and>
       (\<exists>sn. rm_data m = SnapshotData sn \<and> sn_snapshot_sequence sn = rm_sequence m \<and>
          sn_origin_epoch sn = Some (ob_epoch (lk_observer l))) \<and>
       (ob_emitting (lk_observer l) \<longrightarrow> filter (above (Some (rm_sequence m))) (lk_raised l) = [])"
    using parts(3) assms(2) by (auto simp: attempt_inv_def pause_observer_def)
qed

lemma start_attempt_inv:
  assumes inv: "link_inv n l" and "lk_attempt l = None" and "k < 2"
  shows "link_inv n (start_attempt now k l)"
proof (cases "lk_accepted l")
  case False
  have "l\<lparr>lk_attempt := None\<rparr> = l" using assms(2) by simp
  with False inv show ?thesis by (simp add: start_attempt_def)
next
  case True
  let ?s = "lk_state l" and ?ob = "pause_observer (lk_observer l)"
  define s where "s = fst (snapshot now (Some (ob_epoch ?ob)) (supports_work_status ?ob) ?s)"
  define sn where "sn = snd (snapshot now (Some (ob_epoch ?ob)) (supports_work_status ?ob) ?s)"
  have id: "identity_inv l" using inv by (simp add: link_inv_def)
  have s: "ss_session_id s = ss_session_id ?s" "ss_sequence s = ss_sequence ?s" "ss_events s = ss_events ?s"
    by (simp_all add: s_def snapshot_fields)
  have snf: "sn_contract_version sn = CONTRACT_VERSION" "sn_session_id sn = ss_session_id ?s"
      "sn_snapshot_sequence sn = ss_sequence ?s" "sn_origin_epoch sn = Some (ob_epoch (lk_observer l))"
    by (simp_all add: sn_def snapshot_fields pause_observer_def)
  obtain wm where wm: "validate_version_and_monotonicity (lk_watermarks l) sn = Inr wm" "wf_dict wm"
      "map_of wm (ss_session_id ?s) = Some (ss_sequence ?s)"
    using watermark_accepts [of "lk_watermarks l" sn] id snf by (auto simp: identity_inv_def)
  have keep: "l\<lparr>lk_attempt := None\<rparr> = l" using assms(2) by simp
  define l' where "l' = l\<lparr>lk_recheck := False, lk_observer := ?ob, lk_state := s\<rparr>"
  let ?ba = "\<lparr>ba_open = True, ba_generation = 0\<rparr>"
  have step: "start_attempt now k l =
      (case publish_snapshot (Some (ss_sequence s)) wm (set_snapshot sn (lk_publisher l)) of
         (pu, wm, Inr (Some m)) \<Rightarrow> l'\<lparr>lk_publisher := pu, lk_watermarks := wm,
            lk_attempt := Some (m, ?ba\<lparr>ba_generation := 1\<rparr>, k)\<rparr>
       | (pu, wm, _) \<Rightarrow> link_resume None (l'\<lparr>lk_publisher := pu, lk_watermarks := wm\<rparr>))"
    using True wm(1)
    by (simp add: start_attempt_def subscribe_paused_def install_baseline_def barrier_cancel_def split_def Let_def
        s_def [symmetric] sn_def [symmetric] l'_def keep split: sum.split option.split)
  show ?thesis
  proof (cases "pu_ready (lk_publisher l)")
    case ready: True
    note paused = paused_parts [OF inv assms(2) s]
    obtain pu wm' m where pub: "publish_snapshot (Some (ss_sequence s)) wm (set_snapshot sn (lk_publisher l)) = (pu, wm', Inr (Some m))"
        "pu_session_id pu = pu_session_id (lk_publisher l)" "pu_active_epoch pu = pu_active_epoch (lk_publisher l)"
        "wf_dict wm'" "map_of wm' (ss_session_id s) = Some (ss_sequence s)" "rm_data m = SnapshotData sn" "rm_sequence m = ss_sequence s"
    proof -
      have "sn = snd (snapshot now (Some (pu_active_epoch (lk_publisher l))) (supports_work_status ?ob) ?s)"
        using id by (simp add: sn_def identity_inv_def pause_observer_def)
      from publish_ready [OF ready wm(2,3) _ _ this] id s that show ?thesis by (auto simp: identity_inv_def)
    qed
    have "filter (above (Some (ss_sequence s))) (lk_raised l) = []"
      using inv s by (intro filter_above_none) (simp add: link_inv_def raised_inv_def)
    then have att: "attempt_ok (ss_sequence s) (lk_raised l) ?ob (Some (m, ?ba\<lparr>ba_generation := 1\<rparr>, k))"
      unfolding paused(5) [OF pub(4,5)] using pub(6,7) snf assms(3) s by simp
    show ?thesis
      using paused(1-4) [OF pub(4,5)] att pub(2,3)
      unfolding step pub(1) l'_def by (simp add: link_inv_def attempt_inv_def) (simp add: identity_inv_def)
  next
    case False
    have "link_inv n (link_resume None ((l'\<lparr>lk_publisher := set_snapshot sn (lk_publisher l), lk_watermarks := wm\<rparr>)\<lparr>lk_attempt := None\<rparr>))"
      using paused_parts(1-4) [OF inv assms(2) s wm(2)] wm(3) s
      by (intro abort_inv) (simp_all add: l'_def, simp add: identity_inv_def)
    moreover have "(l'\<lparr>lk_publisher := pu, lk_watermarks := wm\<rparr>)\<lparr>lk_attempt := None\<rparr> = l'\<lparr>lk_publisher := pu, lk_watermarks := wm\<rparr>" for pu
      using assms(2) by (simp add: l'_def)
    ultimately show ?thesis
      unfolding step by (simp add: publish_not_ready [OF False])
  qed
qed

lemma attempt_failed_inv:
  assumes inv: "link_inv n l"
  shows "link_inv n (attempt_failed now l)"
proof (cases "lk_attempt l")
  case None
  then show ?thesis using inv by (simp add: attempt_failed_def)
next
  case (Some x)
  then obtain m ba k where x: "lk_attempt l = Some (m, ba, k)" by (cases x) auto
  let ?l = "barrier_cancel ba (l\<lparr>lk_attempt := None\<rparr>)"
  have "lk_attempt ?l = None"
    by (simp add: barrier_cancel_def link_resume_def split: option.split)
  with cancel_attempt_inv [OF inv x] show ?thesis
    using x by (simp add: attempt_failed_def Let_def start_attempt_inv)
qed

lemma unsubscribe_inv:
  assumes "link_inv n l"
  shows "link_inv n (l\<lparr>lk_observer := unsubscribe (lk_observer l)\<rparr>)"
proof -
  have same: "same_entitlement (unsubscribe (lk_observer l)) (lk_observer l)"
    by (simp add: unsubscribe_def same_entitlement_def)
  note cong = entitled_cong [OF same] task_ok_cong [OF same] frame_entitled_cong [OF same]
  have fields: "ob_epoch (unsubscribe (lk_observer l)) = ob_epoch (lk_observer l)" "\<not> ob_emitting (unsubscribe (lk_observer l))"
      "ob_buffer (unsubscribe (lk_observer l)) = []"
      "ob_projected_sequence (unsubscribe (lk_observer l)) = ob_projected_sequence (lk_observer l)"
    by (simp_all add: unsubscribe_def)
  have "attempt_inv (l\<lparr>lk_observer := unsubscribe (lk_observer l)\<rparr>)"
    using assms fields by (cases "lk_attempt l") (auto simp: link_inv_def attempt_inv_def)
  then show ?thesis
    using assms fields cong by (simp add: link_inv_def raised_inv_def stream_inv_def)
qed

lemma client_ready_inv: "link_inv n l \<Longrightarrow> link_inv n (link_client_ready l)"
  by (simp add: link_client_ready_def client_ready_def link_inv_def)

lemma link_step_inv: "link_inv n l \<Longrightarrow> link_ok op l \<Longrightarrow> link_inv n (link_step op l)"
proof (cases op)
  case (LSnapshotRequest now)
  assume "link_inv n l"
  then show ?thesis by (cases "lk_attempt l") (simp_all add: LSnapshotRequest snapshot_request_def start_attempt_inv, simp add: link_inv_def)
next
  case LRetire
  assume "link_inv n l"
  then show ?thesis by (simp add: LRetire) (simp add: link_inv_def)
qed (simp_all add: link_session_inv run_emit_inv client_ready_inv attempt_installed_inv attempt_failed_inv
  attempt_cancelled_inv unsubscribe_inv del: link_ok.simps(1))

interpretation link: guarded_machine link_step link_ok "link_inv n" for n
  by unfold_locales (rule link_step_inv)


section \<open>Properties\<close>

text \<open>
  C17. Snapshot handoff. For a connection attached to a reachable session, after any session operations,
  emit tasks, snapshot requests and endings of their deliveries (installed, failed with or without a
  retry, cancelled), retirement and teardown: every event on the wire is numbered one above the frame
  before it and every snapshot restarts the numbering at its own watermark; every frame belongs to the
  connection's epoch, and work status appears only on a connection that negotiated it. While the
  connection is the accepted one and subscribed, the events written since the last snapshot, followed by
  those in pending tasks and those held behind an open barrier, are exactly the events above that
  snapshot's watermark that the connection is entitled to, once each and in order.
\<close>

theorem snapshot_handoff:
  assumes "s = fold ss_step ops (init_session session_id token)" and "session_id \<noteq> []" and "wf_dict wm"
    and "l0 = attach_link s wm epoch caps" and "link.legal evs l0"
  shows "let l = fold link_step evs l0; ob = lk_observer l in
     contiguous (ss_sequence s) (lk_wire l) \<and> list_all (frame_entitled ob) (lk_wire l) \<and>
     (lk_accepted l \<and> ob_emitting ob \<longrightarrow>
        (let (w, ps) = since_snapshot (ss_sequence s) (lk_wire l) in
         ps @ map pe_data (lk_emit_tasks l) @ map ev_payload (filter (visible ob) (ob_buffer ob)) =
           map ev_payload (filter (\<lambda>e. visible ob e \<and> w < ev_sequence e) (lk_raised l))))"
proof -
  have "events_inv s" unfolding assms(1) by (rule event_log.run_inv) (simp add: events_inv_def init_session_def)
  moreover have "ss_session_id s \<noteq> []"
  proof -
    have "ss_session_id (fold ss_step ops t) = ss_session_id t" for t
      by (induction ops arbitrary: t) (simp_all add: ss_step_session_id)
    then show ?thesis using assms(2) by (simp add: assms(1) init_session_def)
  qed
  ultimately have "link_inv (ss_sequence s) l0" unfolding assms(4) using assms(3) by (intro attach_inv)
  then have "link_inv (ss_sequence s) (fold link_step evs l0)" using assms(5) by (rule link.run_inv)
  then show ?thesis
    by (simp add: link_inv_def stream_inv_def entitled_def above_def conj_commute Let_def split: prod.splits)
qed

definition demo_worker :: "epoch \<Rightarrow> worker_state" where
  "demo_worker e = \<lparr>wk_worker_id = ''w'', wk_topic = ''t'', wk_model_policy = ''deep'', wk_status = ''idle'',
     wk_latest_result_id = None, wk_origin_epoch = Some e\<rparr>"

definition demo_link_ops :: "link_op list" where
  "demo_link_ops = [LClientReady, LSession (SetWorker (demo_worker 1)), LRunEmit, LSession (SetWorker (demo_worker 2)),
     LSnapshotRequest 0, LSession (SetWorker (demo_worker 1)), LInstalled, LRunEmit]"

lemma snapshot_handoff_witness:
  "let l = fold link_step demo_link_ops (attach_link (init_session ''s'' ''t'') [] 1 {}) in
   map wire_sequence (lk_wire l) = [1, 2, 3] \<and> contiguous 0 (lk_wire l)"
proof -
  let ?l0 = "attach_link (fold ss_step [] (init_session ''s'' ''t'')) [] 1 {}"
  note run = demo_link_ops_def demo_worker_def attach_link_def init_session_def init_publisher_def
    reset_monotonicity_def init_observer_def subscribe_def seed_def link_client_ready_def client_ready_def link_session_def
    raised_by_def observe_eq emit_def deque_append_def MAX_EVENTS_def set_worker_def stale_epoch_def visible_def
    capability_gate_def ALWAYS_VISIBLE_KINDS_def projected_def run_emit_def incremental_def validate_versioned_payload_def
    rtvi_wire_payload_def snapshot_request_def start_attempt_def subscribe_paused_def pause_observer_def snapshot_def
    supports_work_status_def resolve_work_status_wire_presence_def validate_version_and_monotonicity_def lru_put_eq
    MAX_WATERMARK_SESSIONS_def CONTRACT_VERSION_def set_snapshot_def publish_snapshot_def install_baseline_def
    attempt_installed_def link_resume_def resume_observer_def drain.simps deliver_def project_eq Let_def
  have "link.legal demo_link_ops ?l0"
    by (simp add: run)
  note handoff = snapshot_handoff [OF refl, of "''s''" "[]", OF _ _ refl this, unfolded Let_def]
  moreover have "map wire_sequence (lk_wire (fold link_step demo_link_ops ?l0)) = [1, 2, 3]"
    by (simp add: run)
  ultimately show ?thesis by (simp add: init_session_def Let_def)
qed

text \<open>
  Replay returns, in order. For any emitter that raises finitely many events in turn (each emission
  raises events of together less weight than its own), resuming a paused observer ends: it delivers the
  entitled events above the watermark, first those of the buffer and then the ones raised during the
  replay, in order and numbered from the watermark on, and leaves the observer unpaused with an empty
  buffer.
\<close>

theorem replay_returns_in_order:
  assumes "\<And>p. (\<Sum>e\<leftarrow>react p. Suc (wt (ev_payload e))) \<le> wt (pe_data p)" and "ob_emitting ob"
  shows "\<exists>ob' out late. resume_observer react (Some w) ob = Some (ob', out) \<and> \<not> ob_paused ob' \<and> ob_buffer ob' = [] \<and>
    map pe_data out = map ev_payload (filter (\<lambda>e. w < ev_sequence e \<and> visible ob e) (ob_buffer ob @ late)) \<and>
    map pe_sequence out = [Suc w..<Suc (w + length out)] \<and> ob_projected_sequence ob' = w + length out"
proof -
  have "settles wt react" using assms(1) by (simp add: settles_def pending_weight_def)
  from resume_returns [OF this assms(2), of "Some w"] obtain ob' all where
    r: "resume_observer react (Some w) ob = Some (ob', projection ob w (filter (above (Some w)) all))"
      "prefix (ob_buffer ob) all" "ob_buffer ob' = []" "\<not> ob_paused ob'"
      "ob_projected_sequence ob' = w + length (entitled ob (filter (above (Some w)) all))"
    by auto
  obtain late where "all = ob_buffer ob @ late" using r(2) by (auto simp: prefix_def)
  have seqs: "numbered n ps \<Longrightarrow> map pe_sequence ps = [Suc n..<Suc (n + length ps)]" for n ps
  proof (induction ps arbitrary: n)
    case (Cons p ps)
    then have "map pe_sequence ps = [Suc (Suc n)..<Suc (Suc n + length ps)]" "pe_sequence p = Suc n" by auto
    then show ?case by (simp add: upt_rec [of "Suc n"] del: upt_Suc)
  qed simp
  have "map pe_data (projection ob w (filter (above (Some w)) all)) =
      map ev_payload (filter (\<lambda>e. w < ev_sequence e \<and> visible ob e) all)"
    by (simp add: projection_data entitled_def above_def conj_commute)
  then show ?thesis
    using r seqs [OF numbered_projection [where n = w and ob = ob and es = "filter (above (Some w)) all"]] \<open>all = _\<close>
    by (intro exI [of _ ob'] exI [of _ "projection ob w (filter (above (Some w)) all)"] exI [of _ late])
      (simp del: upt_Suc)
qed

definition demo_paused :: observer where
  "demo_paused = (init_observer 1 {})\<lparr>ob_emitting := True, ob_paused := True,
     ob_buffer := [\<lparr>ev_sequence = 4, ev_kind = ''worker'', ev_payload = PWorker (demo_worker 1)\<rparr>,
                   \<lparr>ev_sequence = 7, ev_kind = ''worker'', ev_payload = PWorker (demo_worker 1)\<rparr>]\<rparr>"

lemma replay_returns_in_order_witness:
  "\<exists>ob' out late. resume_observer (\<lambda>_. []) (Some 5) demo_paused = Some (ob', out) \<and> \<not> ob_paused ob' \<and> ob_buffer ob' = [] \<and>
    map pe_data out = map ev_payload (filter (\<lambda>e. 5 < ev_sequence e \<and> visible demo_paused e) (ob_buffer demo_paused @ late)) \<and>
    map pe_sequence out = [Suc 5..<Suc (5 + length out)] \<and> ob_projected_sequence ob' = 5 + length out"
  by (rule replay_returns_in_order [where wt = "\<lambda>_. 0"]) (simp_all add: demo_paused_def)

text \<open>
  The diagnostic message list is the projection of the event log from zero, cut after the requested
  sequence: a returned sequence can be passed back as \<open>after_sequence\<close>.
\<close>

lemma messages_drop: "messages n s ob = drop n (messages 0 s ob)"
proof -
  have "collect_messages ob n k es = drop (n - k) (collect_messages ob 0 k es)" for k es
  proof (induction es arbitrary: k)
    case (Cons e es)
    show ?case
    proof (cases "visible ob e")
      case True
      then show ?thesis using Cons [of "Suc k"] by (cases "n \<le> k") (auto simp: drop_Cons' Suc_diff_le)
    qed (use Cons in simp)
  qed simp
  then show ?thesis by (simp add: messages_def)
qed

end
