(* ===== verification/Coordinator.thy ===== *)
theory Coordinator
  imports Routing
begin

text \<open>
  The work item coordinator of \<open>server/work_item_coordinator.py\<close> with \<open>server/task_retention.py\<close>: bounded
  ownership of background tasks, retention of timed-out work with its completion callback, the
  submission of a turn's work items and the classification of what became of each, per-worker tails,
  cancellation, shutdown, and the pending dialogue of a session.

  A task is a number. The event loop part of the state is \<open>co_finished\<close> (the result of every finished
  task), \<open>co_callbacks\<close> (the done-callbacks registered on unfinished tasks, in registration order),
  \<open>co_ready\<close> (the callbacks already scheduled; the loop runs them first in first out, with other steps
  in between) and \<open>co_cancel_requested\<close>. How a task that runs foreign code ends is an argument of
  \<open>finish_task\<close>. The coroutine \<open>one\<close> that \<open>submit\<close> starts per item is split at its awaits.
  \<open>co_retained_log\<close>, \<open>co_terminal_log\<close> and \<open>co_complete_log\<close> record the accepted retentions and the calls of
  \<open>on_late_terminal\<close> and \<open>on_complete\<close>.
\<close>

section \<open>Data\<close>

datatype failure_kind = CapacityRejected | RetentionRejectedKind | CancelledKind | FailedKind

datatype terminal_kind = TkCompleted | TkFailed | TkCancelled

record work_item_failure =
  wf_work_item_id :: string
  wf_worker_id :: string
  wf_error_type :: string
  wf_error_message :: string
  wf_failure_kind :: failure_kind

record late_result =
  lr_work_item_id :: string
  lr_worker_id :: string
  lr_result :: "string option"
  lr_error :: "string option"
  lr_terminal_kind :: "terminal_kind option"

record pending_dialogue =
  pd_session_id :: string
  pd_owner_kind :: string
  pd_owner_id :: string
  pd_turn_id :: string
  pd_result_id :: string
  pd_expires_at :: instant
  pd_original_query :: string
  pd_question :: string

record submitted_outcome =
  so_work_items :: "string list"
  so_results :: "string list"
  so_pending_work_item_ids :: "string list"
  so_failures :: "work_item_failure list"

text \<open>A failed task carries the name of its exception class and the message.\<close>

datatype task_result = TaskCompleted string | TaskFailed string string | TaskWasCancelled

text \<open>What \<open>on_complete\<close> is: absent, a function, or a coroutine function.\<close>

datatype on_complete = NoCallback | SyncCallback | AsyncCallback

datatype done_callback =
    DropOwned | DropMandatory | DropCancelling | DropSubmit
  | CleanupWork string
  | LateDone string string on_complete
  | CallbackDone

text \<open>The coroutine \<open>one\<close>: not started, waiting for the worker's previous tail, awaiting its provider task.\<close>

datatype one_stage = OneNew string string | OneWait string string nat | OneRun string nat

record coordinator =
  co_max_work_items_per_turn :: nat
  co_pending_dialogue_timeout_seconds :: instant
  co_max_background_tasks :: nat
  co_pending :: "(string, pending_dialogue) dict"
  co_tails :: "(string, nat) dict"
  co_late_results :: "late_result list"
  co_late_tasks :: "nat set"
  co_callback_tasks :: "nat set"
  co_cancelling_tasks :: "nat set"
  co_owned_tasks :: "nat set"
  co_mandatory_tasks :: "nat set"
  co_submission_tasks :: "nat set"
  co_submit_tasks :: "nat set"
  co_provider_tasks :: "nat set"
  co_work_tasks :: "(string, nat) dict"
  co_background_task_order :: "nat list"
  co_shutdown :: bool
  co_next_task :: nat
  co_finished :: "(nat, task_result) dict"
  co_callbacks :: "(nat \<times> done_callback) list"
  co_ready :: "(nat \<times> done_callback) list"
  co_cancel_requested :: "nat set"
  co_ones :: "(nat, one_stage) dict"
  co_retained_log :: "string list"
  co_terminal_log :: "(string \<times> terminal_kind) list"
  co_complete_log :: "late_result list"

datatype coordinator_error = ShutDown | NonPositiveCapacity | IdsDoNotCover

definition init_coordinator :: "nat \<Rightarrow> instant \<Rightarrow> nat option \<Rightarrow> coordinator_error + coordinator" where
  "init_coordinator max_work_items pending_timeout max_background_tasks =
     (let n = (case max_background_tasks of None \<Rightarrow> max 4 (max_work_items * 2) | Some n \<Rightarrow> n) in
      if n = 0 then Inl NonPositiveCapacity
      else Inr
        \<lparr>co_max_work_items_per_turn = max_work_items, co_pending_dialogue_timeout_seconds = pending_timeout,
         co_max_background_tasks = n, co_pending = [], co_tails = [], co_late_results = [], co_late_tasks = {},
         co_callback_tasks = {}, co_cancelling_tasks = {}, co_owned_tasks = {}, co_mandatory_tasks = {},
         co_submission_tasks = {}, co_submit_tasks = {}, co_provider_tasks = {}, co_work_tasks = [],
         co_background_task_order = [], co_shutdown = False, co_next_task = 0, co_finished = [], co_callbacks = [],
         co_ready = [], co_cancel_requested = {}, co_ones = [], co_retained_log = [], co_terminal_log = [], co_complete_log = []\<rparr>)"

definition ensure_open :: "coordinator \<Rightarrow> coordinator_error + unit" where
  "ensure_open c = (if co_shutdown c then Inl ShutDown else Inr ())"

section \<open>The event loop\<close>

definition create_task :: "coordinator \<Rightarrow> coordinator \<times> nat" where
  "create_task c = (c\<lparr>co_next_task := co_next_task c + 1\<rparr>, co_next_task c)"

definition task_done :: "nat \<Rightarrow> coordinator \<Rightarrow> bool" where
  "task_done t c \<longleftrightarrow> map_of (co_finished c) t \<noteq> None"

text \<open>A callback added to a finished task is scheduled at once.\<close>

definition add_done_callback :: "nat \<Rightarrow> done_callback \<Rightarrow> coordinator \<Rightarrow> coordinator" where
  "add_done_callback t cb c =
     (if task_done t c then c\<lparr>co_ready := co_ready c @ [(t, cb)]\<rparr>
      else c\<lparr>co_callbacks := co_callbacks c @ [(t, cb)]\<rparr>)"

definition request_cancel :: "nat \<Rightarrow> coordinator \<Rightarrow> coordinator" where
  "request_cancel t c =
     (if task_done t c then c
      else case map_of (co_ones c) t of
             Some (OneRun worker p) \<Rightarrow> c\<lparr>co_cancel_requested := insert p (co_cancel_requested c)\<rparr>
           | _ \<Rightarrow> c\<lparr>co_cancel_requested := insert t (co_cancel_requested c)\<rparr>)"

definition finish_task :: "nat \<Rightarrow> task_result \<Rightarrow> coordinator \<Rightarrow> coordinator" where
  "finish_task t r c =
     (if task_done t c \<or> co_next_task c \<le> t then c
      else c\<lparr>co_finished := AList.update t r (co_finished c),
             co_ready := co_ready c @ filter (\<lambda>(u, cb). u = t) (co_callbacks c),
             co_callbacks := filter (\<lambda>(u, cb). u \<noteq> t) (co_callbacks c)\<rparr>)"

section \<open>Ownership\<close>

definition has_background_capacity :: "coordinator \<Rightarrow> bool" where
  "has_background_capacity c \<longleftrightarrow> card (co_owned_tasks c - co_mandatory_tasks c) < co_max_background_tasks c"

definition retain_owned :: "nat \<Rightarrow> coordinator \<Rightarrow> coordinator" where
  "retain_owned t c = add_done_callback t DropOwned (c\<lparr>co_owned_tasks := insert t (co_owned_tasks c)\<rparr>)"

definition adopt_task :: "nat \<Rightarrow> bool \<Rightarrow> coordinator \<Rightarrow> coordinator \<times> bool" where
  "adopt_task t force c =
     (if t \<in> co_owned_tasks c then (c, True)
      else if \<not> force \<and> \<not> has_background_capacity c then (c, False)
      else (retain_owned t c, True))"

definition start_task :: "bool \<Rightarrow> coordinator \<Rightarrow> coordinator \<times> nat option" where
  "start_task mandatory c =
     (if co_shutdown c \<or> (\<not> mandatory \<and> \<not> has_background_capacity c) then (c, None)
      else
        let (c, t) = create_task c; c = fst (adopt_task t True c) in
        (if mandatory
         then add_done_callback t DropMandatory (c\<lparr>co_mandatory_tasks := insert t (co_mandatory_tasks c)\<rparr>)
         else c, Some t))"

definition track_cancelling_task :: "nat \<Rightarrow> coordinator \<Rightarrow> coordinator" where
  "track_cancelling_task t c =
     (let c = fst (adopt_task t True c);
          c = add_done_callback t DropCancelling (c\<lparr>co_cancelling_tasks := insert t (co_cancelling_tasks c)\<rparr>)
      in request_cancel t c)"

definition track_callback_task :: "nat \<Rightarrow> coordinator \<Rightarrow> coordinator" where
  "track_callback_task t c =
     (case adopt_task t False c of
        (c, False) \<Rightarrow> track_cancelling_task t c
      | (c, True) \<Rightarrow>
          add_done_callback t CallbackDone
            (c\<lparr>co_callback_tasks := insert t (co_callback_tasks c),
               co_background_task_order := co_background_task_order c @ [t]\<rparr>))"

definition drain_late_results :: "coordinator \<Rightarrow> coordinator \<times> late_result list" where
  "drain_late_results c = (c\<lparr>co_late_results := []\<rparr>, co_late_results c)"

section \<open>Retention\<close>

definition retain_late_task ::
    "nat \<Rightarrow> string \<Rightarrow> string \<Rightarrow> on_complete \<Rightarrow> coordinator \<Rightarrow> coordinator \<times> bool" where
  "retain_late_task t work_item_id worker_id on_complete c =
     (if co_shutdown c then (track_cancelling_task t c, False)
      else
        case adopt_task t False c of
          (c, False) \<Rightarrow> (track_cancelling_task t c, False)
        | (c, True) \<Rightarrow>
            (add_done_callback t (LateDone work_item_id worker_id on_complete)
               (c\<lparr>co_late_tasks := insert t (co_late_tasks c),
                  co_background_task_order := co_background_task_order c @ [t],
                  co_retained_log := co_retained_log c @ [work_item_id]\<rparr>), True))"

definition terminal_kind_of :: "task_result \<Rightarrow> terminal_kind" where
  "terminal_kind_of r =
     (case r of TaskWasCancelled \<Rightarrow> TkCancelled | TaskFailed _ _ \<Rightarrow> TkFailed | TaskCompleted _ \<Rightarrow> TkCompleted)"

definition late_result_of :: "string \<Rightarrow> string \<Rightarrow> task_result \<Rightarrow> late_result" where
  "late_result_of work_item_id worker_id r =
     \<lparr>lr_work_item_id = work_item_id, lr_worker_id = worker_id,
      lr_result = (case r of TaskCompleted v \<Rightarrow> Some v | _ \<Rightarrow> None),
      lr_error = (case r of
                    TaskCompleted _ \<Rightarrow> None
                  | TaskFailed name message \<Rightarrow> Some (name @ '': '' @ message)
                  | TaskWasCancelled \<Rightarrow> Some ''CancelledError: worker task was cancelled''),
      lr_terminal_kind = Some (terminal_kind_of r)\<rparr>"

definition late_completed :: "nat \<Rightarrow> task_result \<Rightarrow> string \<Rightarrow> string \<Rightarrow> on_complete \<Rightarrow> coordinator \<Rightarrow> coordinator" where
  "late_completed t r work_item_id worker_id on_complete c =
     (let late = late_result_of work_item_id worker_id r;
          c = c\<lparr>co_terminal_log := co_terminal_log c @ [(work_item_id, terminal_kind_of r)]\<rparr>;
          c = c\<lparr>co_late_tasks := co_late_tasks c - {t},
                co_background_task_order := remove1 t (co_background_task_order c)\<rparr> in
      if co_shutdown c then c
      else
        case on_complete of
          NoCallback \<Rightarrow> c\<lparr>co_late_results := deque_append (co_max_background_tasks c) late (co_late_results c)\<rparr>
        | SyncCallback \<Rightarrow> c\<lparr>co_complete_log := co_complete_log c @ [late]\<rparr>
        | AsyncCallback \<Rightarrow>
            let c = c\<lparr>co_complete_log := co_complete_log c @ [late]\<rparr> in
            (case start_task True c of
               (c, None) \<Rightarrow> c
             | (c, Some u) \<Rightarrow> track_callback_task u c))"

definition run_done_callback :: "nat \<Rightarrow> task_result \<Rightarrow> done_callback \<Rightarrow> coordinator \<Rightarrow> coordinator" where
  "run_done_callback t r cb c =
     (case cb of
        DropOwned \<Rightarrow> c\<lparr>co_owned_tasks := co_owned_tasks c - {t}\<rparr>
      | DropMandatory \<Rightarrow> c\<lparr>co_mandatory_tasks := co_mandatory_tasks c - {t}\<rparr>
      | DropCancelling \<Rightarrow> c\<lparr>co_cancelling_tasks := co_cancelling_tasks c - {t}\<rparr>
      | DropSubmit \<Rightarrow> c\<lparr>co_submit_tasks := co_submit_tasks c - {t}\<rparr>
      | CleanupWork item \<Rightarrow>
          if map_of (co_work_tasks c) item = Some t
          then c\<lparr>co_work_tasks := AList.delete item (co_work_tasks c)\<rparr> else c
      | LateDone item worker f \<Rightarrow> late_completed t r item worker f c
      | CallbackDone \<Rightarrow>
          c\<lparr>co_callback_tasks := co_callback_tasks c - {t},
            co_background_task_order := remove1 t (co_background_task_order c)\<rparr>)"

text \<open>The loop runs the callback scheduled first.\<close>

definition run_ready :: "coordinator \<Rightarrow> coordinator" where
  "run_ready c =
     (case co_ready c of
        [] \<Rightarrow> c
      | (t, cb) # rest \<Rightarrow>
          let c = c\<lparr>co_ready := rest\<rparr> in
          (case map_of (co_finished c) t of None \<Rightarrow> c | Some r \<Rightarrow> run_done_callback t r cb c))"

section \<open>Submission\<close>

definition start_provider :: "nat \<Rightarrow> string \<Rightarrow> coordinator \<Rightarrow> coordinator" where
  "start_provider t worker_id c =
     (let (c, p) = create_task c in
      c\<lparr>co_provider_tasks := insert p (co_provider_tasks c), co_tails := AList.update worker_id p (co_tails c),
        co_ones := AList.update t (OneRun worker_id p) (co_ones c)\<rparr>)"

text \<open>
  One resumption of the coroutine \<open>one\<close> of task \<open>t\<close>. A cancelled task that has no provider task yet ends
  there; with one, the cancellation was passed on to the provider task and its result is the task's.
\<close>

definition run_one :: "nat \<Rightarrow> coordinator \<Rightarrow> coordinator" where
  "run_one t c =
     (if task_done t c then c
      else case map_of (co_ones c) t of
        None \<Rightarrow> c
      | Some (OneNew worker_id text) \<Rightarrow>
          if t \<in> co_cancel_requested c then finish_task t TaskWasCancelled c
          else
            (case map_of (co_tails c) worker_id of
               Some previous \<Rightarrow> c\<lparr>co_ones := AList.update t (OneWait worker_id text previous) (co_ones c)\<rparr>
             | None \<Rightarrow> start_provider t worker_id c)
      | Some (OneWait worker_id text previous) \<Rightarrow>
          if t \<in> co_cancel_requested c then finish_task t TaskWasCancelled c
          else if task_done previous c then start_provider t worker_id c
          else c
      | Some (OneRun worker_id p) \<Rightarrow>
          (case map_of (co_finished c) p of
             None \<Rightarrow> c
           | Some r \<Rightarrow>
               finish_task t r
                 (c\<lparr>co_provider_tasks := co_provider_tasks c - {p},
                    co_tails := (if map_of (co_tails c) worker_id = Some p then AList.delete worker_id (co_tails c)
                                 else co_tails c)\<rparr>)))"

record submission =
  sb_task :: nat
  sb_work :: "string list"
  sb_selected :: "(string \<times> string) list"
  sb_indexed_tasks :: "(nat \<times> nat) list"
  sb_capacity_failures :: "work_item_failure list"

fun admit_items ::
    "string list \<Rightarrow> nat \<Rightarrow> (string \<times> string) list \<Rightarrow> coordinator \<Rightarrow>
     coordinator \<times> (nat \<times> nat) list \<times> work_item_failure list" where
  "admit_items work index [] c = (c, [], [])"
| "admit_items work index ((worker_id, text) # rest) c =
     (case start_task False c of
        (c, None) \<Rightarrow>
          let (c, indexed, failures) = admit_items work (index + 1) rest c in
          (c, indexed,
           \<lparr>wf_work_item_id = work ! index, wf_worker_id = worker_id, wf_error_type = ''CapacityError'',
            wf_error_message = ''worker execution capacity is exhausted'', wf_failure_kind = CapacityRejected\<rparr> # failures)
      | (c, Some t) \<Rightarrow>
          let c = c\<lparr>co_ones := AList.update t (OneNew worker_id text) (co_ones c),
                    co_work_tasks := AList.update (work ! index) t (co_work_tasks c)\<rparr>;
              c = add_done_callback t DropSubmit (c\<lparr>co_submit_tasks := insert t (co_submit_tasks c)\<rparr>);
              c = add_done_callback t (CleanupWork (work ! index)) c;
              (c, indexed, failures) = admit_items work (index + 1) rest c in
          (c, (index, t) # indexed, failures))"

definition submit_begin ::
    "nat \<Rightarrow> string \<Rightarrow> (string \<times> string) list \<Rightarrow> string list option \<Rightarrow> coordinator \<Rightarrow>
     coordinator_error + coordinator \<times> submission" where
  "submit_begin current turn_id items work_item_ids c =
     (case ensure_open c of
        Inl e \<Rightarrow> Inl e
      | Inr _ \<Rightarrow>
          let selected = take (co_max_work_items_per_turn c) items;
              ids = (case work_item_ids of
                       Some ids \<Rightarrow> take (length selected) ids
                     | None \<Rightarrow> map (\<lambda>i. turn_id @ ''-'' @ show_nat i) [0..<length selected]) in
          if length ids \<noteq> length selected then Inl IdsDoNotCover
          else
            let (c, indexed, failures) =
                  admit_items ids 0 selected (c\<lparr>co_submission_tasks := insert current (co_submission_tasks c)\<rparr>) in
            Inr (c, \<lparr>sb_task = current, sb_work = ids, sb_selected = selected, sb_indexed_tasks = indexed,
                     sb_capacity_failures = failures\<rparr>))"

text \<open>After the wait: results in item order, then the failures, then the retention of what still runs.\<close>

definition submit_results :: "submission \<Rightarrow> coordinator \<Rightarrow> string list" where
  "submit_results sb c =
     concat (map (\<lambda>(i, t). case map_of (co_finished c) t of Some (TaskCompleted v) \<Rightarrow> [v] | _ \<Rightarrow> [])
       (sb_indexed_tasks sb))"

definition execution_failures :: "submission \<Rightarrow> coordinator \<Rightarrow> work_item_failure list" where
  "execution_failures sb c =
     concat (map (\<lambda>(i, t).
       case map_of (co_finished c) t of
         Some TaskWasCancelled \<Rightarrow>
           [\<lparr>wf_work_item_id = sb_work sb ! i, wf_worker_id = fst (sb_selected sb ! i), wf_error_type = ''CancelledError'',
             wf_error_message = ''worker execution was cancelled'', wf_failure_kind = CancelledKind\<rparr>]
       | Some (TaskFailed name message) \<Rightarrow>
           [\<lparr>wf_work_item_id = sb_work sb ! i, wf_worker_id = fst (sb_selected sb ! i), wf_error_type = name,
             wf_error_message = ''worker execution failed'', wf_failure_kind = FailedKind\<rparr>]
       | _ \<Rightarrow> []) (sb_indexed_tasks sb))"

fun retain_items ::
    "submission \<Rightarrow> on_complete \<Rightarrow> (nat \<times> nat) list \<Rightarrow> coordinator \<Rightarrow>
     coordinator \<times> string list \<times> work_item_failure list" where
  "retain_items sb f [] c = (c, [], [])"
| "retain_items sb f ((i, t) # rest) c =
     (case retain_late_task t (sb_work sb ! i) (fst (sb_selected sb ! i)) f c of
        (c, accepted) \<Rightarrow>
          let (c, pending, failures) = retain_items sb f rest c in
          if accepted then (c, sb_work sb ! i # pending, failures)
          else (c, pending,
            \<lparr>wf_work_item_id = sb_work sb ! i, wf_worker_id = fst (sb_selected sb ! i),
             wf_error_type = ''RetentionCapacityError'',
             wf_error_message = ''worker execution could not continue in background'',
             wf_failure_kind = RetentionRejectedKind\<rparr> # failures))"

definition submit_end :: "submission \<Rightarrow> on_complete \<Rightarrow> coordinator \<Rightarrow> coordinator \<times> submitted_outcome" where
  "submit_end sb f c =
     (let results = submit_results sb c;
          failures = sb_capacity_failures sb @ execution_failures sb c;
          running = filter (\<lambda>(i, t). \<not> task_done t c) (sb_indexed_tasks sb);
          (c, pending, rejected) = retain_items sb f running c
      in (c\<lparr>co_submission_tasks := co_submission_tasks c - {sb_task sb}\<rparr>,
          \<lparr>so_work_items = sb_work sb, so_results = results, so_pending_work_item_ids = pending,
           so_failures = failures @ rejected\<rparr>))"

text \<open>A cancelled submission cancels its tasks, waits for them and re-raises.\<close>

definition submit_cancelled :: "submission \<Rightarrow> coordinator \<Rightarrow> coordinator" where
  "submit_cancelled sb c = fold (\<lambda>(i, t). request_cancel t) (sb_indexed_tasks sb) c"

definition submit_aborted :: "submission \<Rightarrow> coordinator \<Rightarrow> coordinator" where
  "submit_aborted sb c =
     (if \<forall>(i, t) \<in> set (sb_indexed_tasks sb). task_done t c
      then c\<lparr>co_submission_tasks := co_submission_tasks c - {sb_task sb}\<rparr> else c)"

section \<open>Cancellation and shutdown\<close>

definition cancel_work :: "string option \<Rightarrow> coordinator \<Rightarrow> coordinator \<times> string list" where
  "cancel_work work_item_id c =
     (let selected = filter (\<lambda>i. work_item_id = None \<or> work_item_id = Some i) (dkeys (co_work_tasks c)) in
      (fold (\<lambda>i c. case map_of (co_work_tasks c) i of None \<Rightarrow> c | Some t \<Rightarrow> request_cancel t c) selected c, selected))"

definition live_work_item_ids :: "coordinator \<Rightarrow> string list" where
  "live_work_item_ids c = dkeys (co_work_tasks c)"

definition shutdown_begin :: "nat option \<Rightarrow> coordinator \<Rightarrow> coordinator" where
  "shutdown_begin current c =
     (let c = c\<lparr>co_shutdown := True, co_pending := [], co_late_results := []\<rparr>;
          owned = co_owned_tasks c \<union> co_submission_tasks c \<union> co_provider_tasks c;
          tasks = owned - (case current of None \<Rightarrow> {} | Some t \<Rightarrow> {t})
      in fold request_cancel (sorted_list_of_set tasks) c)"

definition shutdown_end :: "coordinator \<Rightarrow> coordinator" where
  "shutdown_end c =
     c\<lparr>co_late_tasks := {}, co_callback_tasks := {}, co_cancelling_tasks := {}, co_owned_tasks := {},
       co_mandatory_tasks := {}, co_submission_tasks := {}, co_submit_tasks := {}, co_provider_tasks := {},
       co_work_tasks := [], co_background_task_order := [], co_tails := []\<rparr>"

section \<open>Pending dialogue and dispatch\<close>

definition add_pending :: "pending_dialogue \<Rightarrow> coordinator \<Rightarrow> coordinator_error + coordinator" where
  "add_pending d c =
     (case ensure_open c of
        Inl e \<Rightarrow> Inl e
      | Inr _ \<Rightarrow> Inr (c\<lparr>co_pending := AList.update (pd_session_id d) d (co_pending c)\<rparr>))"

definition add_worker_clarification ::
    "instant \<Rightarrow> string \<Rightarrow> string \<Rightarrow> string \<Rightarrow> string \<Rightarrow> string \<Rightarrow> string \<Rightarrow> coordinator \<Rightarrow> coordinator_error + coordinator" where
  "add_worker_clarification now session_id worker_id turn_id result_id original_query question c =
     add_pending \<lparr>pd_session_id = session_id, pd_owner_kind = ''worker'', pd_owner_id = worker_id, pd_turn_id = turn_id,
       pd_result_id = result_id, pd_expires_at = now + co_pending_dialogue_timeout_seconds c,
       pd_original_query = original_query, pd_question = question\<rparr> c"

definition pending :: "instant \<Rightarrow> string \<Rightarrow> coordinator \<Rightarrow> coordinator \<times> pending_dialogue option" where
  "pending now session_id c =
     (case map_of (co_pending c) session_id of
        None \<Rightarrow> (c, None)
      | Some d \<Rightarrow>
          if pd_expires_at d \<le> now then (c\<lparr>co_pending := AList.delete session_id (co_pending c)\<rparr>, None)
          else (c, Some d))"

datatype dispatch_refusal = CoordinatorClosed | NoRegistry | DispatchRejected dispatch_error

definition coordinator_dispatch ::
    "routing_decision \<Rightarrow> worker_catalogue option \<Rightarrow> coordinator \<Rightarrow> registry option \<Rightarrow>
     registry option \<times> (dispatch_refusal + registered_worker option)" where
  "coordinator_dispatch d snapshot c r =
     (if co_shutdown c then (r, Inl CoordinatorClosed)
      else case r of
        None \<Rightarrow> (None, Inl NoRegistry)
      | Some r \<Rightarrow>
          (case dispatch d snapshot r of
             (r, Inl e) \<Rightarrow> (Some r, Inl (DispatchRejected e))
           | (r, Inr w) \<Rightarrow> (Some r, Inr w)))"

end
