(* ===== verification/Coordinator_Properties.thy ===== *)
theory Coordinator_Properties
  imports Coordinator "HOL-Library.Multiset"
begin

text \<open>
  Properties of the work item coordinator: the background budget holds in every reachable state, every
  accepted retention is reported exactly once, a submission accounts for each of its items exactly
  once, and what the per-worker tails guarantee.
\<close>

section \<open>The machine\<close>

datatype co_op =
    CoStart bool
  | CoSubmit nat string "(string \<times> string) list" "string list option"
  | CoSubmitEnd submission on_complete
  | CoSubmitCancelled submission
  | CoRunOne nat
  | CoFinish nat task_result
  | CoReady
  | CoRetain nat string string on_complete
  | CoCancel "string option"
  | CoDrain
  | CoPending instant string
  | CoShutdownBegin "nat option"
  | CoShutdownEnd

fun co_step :: "co_op \<Rightarrow> coordinator \<Rightarrow> coordinator" where
  "co_step (CoStart m) c = fst (start_task m c)"
| "co_step (CoSubmit cur turn items ids) c =
     (case submit_begin cur turn items ids c of Inl _ \<Rightarrow> c | Inr (c, _) \<Rightarrow> c)"
| "co_step (CoSubmitEnd sb f) c = fst (submit_end sb f c)"
| "co_step (CoSubmitCancelled sb) c = submit_aborted sb (submit_cancelled sb c)"
| "co_step (CoRunOne t) c = run_one t c"
| "co_step (CoFinish t r) c = finish_task t r c"
| "co_step CoReady c = run_ready c"
| "co_step (CoRetain t item worker f) c = fst (retain_late_task t item worker f c)"
| "co_step (CoCancel item) c = fst (cancel_work item c)"
| "co_step CoDrain c = fst (drain_late_results c)"
| "co_step (CoPending now session) c = fst (pending now session c)"
| "co_step (CoShutdownBegin cur) c = shutdown_begin cur c"
| "co_step CoShutdownEnd c = shutdown_end c"

text \<open>
  Only a task that still runs and is not a completion callback is retained, as its callers check.
\<close>

fun co_ok :: "co_op \<Rightarrow> coordinator \<Rightarrow> bool" where
  "co_ok (CoRetain t item worker f) c \<longleftrightarrow> t < co_next_task c \<and> \<not> task_done t c \<and> t \<notin> co_mandatory_tasks c"
| "co_ok (CoSubmitEnd sb f) c \<longleftrightarrow>
     list_all (\<lambda>(i, t). t < co_next_task c \<and> t \<notin> co_mandatory_tasks c) (sb_indexed_tasks sb) \<and>
     distinct (map snd (sb_indexed_tasks sb))"
| "co_ok _ c \<longleftrightarrow> True"

section \<open>Callbacks of a task\<close>

definition pending_callbacks :: "coordinator \<Rightarrow> (nat \<times> done_callback) list" where
  "pending_callbacks c = co_ready c @ co_callbacks c"

definition cbs :: "nat \<Rightarrow> coordinator \<Rightarrow> done_callback list" where
  "cbs t c = map snd (filter (\<lambda>x. fst x = t) (pending_callbacks c))"

definition guarded :: "done_callback list \<Rightarrow> bool" where
  "guarded xs \<longleftrightarrow> DropOwned \<in> set xs \<and> set (takeWhile (\<lambda>x. x \<noteq> DropOwned) xs) \<inter> {DropMandatory, DropCancelling} = {}"

lemma guarded_append: "guarded xs \<Longrightarrow> guarded (xs @ ys)"
  by (auto simp: guarded_def takeWhile_append)

text \<open>
  Finished tasks have no registered callback, unfinished ones no scheduled callback; an owned task will
  run its \<open>DropOwned\<close> before it loses its mandatory or cancelling mark; the budget holds.
\<close>

definition loop_inv :: "coordinator \<Rightarrow> bool" where
  "loop_inv c \<longleftrightarrow>
     (\<forall>t cb. (t, cb) \<in> set (co_ready c) \<longrightarrow> task_done t c) \<and>
     (\<forall>t cb. (t, cb) \<in> set (co_callbacks c) \<longrightarrow> \<not> task_done t c) \<and>
     (\<forall>t cb. (t, cb) \<in> set (pending_callbacks c) \<longrightarrow> t < co_next_task c) \<and>
     (\<forall>t. task_done t c \<longrightarrow> t < co_next_task c) \<and>
     co_owned_tasks c \<union> co_mandatory_tasks c \<union> co_cancelling_tasks c \<subseteq> {..<co_next_task c}"

definition owned_inv :: "coordinator \<Rightarrow> bool" where
  "owned_inv c \<longleftrightarrow> (\<forall>t \<in> co_owned_tasks c. guarded (cbs t c)) \<and>
     (\<forall>t. t \<notin> co_owned_tasks c \<and> \<not> task_done t c \<longrightarrow>
        (t \<notin> co_mandatory_tasks c \<and> t \<notin> co_cancelling_tasks c) \<and>
        (guarded (cbs t c) \<or> set (cbs t c) \<inter> {DropMandatory, DropCancelling} = {}))"

definition budget_inv :: "coordinator \<Rightarrow> bool" where
  "budget_inv c \<longleftrightarrow> 0 < co_max_background_tasks c \<and>
     card (co_owned_tasks c - co_mandatory_tasks c - co_cancelling_tasks c) \<le> co_max_background_tasks c \<and>
     length (co_late_results c) \<le> co_max_background_tasks c"

definition co_inv :: "coordinator \<Rightarrow> bool" where
  "co_inv c \<longleftrightarrow> loop_inv c \<and> owned_inv c \<and> budget_inv c"

lemmas co_invs = co_inv_def loop_inv_def owned_inv_def budget_inv_def

text \<open>The invariant reads only the loop, the ownership sets and the parked results.\<close>

lemma task_done_frame [simp]:
  "task_done t (c\<lparr>co_max_work_items_per_turn := x0\<rparr>) = task_done t c"
  "task_done t (c\<lparr>co_pending_dialogue_timeout_seconds := x1\<rparr>) = task_done t c"
  "task_done t (c\<lparr>co_pending := x2\<rparr>) = task_done t c"
  "task_done t (c\<lparr>co_tails := x3\<rparr>) = task_done t c"
  "task_done t (c\<lparr>co_late_tasks := x4\<rparr>) = task_done t c"
  "task_done t (c\<lparr>co_callback_tasks := x5\<rparr>) = task_done t c"
  "task_done t (c\<lparr>co_submission_tasks := x6\<rparr>) = task_done t c"
  "task_done t (c\<lparr>co_submit_tasks := x7\<rparr>) = task_done t c"
  "task_done t (c\<lparr>co_provider_tasks := x8\<rparr>) = task_done t c"
  "task_done t (c\<lparr>co_work_tasks := x9\<rparr>) = task_done t c"
  "task_done t (c\<lparr>co_background_task_order := x10\<rparr>) = task_done t c"
  "task_done t (c\<lparr>co_shutdown := x11\<rparr>) = task_done t c"
  "task_done t (c\<lparr>co_cancel_requested := x12\<rparr>) = task_done t c"
  "task_done t (c\<lparr>co_ones := x13\<rparr>) = task_done t c"
  "task_done t (c\<lparr>co_retained_log := x14\<rparr>) = task_done t c"
  "task_done t (c\<lparr>co_terminal_log := x15\<rparr>) = task_done t c"
  "task_done t (c\<lparr>co_complete_log := x16\<rparr>) = task_done t c"
  "task_done t (c\<lparr>co_owned_tasks := x17\<rparr>) = task_done t c"
  "task_done t (c\<lparr>co_mandatory_tasks := x18\<rparr>) = task_done t c"
  "task_done t (c\<lparr>co_cancelling_tasks := x19\<rparr>) = task_done t c"
  "task_done t (c\<lparr>co_late_results := x20\<rparr>) = task_done t c"
  "task_done t (c\<lparr>co_ready := x21\<rparr>) = task_done t c"
  "task_done t (c\<lparr>co_callbacks := x22\<rparr>) = task_done t c"
  by (simp_all add: task_done_def)

lemma co_inv_frame [simp]:
  "co_inv (c\<lparr>co_max_work_items_per_turn := x0\<rparr>) = co_inv c"
  "co_inv (c\<lparr>co_pending_dialogue_timeout_seconds := x1\<rparr>) = co_inv c"
  "co_inv (c\<lparr>co_pending := x2\<rparr>) = co_inv c"
  "co_inv (c\<lparr>co_tails := x3\<rparr>) = co_inv c"
  "co_inv (c\<lparr>co_late_tasks := x4\<rparr>) = co_inv c"
  "co_inv (c\<lparr>co_callback_tasks := x5\<rparr>) = co_inv c"
  "co_inv (c\<lparr>co_submission_tasks := x6\<rparr>) = co_inv c"
  "co_inv (c\<lparr>co_submit_tasks := x7\<rparr>) = co_inv c"
  "co_inv (c\<lparr>co_provider_tasks := x8\<rparr>) = co_inv c"
  "co_inv (c\<lparr>co_work_tasks := x9\<rparr>) = co_inv c"
  "co_inv (c\<lparr>co_background_task_order := x10\<rparr>) = co_inv c"
  "co_inv (c\<lparr>co_shutdown := x11\<rparr>) = co_inv c"
  "co_inv (c\<lparr>co_cancel_requested := x12\<rparr>) = co_inv c"
  "co_inv (c\<lparr>co_ones := x13\<rparr>) = co_inv c"
  "co_inv (c\<lparr>co_retained_log := x14\<rparr>) = co_inv c"
  "co_inv (c\<lparr>co_terminal_log := x15\<rparr>) = co_inv c"
  "co_inv (c\<lparr>co_complete_log := x16\<rparr>) = co_inv c"
  by (simp_all add: co_invs cbs_def pending_callbacks_def task_done_def)

lemma cbs_frame [simp]:
  "cbs t (c\<lparr>co_owned_tasks := x1\<rparr>) = cbs t c" "cbs t (c\<lparr>co_mandatory_tasks := x1\<rparr>) = cbs t c"
  "cbs t (c\<lparr>co_cancelling_tasks := x1\<rparr>) = cbs t c" "cbs t (c\<lparr>co_late_results := x2\<rparr>) = cbs t c"
  "cbs t (c\<lparr>co_next_task := n\<rparr>) = cbs t c"
  by (simp_all add: cbs_def pending_callbacks_def)

section \<open>Primitives\<close>

lemma cbs_add:
  assumes "loop_inv c"
  shows "cbs u (add_done_callback t cb c) = cbs u c @ (if u = t then [cb] else [])"
proof -
  have "filter (\<lambda>x. fst x = t) (co_callbacks c) = []" if "task_done t c"
    using assms that by (auto simp: loop_inv_def filter_empty_conv)
  then show ?thesis by (auto simp: add_done_callback_def cbs_def pending_callbacks_def)
qed

lemma add_callback_loop: "loop_inv c \<Longrightarrow> t < co_next_task c \<Longrightarrow> loop_inv (add_done_callback t cb c)"
  by (auto simp: loop_inv_def add_done_callback_def pending_callbacks_def task_done_def)

lemma add_callback_fields [simp]:
  "co_owned_tasks (add_done_callback t cb c) = co_owned_tasks c"
  "co_mandatory_tasks (add_done_callback t cb c) = co_mandatory_tasks c"
  "co_cancelling_tasks (add_done_callback t cb c) = co_cancelling_tasks c"
  "co_max_background_tasks (add_done_callback t cb c) = co_max_background_tasks c"
  "co_late_results (add_done_callback t cb c) = co_late_results c"
  "co_next_task (add_done_callback t cb c) = co_next_task c"
  "co_shutdown (add_done_callback t cb c) = co_shutdown c"
  "task_done u (add_done_callback t cb c) = task_done u c"
  by (simp_all add: add_done_callback_def task_done_def)

lemma add_callback_inv:
  assumes "co_inv c" and "t < co_next_task c" and "cb \<notin> {DropMandatory, DropCancelling}"
  shows "co_inv (add_done_callback t cb c)"
proof -
  have loop: "loop_inv c" using assms(1) by (simp add: co_inv_def)
  have "owned_inv (add_done_callback t cb c)"
    using assms by (auto simp: co_inv_def owned_inv_def cbs_add [OF loop] intro: guarded_append)
  then show ?thesis
    using assms add_callback_loop [OF loop assms(2)] by (simp add: co_inv_def budget_inv_def)
qed

lemma finite_owned: "loop_inv c \<Longrightarrow> finite (co_owned_tasks c)"
  by (auto simp: loop_inv_def intro: finite_subset [of _ "{..<co_next_task c}"])

lemma create_inv: "co_inv c \<Longrightarrow> co_inv (fst (create_task c))"
  by (auto simp: create_task_def co_invs pending_callbacks_def task_done_def cbs_def intro: less_SucI)

lemma fresh_cbs: "loop_inv c \<Longrightarrow> cbs (co_next_task c) c = []"
  by (fastforce simp: cbs_def loop_inv_def filter_empty_conv)

lemma retain_owned_loop:
  assumes "loop_inv c" and "owned_inv c" and "t < co_next_task c" and "\<not> task_done t c"
  shows "loop_inv (retain_owned t c)" "owned_inv (retain_owned t c)" "guarded (cbs t (retain_owned t c))"
proof -
  have loop: "loop_inv (c\<lparr>co_owned_tasks := insert t (co_owned_tasks c)\<rparr>)"
    using assms(1,3) by (auto simp: loop_inv_def pending_callbacks_def)
  then show "loop_inv (retain_owned t c)" unfolding retain_owned_def using assms(3) by (intro add_callback_loop) simp_all
  have "guarded (cbs t c) \<or> set (cbs t c) \<inter> {DropMandatory, DropCancelling} = {}"
    using assms(2,4) by (auto simp: owned_inv_def)
  then have guard: "guarded (cbs t c @ [DropOwned])"
    by (auto simp: guarded_def takeWhile_append dest: set_takeWhileD)
  then show "guarded (cbs t (retain_owned t c))" by (simp add: retain_owned_def cbs_add [OF loop])
  show "owned_inv (retain_owned t c)"
    using assms(2) guard by (auto simp: retain_owned_def owned_inv_def cbs_add [OF loop])
qed

lemma retain_owned_fields [simp]:
  "co_owned_tasks (retain_owned t c) = insert t (co_owned_tasks c)"
  "co_mandatory_tasks (retain_owned t c) = co_mandatory_tasks c"
  "co_cancelling_tasks (retain_owned t c) = co_cancelling_tasks c"
  "co_max_background_tasks (retain_owned t c) = co_max_background_tasks c"
  "co_late_results (retain_owned t c) = co_late_results c"
  "co_next_task (retain_owned t c) = co_next_task c"
  "co_shutdown (retain_owned t c) = co_shutdown c"
  "task_done u (retain_owned t c) = task_done u c"
  by (simp_all add: retain_owned_def)

lemma mark_inv:
  assumes "loop_inv c" "owned_inv c" and "t \<in> co_owned_tasks c"
  shows "co_inv (add_done_callback t DropMandatory (c\<lparr>co_mandatory_tasks := insert t (co_mandatory_tasks c)\<rparr>)) \<longleftrightarrow>
      budget_inv (c\<lparr>co_mandatory_tasks := insert t (co_mandatory_tasks c)\<rparr>)"
    and "co_inv (add_done_callback t DropCancelling (c\<lparr>co_cancelling_tasks := insert t (co_cancelling_tasks c)\<rparr>)) \<longleftrightarrow>
      budget_inv (c\<lparr>co_cancelling_tasks := insert t (co_cancelling_tasks c)\<rparr>)"
proof -
  let ?m = "c\<lparr>co_mandatory_tasks := insert t (co_mandatory_tasks c)\<rparr>" and ?k = "c\<lparr>co_cancelling_tasks := insert t (co_cancelling_tasks c)\<rparr>"
  have t: "t < co_next_task c" using assms(1,3) by (auto simp: loop_inv_def)
  have loop: "loop_inv ?m" "loop_inv ?k" using assms(1) t by (auto simp: loop_inv_def pending_callbacks_def)
  have "loop_inv (add_done_callback t DropMandatory ?m)" "loop_inv (add_done_callback t DropCancelling ?k)"
    using loop t by (simp_all add: add_callback_loop)
  moreover have "owned_inv (add_done_callback t DropMandatory ?m)" "owned_inv (add_done_callback t DropCancelling ?k)"
    using assms(2,3) by (auto simp: owned_inv_def cbs_add [OF loop(1)] cbs_add [OF loop(2)] intro: guarded_append)
  ultimately show "co_inv (add_done_callback t DropMandatory ?m) \<longleftrightarrow> budget_inv ?m"
    and "co_inv (add_done_callback t DropCancelling ?k) \<longleftrightarrow> budget_inv ?k"
    by (simp_all add: co_inv_def budget_inv_def)
qed

lemma adopt_inv:
  assumes "co_inv c" and "t < co_next_task c" and "\<not> task_done t c" and "\<not> force"
  shows "co_inv (fst (adopt_task t force c))"
proof -
  have parts: "loop_inv c" "owned_inv c" "budget_inv c" using assms(1) by (simp_all add: co_inv_def)
  have "budget_inv (retain_owned t c)" if "has_background_capacity c"
  proof -
    let ?S = "co_owned_tasks c - co_mandatory_tasks c"
    have "insert t (co_owned_tasks c) - co_mandatory_tasks c - co_cancelling_tasks c \<subseteq> insert t ?S" by auto
    then have "card (insert t (co_owned_tasks c) - co_mandatory_tasks c - co_cancelling_tasks c) \<le> card (insert t ?S)"
      using finite_owned [OF parts(1)] by (intro card_mono) auto
    also have "\<dots> \<le> Suc (card ?S)" using finite_owned [OF parts(1)] by (intro card_insert_le_m1 [of "Suc _", simplified]) auto
    finally show ?thesis using that parts(3) by (simp add: budget_inv_def has_background_capacity_def)
  qed
  then show ?thesis
    using assms parts retain_owned_loop(1,2) [OF parts(1,2) assms(2,3)] by (auto simp: adopt_task_def co_inv_def)
qed

lemma start_inv:
  assumes "co_inv c"
  shows "co_inv (fst (start_task m c))"
proof (cases "co_shutdown c \<or> (\<not> m \<and> \<not> has_background_capacity c)")
  case True
  then show ?thesis using assms by (simp add: start_task_def)
next
  case False
  let ?c = "fst (create_task c)" and ?t = "co_next_task c"
  have c: "co_inv ?c" using assms by (rule create_inv)
  then have loop: "loop_inv ?c" "owned_inv ?c" by (simp_all add: co_inv_def)
  have fresh: "?t < co_next_task ?c" "\<not> task_done ?t ?c" "?t \<notin> co_owned_tasks ?c"
    using assms by (auto simp: create_task_def task_done_def co_inv_def loop_inv_def)
  have cap: "has_background_capacity ?c = has_background_capacity c"
    by (simp add: has_background_capacity_def create_task_def)
  show ?thesis
  proof (cases m)
    case True
    let ?d = "retain_owned ?t ?c"
    have step: "fst (start_task m c) = add_done_callback ?t DropMandatory (?d\<lparr>co_mandatory_tasks := insert ?t (co_mandatory_tasks ?d)\<rparr>)"
      using False True fresh(3) by (simp add: start_task_def adopt_task_def create_task_def)
    have "insert ?t (co_owned_tasks ?c) - insert ?t (co_mandatory_tasks ?c) - co_cancelling_tasks ?c \<subseteq>
        co_owned_tasks ?c - co_mandatory_tasks ?c - co_cancelling_tasks ?c" by auto
    from card_mono [OF _ this] have "budget_inv (?d\<lparr>co_mandatory_tasks := insert ?t (co_mandatory_tasks ?d)\<rparr>)"
      using c finite_owned [OF loop(1)] by (auto simp: co_inv_def budget_inv_def)
    then show ?thesis
      unfolding step using mark_inv(1) [OF retain_owned_loop(1,2) [OF loop fresh(1,2)]] by simp
  next
    case nonmandatory: False
    have "fst (start_task m c) = fst (adopt_task ?t False ?c)"
      using False nonmandatory cap fresh(3) by (simp add: start_task_def adopt_task_def create_task_def has_background_capacity_def)
    then show ?thesis using adopt_inv [OF c fresh(1,2), of False] by simp
  qed
qed

lemma request_cancel_frame [simp]:
  "co_inv (request_cancel t c) = co_inv c" "task_done u (request_cancel t c) = task_done u c"
  "co_next_task (request_cancel t c) = co_next_task c" "co_mandatory_tasks (request_cancel t c) = co_mandatory_tasks c"
  by (simp_all add: request_cancel_def split: option.split one_stage.split)

lemma track_cancelling_inv:
  assumes "co_inv c" and "t < co_next_task c" and "\<not> task_done t c"
  shows "co_inv (track_cancelling_task t c)"
proof -
  let ?c = "fst (adopt_task t True c)"
  have parts: "loop_inv c" "owned_inv c" "budget_inv c" using assms(1) by (simp_all add: co_inv_def)
  have c: "loop_inv ?c" "owned_inv ?c" "t \<in> co_owned_tasks ?c"
    using parts retain_owned_loop(1,2) [OF parts(1,2) assms(2,3)] by (auto simp: adopt_task_def)
  have "co_owned_tasks ?c - co_mandatory_tasks ?c - insert t (co_cancelling_tasks ?c) \<subseteq>
      co_owned_tasks c - co_mandatory_tasks c - co_cancelling_tasks c" by (auto simp: adopt_task_def split: if_splits)
  from card_mono [OF _ this] have "budget_inv (?c\<lparr>co_cancelling_tasks := insert t (co_cancelling_tasks ?c)\<rparr>)"
    using parts finite_owned [OF parts(1)] by (auto simp: budget_inv_def adopt_task_def)
  then show ?thesis using mark_inv(2) [OF c] by (simp add: track_cancelling_task_def Let_def)
qed

lemma adopt_fields [simp]:
  "co_next_task (fst (adopt_task t f c)) = co_next_task c" "task_done u (fst (adopt_task t f c)) = task_done u c"
  "co_mandatory_tasks (fst (adopt_task t f c)) = co_mandatory_tasks c"
  by (simp_all add: adopt_task_def)

lemma track_callback_inv:
  assumes "co_inv c" and "t < co_next_task c" and "\<not> task_done t c"
  shows "co_inv (track_callback_task t c)"
proof (cases "snd (adopt_task t False c)")
  case True
  then have "track_callback_task t c = add_done_callback t CallbackDone
      ((fst (adopt_task t False c))\<lparr>co_callback_tasks := insert t (co_callback_tasks (fst (adopt_task t False c))),
         co_background_task_order := co_background_task_order (fst (adopt_task t False c)) @ [t]\<rparr>)"
    by (auto simp: track_callback_task_def split: prod.splits bool.splits)
  then show ?thesis using adopt_inv [OF assms, of False] assms(2) by (simp add: add_callback_inv)
next
  case False
  then have "track_callback_task t c = track_cancelling_task t (fst (adopt_task t False c))"
    by (auto simp: track_callback_task_def split: prod.splits bool.splits)
  then show ?thesis using adopt_inv [OF assms, of False] assms(2,3) by (simp add: track_cancelling_inv)
qed

lemma retain_inv:
  assumes "co_inv c" and "t < co_next_task c" and "\<not> task_done t c"
  shows "co_inv (fst (retain_late_task t item worker f c))"
proof (cases "co_shutdown c \<or> \<not> snd (adopt_task t False c)")
  case True
  then have "fst (retain_late_task t item worker f c) =
      track_cancelling_task t (if co_shutdown c then c else fst (adopt_task t False c))"
    by (auto simp: retain_late_task_def split: prod.splits bool.splits)
  then show ?thesis using adopt_inv [OF assms, of False] assms by (simp add: track_cancelling_inv)
next
  case False
  let ?d = "fst (adopt_task t False c)"
  have "fst (retain_late_task t item worker f c) = add_done_callback t (LateDone item worker f)
      (?d\<lparr>co_late_tasks := insert t (co_late_tasks ?d), co_background_task_order := co_background_task_order ?d @ [t],
          co_retained_log := co_retained_log ?d @ [item]\<rparr>)"
    using False by (auto simp: retain_late_task_def split: prod.splits bool.splits)
  then show ?thesis using adopt_inv [OF assms, of False] assms(2) by (simp add: add_callback_inv)
qed

lemma finish_inv:
  assumes "co_inv c"
  shows "co_inv (finish_task t r c)"
proof (cases "task_done t c \<or> co_next_task c \<le> t")
  case False
  then have fin: "task_done u (finish_task t r c) \<longleftrightarrow> task_done u c \<or> u = t" for u
    by (auto simp: finish_task_def task_done_def)
  have "filter (\<lambda>x. fst x = t) (co_ready c) = []"
    using assms False by (auto simp: co_inv_def loop_inv_def filter_empty_conv)
  then have cbs: "cbs u (finish_task t r c) = cbs u c" for u
    using False by (cases "u = t") (auto simp: cbs_def pending_callbacks_def finish_task_def filter_empty_conv case_prod_beta
        intro!: arg_cong [where f = "map snd"] filter_cong)
  have "loop_inv (finish_task t r c)"
    using assms False unfolding co_inv_def loop_inv_def fin
    by (auto simp: finish_task_def pending_callbacks_def)
  moreover have "owned_inv (finish_task t r c)"
    using assms False by (simp add: co_inv_def owned_inv_def cbs fin) (simp add: finish_task_def)
  moreover have "budget_inv (finish_task t r c)"
    using assms by (simp add: co_inv_def budget_inv_def finish_task_def)
  ultimately show ?thesis by (simp add: co_inv_def)
qed (use assms in \<open>auto simp: finish_task_def\<close>)

lemma guarded_Cons: "guarded (x # xs) \<Longrightarrow> x \<noteq> DropOwned \<Longrightarrow> guarded xs \<and> x \<notin> {DropMandatory, DropCancelling}"
  by (auto simp: guarded_def)

text \<open>Taking the first scheduled callback off the queue.\<close>

lemma pop_ready:
  assumes "co_inv c" and "co_ready c = (t, cb) # rest"
  defines "d \<equiv> c\<lparr>co_ready := rest\<rparr>"
  shows "loop_inv d" "task_done t d" "t < co_next_task d" "cbs t c = cb # cbs t d" "\<And>u. u \<noteq> t \<Longrightarrow> cbs u d = cbs u c"
    "cb \<noteq> DropOwned \<Longrightarrow> co_inv d" "cb \<in> {DropMandatory, DropCancelling} \<Longrightarrow> t \<notin> co_owned_tasks d"
    "co_inv (d\<lparr>co_owned_tasks := co_owned_tasks d - {t}\<rparr>)"
proof -
  show loop: "loop_inv d" using assms by (auto simp: co_inv_def loop_inv_def d_def pending_callbacks_def)
  show fin: "task_done t d" using assms by (auto simp: co_inv_def loop_inv_def d_def)
  show "t < co_next_task d" using loop fin by (simp add: loop_inv_def)
  show cbs: "cbs t c = cb # cbs t d" using assms(2) by (simp add: d_def cbs_def pending_callbacks_def)
  show other: "cbs u d = cbs u c" if "u \<noteq> t" for u using that assms(2) by (auto simp: d_def cbs_def pending_callbacks_def)
  have sets: "co_owned_tasks d = co_owned_tasks c" "co_mandatory_tasks d = co_mandatory_tasks c"
      "co_cancelling_tasks d = co_cancelling_tasks c" "task_done u d = task_done u c" for u
    by (simp_all add: d_def)
  have owned: "owned_inv c" and budget: "budget_inv c" using assms(1) by (simp_all add: co_inv_def)
  show "t \<notin> co_owned_tasks d" if "cb \<in> {DropMandatory, DropCancelling}"
  proof
    assume "t \<in> co_owned_tasks d"
    then have "guarded (cb # cbs t d)" using owned cbs by (auto simp: owned_inv_def sets)
    from guarded_Cons [OF this] that show False by auto
  qed
  have budget': "budget_inv d" using budget by (simp add: budget_inv_def d_def)
  have rest: "\<forall>u. u \<noteq> t \<longrightarrow> (u \<in> co_owned_tasks d \<longrightarrow> guarded (cbs u d)) \<and>
      (u \<notin> co_owned_tasks d \<and> \<not> task_done u d \<longrightarrow> (u \<notin> co_mandatory_tasks d \<and> u \<notin> co_cancelling_tasks d) \<and>
        (guarded (cbs u d) \<or> set (cbs u d) \<inter> {DropMandatory, DropCancelling} = {}))"
    using owned other by (auto simp: owned_inv_def sets)
  show "co_inv d" if "cb \<noteq> DropOwned"
  proof -
    have "guarded (cb # cbs t d)" if "t \<in> co_owned_tasks d" using owned cbs that by (auto simp: owned_inv_def sets)
    then have "t \<in> co_owned_tasks d \<Longrightarrow> guarded (cbs t d)" using that guarded_Cons by blast
    then have "owned_inv d" using rest fin unfolding owned_inv_def by metis
    then show ?thesis using loop budget' by (simp add: co_inv_def)
  qed
  have "card (co_owned_tasks d - {t} - co_mandatory_tasks d - co_cancelling_tasks d) \<le>
      card (co_owned_tasks d - co_mandatory_tasks d - co_cancelling_tasks d)"
    using finite_owned [OF loop] by (intro card_mono) auto
  then have "budget_inv (d\<lparr>co_owned_tasks := co_owned_tasks d - {t}\<rparr>)" using budget' by (auto simp: budget_inv_def)
  moreover have "owned_inv (d\<lparr>co_owned_tasks := co_owned_tasks d - {t}\<rparr>)"
    using rest fin by (auto simp: owned_inv_def)
  moreover have "loop_inv (d\<lparr>co_owned_tasks := co_owned_tasks d - {t}\<rparr>)" using loop by (auto simp: loop_inv_def pending_callbacks_def)
  ultimately show "co_inv (d\<lparr>co_owned_tasks := co_owned_tasks d - {t}\<rparr>)" by (simp add: co_inv_def)
qed

text \<open>A mark taken off a task that is not owned changes nothing in the budget.\<close>

lemma unmark_inv:
  assumes "co_inv c" and "t \<notin> co_owned_tasks c"
  shows "co_inv (c\<lparr>co_mandatory_tasks := co_mandatory_tasks c - {t}\<rparr>)" "co_inv (c\<lparr>co_cancelling_tasks := co_cancelling_tasks c - {t}\<rparr>)"
proof -
  have "co_owned_tasks c - (co_mandatory_tasks c - {t}) - co_cancelling_tasks c = co_owned_tasks c - co_mandatory_tasks c - co_cancelling_tasks c"
    "co_owned_tasks c - co_mandatory_tasks c - (co_cancelling_tasks c - {t}) = co_owned_tasks c - co_mandatory_tasks c - co_cancelling_tasks c"
    using assms(2) by auto
  then show "co_inv (c\<lparr>co_mandatory_tasks := co_mandatory_tasks c - {t}\<rparr>)" "co_inv (c\<lparr>co_cancelling_tasks := co_cancelling_tasks c - {t}\<rparr>)"
    using assms(1) by (auto simp: co_inv_def loop_inv_def owned_inv_def budget_inv_def pending_callbacks_def)
qed

lemma park_inv:
  "co_inv c \<Longrightarrow> co_inv (c\<lparr>co_late_results := deque_append (co_max_background_tasks c) x (co_late_results c)\<rparr>)"
  "co_inv c \<Longrightarrow> co_inv (c\<lparr>co_late_results := []\<rparr>)"
  by (auto simp: co_invs pending_callbacks_def length_deque_append)

lemma started_task:
  "start_task m c = (d, Some u) \<Longrightarrow> co_inv c \<Longrightarrow>
    u = co_next_task c \<and> u < co_next_task d \<and> \<not> task_done u d \<and> u \<in> co_owned_tasks d \<and> co_next_task d = Suc (co_next_task c) \<and>
    (\<forall>v. task_done v d = task_done v c) \<and> co_mandatory_tasks d = (if m then insert u (co_mandatory_tasks c) else co_mandatory_tasks c)"
  by (auto simp: start_task_def create_task_def adopt_task_def co_inv_def loop_inv_def task_done_def add_done_callback_def
      retain_owned_def Let_def split: if_splits)

lemma late_completed_inv:
  assumes "co_inv c"
  shows "co_inv (late_completed t r item worker f c)"
proof -
  define d where "d = c\<lparr>co_terminal_log := co_terminal_log c @ [(item, terminal_kind_of r)], co_late_tasks := co_late_tasks c - {t},
      co_background_task_order := remove1 t (co_background_task_order c)\<rparr>"
  let ?late = "late_result_of item worker r"
  have d: "co_inv d" using assms by (simp add: d_def)
  have step: "late_completed t r item worker f c = (if co_shutdown d then d
      else case f of NoCallback \<Rightarrow> d\<lparr>co_late_results := deque_append (co_max_background_tasks d) ?late (co_late_results d)\<rparr>
        | SyncCallback \<Rightarrow> d\<lparr>co_complete_log := co_complete_log d @ [?late]\<rparr>
        | AsyncCallback \<Rightarrow> (case start_task True (d\<lparr>co_complete_log := co_complete_log d @ [?late]\<rparr>) of
             (c, None) \<Rightarrow> c | (c, Some u) \<Rightarrow> track_callback_task u c))"
    by (simp add: late_completed_def d_def Let_def split: on_complete.split)
  show ?thesis
  proof (cases f)
    case AsyncCallback
    let ?e = "d\<lparr>co_complete_log := co_complete_log d @ [?late]\<rparr>"
    obtain e v where e: "start_task True ?e = (e, v)" by (cases "start_task True ?e")
    have "co_inv ?e" using d by simp
    with start_inv [OF this, of True] e have "co_inv e" by simp
    moreover have "co_inv (track_callback_task u e)" if "v = Some u" for u
    proof -
      from started_task [of True ?e e u] e that \<open>co_inv ?e\<close> have "u < co_next_task e" "\<not> task_done u e" by blast+
      with calculation show ?thesis by (rule track_callback_inv)
    qed
    ultimately show ?thesis using d unfolding step unfolding AsyncCallback by (simp add: e split: option.split)
  qed (use d step in \<open>simp_all add: park_inv\<close>)
qed

lemma run_ready_inv:
  assumes "co_inv c"
  shows "co_inv (run_ready c)"
proof (cases "co_ready c")
  case (Cons x rest)
  obtain t cb where x: "x = (t, cb)" by (cases x)
  note pop = pop_ready [OF assms Cons [unfolded x]]
  let ?d = "c\<lparr>co_ready := rest\<rparr>"
  obtain r where r: "map_of (co_finished ?d) t = Some r" using pop(2) by (auto simp: task_done_def)
  have step: "run_ready c = run_done_callback t r cb ?d"
    using Cons x r by (simp add: run_ready_def)
  show ?thesis
  proof (cases cb)
    case DropOwned
    then show ?thesis using pop(8) by (simp add: step run_done_callback_def)
  next
    case DropMandatory
    then show ?thesis using unmark_inv(1) [OF pop(6,7)] by (simp add: step run_done_callback_def)
  next
    case DropCancelling
    then show ?thesis using unmark_inv(2) [OF pop(6,7)] by (simp add: step run_done_callback_def)
  next
    case (LateDone item worker f)
    then show ?thesis using late_completed_inv [OF pop(6)] by (simp add: step run_done_callback_def)
  qed (use pop(6) in \<open>simp_all add: step run_done_callback_def\<close>)
qed (use assms in \<open>simp add: run_ready_def\<close>)

section \<open>Submissions\<close>

lemma admit_items_inv: "co_inv c \<Longrightarrow> co_inv (fst (admit_items work i items c))"
proof (induction work i items c rule: admit_items.induct)
  case (2 work i worker "text" rest c)
  obtain d v where d: "start_task False c = (d, v)" by (cases "start_task False c")
  have inv: "co_inv d" using start_inv [OF 2(3), of False] d by simp
  show ?case
  proof (cases v)
    case None
    then show ?thesis using 2(1) [OF d [symmetric] None inv] d by (simp add: split_def Let_def)
  next
    case (Some t)
    have t: "t < co_next_task d" using started_task [of False c d t] d Some 2(3) by blast
    define e where "e = add_done_callback t (CleanupWork (work ! i)) (add_done_callback t DropSubmit
      (d\<lparr>co_ones := AList.update t (OneNew worker text) (co_ones d), co_work_tasks := AList.update (work ! i) t (co_work_tasks d),
         co_submit_tasks := insert t (co_submit_tasks d)\<rparr>))"
    have "co_inv e" using inv t unfolding e_def by (intro add_callback_inv) simp_all
    then show ?thesis
      using 2(2) [OF d [symmetric] Some refl refl refl] d Some by (simp add: split_def Let_def e_def)
  qed
qed simp

lemma admit_items_split:
  "admit_items work i ((worker, text) # rest) c =
     (case start_task False c of
        (d, None) \<Rightarrow> (case admit_items work (i + 1) rest d of (c, indexed, failures) \<Rightarrow> (c, indexed,
           \<lparr>wf_work_item_id = work ! i, wf_worker_id = worker, wf_error_type = ''CapacityError'',
            wf_error_message = ''worker execution capacity is exhausted'', wf_failure_kind = CapacityRejected\<rparr> # failures))
      | (d, Some t) \<Rightarrow> (case admit_items work (i + 1) rest
            (add_done_callback t (CleanupWork (work ! i)) (add_done_callback t DropSubmit
              (d\<lparr>co_ones := AList.update t (OneNew worker text) (co_ones d),
                 co_work_tasks := AList.update (work ! i) t (co_work_tasks d),
                 co_submit_tasks := insert t (co_submit_tasks d)\<rparr>))) of
           (c, indexed, failures) \<Rightarrow> (c, (i, t) # indexed, failures)))"
  by (simp add: Let_def split: prod.split option.split)

lemma submit_begin_shape:
  assumes "submit_begin cur turn items ids c = Inr (c', sb)"
  shows "\<not> co_shutdown c" "sb_task sb = cur" "length (sb_work sb) = length (sb_selected sb)"
    "sb_selected sb = take (co_max_work_items_per_turn c) items"
    "admit_items (sb_work sb) 0 (sb_selected sb) (c\<lparr>co_submission_tasks := insert cur (co_submission_tasks c)\<rparr>) =
       (c', sb_indexed_tasks sb, sb_capacity_failures sb)"
  using assms by (auto simp: submit_begin_def ensure_open_def Let_def split: if_splits prod.splits option.splits)

lemma submit_begin_inv:
  assumes "co_inv c" and "submit_begin cur turn items ids c = Inr (c', sb)"
  shows "co_inv c'"
  using admit_items_inv [of "c\<lparr>co_submission_tasks := insert cur (co_submission_tasks c)\<rparr>" "sb_work sb" 0 "sb_selected sb"]
    submit_begin_shape(5) [OF assms(2)] assms(1) by simp

lemma track_cancelling_fields [simp]:
  "co_next_task (track_cancelling_task t c) = co_next_task c" "task_done u (track_cancelling_task t c) = task_done u c"
  by (simp_all add: track_cancelling_task_def Let_def)

lemma retain_fields [simp]:
  "co_next_task (fst (retain_late_task t item worker f c)) = co_next_task c"
  "task_done u (fst (retain_late_task t item worker f c)) = task_done u c"
  by (simp_all add: retain_late_task_def adopt_task_def)

lemma retain_items_inv:
  assumes "co_inv c" and "\<And>i t. (i, t) \<in> set xs \<Longrightarrow> t < co_next_task c \<and> \<not> task_done t c"
  shows "co_inv (fst (retain_items sb f xs c))"
  using assms
proof (induction xs arbitrary: c)
  case (Cons x xs)
  obtain i t where x: "x = (i, t)" by (cases x)
  let ?r = "retain_late_task t (sb_work sb ! i) (fst (sb_selected sb ! i)) f c"
  have "co_inv (fst ?r)" using Cons.prems x by (intro retain_inv) auto
  then have "co_inv (fst (retain_items sb f xs (fst ?r)))" using Cons.prems(2) by (intro Cons.IH) auto
  then show ?case by (simp add: x split_def Let_def)
qed simp

lemma submit_end_inv:
  assumes "co_inv c" and "list_all (\<lambda>(i, t). t < co_next_task c \<and> t \<notin> co_mandatory_tasks c) (sb_indexed_tasks sb)"
  shows "co_inv (fst (submit_end sb f c))"
proof -
  let ?xs = "filter (\<lambda>(i, t). \<not> task_done t c) (sb_indexed_tasks sb)"
  have "co_inv (fst (retain_items sb f ?xs c))"
    using assms by (intro retain_items_inv) (auto simp: list_all_iff)
  then show ?thesis by (simp add: submit_end_def split_def Let_def)
qed

lemma fold_cancel_inv: "co_inv c \<Longrightarrow> co_inv (fold (\<lambda>x. request_cancel (g x)) xs c)"
  by (induction xs arbitrary: c) simp_all

lemma fold_cancel_pairs_inv: "co_inv c \<Longrightarrow> co_inv (fold (\<lambda>(i, t). request_cancel t) xs c)"
  by (induction xs arbitrary: c) auto

lemma start_provider_inv:
  assumes "co_inv c"
  shows "co_inv (start_provider t worker c)"
  using create_inv [OF assms] by (simp add: start_provider_def split_def Let_def)

lemma run_one_inv: "co_inv c \<Longrightarrow> co_inv (run_one t c)"
  by (auto simp: run_one_def start_provider_inv finish_inv split: option.split one_stage.split)

lemma cancel_work_inv: "co_inv c \<Longrightarrow> co_inv (fst (cancel_work item c))"
proof -
  have "co_inv c \<Longrightarrow> co_inv (fold (\<lambda>i c. case map_of (co_work_tasks c) i of None \<Rightarrow> c | Some t \<Rightarrow> request_cancel t c) xs c)" for xs
    by (induction xs arbitrary: c) (simp_all split: option.split)
  then show "co_inv c \<Longrightarrow> co_inv (fst (cancel_work item c))" by (simp add: cancel_work_def Let_def)
qed

lemma shutdown_end_inv:
  assumes "co_inv c"
  shows "co_inv (shutdown_end c)"
proof -
  have "guarded (cbs t c) \<or> set (cbs t c) \<inter> {DropMandatory, DropCancelling} = {}" if "\<not> task_done t c" for t
    using assms that by (auto simp: co_inv_def owned_inv_def)
  moreover have "cbs t (shutdown_end c) = cbs t c" "task_done t (shutdown_end c) = task_done t c" for t
    by (simp_all add: shutdown_end_def cbs_def pending_callbacks_def task_done_def)
  ultimately have "owned_inv (shutdown_end c)" by (simp add: owned_inv_def) (simp add: shutdown_end_def)
  moreover have "loop_inv (shutdown_end c)" "budget_inv (shutdown_end c)"
    using assms by (auto simp: co_inv_def loop_inv_def budget_inv_def shutdown_end_def pending_callbacks_def task_done_def)
  ultimately show ?thesis by (simp add: co_inv_def)
qed

lemma co_step_inv: "co_inv c \<Longrightarrow> co_ok e c \<Longrightarrow> co_inv (co_step e c)"
proof (cases e)
  case (CoSubmit cur turn items ids)
  assume "co_inv c"
  then show ?thesis using CoSubmit submit_begin_inv [of c cur turn items ids] by (auto split: sum.split)
next
  case (CoSubmitCancelled sb)
  assume "co_inv c"
  then show ?thesis using CoSubmitCancelled by (simp add: submit_aborted_def submit_cancelled_def fold_cancel_pairs_inv)
next
  case (CoShutdownBegin cur)
  assume "co_inv c"
  then show ?thesis using CoShutdownBegin fold_cancel_inv [where g = "\<lambda>x. x"] by (simp add: shutdown_begin_def Let_def park_inv)
next
  case (CoPending now session)
  assume "co_inv c"
  then show ?thesis using CoPending by (simp add: pending_def split: option.split)
qed (simp_all add: start_inv submit_end_inv run_one_inv finish_inv run_ready_inv retain_inv cancel_work_inv shutdown_end_inv
  drain_late_results_def park_inv)

interpretation coordinator: guarded_machine co_step co_ok co_inv
  by unfold_locales (rule co_step_inv)

lemma init_co_inv: "init_coordinator m pt n = Inr c \<Longrightarrow> co_inv c"
  by (auto simp: init_coordinator_def co_invs pending_callbacks_def task_done_def cbs_def Let_def split: if_splits)

section \<open>Late results\<close>

fun is_late :: "nat \<times> done_callback \<Rightarrow> bool" where
  "is_late (t, LateDone item worker f) \<longleftrightarrow> True"
| "is_late _ \<longleftrightarrow> False"

fun late_item :: "nat \<times> done_callback \<Rightarrow> string" where
  "late_item (t, LateDone item worker f) = item"
| "late_item _ = []"

fun has_callback :: "nat \<times> done_callback \<Rightarrow> bool" where
  "has_callback (t, LateDone item worker f) \<longleftrightarrow> f \<noteq> NoCallback"
| "has_callback _ \<longleftrightarrow> True"

text \<open>The part of the state the delivery of late results is about.\<close>

definition late_view ::
    "coordinator \<Rightarrow> (nat \<times> done_callback) multiset \<times> string list \<times> (string \<times> terminal_kind) list \<times> late_result list \<times> bool" where
  "late_view c = (filter_mset is_late (mset (pending_callbacks c)), co_retained_log c, co_terminal_log c, co_complete_log c, co_shutdown c)"

fun late_ok :: "(nat \<times> done_callback) multiset \<times> string list \<times> (string \<times> terminal_kind) list \<times> late_result list \<times> bool \<Rightarrow> bool" where
  "late_ok (waiting, retained, reported, completed, shut) \<longleftrightarrow>
     image_mset late_item waiting + mset (map fst reported) = mset retained \<and>
     (\<forall>x \<in># waiting. has_callback x) \<and>
     (\<not> shut \<longrightarrow> map (\<lambda>l. (lr_work_item_id l, lr_terminal_kind l)) completed = map (\<lambda>(i, k). (i, Some k)) reported)"

definition late_inv :: "coordinator \<Rightarrow> bool" where
  "late_inv c \<longleftrightarrow> late_ok (late_view c)"

lemma view_add [simp]: "\<not> is_late (t, cb) \<Longrightarrow> late_view (add_done_callback t cb c) = late_view c"
  by (auto simp: late_view_def add_done_callback_def pending_callbacks_def)

lemma view_frame [simp]:
  "late_view (c\<lparr>co_owned_tasks := x1\<rparr>) = late_view c" "late_view (c\<lparr>co_mandatory_tasks := x1\<rparr>) = late_view c"
  "late_view (c\<lparr>co_cancelling_tasks := x1\<rparr>) = late_view c" "late_view (c\<lparr>co_late_results := x2\<rparr>) = late_view c"
  "late_view (c\<lparr>co_next_task := x3\<rparr>) = late_view c" "late_view (c\<lparr>co_late_tasks := x1\<rparr>) = late_view c"
  "late_view (c\<lparr>co_callback_tasks := x1\<rparr>) = late_view c" "late_view (c\<lparr>co_background_task_order := x4\<rparr>) = late_view c"
  "late_view (c\<lparr>co_submission_tasks := x1\<rparr>) = late_view c" "late_view (c\<lparr>co_submit_tasks := x1\<rparr>) = late_view c"
  "late_view (c\<lparr>co_provider_tasks := x1\<rparr>) = late_view c" "late_view (c\<lparr>co_work_tasks := x5\<rparr>) = late_view c"
  "late_view (c\<lparr>co_tails := x5\<rparr>) = late_view c" "late_view (c\<lparr>co_ones := x6\<rparr>) = late_view c"
  "late_view (c\<lparr>co_cancel_requested := x1\<rparr>) = late_view c" "late_view (c\<lparr>co_pending := x7\<rparr>) = late_view c"
  by (simp_all add: late_view_def pending_callbacks_def)

lemma view_adopt [simp]: "late_view (fst (adopt_task t f c)) = late_view c"
  by (simp add: adopt_task_def retain_owned_def)

lemma view_start [simp]: "late_view (fst (start_task m c)) = late_view c"
  by (simp add: start_task_def create_task_def Let_def)

lemma view_cancel [simp]: "late_view (request_cancel t c) = late_view c"
  by (simp add: request_cancel_def split: option.split one_stage.split)

lemma view_track_cancelling [simp]: "late_view (track_cancelling_task t c) = late_view c"
  by (simp add: track_cancelling_task_def Let_def)

lemma view_track_callback [simp]: "late_view (track_callback_task t c) = late_view c"
proof -
  have "late_view (fst (adopt_task t False c)) = late_view c" by (rule view_adopt)
  then show ?thesis by (cases "adopt_task t False c") (auto simp: track_callback_task_def split: bool.split)
qed

lemma view_finish [simp]: "late_view (finish_task t r c) = late_view c"
proof -
  have "filter_mset is_late (filter_mset P M) + filter_mset is_late (filter_mset (\<lambda>x. \<not> P x) M) = filter_mset is_late M" for P M
    by (metis filter_union_mset multiset_partition)
  from this [of "\<lambda>x. fst x = t" "mset (co_callbacks c)"] show ?thesis
    by (auto simp: finish_task_def late_view_def pending_callbacks_def case_prod_beta union_assoc)
qed

lemma view_provider [simp]: "late_view (start_provider t worker c) = late_view c"
  by (simp add: start_provider_def create_task_def Let_def)

lemma view_run_one [simp]: "late_view (run_one t c) = late_view c"
  by (simp add: run_one_def split: option.split one_stage.split)

lemma view_admit [simp]: "late_view (fst (admit_items work i items c)) = late_view c"
proof (induction items arbitrary: i c)
  case (Cons x items)
  obtain worker tx where x: "x = (worker, tx)" by (cases x)
  obtain d v where d: "start_task False c = (d, v)" by (cases "start_task False c")
  have "late_view d = late_view c" using view_start [of False c] d by simp
  then show ?case using Cons by (cases v) (simp_all add: x d split_def Let_def)
qed simp

lemma view_fold:
  assumes "\<And>x c. late_view (g x c) = late_view c"
  shows "late_view (fold g xs c) = late_view c"
  using assms by (induction xs arbitrary: c) simp_all

lemma view_submit_begin: "submit_begin cur turn items ids c = Inr (c', sb) \<Longrightarrow> late_view c' = late_view c"
  using submit_begin_shape(5) [of cur turn items ids c c' sb]
    view_admit [of "sb_work sb" 0 "sb_selected sb" "c\<lparr>co_submission_tasks := insert cur (co_submission_tasks c)\<rparr>"] by simp

text \<open>Retention, and the completion that ends it.\<close>

lemma view_late:
  "late_view (add_done_callback t (LateDone item worker f) (c\<lparr>co_retained_log := co_retained_log c @ [item]\<rparr>)) =
     (case late_view c of (w, r, p, q, s) \<Rightarrow> (add_mset (t, LateDone item worker f) w, r @ [item], p, q, s))"
  by (auto simp: late_view_def add_done_callback_def pending_callbacks_def)

lemma late_inv_retain:
  assumes "late_inv c" and "f \<noteq> NoCallback"
  shows "late_inv (fst (retain_late_task t item worker f c))"
proof -
  obtain d v where d: "adopt_task t False c = (d, v)" by (cases "adopt_task t False c")
  have view: "late_view d = late_view c" using view_adopt [of t False c] d by simp
  obtain w r p q s where c: "late_view c = (w, r, p, q, s)" by (cases "late_view c")
  have "late_inv (add_done_callback t (LateDone item worker f) (d\<lparr>co_late_tasks := x, co_background_task_order := y,
      co_retained_log := co_retained_log d @ [item]\<rparr>))" for x y
    using view_late [of t item worker f "d\<lparr>co_late_tasks := x, co_background_task_order := y\<rparr>"] assms view c
    by (simp add: late_inv_def)
  then show ?thesis
    using assms view d by (simp add: retain_late_task_def late_inv_def split: bool.split)
qed

lemma late_inv_retain_items:
  assumes "late_inv c" and "f \<noteq> NoCallback"
  shows "late_inv (fst (retain_items sb f xs c))"
  using assms(1)
proof (induction xs arbitrary: c)
  case (Cons x xs)
  obtain i t where x: "x = (i, t)" by (cases x)
  show ?case
    using Cons.IH [OF late_inv_retain [OF Cons.prems assms(2)]] by (simp add: x split_def Let_def)
qed simp

lemma late_inv_run_ready:
  assumes "co_inv c" and "late_inv c"
  shows "late_inv (run_ready c)"
proof (cases "co_ready c")
  case (Cons x rest)
  obtain t cb where x: "x = (t, cb)" by (cases x)
  let ?d = "c\<lparr>co_ready := rest\<rparr>"
  obtain r where r: "map_of (co_finished ?d) t = Some r" using pop_ready(2) [OF assms(1) Cons [unfolded x]] by (auto simp: task_done_def)
  have step: "run_ready c = run_done_callback t r cb ?d" using Cons x r by (simp add: run_ready_def)
  show ?thesis
  proof (cases "is_late (t, cb)")
    case False
    then have "late_view ?d = late_view c" using Cons x by (simp add: late_view_def pending_callbacks_def)
    then show ?thesis using False assms(2) by (cases cb) (simp_all add: step run_done_callback_def late_inv_def)
  next
    case True
    then obtain item worker f where cb: "cb = LateDone item worker f" by (cases cb) auto
    have f: "f \<noteq> NoCallback" using assms(2) Cons x cb by (auto simp: late_inv_def late_view_def pending_callbacks_def)
    define e where "e = ?d\<lparr>co_terminal_log := co_terminal_log c @ [(item, terminal_kind_of r)], co_late_tasks := co_late_tasks c - {t},
      co_background_task_order := remove1 t (co_background_task_order c)\<rparr>"
    let ?late = "late_result_of item worker r"
    define g where "g = e\<lparr>co_complete_log := co_complete_log c @ [?late]\<rparr>"
    have view: "late_view (late_completed t r item worker f ?d) = (if co_shutdown c then late_view e else late_view g)"
    proof (cases f)
      case AsyncCallback
      obtain h v where h: "start_task True g = (h, v)" by (cases "start_task True g")
      then have "late_view h = late_view g" using view_start [of True g] by simp
      then show ?thesis using h by (cases v) (simp_all add: AsyncCallback late_completed_def Let_def e_def g_def)
    qed (use f in \<open>simp_all add: late_completed_def Let_def e_def g_def\<close>)
    have "late_ok (if co_shutdown c then late_view e else late_view g)"
      using assms(2) Cons x cb
      by (auto simp: late_inv_def late_view_def e_def g_def pending_callbacks_def late_result_of_def)
    then show ?thesis using view by (simp add: step run_done_callback_def cb late_inv_def)
  qed
qed (use assms in \<open>simp add: run_ready_def\<close>)

text \<open>The callers always pass a completion callback.\<close>

fun uses_callback :: "co_op \<Rightarrow> bool" where
  "uses_callback (CoRetain t item worker f) \<longleftrightarrow> f \<noteq> NoCallback"
| "uses_callback (CoSubmitEnd sb f) \<longleftrightarrow> f \<noteq> NoCallback"
| "uses_callback _ \<longleftrightarrow> True"

lemma late_inv_shutdown_begin: "late_inv c \<Longrightarrow> late_inv (shutdown_begin cur c)"
  using view_fold [of request_cancel] by (simp add: shutdown_begin_def late_inv_def Let_def)
    (simp add: late_view_def pending_callbacks_def)

lemma late_step_inv:
  assumes "co_inv c \<and> late_inv c" and "co_ok e c \<and> uses_callback e"
  shows "co_inv (co_step e c) \<and> late_inv (co_step e c)"
proof
  show "co_inv (co_step e c)" using assms by (simp add: co_step_inv)
  show "late_inv (co_step e c)"
  proof (cases e)
    case (CoSubmit cur turn items ids)
    then show ?thesis using assms view_submit_begin [of cur turn items ids c] by (auto simp: late_inv_def split: sum.split)
  next
    case (CoSubmitEnd sb f)
    have "late_inv (fst (retain_items sb f xs c))" for xs using assms CoSubmitEnd by (intro late_inv_retain_items) simp_all
    then show ?thesis using CoSubmitEnd by (simp add: submit_end_def split_def Let_def) (simp add: late_inv_def)
  next
    case (CoSubmitCancelled sb)
    have "late_view (submit_cancelled sb c) = late_view c" unfolding submit_cancelled_def by (rule view_fold) auto
    then show ?thesis using assms CoSubmitCancelled by (simp add: submit_aborted_def late_inv_def)
  next
    case (CoCancel item)
    have "late_view (fold (\<lambda>i c. case map_of (co_work_tasks c) i of None \<Rightarrow> c | Some t \<Rightarrow> request_cancel t c) xs c) = late_view c" for xs
      by (rule view_fold) (simp split: option.split)
    then show ?thesis using assms CoCancel by (simp add: cancel_work_def late_inv_def Let_def)
  next
    case (CoPending now session)
    then show ?thesis using assms by (simp add: pending_def late_inv_def split: option.split)
  next
    case CoShutdownEnd
    then show ?thesis using assms by (simp add: late_inv_def) (simp add: shutdown_end_def late_view_def pending_callbacks_def)
  qed (use assms in \<open>simp_all add: late_inv_run_ready late_inv_retain late_inv_shutdown_begin drain_late_results_def,
      simp_all add: late_inv_def\<close>)
qed

interpretation deliveries: guarded_machine co_step "\<lambda>e c. co_ok e c \<and> uses_callback e" "\<lambda>c. co_inv c \<and> late_inv c"
  by unfold_locales (rule late_step_inv)

lemma init_late_inv: "init_coordinator m pt n = Inr c \<Longrightarrow> late_inv c"
  by (auto simp: init_coordinator_def late_inv_def late_view_def pending_callbacks_def Let_def split: if_splits)

section \<open>Accounting of a submission\<close>

lemma admit_items_ids:
  "admit_items work i items c = (c', indexed, failures) \<Longrightarrow>
     mset (map (\<lambda>(j, t). work ! j) indexed) + mset (map wf_work_item_id failures) = mset (map ((!) work) [i..<i + length items])"
proof (induction items arbitrary: i c indexed failures)
  case (Cons x items)
  obtain worker tx where x: "x = (worker, tx)" by (cases x)
  obtain d v where d: "start_task False c = (d, v)" by (cases "start_task False c")
  have upt: "map ((!) work) [i..<i + length (x # items)] = work ! i # map ((!) work) [Suc i..<Suc i + length items]"
    by (simp add: upt_rec)
  show ?case
  proof (cases v)
    case None
    then obtain fs where "admit_items work (Suc i) items d = (c', indexed, fs)" "map wf_work_item_id failures = work ! i # map wf_work_item_id fs"
      using Cons.prems x d by (auto simp: Let_def split: prod.splits)
    then show ?thesis using Cons.IH [of "Suc i" d indexed fs] unfolding upt by simp
  next
    case (Some t)
    then obtain e rest where "admit_items work (Suc i) items e = (c', rest, failures)" "indexed = (i, t) # rest"
      using Cons.prems x d by (auto simp: Let_def split: prod.splits)
    then show ?thesis using Cons.IH [of "Suc i" e rest failures] unfolding upt by simp
  qed
qed simp

lemma retain_items_ids:
  "retain_items sb f xs c = (c', kept, failures) \<Longrightarrow>
     mset kept + mset (map wf_work_item_id failures) = mset (map (\<lambda>(i, t). sb_work sb ! i) xs)"
proof (induction xs arbitrary: c kept failures)
  case (Cons x xs)
  obtain i t where x: "x = (i, t)" by (cases x)
  show ?case
    using Cons.prems Cons.IH by (fastforce simp: x Let_def split: prod.splits if_splits)
qed simp

definition completed_items :: "submission \<Rightarrow> coordinator \<Rightarrow> string list" where
  "completed_items sb c = map (\<lambda>(i, t). sb_work sb ! i)
     (filter (\<lambda>(i, t). case map_of (co_finished c) t of Some (TaskCompleted _) \<Rightarrow> True | _ \<Rightarrow> False) (sb_indexed_tasks sb))"

lemma classified:
  "mset (completed_items sb c) + mset (map wf_work_item_id (execution_failures sb c)) +
     mset (map (\<lambda>(i, t). sb_work sb ! i) (filter (\<lambda>(i, t). \<not> task_done t c) (sb_indexed_tasks sb))) =
   mset (map (\<lambda>(i, t). sb_work sb ! i) (sb_indexed_tasks sb))"
proof -
  have "mset (map (\<lambda>(i, t). sb_work sb ! i) (filter (\<lambda>(i, t). case map_of (co_finished c) t of Some (TaskCompleted _) \<Rightarrow> True | _ \<Rightarrow> False) xs)) +
      mset (map wf_work_item_id (concat (map (\<lambda>(i, t).
       case map_of (co_finished c) t of
         Some TaskWasCancelled \<Rightarrow>
           [\<lparr>wf_work_item_id = sb_work sb ! i, wf_worker_id = fst (sb_selected sb ! i), wf_error_type = ''CancelledError'',
             wf_error_message = ''worker execution was cancelled'', wf_failure_kind = CancelledKind\<rparr>]
       | Some (TaskFailed name message) \<Rightarrow>
           [\<lparr>wf_work_item_id = sb_work sb ! i, wf_worker_id = fst (sb_selected sb ! i), wf_error_type = name,
             wf_error_message = ''worker execution failed'', wf_failure_kind = FailedKind\<rparr>]
       | _ \<Rightarrow> []) xs))) +
      mset (map (\<lambda>(i, t). sb_work sb ! i) (filter (\<lambda>(i, t). \<not> task_done t c) xs)) =
      mset (map (\<lambda>(i, t). sb_work sb ! i) xs)" for xs
  proof (induction xs)
    case (Cons x xs)
    obtain i t where x: "x = (i, t)" by (cases x)
    consider "map_of (co_finished c) t = None" | v where "map_of (co_finished c) t = Some (TaskCompleted v)"
      | n m where "map_of (co_finished c) t = Some (TaskFailed n m)" | "map_of (co_finished c) t = Some TaskWasCancelled"
      by (metis not_None_eq task_result.exhaust)
    then show ?case using Cons by cases (simp_all add: x task_done_def)
  qed simp
  then show ?thesis by (simp add: completed_items_def execution_failures_def)
qed

lemma length_results: "length (submit_results sb c) = length (completed_items sb c)"
proof -
  have "length (concat (map (\<lambda>(i, t). case map_of (co_finished c) t of Some (TaskCompleted v) \<Rightarrow> [v] | _ \<Rightarrow> []) xs)) =
    length (filter (\<lambda>(i, t). case map_of (co_finished c) t of Some (TaskCompleted _) \<Rightarrow> True | _ \<Rightarrow> False) xs)" for xs
  proof (induction xs)
    case (Cons x xs)
    obtain i t where x: "x = (i, t)" by (cases x)
    show ?case using Cons by (cases "map_of (co_finished c) t"; cases "the (map_of (co_finished c) t)") (simp_all add: x)
  qed simp
  then show ?thesis by (simp add: submit_results_def completed_items_def)
qed

section \<open>Properties\<close>

text \<open>
  C19. The background budget holds. After any starts, submissions, retentions, completions, callbacks in
  any interleaving, cancellations and shutdown: the owned tasks that are neither mandatory nor already
  being cancelled never exceed the configured budget, nor do the parked late results; a refusable start
  is refused exactly when the coordinator is shut down or the budget is used up, and a mandatory one
  exactly when it is shut down.
\<close>

theorem background_budget_holds:
  assumes "init_coordinator max_items timeout background = Inr c0" and "coordinator.legal ops c0"
  shows "let c = fold co_step ops c0 in
     card (co_owned_tasks c - co_mandatory_tasks c - co_cancelling_tasks c) \<le> co_max_background_tasks c \<and>
     length (co_late_results c) \<le> co_max_background_tasks c \<and>
     (snd (start_task False c) = None \<longleftrightarrow>
        co_shutdown c \<or> co_max_background_tasks c \<le> card (co_owned_tasks c - co_mandatory_tasks c)) \<and>
     (snd (start_task True c) = None \<longleftrightarrow> co_shutdown c)"
proof -
  have "co_inv (fold co_step ops c0)" using init_co_inv [OF assms(1)] assms(2) by (rule coordinator.run_inv)
  then show ?thesis
    by (auto simp: co_inv_def budget_inv_def start_task_def has_background_capacity_def create_task_def Let_def)
qed

text \<open>
  Late results are reported exactly once. When every retention passes a completion callback, then
  after any legal operations the retained work items are exactly those still waiting for their task
  and those already reported to \<open>on_late_terminal\<close>, each counted once; and while the coordinator is open,
  \<open>on_complete\<close> was called once for every reported item, in the same order and with the same terminal kind.
\<close>

theorem late_results_reported_once:
  assumes "init_coordinator max_items timeout background = Inr c0" and "deliveries.legal ops c0"
  shows "let c = fold co_step ops c0 in
     image_mset late_item (filter_mset is_late (mset (co_ready c @ co_callbacks c))) + mset (map fst (co_terminal_log c)) =
       mset (co_retained_log c) \<and>
     (\<not> co_shutdown c \<longrightarrow> map (\<lambda>l. (lr_work_item_id l, lr_terminal_kind l)) (co_complete_log c) =
       map (\<lambda>(i, k). (i, Some k)) (co_terminal_log c))"
proof -
  have "co_inv (fold co_step ops c0) \<and> late_inv (fold co_step ops c0)"
    using init_co_inv [OF assms(1)] init_late_inv [OF assms(1)] assms(2) by (intro deliveries.run_inv) simp_all
  then show ?thesis by (auto simp: late_inv_def late_view_def pending_callbacks_def Let_def)
qed

text \<open>
  C18. A submission accounts for every item exactly once. Whatever happened to its tasks and to the
  coordinator in between, the outcome lists the selected work items (the first ones up to the turn
  limit), and each of them is in exactly one of: completed with its result, failed (for want of
  capacity, by an error, by cancellation, or because it could not be retained), or pending.
\<close>

theorem submission_accounts_for_every_item:
  assumes "submit_begin current turn_id items ids c = Inr (c1, sb)"
  shows "case submit_end sb f c2 of (c3, out) \<Rightarrow>
     so_work_items out = sb_work sb \<and> length (so_work_items out) = min (co_max_work_items_per_turn c) (length items) \<and>
     mset (completed_items sb c2) + mset (map wf_work_item_id (so_failures out)) + mset (so_pending_work_item_ids out) =
       mset (so_work_items out) \<and>
     length (so_results out) = length (completed_items sb c2)"
proof -
  note shape = submit_begin_shape [OF assms]
  let ?running = "filter (\<lambda>(i, t). \<not> task_done t c2) (sb_indexed_tasks sb)"
  obtain c3 kept rejected where r: "retain_items sb f ?running c2 = (c3, kept, rejected)"
    by (cases "retain_items sb f ?running c2")
  have "map ((!) (sb_work sb)) [0..<0 + length (sb_selected sb)] = sb_work sb"
    unfolding shape(3) [symmetric] by (simp add: map_nth)
  then have ids: "mset (map (\<lambda>(j, t). sb_work sb ! j) (sb_indexed_tasks sb)) + mset (map wf_work_item_id (sb_capacity_failures sb)) =
      mset (sb_work sb)"
    using admit_items_ids [OF shape(5)] by simp
  have "mset (completed_items sb c2) + mset (map wf_work_item_id (sb_capacity_failures sb @ execution_failures sb c2 @ rejected)) +
      mset kept = mset (sb_work sb)"
    unfolding ids [symmetric] classified [of sb c2, symmetric] retain_items_ids [OF r, symmetric]
    by (simp add: ac_simps)
  then show ?thesis
    using r shape(3,4) length_results [of sb c2] by (simp add: submit_end_def Let_def)
qed

definition demo_coordinator :: coordinator where
  "demo_coordinator = (case init_coordinator 3 60 (Some 2) of Inr c \<Rightarrow> c)"

definition demo_co_ops :: "co_op list" where
  "demo_co_ops = [CoStart False, CoStart False, CoRetain 0 ''work-1'' ''w'' AsyncCallback, CoFinish 0 (TaskCompleted ''v''),
     CoReady, CoReady]"

lemma demo_init: "init_coordinator 3 60 (Some 2) = Inr demo_coordinator"
  by (simp add: demo_coordinator_def init_coordinator_def)

lemma demo_retain_ok:
  "co_ok (CoRetain 0 ''work-1'' ''w'' AsyncCallback) (co_step (CoStart False) (co_step (CoStart False) demo_coordinator))"
  by code_simp

lemma demo_final:
  "let c = fold co_step demo_co_ops demo_coordinator in
   co_terminal_log c = [(''work-1'', TkCompleted)] \<and> \<not> co_shutdown c \<and> co_mandatory_tasks c = {2} \<and> co_max_background_tasks c = 2"
  by code_simp

lemma background_budget_holds_witness:
  "let c = fold co_step demo_co_ops demo_coordinator in
   card (co_owned_tasks c - co_mandatory_tasks c - co_cancelling_tasks c) \<le> 2 \<and> co_mandatory_tasks c = {2} \<and>
   snd (start_task True c) \<noteq> None"
proof -
  have "coordinator.legal demo_co_ops demo_coordinator"
    using demo_retain_ok by (simp add: demo_co_ops_def del: co_step.simps co_ok.simps(1))
  from background_budget_holds [OF demo_init this] demo_final show ?thesis by (simp add: Let_def)
qed

lemma late_results_reported_once_witness:
  "let c = fold co_step demo_co_ops demo_coordinator in
   co_terminal_log c = [(''work-1'', TkCompleted)] \<and>
   map (\<lambda>l. (lr_work_item_id l, lr_terminal_kind l)) (co_complete_log c) = [(''work-1'', Some TkCompleted)]"
proof -
  have "deliveries.legal demo_co_ops demo_coordinator"
    using demo_retain_ok by (simp add: demo_co_ops_def del: co_step.simps co_ok.simps(1))
  from late_results_reported_once [OF demo_init this] demo_final show ?thesis by (simp add: Let_def)
qed

definition demo_items :: "(string \<times> string) list" where
  "demo_items = [(''w'', ''a''), (''v'', ''b''), (''u'', ''c'')]"

lemma demo_submission:
  "case submit_begin 9 ''turn'' demo_items None demo_coordinator of
     Inl e \<Rightarrow> False | Inr (c, sb) \<Rightarrow> sb_work sb = [''turn-0'', ''turn-1'', ''turn-2''] \<and> completed_items sb c = []"
  by code_simp

lemma submission_accounts_for_every_item_witness:
  "case submit_begin 9 ''turn'' demo_items None demo_coordinator of
     Inl e \<Rightarrow> False
   | Inr (c, sb) \<Rightarrow>
       (case submit_end sb AsyncCallback c of (d, out) \<Rightarrow>
          so_work_items out = [''turn-0'', ''turn-1'', ''turn-2''] \<and> length (so_pending_work_item_ids out) + length (so_failures out) = 3)"
proof -
  obtain c sb where b: "submit_begin 9 ''turn'' demo_items None demo_coordinator = Inr (c, sb)"
    and sb: "sb_work sb = [''turn-0'', ''turn-1'', ''turn-2'']" "completed_items sb c = []"
    using demo_submission by (auto split: sum.splits)
  obtain d out where e: "submit_end sb AsyncCallback c = (d, out)" by (cases "submit_end sb AsyncCallback c")
  have work: "so_work_items out = sb_work sb"
    and "mset (map wf_work_item_id (so_failures out)) + mset (so_pending_work_item_ids out) = mset (so_work_items out)"
    using submission_accounts_for_every_item [OF b, of c AsyncCallback] sb by (simp_all add: e)
  then have "length (so_failures out) + length (so_pending_work_item_ids out) = length (sb_work sb)"
    by (metis length_map size_mset size_union)
  then show ?thesis unfolding b sum.case prod.case e using work sb by simp
qed

text \<open>
  The tails do not serialise three items of one worker: the second and the third both wait for the
  first one's provider task, and run at the same time once it has finished.
\<close>

lemma same_worker_overlap:
  "let c = fold co_step [CoSubmit 9 ''t'' [(''w'', ''a''), (''w'', ''b''), (''w'', ''c'')] (Some [''x'', ''y'', ''z'']),
         CoRunOne 0, CoRunOne 1, CoRunOne 2, CoFinish 3 (TaskCompleted ''r''), CoRunOne 1, CoRunOne 2]
       (case init_coordinator 3 60 None of Inr c \<Rightarrow> c) in
   map_of (co_ones c) 1 = Some (OneRun ''w'' 4) \<and> map_of (co_ones c) 2 = Some (OneRun ''w'' 5) \<and>
   \<not> task_done 4 c \<and> \<not> task_done 5 c"
  by code_simp

end
