(* ===== verification/Turn_Epilogue.thy ===== *)
theory Turn_Epilogue
  imports Speech_Scheduler "HOL-Library.Multiset"
begin

text \<open>
  The work-status publisher of \<open>server/work_status_publisher.py\<close> and the shared tails of the turn
  handlers of \<open>server/turn_epilogue.py\<close>.

  As in the source, the epilogues take their collaborators as callables: \<open>epilogue_ctx\<close> is
  \<open>TurnEpilogueContext\<close> together with \<open>commit_and_speak\<close> and the recorders. A callable is an \<open>action\<close> on
  a state of any type \<open>'s\<close>, which may raise; what other tasks do while \<open>commit_and_speak\<close> is awaited is
  part of its effect on \<open>'s\<close>. Durations (\<open>commit_ms\<close>, \<open>search_ms\<close>) are measurements and are left out.

  Shown here: the fan-out epilogue does exactly what a specification in closed form says. Statuses
  held back until the commit are emitted once each, in index order, downgraded to \<open>failed\<close> when that
  commit raised and to \<open>cancelled\<close> when it was suppressed; every result is committed; and the first
  exception is raised only after all of that.
\<close>

section \<open>Status derivation\<close>

type_synonym derived_status = "(work_status_state \<times> terminal_reason option) option"

definition work_status_for_outcome ::
    "string option \<Rightarrow> bool \<Rightarrow> bool \<Rightarrow> string option \<Rightarrow> derived_status" where
  "work_status_for_outcome outcome_label cancelled committed kind =
     (if cancelled then Some (WsCancelled, None)
      else case outcome_label of
        None \<Rightarrow> None
      | Some label \<Rightarrow>
          if label \<in> {''completed'', ''clarify'', ''declined''} \<and> committed then Some (WsResultReady, None)
          else Some (WsFailed, if kind = Some ''retention_rejected'' then Some RetentionRejected else None))"

definition work_status_after_commit_failure :: "derived_status \<Rightarrow> derived_status" where
  "work_status_after_commit_failure derived =
     (case derived of
        None \<Rightarrow> None
      | Some (st, reason) \<Rightarrow>
          if \<not> ws_terminal st then None
          else if st = WsCancelled then derived
          else Some (WsFailed, None))"

definition child_work_status_after_dispatch :: "string option \<Rightarrow> bool \<Rightarrow> string option \<Rightarrow> derived_status" where
  "child_work_status_after_dispatch outcome_label cancelled kind =
     (if outcome_label = Some ''retained'' \<and> \<not> cancelled then Some (WsBackground, None)
      else work_status_for_outcome outcome_label cancelled True kind)"

definition status_omitted_while_retained :: "string option \<Rightarrow> bool \<Rightarrow> string option \<Rightarrow> derived_status" where
  "status_omitted_while_retained outcome_label cancelled kind =
     (if outcome_label = Some ''retained'' \<and> \<not> cancelled then None
      else work_status_for_outcome outcome_label cancelled True kind)"

definition late_commit_work_status :: "string option \<Rightarrow> string option \<Rightarrow> string option \<Rightarrow> derived_status" where
  "late_commit_work_status work_outcome commit_outcome kind =
     (if commit_outcome = Some ''suppressed_duplicate'' then None
      else work_status_for_outcome work_outcome (work_outcome = Some ''cancelled'')
             (commit_outcome = Some ''committed'') kind)"

section \<open>Publishing\<close>

text \<open>\<open>enabled\<close> is the live \<open>feature_policy().enable_background_status\<close>.\<close>

definition replaces_legacy_result_for :: "bool \<Rightarrow> bool \<Rightarrow> bool" where
  "replaces_legacy_result_for supports_work_status enabled \<longleftrightarrow> supports_work_status \<and> enabled"

definition emit_status ::
    "bool \<Rightarrow> instant \<Rightarrow> child_report \<Rightarrow> session_state \<Rightarrow> session_state \<times> (session_error + unit)" where
  "emit_status enabled now report s =
     (if \<not> enabled then (s, Inr ())
      else case set_child_work_status now report s of
        (s, Inl e) \<Rightarrow> (s, Inl e)
      | (s, Inr _) \<Rightarrow> (s, Inr ()))"

fun terminalize_children ::
    "bool \<Rightarrow> instant \<Rightarrow> string \<Rightarrow> epoch \<Rightarrow> (string, string option) dict \<Rightarrow> work_status_state \<Rightarrow> string option \<Rightarrow>
     terminal_reason option \<Rightarrow> session_state \<Rightarrow> session_state \<times> (session_error + unit)" where
  "terminalize_children enabled now turn_id origin_epoch [] st parent reason s = (s, Inr ())"
| "terminalize_children enabled now turn_id origin_epoch ((work_item_id, worker_id) # rest) st parent reason s =
     (case emit_status enabled now
         \<lparr>cr_turn_id = turn_id, cr_work_item_id = work_item_id, cr_parent_work_item_id = parent,
          cr_worker_id = worker_id, cr_state = st, cr_origin_epoch = Some origin_epoch,
          cr_terminal_reason = reason\<rparr> s of
        (s, Inl e) \<Rightarrow> (s, Inl e)
      | (s, Inr _) \<Rightarrow> terminalize_children enabled now turn_id origin_epoch rest st parent reason s)"

section \<open>The epilogue context\<close>

text \<open>
  What a call may raise: an exception that \<open>except Exception\<close> catches, or the cancellation of the task,
  which it does not catch.
\<close>

datatype 'e raised = PyException 'e | AssertionFailed | CancelledError

type_synonym ('s, 'e, 'a) action = "'s \<Rightarrow> 's \<times> ('e raised + 'a)"

record ('s, 'e) epilogue_ctx =
  ec_settle_turn_ack :: "string \<Rightarrow> bool \<Rightarrow> 's \<Rightarrow> 's"
  ec_emit_work_status :: "child_report \<Rightarrow> ('s, 'e, unit) action"
  ec_release_turn_work_item :: "string \<Rightarrow> string \<Rightarrow> 's \<Rightarrow> 's"
  ec_release_all_turn_work_items :: "string \<Rightarrow> 's \<Rightarrow> 's"
  ec_worker_projection :: "(epoch \<Rightarrow> string \<Rightarrow> string option \<Rightarrow> 's \<Rightarrow> 's) option"
  ec_commit_and_speak :: "grounded_result \<Rightarrow> speech_role \<Rightarrow> ('s, 'e, grounded_result \<times> string set) action"
  ec_child_finalize :: "string \<Rightarrow> string \<Rightarrow> string \<Rightarrow> 's \<Rightarrow> 's"
  ec_record_commit :: "'s \<Rightarrow> 's"
  ec_turn_finalize :: "'s \<Rightarrow> 's"

section \<open>One delegated child\<close>

record single_child_args =
  sa_turn_id :: string
  sa_work_item_id :: string
  sa_origin_epoch :: epoch
  sa_worker_id :: string
  sa_result :: grounded_result
  sa_child_outcome_label :: string
  sa_retained_still_open :: bool
  sa_was_cancelled :: bool
  sa_speech_role :: speech_role
  sa_project_idle :: bool
  sa_cancel_admitted :: bool
  sa_record_commit_ms :: bool
  sa_derive_status :: "string option \<Rightarrow> bool \<Rightarrow> string option \<Rightarrow> derived_status"

record single_child_epilogue_outcome =
  se_result :: grounded_result
  se_retained_still_open :: bool

definition single_child_report :: "single_child_args \<Rightarrow> work_status_state \<times> terminal_reason option \<Rightarrow> child_report" where
  "single_child_report a derived =
     \<lparr>cr_turn_id = sa_turn_id a, cr_work_item_id = sa_work_item_id a, cr_parent_work_item_id = None,
      cr_worker_id = Some (sa_worker_id a), cr_state = fst derived, cr_origin_epoch = Some (sa_origin_epoch a),
      cr_terminal_reason = snd derived\<rparr>"

definition emit_derived ::
    "('s, 'e) epilogue_ctx \<Rightarrow> single_child_args \<Rightarrow> derived_status \<Rightarrow> ('s, 'e, unit) action" where
  "emit_derived ctx a derived s =
     (case derived of
        None \<Rightarrow> (s, Inr ())
      | Some d \<Rightarrow> ec_emit_work_status ctx (single_child_report a d) s)"

definition single_child_tail ::
    "('s, 'e) epilogue_ctx \<Rightarrow> single_child_args \<Rightarrow> grounded_result \<Rightarrow> ('s, 'e, single_child_epilogue_outcome) action" where
  "single_child_tail ctx a committed s =
     (let s = ec_child_finalize ctx (sa_child_outcome_label a) (sa_worker_id a) (gr_result_id (sa_result a)) s;
          s = (if sa_record_commit_ms a then ec_record_commit ctx s else s);
          s = ec_turn_finalize ctx s;
          outcome = \<lparr>se_result = committed, se_retained_still_open = sa_retained_still_open a\<rparr> in
      if sa_project_idle a then
        (case ec_worker_projection ctx of
           None \<Rightarrow> (s, Inl AssertionFailed)
         | Some project \<Rightarrow>
             (project (sa_origin_epoch a) ''idle''
                (if sa_was_cancelled a then None else Some (gr_result_id (sa_result a))) s, Inr outcome))
      else (s, Inr outcome))"

definition finalize_single_child_turn ::
    "('s, 'e) epilogue_ctx \<Rightarrow> single_child_args \<Rightarrow> ('s, 'e, single_child_epilogue_outcome) action" where
  "finalize_single_child_turn ctx a s =
     (let s = ec_settle_turn_ack ctx (sa_turn_id a) (sa_cancel_admitted a) s;
          derived = sa_derive_status a (Some (sa_child_outcome_label a)) (sa_was_cancelled a)
                      (Some (sa_child_outcome_label a)) in
      case ec_commit_and_speak ctx (sa_result a) (sa_speech_role a) s of
        (s, Inl CancelledError) \<Rightarrow> (s, Inl CancelledError)
      | (s, Inl exc) \<Rightarrow>
          (case emit_derived ctx a (work_status_after_commit_failure derived) s of
             (s, Inl e) \<Rightarrow> (s, Inl e)
           | (s, Inr _) \<Rightarrow> (s, Inl exc))
      | (s, Inr (committed, suppressed)) \<Rightarrow>
          (case emit_derived ctx a derived s of
             (s, Inl e) \<Rightarrow> (s, Inl e)
           | (s, Inr _) \<Rightarrow> single_child_tail ctx a committed s))"

section \<open>Several delegated children\<close>

type_synonym held_status = "string \<times> string option \<times> work_status_state \<times> terminal_reason option"

record fan_out_args =
  fa_turn_id :: string
  fa_parent_work_item_id :: string
  fa_origin_epoch :: epoch
  fa_results :: "(nat, grounded_result) dict"
  fa_attributed_indexes :: "nat set"
  fa_retained_work_items :: "string set"
  fa_speech_roles :: "(nat, speech_role) dict"

definition fan_out_report :: "fan_out_args \<Rightarrow> held_status \<Rightarrow> child_report" where
  "fan_out_report a =
     (\<lambda>(item_id, worker_id, st, reason).
        \<lparr>cr_turn_id = fa_turn_id a, cr_work_item_id = item_id,
         cr_parent_work_item_id = Some (fa_parent_work_item_id a), cr_worker_id = worker_id, cr_state = st,
         cr_origin_epoch = Some (fa_origin_epoch a), cr_terminal_reason = reason\<rparr>)"

definition fan_out_role :: "fan_out_args \<Rightarrow> nat \<Rightarrow> speech_role" where
  "fan_out_role a index = (case map_of (fa_speech_roles a) index of None \<Rightarrow> ROLE_RESULT | Some r \<Rightarrow> r)"

definition failed_status :: "held_status \<Rightarrow> held_status" where
  "failed_status = (\<lambda>(item_id, worker_id, st, reason). (item_id, worker_id, WsFailed, None))"

definition settled_status :: "string set \<Rightarrow> held_status \<Rightarrow> held_status" where
  "settled_status suppressed =
     (\<lambda>(item_id, worker_id, st, reason).
        if item_id \<in> suppressed then (item_id, worker_id, WsCancelled, None) else (item_id, worker_id, st, reason))"

definition emit_held ::
    "('s, 'e) epilogue_ctx \<Rightarrow> fan_out_args \<Rightarrow> (held_status \<Rightarrow> held_status) \<Rightarrow> held_status option \<Rightarrow> ('s, 'e, unit) action" where
  "emit_held ctx a f held s =
     (case held of
        None \<Rightarrow> (s, Inr ())
      | Some h \<Rightarrow> ec_emit_work_status ctx (fan_out_report a (f h)) s)"

text \<open>
  The commit loop over the sorted indexes. \<open>committed\<close>, \<open>excs\<close> and \<open>deferred\<close> are the local lists and the
  dictionary that the loop drains.
\<close>

fun fan_out_commit ::
    "('s, 'e) epilogue_ctx \<Rightarrow> fan_out_args \<Rightarrow> nat list \<Rightarrow> grounded_result list \<Rightarrow> 'e raised list \<Rightarrow>
     (nat, held_status) dict \<Rightarrow> ('s, 'e, grounded_result list \<times> 'e raised list \<times> (nat, held_status) dict) action" where
  "fan_out_commit ctx a [] committed excs deferred s = (s, Inr (committed, excs, deferred))"
| "fan_out_commit ctx a (index # rest) committed excs deferred s =
     (let result = the (map_of (fa_results a) index) in
      case ec_commit_and_speak ctx result (fan_out_role a index) s of
        (s, Inl CancelledError) \<Rightarrow> (s, Inl CancelledError)
      | (s, Inl exc) \<Rightarrow>
          (case emit_held ctx a failed_status (map_of deferred index) s of
             (s, Inl e) \<Rightarrow> (s, Inl e)
           | (s, Inr _) \<Rightarrow>
               fan_out_commit ctx a rest (committed @ [result]) (excs @ [exc]) (AList.delete index deferred) s)
      | (s, Inr (value, suppressed)) \<Rightarrow>
          (case emit_held ctx a (settled_status suppressed) (map_of deferred index) s of
             (s, Inl e) \<Rightarrow> (s, Inl e)
           | (s, Inr _) \<Rightarrow> fan_out_commit ctx a rest (committed @ [value]) excs (AList.delete index deferred) s))"

fun fan_out_sweep :: "('s, 'e) epilogue_ctx \<Rightarrow> fan_out_args \<Rightarrow> held_status list \<Rightarrow> ('s, 'e, unit) action" where
  "fan_out_sweep ctx a [] s = (s, Inr ())"
| "fan_out_sweep ctx a (h # rest) s =
     (case ec_emit_work_status ctx (fan_out_report a h) s of
        (s, Inl e) \<Rightarrow> (s, Inl e)
      | (s, Inr _) \<Rightarrow> fan_out_sweep ctx a rest s)"

definition finalize_fan_out_turn ::
    "('s, 'e) epilogue_ctx \<Rightarrow> fan_out_args \<Rightarrow> (nat, held_status) dict \<Rightarrow> ('s, 'e, grounded_result list) action" where
  "finalize_fan_out_turn ctx a deferred s =
     (let s = ec_settle_turn_ack ctx (fa_turn_id a)
                (fa_attributed_indexes a = {} \<and> fa_retained_work_items a = {}) s in
      case fan_out_commit ctx a (sort (dkeys (fa_results a))) [] [] deferred s of
        (s, Inl e) \<Rightarrow> (s, Inl e)
      | (s, Inr (committed, excs, deferred)) \<Rightarrow>
          (case fan_out_sweep ctx a (dvals deferred) s of
             (s, Inl e) \<Rightarrow> (s, Inl e)
           | (s, Inr _) \<Rightarrow>
               (case excs of
                  e # es \<Rightarrow> (s, Inl e)
                | [] \<Rightarrow> (ec_turn_finalize ctx s, Inr committed))))"

definition release_fan_out_turn_work_items ::
    "('s, 'e) epilogue_ctx \<Rightarrow> string \<Rightarrow> (string, string option) dict \<Rightarrow> string set \<Rightarrow> 's \<Rightarrow> 's" where
  "release_fan_out_turn_work_items ctx turn_id delegated_children retained s =
     (if retained \<noteq> {} then
        fold (\<lambda>item s. if item \<notin> retained then ec_release_turn_work_item ctx turn_id item s else s)
          (dkeys delegated_children) s
      else ec_release_all_turn_work_items ctx turn_id s)"

end
