(* ===== verification/Session_Host.thy ===== *)
theory Session_Host
  imports Turn_Epilogue Turn_Ack Coordinator Routing
begin

text \<open>
  The part of \<open>SessionHost\<close> (\<open>server/pipeline.py\<close>) through which results and cancellations reach the
  session, with the two ledgers it owns: \<open>server/work_task_ledger.py\<close> and
  \<open>server/worker_projection.py\<close>.

  The session state is one object that the host and every scheduler share. \<open>sh_state\<close> is that object;
  \<open>on_scheduler\<close> hands it to the scheduler that is called and takes it back afterwards. Connection
  pipelines are indexed as in \<open>Turn_Ack\<close>. The result value of a late task is opaque to the coordinator;
  \<open>as_grounded\<close> is the test \<open>isinstance(late.result, GroundedResult)\<close> on it. What the retained recorder is
  told is the \<open>late_outcome\<close>; the recorder itself is telemetry. \<open>commit_and_speak\<close> is awaited inside
  \<open>start_next\<close>: \<open>sp_await\<close> is everything that happens until that await ends, and whether it raised.
\<close>

section \<open>The work task ledger\<close>

record work_task_ledger =
  wl_turn_tasks :: "(string, nat) dict"
  wl_work_tasks :: "(string, nat set) dict"
  wl_known_ids :: "string set"
  wl_cancelled_ids :: "string set"

definition init_work_ledger :: work_task_ledger where
  "init_work_ledger = \<lparr>wl_turn_tasks = [], wl_work_tasks = [], wl_known_ids = {}, wl_cancelled_ids = {}\<rparr>"

definition work_tasks_of :: "string \<Rightarrow> work_task_ledger \<Rightarrow> nat set" where
  "work_tasks_of work_item_id l = (case map_of (wl_work_tasks l) work_item_id of None \<Rightarrow> {} | Some ts \<Rightarrow> ts)"

definition register_work_task :: "string \<Rightarrow> nat \<Rightarrow> work_task_ledger \<Rightarrow> work_task_ledger" where
  "register_work_task work_item_id t l =
     l\<lparr>wl_known_ids := insert work_item_id (wl_known_ids l),
       wl_work_tasks := AList.update work_item_id (insert t (work_tasks_of work_item_id l)) (wl_work_tasks l)\<rparr>"

definition work_task_completed :: "string \<Rightarrow> nat \<Rightarrow> work_task_ledger \<Rightarrow> work_task_ledger" where
  "work_task_completed work_item_id t l =
     (case map_of (wl_work_tasks l) work_item_id of
        None \<Rightarrow> l
      | Some ts \<Rightarrow>
          let ts = ts - {t} in
          l\<lparr>wl_work_tasks := (if ts = {} then AList.delete work_item_id (wl_work_tasks l)
                             else AList.update work_item_id ts (wl_work_tasks l))\<rparr>)"

definition register_turn_task :: "string \<Rightarrow> nat \<Rightarrow> work_task_ledger \<Rightarrow> work_task_ledger" where
  "register_turn_task work_item_id t l =
     l\<lparr>wl_known_ids := insert work_item_id (wl_known_ids l),
       wl_turn_tasks := AList.update work_item_id t (wl_turn_tasks l)\<rparr>"

definition turn_task_completed :: "string \<Rightarrow> nat \<Rightarrow> work_task_ledger \<Rightarrow> work_task_ledger" where
  "turn_task_completed work_item_id t l =
     (if map_of (wl_turn_tasks l) work_item_id \<noteq> Some t then l
      else
        let l = l\<lparr>wl_turn_tasks := AList.delete work_item_id (wl_turn_tasks l)\<rparr> in
        if map_of (wl_work_tasks l) work_item_id = None
        then l\<lparr>wl_known_ids := wl_known_ids l - {work_item_id}, wl_cancelled_ids := wl_cancelled_ids l - {work_item_id}\<rparr>
        else l)"

definition register_known :: "string \<Rightarrow> work_task_ledger \<Rightarrow> work_task_ledger" where
  "register_known work_item_id l = l\<lparr>wl_known_ids := insert work_item_id (wl_known_ids l)\<rparr>"

definition retire :: "string \<Rightarrow> work_task_ledger \<Rightarrow> work_task_ledger" where
  "retire work_item_id l = l\<lparr>wl_known_ids := wl_known_ids l - {work_item_id}\<rparr>"

definition clear_cancelled :: "string \<Rightarrow> work_task_ledger \<Rightarrow> work_task_ledger" where
  "clear_cancelled work_item_id l = l\<lparr>wl_cancelled_ids := wl_cancelled_ids l - {work_item_id}\<rparr>"

definition live_ids :: "work_task_ledger \<Rightarrow> string set" where
  "live_ids l = set (dkeys (wl_turn_tasks l)) \<union> set (dkeys (wl_work_tasks l)) \<union> wl_known_ids l"

text \<open>\<open>dict.fromkeys\<close> keeps the first occurrence of each element.\<close>

definition fromkeys :: "'a list \<Rightarrow> 'a list" where
  "fromkeys xs = rev (remdups (rev xs))"

definition local_ids :: "work_task_ledger \<Rightarrow> string list" where
  "local_ids l = fromkeys (dkeys (wl_turn_tasks l) @ dkeys (wl_work_tasks l))"

definition pending_tasks :: "work_task_ledger \<Rightarrow> nat set" where
  "pending_tasks l = set (dvals (wl_turn_tasks l)) \<union> \<Union> (set (dvals (wl_work_tasks l)))"

text \<open>The tasks that receive a cancellation request come back with the ledger.\<close>

definition local_tasks_of :: "string \<Rightarrow> work_task_ledger \<Rightarrow> nat set" where
  "local_tasks_of item_id l =
     (case map_of (wl_turn_tasks l) item_id of None \<Rightarrow> {} | Some t \<Rightarrow> {t}) \<union> work_tasks_of item_id l"

definition cancel_selected :: "string list \<Rightarrow> work_task_ledger \<Rightarrow> work_task_ledger \<times> nat set" where
  "cancel_selected ids l =
     (l\<lparr>wl_cancelled_ids := wl_cancelled_ids l \<union> set ids\<rparr>, \<Union> (set (map (\<lambda>i. local_tasks_of i l) ids)))"

section \<open>Host state\<close>

record clarification_candidate =
  cc_worker_id :: string
  cc_turn_id :: string
  cc_original_query :: string
  cc_question :: string

record session_host =
  sh_state :: session_state
  sh_ack :: ack_host
  sh_arbiter :: arbiter
  sh_connection :: "nat option"
  sh_work :: work_task_ledger
  sh_candidates :: "(string, clarification_candidate) dict"
  sh_coordinator :: "coordinator option"
  sh_background_status :: bool
  sh_closing :: bool

datatype host_error =
    SessionRaised session_error
  | CoordinatorRaised coordinator_error
  | CoordinatorRequired
  | InvalidItem item_error
  | SpeakRaised

definition host_accepts :: "epoch option \<Rightarrow> session_host \<Rightarrow> bool" where
  "host_accepts e h \<longleftrightarrow>
     \<not> sh_closing h \<and> accepts e (sh_arbiter h) \<and>
     (case sh_connection h of None \<Rightarrow> False | Some c \<Rightarrow> cp_active (ah_pipelines (sh_ack h) c))"

definition pipeline_of :: "nat \<Rightarrow> session_host \<Rightarrow> connection_pipeline" where
  "pipeline_of origin h = ah_pipelines (sh_ack h) origin"

definition on_scheduler :: "nat \<Rightarrow> (ack_host \<Rightarrow> ack_host) \<Rightarrow> session_host \<Rightarrow> session_host" where
  "on_scheduler origin f h =
     (let a = sh_ack h; c = ah_pipelines a origin;
          a = f (a\<lparr>ah_pipelines := (ah_pipelines a)(origin := c\<lparr>cp_scheduler := (cp_scheduler c)\<lparr>sc_state := sh_state h\<rparr>\<rparr>)\<rparr>)
      in h\<lparr>sh_ack := a, sh_state := sc_state (cp_scheduler (ah_pipelines a origin))\<rparr>)"

definition on_ledger :: "(turn_ack_ledger \<Rightarrow> turn_ack_ledger) \<Rightarrow> session_host \<Rightarrow> session_host" where
  "on_ledger f h = h\<lparr>sh_ack := (sh_ack h)\<lparr>ah_ledger := f (ah_ledger (sh_ack h))\<rparr>\<rparr>"

definition on_work :: "(work_task_ledger \<Rightarrow> work_task_ledger) \<Rightarrow> session_host \<Rightarrow> session_host" where
  "on_work f h = h\<lparr>sh_work := f (sh_work h)\<rparr>"

definition on_state :: "(session_state \<Rightarrow> session_state) \<Rightarrow> session_host \<Rightarrow> session_host" where
  "on_state f h = h\<lparr>sh_state := f (sh_state h)\<rparr>"

section \<open>Worker projection and clarifications\<close>

definition project_worker ::
    "worker_object \<Rightarrow> epoch \<Rightarrow> string \<Rightarrow> string option \<Rightarrow> session_state \<Rightarrow> session_state" where
  "project_worker worker origin_epoch status latest s =
     (case wk_metadata worker of
        None \<Rightarrow> s
      | Some m \<Rightarrow>
          if wm_worker_id m = [] \<or> wm_topic m = [] \<or> wm_model_policy m = [] then s
          else
            let worker_id = wm_worker_id m; previous = map_of (ss_workers s) worker_id in
            fst (set_worker
              \<lparr>wk_worker_id = worker_id, wk_topic = wm_topic m, wk_model_policy = wm_model_policy m,
               wk_status = status,
               wk_latest_result_id =
                 (case latest of Some r \<Rightarrow> Some r
                  | None \<Rightarrow> (case previous of None \<Rightarrow> None | Some p \<Rightarrow> wk_latest_result_id p)),
               wk_origin_epoch = Some origin_epoch\<rparr> s))"

definition MAX_CLARIFICATION_CANDIDATES :: nat where
  "MAX_CLARIFICATION_CANDIDATES = 32"

text \<open>The bookkeeping of \<open>clarification_result\<close>; \<open>result_id\<close> is the id it mints.\<close>

definition record_clarification ::
    "string \<Rightarrow> clarification_candidate \<Rightarrow> (string, clarification_candidate) dict \<Rightarrow> (string, clarification_candidate) dict" where
  "record_clarification result_id c d = popitem_over MAX_CLARIFICATION_CANDIDATES (AList.update result_id c d)"

definition pop_clarification_candidate :: "string \<Rightarrow> session_host \<Rightarrow> session_host \<times> clarification_candidate option" where
  "pop_clarification_candidate result_id h =
     (h\<lparr>sh_candidates := AList.delete result_id (sh_candidates h)\<rparr>, map_of (sh_candidates h) result_id)"

definition clarification_context ::
    "pending_dialogue option \<Rightarrow> string \<Rightarrow> (string \<times> string \<times> string) option" where
  "clarification_context p transcript =
     (case p of
        None \<Rightarrow> None
      | Some d \<Rightarrow> if pd_original_query d = [] then None else Some (pd_original_query d, pd_question d, transcript))"

section \<open>Committing a result\<close>

definition transcript_of :: "string \<Rightarrow> grounded_result \<Rightarrow> transcript_entry" where
  "transcript_of timestamp result =
     \<lparr>te_role = Assistant, te_text = gr_text result, te_turn_id = gr_turn_id result, te_timestamp = timestamp,
      te_origin_epoch = gr_origin_epoch result\<rparr>"

definition commit_clarification ::
    "instant \<Rightarrow> grounded_result \<Rightarrow> session_host \<Rightarrow> session_host \<times> (host_error + unit)" where
  "commit_clarification now result h =
     (case pop_clarification_candidate (gr_result_id result) h of
        (h, None) \<Rightarrow> (h, Inr ())
      | (h, Some c) \<Rightarrow>
          if \<not> host_accepts (gr_origin_epoch result) h then (h, Inr ())
          else case sh_coordinator h of
            None \<Rightarrow> (h, Inl CoordinatorRequired)
          | Some co \<Rightarrow>
              (case add_worker_clarification now (ss_session_id (sh_state h)) (cc_worker_id c) (cc_turn_id c)
                      (gr_result_id result) (cc_original_query c) (cc_question c) co of
                 Inl e \<Rightarrow> (h, Inl (CoordinatorRaised e))
               | Inr co \<Rightarrow> (h\<lparr>sh_coordinator := Some co\<rparr>, Inr ())))"

definition commit_result_state ::
    "instant \<Rightarrow> string \<Rightarrow> grounded_result \<Rightarrow> session_host \<Rightarrow> session_host \<times> (host_error + unit)" where
  "commit_result_state now timestamp result h =
     (let h = on_state (\<lambda>s. fst (append_transcript (transcript_of timestamp result) s)) h in
      case append_result result None (gr_origin_epoch result) (sh_state h) of
        (s, Inl e) \<Rightarrow> (h\<lparr>sh_state := s\<rparr>, Inl (SessionRaised e))
      | (s, Inr _) \<Rightarrow> commit_clarification now result (h\<lparr>sh_state := s\<rparr>))"

text \<open>What a speaking call reads from its environment.\<close>

record speak_env =
  sp_now :: instant
  sp_timestamp :: string
  sp_acceptance :: "bool option"
  sp_token :: string
  sp_utterance :: string
  sp_await :: "session_host \<Rightarrow> session_host \<times> (host_error raised + unit)"

definition result_item :: "speak_env \<Rightarrow> string \<Rightarrow> grounded_result \<Rightarrow> speech_role \<Rightarrow> speech_item" where
  "result_item env work_item_id result role =
     \<lparr>si_result_id = Some (gr_result_id result), si_work_item_id = work_item_id,
      si_run_id = ''run-'' @ gr_turn_id result, si_text = gr_spoken_text result, si_utterance_id = sp_utterance env,
      si_origin_epoch = gr_origin_epoch result, si_role = role, si_ack_id = None, si_turn_id = None\<rparr>"

definition speak_result ::
    "speak_env \<Rightarrow> nat \<Rightarrow> speech_item \<Rightarrow> session_host \<Rightarrow> session_host \<times> (host_error raised + unit)" where
  "speak_result env origin item h =
     (case snd (enqueue item (cp_scheduler (pipeline_of origin h))) of
        Inl e \<Rightarrow> (h, Inl (PyException (InvalidItem e)))
      | Inr _ \<Rightarrow>
          let h = on_scheduler origin (with_scheduler origin (\<lambda>s. fst (enqueue item s))) h in
          (case start_next (sp_acceptance env) (sp_token env) (Some (si_work_item_id item))
                  ((cp_scheduler (pipeline_of origin h))\<lparr>sc_state := sh_state h\<rparr>) of
             None \<Rightarrow> (h, Inr ())
           | Some (s', started) \<Rightarrow>
               let h = on_scheduler origin (with_scheduler origin (\<lambda>s. s')) h in
               if started = None then (h, Inr ()) else sp_await env h))"

definition commit_and_speak ::
    "speak_env \<Rightarrow> nat \<Rightarrow> bool \<Rightarrow> grounded_result \<Rightarrow> speech_role \<Rightarrow>
     (session_host, host_error, grounded_result \<times> string set) action" where
  "commit_and_speak env origin require_tts result role h =
     (let work_item_id = ''work-'' @ gr_turn_id result in
      if work_item_id \<in> wl_cancelled_ids (sh_work h) then
        let h = on_work (retire work_item_id \<circ> clear_cancelled work_item_id) h;
            h = fst (pop_clarification_candidate (gr_result_id result) h)
        in (h, Inr (result, {work_item_id}))
      else
        case commit_result_state (sp_now env) (sp_timestamp env) result h of
          (h, Inl e) \<Rightarrow> (h, Inl (PyException e))
        | (h, Inr _) \<Rightarrow>
            let h = on_work (retire work_item_id) h in
            if (require_tts \<and> \<not> cp_tts (pipeline_of origin h)) \<or> sh_connection h \<noteq> Some origin \<or>
               \<not> cp_active (pipeline_of origin h) \<or> \<not> host_accepts (gr_origin_epoch result) h
            then (h, Inr (result, {}))
            else (case speak_result env origin (result_item env work_item_id result role) h of
                    (h, Inl e) \<Rightarrow> (h, Inl e)
                  | (h, Inr _) \<Rightarrow> (h, Inr (result, {}))))"

section \<open>Publishing from the host\<close>

definition emit_work_status :: "instant \<Rightarrow> child_report \<Rightarrow> session_host \<Rightarrow> session_host \<times> (host_error + unit)" where
  "emit_work_status now report h =
     (case emit_status (sh_background_status h) now report (sh_state h) of
        (s, Inl e) \<Rightarrow> (h\<lparr>sh_state := s\<rparr>, Inl (SessionRaised e))
      | (s, Inr _) \<Rightarrow> (h\<lparr>sh_state := s\<rparr>, Inr ()))"

definition finalize_turn_exception ::
    "instant \<Rightarrow> bool \<Rightarrow> string \<Rightarrow> epoch \<Rightarrow> (string, string option) dict \<Rightarrow> nat option \<Rightarrow> string option \<Rightarrow>
     session_host \<Rightarrow> session_host \<times> (host_error + unit)" where
  "finalize_turn_exception now cancelled turn_id origin_epoch children origin parent h =
     (let h = (case origin of None \<Rightarrow> h | Some o' \<Rightarrow> on_scheduler o' (settle_turn_ack o' turn_id False) h) in
      case terminalize_children (sh_background_status h) now turn_id origin_epoch children
             (if cancelled then WsCancelled else WsFailed) parent None (sh_state h) of
        (s, Inl e) \<Rightarrow> (h\<lparr>sh_state := s\<rparr>, Inl (SessionRaised e))
      | (s, Inr _) \<Rightarrow> (h\<lparr>sh_state := s\<rparr>, Inr ()))"

section \<open>Late results\<close>

record late_delivery_context =
  ld_turn_id :: string
  ld_work_item_id :: string
  ld_origin_epoch :: epoch
  ld_ack_timestamp :: "instant option"
  ld_accepted_turn_sequence :: nat
  ld_parent_work_item_id :: "string option"

definition new_late_delivery_context ::
    "instant \<Rightarrow> string \<Rightarrow> string \<Rightarrow> epoch \<Rightarrow> nat option \<Rightarrow> string option \<Rightarrow> session_host \<Rightarrow> late_delivery_context" where
  "new_late_delivery_context now turn_id work_item_id origin_epoch accepted parent h =
     \<lparr>ld_turn_id = turn_id, ld_work_item_id = work_item_id, ld_origin_epoch = origin_epoch,
      ld_ack_timestamp = Some now,
      ld_accepted_turn_sequence =
        (case accepted of None \<Rightarrow> ta_turn_sequence (ah_ledger (sh_ack h)) | Some n \<Rightarrow> n),
      ld_parent_work_item_id = parent\<rparr>"

record late_outcome =
  lo_work_outcome :: "string option"
  lo_commit_outcome :: "string option"
  lo_speech_outcome :: "string option"
  lo_delivery_disposition :: "string option"
  lo_result_id :: "string option"

definition outcome :: "string \<Rightarrow> string \<Rightarrow> string \<Rightarrow> string \<Rightarrow> string option \<Rightarrow> late_outcome" where
  "outcome work commit speech disposition result_id =
     \<lparr>lo_work_outcome = Some work, lo_commit_outcome = Some commit, lo_speech_outcome = Some speech,
      lo_delivery_disposition = Some disposition, lo_result_id = result_id\<rparr>"

fun kind_label :: "terminal_kind \<Rightarrow> string" where
  "kind_label TkCompleted = ''completed''"
| "kind_label TkFailed = ''failed''"
| "kind_label TkCancelled = ''cancelled''"

definition late_result_disposition :: "late_delivery_context \<Rightarrow> nat \<Rightarrow> string" where
  "late_result_disposition context origin = ''display_only''"

text \<open>The worker's record after a committed late result.\<close>

definition worker_idle :: "epoch \<Rightarrow> grounded_result \<Rightarrow> session_state \<Rightarrow> session_state" where
  "worker_idle origin_epoch result s =
     (case map_of (ss_workers s) (gr_worker_id result) of
        Some w \<Rightarrow>
          if wk_origin_epoch w = Some origin_epoch
          then fst (set_worker (w\<lparr>worker_state.wk_status := ''idle'', wk_latest_result_id := Some (gr_result_id result)\<rparr>) s)
          else s
      | None \<Rightarrow> s)"

text \<open>Where a committed late result could be spoken: an outcome, or the connection.\<close>

definition late_speakable :: "epoch \<Rightarrow> session_host \<Rightarrow> string + nat" where
  "late_speakable origin_epoch h =
     (case sh_connection h of
        None \<Rightarrow> Inl ''disconnected''
      | Some origin \<Rightarrow>
          if \<not> cp_tts (pipeline_of origin h) then Inl ''no_tts''
          else if \<not> cp_active (pipeline_of origin h) \<or> cp_epoch (pipeline_of origin h) \<noteq> origin_epoch \<or>
                  \<not> host_accepts (Some origin_epoch) h
          then Inl ''stale_connection''
          else Inr origin)"

text \<open>The branch for a cancelled work item, and the branch that commits and may retract the notice.\<close>

definition late_cancelled_commit ::
    "instant \<Rightarrow> string \<Rightarrow> late_delivery_context \<Rightarrow> late_result \<Rightarrow> grounded_result \<Rightarrow> session_host \<Rightarrow>
     session_host \<times> late_outcome \<times> host_error option" where
  "late_cancelled_commit now timestamp context late result h =
     (case commit_result_state now timestamp result (on_work (retire (lr_work_item_id late)) h) of
        (h, Inl e) \<Rightarrow> (h, outcome ''cancelled'' ''failed'' ''cancelled'' ''not_applicable'' None, Some e)
      | (h, Inr _) \<Rightarrow>
          (on_state (worker_idle (ld_origin_epoch context) result) h,
           outcome ''cancelled'' ''committed'' ''cancelled'' ''display_only'' (Some (gr_result_id result)), None))"

definition late_commit ::
    "instant \<Rightarrow> string \<Rightarrow> late_delivery_context \<Rightarrow> late_result \<Rightarrow> grounded_result \<Rightarrow> session_host \<Rightarrow>
     session_host \<times> late_outcome \<times> host_error option" where
  "late_commit now timestamp context late result h =
     (case commit_result_state now timestamp result h of
        (h, Inl e) \<Rightarrow>
          (on_work (retire (lr_work_item_id late)) h,
           outcome ''completed'' ''failed'' ''not_applicable'' ''not_applicable'' None, Some e)
      | (h, Inr _) \<Rightarrow>
          let h = on_work (retire (lr_work_item_id late)) h;
              h = on_state (worker_idle (ld_origin_epoch context) result) h in
          (case late_speakable (ld_origin_epoch context) h of
             Inl speech \<Rightarrow>
               (h, outcome ''completed'' ''committed'' speech ''display_only'' (Some (gr_result_id result)), None)
           | Inr origin \<Rightarrow>
               (on_scheduler origin (with_scheduler origin (\<lambda>s. fst (discard_queued_notice (lr_work_item_id late) s))) h,
                outcome ''completed'' ''committed'' ''not_applicable'' (late_result_disposition context origin)
                  (Some (gr_result_id result)), None)))"

definition late_branches ::
    "(string \<Rightarrow> grounded_result option) \<Rightarrow> instant \<Rightarrow> string \<Rightarrow> late_delivery_context \<Rightarrow> late_result \<Rightarrow> bool \<Rightarrow> session_host \<Rightarrow>
     session_host \<times> late_outcome \<times> host_error option" where
  "late_branches as_grounded now timestamp context late was_cancelled h =
     (let retired = on_work (retire (lr_work_item_id late)) h;
          work = (if was_cancelled then ''cancelled'' else ''completed'') in
      if lr_error late \<noteq> None then
        (retired,
         if lr_terminal_kind late = Some TkCancelled
         then outcome ''cancelled'' ''suppressed_cancelled'' ''cancelled'' ''suppressed'' None
         else outcome (case lr_terminal_kind late of None \<Rightarrow> ''failed'' | Some k \<Rightarrow> kind_label k)
                ''not_applicable'' ''not_applicable'' ''not_applicable'' None, None)
      else case Option.bind (lr_result late) as_grounded of
        None \<Rightarrow>
          (retired,
           if was_cancelled then outcome ''cancelled'' ''suppressed_cancelled'' ''cancelled'' ''suppressed'' None
           else outcome ''invalid_result'' ''not_applicable'' ''not_applicable'' ''not_applicable'' None, None)
      | Some result \<Rightarrow>
          if gr_origin_epoch result \<noteq> Some (ld_origin_epoch context) then
            (retired, outcome work ''suppressed_stale'' ''not_applicable'' ''not_applicable'' None, None)
          else if \<exists>item \<in> set (ss_results (sh_state h)). gr_result_id item = gr_result_id result then
            (retired, outcome work ''suppressed_duplicate'' ''not_applicable'' ''not_applicable'' None, None)
          else if was_cancelled then late_cancelled_commit now timestamp context late result h
          else late_commit now timestamp context late result h)"

text \<open>The \<open>finally\<close> block.\<close>

definition late_settle :: "late_delivery_context \<Rightarrow> session_host \<Rightarrow> session_host" where
  "late_settle context h =
     (let h = (case sh_connection h of
                 Some c \<Rightarrow>
                   if cp_epoch (pipeline_of c h) = ld_origin_epoch context
                   then on_scheduler c (settle_turn_ack c (ld_turn_id context) False) h
                   else on_ledger (clear_ack_latch (ld_turn_id context)) h
               | None \<Rightarrow> on_ledger (clear_ack_latch (ld_turn_id context)) h) in
      on_ledger (release_turn_work_item (ld_turn_id context) (ld_work_item_id context)) h)"

definition late_report ::
    "late_delivery_context \<Rightarrow> work_status_state \<times> terminal_reason option \<Rightarrow> child_report" where
  "late_report context derived =
     \<lparr>cr_turn_id = ld_turn_id context, cr_work_item_id = ld_work_item_id context,
      cr_parent_work_item_id = ld_parent_work_item_id context, cr_worker_id = None, cr_state = fst derived,
      cr_origin_epoch = Some (ld_origin_epoch context), cr_terminal_reason = snd derived\<rparr>"

definition late_derived :: "late_result \<Rightarrow> late_outcome \<Rightarrow> derived_status" where
  "late_derived late lo =
     late_commit_work_status (lo_work_outcome lo) (lo_commit_outcome lo) (map_option kind_label (lr_terminal_kind late))"

definition late_finally ::
    "instant \<Rightarrow> late_delivery_context \<Rightarrow> late_result \<Rightarrow> late_outcome \<Rightarrow> session_host \<Rightarrow> session_host \<times> (host_error + unit)" where
  "late_finally now context late lo h =
     (let h = late_settle context h in
      case late_derived late lo of
        None \<Rightarrow> (h, Inr ())
      | Some derived \<Rightarrow> emit_work_status now (late_report context derived) h)"

text \<open>The cancellation marker is read and cleared once, before the branches; an error leaves it alone.\<close>

definition late_marker ::
    "(string \<Rightarrow> grounded_result option) \<Rightarrow> late_result \<Rightarrow> session_host \<Rightarrow> session_host \<times> bool" where
  "late_marker as_grounded late h =
     (if lr_error late = None \<and> lr_work_item_id late \<in> wl_cancelled_ids (sh_work h) then
        let h = on_work (clear_cancelled (lr_work_item_id late)) h in
        (case Option.bind (lr_result late) as_grounded of
           None \<Rightarrow> h
         | Some result \<Rightarrow> fst (pop_clarification_candidate (gr_result_id result) h), True)
      else (h, False))"

definition commit_late_result_once ::
    "(string \<Rightarrow> grounded_result option) \<Rightarrow> instant \<Rightarrow> string \<Rightarrow> late_delivery_context \<Rightarrow> late_result \<Rightarrow> session_host \<Rightarrow>
     session_host \<times> late_outcome \<times> host_error option" where
  "commit_late_result_once as_grounded now timestamp context late h =
     (let (h, was_cancelled) = late_marker as_grounded late h;
          (h, lo, exc) = late_branches as_grounded now timestamp context late was_cancelled h in
      case late_finally now context late lo h of
        (h, Inl e) \<Rightarrow> (h, lo, Some e)
      | (h, Inr _) \<Rightarrow> (h, lo, exc))"

section \<open>Delegation\<close>

record delegation_request =
  dr_turn_id :: string
  dr_work_item_id :: string
  dr_worker :: "worker_object option"
  dr_origin_epoch :: epoch
  dr_worker_id_override :: "string option"
  dr_parent_work_item_id :: "string option"

definition delegation_report ::
    "delegation_request \<Rightarrow> string option \<Rightarrow> work_status_state \<Rightarrow> terminal_reason option \<Rightarrow> child_report" where
  "delegation_report r worker_id st reason =
     \<lparr>cr_turn_id = dr_turn_id r, cr_work_item_id = dr_work_item_id r,
      cr_parent_work_item_id = dr_parent_work_item_id r, cr_worker_id = worker_id, cr_state = st,
      cr_origin_epoch = Some (dr_origin_epoch r), cr_terminal_reason = reason\<rparr>"

definition delegation_worker_id :: "delegation_request \<Rightarrow> worker_object \<Rightarrow> string" where
  "delegation_worker_id r w =
     (if truthy (dr_worker_id_override r) then the (dr_worker_id_override r)
      else case wk_metadata w of
        None \<Rightarrow> ''main''
      | Some m \<Rightarrow> wm_worker_id m)"

text \<open>
  \<open>_begin_delegation\<close>: the result is the delegated child (its id and worker), \<open>None\<close> for a rejection; the
  dictionary \<open>delegated_children\<close> of the caller comes back with it. The recorders are telemetry.
\<close>

definition begin_delegation ::
    "instant \<Rightarrow> delegation_request \<Rightarrow> (string, string option) dict \<Rightarrow> session_host \<Rightarrow>
     session_host \<times> (string, string option) dict \<times> (host_error + (string \<times> string) option)" where
  "begin_delegation now r children h =
     (case dr_worker r of
        None \<Rightarrow>
          (case emit_work_status now (delegation_report r None WsFailed (Some MissingWorker)) h of
             (h, Inl e) \<Rightarrow> (h, children, Inl e)
           | (h, Inr _) \<Rightarrow> (h, children, Inr None))
      | Some w \<Rightarrow>
          let h = on_state (project_worker w (dr_origin_epoch r) ''running'' None) h;
              worker_id = delegation_worker_id r w in
          if \<not> wk_search w then
            (case emit_work_status now (delegation_report r (Some worker_id) WsFailed None) h of
               (h, Inl e) \<Rightarrow> (h, children, Inl e)
             | (h, Inr _) \<Rightarrow> (h, children, Inr None))
          else
            let children = AList.update (dr_work_item_id r) (Some worker_id) children;
                h = on_ledger (register_turn_work_item (dr_turn_id r) (dr_work_item_id r)) h;
                h = on_work (register_known (dr_work_item_id r)) h in
            (case emit_work_status now (delegation_report r (Some worker_id) WsRouting None) h of
               (h, Inl e) \<Rightarrow> (h, children, Inl e)
             | (h, Inr _) \<Rightarrow> (h, children, Inr (Some (dr_work_item_id r, worker_id)))))"

definition mark_delegation_searching ::
    "instant \<Rightarrow> string \<times> string \<Rightarrow> string \<Rightarrow> epoch \<Rightarrow> string option \<Rightarrow> session_host \<Rightarrow> session_host \<times> (host_error + unit)" where
  "mark_delegation_searching now child turn_id origin_epoch parent h =
     emit_work_status now
       \<lparr>cr_turn_id = turn_id, cr_work_item_id = fst child, cr_parent_work_item_id = parent,
        cr_worker_id = Some (snd child), cr_state = WsSearching, cr_origin_epoch = Some origin_epoch,
        cr_terminal_reason = None\<rparr> h"

section \<open>Cancellation\<close>

text \<open>
  \<open>_cancel_work\<close>. The set \<open>known_ids\<close> is iterated in an order of its own: \<open>known\<close> lists it in some order.
  The tasks that receive a cancellation come back too.
\<close>

definition cancel_work_items ::
    "string list \<Rightarrow> string option \<Rightarrow> string option \<Rightarrow> session_host \<Rightarrow> session_host \<times> string list \<times> nat set" where
  "cancel_work_items known work_item_id exclude h =
     (let selected = filter (\<lambda>i. (work_item_id = None \<or> work_item_id = Some i) \<and> Some i \<noteq> exclude) (local_ids (sh_work h));
          (co, ids) = (case sh_coordinator h of
             None \<Rightarrow> (None, [])
           | Some co \<Rightarrow> (let (co, ids) = cancel_work work_item_id co in (Some co, ids)));
          selected = fromkeys (selected @ ids);
          selected = (if work_item_id = None then fromkeys (selected @ known) else selected);
          selected = filter (\<lambda>i. Some i \<noteq> exclude) selected;
          (l, tasks) = cancel_selected selected (sh_work h)
      in (h\<lparr>sh_coordinator := co, sh_work := l\<rparr>, selected, tasks))"

definition coordinator_live :: "session_host \<Rightarrow> string set" where
  "coordinator_live h = (case sh_coordinator h of None \<Rightarrow> {} | Some co \<Rightarrow> set (live_work_item_ids co))"

definition scheduler_live :: "string \<Rightarrow> scheduler \<Rightarrow> string set" where
  "scheduler_live ack s =
     pending_work_item_ids (Some ack) s \<union>
     (case sc_active s of
        None \<Rightarrow> {}
      | Some l \<Rightarrow> if si_work_item_id (ul_item l) \<noteq> ack then {si_work_item_id (ul_item l)} else {})"

definition remaining_children :: "nat \<Rightarrow> string \<Rightarrow> string \<Rightarrow> session_host \<Rightarrow> string set" where
  "remaining_children origin turn_id child h =
     ((scheduler_live (ack_work_item_id turn_id) (cp_scheduler (pipeline_of origin h)) \<union> live_ids (sh_work h) \<union>
       coordinator_live h) \<inter> turn_work_items turn_id (ah_ledger (sh_ack h)))
     - wl_cancelled_ids (sh_work h) - {child}"

definition clear_swept_latches :: "speech_item list \<Rightarrow> turn_ack_ledger \<Rightarrow> turn_ack_ledger" where
  "clear_swept_latches items l =
     fold (\<lambda>i l. if si_role i = ROLE_ACK then (case si_turn_id i of None \<Rightarrow> l | Some t \<Rightarrow> clear_ack_latch t l) else l) items l"

definition host_cancel :: "nat \<Rightarrow> string option \<Rightarrow> session_host \<Rightarrow> session_host \<times> speech_item list" where
  "host_cancel origin k h =
     (on_scheduler origin (with_scheduler origin (\<lambda>s. fst (cancel k s))) h,
      snd (cancel k (cp_scheduler (pipeline_of origin h))))"

definition cancel_turn_or_child ::
    "string list \<Rightarrow> string option \<Rightarrow> string option \<Rightarrow> nat option \<Rightarrow> string option \<Rightarrow> session_host \<Rightarrow>
     session_host \<times> string list \<times> speech_item list" where
  "cancel_turn_or_child known turn_id child origin exclude h =
     (case (case origin of None \<Rightarrow> sh_connection h | Some o' \<Rightarrow> Some o') of
        None \<Rightarrow> (case turn_id of None \<Rightarrow> h | Some t \<Rightarrow> on_ledger (clear_ack_latch t) h, [], [])
      | Some o' \<Rightarrow>
          let (h, cancelled_work, tasks) = cancel_work_items known child exclude h;
              (h, cancelled_speech) = host_cancel o' child h in
          (case child of
             None \<Rightarrow>
               let h = (case turn_id of None \<Rightarrow> h | Some t \<Rightarrow> on_ledger (clear_ack_latch t) h) in
               (on_ledger (clear_swept_latches cancelled_speech) h, cancelled_work, cancelled_speech)
           | Some c \<Rightarrow>
               (case turn_id of
                  None \<Rightarrow> (h, cancelled_work, cancelled_speech)
                | Some t \<Rightarrow>
                    if remaining_children o' t c h = {}
                    then (on_ledger (clear_ack_latch t) (fst (host_cancel o' (Some (ack_work_item_id t)) h)),
                          cancelled_work, cancelled_speech)
                    else (h, cancelled_work, cancelled_speech))))"

end
