(* ===== verification/Turn_Epilogue_Properties.thy ===== *)
theory Turn_Epilogue_Properties
  imports Turn_Epilogue Session_Ledger
begin

text \<open>
  The epilogues against their specifications. \<open>traced\<close> wraps any context and records the calls it
  receives together with the outcome of every commit; it changes nothing else (\<open>traced_fan_out\<close>).
\<close>

section \<open>Recording the calls of a context\<close>

datatype 'e epilogue_call =
    SettledAck string bool
  | Emitted child_report
  | Committed grounded_result speech_role "'e raised + grounded_result \<times> string set"
  | TurnFinalized

type_synonym ('s, 'e) traced_state = "'s \<times> 'e epilogue_call list"

definition traced :: "('s, 'e) epilogue_ctx \<Rightarrow> (('s, 'e) traced_state, 'e) epilogue_ctx" where
  "traced ctx =
     \<lparr>ec_settle_turn_ack = (\<lambda>turn_id c (s, calls). (ec_settle_turn_ack ctx turn_id c s, calls @ [SettledAck turn_id c])),
      ec_emit_work_status = (\<lambda>r (s, calls). case ec_emit_work_status ctx r s of (s, x) \<Rightarrow> ((s, calls @ [Emitted r]), x)),
      ec_release_turn_work_item = (\<lambda>turn_id i (s, calls). (ec_release_turn_work_item ctx turn_id i s, calls)),
      ec_release_all_turn_work_items = (\<lambda>turn_id (s, calls). (ec_release_all_turn_work_items ctx turn_id s, calls)),
      ec_worker_projection = map_option (\<lambda>f e st r (s, calls). (f e st r s, calls)) (ec_worker_projection ctx),
      ec_commit_and_speak =
        (\<lambda>r role (s, calls). case ec_commit_and_speak ctx r role s of (s, x) \<Rightarrow> ((s, calls @ [Committed r role x]), x)),
      ec_child_finalize = (\<lambda>l w r (s, calls). (ec_child_finalize ctx l w r s, calls)),
      ec_record_commit = (\<lambda>(s, calls). (ec_record_commit ctx s, calls)),
      ec_turn_finalize = (\<lambda>(s, calls). (ec_turn_finalize ctx s, calls @ [TurnFinalized]))\<rparr>"

lemma traced_simps [simp]:
  "ec_settle_turn_ack (traced ctx) turn_id c (s, calls) = (ec_settle_turn_ack ctx turn_id c s, calls @ [SettledAck turn_id c])"
  "ec_emit_work_status (traced ctx) r (s, calls) =
     ((fst (ec_emit_work_status ctx r s), calls @ [Emitted r]), snd (ec_emit_work_status ctx r s))"
  "ec_commit_and_speak (traced ctx) g role (s, calls) =
     ((fst (ec_commit_and_speak ctx g role s), calls @ [Committed g role (snd (ec_commit_and_speak ctx g role s))]),
      snd (ec_commit_and_speak ctx g role s))"
  "ec_turn_finalize (traced ctx) (s, calls) = (ec_turn_finalize ctx s, calls @ [TurnFinalized])"
  by (simp_all add: traced_def split_beta)

section \<open>Specification of the fan-out epilogue\<close>

text \<open>\<open>os\<close> are the outcomes of the commits, one for each index in ascending order.\<close>

definition result_at :: "fan_out_args \<Rightarrow> nat \<Rightarrow> grounded_result" where
  "result_at a i = the (map_of (fa_results a) i)"

fun final_status :: "('e raised + grounded_result \<times> string set) \<Rightarrow> held_status \<Rightarrow> held_status" where
  "final_status (Inl e) h = failed_status h"
| "final_status (Inr (value, suppressed)) h = settled_status suppressed h"

fun item_calls ::
    "fan_out_args \<Rightarrow> (nat, held_status) dict \<Rightarrow> nat \<times> ('e raised + grounded_result \<times> string set) \<Rightarrow> 'e epilogue_call list" where
  "item_calls a deferred (i, x) =
     Committed (result_at a i) (fan_out_role a i) x #
     (case map_of deferred i of None \<Rightarrow> [] | Some h \<Rightarrow> [Emitted (fan_out_report a (final_status x h))])"

fun item_value :: "fan_out_args \<Rightarrow> nat \<times> ('e raised + grounded_result \<times> string set) \<Rightarrow> grounded_result" where
  "item_value a (i, Inl e) = result_at a i"
| "item_value a (i, Inr (value, suppressed)) = value"

definition raised_in :: "('e raised + 'a) list \<Rightarrow> 'e raised list" where
  "raised_in os = concat (map (\<lambda>x. case x of Inl e \<Rightarrow> [e] | Inr _ \<Rightarrow> []) os)"

definition leftover :: "nat set \<Rightarrow> (nat, held_status) dict \<Rightarrow> held_status list" where
  "leftover done_indexes deferred = map snd (filter (\<lambda>(i, h). i \<notin> done_indexes) deferred)"

definition fan_out_spec ::
    "fan_out_args \<Rightarrow> (nat, held_status) dict \<Rightarrow> ('e raised + grounded_result \<times> string set) list \<Rightarrow> 'e epilogue_call list" where
  "fan_out_spec a deferred os =
     SettledAck (fa_turn_id a) (fa_attributed_indexes a = {} \<and> fa_retained_work_items a = {}) #
     concat (map (item_calls a deferred) (zip (sort (dkeys (fa_results a))) os)) @
     map (\<lambda>h. Emitted (fan_out_report a h)) (leftover (set (dkeys (fa_results a))) deferred) @
     (if raised_in os = [] then [TurnFinalized] else [])"

definition fan_out_value ::
    "fan_out_args \<Rightarrow> ('e raised + grounded_result \<times> string set) list \<Rightarrow> 'e raised + grounded_result list" where
  "fan_out_value a os =
     (case raised_in os of
        e # es \<Rightarrow> Inl e
      | [] \<Rightarrow> Inr (map (item_value a) (zip (sort (dkeys (fa_results a))) os)))"

section \<open>The loops meet the specification\<close>

definition quiet_ctx :: "('s, 'e) epilogue_ctx \<Rightarrow> bool" where
  "quiet_ctx ctx \<longleftrightarrow>
     (\<forall>r s. snd (ec_emit_work_status ctx r s) = Inr ()) \<and>
     (\<forall>r role s. snd (ec_commit_and_speak ctx r role s) \<noteq> Inl CancelledError)"

lemma quiet_ctxD:
  assumes "quiet_ctx ctx"
  shows "ec_emit_work_status ctx r s = (fst (ec_emit_work_status ctx r s), Inr ())"
    and "snd (ec_commit_and_speak ctx g role s) \<noteq> Inl CancelledError"
  using assms by (simp_all add: quiet_ctx_def prod_eq_iff)

lemma emit_held_traced:
  assumes "quiet_ctx ctx"
  shows "\<exists>s'. emit_held ctx a f held s = (s', Inr ()) \<and>
    (\<forall>calls. emit_held (traced ctx) a f held (s, calls) =
      ((s', calls @ (case held of None \<Rightarrow> [] | Some h \<Rightarrow> [Emitted (fan_out_report a (f h))])), Inr ()))"
  using assms quiet_ctxD(1) [OF assms]
  by (cases held) (auto simp: emit_held_def quiet_ctx_def prod_eq_iff)

lemma delete_filter: "AList.delete k d = filter (\<lambda>(i, h). i \<noteq> k) d"
  by (induction d) (auto simp: AList.delete_eq)

lemma fan_out_commit_step:
  assumes "ec_commit_and_speak ctx (result_at a i) (fan_out_role a i) s = (s1, x)" and "x \<noteq> Inl CancelledError"
    and "emit_held ctx a (final_status x) (map_of deferred i) s1 = (s2, Inr ())"
  shows "fan_out_commit ctx a (i # ixs) committed excs deferred s =
    fan_out_commit ctx a ixs (committed @ [item_value a (i, x)]) (excs @ raised_in [x]) (AList.delete i deferred) s2"
proof (cases x)
  case (Inl e)
  then have "final_status x = failed_status" by (intro ext) simp
  with Inl assms show ?thesis by (cases e) (simp_all add: result_at_def raised_in_def)
next
  case (Inr p)
  obtain v u where p: "p = (v, u)" by force
  then have "final_status x = settled_status u" using Inr by (intro ext) simp
  with Inr p assms show ?thesis by (simp add: result_at_def raised_in_def)
qed

definition commit_step_ok ::
    "('s, 'e) epilogue_ctx \<Rightarrow> fan_out_args \<Rightarrow> nat list \<Rightarrow> grounded_result list \<Rightarrow> 'e raised list \<Rightarrow>
     (nat, held_status) dict \<Rightarrow> 's \<Rightarrow> 'e epilogue_call list \<Rightarrow> bool" where
  "commit_step_ok ctx a ixs committed excs deferred s calls \<longleftrightarrow>
     (\<exists>os s'. length os = length ixs \<and>
        (let r = (committed @ map (item_value a) (zip ixs os), excs @ raised_in os,
                  filter (\<lambda>(i, h). i \<notin> set ixs) deferred) in
         fan_out_commit ctx a ixs committed excs deferred s = (s', Inr r) \<and>
         fan_out_commit (traced ctx) a ixs committed excs deferred (s, calls) =
           ((s', calls @ concat (map (item_calls a deferred) (zip ixs os))), Inr r)))"

lemma item_calls_delete:
  "i \<notin> set ixs \<Longrightarrow>
   map (item_calls a (AList.delete i deferred)) (zip ixs os) = map (item_calls a deferred) (zip ixs os)"
  by (rule map_cong) (auto dest: set_zip_leftD)

lemma fan_out_commit_traced:
  assumes "quiet_ctx ctx" and "distinct ixs"
  shows "commit_step_ok ctx a ixs committed excs deferred s calls"
  using assms(2)
proof (induction ixs arbitrary: committed excs deferred s calls)
  case Nil
  show ?case by (simp add: commit_step_ok_def raised_in_def)
next
  case (Cons i ixs committed excs deferred s calls)
  define x where "x = snd (ec_commit_and_speak ctx (result_at a i) (fan_out_role a i) s)"
  define s1 where "s1 = fst (ec_commit_and_speak ctx (result_at a i) (fan_out_role a i) s)"
  have call: "ec_commit_and_speak ctx (result_at a i) (fan_out_role a i) s = (s1, x)"
    by (simp add: x_def s1_def)
  have x: "x \<noteq> Inl CancelledError" using quiet_ctxD(2) [OF assms(1)] by (simp add: x_def)
  obtain s2 where held: "emit_held ctx a (final_status x) (map_of deferred i) s1 = (s2, Inr ())"
    "\<And>calls. emit_held (traced ctx) a (final_status x) (map_of deferred i) (s1, calls) =
      ((s2, calls @ (case map_of deferred i of None \<Rightarrow> [] | Some h \<Rightarrow> [Emitted (fan_out_report a (final_status x h))])), Inr ())"
    using emit_held_traced [OF assms(1)] by blast
  let ?calls = "calls @ item_calls a deferred (i, x)"
  let ?excs = "excs @ raised_in [x]"
  have unfold1: "fan_out_commit ctx a (i # ixs) committed excs deferred s =
      fan_out_commit ctx a ixs (committed @ [item_value a (i, x)]) ?excs (AList.delete i deferred) s2"
    by (rule fan_out_commit_step [OF call x held(1)])
  have tcall: "ec_commit_and_speak (traced ctx) (result_at a i) (fan_out_role a i) (s, calls) =
      ((s1, calls @ [Committed (result_at a i) (fan_out_role a i) x]), x)"
    by (simp add: call)
  have theld: "emit_held (traced ctx) a (final_status x) (map_of deferred i)
      (s1, calls @ [Committed (result_at a i) (fan_out_role a i) x]) = ((s2, ?calls), Inr ())"
    by (simp add: held(2))
  have unfold2: "fan_out_commit (traced ctx) a (i # ixs) committed excs deferred (s, calls) =
      fan_out_commit (traced ctx) a ixs (committed @ [item_value a (i, x)]) ?excs (AList.delete i deferred) (s2, ?calls)"
    by (rule fan_out_commit_step [OF tcall x theld])
  have "commit_step_ok ctx a ixs (committed @ [item_value a (i, x)]) ?excs (AList.delete i deferred) s2 ?calls"
    using Cons.IH Cons.prems by simp
  then obtain os s' where os: "length os = length ixs"
    "fan_out_commit ctx a ixs (committed @ [item_value a (i, x)]) ?excs (AList.delete i deferred) s2 =
       (s', Inr ((committed @ [item_value a (i, x)]) @ map (item_value a) (zip ixs os), ?excs @ raised_in os,
         filter (\<lambda>(i, h). i \<notin> set ixs) (AList.delete i deferred)))"
    "fan_out_commit (traced ctx) a ixs (committed @ [item_value a (i, x)]) ?excs (AList.delete i deferred) (s2, ?calls) =
       ((s', ?calls @ concat (map (item_calls a (AList.delete i deferred)) (zip ixs os))),
        Inr ((committed @ [item_value a (i, x)]) @ map (item_value a) (zip ixs os), ?excs @ raised_in os,
         filter (\<lambda>(i, h). i \<notin> set ixs) (AList.delete i deferred)))"
    unfolding commit_step_ok_def Let_def by blast
  have drop: "filter (\<lambda>(j, h). j \<notin> set ixs) (AList.delete i deferred) = filter (\<lambda>(j, h). j \<notin> set (i # ixs)) deferred"
    by (auto simp: delete_filter intro!: filter_cong)
  have ix: "i \<notin> set ixs" using Cons.prems by simp
  show ?case
    unfolding commit_step_ok_def Let_def
    by (rule exI [of _ "x # os"], rule exI [of _ s'])
      (use os in \<open>simp add: unfold1 unfold2 drop item_calls_delete [OF ix] raised_in_def del: item_calls.simps fan_out_commit.simps\<close>)
qed

lemma fan_out_sweep_traced:
  assumes "quiet_ctx ctx"
  shows "\<exists>s'. fan_out_sweep ctx a hs s = (s', Inr ()) \<and>
    (\<forall>calls. fan_out_sweep (traced ctx) a hs (s, calls) = ((s', calls @ map (\<lambda>h. Emitted (fan_out_report a h)) hs), Inr ()))"
proof (induction hs arbitrary: s)
  case (Cons h hs)
  define s1 where "s1 = fst (ec_emit_work_status ctx (fan_out_report a h) s)"
  have e: "ec_emit_work_status ctx (fan_out_report a h) s = (s1, Inr ())"
    unfolding s1_def by (rule quiet_ctxD(1) [OF assms])
  from Cons.IH [of s1] show ?case by (auto simp: e)
qed simp

lemma traced_fan_out:
  assumes "quiet_ctx ctx" and "wf_dict (fa_results a)"
  shows "\<exists>os s'. length os = length (fa_results a) \<and>
    finalize_fan_out_turn ctx a deferred s = (s', fan_out_value a os) \<and>
    finalize_fan_out_turn (traced ctx) a deferred (s, calls) = ((s', calls @ fan_out_spec a deferred os), fan_out_value a os)"
proof -
  let ?ixs = "sort (dkeys (fa_results a))"
  let ?cancel = "fa_attributed_indexes a = {} \<and> fa_retained_work_items a = {}"
  define s0 where "s0 = ec_settle_turn_ack ctx (fa_turn_id a) ?cancel s"
  have "distinct ?ixs" using assms(2) by (simp add: wf_dict_def)
  then have "commit_step_ok ctx a ?ixs [] [] deferred s0 (calls @ [SettledAck (fa_turn_id a) ?cancel])"
    by (rule fan_out_commit_traced [OF assms(1)])
  then obtain os s1 where os: "length os = length ?ixs"
    "fan_out_commit ctx a ?ixs [] [] deferred s0 =
       (s1, Inr (map (item_value a) (zip ?ixs os), raised_in os, filter (\<lambda>(i, h). i \<notin> set ?ixs) deferred))"
    "fan_out_commit (traced ctx) a ?ixs [] [] deferred (s0, calls @ [SettledAck (fa_turn_id a) ?cancel]) =
       ((s1, (calls @ [SettledAck (fa_turn_id a) ?cancel]) @ concat (map (item_calls a deferred) (zip ?ixs os))),
        Inr (map (item_value a) (zip ?ixs os), raised_in os, filter (\<lambda>(i, h). i \<notin> set ?ixs) deferred))"
    unfolding commit_step_ok_def Let_def append_Nil by blast
  obtain s2 where sw: "fan_out_sweep ctx a (leftover (set ?ixs) deferred) s1 = (s2, Inr ())"
    "\<And>calls. fan_out_sweep (traced ctx) a (leftover (set ?ixs) deferred) (s1, calls) =
       ((s2, calls @ map (\<lambda>h. Emitted (fan_out_report a h)) (leftover (set ?ixs) deferred)), Inr ())"
    using fan_out_sweep_traced [OF assms(1)] by blast
  show ?thesis
  proof (intro exI conjI)
    show "length os = length (fa_results a)" using os(1) by simp
    show "finalize_fan_out_turn ctx a deferred s =
        (if raised_in os = [] then ec_turn_finalize ctx s2 else s2, fan_out_value a os)"
      using os(2) sw(1) by (simp add: finalize_fan_out_turn_def fan_out_value_def leftover_def Let_def
          flip: s0_def split: list.split)
    show "finalize_fan_out_turn (traced ctx) a deferred (s, calls) =
        ((if raised_in os = [] then ec_turn_finalize ctx s2 else s2, calls @ fan_out_spec a deferred os), fan_out_value a os)"
      using os(3) sw(2) by (simp add: finalize_fan_out_turn_def fan_out_value_def fan_out_spec_def leftover_def Let_def
          flip: s0_def split: list.split)
  qed
qed

section \<open>Every held status is emitted once\<close>

definition emitted_items :: "'e epilogue_call list \<Rightarrow> string list" where
  "emitted_items calls = concat (map (\<lambda>c. case c of Emitted r \<Rightarrow> [cr_work_item_id r] | _ \<Rightarrow> []) calls)"

lemma emitted_items_append [simp]: "emitted_items (xs @ ys) = emitted_items xs @ emitted_items ys"
  by (simp add: emitted_items_def)

lemma emitted_items_simps [simp]:
  "emitted_items [] = []" "emitted_items (SettledAck i c # calls) = emitted_items calls"
  "emitted_items (Emitted r # calls) = cr_work_item_id r # emitted_items calls"
  "emitted_items (Committed g role x # calls) = emitted_items calls"
  "emitted_items (TurnFinalized # calls) = emitted_items calls"
  by (simp_all add: emitted_items_def)

lemma report_item [simp]: "cr_work_item_id (fan_out_report a h) = fst h"
  by (simp add: fan_out_report_def split_beta)

lemma final_status_item [simp]: "fst (final_status x h) = fst h"
  by (cases x) (auto simp: failed_status_def settled_status_def split_beta)

lemma emitted_sweep: "emitted_items (map (\<lambda>h. Emitted (fan_out_report a h)) hs) = map fst hs"
  by (induction hs) simp_all

lemma filter_key: "wf_dict d \<Longrightarrow> filter (\<lambda>(j, h). j = i) d = (case map_of d i of None \<Rightarrow> [] | Some h \<Rightarrow> [(i, h)])"
proof (induction d)
  case (Cons p d)
  then show ?case
    by (cases p) (auto simp: wf_dict_def map_of_eq_None_iff split: option.splits
        intro!: filter_False dest: map_of_SomeD intro: rev_image_eqI)
qed simp

lemma mset_filter_Cons:
  "i \<notin> set ixs \<Longrightarrow> mset (filter (\<lambda>(j, h). j \<in> set (i # ixs)) d) =
     mset (filter (\<lambda>(j, h). j = i) d) + mset (filter (\<lambda>(j, h). j \<in> set ixs) d)"
  by (induction d) auto

lemma mset_filter_split: "mset d = mset (filter (\<lambda>(i, h). i \<in> A) d) + mset (filter (\<lambda>(i, h). i \<notin> A) d)"
  by (induction d) auto

lemma emitted_commits:
  assumes "wf_dict deferred" and "distinct ixs" and "length os = length ixs"
  shows "mset (emitted_items (concat (map (item_calls a deferred) (zip ixs os)))) =
    image_mset (fst \<circ> snd) (mset (filter (\<lambda>(i, h). i \<in> set ixs) deferred))"
  using assms(2,3)
proof (induction ixs arbitrary: os)
  case (Cons i ixs)
  then obtain x xs where os: "os = x # xs" "length xs = length ixs" by (cases os) auto
  have "i \<notin> set ixs" "distinct ixs" using Cons.prems by auto
  then have "mset (filter (\<lambda>(j, h). j \<in> set (i # ixs)) deferred) =
      mset (case map_of deferred i of None \<Rightarrow> [] | Some h \<Rightarrow> [(i, h)]) + mset (filter (\<lambda>(j, h). j \<in> set ixs) deferred)"
    using mset_filter_Cons [of i ixs deferred] filter_key [OF assms(1), of i] by metis
  with Cons.IH [OF \<open>distinct ixs\<close> os(2)] show ?case
    by (simp add: os(1) split: option.split)
qed simp

lemma spec_emits_every_held_status:
  assumes "wf_dict (fa_results a)" and "wf_dict deferred" and "length os = length (fa_results a)"
  shows "mset (emitted_items (fan_out_spec a deferred os)) = mset (map (fst \<circ> snd) deferred)"
proof -
  let ?ixs = "sort (dkeys (fa_results a))"
  have 1: "mset (emitted_items (concat (map (item_calls a deferred) (zip ?ixs os)))) =
      image_mset (fst \<circ> snd) (mset (filter (\<lambda>(i, h). i \<in> set ?ixs) deferred))"
    using assms by (intro emitted_commits) (simp_all add: wf_dict_def)
  have 2: "mset (map fst (leftover (set ?ixs) deferred)) =
      image_mset (fst \<circ> snd) (mset (filter (\<lambda>(i, h). i \<notin> set ?ixs) deferred))"
    by (simp add: leftover_def multiset.map_comp)
  have 3: "mset deferred = mset (filter (\<lambda>(i, h). i \<in> set ?ixs) deferred) + mset (filter (\<lambda>(i, h). i \<notin> set ?ixs) deferred)"
    by (rule mset_filter_split)
  have 4: "emitted_items (fan_out_spec a deferred os) =
      emitted_items (concat (map (item_calls a deferred) (zip ?ixs os))) @ map fst (leftover (set ?ixs) deferred)"
    by (simp add: fan_out_spec_def emitted_sweep)
  show ?thesis
    unfolding 4 mset_append 1 2 unfolding mset_map image_mset_union [symmetric] 3 [symmetric] ..
qed

section \<open>Properties\<close>


definition demo_ctx :: "(nat, string) epilogue_ctx" where
  "demo_ctx =
     \<lparr>ec_settle_turn_ack = (\<lambda>i c n. n), ec_emit_work_status = (\<lambda>r n. (n + 1, Inr ())),
      ec_release_turn_work_item = (\<lambda>i w n. n), ec_release_all_turn_work_items = (\<lambda>i n. n),
      ec_worker_projection = None,
      ec_commit_and_speak = (\<lambda>r role n. (n, if gr_result_id r = ''r1'' then Inl (PyException ''speak'') else Inr (r, {''w0''}))),
      ec_child_finalize = (\<lambda>l w r n. n), ec_record_commit = (\<lambda>n. n), ec_turn_finalize = (\<lambda>n. n)\<rparr>"

definition demo_result :: "string \<Rightarrow> grounded_result" where
  "demo_result i =
     \<lparr>gr_result_id = i, gr_worker_id = ''w'', gr_turn_id = ''turn-1'', gr_timestamp = ''t'', gr_text = ''x'',
      gr_citations = [], gr_spoken_text = ''x'', gr_origin_epoch = Some 1\<rparr>"

definition demo_fan_out :: fan_out_args where
  "demo_fan_out =
     \<lparr>fa_turn_id = ''turn-1'', fa_parent_work_item_id = ''work-turn-1'', fa_origin_epoch = 1,
      fa_results = [(1, demo_result ''r1''), (0, demo_result ''r0'')], fa_attributed_indexes = {0, 1},
      fa_retained_work_items = {}, fa_speech_roles = []\<rparr>"


end
