(* ===== verification/Session_Host_Properties.thy ===== *)
theory Session_Host_Properties
  imports Session_Host Session_Ledger Turn_Epilogue_Properties Scheduler_Delivery
begin

text \<open>
  What the host's commit and cancellation paths do to the session: a late result is committed exactly
  when it passes the three fences, its child never stays on a non-terminal status, and a cancelled
  child takes the acknowledgement of its turn along exactly when it was the last live one.
\<close>

section \<open>Frames\<close>

text \<open>The results and the children of the work-status ledger are what the commit path must not disturb.\<close>

definition same_work :: "session_state \<Rightarrow> session_state \<Rightarrow> bool" where
  "same_work s t \<longleftrightarrow> ss_results t = ss_results s \<and> ss_ws_children t = ss_ws_children s"

lemma same_work_refl [simp]: "same_work s s"
  by (simp add: same_work_def)

lemma same_work_trans: "same_work s t \<Longrightarrow> same_work t u \<Longrightarrow> same_work s u"
  by (simp add: same_work_def)

lemma same_work_worker [simp]: "same_work s (fst (set_worker w s))"
  by (simp add: same_work_def set_worker_def split_def Let_def)

lemma same_work_transcript [simp]: "same_work s (fst (append_transcript e s))"
  by (simp add: same_work_def append_transcript_def split_def Let_def)

lemma same_work_progress [simp]: "same_work s (fst (speech_progress_op p b s))"
  by (cases rule: speech_progress_cases [of p b s]) (simp_all add: same_work_def)

lemma same_work_idle [simp]: "same_work s (worker_idle e r s)"
  by (simp add: worker_idle_def split: option.split)

lemma same_work_emits: "same_work (sc_state s) (sc_state (fold (emit_progress d) items s))"
proof (induction items arbitrary: s)
  case (Cons i items)
  have "same_work (sc_state s) (sc_state (emit_progress d i s))"
    by (simp add: emit_progress_def emit_progress_with_def)
  with Cons.IH show ?case by (auto intro: same_work_trans)
qed simp

lemma set_queue_state [simp]: "sc_state (set_queue k q s) = sc_state s"
  by (simp add: set_queue_def)

lemma discard_queued_state [simp]: "sc_state (fst (discard_queued k m s)) = sc_state s"
  by (simp add: discard_queued_def Let_def)

lemma discard_ack_fst:
  "fst (discard_queued_ack k s) = fst (discard_queued k (\<lambda>i. si_role i = ROLE_ACK \<and> si_ack_id i = Some k) s)"
  by (simp add: discard_queued_ack_def split: prod.split list.split)

lemma discard_ack_state [simp]: "sc_state (fst (discard_queued_ack k s)) = sc_state s"
  by (simp add: discard_ack_fst)

lemma same_work_notice: "same_work (sc_state s) (sc_state (fst (discard_queued_notice k s)))"
  using same_work_emits [of "fst (discard_queued k (\<lambda>i. si_role i = ROLE_TIMEOUT_NOTICE) s)" INTERRUPTED
      "snd (discard_queued k (\<lambda>i. si_role i = ROLE_TIMEOUT_NOTICE) s)"]
  by (simp add: discard_queued_notice_def split_beta)

section \<open>The transport slot\<close>

definition slot :: "scheduler \<Rightarrow> utterance_lease option \<times> Speech_Scheduler.submission list \<times> lifecycle" where
  "slot s = (sc_active s, sc_submissions s, sc_lifecycle s)"

lemma slot_set_queue [simp]: "slot (set_queue k q s) = slot s"
  by (simp add: slot_def set_queue_def)

lemma slot_emits [simp]: "slot (fold (emit_progress d) items s) = slot s"
  by (induction items arbitrary: s) (simp_all add: slot_def emit_progress_def emit_progress_with_def)

lemma slot_discards [simp]:
  "slot (fst (discard_queued k m s)) = slot s"
  "slot (fst (discard_queued_ack k s)) = slot s"
  "slot (fst (discard_queued_notice k s)) = slot s"
  by (simp_all add: discard_ack_fst discard_queued_notice_def split_beta discard_queued_def Let_def)

definition host_slot :: "session_host \<Rightarrow> nat \<Rightarrow> utterance_lease option \<times> Speech_Scheduler.submission list \<times> lifecycle" where
  "host_slot h i = slot (cp_scheduler (pipeline_of i h))"

section \<open>Scheduler calls of the host\<close>

lemma on_scheduler_with:
  "sh_state (on_scheduler origin (with_scheduler origin f) h) =
     sc_state (f ((cp_scheduler (pipeline_of origin h))\<lparr>sc_state := sh_state h\<rparr>))"
  "cp_scheduler (pipeline_of i (on_scheduler origin (with_scheduler origin f) h)) =
     (if i = origin then f ((cp_scheduler (pipeline_of origin h))\<lparr>sc_state := sh_state h\<rparr>)
      else cp_scheduler (pipeline_of i h))"
  by (simp_all add: on_scheduler_def with_scheduler_def pipeline_of_def Let_def)

lemma settle_as_with:
  "settle_turn_ack origin turn_id False a =
     (with_scheduler origin (\<lambda>s. fst (discard_queued_ack (ack_work_item_id turn_id) s)) a)
       \<lparr>ah_ledger := clear_ack_latch turn_id (ah_ledger (with_scheduler origin
          (\<lambda>s. fst (discard_queued_ack (ack_work_item_id turn_id) s)) a))\<rparr>"
  by (simp add: settle_turn_ack_def Let_def)

lemma host_settle:
  "sh_state (on_scheduler origin (settle_turn_ack origin t False) h) = sh_state h"
  "host_slot (on_scheduler origin (settle_turn_ack origin t False) h) i = host_slot h i"
  "sh_work (on_scheduler origin (settle_turn_ack origin t False) h) = sh_work h"
  "sh_background_status (on_scheduler origin (settle_turn_ack origin t False) h) = sh_background_status h"
  by (simp_all add: settle_as_with on_scheduler_def with_scheduler_def host_slot_def pipeline_of_def Let_def)
    (simp_all add: slot_def)

section \<open>A terminal report settles its child\<close>

lemma evict_protect_children:
  "map_of (ss_ws_children (evict_overflow protect s)) protect = map_of (ss_ws_children s) protect"
proof (induction protect s rule: evict_overflow.induct)
  case (1 protect s)
  then show ?case
    by (subst evict_overflow.simps)
      (auto simp: forget_work_status_def eviction_candidates_iff Let_def split: option.split dest!: first_min_in)
qed

definition child_settled :: "session_state \<Rightarrow> ws_key \<Rightarrow> string \<Rightarrow> bool" where
  "child_settled s key item \<longleftrightarrow> (\<forall>w. map_of (children_of s key) item = Some w \<longrightarrow> ws_terminal (ws_state w))"

lemma children_put_record: "ss_ws_children (put_record now k st r s) = ss_ws_children s"
  by (simp add: put_record_def Let_def)

lemma children_written:
  "children_of (fst (emit p (evict_overflow k (put_record now k st r s)))) k = children_of s k"
  by (simp add: children_of_def evict_protect_children children_put_record)

lemma terminal_report_settles:
  assumes "ws_terminal (cr_state c)" and "validate_work_status (child_status c) = Inr (child_status c)"
    and "\<And>w. map_of (children_of s (child_key c)) (cr_work_item_id c) = Some w \<Longrightarrow> ws_state w \<noteq> WsRouting"
  shows "child_settled (fst (set_child_work_status now c s)) (child_key c) (cr_work_item_id c)"
proof (cases "legal_report c s")
  case False
  have "ws_terminal (ws_state w)" if w: "map_of (children_of s (child_key c)) (cr_work_item_id c) = Some w" for w
    using False assms(1) assms(3) [OF w] w
    by (cases "ws_state w"; cases "cr_state c") (simp_all add: legal_report_def legal_work_status_transition_def)
  moreover have "set_child_work_status now c s = (s, Inr None)"
    by (cases rule: set_child_cases [of c s now]) (use False in auto)
  ultimately show ?thesis by (simp add: child_settled_def)
next
  case True
  have put: "child_settled (put_child c s) (child_key c) (cr_work_item_id c)"
    using assms(1) by (simp add: child_settled_def child_status_def)
  show ?thesis
  proof (cases rule: reported_cases [OF assms(2) True, of now])
    case (1 r)
    then show ?thesis using put by simp
  next
    case 2
    then show ?thesis by (simp add: child_settled_def children_of_def)
  next
    case (3 st reason ev)
    then show ?thesis using put by (simp add: child_settled_def children_written)
  qed
qed

section \<open>The branches of a late result\<close>

definition late_accepted ::
    "(string \<Rightarrow> grounded_result option) \<Rightarrow> late_delivery_context \<Rightarrow> late_result \<Rightarrow> session_host \<Rightarrow> grounded_result option" where
  "late_accepted as_grounded context late h =
     (if lr_error late \<noteq> None then None
      else case Option.bind (lr_result late) as_grounded of
        None \<Rightarrow> None
      | Some r \<Rightarrow>
          if gr_origin_epoch r = Some (ld_origin_epoch context) \<and> \<not> known_result (gr_result_id r) (sh_state h)
          then Some r else None)"

lemma on_frames [simp]:
  "sh_state (on_work f h) = sh_state h" "sh_ack (on_work f h) = sh_ack h" "sh_work (on_work f h) = f (sh_work h)"
  "sh_background_status (on_work f h) = sh_background_status h" "host_slot (on_work f h) = host_slot h"
  "sh_connection (on_work f h) = sh_connection h"
  "sh_state (on_state g h) = g (sh_state h)" "sh_ack (on_state g h) = sh_ack h" "sh_work (on_state g h) = sh_work h"
  "sh_background_status (on_state g h) = sh_background_status h" "host_slot (on_state g h) = host_slot h"
  "sh_state (on_ledger l h) = sh_state h" "sh_work (on_ledger l h) = sh_work h"
  "sh_background_status (on_ledger l h) = sh_background_status h" "host_slot (on_ledger l h) = host_slot h"
  "ah_ledger (sh_ack (on_ledger l h)) = l (ah_ledger (sh_ack h))"
  by (simp_all add: on_work_def on_state_def on_ledger_def host_slot_def pipeline_of_def fun_eq_iff)

lemma host_slot_state [simp]: "host_slot (h\<lparr>sh_state := s\<rparr>) = host_slot h"
  by (simp add: host_slot_def pipeline_of_def fun_eq_iff)

lemma commit_clarification_frame [simp]:
  "sh_state (fst (commit_clarification now r h)) = sh_state h"
  "sh_work (fst (commit_clarification now r h)) = sh_work h"
  "sh_background_status (fst (commit_clarification now r h)) = sh_background_status h"
  "host_slot (fst (commit_clarification now r h)) = host_slot h"
  by (simp_all add: commit_clarification_def pop_clarification_candidate_def host_slot_def pipeline_of_def fun_eq_iff
      split: option.split sum.split)

lemma append_new_result:
  assumes "gr_origin_epoch r = Some e" and "\<not> known_result (gr_result_id r) s"
  shows "ss_results (fst (append_result r None (gr_origin_epoch r) s)) = ss_results s @ [r]"
    and "ss_ws_children (fst (append_result r None (gr_origin_epoch r) s)) = ss_ws_children s"
    and "\<exists>ev. snd (append_result r None (gr_origin_epoch r) s) = Inr ev"
proof -
  have "append_result r None (Some e) s \<noteq> (s, Inr None)"
    using assms by (auto simp: append_result_def known_result_def result_log_append_def Let_def split_def image_iff split: option.splits)
  moreover have "stamp_result (Some e) r = r" using assms(1) by (simp add: stamp_result_def)
  ultimately show "ss_results (fst (append_result r None (gr_origin_epoch r) s)) = ss_results s @ [r]"
    "\<exists>ev. snd (append_result r None (gr_origin_epoch r) s) = Inr ev"
    using assms(1) by (cases rule: append_result_cases [of r None "Some e" s]; auto)+
  show "ss_ws_children (fst (append_result r None (gr_origin_epoch r) s)) = ss_ws_children s"
    using ss_step_ledger_frame(2) [of "AppendResult r None (gr_origin_epoch r)" s] by (simp add: ledger_op_def)
qed

lemma commit_new_result:
  fixes now :: instant and timestamp :: string
  assumes "gr_origin_epoch r = Some e" and "\<not> known_result (gr_result_id r) (sh_state h)"
  defines "h' \<equiv> fst (commit_result_state now timestamp r h)"
  shows "ss_results (sh_state h') = ss_results (sh_state h) @ [r]"
    and "ss_ws_children (sh_state h') = ss_ws_children (sh_state h)"
    and "sh_work h' = sh_work h" and "sh_background_status h' = sh_background_status h" and "host_slot h' = host_slot h"
proof -
  let ?t = "fst (append_transcript (transcript_of timestamp r) (sh_state h))"
  have t: "ss_results ?t = ss_results (sh_state h)" "ss_ws_children ?t = ss_ws_children (sh_state h)"
    using same_work_transcript [of "sh_state h"] by (simp_all add: same_work_def)
  then have "\<not> known_result (gr_result_id r) ?t" using assms(2) by (simp add: known_result_def)
  note app = append_new_result [OF assms(1) this]
  from app(3) obtain t ev where eq: "append_result r None (gr_origin_epoch r) ?t = (t, Inr ev)"
    by (metis prod.collapse)
  then have h': "h' = fst (commit_clarification now r
      ((on_state (\<lambda>s. fst (append_transcript (transcript_of timestamp r) s)) h)\<lparr>sh_state := t\<rparr>))"
    by (simp add: h'_def commit_result_state_def Let_def)
  show "ss_results (sh_state h') = ss_results (sh_state h) @ [r]"
    "ss_ws_children (sh_state h') = ss_ws_children (sh_state h)"
    "sh_work h' = sh_work h" "sh_background_status h' = sh_background_status h" "host_slot h' = host_slot h"
    unfolding h' using app t by (simp_all add: eq host_slot_def pipeline_of_def fun_eq_iff)
qed

text \<open>What the branches have in common.\<close>

definition late_effect ::
    "grounded_result option \<Rightarrow> late_result \<Rightarrow> session_host \<Rightarrow> session_host \<times> late_outcome \<times> host_error option \<Rightarrow> bool" where
  "late_effect accepted late h out \<longleftrightarrow>
     (case out of (h', lo, exc) \<Rightarrow>
        ss_results (sh_state h') = ss_results (sh_state h) @ (case accepted of None \<Rightarrow> [] | Some r \<Rightarrow> [r]) \<and>
        ss_ws_children (sh_state h') = ss_ws_children (sh_state h) \<and>
        wl_known_ids (sh_work h') = wl_known_ids (sh_work h) - {lr_work_item_id late} \<and>
        wl_cancelled_ids (sh_work h') = wl_cancelled_ids (sh_work h) \<and>
        sh_background_status h' = sh_background_status h \<and> host_slot h' = host_slot h \<and>
        (exc \<noteq> None \<longleftrightarrow> lo_commit_outcome lo = Some ''failed'') \<and>
        (accepted \<noteq> None \<longleftrightarrow> lo_commit_outcome lo \<in> {Some ''committed'', Some ''failed''}) \<and>
        lo_work_outcome lo \<noteq> None)"

lemma retire_ids [simp]:
  "wl_known_ids (retire i l) = wl_known_ids l - {i}" "wl_cancelled_ids (retire i l) = wl_cancelled_ids l"
  "wl_known_ids (clear_cancelled i l) = wl_known_ids l" "wl_cancelled_ids (clear_cancelled i l) = wl_cancelled_ids l - {i}"
  by (simp_all add: retire_def clear_cancelled_def)

lemma outcome_simps [simp]:
  "lo_work_outcome (outcome w c sp d i) = Some w" "lo_commit_outcome (outcome w c sp d i) = Some c"
  by (simp_all add: outcome_def)

lemma host_notice:
  "same_work (sh_state h) (sh_state (on_scheduler c (with_scheduler c (\<lambda>s. fst (discard_queued_notice k s))) h))"
  "sh_work (on_scheduler c f h) = sh_work h" "sh_background_status (on_scheduler c f h) = sh_background_status h"
  "host_slot (on_scheduler c (with_scheduler c (\<lambda>s. fst (discard_queued_notice k s))) h) = host_slot h"
proof -
  let ?s = "(cp_scheduler (pipeline_of c h))\<lparr>sc_state := sh_state h\<rparr>"
  show "same_work (sh_state h) (sh_state (on_scheduler c (with_scheduler c (\<lambda>s. fst (discard_queued_notice k s))) h))"
    using same_work_notice [of ?s k] by (simp add: on_scheduler_with)
  show "host_slot (on_scheduler c (with_scheduler c (\<lambda>s. fst (discard_queued_notice k s))) h) = host_slot h"
    by (rule ext) (simp add: host_slot_def on_scheduler_with, simp add: slot_def)
qed (simp_all add: on_scheduler_def Let_def)

lemma late_cancelled_effect:
  assumes "gr_origin_epoch r = Some e" and "\<not> known_result (gr_result_id r) (sh_state h)"
  shows "late_effect (Some r) late h (late_cancelled_commit now timestamp context late r h)"
proof -
  let ?h = "on_work (retire (lr_work_item_id late)) h"
  have "\<not> known_result (gr_result_id r) (sh_state ?h)" using assms(2) by simp
  note c = commit_new_result [OF assms(1) this, of now timestamp]
  have idle: "ss_results (worker_idle e' r s) = ss_results s" "ss_ws_children (worker_idle e' r s) = ss_ws_children s" for e' s
    using same_work_idle [of s e' r] by (simp_all add: same_work_def)
  obtain h' x where h': "commit_result_state now timestamp r ?h = (h', x)" by force
  show ?thesis
    using c unfolding h' fst_conv late_cancelled_commit_def late_effect_def
    by (cases x) (simp_all add: idle)
qed

lemma late_commit_effect:
  assumes "gr_origin_epoch r = Some e" and "\<not> known_result (gr_result_id r) (sh_state h)"
  shows "late_effect (Some r) late h (late_commit now timestamp context late r h)"
proof -
  note c = commit_new_result [OF assms, of now timestamp]
  have idle: "ss_results (worker_idle e' r s) = ss_results s" "ss_ws_children (worker_idle e' r s) = ss_ws_children s" for e' s
    using same_work_idle [of s e' r] by (simp_all add: same_work_def)
  obtain h' x where h': "commit_result_state now timestamp r h = (h', x)" by force
  let ?g = "on_state (worker_idle (ld_origin_epoch context) r) (on_work (retire (lr_work_item_id late)) h')"
  have notice: "ss_results (sh_state (on_scheduler c' (with_scheduler c' (\<lambda>s. fst (discard_queued_notice k s))) ?g)) = ss_results (sh_state ?g)"
    "ss_ws_children (sh_state (on_scheduler c' (with_scheduler c' (\<lambda>s. fst (discard_queued_notice k s))) ?g)) = ss_ws_children (sh_state ?g)" for c' k
    using host_notice(1) [where c = c' and k = k and h = ?g] by (simp_all add: same_work_def)
  show ?thesis
    using c unfolding h' fst_conv late_commit_def late_effect_def
    by (cases x; cases "late_speakable (ld_origin_epoch context) ?g")
      (simp_all add: idle notice [simplified idle on_frames] host_notice)
qed

lemma late_branches_effect:
  "late_effect (late_accepted as_grounded context late h) late h
     (late_branches as_grounded now timestamp context late was_cancelled h)"
proof (cases "lr_error late")
  case (Some e)
  then show ?thesis
    by (auto simp: late_branches_def late_accepted_def late_effect_def Let_def split: option.split)
next
  case None
  show ?thesis
  proof (cases "Option.bind (lr_result late) as_grounded")
    case unbound: None
    with None show ?thesis by (simp add: late_branches_def late_accepted_def late_effect_def Let_def)
  next
    case (Some r)
    show ?thesis
    proof (cases "gr_origin_epoch r = Some (ld_origin_epoch context) \<and> \<not> known_result (gr_result_id r) (sh_state h)")
      case True
      then have new: "\<not> (\<exists>item \<in> set (ss_results (sh_state h)). gr_result_id item = gr_result_id r)"
        unfolding known_result_def by (metis imageI)
      have "late_accepted as_grounded context late h = Some r" using True Some None by (simp add: late_accepted_def)
      moreover have "late_branches as_grounded now timestamp context late was_cancelled h =
          (if was_cancelled then late_cancelled_commit now timestamp context late r h
           else late_commit now timestamp context late r h)"
        unfolding late_branches_def Let_def using None Some True new by simp
      ultimately show ?thesis
        using True late_cancelled_effect late_commit_effect by simp
    next
      case False
      then have "late_accepted as_grounded context late h = None" using Some None by (simp add: late_accepted_def)
      moreover have "gr_origin_epoch r \<noteq> Some (ld_origin_epoch context) \<or>
          (\<exists>item \<in> set (ss_results (sh_state h)). gr_result_id item = gr_result_id r)"
        using False by (auto simp: known_result_def)
      ultimately show ?thesis
        using None Some by (auto simp: late_branches_def late_effect_def Let_def)
    qed
  qed
qed

lemma late_settle_frame:
  "sh_state (late_settle context h) = sh_state h" "sh_work (late_settle context h) = sh_work h"
  "sh_background_status (late_settle context h) = sh_background_status h"
  "host_slot (late_settle context h) = host_slot h"
  by (simp_all add: late_settle_def host_settle fun_eq_iff Let_def split: option.split)

lemma release_turn_work_item_gone: "w \<notin> turn_work_items t (release_turn_work_item t w l)"
  by (simp add: turn_work_items_def release_turn_work_item_def release_all_turn_work_items_def clear_ack_latch_def Let_def
      split: option.split)

lemma late_settle_releases:
  "ld_work_item_id context \<notin> turn_work_items (ld_turn_id context) (ah_ledger (sh_ack (late_settle context h)))"
  by (simp add: late_settle_def release_turn_work_item_gone Let_def)

lemma late_derived_valid:
  assumes "late_derived late lo = Some d"
  shows "ws_terminal (fst d)" and "snd d \<noteq> None \<Longrightarrow> fst d = WsFailed"
  using assms
  by (auto simp: late_derived_def late_commit_work_status_def work_status_for_outcome_def split: if_splits option.splits)

lemma late_report_valid:
  assumes "late_derived late lo = Some d" and "ld_turn_id context \<noteq> []"
  shows "validate_work_status (child_status (late_report context d)) = Inr (child_status (late_report context d))"
  using late_derived_valid(2) [OF assms(1)] assms(2)
  by (cases "snd d") (auto simp: validate_work_status_def child_status_def late_report_def)

lemma valid_report_accepted:
  assumes "validate_work_status (child_status c) = Inr w"
  shows "\<exists>ev. snd (set_child_work_status now c s) = Inr ev"
proof (cases "legal_report c s")
  case True
  show ?thesis by (cases rule: reported_cases [OF assms True, of now]) auto
next
  case False
  then show ?thesis by (cases rule: set_child_cases [of c s now]) auto
qed

lemma emit_work_status_frame [simp]:
  "ss_results (sh_state (fst (emit_work_status now c h))) = ss_results (sh_state h)"
  "sh_work (fst (emit_work_status now c h)) = sh_work h"
  "sh_ack (fst (emit_work_status now c h)) = sh_ack h"
  "host_slot (fst (emit_work_status now c h)) = host_slot h"
  using set_child_frame(3) [of now c "sh_state h"]
  by (auto simp: emit_work_status_def emit_status_def host_slot_def pipeline_of_def fun_eq_iff
      simp del: set_child_frame split: prod.splits sum.splits)

lemma emit_work_status_ok:
  assumes "validate_work_status (child_status c) = Inr w"
  shows "emit_work_status now c h =
    (h\<lparr>sh_state := (if sh_background_status h then fst (set_child_work_status now c (sh_state h)) else sh_state h)\<rparr>, Inr ())"
  using valid_report_accepted [OF assms, of now "sh_state h"]
  by (auto simp: emit_work_status_def emit_status_def split: prod.splits sum.splits)

definition late_key :: "late_delivery_context \<Rightarrow> ws_key" where
  "late_key context = child_key (late_report context (WsFailed, None))"

lemma late_report_key: "child_key (late_report context d) = late_key context"
  "cr_work_item_id (late_report context d) = ld_work_item_id context"
  by (simp_all add: late_key_def child_key_def late_report_def)

lemma late_finally_effect:
  fixes now :: instant and late :: late_result and lo :: late_outcome and h :: session_host
  assumes "ld_turn_id context \<noteq> []"
  defines "h1 \<equiv> fst (late_finally now context late lo h)"
  shows "snd (late_finally now context late lo h) = Inr ()"
    and "ss_results (sh_state h1) = ss_results (sh_state h)" and "sh_work h1 = sh_work h" and "host_slot h1 = host_slot h"
    and "ld_work_item_id context \<notin> turn_work_items (ld_turn_id context) (ah_ledger (sh_ack h1))"
  using late_settle_releases [of "context" h] late_report_valid [OF _ assms(1), of late lo]
  by (auto simp: h1_def late_finally_def late_settle_frame Let_def emit_work_status_ok split: option.split)

lemma late_commit_effects:
  assumes "ld_turn_id context \<noteq> []"
    and "commit_late_result_once as_grounded now timestamp context late h = (h', lo, exc)"
  shows "ss_results (sh_state h') = ss_results (sh_state h) @
      (case late_accepted as_grounded context late h of None \<Rightarrow> [] | Some r \<Rightarrow> [r])"
    and "late_accepted as_grounded context late h \<noteq> None \<longleftrightarrow> lo_commit_outcome lo \<in> {Some ''committed'', Some ''failed''}"
    and "exc \<noteq> None \<longleftrightarrow> lo_commit_outcome lo = Some ''failed''"
    and "lr_work_item_id late \<notin> wl_known_ids (sh_work h')"
    and "lr_error late = None \<Longrightarrow> lr_work_item_id late \<notin> wl_cancelled_ids (sh_work h')"
    and "ld_work_item_id context \<notin> turn_work_items (ld_turn_id context) (ah_ledger (sh_ack h'))"
    and "host_slot h' = host_slot h"
    and "late_accepted as_grounded context late h' = None"
proof -
  obtain h1 was where m: "late_marker as_grounded late h = (h1, was)" by force
  have marker: "sh_state h1 = sh_state h" "host_slot h1 = host_slot h" "wl_known_ids (sh_work h1) = wl_known_ids (sh_work h)"
    "lr_error late = None \<Longrightarrow> lr_work_item_id late \<notin> wl_cancelled_ids (sh_work h1)"
    using m by (auto simp: late_marker_def pop_clarification_candidate_def host_slot_def pipeline_of_def fun_eq_iff Let_def
        split: if_splits option.splits)
  obtain h2 lo2 exc2 where b: "late_branches as_grounded now timestamp context late was h1 = (h2, lo2, exc2)"
    by (metis prod_cases3)
  have acc: "late_accepted as_grounded context late h1 = late_accepted as_grounded context late h"
    unfolding late_accepted_def marker(1) ..
  have eff: "late_effect (late_accepted as_grounded context late h) late h1 (h2, lo2, exc2)"
    using late_branches_effect [of as_grounded "context" late h1 now timestamp was] unfolding acc b .
  note fin = late_finally_effect [OF assms(1), of now late lo2 h2]
  have out: "h' = fst (late_finally now context late lo2 h2)" "lo = lo2" "exc = exc2"
    using assms(2) fin(1) by (auto simp: commit_late_result_once_def m b split: prod.splits sum.splits)
  show res: "ss_results (sh_state h') = ss_results (sh_state h) @
      (case late_accepted as_grounded context late h of None \<Rightarrow> [] | Some r \<Rightarrow> [r])"
    using eff fin(2) by (simp add: out late_effect_def marker)
  show "late_accepted as_grounded context late h \<noteq> None \<longleftrightarrow> lo_commit_outcome lo \<in> {Some ''committed'', Some ''failed''}"
    "exc \<noteq> None \<longleftrightarrow> lo_commit_outcome lo = Some ''failed''"
    "lr_work_item_id late \<notin> wl_known_ids (sh_work h')" "host_slot h' = host_slot h"
    "lr_error late = None \<Longrightarrow> lr_work_item_id late \<notin> wl_cancelled_ids (sh_work h')"
    "ld_work_item_id context \<notin> turn_work_items (ld_turn_id context) (ah_ledger (sh_ack h'))"
    using eff fin(3-5) marker(2-) by (simp_all add: out late_effect_def)
  show "late_accepted as_grounded context late h' = None"
    using res by (auto simp: late_accepted_def known_result_def split: option.splits if_splits)
qed

section \<open>Cancelling one child\<close>

lemma set_fromkeys [simp]: "set (fromkeys xs) = set xs"
  by (simp add: fromkeys_def)

lemma request_cancel_tasks [simp]: "co_work_tasks (request_cancel t c) = co_work_tasks c"
  by (simp add: request_cancel_def split: option.split one_stage.split)

lemma cancel_work_frame:
  "co_work_tasks (fst (cancel_work w c)) = co_work_tasks c" "set (snd (cancel_work (Some i) c)) \<subseteq> {i}"
proof -
  have "co_work_tasks (fold (\<lambda>i c. case map_of (co_work_tasks c) i of None \<Rightarrow> c | Some t \<Rightarrow> request_cancel t c) ids c) =
      co_work_tasks c" for ids
    by (induction ids arbitrary: c) (auto split: option.split)
  then show "co_work_tasks (fst (cancel_work w c)) = co_work_tasks c" by (simp add: cancel_work_def Let_def)
qed (auto simp: cancel_work_def Let_def)

definition selected_ids :: "string \<Rightarrow> string option \<Rightarrow> session_host \<Rightarrow> string list" where
  "selected_ids c exclude h =
     filter (\<lambda>i. Some i \<noteq> exclude)
       (fromkeys (filter (\<lambda>i. Some c = Some i \<and> Some i \<noteq> exclude) (local_ids (sh_work h)) @
          (case sh_coordinator h of None \<Rightarrow> [] | Some co \<Rightarrow> snd (cancel_work (Some c) co))))"

lemma selected_ids_sub: "set (selected_ids c exclude h) \<subseteq> {c}"
  using cancel_work_frame(2) by (auto simp: selected_ids_def split: option.splits)

lemma cancel_work_items_eq:
  "cancel_work_items known (Some c) exclude h =
     (h\<lparr>sh_coordinator := map_option (\<lambda>co. fst (cancel_work (Some c) co)) (sh_coordinator h),
        sh_work := fst (cancel_selected (selected_ids c exclude h) (sh_work h))\<rparr>,
      selected_ids c exclude h, snd (cancel_selected (selected_ids c exclude h) (sh_work h)))"
  by (cases "sh_coordinator h") (simp_all add: cancel_work_items_def selected_ids_def split_beta Let_def)

lemma cancel_work_items_frame:
  assumes "cancel_work_items known (Some c) exclude h = (h1, selected, tasks)"
  shows "set selected \<subseteq> {c}" and "sh_ack h1 = sh_ack h" and "sh_state h1 = sh_state h"
    and "live_ids (sh_work h1) = live_ids (sh_work h)" and "coordinator_live h1 = coordinator_live h"
    and "wl_cancelled_ids (sh_work h1) = wl_cancelled_ids (sh_work h) \<union> set selected"
proof -
  have eq: "h1 = h\<lparr>sh_coordinator := map_option (\<lambda>co. fst (cancel_work (Some c) co)) (sh_coordinator h),
        sh_work := fst (cancel_selected (selected_ids c exclude h) (sh_work h))\<rparr>" "selected = selected_ids c exclude h"
    using assms unfolding cancel_work_items_eq by blast+
  show "set selected \<subseteq> {c}" unfolding eq by (rule selected_ids_sub)
  show "sh_ack h1 = sh_ack h" "sh_state h1 = sh_state h" "live_ids (sh_work h1) = live_ids (sh_work h)"
    "coordinator_live h1 = coordinator_live h"
    "wl_cancelled_ids (sh_work h1) = wl_cancelled_ids (sh_work h) \<union> set selected"
    unfolding eq by (simp_all add: cancel_selected_def live_ids_def coordinator_live_def live_work_item_ids_def
        cancel_work_frame(1) split: option.split)
qed

lemma with_scheduler_children: "ta_turn_work_items (ah_ledger (with_scheduler origin f a)) = ta_turn_work_items (ah_ledger a)"
proof -
  have "ta_turn_work_items (fold (\<lambda>(i, r). on_ack_terminal i r) xs l) = ta_turn_work_items l" for xs l
    by (induction xs arbitrary: l) (auto simp: on_ack_terminal_def clear_ack_latch_def split: option.split)
  then show ?thesis by (simp add: with_scheduler_def Let_def)
qed

lemma host_cancel_frame:
  "sh_work (fst (host_cancel origin k h)) = sh_work h" "coordinator_live (fst (host_cancel origin k h)) = coordinator_live h"
  "turn_work_items t (ah_ledger (sh_ack (fst (host_cancel origin k h)))) = turn_work_items t (ah_ledger (sh_ack h))"
  "cp_scheduler (pipeline_of origin (fst (host_cancel origin k h))) =
     fst (cancel k ((cp_scheduler (pipeline_of origin h))\<lparr>sc_state := sh_state h\<rparr>))"
  by (simp_all add: host_cancel_def on_scheduler_with turn_work_items_def)
    (simp_all add: on_scheduler_def coordinator_live_def with_scheduler_children Let_def)

definition leased :: "string \<Rightarrow> scheduler \<Rightarrow> bool" where
  "leased k s \<longleftrightarrow> (\<exists>l. sc_active s = Some l \<and> si_work_item_id (ul_item l) = k)"

lemma cancel_gone:
  fixes s :: scheduler and x :: session_state and k :: string
  defines "t \<equiv> fst (cancel (Some k) (s\<lparr>sc_state := x\<rparr>))"
  shows "queue_of t k' = (if k' = k then [] else queue_of s k')"
    and "map_of (sc_paused t) k' = (if k' = k then None else map_of (sc_paused s) k')"
    and "sc_active t = (if leased k s then None else sc_active s)"
    and "pending_work_item_ids e t = pending_work_item_ids e s - {k}"
proof -
  note eff = cancel_effect [where k = k and s = "s\<lparr>sc_state := x\<rparr>", folded t_def]
  show "queue_of t k' = (if k' = k then [] else queue_of s k')" using eff(1) by (simp add: queue_of_def)
  show "map_of (sc_paused t) k' = (if k' = k then None else map_of (sc_paused s) k')" using eff(2) by simp
  show "sc_active t = (if leased k s then None else sc_active s)"
    using eff(3) by (cases "sc_active s") (auto simp: leased_def split: if_splits)
  show "pending_work_item_ids e t = pending_work_item_ids e s - {k}"
    using eff(1) by (auto simp: pending_work_item_ids_def AList.delete_eq)
qed

lemma scheduler_live_cancel:
  "scheduler_live a (fst (cancel (Some k) (s\<lparr>sc_state := x\<rparr>))) - {k} = scheduler_live a s - {k}"
  by (auto simp: scheduler_live_def cancel_gone leased_def split: option.splits if_splits)

lemma remaining_after_cancel:
  assumes "cancel_work_items known (Some c) exclude h = (h1, selected, tasks)"
  shows "remaining_children origin t c (fst (host_cancel origin (Some c) h1)) = remaining_children origin t c h"
  using cancel_work_items_frame [OF assms]
    scheduler_live_cancel [where a = "ack_work_item_id t" and k = c and s = "cp_scheduler (pipeline_of origin h)" and x = "sh_state h"]
  unfolding remaining_children_def host_cancel_frame
  by (simp add: pipeline_of_def) blast

section \<open>Properties\<close>

text \<open>
  C21. A late result is committed exactly once: it is appended to the results exactly when its task
  completed without error, it is a grounded result of the dispatching epoch, and no result with its id
  is committed yet; cancellation does not change that. The recorded commit outcome says so (a commit
  that raised after the append is reported as failed, and only then does the callback raise). In every
  case the work item is retired, its turn no longer owns it, a cancellation marker that classified it
  is consumed, and no transport slot changes: nothing is spoken. A second copy is not accepted again.
\<close>

theorem late_result_committed_once:
  assumes "ld_turn_id context \<noteq> []"
    and "commit_late_result_once as_grounded now timestamp context late h = (h', lo, exc)"
  shows "ss_results (sh_state h') = ss_results (sh_state h) @
      (case late_accepted as_grounded context late h of None \<Rightarrow> [] | Some r \<Rightarrow> [r]) \<and>
    (late_accepted as_grounded context late h \<noteq> None \<longleftrightarrow> lo_commit_outcome lo \<in> {Some ''committed'', Some ''failed''}) \<and>
    (exc \<noteq> None \<longleftrightarrow> lo_commit_outcome lo = Some ''failed'') \<and>
    lr_work_item_id late \<notin> wl_known_ids (sh_work h') \<and>
    (lr_error late = None \<longrightarrow> lr_work_item_id late \<notin> wl_cancelled_ids (sh_work h')) \<and>
    ld_work_item_id context \<notin> turn_work_items (ld_turn_id context) (ah_ledger (sh_ack h')) \<and>
    host_slot h' = host_slot h \<and>
    late_accepted as_grounded context late h' = None"
  by (intro conjI impI late_commit_effects [OF assms])

definition demo_context :: late_delivery_context where
  "demo_context =
     \<lparr>ld_turn_id = ''turn-1'', ld_work_item_id = ''work-turn-1'', ld_origin_epoch = 1, ld_ack_timestamp = None,
      ld_accepted_turn_sequence = 1, ld_parent_work_item_id = None\<rparr>"

definition demo_late :: late_result where
  "demo_late =
     \<lparr>lr_work_item_id = ''work-turn-1'', lr_worker_id = ''w'', lr_result = Some ''r1'', lr_error = None,
      lr_terminal_kind = Some TkCompleted\<rparr>"

definition demo_state :: session_state where
  "demo_state =
     fst (set_child_work_status 0
       \<lparr>cr_turn_id = ''turn-1'', cr_work_item_id = ''work-turn-1'', cr_parent_work_item_id = None,
        cr_worker_id = Some ''w'', cr_state = WsSearching, cr_origin_epoch = Some 1, cr_terminal_reason = None\<rparr>
       (init_session ''s'' ''t''))"

definition demo_host :: session_host where
  "demo_host =
     \<lparr>sh_state = demo_state,
      sh_ack = \<lparr>ah_ledger = register_turn_work_item ''turn-1'' ''work-turn-1'' init_ledger,
                ah_pipelines = (\<lambda>i. demo_pipeline), ah_emitting = [], ah_starts = []\<rparr>,
      sh_arbiter = init_arbiter ''s'' ''t'', sh_connection = None,
      sh_work = fst (cancel_selected [''work-turn-1''] (register_known ''work-turn-1'' init_work_ledger)),
      sh_candidates = [], sh_coordinator = None, sh_background_status = True, sh_closing = False\<rparr>"

lemma late_result_committed_once_witness:
  "\<exists>h' lo exc. commit_late_result_once (\<lambda>v. Some (demo_result v)) 0 ''now'' demo_context demo_late demo_host = (h', lo, exc) \<and>
     late_accepted (\<lambda>v. Some (demo_result v)) demo_context demo_late demo_host = Some (demo_result ''r1'') \<and>
     ss_results (sh_state h') = [demo_result ''r1''] \<and> ''work-turn-1'' \<notin> wl_known_ids (sh_work h')"
proof -
  obtain h' lo exc where r: "commit_late_result_once (\<lambda>v. Some (demo_result v)) 0 ''now'' demo_context demo_late demo_host = (h', lo, exc)"
    by (metis prod_cases3)
  have "ss_results (sh_state demo_host) = []" by (simp add: demo_host_def demo_state_def init_session_def)
  moreover from this have "late_accepted (\<lambda>v. Some (demo_result v)) demo_context demo_late demo_host = Some (demo_result ''r1'')"
    by (simp add: late_accepted_def demo_late_def demo_context_def demo_result_def known_result_def)
  moreover have "ld_turn_id demo_context \<noteq> []" "lr_work_item_id demo_late = ''work-turn-1''"
    by (simp_all add: demo_context_def demo_late_def)
  ultimately show ?thesis using late_result_committed_once [OF _ r] r by auto
qed

text \<open>
  C22. With work statuses enabled, a late result leaves no child behind: unless another copy of the result
  already did, a child that was dispatched (its status is past routing) has a terminal status afterwards
  or no record at all, whether the worker failed, returned something else, was cancelled, or its result
  was stale, committed, or failed to commit.
\<close>

theorem late_result_settles_child:
  assumes "sh_background_status h" and "ld_turn_id context \<noteq> []"
    and "commit_late_result_once as_grounded now timestamp context late h = (h', lo, exc)"
    and "lo_commit_outcome lo \<noteq> Some ''suppressed_duplicate''"
    and "\<And>w. map_of (children_of (sh_state h) (late_key context)) (ld_work_item_id context) = Some w \<Longrightarrow> ws_state w \<noteq> WsRouting"
  shows "child_settled (sh_state h') (late_key context) (ld_work_item_id context)"
proof -
  obtain h1 was where m: "late_marker as_grounded late h = (h1, was)" by force
  have marker: "sh_state h1 = sh_state h" "sh_background_status h1"
    using m assms(1) by (auto simp: late_marker_def pop_clarification_candidate_def Let_def split: if_splits option.splits)
  obtain h2 lo2 exc2 where b: "late_branches as_grounded now timestamp context late was h1 = (h2, lo2, exc2)"
    by (metis prod_cases3)
  have eff: "ss_ws_children (sh_state h2) = ss_ws_children (sh_state h)" "sh_background_status h2" "lo_work_outcome lo2 \<noteq> None"
    using late_branches_effect [of as_grounded "context" late h1 now timestamp was] marker unfolding b
    by (simp_all add: late_effect_def)
  have out: "h' = fst (late_finally now context late lo2 h2)" "lo = lo2"
    using assms(3) late_finally_effect(1) [OF assms(2), of now late lo2 h2]
    by (auto simp: commit_late_result_once_def m b split: prod.splits sum.splits)
  have "late_derived late lo2 \<noteq> None"
    using assms(4) eff(3) by (auto simp: out late_derived_def late_commit_work_status_def work_status_for_outcome_def split: option.splits)
  then obtain d where d: "late_derived late lo2 = Some d" by blast
  have h': "sh_state h' = fst (set_child_work_status now (late_report context d) (sh_state h2))"
    using d eff(2) by (simp add: out late_finally_def emit_work_status_ok [OF late_report_valid [OF d assms(2)]] late_settle_frame)
  have "child_settled (fst (set_child_work_status now (late_report context d) (sh_state h2)))
      (child_key (late_report context d)) (cr_work_item_id (late_report context d))"
  proof (rule terminal_report_settles)
    show "ws_terminal (cr_state (late_report context d))"
      using late_derived_valid(1) [OF d] by (simp add: late_report_def)
    show "validate_work_status (child_status (late_report context d)) = Inr (child_status (late_report context d))"
      by (rule late_report_valid [OF d assms(2)])
    show "ws_state w \<noteq> WsRouting" if "map_of (children_of (sh_state h2) (child_key (late_report context d)))
        (cr_work_item_id (late_report context d)) = Some w" for w
      using that assms(5) by (simp add: late_report_key children_of_def eff(1))
  qed
  then show ?thesis by (simp add: late_report_key h')
qed

lemma late_result_settles_child_witness:
  "\<exists>h' lo exc w. commit_late_result_once (\<lambda>v. Some (demo_result v)) 0 ''now'' demo_context demo_late demo_host = (h', lo, exc) \<and>
     map_of (children_of (sh_state demo_host) (late_key demo_context)) ''work-turn-1'' = Some w \<and> ws_state w = WsSearching \<and>
     child_settled (sh_state h') (late_key demo_context) ''work-turn-1''"
proof -
  obtain h' lo exc where r: "commit_late_result_once (\<lambda>v. Some (demo_result v)) 0 ''now'' demo_context demo_late demo_host = (h', lo, exc)"
    by (metis prod_cases3)
  have "map_option ws_state (map_of (children_of (sh_state demo_host) (late_key demo_context)) ''work-turn-1'') = Some WsSearching"
  proof -
    have "map_option ws_state (map_of (children_of demo_state (late_key demo_context)) ''work-turn-1'') = Some WsSearching"
      by code_simp
    moreover have "sh_state demo_host = demo_state" by (simp add: demo_host_def)
    ultimately show ?thesis by simp
  qed
  then obtain w where w: "map_of (children_of (sh_state demo_host) (late_key demo_context)) ''work-turn-1'' = Some w" "ws_state w = WsSearching"
    by auto
  have "late_accepted (\<lambda>v. Some (demo_result v)) demo_context demo_late demo_host \<noteq> None"
    by (simp add: late_accepted_def demo_late_def demo_context_def demo_result_def known_result_def demo_host_def demo_state_def init_session_def)
  then have "lo_commit_outcome lo \<noteq> Some ''suppressed_duplicate''"
    using late_commit_effects(2) [OF _ r] by (auto simp: demo_context_def)
  moreover have "sh_background_status demo_host" "ld_turn_id demo_context \<noteq> []" "ld_work_item_id demo_context = ''work-turn-1''"
    by (simp_all add: demo_host_def demo_context_def)
  ultimately have "child_settled (sh_state h') (late_key demo_context) ''work-turn-1''"
    using late_result_settles_child [OF _ _ r] w by auto
  with r w show ?thesis by blast
qed

text \<open>
  Cancelling one delegated child removes its queued, paused and active speech and touches no other
  queue, except that the acknowledgement of its turn goes with it exactly when no other child of that
  turn is live (queued or admitted speech, a local task, a known work item, or a task of the
  coordinator, and not itself cancelled); then the acknowledgement leaves queue, pause slot and lease
  and its latch is free. While a sibling is live, the acknowledgement keeps its place.
\<close>

theorem child_cancel_takes_ack_with_last_child:
  assumes "cancel_turn_or_child known (Some t) (Some c) (Some origin) exclude h = (h', work, speech)"
    and "c \<noteq> ack_work_item_id t"
  shows "let k = ack_work_item_id t; s = cp_scheduler (pipeline_of origin h); s' = cp_scheduler (pipeline_of origin h');
           last = (remaining_children origin t c h = {}) in
    set work \<subseteq> {c} \<and> queue_of s' c = [] \<and> map_of (sc_paused s') c = None \<and> \<not> leased c s' \<and>
    (\<forall>k'. k' \<notin> {c, k} \<longrightarrow> queue_of s' k' = queue_of s k' \<and> map_of (sc_paused s') k' = map_of (sc_paused s) k') \<and>
    queue_of s' k = (if last then [] else queue_of s k) \<and>
    map_of (sc_paused s') k = (if last then None else map_of (sc_paused s) k) \<and>
    (leased k s' \<longleftrightarrow> leased k s \<and> \<not> last) \<and>
    (last \<longrightarrow> t \<notin> ta_ack_emitted_turns (ah_ledger (sh_ack h')))"
proof -
  let ?k = "ack_work_item_id t" and ?s = "cp_scheduler (pipeline_of origin h)"
  obtain h1 selected tasks where w: "cancel_work_items known (Some c) exclude h = (h1, selected, tasks)"
    by (metis prod_cases3)
  note frame = cancel_work_items_frame [OF w]
  define h2 where "h2 = fst (host_cancel origin (Some c) h1)"
  have s1: "cp_scheduler (pipeline_of origin h1) = ?s" using frame(2) by (simp add: pipeline_of_def)
  have s2: "cp_scheduler (pipeline_of origin h2) = fst (cancel (Some c) (?s\<lparr>sc_state := sh_state h1\<rparr>))"
    by (simp add: h2_def host_cancel_frame s1)
  have rem: "remaining_children origin t c h2 = remaining_children origin t c h"
    unfolding h2_def by (rule remaining_after_cancel [OF w])
  have h': "h' = (if remaining_children origin t c h = {}
      then on_ledger (clear_ack_latch t) (fst (host_cancel origin (Some ?k) h2)) else h2)" "work = selected"
    using assms(1) by (auto simp: cancel_turn_or_child_def w rem h2_def [symmetric] split_beta Let_def split: if_splits)
  have s3: "cp_scheduler (pipeline_of origin (on_ledger (clear_ack_latch t) (fst (host_cancel origin (Some ?k) h2)))) =
      fst (cancel (Some ?k) ((cp_scheduler (pipeline_of origin h2))\<lparr>sc_state := sh_state h2\<rparr>))"
    using host_cancel_frame(4) [of origin "Some ?k" h2] by (simp add: on_ledger_def pipeline_of_def)
  show ?thesis
  proof (cases "remaining_children origin t c h = {}")
    case True
    then have "cp_scheduler (pipeline_of origin h') =
        fst (cancel (Some ?k) (fst (cancel (Some c) (?s\<lparr>sc_state := sh_state h1\<rparr>))\<lparr>sc_state := sh_state h2\<rparr>))"
      by (simp add: h' s3 s2)
    with True frame(1) assms(2) show ?thesis
      by (auto simp: Let_def h' cancel_gone leased_def clear_ack_latch_def split: if_splits)
  next
    case False
    then have "cp_scheduler (pipeline_of origin h') = fst (cancel (Some c) (?s\<lparr>sc_state := sh_state h1\<rparr>))"
      by (simp add: h' s2)
    with False frame(1) assms(2) show ?thesis
      by (auto simp: Let_def h' cancel_gone leased_def split: if_splits)
  qed
qed

lemma child_cancel_takes_ack_with_last_child_witness:
  "\<exists>h' work speech. cancel_turn_or_child [] (Some ''turn-1'') (Some ''work-turn-1'') (Some 0) None demo_host = (h', work, speech) \<and>
     set work \<subseteq> {''work-turn-1''} \<and> queue_of (cp_scheduler (pipeline_of 0 h')) ''work-turn-1'' = []"
proof -
  obtain h' work speech where r:
    "cancel_turn_or_child [] (Some ''turn-1'') (Some ''work-turn-1'') (Some 0) None demo_host = (h', work, speech)"
    by (metis prod_cases3)
  have "''work-turn-1'' \<noteq> ack_work_item_id ''turn-1''" by (simp add: ack_work_item_id_def)
  from child_cancel_takes_ack_with_last_child [OF r this] r show ?thesis by (auto simp: Let_def)
qed

end
