(* ===== verification/Perf_Metrics.thy ===== *)
theory Perf_Metrics
  imports Prelude
begin

text \<open>
  The operator metrics of \<open>server/perf_metrics.py\<close> and \<open>server/recorder_factory.py\<close>: the closed registry of
  events, validation and rendering of one \<open>PERF_METRIC\<close> line, the handlers of the framework's observers,
  and the recorders of turns, work items and retained work.

  A Python value is a \<open>metric_value\<close>; a float is a real number or one of the non-finite values. A string is
  a list of characters with codes below 256. The sink is the collecting one: the list of records it was
  given. Recorders are objects with identity, so a turn keeps its children in a store indexed by numbers,
  and the factory keeps retained recorders the same way. The clock's reading is an argument.
\<close>

section \<open>Field specifications\<close>

datatype metric_value = VStr string | VInt int | VFloat real | VNonFinite | VBool bool

datatype field_kind = KId nat | KInt int | KMs | KBool | KEnum "string list"

type_synonym field_spec = "string \<times> field_kind"

definition id_field :: "string \<Rightarrow> field_spec" where
  "id_field name = (name, KId 128)"

definition int_field :: "string \<Rightarrow> field_spec" where
  "int_field name = (name, KInt 0)"

definition ms_field :: "string \<Rightarrow> field_spec" where
  "ms_field name = (name, KMs)"

definition bool_field :: "string \<Rightarrow> field_spec" where
  "bool_field name = (name, KBool)"

definition enum_field :: "string \<Rightarrow> string list \<Rightarrow> field_spec" where
  "enum_field name vals = (name, KEnum vals)"

definition METRIC_KINDS :: "string list" where
  "METRIC_KINDS = [''ttfb'', ''text_aggregation'', ''function_calls'', ''user_turn_secs'']"

definition APP_TURN_OUTCOMES :: "string list" where
  "APP_TURN_OUTCOMES = [''direct'', ''unsupported'', ''control'', ''clarify'', ''completed'', ''mixed'', ''retained'',
     ''declined'', ''failed'', ''cancelled'']"

definition CONTROL_ACTIONS :: "string list" where
  "CONTROL_ACTIONS = [''pause'', ''resume'', ''cancel'', ''stop'', ''consent'']"

definition CONTROL_OUTCOMES :: "string list" where
  "CONTROL_OUTCOMES = [''applied'', ''unknown_target'', ''no_active'', ''no_pending'']"

definition WORK_ITEM_OUTCOMES :: "string list" where
  "WORK_ITEM_OUTCOMES = [''direct'', ''unsupported'', ''completed'', ''retained'', ''clarify'', ''declined'', ''failed'',
     ''cancelled'', ''missing_worker'', ''missing_search'', ''capacity_rejected'', ''retention_rejected'']"

definition WORK_OUTCOMES :: "string list" where
  "WORK_OUTCOMES = [''completed'', ''failed'', ''cancelled'', ''invalid_result'']"

definition COMMIT_OUTCOMES :: "string list" where
  "COMMIT_OUTCOMES = [''committed'', ''not_applicable'', ''suppressed_cancelled'', ''suppressed_stale'',
     ''suppressed_duplicate'', ''suppressed_shutdown'', ''failed'']"

definition SPEECH_OUTCOMES :: "string list" where
  "SPEECH_OUTCOMES = [''queued'', ''no_tts'', ''disconnected'', ''stale_connection'', ''cancelled'', ''not_applicable'',
     ''enqueue_failed'', ''start_failed'']"

definition LATE_DELIVERY_DISPOSITIONS :: "string list" where
  "LATE_DELIVERY_DISPOSITIONS = [''autoplay'', ''display_only'', ''suppressed'', ''not_applicable'']"

definition APP_TURN_COUNTER_FIELDS :: "string list" where
  "APP_TURN_COUNTER_FIELDS = [''direct_count'', ''unsupported_count'', ''completed_count'', ''retained_count'',
     ''clarification_count'', ''declined_count'', ''failed_count'', ''cancelled_count'']"

section \<open>Cross-field rules\<close>

type_synonym fields = "(string, metric_value) dict"

datatype perf_error =
    UnknownEvent
  | UnknownFields "string list"
  | MissingFields "string list"
  | RuleViolated
  | NotANumber
  | BadValue string

definition validate_service_latency :: "fields \<Rightarrow> perf_error + unit" where
  "validate_service_latency fs =
     (let kind = map_of fs ''metric_kind''; has_processor = (map_of fs ''processor'' \<noteq> None);
          has_function_name = (map_of fs ''function_name'' \<noteq> None) in
      if kind = Some (VStr ''ttfb'') \<or> kind = Some (VStr ''text_aggregation'') then
        if \<not> has_processor \<or> has_function_name then Inl RuleViolated else Inr ()
      else if kind = Some (VStr ''function_calls'') then
        if \<not> has_function_name \<or> has_processor then Inl RuleViolated else Inr ()
      else if kind = Some (VStr ''user_turn_secs'') then
        if has_processor \<or> has_function_name then Inl RuleViolated else Inr ()
      else Inr ())"

text \<open>\<open>sum\<close> over the counters: integers, booleans and finite floats add up, anything else raises.\<close>

fun numeric :: "metric_value \<Rightarrow> real option" where
  "numeric (VInt n) = Some (of_int n)"
| "numeric (VFloat x) = Some x"
| "numeric (VBool b) = Some (if b then 1 else 0)"
| "numeric (VStr s) = None"
| "numeric VNonFinite = None"

fun sum_counters :: "string list \<Rightarrow> fields \<Rightarrow> real option" where
  "sum_counters [] fs = Some 0"
| "sum_counters (name # rest) fs =
     (case (case map_of fs name of None \<Rightarrow> Some 0 | Some v \<Rightarrow> numeric v) of
        None \<Rightarrow> None
      | Some x \<Rightarrow> map_option (\<lambda>y. x + y) (sum_counters rest fs))"

definition validate_app_turn_foreground :: "fields \<Rightarrow> perf_error + unit" where
  "validate_app_turn_foreground fs =
     (case sum_counters APP_TURN_COUNTER_FIELDS fs of
        None \<Rightarrow> Inl NotANumber
      | Some counted \<Rightarrow>
          let child_count = (case map_of fs ''child_count'' of None \<Rightarrow> None | Some v \<Rightarrow> numeric v);
              outcome = map_of fs ''outcome'';
              action = (map_of fs ''control_action'' \<noteq> None); result = (map_of fs ''control_outcome'' \<noteq> None) in
          if child_count \<noteq> Some counted then Inl RuleViolated
          else if outcome = Some (VStr ''control'') then if \<not> action \<or> \<not> result then Inl RuleViolated else Inr ()
          else if action \<or> result then Inl RuleViolated
          else Inr ())"

section \<open>The event registry\<close>

record event_spec =
  es_required :: "field_spec list"
  es_optional :: "field_spec list"
  es_validate :: "fields \<Rightarrow> perf_error + unit"

definition plain_event :: "field_spec list \<Rightarrow> field_spec list \<Rightarrow> event_spec" where
  "plain_event required optional = \<lparr>es_required = required, es_optional = optional, es_validate = (\<lambda>_. Inr ())\<rparr>"

definition connection_fields :: "field_spec list" where
  "connection_fields = [id_field ''session_id'', int_field ''origin_epoch'', id_field ''connection_worker'']"

definition turn_fields :: "field_spec list" where
  "turn_fields = [id_field ''session_id'', int_field ''origin_epoch'', id_field ''turn_id'']"

definition counter_fields :: "field_spec list" where
  "counter_fields = map int_field APP_TURN_COUNTER_FIELDS"

definition app_turn_spec :: event_spec where
  "app_turn_spec =
     \<lparr>es_required = turn_fields @ [enum_field ''outcome'' APP_TURN_OUTCOMES, ms_field ''total_ms'', int_field ''child_count''] @
        counter_fields,
      es_optional = [enum_field ''control_action'' CONTROL_ACTIONS, enum_field ''control_outcome'' CONTROL_OUTCOMES,
        ms_field ''routing_ms'', ms_field ''commit_ms'', (''scenario'', KId 64), bool_field ''acknowledgement''],
      es_validate = validate_app_turn_foreground\<rparr>"

definition work_item_spec :: event_spec where
  "work_item_spec = plain_event
     (turn_fields @ [id_field ''work_item_id'', enum_field ''outcome'' WORK_ITEM_OUTCOMES, ms_field ''total_ms''])
     [id_field ''app_worker_id'', id_field ''result_id'', ms_field ''search_ms'', ms_field ''commit_ms'',
      int_field ''query_chars'', int_field ''context_chars'', (''provider'', KId 64), (''model'', KId 64)]"

definition background_spec :: event_spec where
  "background_spec = plain_event
     (turn_fields @ [id_field ''work_item_id'', id_field ''app_worker_id'', ms_field ''background_ms'',
      enum_field ''work_outcome'' WORK_OUTCOMES, enum_field ''commit_outcome'' COMMIT_OUTCOMES,
      enum_field ''speech_outcome'' SPEECH_OUTCOMES])
     [id_field ''result_id'', (''provider'', KId 64), (''model'', KId 64),
      enum_field ''delivery_disposition'' LATE_DELIVERY_DISPOSITIONS]"

definition EVENT_REGISTRY :: "(string, event_spec) dict" where
  "EVENT_REGISTRY =
     [(''pipeline_startup'', plain_event (connection_fields @ [ms_field ''total_ms'']) [int_field ''processor_count'']),
      (''transport_ready'', plain_event (connection_fields @ [ms_field ''client_connected_ms'']) [ms_field ''bot_connected_ms'']),
      (''pipecat_turn_start'', plain_event (connection_fields @ [(''pipecat_turn'', KInt 1)]) []),
      (''pipecat_turn_end'', plain_event (connection_fields @ [(''pipecat_turn'', KInt 1), ms_field ''duration_ms'',
         bool_field ''interrupted'']) []),
      (''first_bot_speech_latency'', plain_event (connection_fields @ [ms_field ''latency_ms'']) []),
      (''user_bot_latency'', plain_event (connection_fields @ [ms_field ''latency_ms'']) []),
      (''service_latency'', (plain_event (connection_fields @ [enum_field ''metric_kind'' METRIC_KINDS, ms_field ''value_ms''])
         [id_field ''processor'', id_field ''function_name'', (''pipecat_turn'', KInt 1)])\<lparr>es_validate := validate_service_latency\<rparr>),
      (''app_turn_foreground'', app_turn_spec),
      (''work_item_foreground'', work_item_spec),
      (''work_item_background'', background_spec)]"

section \<open>Rendering\<close>

definition unsafe_id_char :: "char \<Rightarrow> bool" where
  "unsafe_id_char c \<longleftrightarrow> c = CHR 0x22 \<or> of_char c < (32 :: nat) \<or> of_char c = (127 :: nat)"

definition hex_digit :: "nat \<Rightarrow> char" where
  "hex_digit n = char_of (if n < 10 then 48 + n else 87 + n)"

text \<open>\<open>json.dumps\<close> of a string without quotes and control characters.\<close>

definition json_char :: "char \<Rightarrow> string" where
  "json_char c =
     (if c = CHR 0x5C then [CHR 0x5C, CHR 0x5C]
      else if of_char c < (128 :: nat) then [c]
      else [CHR 0x5C, CHR ''u'', CHR ''0'', CHR ''0'', hex_digit (of_char c div 16), hex_digit (of_char c mod 16)])"

definition json_dumps :: "string \<Rightarrow> string" where
  "json_dumps s = CHR 0x22 # concat (map json_char s) @ [CHR 0x22]"

text \<open>\<open>f"{value:.1f}"\<close> of a non-negative number: tenths, rounding ties to even.\<close>

definition tenths :: "real \<Rightarrow> int" where
  "tenths x =
     (let f = \<lfloor>10 * x\<rfloor>; d = 10 * x - of_int f in
      if d < 1 / 2 then f else if 1 / 2 < d then f + 1 else if even f then f else f + 1)"

definition format_ms :: "real \<Rightarrow> string" where
  "format_ms x = (let t = nat (tenths x) in show_nat (t div 10) @ ''.'' @ show_nat (t mod 10))"

definition format_value :: "field_spec \<Rightarrow> metric_value \<Rightarrow> perf_error + string" where
  "format_value spec v =
     (case spec of (name, kind) \<Rightarrow>
        (case kind of
           KId maxlen \<Rightarrow>
             (case v of
                VStr s \<Rightarrow>
                  if s = [] \<or> list_ex unsafe_id_char s \<or> maxlen < length s then Inl (BadValue name)
                  else Inr (json_dumps s)
              | _ \<Rightarrow> Inl (BadValue name))
         | KInt minimum \<Rightarrow>
             (case v of VInt n \<Rightarrow> if n < minimum then Inl (BadValue name) else Inr (show_nat (nat n)) | _ \<Rightarrow> Inl (BadValue name))
         | KMs \<Rightarrow>
             (case v of
                VInt n \<Rightarrow> if n < 0 then Inl (BadValue name) else Inr (format_ms (of_int n))
              | VFloat x \<Rightarrow> if x < 0 then Inl (BadValue name) else Inr (format_ms x)
              | _ \<Rightarrow> Inl (BadValue name))
         | KBool \<Rightarrow>
             (case v of VBool b \<Rightarrow> Inr (if b then ''true'' else ''false'') | _ \<Rightarrow> Inl (BadValue name))
         | KEnum vals \<Rightarrow>
             (case v of VStr s \<Rightarrow> if s \<in> set vals then Inr s else Inl (BadValue name) | _ \<Rightarrow> Inl (BadValue name))))"

definition es_fields :: "event_spec \<Rightarrow> field_spec list" where
  "es_fields spec = es_required spec @ es_optional spec"

fun render_fields :: "field_spec list \<Rightarrow> fields \<Rightarrow> perf_error + string list" where
  "render_fields [] fs = Inr []"
| "render_fields ((name, kind) # rest) fs =
     (case map_of fs name of
        None \<Rightarrow> render_fields rest fs
      | Some v \<Rightarrow>
          (case format_value (name, kind) v of
             Inl e \<Rightarrow> Inl e
           | Inr text \<Rightarrow>
               (case render_fields rest fs of
                  Inl e \<Rightarrow> Inl e
                | Inr parts \<Rightarrow> Inr ((name @ ''='' @ text) # parts))))"

fun join_spaces :: "string list \<Rightarrow> string" where
  "join_spaces [] = []"
| "join_spaces [x] = x"
| "join_spaces (x # y # xs) = x @ '' '' @ join_spaces (y # xs)"

definition format_record :: "string \<Rightarrow> fields \<Rightarrow> perf_error + string" where
  "format_record event fs =
     (case map_of EVENT_REGISTRY event of
        None \<Rightarrow> Inl UnknownEvent
      | Some spec \<Rightarrow>
          let unknown = filter (\<lambda>n. n \<notin> set (map fst (es_fields spec))) (dkeys fs);
              missing = filter (\<lambda>n. map_of fs n = None) (map fst (es_required spec)) in
          if unknown \<noteq> [] then Inl (UnknownFields unknown)
          else if missing \<noteq> [] then Inl (MissingFields missing)
          else
            (case es_validate spec fs of
               Inl e \<Rightarrow> Inl e
             | Inr _ \<Rightarrow>
                 (case render_fields (es_fields spec) fs of
                    Inl e \<Rightarrow> Inl e
                  | Inr parts \<Rightarrow> Inr (join_spaces ([''PERF_METRIC'', ''event='' @ event, ''schema=1''] @ parts)))))"

record measurement_record =
  mr_event :: string
  mr_fields :: fields
  mr_line :: string

definition build_record :: "string \<Rightarrow> fields \<Rightarrow> perf_error + measurement_record" where
  "build_record event fs =
     (case format_record event fs of
        Inl e \<Rightarrow> Inl e
      | Inr line \<Rightarrow> Inr \<lparr>mr_event = event, mr_fields = fs, mr_line = line\<rparr>)"

type_synonym sink = "measurement_record list"

definition safe_emit :: "string \<Rightarrow> fields \<Rightarrow> sink \<Rightarrow> sink" where
  "safe_emit event fs sink =
     (case build_record event fs of Inl e \<Rightarrow> sink | Inr r \<Rightarrow> sink @ [r])"

definition sink_get :: "string \<Rightarrow> metric_value option \<Rightarrow> metric_value option \<Rightarrow> sink \<Rightarrow> measurement_record list" where
  "sink_get event turn_id work_item_id sink =
     filter (\<lambda>r. mr_event r = event \<and> map_of (mr_fields r) ''turn_id'' = turn_id \<and>
       map_of (mr_fields r) ''work_item_id'' = work_item_id) sink"

section \<open>Handlers of the framework observers\<close>

record perf_context =
  pc_session_id :: string
  pc_origin_epoch :: nat
  pc_connection_worker :: string

definition base_fields :: "perf_context \<Rightarrow> fields" where
  "base_fields c =
     [(''session_id'', VStr (pc_session_id c)), (''origin_epoch'', VInt (int (pc_origin_epoch c))),
      (''connection_worker'', VStr (pc_connection_worker c))]"

text \<open>A duration in seconds as the framework reports it, in milliseconds; \<open>None\<close> stands for a non-finite one.\<close>

definition ms_of :: "real option \<Rightarrow> metric_value" where
  "ms_of d = (case d of None \<Rightarrow> VNonFinite | Some x \<Rightarrow> VFloat (x * 1000))"

definition on_startup_timing_report :: "perf_context \<Rightarrow> real option \<Rightarrow> nat \<Rightarrow> sink \<Rightarrow> sink" where
  "on_startup_timing_report c duration processors sink =
     safe_emit ''pipeline_startup''
       (base_fields c @ [(''total_ms'', ms_of duration), (''processor_count'', VInt (int processors))]) sink"

definition on_transport_timing_report :: "perf_context \<Rightarrow> real option \<Rightarrow> real option option \<Rightarrow> sink \<Rightarrow> sink" where
  "on_transport_timing_report c client bot_time sink =
     safe_emit ''transport_ready''
       (base_fields c @ [(''client_connected_ms'', ms_of client)] @
        (case bot_time of None \<Rightarrow> [] | Some b \<Rightarrow> [(''bot_connected_ms'', ms_of b)])) sink"

definition on_first_bot_speech_latency :: "perf_context \<Rightarrow> real option \<Rightarrow> sink \<Rightarrow> sink" where
  "on_first_bot_speech_latency c latency sink =
     safe_emit ''first_bot_speech_latency'' (base_fields c @ [(''latency_ms'', ms_of latency)]) sink"

definition on_latency_measured :: "perf_context \<Rightarrow> real option \<Rightarrow> sink \<Rightarrow> sink" where
  "on_latency_measured c latency sink =
     safe_emit ''user_bot_latency'' (base_fields c @ [(''latency_ms'', ms_of latency)]) sink"

record latency_breakdown =
  lb_ttfb :: "(string \<times> real option) list"
  lb_text_aggregation :: "(string \<times> real option) option"
  lb_function_calls :: "(string \<times> real option) list"
  lb_user_turn_secs :: "real option option"

definition service_fields :: "perf_context \<Rightarrow> string \<Rightarrow> real option \<Rightarrow> fields \<Rightarrow> fields" where
  "service_fields c kind d more_fields =
     base_fields c @ [(''metric_kind'', VStr kind), (''value_ms'', ms_of d)] @ more_fields"

definition on_latency_breakdown :: "perf_context \<Rightarrow> latency_breakdown \<Rightarrow> sink \<Rightarrow> sink" where
  "on_latency_breakdown c b sink =
     (let sink = fold (\<lambda>(p, d). safe_emit ''service_latency'' (service_fields c ''ttfb'' d [(''processor'', VStr p)])) (lb_ttfb b) sink;
          sink = (case lb_text_aggregation b of None \<Rightarrow> sink
            | Some (p, d) \<Rightarrow> safe_emit ''service_latency'' (service_fields c ''text_aggregation'' d [(''processor'', VStr p)]) sink);
          sink = fold (\<lambda>(f, d). safe_emit ''service_latency'' (service_fields c ''function_calls'' d [(''function_name'', VStr f)]))
            (lb_function_calls b) sink
      in case lb_user_turn_secs b of None \<Rightarrow> sink
         | Some d \<Rightarrow> safe_emit ''service_latency'' (service_fields c ''user_turn_secs'' d []) sink)"

definition on_turn_started :: "perf_context \<Rightarrow> int \<Rightarrow> sink \<Rightarrow> sink" where
  "on_turn_started c turn_count sink =
     safe_emit ''pipecat_turn_start'' (base_fields c @ [(''pipecat_turn'', VInt turn_count)]) sink"

definition clamp_duration :: "real option \<Rightarrow> real" where
  "clamp_duration d = (case d of None \<Rightarrow> 0 | Some x \<Rightarrow> if x * 1000 < 0 then 0 else x * 1000)"

definition on_turn_ended :: "perf_context \<Rightarrow> int \<Rightarrow> real option \<Rightarrow> bool \<Rightarrow> sink \<Rightarrow> sink" where
  "on_turn_ended c turn_count duration interrupted sink =
     safe_emit ''pipecat_turn_end''
       (base_fields c @ [(''pipecat_turn'', VInt turn_count), (''duration_ms'', VFloat (clamp_duration duration)),
        (''interrupted'', VBool interrupted)]) sink"

section \<open>Recorders of a turn\<close>

definition child_counter_for_outcome :: "(string, string) dict" where
  "child_counter_for_outcome =
     [(''direct'', ''direct_count''), (''unsupported'', ''unsupported_count''), (''completed'', ''completed_count''),
      (''retained'', ''retained_count''), (''clarify'', ''clarification_count''), (''declined'', ''declined_count''),
      (''failed'', ''failed_count''), (''cancelled'', ''cancelled_count''), (''missing_worker'', ''failed_count''),
      (''missing_search'', ''failed_count''), (''capacity_rejected'', ''failed_count''),
      (''retention_rejected'', ''failed_count'')]"

definition parent_outcome_for_counter :: "(string, string) dict" where
  "parent_outcome_for_counter =
     [(''direct_count'', ''direct''), (''unsupported_count'', ''unsupported''), (''completed_count'', ''completed''),
      (''retained_count'', ''retained''), (''clarification_count'', ''clarify''), (''declined_count'', ''declined''),
      (''failed_count'', ''failed''), (''cancelled_count'', ''cancelled'')]"

record work_item_recorder =
  wr_work_item_id :: string
  wr_start :: instant
  wr_finalized :: bool

record turn_recorder =
  tr_session_id :: string
  tr_origin_epoch :: nat
  tr_turn_id :: string
  tr_start :: instant
  tr_counters :: "(string, nat) dict"
  tr_dispatched_children :: nat
  tr_children :: "work_item_recorder list"
  tr_open_children :: "(string, nat) dict"
  tr_finalized :: bool
  tr_routing_ms :: "real option"
  tr_commit_ms :: "real option"
  tr_sink :: sink

definition new_turn_recorder :: "string \<Rightarrow> nat \<Rightarrow> string \<Rightarrow> instant \<Rightarrow> sink \<Rightarrow> turn_recorder" where
  "new_turn_recorder session_id origin_epoch turn_id now sink =
     \<lparr>tr_session_id = session_id, tr_origin_epoch = origin_epoch, tr_turn_id = turn_id, tr_start = now,
      tr_counters = map (\<lambda>n. (n, 0)) APP_TURN_COUNTER_FIELDS, tr_dispatched_children = 0, tr_children = [],
      tr_open_children = [], tr_finalized = False, tr_routing_ms = None, tr_commit_ms = None, tr_sink = sink\<rparr>"

text \<open>\<open>new_child\<close>: the number is the identity of the new recorder.\<close>

definition new_child :: "instant \<Rightarrow> string \<Rightarrow> turn_recorder \<Rightarrow> turn_recorder \<times> nat" where
  "new_child now work_item_id t =
     (let i = length (tr_children t);
          t = t\<lparr>tr_children := tr_children t @ [\<lparr>wr_work_item_id = work_item_id, wr_start = now, wr_finalized = False\<rparr>]\<rparr> in
      (if map_of (tr_open_children t) work_item_id \<noteq> None then t
       else t\<lparr>tr_open_children := AList.update work_item_id i (tr_open_children t)\<rparr>, i))"

definition record_child :: "string \<Rightarrow> string \<Rightarrow> turn_recorder \<Rightarrow> turn_recorder" where
  "record_child work_item_id outcome t =
     (let counter = (case map_of child_counter_for_outcome outcome of None \<Rightarrow> ''failed_count'' | Some c \<Rightarrow> c) in
      t\<lparr>tr_open_children := AList.delete work_item_id (tr_open_children t),
        tr_counters := AList.update counter (the (map_of (tr_counters t) counter) + 1) (tr_counters t),
        tr_dispatched_children := tr_dispatched_children t + 1\<rparr>)"

definition opt_field :: "string \<Rightarrow> metric_value option \<Rightarrow> fields" where
  "opt_field name v = (case v of None \<Rightarrow> [] | Some x \<Rightarrow> [(name, x)])"

record child_args =
  ca_outcome :: string
  ca_app_worker_id :: "string option"
  ca_result_id :: "string option"
  ca_search_ms :: "real option"
  ca_commit_ms :: "real option"
  ca_query_chars :: "int option"
  ca_context_chars :: "int option"
  ca_provider :: "string option"
  ca_model :: "string option"

definition plain_child_args :: "string \<Rightarrow> child_args" where
  "plain_child_args outcome =
     \<lparr>ca_outcome = outcome, ca_app_worker_id = None, ca_result_id = None, ca_search_ms = None, ca_commit_ms = None,
      ca_query_chars = None, ca_context_chars = None, ca_provider = None, ca_model = None\<rparr>"

definition child_outcome :: "string \<Rightarrow> string" where
  "child_outcome outcome = (if outcome \<in> set WORK_ITEM_OUTCOMES then outcome else ''failed'')"

definition child_fields :: "turn_recorder \<Rightarrow> work_item_recorder \<Rightarrow> instant \<Rightarrow> child_args \<Rightarrow> fields" where
  "child_fields t w now a =
     [(''session_id'', VStr (tr_session_id t)), (''origin_epoch'', VInt (int (tr_origin_epoch t))),
      (''turn_id'', VStr (tr_turn_id t)), (''work_item_id'', VStr (wr_work_item_id w)),
      (''outcome'', VStr (child_outcome (ca_outcome a))), (''total_ms'', VFloat ((now - wr_start w) * 1000))] @
     opt_field ''app_worker_id'' (map_option VStr (ca_app_worker_id a)) @
     opt_field ''result_id'' (map_option VStr (ca_result_id a)) @
     opt_field ''search_ms'' (map_option VFloat (ca_search_ms a)) @
     opt_field ''commit_ms'' (map_option VFloat (ca_commit_ms a)) @
     opt_field ''query_chars'' (map_option VInt (ca_query_chars a)) @
     opt_field ''context_chars'' (map_option VInt (ca_context_chars a)) @
     opt_field ''provider'' (map_option VStr (ca_provider a)) @
     opt_field ''model'' (map_option VStr (ca_model a))"

definition finalize_child :: "instant \<Rightarrow> nat \<Rightarrow> child_args \<Rightarrow> turn_recorder \<Rightarrow> turn_recorder" where
  "finalize_child now i a t =
     (if length (tr_children t) \<le> i then t
      else
        let w = tr_children t ! i in
        if wr_finalized w then t
        else
          let t = t\<lparr>tr_children := (tr_children t)[i := w\<lparr>wr_finalized := True\<rparr>]\<rparr>;
              t = t\<lparr>tr_sink := safe_emit ''work_item_foreground'' (child_fields t w now a) (tr_sink t)\<rparr>
          in record_child (wr_work_item_id w) (child_outcome (ca_outcome a)) t)"

definition record_routing :: "real \<Rightarrow> turn_recorder \<Rightarrow> turn_recorder" where
  "record_routing ms t = t\<lparr>tr_routing_ms := Some ms\<rparr>"

definition record_turn_commit :: "real \<Rightarrow> turn_recorder \<Rightarrow> turn_recorder" where
  "record_turn_commit ms t = t\<lparr>tr_commit_ms := Some ms\<rparr>"

record turn_args =
  tu_outcome :: "string option"
  tu_control_action :: "string option"
  tu_control_outcome :: "string option"
  tu_scenario :: "string option"
  tu_acknowledgement :: "bool option"

definition derived_outcome :: "(string, nat) dict \<Rightarrow> string" where
  "derived_outcome counters =
     (case filter (\<lambda>n. map_of counters n \<noteq> Some 0) APP_TURN_COUNTER_FIELDS of
        [] \<Rightarrow> ''failed''
      | [n] \<Rightarrow> the (map_of parent_outcome_for_counter n)
      | _ \<Rightarrow> ''mixed'')"

text \<open>The outcome and the control pair that are recorded, whatever the caller passed.\<close>

definition settled_control ::
    "string \<Rightarrow> string option \<Rightarrow> string option \<Rightarrow> string \<times> string option \<times> string option" where
  "settled_control outcome action result =
     (let pair_present = (action \<noteq> None \<and> result \<noteq> None); pair_absent = (action = None \<and> result = None);
          vocabulary = (case action of None \<Rightarrow> True | Some x \<Rightarrow> x \<in> set CONTROL_ACTIONS) \<and>
                       (case result of None \<Rightarrow> True | Some x \<Rightarrow> x \<in> set CONTROL_OUTCOMES) in
      if outcome \<in> set APP_TURN_OUTCOMES \<and> vocabulary \<and> (pair_present \<or> pair_absent) \<and>
         (outcome = ''control'') = pair_present
      then (outcome, action, result) else (''failed'', None, None))"

definition turn_record_fields :: "turn_recorder \<Rightarrow> instant \<Rightarrow> turn_args \<Rightarrow> fields" where
  "turn_record_fields t now a =
     (let (outcome, action, result) = settled_control
            (case tu_outcome a of None \<Rightarrow> derived_outcome (tr_counters t) | Some x \<Rightarrow> x)
            (tu_control_action a) (tu_control_outcome a) in
      [(''session_id'', VStr (tr_session_id t)), (''origin_epoch'', VInt (int (tr_origin_epoch t))),
       (''turn_id'', VStr (tr_turn_id t)), (''outcome'', VStr outcome),
       (''total_ms'', VFloat ((now - tr_start t) * 1000)),
       (''child_count'', VInt (int (tr_dispatched_children t)))] @
      map (\<lambda>(n, k). (n, VInt (int k))) (tr_counters t) @
      opt_field ''control_action'' (map_option VStr action) @
      opt_field ''control_outcome'' (map_option VStr result) @
      opt_field ''routing_ms'' (map_option VFloat (tr_routing_ms t)) @
      opt_field ''commit_ms'' (map_option VFloat (tr_commit_ms t)) @
      opt_field ''scenario'' (map_option VStr (tu_scenario a)) @
      opt_field ''acknowledgement'' (map_option VBool (tu_acknowledgement a)))"

definition finalize_turn :: "instant \<Rightarrow> turn_args \<Rightarrow> turn_recorder \<Rightarrow> turn_recorder" where
  "finalize_turn now a t =
     (if tr_finalized t then t
      else
        let t = t\<lparr>tr_finalized := True\<rparr>;
            sweep = plain_child_args (if tu_outcome a = Some ''cancelled'' then ''cancelled'' else ''failed'');
            t = fold (\<lambda>i. finalize_child now i sweep) (dvals (tr_open_children t)) t
        in t\<lparr>tr_sink := safe_emit ''app_turn_foreground'' (turn_record_fields t now a) (tr_sink t)\<rparr>)"

section \<open>Recorders of retained work\<close>

datatype retained_state = RPending | RClaimed | RCommitRecorded | RSpeechRecorded | RFinalized

record retained_recorder =
  rr_session_id :: string
  rr_origin_epoch :: nat
  rr_turn_id :: string
  rr_work_item_id :: string
  rr_app_worker_id :: string
  rr_start :: instant
  rr_state :: retained_state
  rr_work_outcome :: "string option"
  rr_commit_outcome :: "string option"
  rr_speech_outcome :: "string option"
  rr_result_id :: "string option"

definition new_retained_recorder :: "string \<Rightarrow> nat \<Rightarrow> string \<Rightarrow> string \<Rightarrow> string \<Rightarrow> instant \<Rightarrow> retained_recorder" where
  "new_retained_recorder session_id origin_epoch turn_id work_item_id app_worker_id now =
     \<lparr>rr_session_id = session_id, rr_origin_epoch = origin_epoch, rr_turn_id = turn_id, rr_work_item_id = work_item_id,
      rr_app_worker_id = app_worker_id, rr_start = now, rr_state = RPending, rr_work_outcome = None,
      rr_commit_outcome = None, rr_speech_outcome = None, rr_result_id = None\<rparr>"

definition claim :: "string \<Rightarrow> retained_recorder \<Rightarrow> retained_recorder \<times> bool" where
  "claim terminal_kind r =
     (if rr_state r \<noteq> RPending then (r, False)
      else (r\<lparr>rr_work_outcome := Some terminal_kind, rr_state := RClaimed\<rparr>, True))"

definition record_commit :: "string \<Rightarrow> string option \<Rightarrow> retained_recorder \<Rightarrow> retained_recorder \<times> bool" where
  "record_commit commit_outcome result_id r =
     (if rr_state r = RFinalized then (r, False)
      else
        let r = r\<lparr>rr_commit_outcome := Some commit_outcome,
                  rr_result_id := (if result_id \<noteq> None then result_id else rr_result_id r)\<rparr> in
        (if rr_state r = RClaimed then r\<lparr>rr_state := RCommitRecorded\<rparr> else r, True))"

definition record_speech :: "string \<Rightarrow> retained_recorder \<Rightarrow> retained_recorder \<times> bool" where
  "record_speech speech_outcome r =
     (if rr_state r = RFinalized then (r, False)
      else
        let r = r\<lparr>rr_speech_outcome := Some speech_outcome\<rparr> in
        (if rr_state r = RCommitRecorded then r\<lparr>rr_state := RSpeechRecorded\<rparr> else r, True))"

record retained_args =
  ra_work_outcome :: "string option"
  ra_commit_outcome :: "string option"
  ra_speech_outcome :: "string option"
  ra_result_id :: "string option"
  ra_provider :: "string option"
  ra_model :: "string option"
  ra_delivery_disposition :: "string option"

definition no_retained_args :: retained_args where
  "no_retained_args =
     \<lparr>ra_work_outcome = None, ra_commit_outcome = None, ra_speech_outcome = None, ra_result_id = None,
      ra_provider = None, ra_model = None, ra_delivery_disposition = None\<rparr>"

text \<open>\<open>x or default\<close> for an optional string: an empty string counts as absent.\<close>

definition or_default :: "string option \<Rightarrow> string \<Rightarrow> string option" where
  "or_default x d = (case x of None \<Rightarrow> Some d | Some y \<Rightarrow> if y = [] then Some d else Some y)"

definition given_or :: "'a option \<Rightarrow> 'a option \<Rightarrow> 'a option" where
  "given_or given old = (if given \<noteq> None then given else old)"

definition settle_retained :: "retained_args \<Rightarrow> retained_recorder \<Rightarrow> retained_recorder" where
  "settle_retained a r =
     r\<lparr>rr_work_outcome := or_default (given_or (ra_work_outcome a) (rr_work_outcome r)) ''cancelled'',
       rr_commit_outcome := or_default (given_or (ra_commit_outcome a) (rr_commit_outcome r)) ''suppressed_shutdown'',
       rr_speech_outcome := or_default (given_or (ra_speech_outcome a) (rr_speech_outcome r)) ''cancelled'',
       rr_result_id := given_or (ra_result_id a) (rr_result_id r),
       rr_state := RFinalized\<rparr>"

definition retained_fields :: "retained_args \<Rightarrow> instant \<Rightarrow> retained_recorder \<Rightarrow> fields" where
  "retained_fields a now r =
     [(''session_id'', VStr (rr_session_id r)), (''origin_epoch'', VInt (int (rr_origin_epoch r))),
      (''turn_id'', VStr (rr_turn_id r)), (''work_item_id'', VStr (rr_work_item_id r)),
      (''app_worker_id'', VStr (rr_app_worker_id r)), (''background_ms'', VFloat ((now - rr_start r) * 1000)),
      (''work_outcome'', VStr (the (rr_work_outcome r))), (''commit_outcome'', VStr (the (rr_commit_outcome r))),
      (''speech_outcome'', VStr (the (rr_speech_outcome r)))] @
     opt_field ''result_id'' (map_option VStr (rr_result_id r)) @
     opt_field ''provider'' (map_option VStr (ra_provider a)) @
     opt_field ''model'' (map_option VStr (ra_model a)) @
     opt_field ''delivery_disposition'' (map_option VStr (ra_delivery_disposition a))"

definition finalize_retained ::
    "instant \<Rightarrow> retained_args \<Rightarrow> retained_recorder \<times> sink \<Rightarrow> (retained_recorder \<times> sink) \<times> bool" where
  "finalize_retained now a rs =
     (case rs of (r, sink) \<Rightarrow>
        if rr_state r = RFinalized then ((r, sink), False)
        else
          let r = settle_retained a r in
          ((r, safe_emit ''work_item_background'' (retained_fields a now r) sink), True))"

section \<open>The recorder factory\<close>

record recorder_factory =
  rf_recorders :: "nat \<Rightarrow> retained_recorder"
  rf_retained_recorders :: "(string, nat) dict"
  rf_sink :: sink

definition register_if_open :: "string \<Rightarrow> nat \<Rightarrow> recorder_factory \<Rightarrow> recorder_factory" where
  "register_if_open work_item_id i f =
     (if rr_state (rf_recorders f i) = RFinalized then f
      else f\<lparr>rf_retained_recorders := AList.update work_item_id i (rf_retained_recorders f)\<rparr>)"

definition pop_recorder :: "string \<Rightarrow> recorder_factory \<Rightarrow> recorder_factory \<times> nat option" where
  "pop_recorder work_item_id f =
     (f\<lparr>rf_retained_recorders := AList.delete work_item_id (rf_retained_recorders f)\<rparr>,
      map_of (rf_retained_recorders f) work_item_id)"

definition finalize_at :: "instant \<Rightarrow> retained_args \<Rightarrow> nat \<Rightarrow> recorder_factory \<Rightarrow> recorder_factory" where
  "finalize_at now a i f =
     (case finalize_retained now a (rf_recorders f i, rf_sink f) of
        ((r, sink), _) \<Rightarrow> f\<lparr>rf_recorders := (rf_recorders f)(i := r), rf_sink := sink\<rparr>)"

definition finalize_all :: "instant \<Rightarrow> recorder_factory \<Rightarrow> recorder_factory" where
  "finalize_all now f =
     fold (\<lambda>(work_item_id, i) f.
        let f = finalize_at now no_retained_args i f in
        f\<lparr>rf_retained_recorders := AList.delete work_item_id (rf_retained_recorders f)\<rparr>)
       (rf_retained_recorders f) f"

definition on_late_terminal :: "(string, nat) dict \<Rightarrow> string \<Rightarrow> string \<Rightarrow> recorder_factory \<Rightarrow> recorder_factory" where
  "on_late_terminal recorders item_id terminal_kind f =
     (case map_of recorders item_id of
        None \<Rightarrow> f
      | Some i \<Rightarrow> f\<lparr>rf_recorders := (rf_recorders f)(i := fst (claim terminal_kind (rf_recorders f i)))\<rparr>)"

end
