(* ===== verification/Perf_Metrics_Properties.thy ===== *)
theory Perf_Metrics_Properties
  imports Perf_Metrics "HOL-Library.Multiset"
begin

text \<open>
  The recorders against the registry: what they emit always has the type its event demands, so nothing
  they record is dropped. Runs of a turn's recorder are in \<open>Perf_Accounting\<close>.
\<close>

section \<open>Well-typed records\<close>

definition valid_id :: "nat \<Rightarrow> string \<Rightarrow> bool" where
  "valid_id n s \<longleftrightarrow> s \<noteq> [] \<and> \<not> list_ex unsafe_id_char s \<and> length s \<le> n"

fun value_ok :: "field_kind \<Rightarrow> metric_value \<Rightarrow> bool" where
  "value_ok (KId n) (VStr s) \<longleftrightarrow> valid_id n s"
| "value_ok (KInt m) (VInt n) \<longleftrightarrow> m \<le> n"
| "value_ok KMs (VInt n) \<longleftrightarrow> 0 \<le> n"
| "value_ok KMs (VFloat x) \<longleftrightarrow> 0 \<le> x"
| "value_ok KBool (VBool b) \<longleftrightarrow> True"
| "value_ok (KEnum vs) (VStr s) \<longleftrightarrow> s \<in> set vs"
| "value_ok k v \<longleftrightarrow> False"

lemma format_value_ok: "(\<exists>text. format_value (name, k) v = Inr text) \<longleftrightarrow> value_ok k v"
  by (cases k; cases v) (auto simp: format_value_def valid_id_def)

text \<open>The type of a record: known fields only, all required ones, each of its kind, and the event's rule.\<close>

definition record_typed :: "event_spec \<Rightarrow> fields \<Rightarrow> bool" where
  "record_typed spec fs \<longleftrightarrow>
     list_all (\<lambda>(n, v). case map_of (es_fields spec) n of None \<Rightarrow> False | Some k \<Rightarrow> value_ok k v) fs \<and>
     list_all (\<lambda>(n, k). n \<in> set (dkeys fs)) (es_required spec) \<and> es_validate spec fs = Inr ()"

lemma render_ok:
  assumes "\<And>n k v. (n, k) \<in> set specs \<Longrightarrow> map_of fs n = Some v \<Longrightarrow> value_ok k v"
  shows "\<exists>parts. render_fields specs fs = Inr parts"
  using assms
proof (induction specs)
  case (Cons p specs)
  obtain n k where p: "p = (n, k)" by force
  have rest: "\<exists>parts. render_fields specs fs = Inr parts"
    using Cons.prems by (intro Cons.IH) auto
  show ?case
  proof (cases "map_of fs n")
    case None
    then show ?thesis using rest by (simp add: p)
  next
    case (Some v)
    then have "value_ok k v" using Cons.prems p by auto
    then obtain part where "format_value (n, k) v = Inr part" using format_value_ok by blast
    then show ?thesis using rest Some by (auto simp: p)
  qed
qed simp

lemma typed_record_accepted:
  assumes "map_of EVENT_REGISTRY e = Some spec" and "distinct (map fst (es_fields spec))" and "record_typed spec fs"
  shows "\<exists>line. format_record e fs = Inr line"
proof -
  have known: "n \<in> set (map fst (es_fields spec))" if "n \<in> set (dkeys fs)" for n
  proof -
    from that obtain v where "(n, v) \<in> set fs" by auto
    then obtain k where "map_of (es_fields spec) n = Some k"
      using assms(3) by (auto simp: record_typed_def list_all_iff split: option.splits)
    then show ?thesis by (rule map_of_Some_key)
  qed
  then have "filter (\<lambda>n. n \<notin> set (map fst (es_fields spec))) (dkeys fs) = []"
    by (auto simp: filter_empty_conv)
  moreover have "filter (\<lambda>n. map_of fs n = None) (map fst (es_required spec)) = []"
    using assms(3) by (auto simp: record_typed_def list_all_iff filter_empty_conv map_of_None_iff)
  moreover have "value_ok k v" if "(n, k) \<in> set (es_fields spec)" "map_of fs n = Some v" for n k v
  proof -
    have "map_of (es_fields spec) n = Some k" using that(1) assms(2) by simp
    moreover have "(n, v) \<in> set fs" using that(2) by (rule map_of_SomeD)
    ultimately show ?thesis using assms(3) by (auto simp: record_typed_def list_all_iff)
  qed
  then obtain parts where "render_fields (es_fields spec) fs = Inr parts" using render_ok by blast
  moreover have "es_validate spec fs = Inr ()" using assms(3) by (simp add: record_typed_def)
  ultimately show ?thesis using assms(1) by (simp add: format_record_def Let_def)
qed

lemma typed_record_emitted:
  assumes "map_of EVENT_REGISTRY e = Some spec" and "distinct (map fst (es_fields spec))" and "record_typed spec fs"
  shows "\<exists>r. safe_emit e fs sink = sink @ [r] \<and> mr_event r = e \<and> mr_fields r = fs"
  using typed_record_accepted [OF assms] by (auto simp: safe_emit_def build_record_def)

section \<open>The three application events\<close>

lemmas field_defs = id_field_def int_field_def ms_field_def bool_field_def enum_field_def

lemma app_turn_fields:
  "es_required app_turn_spec =
     [(''session_id'', KId 128), (''origin_epoch'', KInt 0), (''turn_id'', KId 128), (''outcome'', KEnum APP_TURN_OUTCOMES),
      (''total_ms'', KMs), (''child_count'', KInt 0), (''direct_count'', KInt 0), (''unsupported_count'', KInt 0),
      (''completed_count'', KInt 0), (''retained_count'', KInt 0), (''clarification_count'', KInt 0),
      (''declined_count'', KInt 0), (''failed_count'', KInt 0), (''cancelled_count'', KInt 0)]"
  "es_optional app_turn_spec =
     [(''control_action'', KEnum CONTROL_ACTIONS), (''control_outcome'', KEnum CONTROL_OUTCOMES), (''routing_ms'', KMs),
      (''commit_ms'', KMs), (''scenario'', KId 64), (''acknowledgement'', KBool)]"
  by (simp_all add: app_turn_spec_def turn_fields_def counter_fields_def APP_TURN_COUNTER_FIELDS_def field_defs)

lemma work_item_fields:
  "es_required work_item_spec =
     [(''session_id'', KId 128), (''origin_epoch'', KInt 0), (''turn_id'', KId 128), (''work_item_id'', KId 128),
      (''outcome'', KEnum WORK_ITEM_OUTCOMES), (''total_ms'', KMs)]"
  "es_optional work_item_spec =
     [(''app_worker_id'', KId 128), (''result_id'', KId 128), (''search_ms'', KMs), (''commit_ms'', KMs),
      (''query_chars'', KInt 0), (''context_chars'', KInt 0), (''provider'', KId 64), (''model'', KId 64)]"
  by (simp_all add: work_item_spec_def plain_event_def turn_fields_def field_defs)

lemma background_fields:
  "es_required background_spec =
     [(''session_id'', KId 128), (''origin_epoch'', KInt 0), (''turn_id'', KId 128), (''work_item_id'', KId 128),
      (''app_worker_id'', KId 128), (''background_ms'', KMs), (''work_outcome'', KEnum WORK_OUTCOMES),
      (''commit_outcome'', KEnum COMMIT_OUTCOMES), (''speech_outcome'', KEnum SPEECH_OUTCOMES)]"
  "es_optional background_spec =
     [(''result_id'', KId 128), (''provider'', KId 64), (''model'', KId 64),
      (''delivery_disposition'', KEnum LATE_DELIVERY_DISPOSITIONS)]"
  by (simp_all add: background_spec_def plain_event_def turn_fields_def field_defs)

lemma registry_lookup:
  "map_of EVENT_REGISTRY ''app_turn_foreground'' = Some app_turn_spec"
  "map_of EVENT_REGISTRY ''work_item_foreground'' = Some work_item_spec"
  "map_of EVENT_REGISTRY ''work_item_background'' = Some background_spec"
  by (simp_all add: EVENT_REGISTRY_def)

lemma fields_distinct:
  "distinct (map fst (es_fields app_turn_spec))" "distinct (map fst (es_fields work_item_spec))"
  "distinct (map fst (es_fields background_spec))"
  by (simp_all add: es_fields_def app_turn_fields work_item_fields background_fields)

lemma list_all_opt [simp]: "list_all P (opt_field n v) \<longleftrightarrow> (\<forall>x. v = Some x \<longrightarrow> P (n, x))"
  by (cases v) (simp_all add: opt_field_def)

lemma map_of_opt: "map_of (opt_field n v) m = (if m = n then v else None)"
  by (cases v) (simp_all add: opt_field_def)

definition child_args_ok :: "child_args \<Rightarrow> bool" where
  "child_args_ok a \<longleftrightarrow>
     (\<forall>x. ca_app_worker_id a = Some x \<longrightarrow> valid_id 128 x) \<and> (\<forall>x. ca_result_id a = Some x \<longrightarrow> valid_id 128 x) \<and>
     (\<forall>x. ca_search_ms a = Some x \<longrightarrow> 0 \<le> x) \<and> (\<forall>x. ca_commit_ms a = Some x \<longrightarrow> 0 \<le> x) \<and>
     (\<forall>x. ca_query_chars a = Some x \<longrightarrow> 0 \<le> x) \<and> (\<forall>x. ca_context_chars a = Some x \<longrightarrow> 0 \<le> x) \<and>
     (\<forall>x. ca_provider a = Some x \<longrightarrow> valid_id 64 x) \<and> (\<forall>x. ca_model a = Some x \<longrightarrow> valid_id 64 x)"

lemma plain_args_ok [simp]: "child_args_ok (plain_child_args x)"
  by (simp add: child_args_ok_def plain_child_args_def)

lemma child_outcome_vocabulary [simp]: "child_outcome x \<in> set WORK_ITEM_OUTCOMES"
  by (simp add: child_outcome_def WORK_ITEM_OUTCOMES_def)

lemma child_record_typed:
  assumes "valid_id 128 (tr_session_id t)" "valid_id 128 (tr_turn_id t)" "valid_id 128 (wr_work_item_id w)"
    "wr_start w \<le> now" "child_args_ok a"
  shows "record_typed work_item_spec (child_fields t w now a)"
proof -
  have "es_validate work_item_spec f = Inr ()" for f by (simp add: work_item_spec_def plain_event_def)
  moreover have "list_all (\<lambda>(n, k). n \<in> set (dkeys (child_fields t w now a))) (es_required work_item_spec)"
    by (simp add: work_item_fields child_fields_def)
  moreover have "list_all (\<lambda>(n, v). case map_of (es_fields work_item_spec) n of None \<Rightarrow> False | Some k \<Rightarrow> value_ok k v)
      (child_fields t w now a)"
    using assms by (auto simp: child_fields_def es_fields_def work_item_fields child_args_ok_def)
  ultimately show ?thesis by (simp add: record_typed_def)
qed

section \<open>Counters\<close>

definition counters_inv :: "turn_recorder \<Rightarrow> bool" where
  "counters_inv t \<longleftrightarrow> dkeys (tr_counters t) = APP_TURN_COUNTER_FIELDS \<and> sum_list (dvals (tr_counters t)) = tr_dispatched_children t"

lemma sum_update:
  assumes "distinct (dkeys d)" and "map_of d k = Some (n :: nat)"
  shows "sum_list (dvals (AList.update k (n + 1) d)) = sum_list (dvals d) + 1"
  using assms by (induction d) (auto simp: map_of_eq_None_iff split: if_splits)

lemma counter_fields_distinct: "distinct APP_TURN_COUNTER_FIELDS"
  by (simp add: APP_TURN_COUNTER_FIELDS_def)

lemma counter_known: "(case map_of child_counter_for_outcome x of None \<Rightarrow> ''failed_count'' | Some c \<Rightarrow> c) \<in> set APP_TURN_COUNTER_FIELDS"
proof (cases "map_of child_counter_for_outcome x")
  case (Some c)
  then have "c \<in> snd ` set child_counter_for_outcome" by (auto dest: map_of_SomeD intro: rev_image_eqI)
  then show ?thesis using Some by (auto simp: child_counter_for_outcome_def APP_TURN_COUNTER_FIELDS_def)
qed (simp add: APP_TURN_COUNTER_FIELDS_def)

lemma record_child_counters: "counters_inv t \<Longrightarrow> counters_inv (record_child i x t)"
proof -
  assume inv: "counters_inv t"
  let ?c = "case map_of child_counter_for_outcome x of None \<Rightarrow> ''failed_count'' | Some c \<Rightarrow> c"
  have key: "?c \<in> set (dkeys (tr_counters t))" using inv counter_known by (simp only: counters_inv_def)
  then obtain n where n: "map_of (tr_counters t) ?c = Some n" using key_map_of by force
  moreover have "distinct (dkeys (tr_counters t))" using inv counter_fields_distinct by (simp add: counters_inv_def)
  ultimately show ?thesis
    using inv key sum_update [of "tr_counters t" ?c n] by (simp add: counters_inv_def record_child_def Let_def dkeys_dset)
qed

lemma sum_counters_ints:
  assumes "\<And>n. n \<in> set names \<Longrightarrow> map_of fs n = Some (VInt (int (f n)))"
  shows "sum_counters names fs = Some (real (sum_list (map f names)))"
  using assms by (induction names) simp_all

lemma map_of_ints: "map_of (map (\<lambda>(n, k). (n, VInt (int k))) d) n = map_option (\<lambda>k. VInt (int k)) (map_of d n)"
  by (induction d) auto

lemma map_of_skip: "map_of xs n = None \<Longrightarrow> map_of (xs @ ys) n = map_of ys n"
  by (simp add: map_add_def)

lemma map_of_found: "map_of xs n = Some v \<Longrightarrow> map_of (xs @ ys) n = Some v"
  by (simp add: map_add_def)

lemma lookup_dvals: "distinct (dkeys d) \<Longrightarrow> map (\<lambda>n. the (map_of d n)) (dkeys d) = dvals d"
  by (auto simp: comp_def intro!: map_cong)

section \<open>The record of a turn\<close>

lemma settled_control_cases:
  "settled_control x action result = (o', action', result') \<Longrightarrow>
     o' \<in> set APP_TURN_OUTCOMES \<and>
     (action' = None \<and> result' = None \<and> o' \<noteq> ''control'' \<or>
      (\<exists>y z. action' = Some y \<and> result' = Some z \<and> y \<in> set CONTROL_ACTIONS \<and> z \<in> set CONTROL_OUTCOMES \<and> o' = ''control''))"
  by (auto simp: settled_control_def Let_def APP_TURN_OUTCOMES_def split: if_splits option.splits)

definition turn_ok :: "turn_recorder \<Rightarrow> bool" where
  "turn_ok t \<longleftrightarrow> valid_id 128 (tr_session_id t) \<and> valid_id 128 (tr_turn_id t) \<and>
     (\<forall>x. tr_routing_ms t = Some x \<longrightarrow> 0 \<le> x) \<and> (\<forall>x. tr_commit_ms t = Some x \<longrightarrow> 0 \<le> x)"

lemma turn_record_typed:
  assumes ok: "turn_ok t" and inv: "counters_inv t" and now: "tr_start t \<le> now"
    and scenario: "\<And>x. tu_scenario a = Some x \<Longrightarrow> valid_id 64 x"
  shows "record_typed app_turn_spec (turn_record_fields t now a)"
proof -
  obtain x action result where sc: "settled_control
      (case tu_outcome a of None \<Rightarrow> derived_outcome (tr_counters t) | Some x \<Rightarrow> x) (tu_control_action a) (tu_control_outcome a) =
      (x, action, result)" by (metis prod_cases3)
  note c = settled_control_cases [OF sc]
  let ?fs = "turn_record_fields t now a"
  let ?base = "[(''session_id'', VStr (tr_session_id t)), (''origin_epoch'', VInt (int (tr_origin_epoch t))),
       (''turn_id'', VStr (tr_turn_id t)), (''outcome'', VStr x), (''total_ms'', VFloat ((now - tr_start t) * 1000)),
       (''child_count'', VInt (int (tr_dispatched_children t)))]"
  let ?tail = "opt_field ''control_action'' (map_option VStr action) @ opt_field ''control_outcome'' (map_option VStr result) @
      opt_field ''routing_ms'' (map_option VFloat (tr_routing_ms t)) @ opt_field ''commit_ms'' (map_option VFloat (tr_commit_ms t)) @
      opt_field ''scenario'' (map_option VStr (tu_scenario a)) @ opt_field ''acknowledgement'' (map_option VBool (tu_acknowledgement a))"
  have fs: "?fs = ?base @ map (\<lambda>(n, k). (n, VInt (int k))) (tr_counters t) @ ?tail"
    by (simp add: turn_record_fields_def sc)
  have keys: "dkeys (tr_counters t) = APP_TURN_COUNTER_FIELDS" and total: "sum_list (dvals (tr_counters t)) = tr_dispatched_children t"
    using inv by (simp_all add: counters_inv_def)
  have names: "map fst (map (\<lambda>(n, k). (n, VInt (int k))) (tr_counters t)) = APP_TURN_COUNTER_FIELDS"
    using keys by (simp add: comp_def case_prod_beta)
  have notin: "n \<notin> set APP_TURN_COUNTER_FIELDS" if "n \<in> {''child_count'', ''outcome'', ''control_action'', ''control_outcome''}" for n
    using that by (auto simp: APP_TURN_COUNTER_FIELDS_def)
  have counters: "map_of ?fs n = Some (VInt (int (the (map_of (tr_counters t) n))))" if n: "n \<in> set APP_TURN_COUNTER_FIELDS" for n
  proof -
    obtain k where "map_of (tr_counters t) n = Some k" using n key_map_of [of n "tr_counters t"] unfolding keys by blast
    then have mid: "map_of (map (\<lambda>(n, k). (n, VInt (int k))) (tr_counters t)) n = Some (VInt (int k))" by (simp add: map_of_ints)
    have base_none: "map_of ?base n = None" using n by (auto simp: APP_TURN_COUNTER_FIELDS_def)
    show ?thesis unfolding fs map_of_skip [OF base_none] map_of_found [OF mid] using \<open>map_of (tr_counters t) n = Some k\<close> by simp
  qed
  have "sum_counters APP_TURN_COUNTER_FIELDS ?fs = Some (real (sum_list (map (\<lambda>n. the (map_of (tr_counters t) n)) APP_TURN_COUNTER_FIELDS)))"
    by (rule sum_counters_ints) (rule counters)
  also have "sum_list (map (\<lambda>n. the (map_of (tr_counters t) n)) APP_TURN_COUNTER_FIELDS) = tr_dispatched_children t"
    using lookup_dvals [of "tr_counters t"] counter_fields_distinct keys total by simp
  finally have sum: "sum_counters APP_TURN_COUNTER_FIELDS ?fs = Some (real (tr_dispatched_children t))" .
  have none: "map_of (tr_counters t) n = None" if "n \<in> {''child_count'', ''outcome'', ''control_action'', ''control_outcome''}" for n
    using notin [OF that] keys by (metis map_of_None_iff)
  have look: "map_of ?fs ''child_count'' = Some (VInt (int (tr_dispatched_children t)))" "map_of ?fs ''outcome'' = Some (VStr x)"
    "map_of ?fs ''control_action'' = map_option VStr action" "map_of ?fs ''control_outcome'' = map_option VStr result"
    unfolding fs using none by (simp_all add: map_of_ints map_of_opt map_add_def split: option.splits)
  have "validate_app_turn_foreground ?fs = Inr ()"
    using c by (auto simp: validate_app_turn_foreground_def sum look Let_def)
  then have rule: "es_validate app_turn_spec ?fs = Inr ()" by (simp add: app_turn_spec_def)
  have "set (dkeys ?fs) \<supseteq> set APP_TURN_COUNTER_FIELDS \<union> set (dkeys ?base)"
    unfolding fs map_append names by auto
  then have required: "list_all (\<lambda>(n, k). n \<in> set (dkeys ?fs)) (es_required app_turn_spec)"
    by (simp add: app_turn_fields APP_TURN_COUNTER_FIELDS_def)
  have cnt: "list_all (\<lambda>(n, v). case map_of (es_fields app_turn_spec) n of None \<Rightarrow> False | Some k \<Rightarrow> value_ok k v)
      (map (\<lambda>(n, k). (n, VInt (int k))) (tr_counters t))"
  proof -
    have "map_of (es_fields app_turn_spec) n = Some (KInt 0)" if "n \<in> set APP_TURN_COUNTER_FIELDS" for n
      using that by (auto simp: es_fields_def app_turn_fields APP_TURN_COUNTER_FIELDS_def)
    moreover have "n \<in> set APP_TURN_COUNTER_FIELDS" if "(n, k) \<in> set (tr_counters t)" for n k
      using that keys by (metis in_set_zipE zip_map_fst_snd)
    ultimately show ?thesis by (auto simp: list_all_iff)
  qed
  have base: "list_all (\<lambda>(n, v). case map_of (es_fields app_turn_spec) n of None \<Rightarrow> False | Some k \<Rightarrow> value_ok k v) ?base"
    using ok now c by (auto simp: es_fields_def app_turn_fields turn_ok_def)
  have tail: "list_all (\<lambda>(n, v). case map_of (es_fields app_turn_spec) n of None \<Rightarrow> False | Some k \<Rightarrow> value_ok k v) ?tail"
    using ok c scenario by (auto simp: es_fields_def app_turn_fields turn_ok_def)
  show ?thesis
    unfolding record_typed_def using rule required base cnt tail by (simp add: fs)
qed

section \<open>The record of retained work\<close>

definition drawn_from :: "string list \<Rightarrow> string option \<Rightarrow> bool" where
  "drawn_from vals x \<longleftrightarrow> (\<forall>y. x = Some y \<longrightarrow> y \<in> set vals)"

definition retained_ok :: "retained_recorder \<Rightarrow> bool" where
  "retained_ok r \<longleftrightarrow>
     valid_id 128 (rr_session_id r) \<and> valid_id 128 (rr_turn_id r) \<and> valid_id 128 (rr_work_item_id r) \<and>
     valid_id 128 (rr_app_worker_id r) \<and> drawn_from WORK_OUTCOMES (rr_work_outcome r) \<and>
     drawn_from COMMIT_OUTCOMES (rr_commit_outcome r) \<and> drawn_from SPEECH_OUTCOMES (rr_speech_outcome r) \<and>
     (\<forall>x. rr_result_id r = Some x \<longrightarrow> valid_id 128 x)"

definition retained_args_ok :: "retained_args \<Rightarrow> bool" where
  "retained_args_ok a \<longleftrightarrow>
     drawn_from WORK_OUTCOMES (ra_work_outcome a) \<and> drawn_from COMMIT_OUTCOMES (ra_commit_outcome a) \<and>
     drawn_from SPEECH_OUTCOMES (ra_speech_outcome a) \<and> drawn_from LATE_DELIVERY_DISPOSITIONS (ra_delivery_disposition a) \<and>
     (\<forall>x. ra_result_id a = Some x \<longrightarrow> valid_id 128 x) \<and> (\<forall>x. ra_provider a = Some x \<longrightarrow> valid_id 64 x) \<and>
     (\<forall>x. ra_model a = Some x \<longrightarrow> valid_id 64 x)"

lemma default_drawn:
  "drawn_from vals given \<Longrightarrow> drawn_from vals old \<Longrightarrow> d \<in> set vals \<Longrightarrow> the (or_default (given_or given old) d) \<in> set vals"
  by (auto simp: drawn_from_def or_default_def given_or_def split: option.splits)

lemma retained_record_typed:
  assumes ok: "retained_ok r" and args: "retained_args_ok a" and now: "rr_start r \<le> now"
  shows "record_typed background_spec (retained_fields a now (settle_retained a r))"
proof -
  have w: "the (or_default (given_or (ra_work_outcome a) (rr_work_outcome r)) ''cancelled'') \<in> set WORK_OUTCOMES"
    and c: "the (or_default (given_or (ra_commit_outcome a) (rr_commit_outcome r)) ''suppressed_shutdown'') \<in> set COMMIT_OUTCOMES"
    and sp: "the (or_default (given_or (ra_speech_outcome a) (rr_speech_outcome r)) ''cancelled'') \<in> set SPEECH_OUTCOMES"
    using ok args by (auto simp: retained_ok_def retained_args_ok_def intro!: default_drawn)
      (simp_all add: WORK_OUTCOMES_def COMMIT_OUTCOMES_def SPEECH_OUTCOMES_def)
  have rid: "valid_id 128 x" if "given_or (ra_result_id a) (rr_result_id r) = Some x" for x
    using that ok args by (auto simp: retained_ok_def retained_args_ok_def given_or_def split: if_splits)
  have "es_validate background_spec f = Inr ()" for f by (simp add: background_spec_def plain_event_def)
  moreover have "list_all (\<lambda>(n, k). n \<in> set (dkeys (retained_fields a now (settle_retained a r)))) (es_required background_spec)"
    by (simp add: background_fields retained_fields_def)
  moreover have "list_all (\<lambda>(n, v). case map_of (es_fields background_spec) n of None \<Rightarrow> False | Some k \<Rightarrow> value_ok k v)
      (retained_fields a now (settle_retained a r))"
    using ok args now w c sp rid
    by (auto simp: retained_fields_def settle_retained_def es_fields_def background_fields retained_ok_def retained_args_ok_def drawn_from_def)
  ultimately show ?thesis by (simp add: record_typed_def)
qed

end
