(* ===== verification/Perf_Accounting.thy ===== *)
theory Perf_Accounting
  imports Perf_Metrics_Properties
begin

text \<open>
  Runs of a turn's recorder: every child of a turn is recorded exactly once, and the record of the turn
  comes last and counts them.
\<close>

section \<open>A run of a turn's recorder\<close>

datatype tr_op =
    NewChild instant string
  | FinalizeChild instant nat child_args
  | RecordRouting real
  | RecordCommit real
  | FinalizeTurn instant turn_args

fun tr_step :: "tr_op \<Rightarrow> turn_recorder \<Rightarrow> turn_recorder" where
  "tr_step (NewChild now i) t = fst (new_child now i t)"
| "tr_step (FinalizeChild now i a) t = finalize_child now i a t"
| "tr_step (RecordRouting ms) t = record_routing ms t"
| "tr_step (RecordCommit ms) t = record_turn_commit ms t"
| "tr_step (FinalizeTurn now a) t = finalize_turn now a t"

text \<open>
  What the callers keep to: work item identifiers are valid and fresh, durations are not negative, the
  clock does not run backwards, and no child is created once the turn is finalized. Outcomes and control
  fields are unrestricted.
\<close>

fun tr_ok :: "tr_op \<Rightarrow> turn_recorder \<Rightarrow> bool" where
  "tr_ok (NewChild now i) t \<longleftrightarrow> \<not> tr_finalized t \<and> valid_id 128 i \<and> i \<notin> wr_work_item_id ` set (tr_children t)"
| "tr_ok (FinalizeChild now i a) t \<longleftrightarrow> child_args_ok a \<and> (i < length (tr_children t) \<longrightarrow> wr_start (tr_children t ! i) \<le> now)"
| "tr_ok (RecordRouting ms) t \<longleftrightarrow> 0 \<le> ms"
| "tr_ok (RecordCommit ms) t \<longleftrightarrow> 0 \<le> ms"
| "tr_ok (FinalizeTurn now a) t \<longleftrightarrow>
     tr_start t \<le> now \<and> (\<forall>w \<in> set (tr_children t). wr_start w \<le> now) \<and> (\<forall>x. tu_scenario a = Some x \<longrightarrow> valid_id 64 x)"

abbreviation is_item :: "measurement_record \<Rightarrow> bool" where
  "is_item r \<equiv> mr_event r = ''work_item_foreground''"

abbreviation is_turn :: "measurement_record \<Rightarrow> bool" where
  "is_turn r \<equiv> mr_event r = ''app_turn_foreground''"

definition recorded_items :: "sink \<Rightarrow> metric_value option multiset" where
  "recorded_items sink = image_mset (\<lambda>r. map_of (mr_fields r) ''work_item_id'') (filter_mset is_item (mset sink))"

definition item_ids :: "work_item_recorder multiset \<Rightarrow> metric_value option multiset" where
  "item_ids ws = image_mset (\<lambda>w. Some (VStr (wr_work_item_id w))) ws"

definition open_list :: "work_item_recorder list \<Rightarrow> (string, nat) dict" where
  "open_list ws = map (\<lambda>i. (wr_work_item_id (ws ! i), i)) (filter (\<lambda>i. \<not> wr_finalized (ws ! i)) [0..<length ws])"

definition books_inv :: "turn_recorder \<Rightarrow> bool" where
  "books_inv t \<longleftrightarrow>
     turn_ok t \<and> counters_inv t \<and> distinct (map wr_work_item_id (tr_children t)) \<and>
     (\<forall>w \<in> set (tr_children t). valid_id 128 (wr_work_item_id w)) \<and> tr_open_children t = open_list (tr_children t) \<and>
     tr_dispatched_children t = size (filter_mset wr_finalized (mset (tr_children t))) \<and>
     recorded_items (tr_sink t) = item_ids (filter_mset wr_finalized (mset (tr_children t))) \<and>
     (\<forall>r \<in> set (tr_sink t). is_item r \<or> is_turn r)"

lemma open_list_snoc: "\<not> wr_finalized w \<Longrightarrow> open_list (ws @ [w]) = open_list ws @ [(wr_work_item_id w, length ws)]"
  by (auto simp: open_list_def nth_append intro!: map_cong filter_cong)

lemma update_fresh: "k \<notin> set (dkeys d) \<Longrightarrow> AList.update k v d = d @ [(k, v)]"
  by (induction d) auto

lemma open_list_keys: "set (dkeys (open_list ws)) \<subseteq> wr_work_item_id ` set ws"
  by (auto simp: open_list_def)

lemma open_list_finalized:
  assumes "distinct (map wr_work_item_id ws)" and "i < length ws"
  shows "open_list (ws[i := (ws ! i)\<lparr>wr_finalized := True\<rparr>]) = AList.delete (wr_work_item_id (ws ! i)) (open_list ws)"
proof -
  have other: "wr_work_item_id (ws ! j) = wr_work_item_id (ws ! i) \<Longrightarrow> j = i" if "j < length ws" for j
    using assms that nth_eq_iff_index_eq [of "map wr_work_item_id ws" j i] by simp
  show ?thesis
    using assms(2) by (auto dest: other other [OF _ sym] simp: open_list_def AList.delete_eq filter_map comp_def nth_list_update intro!: map_cong filter_cong)
qed

lemma recorded_append [simp]:
  "recorded_items (sink @ [r]) = (if is_item r then add_mset (map_of (mr_fields r) ''work_item_id'') (recorded_items sink) else recorded_items sink)"
  by (simp add: recorded_items_def)

lemma filter_finalized_update:
  assumes "i < length ws" and "\<not> wr_finalized (ws ! i)"
  shows "filter_mset wr_finalized (mset (ws[i := (ws ! i)\<lparr>wr_finalized := True\<rparr>])) =
    add_mset ((ws ! i)\<lparr>wr_finalized := True\<rparr>) (filter_mset wr_finalized (mset ws))"
  using assms by (simp add: mset_update filter_diff_mset)

lemma map_ids_update [simp]:
  "map wr_work_item_id (ws[i := (ws ! i)\<lparr>wr_finalized := True\<rparr>]) = map wr_work_item_id ws"
  by (cases "i < length ws") (auto intro!: nth_equalityI simp: nth_list_update)

lemma record_child_frame [simp]:
  "tr_children (record_child k x t) = tr_children t" "tr_sink (record_child k x t) = tr_sink t"
  "tr_finalized (record_child k x t) = tr_finalized t" "tr_start (record_child k x t) = tr_start t"
  "tr_open_children (record_child k x t) = AList.delete k (tr_open_children t)"
  "tr_dispatched_children (record_child k x t) = tr_dispatched_children t + 1"
  "turn_ok (record_child k x t) = turn_ok t"
  by (simp_all add: record_child_def Let_def turn_ok_def)

definition child_closed :: "nat \<Rightarrow> turn_recorder \<Rightarrow> work_item_recorder list" where
  "child_closed i t = (tr_children t)[i := (tr_children t ! i)\<lparr>wr_finalized := True\<rparr>]"

lemma finalize_child_emits:
  assumes "books_inv t" and i: "i < length (tr_children t)" "\<not> wr_finalized (tr_children t ! i)"
    and "child_args_ok a" "wr_start (tr_children t ! i) \<le> now"
  obtains r where
    "finalize_child now i a t =
       record_child (wr_work_item_id (tr_children t ! i)) (child_outcome (ca_outcome a))
         (t\<lparr>tr_children := child_closed i t, tr_sink := tr_sink t @ [r]\<rparr>)"
    "is_item r" "map_of (mr_fields r) ''work_item_id'' = Some (VStr (wr_work_item_id (tr_children t ! i)))"
    "record_typed work_item_spec (mr_fields r)"
proof -
  let ?fs = "child_fields (t\<lparr>tr_children := child_closed i t\<rparr>) (tr_children t ! i) now a"
  have typed: "record_typed work_item_spec ?fs"
    using assms by (intro child_record_typed) (auto simp: books_inv_def turn_ok_def)
  from typed_record_emitted [OF registry_lookup(2) fields_distinct(2) this]
  obtain r where r: "safe_emit ''work_item_foreground'' ?fs (tr_sink t) = tr_sink t @ [r]" "is_item r" "mr_fields r = ?fs" by blast
  show thesis
  proof (rule that [of r])
    show "finalize_child now i a t =
       record_child (wr_work_item_id (tr_children t ! i)) (child_outcome (ca_outcome a))
         (t\<lparr>tr_children := child_closed i t, tr_sink := tr_sink t @ [r]\<rparr>)"
      using i r(1) by (simp add: finalize_child_def Let_def child_closed_def)
  qed (use r typed in \<open>simp_all add: child_fields_def\<close>)
qed

lemma books_record_child:
  assumes inv: "books_inv t" and i: "i < length (tr_children t)" "\<not> wr_finalized (tr_children t ! i)"
    and r: "is_item r" "map_of (mr_fields r) ''work_item_id'' = Some (VStr (wr_work_item_id (tr_children t ! i)))"
  shows "books_inv (record_child (wr_work_item_id (tr_children t ! i)) x
    (t\<lparr>tr_children := child_closed i t, tr_sink := tr_sink t @ [r]\<rparr>))"
proof -
  let ?t = "t\<lparr>tr_children := child_closed i t, tr_sink := tr_sink t @ [r]\<rparr>"
  have "counters_inv ?t" "turn_ok ?t" using inv by (simp_all add: books_inv_def counters_inv_def turn_ok_def)
  then have "counters_inv (record_child (wr_work_item_id (tr_children t ! i)) x ?t)"
    and "turn_ok (record_child (wr_work_item_id (tr_children t ! i)) x ?t)" by (simp_all add: record_child_counters)
  moreover have "\<forall>w \<in> set (child_closed i t). valid_id 128 (wr_work_item_id w)"
    using inv i by (auto simp: books_inv_def child_closed_def dest!: set_update_subset_insert [THEN subsetD])
  ultimately show ?thesis
    using inv i r by (auto simp: books_inv_def child_closed_def open_list_finalized filter_finalized_update item_ids_def)
qed

lemma finalize_child_skip:
  "length (tr_children t) \<le> i \<or> wr_finalized (tr_children t ! i) \<Longrightarrow> finalize_child now i a t = t"
  by (auto simp: finalize_child_def Let_def)

definition no_turn_record :: "turn_recorder \<Rightarrow> bool" where
  "no_turn_record t \<longleftrightarrow> (\<forall>r \<in> set (tr_sink t). \<not> is_turn r)"

definition closed_children :: "turn_recorder \<Rightarrow> nat set" where
  "closed_children t = {i. i < length (tr_children t) \<and> wr_finalized (tr_children t ! i)}"

lemma finalize_child_effect:
  assumes inv: "books_inv t" and a: "child_args_ok a" and time: "i < length (tr_children t) \<longrightarrow> wr_start (tr_children t ! i) \<le> now"
  shows "books_inv (finalize_child now i a t) \<and>
    (no_turn_record t \<longrightarrow> no_turn_record (finalize_child now i a t)) \<and>
    closed_children (finalize_child now i a t) = closed_children t \<union> (if i < length (tr_children t) then {i} else {}) \<and>
    map wr_work_item_id (tr_children (finalize_child now i a t)) = map wr_work_item_id (tr_children t) \<and>
    map wr_start (tr_children (finalize_child now i a t)) = map wr_start (tr_children t) \<and>
    tr_finalized (finalize_child now i a t) = tr_finalized t \<and> tr_start (finalize_child now i a t) = tr_start t"
proof (cases "i < length (tr_children t) \<and> \<not> wr_finalized (tr_children t ! i)")
  case False
  then have "finalize_child now i a t = t" by (intro finalize_child_skip) auto
  then show ?thesis using inv False by (auto simp: closed_children_def)
next
  case True
  with time have i: "i < length (tr_children t)" "\<not> wr_finalized (tr_children t ! i)" "wr_start (tr_children t ! i) \<le> now" by auto
  obtain r where r: "finalize_child now i a t =
       record_child (wr_work_item_id (tr_children t ! i)) (child_outcome (ca_outcome a))
         (t\<lparr>tr_children := child_closed i t, tr_sink := tr_sink t @ [r]\<rparr>)"
    "is_item r" "map_of (mr_fields r) ''work_item_id'' = Some (VStr (wr_work_item_id (tr_children t ! i)))"
    by (rule finalize_child_emits [OF inv i(1,2) a i(3)])
  have starts: "map wr_start (child_closed i t) = map wr_start (tr_children t)"
    using i by (intro nth_equalityI) (auto simp: child_closed_def nth_list_update)
  show ?thesis
    using books_record_child [OF inv i(1,2) r(2,3)] i starts r(2)
    by (auto simp: r(1) no_turn_record_def closed_children_def child_closed_def nth_list_update split: if_splits)
qed

lemma sweep_effect:
  assumes "books_inv t" and "no_turn_record t" and "child_args_ok a" and "\<forall>w \<in> set (tr_children t). wr_start w \<le> now"
    and "\<forall>i \<in> set js. i < length (tr_children t)"
  defines "t' \<equiv> fold (\<lambda>i. finalize_child now i a) js t"
  shows "books_inv t' \<and> no_turn_record t' \<and> closed_children t' = closed_children t \<union> set js \<and>
    length (tr_children t') = length (tr_children t) \<and> map wr_work_item_id (tr_children t') = map wr_work_item_id (tr_children t) \<and>
    tr_finalized t' = tr_finalized t \<and> tr_start t' = tr_start t"
  using assms(1-5) unfolding t'_def
proof (induction js arbitrary: t)
  case (Cons i js)
  let ?u = "finalize_child now i a t"
  have i: "i < length (tr_children t)" using Cons.prems by simp
  then have "wr_start (tr_children t ! i) \<le> now" using Cons.prems(4) by simp
  from finalize_child_effect [OF Cons.prems(1,3), of i now] this i
  have e: "books_inv ?u" "no_turn_record ?u" "closed_children ?u = insert i (closed_children t)"
    "map wr_work_item_id (tr_children ?u) = map wr_work_item_id (tr_children t)"
    "map wr_start (tr_children ?u) = map wr_start (tr_children t)" "tr_finalized ?u = tr_finalized t" "tr_start ?u = tr_start t"
    using Cons.prems(2) by simp_all
  have len: "length (tr_children ?u) = length (tr_children t)" using e(4) by (metis length_map)
  have "\<forall>w \<in> set (tr_children ?u). wr_start w \<le> now"
    using Cons.prems(4) e(5) by (metis image_iff list.set_map)
  moreover have "\<forall>i \<in> set js. i < length (tr_children ?u)" using Cons.prems(5) len by simp
  ultimately show ?case using Cons.IH [OF e(1,2) Cons.prems(3)] e len by auto
qed simp

lemma turn_record_emitted:
  assumes "books_inv t" and "tr_start t \<le> now" and "\<And>x. tu_scenario a = Some x \<Longrightarrow> valid_id 64 x"
  obtains r where "safe_emit ''app_turn_foreground'' (turn_record_fields t now a) (tr_sink t) = tr_sink t @ [r]" "is_turn r"
    "map_of (mr_fields r) ''child_count'' = Some (VInt (int (tr_dispatched_children t)))" "record_typed app_turn_spec (mr_fields r)"
proof -
  have typed: "record_typed app_turn_spec (turn_record_fields t now a)"
    using assms by (intro turn_record_typed) (auto simp: books_inv_def)
  from typed_record_emitted [OF registry_lookup(1) fields_distinct(1) this]
  obtain r where r: "safe_emit ''app_turn_foreground'' (turn_record_fields t now a) (tr_sink t) = tr_sink t @ [r]" "is_turn r"
    "mr_fields r = turn_record_fields t now a" by blast
  have "map_of (turn_record_fields t now a) ''child_count'' = Some (VInt (int (tr_dispatched_children t)))"
    by (simp add: turn_record_fields_def split: prod.splits)
  then show thesis using that [of r] r typed by simp
qed

text \<open>The books of a turn: the invariant of a run.\<close>

definition closing_inv :: "turn_recorder \<Rightarrow> bool" where
  "closing_inv t \<longleftrightarrow>
     (if tr_finalized t then
        closed_children t = {..<length (tr_children t)} \<and>
        (\<exists>items r. tr_sink t = items @ [r] \<and> is_turn r \<and> (\<forall>x \<in> set items. \<not> is_turn x) \<and>
           map_of (mr_fields r) ''child_count'' = Some (VInt (int (length (tr_children t)))))
      else no_turn_record t)"

lemma all_closed_size:
  assumes "closed_children t = {..<length (tr_children t)}"
  shows "filter_mset wr_finalized (mset (tr_children t)) = mset (tr_children t)"
proof -
  have "wr_finalized w" if "w \<in> set (tr_children t)" for w
    using that assms by (auto simp: closed_children_def in_set_conv_nth)
  then show ?thesis by (auto simp: filter_mset_eq_conv)
qed

lemma finalize_turn_inv:
  assumes inv: "books_inv t" "closing_inv t" and ok: "tr_ok (FinalizeTurn now a) t"
  shows "books_inv (finalize_turn now a t) \<and> closing_inv (finalize_turn now a t) \<and> tr_finalized (finalize_turn now a t)"
proof (cases "tr_finalized t")
  case False
  let ?t = "t\<lparr>tr_finalized := True\<rparr>"
  let ?sweep = "plain_child_args (if tu_outcome a = Some ''cancelled'' then ''cancelled'' else ''failed'')"
  define u where "u = fold (\<lambda>i. finalize_child now i ?sweep) (dvals (tr_open_children ?t)) ?t"
  have start: "books_inv ?t" "no_turn_record ?t" "\<forall>w \<in> set (tr_children ?t). wr_start w \<le> now"
    using inv ok False by (auto simp: books_inv_def turn_ok_def counters_inv_def closing_inv_def no_turn_record_def)
  have vals: "set (dvals (tr_open_children ?t)) = {..<length (tr_children t)} - closed_children t"
    using inv(1) by (auto simp: books_inv_def open_list_def closed_children_def)
  then have "\<forall>i \<in> set (dvals (tr_open_children ?t)). i < length (tr_children ?t)" by auto
  from sweep_effect [OF start(1,2) plain_args_ok start(3) this]
  have u: "books_inv u" "no_turn_record u" "closed_children u = closed_children ?t \<union> set (dvals (tr_open_children ?t))"
    "length (tr_children u) = length (tr_children t)" "tr_finalized u" "tr_start u = tr_start t"
    unfolding u_def by simp_all
  have closed: "closed_children u = {..<length (tr_children u)}"
    using u(3,4) vals by (auto simp: closed_children_def)
  obtain r where r: "safe_emit ''app_turn_foreground'' (turn_record_fields u now a) (tr_sink u) = tr_sink u @ [r]" "is_turn r"
    "map_of (mr_fields r) ''child_count'' = Some (VInt (int (tr_dispatched_children u)))"
    by (rule turn_record_emitted [OF u(1), of now a]) (use ok u(6) in auto)
  have fin: "finalize_turn now a t = u\<lparr>tr_sink := tr_sink u @ [r]\<rparr>"
    using False r(1) by (simp add: finalize_turn_def Let_def u_def)
  have count: "tr_dispatched_children u = length (tr_children u)"
    using u(1) all_closed_size [OF closed] by (simp add: books_inv_def)
  show ?thesis
    using u(1,2,5) closed r(2,3) count
    by (auto simp: fin books_inv_def turn_ok_def counters_inv_def closing_inv_def closed_children_def no_turn_record_def)
qed (use inv in \<open>simp add: finalize_turn_def\<close>)

lemma finalize_child_frame [simp]:
  "tr_finalized (finalize_child now i a t) = tr_finalized t" "length (tr_children (finalize_child now i a t)) = length (tr_children t)"
  by (simp_all add: finalize_child_def Let_def)

lemma finalize_turn_frame [simp]:
  "tr_finalized (finalize_turn now a t)" "length (tr_children (finalize_turn now a t)) = length (tr_children t)"
proof -
  have "tr_finalized (fold (\<lambda>i. finalize_child now i b) js u) = tr_finalized u"
    "length (tr_children (fold (\<lambda>i. finalize_child now i b) js u)) = length (tr_children u)" for b js u
    by (induction js arbitrary: u) simp_all
  then show "tr_finalized (finalize_turn now a t)" "length (tr_children (finalize_turn now a t)) = length (tr_children t)"
    by (simp_all add: finalize_turn_def Let_def)
qed

definition turn_books :: "turn_recorder \<Rightarrow> bool" where
  "turn_books t \<longleftrightarrow> books_inv t \<and> closing_inv t"

lemma new_child_inv:
  assumes "turn_books t" and ok: "tr_ok (NewChild now i) t"
  shows "turn_books (fst (new_child now i t))"
proof -
  let ?w = "\<lparr>wr_work_item_id = i, wr_start = now, wr_finalized = False\<rparr>"
  have inv: "books_inv t" "closing_inv t" using assms(1) by (simp_all add: turn_books_def)
  have fresh: "i \<notin> set (dkeys (open_list (tr_children t)))" using ok open_list_keys by force
  then have "map_of (tr_open_children t) i = None" using inv(1) by (simp add: books_inv_def map_of_eq_None_iff)
  then have eq: "fst (new_child now i t) =
      t\<lparr>tr_children := tr_children t @ [?w], tr_open_children := open_list (tr_children t @ [?w])\<rparr>"
    using inv(1) fresh by (simp add: new_child_def Let_def books_inv_def update_fresh open_list_snoc)
  show ?thesis
    using inv ok unfolding eq
    by (auto simp: turn_books_def books_inv_def turn_ok_def counters_inv_def closing_inv_def no_turn_record_def)
qed

lemma finalize_child_inv:
  assumes "turn_books t" and "tr_ok (FinalizeChild now i a) t"
  shows "turn_books (finalize_child now i a t)"
proof (cases "tr_finalized t")
  case True
  then have "length (tr_children t) \<le> i \<or> wr_finalized (tr_children t ! i)"
    using assms(1) by (auto simp: turn_books_def closing_inv_def closed_children_def)
  then show ?thesis using assms(1) by (simp add: finalize_child_skip)
next
  case False
  then show ?thesis
    using assms finalize_child_effect [of t a i now] by (simp add: turn_books_def closing_inv_def)
qed

lemma record_durations_inv:
  "turn_books t \<Longrightarrow> 0 \<le> ms \<Longrightarrow> turn_books (record_routing ms t)"
  "turn_books t \<Longrightarrow> 0 \<le> ms \<Longrightarrow> turn_books (record_turn_commit ms t)"
  by (auto simp: turn_books_def books_inv_def turn_ok_def counters_inv_def closing_inv_def no_turn_record_def
      closed_children_def record_routing_def record_turn_commit_def split: if_splits)

lemma close_turn_inv: "turn_books t \<Longrightarrow> tr_ok (FinalizeTurn now a) t \<Longrightarrow> turn_books (finalize_turn now a t)"
  using finalize_turn_inv by (simp add: turn_books_def)

interpretation turn_run: guarded_machine tr_step tr_ok turn_books
proof unfold_locales
  fix t e
  assume "turn_books t" and "tr_ok e t"
  then show "turn_books (tr_step e t)"
    by (cases e) (simp_all add: new_child_inv finalize_child_inv record_durations_inv close_turn_inv del: tr_ok.simps(1,2,5))
qed

lemma new_turn_books:
  assumes "valid_id 128 sid" and "valid_id 128 tid"
  shows "turn_books (new_turn_recorder sid ep tid now [])"
  using assms
  by (simp add: turn_books_def books_inv_def turn_ok_def counters_inv_def closing_inv_def no_turn_record_def
      new_turn_recorder_def recorded_items_def item_ids_def open_list_def comp_def APP_TURN_COUNTER_FIELDS_def)

section \<open>Properties\<close>



end
