(* ===== verification/Perf_Records.thy ===== *)
theory Perf_Records
  imports Perf_Metrics_Properties
begin

text \<open>
  What the validator accepts, and runs of the recorder of retained work: one background record, whatever
  the order in which claims, commits, speech and finalization arrive.
\<close>

section \<open>The validator decides the type of a record\<close>

lemma registry_distinct: "map_of EVENT_REGISTRY e = Some spec \<Longrightarrow> distinct (map fst (es_fields spec))"
  by (auto simp: EVENT_REGISTRY_def plain_event_def es_fields_def connection_fields_def turn_fields_def field_defs
      app_turn_fields work_item_fields background_fields split: if_splits)

lemma render_fields_ok:
  "render_fields specs fs = Inr parts \<Longrightarrow> (n, k) \<in> set specs \<Longrightarrow> map_of fs n = Some v \<Longrightarrow> value_ok k v"
  by (induction specs arbitrary: parts) (auto split: option.splits sum.splits dest: format_value_ok [THEN iffD1, OF exI])

lemma accepted_record_typed:
  assumes "wf_dict fs" and "map_of EVENT_REGISTRY e = Some spec" and "format_record e fs = Inr line"
  shows "record_typed spec fs"
proof -
  from assms(2,3) obtain parts where
    known: "filter (\<lambda>n. n \<notin> set (map fst (es_fields spec))) (dkeys fs) = []"
    and present: "filter (\<lambda>n. map_of fs n = None) (map fst (es_required spec)) = []"
    and rule: "es_validate spec fs = Inr ()" and parts: "render_fields (es_fields spec) fs = Inr parts"
    by (auto simp: format_record_def Let_def split: if_splits sum.splits)
  have "\<exists>k. map_of (es_fields spec) n = Some k \<and> value_ok k v" if "(n, v) \<in> set fs" for n v
  proof -
    have "n \<in> set (dkeys (es_fields spec))" using known that by (force simp: filter_empty_conv)
    then obtain k where k: "map_of (es_fields spec) n = Some k" using key_map_of by metis
    moreover have "map_of fs n = Some v" using assms(1) that by (simp add: wf_dict_def)
    ultimately show ?thesis using render_fields_ok [OF parts map_of_SomeD] by blast
  qed
  moreover have "list_all (\<lambda>(n, k). n \<in> set (dkeys fs)) (es_required spec)"
    using present by (simp add: filter_empty_conv list_all_iff map_of_eq_None_iff case_prod_beta)
  ultimately show ?thesis using rule by (fastforce simp: record_typed_def list_all_iff)
qed



section \<open>Runs of a retained recorder\<close>

datatype rr_op =
    RClaim string
  | RCommit string "string option"
  | RSpeech string
  | RFinalize instant retained_args

type_synonym retained_run = "retained_recorder \<times> sink"

fun rr_step :: "rr_op \<Rightarrow> retained_run \<Rightarrow> retained_run" where
  "rr_step (RClaim k) (r, s) = (fst (claim k r), s)"
| "rr_step (RCommit k i) (r, s) = (fst (record_commit k i r), s)"
| "rr_step (RSpeech k) (r, s) = (fst (record_speech k r), s)"
| "rr_step (RFinalize now a) rs = fst (finalize_retained now a rs)"

fun rr_ok :: "rr_op \<Rightarrow> retained_run \<Rightarrow> bool" where
  "rr_ok (RClaim k) rs \<longleftrightarrow> k \<in> set WORK_OUTCOMES"
| "rr_ok (RCommit k i) rs \<longleftrightarrow> k \<in> set COMMIT_OUTCOMES \<and> (\<forall>x. i = Some x \<longrightarrow> valid_id 128 x)"
| "rr_ok (RSpeech k) rs \<longleftrightarrow> k \<in> set SPEECH_OUTCOMES"
| "rr_ok (RFinalize now a) rs \<longleftrightarrow> retained_args_ok a \<and> rr_start (fst rs) \<le> now"

fun is_finalize :: "rr_op \<Rightarrow> bool" where
  "is_finalize (RFinalize now a) = True"
| "is_finalize _ = False"

definition background_record :: "retained_recorder \<Rightarrow> measurement_record \<Rightarrow> bool" where
  "background_record r m \<longleftrightarrow>
     mr_event m = ''work_item_background'' \<and> record_typed background_spec (mr_fields m) \<and>
     map_of (mr_fields m) ''work_item_id'' = Some (VStr (rr_work_item_id r)) \<and>
     map_of (mr_fields m) ''work_outcome'' = map_option VStr (rr_work_outcome r) \<and> rr_work_outcome r \<noteq> None"

definition rr_inv :: "retained_run \<Rightarrow> bool" where
  "rr_inv rs \<longleftrightarrow>
     (case rs of (r, s) \<Rightarrow>
        retained_ok r \<and> (if rr_state r = RFinalized then \<exists>m. s = [m] \<and> background_record r m else s = []) \<and>
        (rr_state r = RPending \<longrightarrow> rr_work_outcome r = None))"

lemma settled_drawn:
  "drawn_from vals given \<Longrightarrow> drawn_from vals old \<Longrightarrow> d \<in> set vals \<Longrightarrow> drawn_from vals (or_default (given_or given old) d)"
  by (auto simp: drawn_from_def or_default_def given_or_def split: option.splits if_splits)

lemma settle_ok:
  assumes "retained_ok r" and "retained_args_ok a"
  shows "retained_ok (settle_retained a r)"
proof -
  have d: "''cancelled'' \<in> set WORK_OUTCOMES" "''suppressed_shutdown'' \<in> set COMMIT_OUTCOMES" "''cancelled'' \<in> set SPEECH_OUTCOMES"
    by (simp_all add: WORK_OUTCOMES_def COMMIT_OUTCOMES_def SPEECH_OUTCOMES_def)
  have "valid_id 128 x" if "given_or (ra_result_id a) (rr_result_id r) = Some x" for x
    using that assms by (auto simp: retained_ok_def retained_args_ok_def given_or_def split: if_splits)
  then show ?thesis
    using assms d by (simp add: retained_ok_def retained_args_ok_def settle_retained_def settled_drawn)
qed

lemma finalize_retained_inv:
  assumes inv: "rr_inv (r, s)" and a: "retained_args_ok a" and now: "rr_start r \<le> now"
  shows "rr_inv (fst (finalize_retained now a (r, s)))"
proof (cases "rr_state r = RFinalized")
  case False
  let ?r = "settle_retained a r"
  have ok: "retained_ok r" and s: "s = []" using inv False by (auto simp: rr_inv_def)
  from typed_record_emitted [OF registry_lookup(3) fields_distinct(3) retained_record_typed [OF ok a now]]
  obtain m where m: "safe_emit ''work_item_background'' (retained_fields a now ?r) s = s @ [m]"
    "mr_event m = ''work_item_background''" "mr_fields m = retained_fields a now ?r" by blast
  have "rr_work_outcome ?r \<noteq> None" by (simp add: settle_retained_def or_default_def split: option.splits)
  then have "background_record ?r m"
    using m retained_record_typed [OF ok a now] by (auto simp: background_record_def retained_fields_def)
  then show ?thesis
    using False m(1) s settle_ok [OF ok a] by (simp add: finalize_retained_def Let_def rr_inv_def settle_retained_def)
qed (use inv in \<open>simp add: finalize_retained_def\<close>)

interpretation retained_run: guarded_machine rr_step rr_ok rr_inv
proof unfold_locales
  fix rs e
  assume inv: "rr_inv rs" and ok: "rr_ok e rs"
  obtain r s where rs: "rs = (r, s)" by force
  show "rr_inv (rr_step e rs)"
  proof (cases e)
    case (RFinalize now a)
    then show ?thesis using finalize_retained_inv inv ok rs by simp
  qed (use inv ok in \<open>auto simp: rs rr_inv_def claim_def record_commit_def record_speech_def retained_ok_def drawn_from_def Let_def
      split: if_splits\<close>)
qed

lemma finalized_stays: "rr_state (fst rs) = RFinalized \<Longrightarrow> rr_step e rs = rs"
  by (cases rs; cases e) (simp_all add: claim_def record_commit_def record_speech_def finalize_retained_def)

lemma finalize_reached: "list_ex is_finalize ops \<Longrightarrow> rr_state (fst (fold rr_step ops rs)) = RFinalized"
proof (induction ops arbitrary: rs)
  case (Cons e ops)
  have keep: "fold rr_step xs q = q" if "rr_state (fst q) = RFinalized" for xs q
    using that by (induction xs) (simp_all add: finalized_stays)
  show ?case
  proof (cases "is_finalize e")
    case True
    then have "rr_state (fst (rr_step e rs)) = RFinalized"
      by (cases rs; cases e) (auto simp: finalize_retained_def settle_retained_def Let_def)
    then show ?thesis by (simp add: keep)
  qed (use Cons in simp)
qed simp

lemma claimed_outcome_kept:
  assumes "rr_state r \<noteq> RPending" "rr_work_outcome r = Some k" "list_all (\<lambda>e. case e of RFinalize now a \<Rightarrow> ra_work_outcome a = None | _ \<Rightarrow> True) ops"
    and "k \<noteq> []"
  shows "rr_work_outcome (fst (fold rr_step ops (r, s))) = Some k"
  using assms
proof (induction ops arbitrary: r s)
  case (Cons e ops)
  obtain r' s' where q: "rr_step e (r, s) = (r', s')" by force
  then have "rr_state r' \<noteq> RPending \<and> rr_work_outcome r' = Some k"
    using Cons.prems by (cases e) (auto simp: claim_def record_commit_def record_speech_def finalize_retained_def settle_retained_def
        given_or_def or_default_def Let_def split: if_splits)
  then show ?case using Cons.IH Cons.prems q by simp
qed simp

text \<open>
  Retained work is recorded exactly once: in every order of claims, commits, speech outcomes and
  finalizations that contains a finalization, there is one background record for the work item, it is
  well typed, and every later operation leaves it alone. When the first operation is a claim and no
  finalization overrides the outcome, the record carries the claimed outcome: later claims lose.
\<close>
theorem retained_work_recorded_once:
  assumes "retained_ok (new_retained_recorder sid ep tid wid aid now)"
    and "retained_run.legal ops (new_retained_recorder sid ep tid wid aid now, [])"
    and "list_ex is_finalize ops"
  shows "\<exists>m. snd (fold rr_step ops (new_retained_recorder sid ep tid wid aid now, [])) = [m] \<and>
    mr_event m = ''work_item_background'' \<and> record_typed background_spec (mr_fields m) \<and>
    (\<forall>k rest. ops = RClaim k # rest \<and>
        list_all (\<lambda>e. case e of RFinalize now a \<Rightarrow> ra_work_outcome a = None | _ \<Rightarrow> True) rest \<longrightarrow>
      map_of (mr_fields m) ''work_outcome'' = Some (VStr k))"
proof -
  let ?r0 = "new_retained_recorder sid ep tid wid aid now"
  obtain r s where run: "fold rr_step ops (?r0, []) = (r, s)" by force
  have "rr_inv (?r0, [])" using assms(1) by (simp add: rr_inv_def new_retained_recorder_def)
  then have "rr_inv (r, s)" using retained_run.run_inv assms(2) run by metis
  moreover have "rr_state r = RFinalized" using finalize_reached [OF assms(3)] run by (metis fst_conv)
  ultimately obtain m where m: "s = [m]" "background_record r m" by (auto simp: rr_inv_def)
  have "map_of (mr_fields m) ''work_outcome'' = Some (VStr k)"
    if ops: "ops = RClaim k # rest" and rest: "list_all (\<lambda>e. case e of RFinalize now a \<Rightarrow> ra_work_outcome a = None | _ \<Rightarrow> True) rest"
    for k rest
  proof -
    have "k \<noteq> []" using assms(2) ops by (auto simp: WORK_OUTCOMES_def)
    then have "rr_work_outcome (fst (fold rr_step rest (rr_step (RClaim k) (?r0, [])))) = Some k"
      using claimed_outcome_kept rest by (simp add: claim_def new_retained_recorder_def)
    then show ?thesis using m(2) run ops by (simp add: background_record_def)
  qed
  then show ?thesis using m run by (auto simp: background_record_def)
qed

theorem retained_work_recorded_once_witness:
  "\<exists>m. snd (fold rr_step [RClaim ''failed'', RClaim ''completed'', RFinalize 2 no_retained_args, RFinalize 3 no_retained_args]
      (new_retained_recorder ''s'' 1 ''t'' ''w'' ''a'' 0, [])) = [m] \<and>
    map_of (mr_fields m) ''work_outcome'' = Some (VStr ''failed'')"
proof -
  let ?r0 = "new_retained_recorder ''s'' 1 ''t'' ''w'' ''a'' 0"
  have "retained_ok ?r0"
    by (simp add: retained_ok_def new_retained_recorder_def drawn_from_def valid_id_def unsafe_id_char_def)
  moreover have "retained_run.legal [RClaim ''failed'', RClaim ''completed'', RFinalize 2 no_retained_args, RFinalize 3 no_retained_args] (?r0, [])"
    by (simp add: claim_def new_retained_recorder_def finalize_retained_def settle_retained_def Let_def WORK_OUTCOMES_def
        retained_args_ok_def no_retained_args_def drawn_from_def)
  ultimately show ?thesis using retained_work_recorded_once [of "''s''" 1 "''t''" "''w''" "''a''" 0] by (fastforce simp: no_retained_args_def)
qed

section \<open>Shutdown of the recorder factory\<close>

lemma finalize_at_frame [simp]:
  "rf_retained_recorders (finalize_at now a i f) = rf_retained_recorders f"
  "rr_state (rf_recorders (finalize_at now a i f) i) = RFinalized"
  "j \<noteq> i \<Longrightarrow> rf_recorders (finalize_at now a i f) j = rf_recorders f j"
  by (auto simp: finalize_at_def finalize_retained_def settle_retained_def Let_def)

lemma finalize_at_keeps: "rr_state (rf_recorders f j) = RFinalized \<Longrightarrow> rr_state (rf_recorders (finalize_at now a i f) j) = RFinalized"
  by (cases "j = i") auto

lemma image_keys_delete: "fst ` set (AList.delete k d) = fst ` set d - {k}"
  using set_dkeys_dpop [of k d] by simp

lemma finalize_fold:
  defines "body \<equiv> \<lambda>now (work_item_id, i) f.
      let f = finalize_at now no_retained_args i f in f\<lparr>rf_retained_recorders := AList.delete work_item_id (rf_retained_recorders f)\<rparr>"
  shows "set (dkeys (rf_retained_recorders (fold (body now) d f))) = set (dkeys (rf_retained_recorders f)) - set (dkeys d) \<and>
    (\<forall>i. rr_state (rf_recorders f i) = RFinalized \<or> i \<in> set (dvals d) \<longrightarrow> rr_state (rf_recorders (fold (body now) d f) i) = RFinalized) \<and>
    (\<forall>i. i \<notin> set (dvals d) \<longrightarrow> rf_recorders (fold (body now) d f) i = rf_recorders f i)"
proof (induction d arbitrary: f)
  case (Cons p d)
  obtain k i where p: "p = (k, i)" by force
  show ?case
    using Cons.IH [of "body now p f"] by (auto simp: p body_def Let_def finalize_at_keeps image_keys_delete)
qed simp

text \<open>Shutdown drops every registration, finalizes each registered recorder and touches no other.\<close>

lemma finalize_all_closes:
  "rf_retained_recorders (finalize_all now f) = [] \<and>
   (\<forall>i \<in> set (dvals (rf_retained_recorders f)). rr_state (rf_recorders (finalize_all now f) i) = RFinalized) \<and>
   (\<forall>i. i \<notin> set (dvals (rf_retained_recorders f)) \<longrightarrow> rf_recorders (finalize_all now f) i = rf_recorders f i)"
proof -
  have "set (dkeys (rf_retained_recorders (finalize_all now f))) = {}"
    using finalize_fold [of now "rf_retained_recorders f" f] by (simp add: finalize_all_def)
  then show ?thesis using finalize_fold [of now "rf_retained_recorders f" f] by (simp add: finalize_all_def)
qed

end
