(* ===== verification/Py_Text.thy ===== *)
theory Py_Text
  imports Contracts
begin

text \<open>
  The part of Python's text handling that the configuration code uses, on strings whose characters have
  codes below 256: searching and splitting, \<open>int\<close> and \<open>float\<close> of a string, \<open>str.splitlines\<close>,
  \<open>isidentifier\<close>, \<open>isupper\<close>, the scheme and authority of a URL, and IP addresses. A float is a
  number or one of the special values; its rounding to 53 bits is left out, its range is not.
\<close>

section \<open>Searching and splitting\<close>

fun split_char :: "char \<Rightarrow> string \<Rightarrow> string list" where
  "split_char c [] = [[]]"
| "split_char c (x # xs) =
     (if x = c then [] # split_char c xs
      else case split_char c xs of [] \<Rightarrow> [[x]] | p # ps \<Rightarrow> (x # p) # ps)"

text \<open>\<open>s.split(sep, 1)\<close> when the separator occurs.\<close>

fun split_at :: "string \<Rightarrow> string \<Rightarrow> (string \<times> string) option" where
  "split_at sep [] = (if sep = [] then Some ([], []) else None)"
| "split_at sep (x # xs) =
     (if take (length sep) (x # xs) = sep then Some ([], drop (length sep) (x # xs))
      else map_option (\<lambda>(a, b). (x # a, b)) (split_at sep xs))"

definition strip_chars :: "char list \<Rightarrow> string \<Rightarrow> string" where
  "strip_chars cs s = rev (dropWhile (\<lambda>c. c \<in> set cs) (rev (dropWhile (\<lambda>c. c \<in> set cs) s)))"

definition starts_with :: "string \<Rightarrow> string \<Rightarrow> bool" where
  "starts_with p s \<longleftrightarrow> take (length p) s = p"

definition line_break :: "char \<Rightarrow> bool" where
  "line_break c \<longleftrightarrow> c \<in> {CHR 0x0A, CHR 0x0B, CHR 0x0C, CHR 0x0D, CHR 0x1C, CHR 0x1D, CHR 0x1E, CHR 0x85}"

fun splitlines_on :: "string \<Rightarrow> string \<Rightarrow> string list" where
  "splitlines_on line [] = (if line = [] then [] else [line])"
| "splitlines_on line [c] = (if line_break c then [line] else [line @ [c]])"
| "splitlines_on line (c # d # cs) =
     (if c = CHR 0x0D \<and> d = CHR 0x0A then line # splitlines_on [] cs
      else if line_break c then line # splitlines_on [] (d # cs)
      else splitlines_on (line @ [c]) (d # cs))"

definition splitlines :: "string \<Rightarrow> string list" where
  "splitlines s = splitlines_on [] s"

section \<open>Numbers\<close>

definition is_digit :: "char \<Rightarrow> bool" where
  "is_digit c \<longleftrightarrow> 48 \<le> (of_char c :: nat) \<and> (of_char c :: nat) \<le> 57"

definition all_digits :: "string \<Rightarrow> bool" where
  "all_digits s \<longleftrightarrow> s \<noteq> [] \<and> list_all is_digit s"

datatype conv_error = TypeErr | ValueErr | OverflowErr

definition split_sign :: "string \<Rightarrow> bool \<times> string" where
  "split_sign s =
     (case s of
        [] \<Rightarrow> (False, [])
      | c # cs \<Rightarrow> if c = CHR ''-'' then (True, cs) else if c = CHR ''+'' then (False, cs) else (False, s))"

text \<open>\<open>int\<close> of a string: digits in groups joined by single underscores, at most 4300 of them.\<close>

definition parse_int :: "string \<Rightarrow> conv_error + int" where
  "parse_int s =
     (let (negative, body) = split_sign (py_strip s); groups = split_char CHR ''_'' body; digits = concat groups in
      if list_all all_digits groups \<and> length digits \<le> 4300
      then Inr (if negative then - int (read_nat digits) else int (read_nat digits))
      else Inl ValueErr)"

datatype py_float = PFin real | PInf bool | PNaN

fun underscores_ok :: "bool \<Rightarrow> string \<Rightarrow> bool" where
  "underscores_ok previous [] \<longleftrightarrow> True"
| "underscores_ok previous (c # cs) \<longleftrightarrow>
     (c = CHR ''_'' \<longrightarrow> previous \<and> (case cs of [] \<Rightarrow> False | d # _ \<Rightarrow> is_digit d)) \<and> underscores_ok (is_digit c) cs"

definition split_exponent :: "string \<Rightarrow> string \<times> string option" where
  "split_exponent s =
     (let mantissa = takeWhile (\<lambda>c. c \<noteq> CHR ''e'' \<and> c \<noteq> CHR ''E'') s in
      (mantissa, if length mantissa = length s then None else Some (drop (length mantissa + 1) s)))"

definition parse_mantissa :: "string \<Rightarrow> (string \<times> string) option" where
  "parse_mantissa s =
     (case split_char CHR ''.'' s of
        [whole] \<Rightarrow> if all_digits whole then Some (whole, []) else None
      | [whole, part] \<Rightarrow>
          if list_all is_digit whole \<and> list_all is_digit part \<and> \<not> (whole = [] \<and> part = []) then Some (whole, part) else None
      | _ \<Rightarrow> None)"

definition parse_exponent :: "string option \<Rightarrow> int option" where
  "parse_exponent e =
     (case e of
        None \<Rightarrow> Some 0
      | Some s \<Rightarrow>
          let (negative, body) = split_sign s in
          if all_digits body then Some (if negative then - int (read_nat body) else int (read_nat body)) else None)"

definition scale10 :: "nat \<Rightarrow> int \<Rightarrow> real" where
  "scale10 n k = (if 0 \<le> k then real n * 10 ^ nat k else real n / 10 ^ nat (- k))"

text \<open>The range of a double: what rounds beyond it is infinite, what rounds below it is zero.\<close>

definition in_double_range :: "bool \<Rightarrow> real \<Rightarrow> py_float" where
  "in_double_range negative x =
     (if 2 ^ 1024 - 2 ^ 970 \<le> x then PInf negative
      else if x * 2 ^ 1075 \<le> 1 then PFin 0
      else PFin (if negative then - x else x))"

definition parse_decimal :: "bool \<Rightarrow> string \<Rightarrow> conv_error + py_float" where
  "parse_decimal negative body =
     (if \<not> underscores_ok False body then Inl ValueErr
      else
        let (mantissa, e) = split_exponent (filter (\<lambda>c. c \<noteq> CHR ''_'') body) in
        case (parse_mantissa mantissa, parse_exponent e) of
          (Some (whole, part), Some k) \<Rightarrow> Inr (in_double_range negative (scale10 (read_nat (whole @ part)) (k - int (length part))))
        | _ \<Rightarrow> Inl ValueErr)"

definition parse_float :: "string \<Rightarrow> conv_error + py_float" where
  "parse_float s =
     (let (negative, body) = split_sign (py_strip s); word = ascii_lower body in
      if word = ''inf'' \<or> word = ''infinity'' then Inr (PInf negative)
      else if word = ''nan'' then Inr PNaN
      else parse_decimal negative body)"

section \<open>Identifiers\<close>

definition latin_upper :: "char \<Rightarrow> bool" where
  "latin_upper c \<longleftrightarrow> (let n = (of_char c :: nat) in (65 \<le> n \<and> n \<le> 90) \<or> (192 \<le> n \<and> n \<le> 222 \<and> n \<noteq> 215))"

definition latin_lower :: "char \<Rightarrow> bool" where
  "latin_lower c \<longleftrightarrow>
     (let n = (of_char c :: nat) in (97 \<le> n \<and> n \<le> 122) \<or> n = 170 \<or> n = 181 \<or> n = 186 \<or> (223 \<le> n \<and> n \<le> 255 \<and> n \<noteq> 247))"

definition id_start :: "char \<Rightarrow> bool" where
  "id_start c \<longleftrightarrow> c = CHR ''_'' \<or> latin_upper c \<or> latin_lower c"

definition isidentifier :: "string \<Rightarrow> bool" where
  "isidentifier s \<longleftrightarrow>
     (case s of
        [] \<Rightarrow> False
      | c # cs \<Rightarrow> id_start c \<and> list_all (\<lambda>d. id_start d \<or> is_digit d \<or> d = CHR 0xB7) cs)"

definition isupper :: "string \<Rightarrow> bool" where
  "isupper s \<longleftrightarrow> list_ex latin_upper s \<and> \<not> list_ex latin_lower s"

definition ascii_letter :: "char \<Rightarrow> bool" where
  "ascii_letter c \<longleftrightarrow> (let n = (of_char c :: nat) in (65 \<le> n \<and> n \<le> 90) \<or> (97 \<le> n \<and> n \<le> 122))"

section \<open>URLs\<close>

definition scheme_char :: "char \<Rightarrow> bool" where
  "scheme_char c \<longleftrightarrow> ascii_letter c \<or> is_digit c \<or> c \<in> {CHR ''+'', CHR ''-'', CHR ''.''}"

definition split_scheme :: "string \<Rightarrow> string \<times> string" where
  "split_scheme url =
     (case split_at '':'' url of
        Some (s, rest) \<Rightarrow>
          if s \<noteq> [] \<and> ascii_letter (hd s) \<and> list_all scheme_char s then (ascii_lower s, rest) else ([], url)
      | None \<Rightarrow> ([], url))"

text \<open>
  \<open>urlparse\<close> as far as its scheme and authority: \<open>None\<close> is the \<open>ValueError\<close> of unbalanced or invalid
  brackets, the check of bracketed hosts being an argument because it differs between interpreters.
\<close>

definition url_scheme_netloc :: "(string \<Rightarrow> bool) \<Rightarrow> string \<Rightarrow> (string \<times> string) option" where
  "url_scheme_netloc bracketed_ok raw =
     (let url = filter (\<lambda>c. c \<notin> {CHR 0x09, CHR 0x0A, CHR 0x0D}) (dropWhile (\<lambda>c. (of_char c :: nat) \<le> 32) raw);
          (scheme, rest) = split_scheme url in
      if starts_with ''//'' rest then
        let netloc = takeWhile (\<lambda>c. c \<notin> {CHR ''/'', CHR ''?'', CHR ''#''}) (drop 2 rest);
            opening = (CHR 0x5B \<in> set netloc); closing = (CHR 0x5D \<in> set netloc) in
        if opening \<noteq> closing \<or> (opening \<and> \<not> bracketed_ok netloc) then None else Some (scheme, netloc)
      else Some (scheme, []))"

text \<open>Host and port of an authority, and \<open>hostname\<close>.\<close>

definition host_info :: "string \<Rightarrow> string \<times> string option" where
  "host_info netloc =
     (let hostinfo = rev (takeWhile (\<lambda>c. c \<noteq> CHR ''@'') (rev netloc));
          (host, port) =
            (case split_at [CHR 0x5B] hostinfo of
               Some (_, bracketed) \<Rightarrow>
                 (case split_at [CHR 0x5D] bracketed of
                    None \<Rightarrow> (bracketed, [])
                  | Some (h, rest) \<Rightarrow> (h, case split_at '':'' rest of None \<Rightarrow> [] | Some (_, p) \<Rightarrow> p))
             | None \<Rightarrow> (case split_at '':'' hostinfo of None \<Rightarrow> (hostinfo, []) | Some (h, p) \<Rightarrow> (h, p)))
      in (host, if port = [] then None else Some port))"

definition url_hostname :: "string \<Rightarrow> string option" where
  "url_hostname netloc =
     (let host = fst (host_info netloc) in
      if host = [] then None
      else case split_at ''%'' host of
             None \<Rightarrow> Some (ascii_lower host)
           | Some (h, zone) \<Rightarrow> Some (ascii_lower h @ ''%'' @ zone))"

section \<open>IP addresses\<close>

definition parse_octet :: "string \<Rightarrow> nat option" where
  "parse_octet s =
     (if all_digits s \<and> length s \<le> 3 \<and> \<not> (1 < length s \<and> hd s = CHR ''0'') \<and> read_nat s \<le> 255 then Some (read_nat s) else None)"

definition parse_ipv4 :: "string \<Rightarrow> (nat \<times> nat \<times> nat \<times> nat) option" where
  "parse_ipv4 s =
     (case map parse_octet (split_char CHR ''.'' s) of
        [Some a, Some b, Some c, Some d] \<Rightarrow> Some (a, b, c, d)
      | _ \<Rightarrow> None)"

definition hex_value :: "char \<Rightarrow> nat option" where
  "hex_value c =
     (let n = (of_char c :: nat) in
      if 48 \<le> n \<and> n \<le> 57 then Some (n - 48)
      else if 97 \<le> n \<and> n \<le> 102 then Some (n - 87)
      else if 65 \<le> n \<and> n \<le> 70 then Some (n - 55)
      else None)"

definition parse_hextet :: "string \<Rightarrow> nat option" where
  "parse_hextet s =
     (if s = [] \<or> 4 < length s \<or> list_ex (\<lambda>c. hex_value c = None) s then None
      else Some (foldl (\<lambda>acc c. acc * 16 + the (hex_value c)) 0 s))"

fun hextets :: "string list \<Rightarrow> nat list option" where
  "hextets [] = Some []"
| "hextets (p # ps) =
     (case (parse_hextet p, hextets ps) of (Some n, Some ns) \<Rightarrow> Some (n # ns) | _ \<Rightarrow> None)"

fun show_hex :: "nat \<Rightarrow> string" where
  "show_hex n =
     (let digit = char_of (if n mod 16 < 10 then 48 + n mod 16 else 87 + n mod 16) in
      if n < 16 then [digit] else show_hex (n div 16) @ [digit])"

declare show_hex.simps [simp del]

text \<open>The groups of an address, an embedded IPv4 address giving the last two.\<close>

definition ipv6_parts :: "string \<Rightarrow> string list option" where
  "ipv6_parts s =
     (let parts = split_char CHR '':'' s in
      if length parts < 3 then None
      else if CHR ''.'' \<in> set (last parts) then
        map_option (\<lambda>(a, b, c, d). butlast parts @ [show_hex (a * 256 + b), show_hex (c * 256 + d)]) (parse_ipv4 (last parts))
      else Some parts)"

text \<open>The one \<open>::\<close> stands for at least one group; it may cover the first or the last group.\<close>

definition expand_groups :: "string list \<Rightarrow> nat list option" where
  "expand_groups parts =
     (if 9 < length parts then None
      else
        case filter (\<lambda>i. parts ! i = []) [1..<length parts - 1] of
          [] \<Rightarrow> if length parts \<noteq> 8 \<or> hd parts = [] \<or> last parts = [] then None else hextets parts
        | [i] \<Rightarrow>
            let hi = (if hd parts = [] then i - 1 else i);
                lo = (if last parts = [] then length parts - i - 2 else length parts - i - 1) in
            if (hd parts = [] \<and> hi \<noteq> 0) \<or> (last parts = [] \<and> lo \<noteq> 0) \<or> 8 \<le> hi + lo then None
            else
              (case (hextets (take hi parts), hextets (drop (length parts - lo) parts)) of
                 (Some h, Some l) \<Rightarrow> Some (h @ replicate (8 - (hi + lo)) 0 @ l)
               | _ \<Rightarrow> None)
        | _ \<Rightarrow> None)"

definition split_scope :: "string \<Rightarrow> string option" where
  "split_scope s =
     (case split_at ''%'' s of
        None \<Rightarrow> Some s
      | Some (a, scope) \<Rightarrow> if scope = [] \<or> CHR ''%'' \<in> set scope then None else Some a)"

definition parse_ipv6 :: "string \<Rightarrow> nat list option" where
  "parse_ipv6 s =
     (if CHR ''/'' \<in> set s then None
      else
        case split_scope s of
          None \<Rightarrow> None
        | Some a \<Rightarrow> (case ipv6_parts a of None \<Rightarrow> None | Some parts \<Rightarrow> expand_groups parts))"

text \<open>\<open>ip_address(s).is_loopback\<close>; whether an IPv4-mapped address counts depends on the interpreter.\<close>

definition ip_is_loopback :: "bool \<Rightarrow> string \<Rightarrow> bool" where
  "ip_is_loopback mapped s =
     (case parse_ipv4 s of
        Some (a, b, c, d) \<Rightarrow> a = 127
      | None \<Rightarrow>
          (case parse_ipv6 s of
             None \<Rightarrow> False
           | Some groups \<Rightarrow>
               groups = [0, 0, 0, 0, 0, 0, 0, 1] \<or>
               (mapped \<and> take 6 groups = [0, 0, 0, 0, 0, 65535] \<and> groups ! 6 div 256 = 127)))"

end
