(* ===== verification/Configuration.thy ===== *)
theory Configuration
  imports Py_Text
begin

text \<open>
  The operator configuration of \<open>server/config.py\<close>: the validated \<open>Config\<close>, the three precedence layers
  (TOML, environment file, process environment) with the provenance of model and effort settings, the
  endpoint and credential families, and \<open>load_config\<close>.

  A setting is a \<open>cfg_value\<close>: a string, or a typed TOML value, whose printed form is part of the value
  where Python's \<open>str\<close> of it is not modelled. Reading and parsing files is outside: \<open>load_config\<close> takes
  the parsed TOML document, the text or mapping of the environment file and the environment. What depends
  on the platform is in the record \<open>platform\<close>: \<open>os.path.expanduser\<close>, the efforts the installed SDK names,
  the packaged release version, the parser of ISO timestamps, and two behaviours that differ between
  interpreter versions.
\<close>

section \<open>Values\<close>

datatype cfg_value = CStr string | CInt int | CFloat py_float string | CBool bool | COther bool string

datatype cfg_error = ConfigError string | Uncaught conv_error

definition show_int :: "int \<Rightarrow> string" where
  "show_int n = (if n < 0 then ''-'' @ show_nat (nat (- n)) else show_nat (nat n))"

fun py_str :: "cfg_value \<Rightarrow> string" where
  "py_str (CStr s) = s"
| "py_str (CInt n) = show_int n"
| "py_str (CFloat x r) = r"
| "py_str (CBool b) = (if b then ''True'' else ''False'')"
| "py_str (COther t r) = r"

fun py_bool :: "cfg_value \<Rightarrow> bool" where
  "py_bool (CStr s) \<longleftrightarrow> s \<noteq> []"
| "py_bool (CInt n) \<longleftrightarrow> n \<noteq> 0"
| "py_bool (CFloat x r) \<longleftrightarrow> x \<noteq> PFin 0"
| "py_bool (CBool b) \<longleftrightarrow> b"
| "py_bool (COther t r) \<longleftrightarrow> t"

fun py_int :: "cfg_value \<Rightarrow> conv_error + int" where
  "py_int (CStr s) = parse_int s"
| "py_int (CInt n) = Inr n"
| "py_int (CFloat (PFin x) r) = Inr (if x < 0 then \<lceil>x\<rceil> else \<lfloor>x\<rfloor>)"
| "py_int (CFloat (PInf neg) r) = Inl OverflowErr"
| "py_int (CFloat PNaN r) = Inl ValueErr"
| "py_int (CBool b) = Inr (if b then 1 else 0)"
| "py_int (COther t r) = Inl TypeErr"

fun py_to_float :: "cfg_value \<Rightarrow> conv_error + py_float" where
  "py_to_float (CStr s) = parse_float s"
| "py_to_float (CInt n) = (if 2 ^ 1024 - 2 ^ 970 \<le> \<bar>n\<bar> then Inl OverflowErr else Inr (PFin (of_int n)))"
| "py_to_float (CFloat x r) = Inr x"
| "py_to_float (CBool b) = Inr (PFin (if b then 1 else 0))"
| "py_to_float (COther t r) = Inl TypeErr"

record platform =
  pl_expanduser :: "string \<Rightarrow> string"
  pl_bracketed_ok :: "string \<Rightarrow> bool"
  pl_mapped_loopback :: bool
  pl_fromisoformat :: "string \<Rightarrow> conv_error option"
  pl_reasoning_efforts :: "string list"
  pl_release_version :: string

section \<open>Config\<close>

type_synonym endpoint = "string \<times> string"
type_synonym policy = "(string, string) dict"

record config =
  cf_openai_api_key :: "string option"
  cf_openai_api_key_env :: string
  cf_deepgram_api_key :: "string option"
  cf_cartesia_api_key :: "string option"
  cf_cartesia_voice_id :: "string option"
  cf_router_model_policy :: policy
  cf_worker_model_policy :: policy
  cf_max_work_items_per_turn :: int
  cf_multi_intent_wait_timeout_ms :: int
  cf_foreground_search_timeout_seconds :: py_float
  cf_router_timeout_seconds :: py_float
  cf_provider_timeout_seconds :: py_float
  cf_shutdown_grace_seconds :: py_float
  cf_max_citations :: int
  cf_pending_dialogue_timeout_seconds :: py_float
  cf_stt_service :: string
  cf_stt_provider :: string
  cf_stt_model :: string
  cf_stt_language :: string
  cf_stt_endpoint :: "endpoint option"
  cf_smart_turn_timeout_seconds :: py_float
  cf_smart_turn_complete_grace_seconds :: py_float
  cf_speech_start_timeout_seconds :: py_float
  cf_speech_transport_grace_seconds :: py_float
  cf_tts_endpoint :: "endpoint option"
  cf_tts_provider :: string
  cf_tts_model :: string
  cf_tts_voice_id :: string
  cf_bind_host :: string
  cf_bind_port :: int
  cf_known_client_url :: string
  cf_enable_early_ack :: bool
  cf_enable_background_status :: bool
  cf_enable_autoplay_policy :: bool
  cf_early_ack_text :: string
  cf_release_version :: string
  cf_source_commit :: "string option"
  cf_source_tree_hash :: "string option"
  cf_deployed_at_utc :: "string option"
  cf_router_reasoning_effort_policy :: policy
  cf_worker_reasoning_effort_policy :: policy

definition default_config :: "platform \<Rightarrow> config" where
  "default_config pl =
     \<lparr>cf_openai_api_key = None, cf_openai_api_key_env = ''OPENAI_API_KEY'', cf_deepgram_api_key = None,
      cf_cartesia_api_key = None, cf_cartesia_voice_id = None, cf_router_model_policy = [(''fast'', ''gpt-5-mini'')],
      cf_worker_model_policy = [(''deep'', ''gpt-5'')], cf_max_work_items_per_turn = 2,
      cf_multi_intent_wait_timeout_ms = 10000, cf_foreground_search_timeout_seconds = PFin 15,
      cf_router_timeout_seconds = PFin 12, cf_provider_timeout_seconds = PFin 75, cf_shutdown_grace_seconds = PFin 2,
      cf_max_citations = 12, cf_pending_dialogue_timeout_seconds = PFin 30, cf_stt_service = ''websocket'',
      cf_stt_provider = ''local'', cf_stt_model = ''nova-3-general'', cf_stt_language = ''en'', cf_stt_endpoint = None,
      cf_smart_turn_timeout_seconds = PFin 5, cf_smart_turn_complete_grace_seconds = PFin (3 / 2),
      cf_speech_start_timeout_seconds = PFin 10, cf_speech_transport_grace_seconds = PFin 1, cf_tts_endpoint = None,
      cf_tts_provider = ''local'', cf_tts_model = ''sonic-3.5'', cf_tts_voice_id = ''azelma'',
      cf_bind_host = ''127.0.0.1'', cf_bind_port = 7860, cf_known_client_url = ''http://127.0.0.1:7860'',
      cf_enable_early_ack = True, cf_enable_background_status = True, cf_enable_autoplay_policy = True,
      cf_early_ack_text = ''One moment while I look into that.'', cf_release_version = pl_release_version pl,
      cf_source_commit = None, cf_source_tree_hash = None, cf_deployed_at_utc = None,
      cf_router_reasoning_effort_policy = [], cf_worker_reasoning_effort_policy = []\<rparr>"

definition is_loopback_host :: "platform \<Rightarrow> string \<Rightarrow> bool" where
  "is_loopback_host pl value =
     (let host = strip_chars [CHR 0x5B, CHR 0x5D] (py_strip value) in
      ascii_lower host = ''localhost'' \<or> ip_is_loopback (pl_mapped_loopback pl) host)"

definition require :: "bool \<Rightarrow> string \<Rightarrow> cfg_error + unit" where
  "require b what = (if b then Inr () else Inl (ConfigError what))"

fun all_checks :: "(cfg_error + unit) list \<Rightarrow> cfg_error + unit" where
  "all_checks [] = Inr ()"
| "all_checks (c # cs) = (case c of Inl e \<Rightarrow> Inl e | Inr _ \<Rightarrow> all_checks cs)"

definition finite_positive :: "py_float \<Rightarrow> bool" where
  "finite_positive x \<longleftrightarrow> (case x of PFin r \<Rightarrow> 0 < r | _ \<Rightarrow> False)"

definition positive_upto :: "real \<Rightarrow> py_float \<Rightarrow> bool" where
  "positive_upto n x \<longleftrightarrow> (case x of PFin r \<Rightarrow> 0 < r \<and> r \<le> n | _ \<Rightarrow> False)"

text \<open>\<open>x < y\<close> of floats; a comparison with a non-number is false.\<close>

definition float_less :: "py_float \<Rightarrow> py_float \<Rightarrow> bool" where
  "float_less x y \<longleftrightarrow>
     (case (x, y) of
        (PFin a, PFin b) \<Rightarrow> a < b
      | (PFin a, PInf neg) \<Rightarrow> \<not> neg
      | (PInf neg, PFin b) \<Rightarrow> neg
      | (PInf neg, PInf neg') \<Rightarrow> neg \<and> \<not> neg'
      | _ \<Rightarrow> False)"

definition language_code :: "string \<Rightarrow> bool" where
  "language_code s =
     (let head = takeWhile ascii_letter s; rest = drop (length head) s in
      2 \<le> length head \<and> length head \<le> 3 \<and>
      (case rest of
         [] \<Rightarrow> True
       | c # region \<Rightarrow> (c = CHR ''-'' \<or> c = CHR ''_'') \<and> list_all ascii_letter region \<and> 2 \<le> length region \<and> length region \<le> 4))"

definition parse_utc_timestamp :: "platform \<Rightarrow> string \<Rightarrow> conv_error option" where
  "parse_utc_timestamp pl value =
     (let t = py_strip value;
          t = (if t \<noteq> [] \<and> (last t = CHR ''Z'' \<or> last t = CHR ''z'') then butlast t @ ''+00:00'' else t)
      in pl_fromisoformat pl t)"

definition check_client_url :: "platform \<Rightarrow> string \<Rightarrow> cfg_error + unit" where
  "check_client_url pl url =
     (case url_scheme_netloc (pl_bracketed_ok pl) url of
        None \<Rightarrow> Inl (Uncaught ValueErr)
      | Some (scheme, netloc) \<Rightarrow> require ((scheme = ''http'' \<or> scheme = ''https'') \<and> netloc \<noteq> []) ''known_client_url'')"

definition check_deployed_at :: "platform \<Rightarrow> string option \<Rightarrow> cfg_error + unit" where
  "check_deployed_at pl value =
     (case value of
        None \<Rightarrow> Inr ()
      | Some v \<Rightarrow>
          (case parse_utc_timestamp pl v of
             None \<Rightarrow> Inr ()
           | Some ValueErr \<Rightarrow> Inl (ConfigError ''deployed_at_utc'')
           | Some e \<Rightarrow> Inl (Uncaught e)))"

text \<open>\<open>_models\<close>: at least one entry, no empty label and no empty model.\<close>

definition check_models :: "policy \<Rightarrow> cfg_error + unit" where
  "check_models p = require (p \<noteq> [] \<and> list_all (\<lambda>(label, model). label \<noteq> [] \<and> model \<noteq> []) p) ''model policy''"

definition check_efforts :: "platform \<Rightarrow> policy \<Rightarrow> cfg_error + unit" where
  "check_efforts pl p =
     all_checks (concat (map (\<lambda>(label, effort).
       [require (label \<noteq> []) ''reasoning-effort label'', require (effort \<in> set (pl_reasoning_efforts pl)) ''reasoning effort'']) p))"

definition post_init_checks :: "platform \<Rightarrow> config \<Rightarrow> (cfg_error + unit) list" where
  "post_init_checks pl c =
     [require (cf_max_work_items_per_turn c \<in> {2, 3, 4}) ''max_work_items_per_turn'',
      require (0 < cf_multi_intent_wait_timeout_ms c) ''multi_intent_wait_timeout_ms'',
      require (finite_positive (cf_foreground_search_timeout_seconds c)) ''foreground_search_timeout_seconds'',
      require (finite_positive (cf_router_timeout_seconds c)) ''router_timeout_seconds'',
      require (finite_positive (cf_provider_timeout_seconds c)) ''provider_timeout_seconds'',
      require (finite_positive (cf_shutdown_grace_seconds c)) ''shutdown_grace_seconds'',
      require (finite_positive (cf_speech_start_timeout_seconds c)) ''speech_start_timeout_seconds'',
      require (finite_positive (cf_speech_transport_grace_seconds c)) ''speech_transport_grace_seconds'',
      require (float_less (cf_foreground_search_timeout_seconds c) (cf_provider_timeout_seconds c)) ''provider_timeout_seconds'',
      require (\<not> float_less (cf_provider_timeout_seconds c) (cf_router_timeout_seconds c)) ''router_timeout_seconds'',
      require (1 \<le> cf_max_citations c \<and> cf_max_citations c \<le> 50) ''max_citations'',
      require (finite_positive (cf_pending_dialogue_timeout_seconds c)) ''pending_dialogue_timeout_seconds'',
      require (py_strip (cf_bind_host c) \<noteq> []) ''bind_host'',
      require (is_loopback_host pl (cf_bind_host c)) ''bind_host'',
      require (1 \<le> cf_bind_port c \<and> cf_bind_port c \<le> 65535) ''bind_port'',
      check_client_url pl (cf_known_client_url c),
      require (isidentifier (cf_openai_api_key_env c) \<and> isupper (cf_openai_api_key_env c)) ''openai_api_key_env'',
      require (cf_stt_service c = ''websocket'') ''stt_service'',
      require (cf_stt_provider c \<in> {''local'', ''deepgram''}) ''stt_provider'',
      require (py_strip (cf_stt_model c) \<noteq> []) ''stt_model'',
      require (cf_stt_language c = ''auto'' \<or> language_code (cf_stt_language c)) ''stt_language'',
      require (positive_upto 60 (cf_smart_turn_timeout_seconds c)) ''smart_turn_timeout_seconds'',
      require (positive_upto 10 (cf_smart_turn_complete_grace_seconds c)) ''smart_turn_complete_grace_seconds'',
      require (cf_tts_provider c \<in> {''local'', ''cartesia''}) ''tts_provider'',
      require (py_strip (cf_tts_model c) \<noteq> []) ''tts_model'',
      require (py_strip (cf_tts_voice_id c) \<noteq> []) ''tts_voice_id'',
      require (py_strip (cf_early_ack_text c) \<noteq> []) ''early_ack_text'',
      require (py_strip (cf_release_version c) \<noteq> []) ''release_version'',
      check_deployed_at pl (cf_deployed_at_utc c),
      check_models (cf_router_model_policy c),
      check_models (cf_worker_model_policy c),
      check_efforts pl (cf_router_reasoning_effort_policy c),
      check_efforts pl (cf_worker_reasoning_effort_policy c),
      require (set (dkeys (cf_router_reasoning_effort_policy c)) \<subseteq> set (dkeys (cf_router_model_policy c))) ''router_reasoning_effort_policy'',
      require (set (dkeys (cf_worker_reasoning_effort_policy c)) \<subseteq> set (dkeys (cf_worker_model_policy c))) ''worker_reasoning_effort_policy'']"

definition post_init_config :: "platform \<Rightarrow> config \<Rightarrow> cfg_error + config" where
  "post_init_config pl c = (case all_checks (post_init_checks pl c) of Inl e \<Rightarrow> Inl e | Inr _ \<Rightarrow> Inr c)"

definition resolve_model :: "policy \<Rightarrow> string \<Rightarrow> cfg_error + string" where
  "resolve_model p label = (case map_of p label of None \<Rightarrow> Inl (ConfigError label) | Some m \<Rightarrow> Inr m)"

definition resolve_router_model :: "config \<Rightarrow> string \<Rightarrow> cfg_error + string" where
  "resolve_router_model c label = resolve_model (cf_router_model_policy c) label"

definition resolve_worker_model :: "config \<Rightarrow> string \<Rightarrow> cfg_error + string" where
  "resolve_worker_model c label = resolve_model (cf_worker_model_policy c) label"

definition resolve_router_reasoning_effort :: "config \<Rightarrow> string \<Rightarrow> cfg_error + string option" where
  "resolve_router_reasoning_effort c label =
     (if map_of (cf_router_model_policy c) label = None then Inl (ConfigError label)
      else Inr (map_of (cf_router_reasoning_effort_policy c) label))"

definition resolve_worker_reasoning_effort :: "config \<Rightarrow> string \<Rightarrow> cfg_error + string option" where
  "resolve_worker_reasoning_effort c label =
     (if map_of (cf_worker_model_policy c) label = None then Inl (ConfigError label)
      else Inr (map_of (cf_worker_reasoning_effort_policy c) label))"

definition with_discovered_endpoint :: "platform \<Rightarrow> string \<Rightarrow> string \<Rightarrow> string \<Rightarrow> config \<Rightarrow> cfg_error + config" where
  "with_discovered_endpoint pl service transport address c =
     (if service = ''stt'' then post_init_config pl (c\<lparr>cf_stt_endpoint := Some (transport, address)\<rparr>)
      else if service = ''tts'' then post_init_config pl (c\<lparr>cf_tts_endpoint := Some (transport, address)\<rparr>)
      else Inl (ConfigError service))"

definition default_reasoning_effort_for_model :: "string \<Rightarrow> string option" where
  "default_reasoning_effort_for_model model = (if starts_with ''gpt-5'' model then Some ''minimal'' else None)"

record feature_policy =
  fp_enable_early_ack :: bool
  fp_enable_background_status :: bool
  fp_enable_autoplay_policy :: bool

definition feature_policy_from_config :: "config \<Rightarrow> feature_policy" where
  "feature_policy_from_config c =
     \<lparr>fp_enable_early_ack = cf_enable_early_ack c, fp_enable_background_status = cf_enable_background_status c,
      fp_enable_autoplay_policy = cf_enable_autoplay_policy c\<rparr>"

section \<open>A bounded read\<close>

text \<open>
  \<open>read_regular_file_no_follow\<close> from the open descriptor on: what \<open>open\<close> and \<open>fstat\<close> answered, and the
  results of the successive \<open>read\<close> calls (\<open>None\<close> for an \<open>OSError\<close>, an empty chunk for the end of file).
\<close>

fun read_loop :: "nat \<Rightarrow> nat \<Rightarrow> string list \<Rightarrow> string option list \<Rightarrow> string option" where
  "read_loop max_bytes seen chunks [] = Some (concat chunks)"
| "read_loop max_bytes seen chunks (r # rs) =
     (case r of
        None \<Rightarrow> None
      | Some chunk \<Rightarrow>
          if chunk = [] then Some (concat chunks)
          else if max_bytes < seen + length chunk then None
          else read_loop max_bytes (seen + length chunk) (chunks @ [chunk]) rs)"

definition read_regular_file_no_follow :: "nat \<Rightarrow> bool \<Rightarrow> bool \<Rightarrow> string option list \<Rightarrow> string option" where
  "read_regular_file_no_follow max_bytes opened regular reads =
     (if \<not> opened \<or> \<not> regular then None else read_loop max_bytes 0 [] reads)"

section \<open>Layers\<close>

type_synonym settings = "(string, cfg_value) dict"
type_synonym layers = "(string, int) dict"

definition ROLE_MODEL_EFFORT_KEYS :: "(string \<times> string) list" where
  "ROLE_MODEL_EFFORT_KEYS =
     [(''WEBSEARCH_ROUTER_MODEL'', ''WEBSEARCH_ROUTER_REASONING_EFFORT''),
      (''WEBSEARCH_WORKER_MODEL'', ''WEBSEARCH_WORKER_REASONING_EFFORT'')]"

definition PROVENANCE_KEYS :: "string list" where
  "PROVENANCE_KEYS = concat (map (\<lambda>(m, e). [m, e]) ROLE_MODEL_EFFORT_KEYS)"

definition EMPTY_MEANS_ABSENT_KEYS :: "string list" where
  "EMPTY_MEANS_ABSENT_KEYS = concat (map (\<lambda>(m, e). [m, e]) ROLE_MODEL_EFFORT_KEYS)"

definition ROLE_MODEL_KEYS :: "string list" where
  "ROLE_MODEL_KEYS = map fst ROLE_MODEL_EFFORT_KEYS"

definition effectively_set :: "cfg_value \<Rightarrow> bool" where
  "effectively_set v \<longleftrightarrow> py_bool v \<and> py_strip (py_str v) \<noteq> []"

text \<open>
  The comparison with the incumbent: from the second layer on the new value is a string, and a string
  equals only the same string, so equality of settings is equality of values.
\<close>

definition record_layer :: "settings \<Rightarrow> int \<Rightarrow> settings \<Rightarrow> layers \<Rightarrow> layers" where
  "record_layer vs layer incumbent ls =
     fold (\<lambda>key ls.
       (case map_of vs key of
          None \<Rightarrow> ls
        | Some v \<Rightarrow>
            if \<not> effectively_set v then ls
            else if key \<in> set ROLE_MODEL_KEYS \<and> map_of incumbent key = Some v then ls
            else AList.update key layer ls)) PROVENANCE_KEYS ls"

definition merge_layer :: "settings \<Rightarrow> settings \<Rightarrow> settings" where
  "merge_layer layer_values vs =
     fold (\<lambda>(key, v) vs.
       if key \<in> set EMPTY_MEANS_ABSENT_KEYS \<and> \<not> effectively_set v then vs else AList.update key v vs) layer_values vs"

definition apply_layer :: "settings \<Rightarrow> int \<Rightarrow> settings \<times> layers \<Rightarrow> settings \<times> layers" where
  "apply_layer layer_values layer vl =
     (case vl of (vs, ls) \<Rightarrow> (merge_layer layer_values vs, record_layer layer_values layer vs ls))"

definition layer_of :: "layers \<Rightarrow> string \<Rightarrow> int" where
  "layer_of ls key = (case map_of ls key of None \<Rightarrow> - 1 | Some n \<Rightarrow> n)"

definition clear_inherited_reasoning_effort :: "settings \<times> layers \<Rightarrow> settings" where
  "clear_inherited_reasoning_effort vl =
     (case vl of (vs, ls) \<Rightarrow>
        fold (\<lambda>(model_key, effort_key) vs.
          if map_of vs effort_key = None then vs
          else if layer_of ls effort_key < layer_of ls model_key then AList.delete effort_key vs
          else vs) ROLE_MODEL_EFFORT_KEYS vs)"

section \<open>Families\<close>

type_synonym members = "(string \<times> string list) list"

definition STT_ENDPOINT_MEMBERS :: members where
  "STT_ENDPOINT_MEMBERS = [(''endpoint'', [''WEBSEARCH_STT_ENDPOINT'']), (''socket'', [''WEBSEARCH_STT_WS_SOCKET''])]"

definition TTS_ENDPOINT_MEMBERS :: members where
  "TTS_ENDPOINT_MEMBERS =
     [(''endpoint'', [''WEBSEARCH_TTS_ENDPOINT'']), (''uri'', [''WEBSEARCH_TTS_WS_URI'']), (''socket'', [''WEBSEARCH_TTS_WS_SOCKET'']),
      (''host_port'', [''WEBSEARCH_TTS_WS_HOST'', ''WEBSEARCH_TTS_WS_PORT''])]"

definition expand_socket :: "platform \<Rightarrow> string \<Rightarrow> cfg_error + string" where
  "expand_socket pl value =
     (let address = py_strip (pl_expanduser pl value) in
      if address = [] then Inl (ConfigError ''socket path'') else Inr address)"

definition uds_endpoint :: "platform \<Rightarrow> string \<Rightarrow> cfg_error + endpoint" where
  "uds_endpoint pl value = (case expand_socket pl value of Inl e \<Rightarrow> Inl e | Inr a \<Rightarrow> Inr (''uds'', a))"

definition parse_endpoint :: "platform \<Rightarrow> string \<Rightarrow> cfg_error + endpoint" where
  "parse_endpoint pl value =
     (case split_at ''://'' value of
        None \<Rightarrow> Inl (ConfigError ''endpoint form'')
      | Some (transport, address) \<Rightarrow>
          if transport \<notin> {''uds'', ''tcp'', ''ws'', ''wss''} \<or> address = [] then Inl (ConfigError ''endpoint'')
          else if transport = ''uds'' then uds_endpoint pl address
          else Inr (transport, address))"

text \<open>The printed form of a setting that is present; \<open>str(None)\<close> otherwise.\<close>

definition setting_str :: "settings \<Rightarrow> string \<Rightarrow> string" where
  "setting_str vs key = (case map_of vs key of None \<Rightarrow> ''None'' | Some v \<Rightarrow> py_str v)"

definition build_stt_endpoint :: "platform \<Rightarrow> string option \<Rightarrow> settings \<Rightarrow> cfg_error + endpoint option" where
  "build_stt_endpoint pl member vs =
     (if member = Some ''endpoint'' then map_sum id Some (parse_endpoint pl (setting_str vs ''WEBSEARCH_STT_ENDPOINT''))
      else if member = Some ''socket'' then map_sum id Some (uds_endpoint pl (setting_str vs ''WEBSEARCH_STT_WS_SOCKET''))
      else Inr None)"

definition build_host_port :: "settings \<Rightarrow> cfg_error + endpoint" where
  "build_host_port vs =
     (case parse_int (setting_str vs ''WEBSEARCH_TTS_WS_PORT'') of
        Inl e \<Rightarrow> Inl (ConfigError ''WEBSEARCH_TTS_WS_PORT'')
      | Inr port \<Rightarrow>
          if port < 1 \<or> 65535 < port then Inl (ConfigError ''WEBSEARCH_TTS_WS_PORT'')
          else Inr (''ws'', setting_str vs ''WEBSEARCH_TTS_WS_HOST'' @ '':'' @ show_int port))"

definition build_tts_endpoint :: "platform \<Rightarrow> string option \<Rightarrow> settings \<Rightarrow> cfg_error + endpoint option" where
  "build_tts_endpoint pl member vs =
     (if member = Some ''endpoint'' then map_sum id Some (parse_endpoint pl (setting_str vs ''WEBSEARCH_TTS_ENDPOINT''))
      else if member = Some ''uri'' then map_sum id Some (parse_endpoint pl (setting_str vs ''WEBSEARCH_TTS_WS_URI''))
      else if member = Some ''socket'' then map_sum id Some (uds_endpoint pl (setting_str vs ''WEBSEARCH_TTS_WS_SOCKET''))
      else if member = Some ''host_port'' then map_sum id Some (build_host_port vs)
      else Inr None)"

definition ALIAS_FAMILY_SPELLINGS :: "(string \<times> string \<times> string option) list" where
  "ALIAS_FAMILY_SPELLINGS =
     [(''openai_api_key'', ''WEBSEARCH_OPENAI_API_KEY'', None),
      (''deepgram_api_key'', ''WEBSEARCH_DEEPGRAM_API_KEY'', Some ''DEEPGRAM_API_KEY''),
      (''cartesia_api_key'', ''WEBSEARCH_CARTESIA_API_KEY'', Some ''CARTESIA_API_KEY''),
      (''cartesia_voice_id'', ''WEBSEARCH_CARTESIA_VOICE_ID'', Some ''CARTESIA_VOICE_ID'')]"

definition alias_families :: "string \<Rightarrow> (string \<times> (string \<times> string) list) list" where
  "alias_families runtime_named_key =
     map (\<lambda>(field, scoped, bare).
       (field, [(''scoped'', scoped), (''bare'', case bare of None \<Rightarrow> runtime_named_key | Some b \<Rightarrow> b)])) ALIAS_FAMILY_SPELLINGS"

definition family_key_set :: "cfg_value option \<Rightarrow> bool" where
  "family_key_set v \<longleftrightarrow> (case v of None \<Rightarrow> False | Some x \<Rightarrow> py_strip (py_str x) \<noteq> [])"

definition family_keys :: "members \<Rightarrow> string list" where
  "family_keys ms = concat (map snd ms)"

definition max_layer :: "int list \<Rightarrow> int" where
  "max_layer ls = fold max ls (- 1)"

definition family_layers :: "settings \<Rightarrow> (int \<times> settings) list \<Rightarrow> string list \<Rightarrow> layers" where
  "family_layers vs layer_maps keys =
     map (\<lambda>key.
       (key, if family_key_set (map_of vs key)
             then max_layer (map fst (filter (\<lambda>(layer, m). family_key_set (map_of m key)) layer_maps)) else - 1)) keys"

definition present_members :: "settings \<Rightarrow> layers \<Rightarrow> members \<Rightarrow> (string \<times> int) list" where
  "present_members vs ls ms =
     map (\<lambda>(name, keys). (name, max_layer (map (layer_of ls) keys)))
       (filter (\<lambda>(name, keys). list_all (\<lambda>k. family_key_set (map_of vs k)) keys) ms)"

text \<open>\<open>max\<close> by the second component: the first of several maxima.\<close>

fun first_max :: "'a \<times> int \<Rightarrow> ('a \<times> int) list \<Rightarrow> 'a \<times> int" where
  "first_max best [] = best"
| "first_max best (x # xs) = first_max (if snd best < snd x then x else best) xs"

definition winning_family_member :: "settings \<Rightarrow> layers \<Rightarrow> members \<Rightarrow> string option" where
  "winning_family_member vs ls ms =
     (case present_members vs ls ms of [] \<Rightarrow> None | x # xs \<Rightarrow> Some (fst (first_max x xs)))"

definition winning_alias_key :: "settings \<Rightarrow> (string \<times> string) list \<Rightarrow> string option" where
  "winning_alias_key vs ms = map_option snd (find (\<lambda>(name, key). family_key_set (map_of vs key)) ms)"

definition winning_family_layer :: "layers \<Rightarrow> members \<Rightarrow> string option \<Rightarrow> int" where
  "winning_family_layer ls ms winner =
     (case winner of
        None \<Rightarrow> - 1
      | Some w \<Rightarrow> (case map_of ms w of None \<Rightarrow> - 1 | Some keys \<Rightarrow> max_layer (map (layer_of ls) keys)))"

definition parse_strict_bool :: "string \<Rightarrow> cfg_value \<Rightarrow> cfg_error + bool" where
  "parse_strict_bool field raw =
     (case raw of
        CBool b \<Rightarrow> Inr b
      | _ \<Rightarrow>
          let t = ascii_lower (py_strip (py_str raw)) in
          if t = ''true'' then Inr True else if t = ''false'' then Inr False else Inl (ConfigError field))"

section \<open>Loading\<close>

type_synonym load_step = "config \<Rightarrow> cfg_error + config"

fun run_steps :: "load_step list \<Rightarrow> load_step" where
  "run_steps [] c = Inr c"
| "run_steps (f # fs) c = (case f c of Inl e \<Rightarrow> Inl e | Inr c \<Rightarrow> run_steps fs c)"

text \<open>A present setting is converted; \<open>caught\<close> are the exceptions the code turns into a \<open>ConfigError\<close>.\<close>

definition convert_step ::
    "conv_error list \<Rightarrow> (cfg_value \<Rightarrow> conv_error + 'a) \<Rightarrow> string \<Rightarrow> ('a \<Rightarrow> config \<Rightarrow> config) \<Rightarrow> settings \<Rightarrow> load_step" where
  "convert_step caught conv key upd vs c =
     (case map_of vs key of
        None \<Rightarrow> Inr c
      | Some v \<Rightarrow>
          (case conv v of
             Inr x \<Rightarrow> Inr (upd x c)
           | Inl e \<Rightarrow> Inl (if e \<in> set caught then ConfigError key else Uncaught e)))"

definition int_step :: "string \<Rightarrow> (int \<Rightarrow> config \<Rightarrow> config) \<Rightarrow> settings \<Rightarrow> load_step" where
  "int_step = convert_step [TypeErr, ValueErr] py_int"

definition float_step :: "string \<Rightarrow> (py_float \<Rightarrow> config \<Rightarrow> config) \<Rightarrow> settings \<Rightarrow> load_step" where
  "float_step = convert_step [TypeErr, ValueErr] py_to_float"

text \<open>\<open>if raw := values.get(key): kwargs[field] = str(raw)\<close>.\<close>

definition truthy_step :: "string \<Rightarrow> (string \<Rightarrow> config \<Rightarrow> config) \<Rightarrow> settings \<Rightarrow> load_step" where
  "truthy_step key upd vs c =
     (case map_of vs key of None \<Rightarrow> Inr c | Some v \<Rightarrow> Inr (if py_bool v then upd (py_str v) c else c))"

text \<open>\<open>if key in values: kwargs[field] = values[key]\<close>, for settings that only the string layers can supply.\<close>

definition given_step :: "string \<Rightarrow> (string \<Rightarrow> config \<Rightarrow> config) \<Rightarrow> settings \<Rightarrow> load_step" where
  "given_step key upd vs c = (case map_of vs key of None \<Rightarrow> Inr c | Some v \<Rightarrow> Inr (upd (py_str v) c))"

definition bool_step :: "string \<Rightarrow> (bool \<Rightarrow> config \<Rightarrow> config) \<Rightarrow> settings \<Rightarrow> load_step" where
  "bool_step key upd vs c =
     (case map_of vs key of
        None \<Rightarrow> Inr c
      | Some v \<Rightarrow> (case parse_strict_bool key v of Inl e \<Rightarrow> Inl e | Inr b \<Rightarrow> Inr (upd b c)))"

definition string_step :: "string \<Rightarrow> (string \<Rightarrow> config \<Rightarrow> config) \<Rightarrow> settings \<Rightarrow> load_step" where
  "string_step key upd vs c =
     (case map_of vs key of
        None \<Rightarrow> Inr c
      | Some (CStr s) \<Rightarrow> Inr (upd s c)
      | Some v \<Rightarrow> Inl (ConfigError key))"

definition alias_field_update :: "string \<Rightarrow> string \<Rightarrow> config \<Rightarrow> config" where
  "alias_field_update field s c =
     (if field = ''openai_api_key'' then c\<lparr>cf_openai_api_key := Some s\<rparr>
      else if field = ''deepgram_api_key'' then c\<lparr>cf_deepgram_api_key := Some s\<rparr>
      else if field = ''cartesia_api_key'' then c\<lparr>cf_cartesia_api_key := Some s\<rparr>
      else c\<lparr>cf_cartesia_voice_id := Some s\<rparr>)"

definition openai_key_name :: "settings \<Rightarrow> string" where
  "openai_key_name vs =
     (case map_of vs ''WEBSEARCH_OPENAI_API_KEY_ENV'' of
        None \<Rightarrow> ''OPENAI_API_KEY''
      | Some v \<Rightarrow> if py_bool v then py_str v else ''OPENAI_API_KEY'')"

definition alias_steps :: "settings \<Rightarrow> load_step list" where
  "alias_steps vs =
     map (\<lambda>(field, ms) c.
       (case winning_alias_key vs ms of None \<Rightarrow> Inr c | Some key \<Rightarrow> Inr (alias_field_update field (setting_str vs key) c)))
       (alias_families (openai_key_name vs))"

definition number_steps :: "settings \<Rightarrow> load_step list" where
  "number_steps vs =
     [int_step ''WEBSEARCH_MAX_WORK_ITEMS_PER_TURN'' (\<lambda>x c. c\<lparr>cf_max_work_items_per_turn := x\<rparr>) vs,
      int_step ''WEBSEARCH_MULTI_INTENT_WAIT_TIMEOUT_MS'' (\<lambda>x c. c\<lparr>cf_multi_intent_wait_timeout_ms := x\<rparr>) vs,
      int_step ''WEBSEARCH_MAX_CITATIONS'' (\<lambda>x c. c\<lparr>cf_max_citations := x\<rparr>) vs,
      float_step ''WEBSEARCH_FOREGROUND_SEARCH_TIMEOUT_SECONDS'' (\<lambda>x c. c\<lparr>cf_foreground_search_timeout_seconds := x\<rparr>) vs,
      float_step ''WEBSEARCH_ROUTER_TIMEOUT_SECONDS'' (\<lambda>x c. c\<lparr>cf_router_timeout_seconds := x\<rparr>) vs,
      float_step ''WEBSEARCH_PROVIDER_TIMEOUT_SECONDS'' (\<lambda>x c. c\<lparr>cf_provider_timeout_seconds := x\<rparr>) vs,
      float_step ''WEBSEARCH_SHUTDOWN_GRACE_SECONDS'' (\<lambda>x c. c\<lparr>cf_shutdown_grace_seconds := x\<rparr>) vs,
      float_step ''WEBSEARCH_PENDING_DIALOGUE_TIMEOUT_SECONDS'' (\<lambda>x c. c\<lparr>cf_pending_dialogue_timeout_seconds := x\<rparr>) vs]"

definition service_steps :: "settings \<Rightarrow> load_step list" where
  "service_steps vs =
     [truthy_step ''WEBSEARCH_STT_SERVICE'' (\<lambda>x c. c\<lparr>cf_stt_service := x\<rparr>) vs,
      truthy_step ''WEBSEARCH_STT_PROVIDER'' (\<lambda>x c. c\<lparr>cf_stt_provider := x\<rparr>) vs,
      truthy_step ''WEBSEARCH_STT_MODEL'' (\<lambda>x c. c\<lparr>cf_stt_model := x\<rparr>) vs,
      truthy_step ''WEBSEARCH_STT_LANGUAGE'' (\<lambda>x c. c\<lparr>cf_stt_language := x\<rparr>) vs,
      float_step ''WEBSEARCH_SMART_TURN_TIMEOUT_SECONDS'' (\<lambda>x c. c\<lparr>cf_smart_turn_timeout_seconds := x\<rparr>) vs,
      float_step ''WEBSEARCH_SMART_TURN_COMPLETE_GRACE_SECONDS'' (\<lambda>x c. c\<lparr>cf_smart_turn_complete_grace_seconds := x\<rparr>) vs,
      float_step ''WEBSEARCH_SPEECH_START_TIMEOUT_SECONDS'' (\<lambda>x c. c\<lparr>cf_speech_start_timeout_seconds := x\<rparr>) vs,
      float_step ''WEBSEARCH_SPEECH_TRANSPORT_GRACE_SECONDS'' (\<lambda>x c. c\<lparr>cf_speech_transport_grace_seconds := x\<rparr>) vs,
      truthy_step ''WEBSEARCH_TTS_VOICE_ID'' (\<lambda>x c. c\<lparr>cf_tts_voice_id := x\<rparr>) vs,
      truthy_step ''WEBSEARCH_TTS_PROVIDER'' (\<lambda>x c. c\<lparr>cf_tts_provider := x\<rparr>) vs,
      truthy_step ''WEBSEARCH_TTS_MODEL'' (\<lambda>x c. c\<lparr>cf_tts_model := x\<rparr>) vs]"

definition server_steps :: "settings \<Rightarrow> load_step list" where
  "server_steps vs =
     [given_step ''WEBSEARCH_BIND_HOST'' (\<lambda>x c. c\<lparr>cf_bind_host := x\<rparr>) vs,
      convert_step [ValueErr] py_int ''WEBSEARCH_BIND_PORT'' (\<lambda>x c. c\<lparr>cf_bind_port := x\<rparr>) vs,
      given_step ''WEBSEARCH_KNOWN_CLIENT_URL'' (\<lambda>x c. c\<lparr>cf_known_client_url := x\<rparr>) vs,
      bool_step ''WEBSEARCH_ENABLE_EARLY_ACK'' (\<lambda>x c. c\<lparr>cf_enable_early_ack := x\<rparr>) vs,
      bool_step ''WEBSEARCH_ENABLE_BACKGROUND_STATUS'' (\<lambda>x c. c\<lparr>cf_enable_background_status := x\<rparr>) vs,
      bool_step ''WEBSEARCH_ENABLE_AUTOPLAY_POLICY'' (\<lambda>x c. c\<lparr>cf_enable_autoplay_policy := x\<rparr>) vs,
      string_step ''WEBSEARCH_EARLY_ACK_TEXT'' (\<lambda>x c. c\<lparr>cf_early_ack_text := x\<rparr>) vs,
      string_step ''WEBSEARCH_RELEASE_VERSION'' (\<lambda>x c. c\<lparr>cf_release_version := x\<rparr>) vs,
      string_step ''PIPECAT_SOURCE_COMMIT'' (\<lambda>x c. c\<lparr>cf_source_commit := Some x\<rparr>) vs,
      string_step ''PIPECAT_SOURCE_TREE_HASH'' (\<lambda>x c. c\<lparr>cf_source_tree_hash := Some x\<rparr>) vs,
      string_step ''PIPECAT_DEPLOYED_AT_UTC'' (\<lambda>x c. c\<lparr>cf_deployed_at_utc := Some x\<rparr>) vs,
      truthy_step ''WEBSEARCH_OPENAI_API_KEY_ENV'' (\<lambda>x c. c\<lparr>cf_openai_api_key_env := x\<rparr>) vs]"

text \<open>The labels of the model policy in play carry the effort: \<open>_registered_policy_labels\<close>.\<close>

definition effort_for_labels :: "policy \<Rightarrow> string \<Rightarrow> policy" where
  "effort_for_labels models raw = map (\<lambda>label. (label, raw)) (dkeys models)"

definition model_steps :: "settings \<Rightarrow> load_step list" where
  "model_steps vs =
     [truthy_step ''WEBSEARCH_ROUTER_MODEL'' (\<lambda>x c. c\<lparr>cf_router_model_policy := [(''fast'', x)]\<rparr>) vs,
      truthy_step ''WEBSEARCH_WORKER_MODEL'' (\<lambda>x c. c\<lparr>cf_worker_model_policy := [(''deep'', x)]\<rparr>) vs,
      truthy_step ''WEBSEARCH_ROUTER_REASONING_EFFORT''
        (\<lambda>x c. c\<lparr>cf_router_reasoning_effort_policy := effort_for_labels (cf_router_model_policy c) x\<rparr>) vs,
      truthy_step ''WEBSEARCH_WORKER_REASONING_EFFORT''
        (\<lambda>x c. c\<lparr>cf_worker_reasoning_effort_policy := effort_for_labels (cf_worker_model_policy c) x\<rparr>) vs]"

definition stt_member :: "settings \<Rightarrow> (int \<times> settings) list \<Rightarrow> string option" where
  "stt_member vs layer_maps =
     winning_family_member vs (family_layers vs layer_maps (family_keys STT_ENDPOINT_MEMBERS)) STT_ENDPOINT_MEMBERS"

definition tts_family_layers :: "settings \<Rightarrow> (int \<times> settings) list \<Rightarrow> layers" where
  "tts_family_layers vs layer_maps = family_layers vs layer_maps (family_keys TTS_ENDPOINT_MEMBERS)"

definition tts_member :: "settings \<Rightarrow> (int \<times> settings) list \<Rightarrow> string option" where
  "tts_member vs layer_maps = winning_family_member vs (tts_family_layers vs layer_maps) TTS_ENDPOINT_MEMBERS"

definition half_pair_step :: "settings \<Rightarrow> (int \<times> settings) list \<Rightarrow> load_step" where
  "half_pair_step vs layer_maps c =
     (let ls = tts_family_layers vs layer_maps in
      if family_key_set (map_of vs ''WEBSEARCH_TTS_WS_HOST'') \<noteq> family_key_set (map_of vs ''WEBSEARCH_TTS_WS_PORT'') \<and>
         winning_family_layer ls TTS_ENDPOINT_MEMBERS (tts_member vs layer_maps) <
           max (layer_of ls ''WEBSEARCH_TTS_WS_HOST'') (layer_of ls ''WEBSEARCH_TTS_WS_PORT'')
      then Inl (ConfigError ''WEBSEARCH_TTS_WS_HOST and WEBSEARCH_TTS_WS_PORT must be set together'') else Inr c)"

definition endpoint_steps :: "platform \<Rightarrow> settings \<Rightarrow> (int \<times> settings) list \<Rightarrow> load_step list" where
  "endpoint_steps pl vs layer_maps =
     [half_pair_step vs layer_maps,
      (\<lambda>c. case build_stt_endpoint pl (stt_member vs layer_maps) vs of
         Inl e \<Rightarrow> Inl e | Inr None \<Rightarrow> Inr c | Inr (Some e) \<Rightarrow> Inr (c\<lparr>cf_stt_endpoint := Some e\<rparr>)),
      (\<lambda>c. case build_tts_endpoint pl (tts_member vs layer_maps) vs of
         Inl e \<Rightarrow> Inl e | Inr None \<Rightarrow> Inr c | Inr (Some e) \<Rightarrow> Inr (c\<lparr>cf_tts_endpoint := Some e\<rparr>))]"

text \<open>The TOML surface: section, key and the setting it supplies.\<close>

datatype toml_node = Table settings | Scalar cfg_value

definition TOML_SETTINGS :: "(string \<times> string \<times> string) list" where
  "TOML_SETTINGS =
     [(''features'', ''enable_early_ack'', ''WEBSEARCH_ENABLE_EARLY_ACK''),
      (''features'', ''enable_background_status'', ''WEBSEARCH_ENABLE_BACKGROUND_STATUS''),
      (''features'', ''enable_autoplay_policy'', ''WEBSEARCH_ENABLE_AUTOPLAY_POLICY''),
      (''features'', ''early_ack_text'', ''WEBSEARCH_EARLY_ACK_TEXT''),
      (''features'', ''release_version'', ''WEBSEARCH_RELEASE_VERSION''),
      (''stt'', ''stt_service'', ''WEBSEARCH_STT_SERVICE''), (''stt'', ''provider'', ''WEBSEARCH_STT_PROVIDER''),
      (''stt'', ''model'', ''WEBSEARCH_STT_MODEL''), (''stt'', ''stt_language'', ''WEBSEARCH_STT_LANGUAGE''),
      (''stt'', ''stt_ws_socket'', ''WEBSEARCH_STT_WS_SOCKET''),
      (''turn'', ''smart_turn_timeout_seconds'', ''WEBSEARCH_SMART_TURN_TIMEOUT_SECONDS''),
      (''turn'', ''smart_turn_complete_grace_seconds'', ''WEBSEARCH_SMART_TURN_COMPLETE_GRACE_SECONDS''),
      (''turn'', ''speech_start_timeout_seconds'', ''WEBSEARCH_SPEECH_START_TIMEOUT_SECONDS''),
      (''turn'', ''speech_transport_grace_seconds'', ''WEBSEARCH_SPEECH_TRANSPORT_GRACE_SECONDS''),
      (''turn'', ''pending_dialogue_timeout_seconds'', ''WEBSEARCH_PENDING_DIALOGUE_TIMEOUT_SECONDS''),
      (''turn'', ''foreground_search_timeout_seconds'', ''WEBSEARCH_FOREGROUND_SEARCH_TIMEOUT_SECONDS''),
      (''turn'', ''router_timeout_seconds'', ''WEBSEARCH_ROUTER_TIMEOUT_SECONDS''),
      (''turn'', ''provider_timeout_seconds'', ''WEBSEARCH_PROVIDER_TIMEOUT_SECONDS''),
      (''turn'', ''shutdown_grace_seconds'', ''WEBSEARCH_SHUTDOWN_GRACE_SECONDS''),
      (''turn'', ''max_citations'', ''WEBSEARCH_MAX_CITATIONS''),
      (''models'', ''router_model'', ''WEBSEARCH_ROUTER_MODEL''), (''models'', ''worker_model'', ''WEBSEARCH_WORKER_MODEL''),
      (''models'', ''router_reasoning_effort'', ''WEBSEARCH_ROUTER_REASONING_EFFORT''),
      (''models'', ''worker_reasoning_effort'', ''WEBSEARCH_WORKER_REASONING_EFFORT''),
      (''tts'', ''tts_ws_uri'', ''WEBSEARCH_TTS_WS_URI''), (''tts'', ''tts_ws_socket'', ''WEBSEARCH_TTS_WS_SOCKET''),
      (''tts'', ''tts_ws_host'', ''WEBSEARCH_TTS_WS_HOST''), (''tts'', ''tts_ws_port'', ''WEBSEARCH_TTS_WS_PORT''),
      (''tts'', ''provider'', ''WEBSEARCH_TTS_PROVIDER''), (''tts'', ''model'', ''WEBSEARCH_TTS_MODEL''),
      (''tts'', ''voice_id'', ''WEBSEARCH_TTS_VOICE_ID'')]"

type_synonym toml_document = "(string, toml_node) dict"

definition section_of :: "toml_document \<Rightarrow> string \<Rightarrow> settings option" where
  "section_of doc name = (case map_of doc name of None \<Rightarrow> Some [] | Some (Table t) \<Rightarrow> Some t | Some (Scalar v) \<Rightarrow> None)"

definition toml_value :: "toml_document \<Rightarrow> string \<Rightarrow> string \<Rightarrow> cfg_value option" where
  "toml_value doc sec key = (case section_of doc sec of None \<Rightarrow> None | Some t \<Rightarrow> map_of t key)"

definition load_toml_values :: "toml_document \<Rightarrow> cfg_error + settings" where
  "load_toml_values doc =
     (if list_ex (\<lambda>name. section_of doc name = None) [''stt'', ''tts'', ''turn'', ''models'', ''features'']
      then Inl (ConfigError ''config sections must be tables'')
      else Inr (fold (\<lambda>(sec, key, target) vs.
             (case toml_value doc sec key of None \<Rightarrow> vs | Some v \<Rightarrow> AList.update target v vs)) TOML_SETTINGS []))"

datatype env_file = EnvText string | EnvMapping "(string, string) dict"

definition env_line :: "string \<Rightarrow> (string \<times> string) option" where
  "env_line line =
     (if py_strip line = [] \<or> starts_with ''#'' (dropWhile is_space line) then None
      else
        case split_at ''='' line of
          None \<Rightarrow> None
        | Some (key, value) \<Rightarrow> Some (py_strip key, strip_chars [CHR 0x22, CHR 0x27] (py_strip value)))"

definition env_file_values :: "env_file \<Rightarrow> (string, string) dict" where
  "env_file_values f =
     (case f of
        EnvText t \<Rightarrow> fold (\<lambda>(k, v). AList.update k v) (List.map_filter env_line (splitlines t)) []
      | EnvMapping d \<Rightarrow> d)"

definition text_layer :: "(string, string) dict \<Rightarrow> settings" where
  "text_layer d = map (\<lambda>(k, v). (k, CStr v)) d"

definition layer_maps_of :: "settings \<Rightarrow> settings option \<Rightarrow> settings \<Rightarrow> (int \<times> settings) list" where
  "layer_maps_of toml file env = (0, toml) # (case file of None \<Rightarrow> [] | Some f \<Rightarrow> [(1, f)]) @ [(2, env)]"

definition merged_layers :: "(int \<times> settings) list \<Rightarrow> settings \<times> layers" where
  "merged_layers maps = fold (\<lambda>(n, m). apply_layer m n) maps ([], [])"

definition load_steps :: "platform \<Rightarrow> settings \<Rightarrow> (int \<times> settings) list \<Rightarrow> load_step list" where
  "load_steps pl vs maps =
     alias_steps vs @ number_steps vs @ service_steps vs @ server_steps vs @ model_steps vs @ endpoint_steps pl vs maps"

definition load_config :: "platform \<Rightarrow> toml_document \<Rightarrow> env_file option \<Rightarrow> (string, string) dict \<Rightarrow> cfg_error + config" where
  "load_config pl doc file env =
     (case load_toml_values doc of
        Inl e \<Rightarrow> Inl e
      | Inr toml \<Rightarrow>
          let maps = layer_maps_of toml (map_option (\<lambda>f. text_layer (env_file_values f)) file) (text_layer env);
              vs = clear_inherited_reasoning_effort (merged_layers maps) in
          (case run_steps (load_steps pl vs maps) (default_config pl) of
             Inl e \<Rightarrow> Inl e
           | Inr c \<Rightarrow> post_init_config pl c))"

end
