(* ===== verification/Configuration_Properties.thy ===== *)
theory Configuration_Properties
  imports Configuration
begin

text \<open>
  What loading a configuration guarantees: an accepted configuration is safe to serve, a reasoning effort
  stays with the model it was set for, the highest layer decides the endpoint, a scoped credential is never
  displaced by an ambient one, and which failures escape as something other than a \<open>ConfigError\<close>.
\<close>

section \<open>Checks\<close>

lemma all_checks_ok: "all_checks cs = Inr () \<longleftrightarrow> (\<forall>c \<in> set cs. c = Inr ())"
  by (induction cs) (auto split: sum.splits)

lemma require_ok [simp]: "require b what = Inr () \<longleftrightarrow> b"
  by (simp add: require_def)

lemma post_init_ok: "post_init_config pl c = Inr c' \<longleftrightarrow> c' = c \<and> (\<forall>k \<in> set (post_init_checks pl c). k = Inr ())"
  by (auto simp: post_init_config_def simp flip: all_checks_ok split: sum.splits)

definition config_ok :: "platform \<Rightarrow> config \<Rightarrow> bool" where
  "config_ok pl c \<longleftrightarrow>
     is_loopback_host pl (cf_bind_host c) \<and> cf_bind_port c \<in> {1..65535} \<and>
     cf_max_work_items_per_turn c \<in> {2..4} \<and> cf_max_citations c \<in> {1..50} \<and> 0 < cf_multi_intent_wait_timeout_ms c \<and>
     (\<exists>foreground router provider.
        cf_foreground_search_timeout_seconds c = PFin foreground \<and> cf_router_timeout_seconds c = PFin router \<and>
        cf_provider_timeout_seconds c = PFin provider \<and> 0 < foreground \<and> foreground < provider \<and> 0 < router \<and> router \<le> provider) \<and>
     (\<exists>start grace. cf_speech_start_timeout_seconds c = PFin start \<and> cf_speech_transport_grace_seconds c = PFin grace \<and>
        0 < start \<and> 0 < grace) \<and>
     (\<forall>label. map_of (cf_router_reasoning_effort_policy c) label \<noteq> None \<longrightarrow> (\<exists>m. resolve_router_model c label = Inr m \<and> m \<noteq> [])) \<and>
     (\<forall>label. map_of (cf_worker_reasoning_effort_policy c) label \<noteq> None \<longrightarrow> (\<exists>m. resolve_worker_model c label = Inr m \<and> m \<noteq> []))"

lemma effort_label_resolves:
  assumes "set (dkeys efforts) \<subseteq> set (dkeys models)" and "check_models models = Inr ()" and "map_of efforts label \<noteq> None"
  shows "\<exists>m. resolve_model models label = Inr m \<and> m \<noteq> []"
proof -
  have "label \<in> set (dkeys models)" using assms(1,3) by (metis map_of_None_iff subsetD)
  then obtain m where m: "map_of models label = Some m" using key_map_of by metis
  then have "m \<noteq> []" using assms(2) map_of_SomeD [OF m] by (auto simp: check_models_def list_all_iff)
  then show ?thesis using m by (simp add: resolve_model_def)
qed

lemma finite_positive_cases: "finite_positive x \<longleftrightarrow> (\<exists>r. x = PFin r \<and> 0 < r)"
  by (cases x) (auto simp: finite_positive_def)

lemma checked_config_ok:
  assumes "\<forall>k \<in> set (post_init_checks pl c). k = Inr ()"
  shows "config_ok pl c"
proof -
  have c: "finite_positive (cf_foreground_search_timeout_seconds c)" "finite_positive (cf_router_timeout_seconds c)"
    "finite_positive (cf_provider_timeout_seconds c)" "finite_positive (cf_speech_start_timeout_seconds c)"
    "finite_positive (cf_speech_transport_grace_seconds c)"
    "float_less (cf_foreground_search_timeout_seconds c) (cf_provider_timeout_seconds c)"
    "\<not> float_less (cf_provider_timeout_seconds c) (cf_router_timeout_seconds c)"
    and range: "cf_max_work_items_per_turn c \<in> {2, 3, 4}" "0 < cf_multi_intent_wait_timeout_ms c"
    "1 \<le> cf_max_citations c \<and> cf_max_citations c \<le> 50" "1 \<le> cf_bind_port c \<and> cf_bind_port c \<le> 65535"
    and host: "is_loopback_host pl (cf_bind_host c)"
    and models: "check_models (cf_router_model_policy c) = Inr ()" "check_models (cf_worker_model_policy c) = Inr ()"
    and labels: "set (dkeys (cf_router_reasoning_effort_policy c)) \<subseteq> set (dkeys (cf_router_model_policy c))"
    "set (dkeys (cf_worker_reasoning_effort_policy c)) \<subseteq> set (dkeys (cf_worker_model_policy c))"
    using assms [unfolded post_init_checks_def list.set ball_simps require_ok] by blast+
  obtain foreground router provider where t: "cf_foreground_search_timeout_seconds c = PFin foreground" "0 < foreground"
    "cf_router_timeout_seconds c = PFin router" "0 < router" "cf_provider_timeout_seconds c = PFin provider"
    using c(1-3) unfolding finite_positive_cases by blast
  have "foreground < provider" "router \<le> provider" using c(6,7) t by (simp_all add: float_less_def)
  moreover have "cf_max_work_items_per_turn c \<in> {2..4}" using range(1) by auto
  moreover have "\<exists>start grace. cf_speech_start_timeout_seconds c = PFin start \<and> cf_speech_transport_grace_seconds c = PFin grace \<and>
      0 < start \<and> 0 < grace" using c(4,5) unfolding finite_positive_cases by blast
  moreover note effort_label_resolves [OF labels(1) models(1)] effort_label_resolves [OF labels(2) models(2)]
  ultimately show ?thesis
    unfolding config_ok_def resolve_router_model_def resolve_worker_model_def using t range host by simp
qed

lemma load_config_result:
  assumes "load_config pl doc file env = Inr c"
  obtains toml maps vs where "load_toml_values doc = Inr toml"
    "maps = layer_maps_of toml (map_option (\<lambda>f. text_layer (env_file_values f)) file) (text_layer env)"
    "vs = clear_inherited_reasoning_effort (merged_layers maps)"
    "run_steps (load_steps pl vs maps) (default_config pl) = Inr c" "post_init_config pl c = Inr c"
  using assms post_init_ok by (fastforce simp: load_config_def Let_def split: sum.splits)

section \<open>Merging layers\<close>

lemma role_keys:
  "PROVENANCE_KEYS = [''WEBSEARCH_ROUTER_MODEL'', ''WEBSEARCH_ROUTER_REASONING_EFFORT'', ''WEBSEARCH_WORKER_MODEL'',
     ''WEBSEARCH_WORKER_REASONING_EFFORT'']"
  "EMPTY_MEANS_ABSENT_KEYS = PROVENANCE_KEYS"
  "ROLE_MODEL_KEYS = [''WEBSEARCH_ROUTER_MODEL'', ''WEBSEARCH_WORKER_MODEL'']"
  by (simp_all add: PROVENANCE_KEYS_def EMPTY_MEANS_ABSENT_KEYS_def ROLE_MODEL_KEYS_def ROLE_MODEL_EFFORT_KEYS_def)

text \<open>What a layer says of a key: nothing when it does not mention it, or mentions a role setting with an empty value.\<close>

definition says :: "settings \<Rightarrow> string \<Rightarrow> cfg_value option" where
  "says m key =
     (case map_of m key of
        None \<Rightarrow> None
      | Some v \<Rightarrow> if key \<in> set EMPTY_MEANS_ABSENT_KEYS \<and> \<not> effectively_set v then None else Some v)"

lemma merge_layer_lookup:
  assumes "wf_dict m"
  shows "map_of (merge_layer m vs) key = (case says m key of None \<Rightarrow> map_of vs key | Some v \<Rightarrow> Some v)"
  using assms
proof (induction m arbitrary: vs)
  case Nil
  then show ?case by (simp add: merge_layer_def says_def)
next
  case (Cons p m)
  obtain k v where p: "p = (k, v)" by force
  let ?vs = "if k \<in> set EMPTY_MEANS_ABSENT_KEYS \<and> \<not> effectively_set v then vs else AList.update k v vs"
  have step: "merge_layer (p # m) vs = merge_layer m ?vs" by (simp add: merge_layer_def p)
  have wf: "wf_dict m" and fresh: "k \<notin> set (dkeys m)" using Cons.prems by (auto simp: wf_dict_def p)
  have "map_of m k = None" using fresh by (simp only: map_of_None_iff not_False_eq_True)
  then have "says m k = None" by (simp add: says_def)
  then show ?case
    unfolding step using Cons.IH [OF wf, of ?vs] by (auto simp: says_def p split: option.splits)
qed

lemma record_fold_lookup:
  assumes "distinct ks"
  shows "layer_of (fold (\<lambda>key ls.
       (case map_of m key of
          None \<Rightarrow> ls
        | Some v \<Rightarrow>
            if \<not> effectively_set v then ls
            else if key \<in> set ROLE_MODEL_KEYS \<and> map_of inc key = Some v then ls
            else AList.update key n ls)) ks ls) k =
    (if k \<in> set ks \<and> (\<exists>v. map_of m k = Some v \<and> effectively_set v \<and> \<not> (k \<in> set ROLE_MODEL_KEYS \<and> map_of inc k = Some v))
     then n else layer_of ls k)"
  using assms by (induction ks arbitrary: ls) (auto simp: layer_of_def split: option.splits)

lemma record_layer_lookup:
  assumes "k \<in> set PROVENANCE_KEYS"
  shows "layer_of (record_layer m n inc ls) k =
    (if \<exists>v. says m k = Some v \<and> \<not> (k \<in> set ROLE_MODEL_KEYS \<and> map_of inc k = Some v) then n else layer_of ls k)"
proof -
  have "distinct PROVENANCE_KEYS" by (simp add: role_keys)
  from record_fold_lookup [OF this] show ?thesis
    using assms by (auto simp: record_layer_def says_def role_keys(2) split: option.splits if_splits)
qed

section \<open>An effort stays with its model\<close>

text \<open>
  The specification reads the layers from the bottom: a layer that sets the effort decides it, a layer that
  only changes the model takes the effort away.
\<close>

definition effort_step :: "string \<Rightarrow> string \<Rightarrow> settings \<Rightarrow> cfg_value option \<times> cfg_value option \<Rightarrow> cfg_value option \<times> cfg_value option" where
  "effort_step model_key effort_key m me =
     (case me of (model, effort) \<Rightarrow>
        (case says m model_key of None \<Rightarrow> model | Some v \<Rightarrow> Some v,
         case says m effort_key of
           Some v \<Rightarrow> Some v
         | None \<Rightarrow> if says m model_key \<noteq> None \<and> says m model_key \<noteq> model then None else effort))"

definition effort_spec :: "string \<Rightarrow> string \<Rightarrow> settings list \<Rightarrow> cfg_value option \<times> cfg_value option" where
  "effort_spec model_key effort_key ms = fold (effort_step model_key effort_key) ms (None, None)"

definition effort_rel :: "string \<Rightarrow> string \<Rightarrow> int \<Rightarrow> settings \<times> layers \<Rightarrow> cfg_value option \<times> cfg_value option \<Rightarrow> bool" where
  "effort_rel model_key effort_key n vl me \<longleftrightarrow>
     (case (vl, me) of ((vs, ls), (model, effort)) \<Rightarrow>
        map_of vs model_key = model \<and> layer_of ls model_key < n \<and> layer_of ls effort_key < n \<and>
        (case effort of
           Some v \<Rightarrow> map_of vs effort_key = Some v \<and> layer_of ls model_key \<le> layer_of ls effort_key
         | None \<Rightarrow> map_of vs effort_key = None \<or> layer_of ls effort_key < layer_of ls model_key))"

lemma effort_rel_step:
  assumes role: "(model_key, effort_key) \<in> set ROLE_MODEL_EFFORT_KEYS" and wf: "wf_dict m"
    and rel: "effort_rel model_key effort_key n vl me" and n: "n \<le> k" "k < n'"
  shows "effort_rel model_key effort_key n' (apply_layer m k vl) (effort_step model_key effort_key m me)"
proof -
  obtain vs ls model effort where split: "vl = (vs, ls)" "me = (model, effort)" by (metis prod.exhaust)
  have keys: "model_key \<in> set PROVENANCE_KEYS" "effort_key \<in> set PROVENANCE_KEYS" "model_key \<in> set ROLE_MODEL_KEYS"
    "effort_key \<notin> set ROLE_MODEL_KEYS"
    using role by (auto simp: role_keys ROLE_MODEL_EFFORT_KEYS_def)
  have vals: "map_of (merge_layer m vs) model_key = (case says m model_key of None \<Rightarrow> model | Some v \<Rightarrow> Some v)"
    "map_of (merge_layer m vs) effort_key = (case says m effort_key of None \<Rightarrow> map_of vs effort_key | Some v \<Rightarrow> Some v)"
    and old: "map_of vs model_key = model"
    using rel by (auto simp: merge_layer_lookup [OF wf] split effort_rel_def)
  have lm: "layer_of (record_layer m k vs ls) model_key = (if says m model_key \<noteq> None \<and> says m model_key \<noteq> model then k else layer_of ls model_key)"
    using record_layer_lookup [OF keys(1), of m k vs ls] keys(3) old by auto
  have le: "layer_of (record_layer m k vs ls) effort_key = (if says m effort_key \<noteq> None then k else layer_of ls effort_key)"
    using record_layer_lookup [OF keys(2), of m k vs ls] keys(4) by auto
  show ?thesis
  proof (cases "says m effort_key")
    case None
    then show ?thesis
      using rel n unfolding split
      by (cases "says m model_key"; cases effort) (simp_all add: effort_rel_def apply_layer_def effort_step_def vals lm le)
  next
    case (Some v)
    then show ?thesis
      using rel n unfolding split
      by (cases "says m model_key") (simp_all add: effort_rel_def apply_layer_def effort_step_def vals lm le)
  qed
qed

fun ascending :: "int \<Rightarrow> (int \<times> settings) list \<Rightarrow> bool" where
  "ascending n [] \<longleftrightarrow> True"
| "ascending n ((k, m) # maps) \<longleftrightarrow> n \<le> k \<and> wf_dict m \<and> ascending (k + 1) maps"

lemma effort_rel_run:
  assumes "(model_key, effort_key) \<in> set ROLE_MODEL_EFFORT_KEYS"
    and "effort_rel model_key effort_key n vl me" and "ascending n maps"
  shows "\<exists>n'. effort_rel model_key effort_key n' (fold (\<lambda>(k, m). apply_layer m k) maps vl)
    (fold (effort_step model_key effort_key) (map snd maps) me)"
  using assms
proof (induction maps arbitrary: n vl me)
  case (Cons p maps)
  obtain k m where p: "p = (k, m)" by force
  have "effort_rel model_key effort_key (k + 1) (apply_layer m k vl) (effort_step model_key effort_key m me)"
    using effort_rel_step [OF Cons.prems(1) _ Cons.prems(2)] Cons.prems(3) by (simp add: p)
  then show ?case using Cons.IH [OF Cons.prems(1)] Cons.prems(3) by (simp add: p)
qed auto

lemma clear_effort_lookup:
  assumes "(model_key, effort_key) \<in> set ROLE_MODEL_EFFORT_KEYS"
  shows "map_of (clear_inherited_reasoning_effort (vs, ls)) model_key = map_of vs model_key"
    "map_of (clear_inherited_reasoning_effort (vs, ls)) effort_key =
       (if layer_of ls effort_key < layer_of ls model_key then None else map_of vs effort_key)"
proof -
  define rm re wm we where "rm = ''WEBSEARCH_ROUTER_MODEL''" and "re = ''WEBSEARCH_ROUTER_REASONING_EFFORT''"
    and "wm = ''WEBSEARCH_WORKER_MODEL''" and "we = ''WEBSEARCH_WORKER_REASONING_EFFORT''"
  have keys: "ROLE_MODEL_EFFORT_KEYS = [(rm, re), (wm, we)]" by (simp add: ROLE_MODEL_EFFORT_KEYS_def rm_def re_def wm_def we_def)
  have "distinct [rm, re, wm, we]" unfolding rm_def re_def wm_def we_def by code_simp
  then have ne: "rm \<noteq> re" "rm \<noteq> we" "wm \<noteq> re" "wm \<noteq> we" "re \<noteq> we" "rm \<noteq> wm" by auto
  have "(model_key, effort_key) = (rm, re) \<or> (model_key, effort_key) = (wm, we)" using assms by (simp add: keys)
  then show "map_of (clear_inherited_reasoning_effort (vs, ls)) model_key = map_of vs model_key"
    "map_of (clear_inherited_reasoning_effort (vs, ls)) effort_key =
       (if layer_of ls effort_key < layer_of ls model_key then None else map_of vs effort_key)"
    using ne ne [symmetric] by (auto simp: clear_inherited_reasoning_effort_def keys)
qed

text \<open>
  C26. Resolving provenance by layer numbers implements the reading of the layers from the bottom: for both
  roles, after merging any layers in ascending order and clearing inherited efforts, the model is the
  topmost one set, and the effort is the topmost one set unless a higher layer changed the model without
  setting an effort, in which case there is none. Empty settings count as absent and re-asserting the same
  model changes nothing.
\<close>
theorem effort_stays_with_its_model:
  assumes "(model_key, effort_key) \<in> set ROLE_MODEL_EFFORT_KEYS" and "ascending 0 maps"
  shows "(map_of (clear_inherited_reasoning_effort (merged_layers maps)) model_key,
          map_of (clear_inherited_reasoning_effort (merged_layers maps)) effort_key) =
    effort_spec model_key effort_key (map snd maps)"
proof -
  have "effort_rel model_key effort_key 0 ([], []) (None, None)" by (simp add: effort_rel_def layer_of_def)
  from effort_rel_run [OF assms(1) this assms(2)] obtain n where
    rel: "effort_rel model_key effort_key n (merged_layers maps) (effort_spec model_key effort_key (map snd maps))"
    by (auto simp: merged_layers_def effort_spec_def)
  obtain vs ls where vl: "merged_layers maps = (vs, ls)" by force
  obtain model effort where me: "effort_spec model_key effort_key (map snd maps) = (model, effort)" by force
  show ?thesis
    using rel unfolding vl me
    by (cases effort) (auto simp: effort_rel_def clear_effort_lookup [OF assms(1)])
qed

theorem effort_stays_with_its_model_witness:
  "map_of (clear_inherited_reasoning_effort (merged_layers
      [(0, [(''WEBSEARCH_WORKER_MODEL'', CStr ''a''), (''WEBSEARCH_WORKER_REASONING_EFFORT'', CStr ''medium'')]),
       (2, [(''WEBSEARCH_WORKER_MODEL'', CStr ''gpt-5'')])])) ''WEBSEARCH_WORKER_REASONING_EFFORT'' = None"
proof -
  let ?maps = "[(0, [(''WEBSEARCH_WORKER_MODEL'', CStr ''a''), (''WEBSEARCH_WORKER_REASONING_EFFORT'', CStr ''medium'')]),
       (2, [(''WEBSEARCH_WORKER_MODEL'', CStr ''gpt-5'')])] :: (int \<times> settings) list"
  have role: "(''WEBSEARCH_WORKER_MODEL'', ''WEBSEARCH_WORKER_REASONING_EFFORT'') \<in> set ROLE_MODEL_EFFORT_KEYS"
    by (simp add: ROLE_MODEL_EFFORT_KEYS_def)
  have asc: "ascending 0 ?maps" by (simp add: wf_dict_def)
  have "effort_spec ''WEBSEARCH_WORKER_MODEL'' ''WEBSEARCH_WORKER_REASONING_EFFORT'' (map snd ?maps) = (Some (CStr ''gpt-5''), None)"
    by (simp add: effort_spec_def effort_step_def says_def role_keys effectively_set_def py_strip_def is_space_def)
  with effort_stays_with_its_model [OF role asc] show ?thesis by simp
qed

end
