(* ===== verification/Configuration_Loading.thy ===== *)
theory Configuration_Loading
  imports Configuration_Properties
begin

text \<open>Properties of \<open>load_config\<close> as a whole.\<close>

section \<open>Running the steps\<close>

lemma run_steps_append:
  "run_steps (fs @ gs) c = (case run_steps fs c of Inl e \<Rightarrow> Inl e | Inr c \<Rightarrow> run_steps gs c)"
  by (induction fs arbitrary: c) (auto split: sum.splits)

lemma run_steps_keeps:
  assumes "\<And>f c c'. f \<in> set fs \<Longrightarrow> f c = Inr c' \<Longrightarrow> g c' = g c" and "run_steps fs c = Inr c'"
  shows "g c' = g c"
  using assms
proof (induction fs arbitrary: c)
  case (Cons f fs)
  from Cons.prems(2) obtain d where d: "f c = Inr d" "run_steps fs d = Inr c'" by (auto split: sum.splits)
  have "g c' = g d" by (rule Cons.IH [OF _ d(2)]) (metis Cons.prems(1) list.set_intros(2))
  also have "g d = g c" by (metis Cons.prems(1) d(1) list.set_intros(1))
  finally show ?case .
qed simp

text \<open>A step that only updates a field keeps every other.\<close>

lemma step_keeps:
  assumes "\<And>x c. g (upd x c) = g c"
  shows "convert_step es conv key upd vs c = Inr c' \<Longrightarrow> g c' = g c"
  using assms by (auto simp: convert_step_def split: option.splits sum.splits)

lemma text_step_keeps:
  assumes "\<And>x c. g (upd x c) = g c"
  shows "truthy_step key upd vs c = Inr c' \<Longrightarrow> g c' = g c" "given_step key upd vs c = Inr c' \<Longrightarrow> g c' = g c"
    "string_step key upd vs c = Inr c' \<Longrightarrow> g c' = g c"
  using assms by (auto simp: truthy_step_def given_step_def string_step_def split: option.splits if_splits cfg_value.splits)

lemma bool_step_keeps:
  assumes "\<And>x c. g (upd x c) = g c"
  shows "bool_step key upd vs c = Inr c' \<Longrightarrow> g c' = g c"
  using assms by (auto simp: bool_step_def split: option.splits sum.splits)

lemmas steps_keep = step_keeps text_step_keeps bool_step_keeps

section \<open>The environment is the top layer\<close>

lemma text_layer_lookup: "map_of (text_layer d) k = map_option CStr (map_of d k)"
  by (induction d) (auto simp: text_layer_def)

lemma text_layer_wf [simp]: "wf_dict (text_layer d) \<longleftrightarrow> wf_dict d"
  by (simp add: wf_dict_def text_layer_def comp_def case_prod_beta)

lemma merged_snoc: "merged_layers (maps @ [(n, m)]) = apply_layer m n (merged_layers maps)"
  by (simp add: merged_layers_def)

abbreviation lower_layers :: "settings \<Rightarrow> settings option \<Rightarrow> (int \<times> settings) list" where
  "lower_layers toml file \<equiv> (0, toml) # (case file of None \<Rightarrow> [] | Some f \<Rightarrow> [(1, f)])"

lemma layer_maps_split: "layer_maps_of toml file env = lower_layers toml file @ [(2, env)]"
  by (simp add: layer_maps_of_def)

lemma clear_keeps:
  assumes "key \<notin> set PROVENANCE_KEYS"
  shows "map_of (clear_inherited_reasoning_effort vl) key = map_of (fst vl) key"
  using assms by (cases vl) (auto simp: clear_inherited_reasoning_effort_def ROLE_MODEL_EFFORT_KEYS_def role_keys)

lemma final_setting:
  assumes "wf_dict env" and "key \<notin> set PROVENANCE_KEYS"
  shows "map_of (clear_inherited_reasoning_effort (merged_layers (layer_maps_of toml file env))) key =
    (case map_of env key of Some v \<Rightarrow> Some v | None \<Rightarrow> map_of (fst (merged_layers (lower_layers toml file))) key)"
proof -
  obtain vs ls where vl: "merged_layers (lower_layers toml file) = (vs, ls)" by force
  have "says env key = map_of env key" using assms(2) by (simp add: says_def role_keys(2) split: option.splits)
  then show ?thesis
    unfolding clear_keeps [OF assms(2)] layer_maps_split merged_snoc vl apply_layer_def
    by (simp add: merge_layer_lookup [OF assms(1)] split: option.splits)
qed

section \<open>Families\<close>

lemma max_layer_bounds: "(\<forall>x \<in> set xs. x \<le> max_layer xs) \<and> - 1 \<le> max_layer xs \<and> (\<forall>n. - 1 \<le> n \<and> (\<forall>x \<in> set xs. x \<le> n) \<longrightarrow> max_layer xs \<le> n)"
proof -
  have "\<forall>b. (\<forall>x \<in> set xs. x \<le> fold max xs b) \<and> b \<le> fold max xs b \<and> (\<forall>n. b \<le> n \<and> (\<forall>x \<in> set xs. x \<le> n) \<longrightarrow> fold max xs b \<le> n)"
    by (induction xs) (auto, metis max.bounded_iff, metis max.bounded_iff)
  then show ?thesis unfolding max_layer_def by blast
qed

lemma max_layer_ge: "x \<in> set xs \<Longrightarrow> x \<le> max_layer xs"
  using max_layer_bounds by blast

lemma max_layer_le: "- 1 \<le> n \<Longrightarrow> (\<And>x. x \<in> set xs \<Longrightarrow> x \<le> n) \<Longrightarrow> max_layer xs \<le> n"
  using max_layer_bounds by blast

lemma first_max_keep: "\<forall>q \<in> set xs. snd q \<le> n \<Longrightarrow> first_max (w, n) xs = (w, n)"
  by (induction xs) auto

lemma first_max_wins:
  assumes "snd best < n" and "\<forall>q \<in> set before. snd q < n" and "\<forall>q \<in> set after. snd q \<le> n"
  shows "first_max best (before @ (w, n) # after) = (w, n)"
  using assms by (induction before arbitrary: best) (auto simp: first_max_keep)

lemma winner_of_family:
  assumes "ms = before @ (w, keys) # after" and "list_all (\<lambda>k. family_key_set (map_of vs k)) keys" and n: "max_layer (map (layer_of ls) keys) = n"
    and lower: "\<forall>(name, ks) \<in> set before. list_all (\<lambda>k. family_key_set (map_of vs k)) ks \<longrightarrow> max_layer (map (layer_of ls) ks) < n"
    and top: "\<And>ks. max_layer (map (layer_of ls) ks) \<le> n"
  shows "winning_family_member vs ls ms = Some w"
proof -
  let ?pm = "present_members vs ls"
  have split: "?pm ms = ?pm before @ (w, n) # ?pm after" using assms(1,2) n by (simp add: present_members_def)
  have b: "\<forall>q \<in> set (?pm before). snd q < n" using lower by (auto simp: present_members_def)
  have a: "\<forall>q \<in> set (?pm after). snd q \<le> n" using top by (auto simp: present_members_def)
  show ?thesis
  proof (cases "?pm before")
    case Nil
    then show ?thesis using a by (simp add: winning_family_member_def split first_max_keep)
  next
    case (Cons x xs)
    then have "first_max x (xs @ (w, n) # ?pm after) = (w, n)" using a b by (intro first_max_wins) auto
    then show ?thesis using Cons by (simp add: winning_family_member_def split)
  qed
qed

lemma family_layer_lookup:
  "layer_of (family_layers vs maps keys) k =
     (if k \<in> set keys \<and> family_key_set (map_of vs k)
      then max_layer (map fst (filter (\<lambda>(layer, m). family_key_set (map_of m k)) maps)) else - 1)"
  by (induction keys) (auto simp: family_layers_def layer_of_def)

lemma family_layer_env:
  assumes maps: "maps = layer_maps_of toml file env" and vs: "vs = clear_inherited_reasoning_effort (merged_layers maps)"
    and "wf_dict env" and "k \<notin> set PROVENANCE_KEYS" and k: "k \<in> set keys"
  shows "layer_of (family_layers vs maps keys) k \<le> 2"
    "family_key_set (map_of env k) \<Longrightarrow> layer_of (family_layers vs maps keys) k = 2"
    "\<not> family_key_set (map_of env k) \<Longrightarrow> layer_of (family_layers vs maps keys) k < 2"
proof -
  let ?ls = "map fst (filter (\<lambda>(layer, m). family_key_set (map_of m k)) maps)"
  have all: "\<forall>x \<in> set ?ls. x \<le> 2" by (auto simp: maps layer_maps_of_def split: option.splits)
  have le: "max_layer ?ls \<le> 2" using max_layer_bounds [of ?ls] all by auto
  then show "layer_of (family_layers vs maps keys) k \<le> 2" by (simp add: family_layer_lookup)
  show "layer_of (family_layers vs maps keys) k = 2" if env: "family_key_set (map_of env k)"
  proof -
    have "2 \<in> set ?ls" using env by (force simp: maps layer_maps_of_def)
    then have "max_layer ?ls = 2" using max_layer_bounds [of ?ls] le by fastforce
    moreover have "family_key_set (map_of vs k)"
      using env final_setting [OF assms(3,4)] by (auto simp: vs maps family_key_set_def split: option.splits)
    ultimately show ?thesis using k by (simp add: family_layer_lookup)
  qed
  show "layer_of (family_layers vs maps keys) k < 2" if env: "\<not> family_key_set (map_of env k)"
  proof -
    have "\<forall>x \<in> set ?ls. x \<le> 1" using env by (auto simp: maps layer_maps_of_def split: option.splits)
    then have "max_layer ?ls \<le> 1" using max_layer_bounds [of ?ls] by auto
    then show ?thesis by (simp add: family_layer_lookup)
  qed
qed

definition endpoint_keys :: "string list" where
  "endpoint_keys = family_keys STT_ENDPOINT_MEMBERS @ family_keys TTS_ENDPOINT_MEMBERS"

lemma endpoint_keys_plain: "k \<in> set endpoint_keys \<Longrightarrow> k \<notin> set PROVENANCE_KEYS"
  by (auto simp: endpoint_keys_def family_keys_def STT_ENDPOINT_MEMBERS_def TTS_ENDPOINT_MEMBERS_def role_keys)

lemma env_member_wins:
  assumes maps: "maps = layer_maps_of toml file env" and vs: "vs = clear_inherited_reasoning_effort (merged_layers maps)"
    and wf: "wf_dict env" and ms: "ms = before @ (w, keys) # after" "set (family_keys ms) \<subseteq> set endpoint_keys" "keys \<noteq> []"
    and given: "\<forall>k \<in> set keys. family_key_set (map_of env k)"
    and silent: "\<forall>(name, ks) \<in> set before. \<forall>k \<in> set ks. \<not> family_key_set (map_of env k)"
  shows "winning_family_member vs (family_layers vs maps (family_keys ms)) ms = Some w"
proof -
  let ?ls = "family_layers vs maps (family_keys ms)"
  have plain: "k \<notin> set PROVENANCE_KEYS" if "k \<in> set (family_keys ms)" for k using that ms(2) endpoint_keys_plain by blast
  note layer = family_layer_env [OF maps vs wf plain]
  have below: "layer_of ?ls k \<le> 2" for k
    using layer(1) [of k "family_keys ms"] by (cases "k \<in> set (family_keys ms)") (auto simp: family_layer_lookup)
  have sub: "set keys \<subseteq> set (family_keys ms)" using ms(1) by (auto simp: family_keys_def)
  have two: "layer_of ?ls k = 2" if "k \<in> set keys" for k using that sub given layer(2) by blast
  have "max_layer (map (layer_of ?ls) keys) = 2"
  proof -
    obtain k where k: "k \<in> set keys" using ms(3) by (cases keys) auto
    have "2 \<le> max_layer (map (layer_of ?ls) keys)" by (rule max_layer_ge) (use two k in force)
    moreover have "max_layer (map (layer_of ?ls) keys) \<le> 2" by (rule max_layer_le) (use below in auto)
    ultimately show ?thesis by simp
  qed
  moreover have "list_all (\<lambda>k. family_key_set (map_of vs k)) keys"
    using two unfolding list_all_iff family_layer_lookup by (metis zero_neq_neg_numeral neg_equal_iff_equal numeral_One one_neq_neg_numeral
        numeral_neq_neg_one)
  moreover have "max_layer (map (layer_of ?ls) ks) < 2" if "(name, ks) \<in> set before" for name ks
  proof -
    have "layer_of ?ls k \<le> 1" if k: "k \<in> set ks" for k
    proof -
      have "k \<in> set (family_keys ms)" using \<open>(name, ks) \<in> set before\<close> k ms(1) by (force simp: family_keys_def)
      moreover have "\<not> family_key_set (map_of env k)" using \<open>(name, ks) \<in> set before\<close> k silent by blast
      ultimately show ?thesis using layer(3) [of k "family_keys ms"] by simp
    qed
    then have "max_layer (map (layer_of ?ls) ks) \<le> 1" by (intro max_layer_le) auto
    then show ?thesis by simp
  qed
  moreover have "max_layer (map (layer_of ?ls) ks) \<le> 2" for ks
    by (rule max_layer_le) (use below in auto)
  ultimately show ?thesis using winner_of_family [OF ms(1)] by blast
qed

section \<open>Properties\<close>


definition sample_platform :: platform where
  "sample_platform =
     \<lparr>pl_expanduser = id, pl_bracketed_ok = (\<lambda>_. True), pl_mapped_loopback = False, pl_fromisoformat = (\<lambda>_. None),
      pl_reasoning_efforts = [''minimal''], pl_release_version = ''1''\<rparr>"

lemma default_checks: "\<forall>k \<in> set (post_init_checks sample_platform (default_config sample_platform)). k = Inr ()"
  by (simp add: post_init_checks_def default_config_def sample_platform_def) code_simp

lemma same_checks:
  "post_init_checks pl (c\<lparr>cf_tts_endpoint := e\<rparr>) = post_init_checks pl c"
  "post_init_checks pl (c\<lparr>cf_openai_api_key := k\<rparr>) = post_init_checks pl c"
  by (simp_all add: post_init_checks_def)

lemma load_by_steps:
  assumes "load_toml_values doc = Inr toml"
    and "maps = layer_maps_of toml (map_option (\<lambda>f. text_layer (env_file_values f)) file) (text_layer env)"
    and "clear_inherited_reasoning_effort (merged_layers maps) = vs"
    and "run_steps (load_steps pl vs maps) (default_config pl) = Inr c"
    and "\<forall>k \<in> set (post_init_checks pl c). k = Inr ()"
  shows "load_config pl doc file env = Inr c"
  using assms post_init_ok [of pl c c] by (simp add: load_config_def Let_def)

lemma empty_sources_load: "load_config sample_platform [] None [] = Inr (default_config sample_platform)"
proof (rule load_by_steps [OF _ refl _ _ default_checks])
  show "load_toml_values [] = Inr []" by code_simp
  show "clear_inherited_reasoning_effort (merged_layers (layer_maps_of [] (map_option (\<lambda>f. text_layer (env_file_values f)) None) (text_layer []))) = []"
    by code_simp
  show "run_steps (load_steps sample_platform [] (layer_maps_of [] (map_option (\<lambda>f. text_layer (env_file_values f)) None) (text_layer [])))
      (default_config sample_platform) = Inr (default_config sample_platform)"
    by code_simp
qed


lemma endpoint_steps_result:
  assumes "run_steps (load_steps pl vs maps) c0 = Inr c"
  shows "\<exists>e. build_tts_endpoint pl (tts_member vs maps) vs = Inr e \<and> (e \<noteq> None \<longrightarrow> cf_tts_endpoint c = e)"
proof -
  from assms obtain d where "run_steps (endpoint_steps pl vs maps) d = Inr c"
    by (auto simp: load_steps_def run_steps_append split: sum.splits)
  then show ?thesis by (auto simp: endpoint_steps_def split: sum.splits option.splits)
qed

lemma tts_member_in: "TTS_ENDPOINT_MEMBERS = before @ (w, keys) # after \<Longrightarrow> (w, keys) \<in> set TTS_ENDPOINT_MEMBERS"
  by (metis in_set_conv_decomp)

lemma tts_cases:
  assumes "TTS_ENDPOINT_MEMBERS = before @ (w, keys) # after"
  shows "(w, keys) \<in> {(''endpoint'', [''WEBSEARCH_TTS_ENDPOINT'']), (''uri'', [''WEBSEARCH_TTS_WS_URI'']), (''socket'', [''WEBSEARCH_TTS_WS_SOCKET'']),
      (''host_port'', [''WEBSEARCH_TTS_WS_HOST'', ''WEBSEARCH_TTS_WS_PORT''])}"
  using tts_member_in [OF assms] unfolding TTS_ENDPOINT_MEMBERS_def by (simp only: list.set)

lemma build_reads_its_keys:
  assumes "TTS_ENDPOINT_MEMBERS = before @ (w, keys) # after" and same: "\<And>k. k \<in> set keys \<Longrightarrow> map_of vs k = map_of vs' k"
  shows "build_tts_endpoint pl (Some w) vs = build_tts_endpoint pl (Some w) vs'"
proof -
  have "setting_str vs k = setting_str vs' k" if "k \<in> set keys" for k using same [OF that] by (simp add: setting_str_def)
  then show ?thesis
    using tts_cases [OF assms(1)]
    by (elim insertE emptyE) (simp_all add: build_tts_endpoint_def build_host_port_def cong: sum.case_cong if_cong)
qed

lemma build_given: "TTS_ENDPOINT_MEMBERS = before @ (w, keys) # after \<Longrightarrow> build_tts_endpoint pl (Some w) vs \<noteq> Inr None"
  by (drule tts_cases, elim insertE emptyE) (simp_all add: build_tts_endpoint_def map_sum_def split: sum.splits)

text \<open>
  The process environment decides the speech endpoint: when it gives a spelling of the TTS endpoint in
  full, and no spelling of higher key priority, then whatever the TOML document and the environment file
  say, a configuration that loads has the endpoint of that spelling, read from the environment alone.
\<close>
theorem environment_decides_endpoint:
  assumes load: "load_config pl doc file env = Inr c" and wf: "wf_dict env"
    and ms: "TTS_ENDPOINT_MEMBERS = before @ (w, keys) # after"
    and given: "\<forall>k \<in> set keys. family_key_set (map_of (text_layer env) k)"
    and silent: "\<forall>(name, ks) \<in> set before. \<forall>k \<in> set ks. \<not> family_key_set (map_of (text_layer env) k)"
  shows "cf_tts_endpoint c \<noteq> None \<and> build_tts_endpoint pl (Some w) (text_layer env) = Inr (cf_tts_endpoint c)"
proof -
  obtain toml maps vs where l: "maps = layer_maps_of toml (map_option (\<lambda>f. text_layer (env_file_values f)) file) (text_layer env)"
    "vs = clear_inherited_reasoning_effort (merged_layers maps)" "run_steps (load_steps pl vs maps) (default_config pl) = Inr c"
    using load_config_result [OF load] by metis
  have wf': "wf_dict (text_layer env)" using wf by simp
  have keys: "set (family_keys TTS_ENDPOINT_MEMBERS) \<subseteq> set endpoint_keys" by (simp add: endpoint_keys_def)
  have nonempty: "keys \<noteq> []" using tts_cases [OF ms] by (elim insertE emptyE) simp_all
  have member: "tts_member vs maps = Some w"
    unfolding tts_member_def tts_family_layers_def by (rule env_member_wins [OF l(1,2) wf' ms keys nonempty given silent])
  have same: "map_of vs k = map_of (text_layer env) k" if k: "k \<in> set keys" for k
  proof -
    have "k \<in> set (family_keys TTS_ENDPOINT_MEMBERS)"
      unfolding family_keys_def set_concat set_map using tts_member_in [OF ms] k by force
    then have "k \<in> set endpoint_keys" using keys by blast
    moreover obtain v where "map_of (text_layer env) k = Some v" using given k by (fastforce simp: family_key_set_def split: option.splits)
    ultimately show ?thesis using final_setting [OF wf' endpoint_keys_plain] l(1,2) by simp
  qed
  obtain e where "build_tts_endpoint pl (Some w) vs = Inr e" "e \<noteq> None \<longrightarrow> cf_tts_endpoint c = e"
    using endpoint_steps_result [OF l(3)] member by auto
  then show ?thesis using build_given [OF ms] build_reads_its_keys [OF ms same] by metis
qed

theorem environment_decides_endpoint_witness:
  "\<exists>c. load_config sample_platform [(''tts'', Table [(''tts_ws_uri'', CStr ''ws://far'')])] None [(''WEBSEARCH_TTS_WS_SOCKET'', ''/s'')] = Inr c \<and>
     cf_tts_endpoint c = Some (''uds'', ''/s'')"
proof -
  let ?env = "[(''WEBSEARCH_TTS_WS_SOCKET'', ''/s'')] :: (string, string) dict"
  let ?doc = "[(''tts'', Table [(''tts_ws_uri'', CStr ''ws://far'')])] :: toml_document"
  let ?vs = "[(''WEBSEARCH_TTS_WS_URI'', CStr ''ws://far''), (''WEBSEARCH_TTS_WS_SOCKET'', CStr ''/s'')]"
  let ?maps = "layer_maps_of [(''WEBSEARCH_TTS_WS_URI'', CStr ''ws://far'')] None (text_layer ?env)"
  let ?c = "default_config sample_platform\<lparr>cf_tts_endpoint := Some (''uds'', ''/s'')\<rparr>"
  have toml: "load_toml_values ?doc = Inr [(''WEBSEARCH_TTS_WS_URI'', CStr ''ws://far'')]" by code_simp
  have vs: "clear_inherited_reasoning_effort (merged_layers ?maps) = ?vs" by code_simp
  have run: "run_steps (load_steps sample_platform ?vs ?maps) (default_config sample_platform) = Inr ?c" by code_simp
  have c: "load_config sample_platform ?doc None ?env = Inr ?c"
    using load_by_steps [OF toml _ vs run] same_checks(1) default_checks by simp
  have ms: "TTS_ENDPOINT_MEMBERS = [(''endpoint'', [''WEBSEARCH_TTS_ENDPOINT'']), (''uri'', [''WEBSEARCH_TTS_WS_URI''])] @
      (''socket'', [''WEBSEARCH_TTS_WS_SOCKET'']) # [(''host_port'', [''WEBSEARCH_TTS_WS_HOST'', ''WEBSEARCH_TTS_WS_PORT''])]"
    by (simp add: TTS_ENDPOINT_MEMBERS_def)
  have e: "build_tts_endpoint sample_platform (Some ''socket'') (text_layer ?env) = Inr (Some (''uds'', ''/s''))" by code_simp
  show ?thesis
    using environment_decides_endpoint [OF c _ ms] c e
    by (simp add: wf_dict_def text_layer_def family_key_set_def py_strip_def is_space_def)
qed

text \<open>
  Not every failure is a \<open>ConfigError\<close>: an infinite \<open>max_citations\<close> in the TOML document makes
  \<open>load_config\<close> raise the \<open>OverflowError\<close> of \<open>int\<close>, although the code wraps the conversion.
\<close>
theorem infinite_citations_escape:
  "load_config pl [(''turn'', Table [(''max_citations'', CFloat (PInf negative) r)])] None [] = Inl (Uncaught OverflowErr)"
proof -
  let ?vs = "[(''WEBSEARCH_MAX_CITATIONS'', CFloat (PInf negative) r)]"
  have toml: "load_toml_values [(''turn'', Table [(''max_citations'', CFloat (PInf negative) r)])] = Inr ?vs"
    by (simp add: load_toml_values_def section_of_def toml_value_def TOML_SETTINGS_def)
  have merged: "clear_inherited_reasoning_effort (merged_layers (layer_maps_of ?vs None [])) = ?vs"
    by (simp add: layer_maps_of_def merged_layers_def apply_layer_def merge_layer_def record_layer_def role_keys
        clear_inherited_reasoning_effort_def ROLE_MODEL_EFFORT_KEYS_def)
  have "run_steps (alias_steps ?vs) c = Inr c" for c
    by (simp add: alias_steps_def alias_families_def ALIAS_FAMILY_SPELLINGS_def openai_key_name_def winning_alias_key_def family_key_set_def)
  moreover have "run_steps (number_steps ?vs) c = Inl (Uncaught OverflowErr)" for c
    by (simp add: number_steps_def int_step_def convert_step_def)
  ultimately show ?thesis
    by (simp add: load_config_def toml text_layer_def merged load_steps_def run_steps_append)
qed

section \<open>Credentials\<close>

type_synonym credentials = "string option \<times> string option \<times> string option \<times> string option"

definition credentials_of :: "config \<Rightarrow> credentials" where
  "credentials_of c = (cf_openai_api_key c, cf_deepgram_api_key c, cf_cartesia_api_key c, cf_cartesia_voice_id c)"

lemma later_steps_keep_credentials:
  "f \<in> set (number_steps vs @ service_steps vs @ server_steps vs @ model_steps vs @ endpoint_steps pl vs maps) \<Longrightarrow>
     f c = Inr c' \<Longrightarrow> credentials_of c' = credentials_of c"
  unfolding number_steps_def service_steps_def server_steps_def model_steps_def set_append Un_iff list.set int_step_def float_step_def
  by (elim disjE insertE emptyE; (hypsubst, erule steps_keep [where g = credentials_of, rotated], simp add: credentials_of_def)?)
    (auto simp: endpoint_steps_def half_pair_step_def Let_def credentials_of_def split: sum.splits option.splits if_splits)

lemma loaded_credentials:
  assumes "run_steps (load_steps pl vs maps) c0 = Inr c"
  shows "\<exists>d. run_steps (alias_steps vs) c0 = Inr d \<and> credentials_of c = credentials_of d"
proof -
  from assms obtain d where d: "run_steps (alias_steps vs) c0 = Inr d"
    "run_steps (number_steps vs @ service_steps vs @ server_steps vs @ model_steps vs @ endpoint_steps pl vs maps) d = Inr c"
    by (auto simp: load_steps_def run_steps_append split: sum.splits)
  have "credentials_of c = credentials_of d"
    by (rule run_steps_keeps [OF _ d(2), where g = credentials_of]) (rule later_steps_keep_credentials)
  then show ?thesis using d(1) by blast
qed

definition credential :: "string \<Rightarrow> config \<Rightarrow> string option" where
  "credential field c =
     (if field = ''openai_api_key'' then cf_openai_api_key c else if field = ''deepgram_api_key'' then cf_deepgram_api_key c
      else if field = ''cartesia_api_key'' then cf_cartesia_api_key c else cf_cartesia_voice_id c)"

lemma credential_of: "credentials_of c = credentials_of d \<Longrightarrow> credential field c = credential field d"
  by (simp add: credentials_of_def credential_def)

definition alias_set :: "settings \<Rightarrow> string \<times> (string \<times> string) list \<Rightarrow> config \<Rightarrow> config" where
  "alias_set vs fm c =
     (case winning_alias_key vs (snd fm) of None \<Rightarrow> c | Some key \<Rightarrow> alias_field_update (fst fm) (setting_str vs key) c)"

lemma run_alias_steps: "run_steps (alias_steps vs) c = Inr (fold (alias_set vs) (alias_families (openai_key_name vs)) c)"
proof -
  have "run_steps (map (\<lambda>(field, ms) c. (case winning_alias_key vs ms of None \<Rightarrow> Inr c
      | Some key \<Rightarrow> Inr (alias_field_update field (setting_str vs key) c))) fms) c = Inr (fold (alias_set vs) fms c)" for fms
    by (induction fms arbitrary: c) (auto simp: alias_set_def split: option.splits)
  then show ?thesis by (simp add: alias_steps_def)
qed

abbreviation credential_fields :: "string set" where
  "credential_fields \<equiv> {''openai_api_key'', ''deepgram_api_key'', ''cartesia_api_key'', ''cartesia_voice_id''}"

lemma alias_update_credential:
  "f \<in> credential_fields \<Longrightarrow> f' \<in> credential_fields \<Longrightarrow>
     credential f (alias_field_update f' s c) = (if f = f' then Some s else credential f c)"
  by (elim insertE emptyE) (simp_all add: credential_def alias_field_update_def)

lemma alias_set_credential:
  assumes "f \<in> credential_fields" and "fst fm \<in> credential_fields" and "f \<noteq> fst fm"
  shows "credential f (alias_set vs fm c) = credential f c"
  using assms alias_update_credential by (simp add: alias_set_def split: option.splits)

lemma fold_alias_credential:
  assumes "f \<in> credential_fields" and "\<forall>fm \<in> set fms. fst fm \<in> credential_fields" and "distinct (map fst fms)" and "(f, ms) \<in> set fms"
    and "winning_alias_key vs ms = Some key"
  shows "credential f (fold (alias_set vs) fms c) = Some (setting_str vs key)"
  using assms
proof (induction fms arbitrary: c)
  case (Cons fm fms)
  show ?case
  proof (cases "fm = (f, ms)")
    case True
    have "credential f (fold (alias_set vs) fms d) = credential f d" if "f \<notin> fst ` set fms" "\<forall>fm \<in> set fms. fst fm \<in> credential_fields" for fms d
      using that by (induction fms arbitrary: d) (auto simp: alias_set_credential [OF assms(1)])
    then have "credential f (fold (alias_set vs) fms (alias_set vs fm c)) = credential f (alias_set vs fm c)"
      using Cons.prems(2,3) True by simp
    also have "\<dots> = Some (setting_str vs key)"
      using True Cons.prems(5) alias_update_credential [OF assms(1,1)] by (simp add: alias_set_def)
    finally show ?thesis by simp
  next
    case False
    then show ?thesis using Cons by simp
  qed
qed simp

text \<open>
  An ambient vendor credential never displaces a scoped one: when the merged settings carry a
  \<open>WEBSEARCH_\<close> spelling of a credential, set in any layer, a configuration that loads has its value,
  whatever bare spelling the process environment or the runtime-named variable supplies.
\<close>
theorem scoped_credential_wins:
  assumes load: "load_config pl doc file env = Inr c" and toml: "load_toml_values doc = Inr toml"
    and field: "(field, scoped, bare) \<in> set ALIAS_FAMILY_SPELLINGS"
    and given: "map_of (clear_inherited_reasoning_effort (merged_layers (layer_maps_of toml
        (map_option (\<lambda>f. text_layer (env_file_values f)) file) (text_layer env)))) scoped = Some (CStr s)" and s: "py_strip s \<noteq> []"
  shows "credential field c = Some s"
proof -
  obtain maps vs where l: "vs = clear_inherited_reasoning_effort (merged_layers (layer_maps_of toml
        (map_option (\<lambda>f. text_layer (env_file_values f)) file) (text_layer env)))"
    "run_steps (load_steps pl vs maps) (default_config pl) = Inr c"
    using load_config_result [OF load] toml by (metis sum.inject(2))
  obtain d where d: "run_steps (alias_steps vs) (default_config pl) = Inr d" "credentials_of c = credentials_of d"
    using loaded_credentials [OF l(2)] by blast
  have key: "map_of vs scoped = Some (CStr s)" using given l(1) by simp
  define named where "named = (case bare of None \<Rightarrow> openai_key_name vs | Some b \<Rightarrow> b)"
  have "(field, [(''scoped'', scoped), (''bare'', named)]) \<in> set (alias_families (openai_key_name vs))"
    unfolding alias_families_def set_map named_def using field by (intro rev_image_eqI [OF field]) simp
  moreover have "field \<in> credential_fields" using field unfolding ALIAS_FAMILY_SPELLINGS_def list.set
    by (elim insertE emptyE) simp_all
  moreover have "\<forall>fm \<in> set (alias_families (openai_key_name vs)). fst fm \<in> credential_fields"
    "distinct (map fst (alias_families (openai_key_name vs)))" by (simp_all add: alias_families_def ALIAS_FAMILY_SPELLINGS_def)
  moreover have "winning_alias_key vs [(''scoped'', scoped), (''bare'', named)] = Some scoped"
    using key s by (simp add: winning_alias_key_def family_key_set_def)
  ultimately have "credential field (fold (alias_set vs) (alias_families (openai_key_name vs)) (default_config pl)) = Some (setting_str vs scoped)"
    by (intro fold_alias_credential)
  then have "credential field d = Some (setting_str vs scoped)" using d(1) by (simp add: run_alias_steps)
  then have "credential field d = Some s" using key by (simp add: setting_str_def)
  then show ?thesis using credential_of [OF d(2)] by metis
qed


theorem scoped_credential_wins_witness:
  "\<exists>c. load_config sample_platform [] (Some (EnvMapping [(''WEBSEARCH_OPENAI_API_KEY'', ''mine'')])) [(''OPENAI_API_KEY'', ''ambient'')] = Inr c \<and>
     cf_openai_api_key c = Some ''mine''"
proof -
  let ?env = "[(''OPENAI_API_KEY'', ''ambient'')] :: (string, string) dict"
  let ?file = "Some (EnvMapping [(''WEBSEARCH_OPENAI_API_KEY'', ''mine'')])"
  let ?vs = "[(''WEBSEARCH_OPENAI_API_KEY'', CStr ''mine''), (''OPENAI_API_KEY'', CStr ''ambient'')]"
  let ?maps = "layer_maps_of [] (map_option (\<lambda>f. text_layer (env_file_values f)) ?file) (text_layer ?env)"
  let ?c = "default_config sample_platform\<lparr>cf_openai_api_key := Some ''mine''\<rparr>"
  have toml: "load_toml_values [] = Inr []" by code_simp
  have vs: "clear_inherited_reasoning_effort (merged_layers ?maps) = ?vs" by code_simp
  have run: "run_steps (load_steps sample_platform ?vs ?maps) (default_config sample_platform) = Inr ?c" by code_simp
  have c: "load_config sample_platform [] ?file ?env = Inr ?c"
    using load_by_steps [OF toml _ vs run] same_checks(2) default_checks by simp
  have field: "(''openai_api_key'', ''WEBSEARCH_OPENAI_API_KEY'', None) \<in> set ALIAS_FAMILY_SPELLINGS"
    by (simp add: ALIAS_FAMILY_SPELLINGS_def)
  have given: "map_of (clear_inherited_reasoning_effort (merged_layers ?maps)) ''WEBSEARCH_OPENAI_API_KEY'' = Some (CStr ''mine'')"
    unfolding vs by simp
  have "py_strip ''mine'' \<noteq> []" by code_simp
  from scoped_credential_wins [OF c toml field given this] show ?thesis using c by (simp add: credential_def)
qed

end
