(* ===== verification/Py_Regex.thy ===== *)
theory Py_Regex
  imports Py_Text
begin

text \<open>
  The regular expressions the coordinator uses, matched the way Python's \<open>re\<close> does: \<open>ends\<close> lists the
  positions at which a match may end, in the order in which the backtracking matcher tries them, together
  with the captured groups; the first one is the match. Repetition is of character classes only and
  greedy. Strings have characters with codes below 256.
\<close>

datatype rx =
    RChar "char \<Rightarrow> bool"
  | RRep "char \<Rightarrow> bool" nat "nat option"
  | REmpty
  | RSeq rx rx
  | RAlt rx rx
  | RBound
  | RLook rx
  | RGroup nat rx

definition word_char :: "char \<Rightarrow> bool" where
  "word_char c \<longleftrightarrow> id_start c \<or> is_digit c \<or> (of_char c :: nat) \<in> {178, 179, 185, 188, 189, 190}"

definition word_at :: "string \<Rightarrow> nat \<Rightarrow> bool" where
  "word_at s i \<longleftrightarrow> i < length s \<and> word_char (s ! i)"

type_synonym caps = "(nat \<times> nat \<times> nat) list"

definition run_length :: "(char \<Rightarrow> bool) \<Rightarrow> nat option \<Rightarrow> string \<Rightarrow> nat \<Rightarrow> nat" where
  "run_length p hi s i =
     (let n = length (takeWhile p (drop i s)) in case hi of None \<Rightarrow> n | Some h \<Rightarrow> min n h)"

fun ends :: "rx \<Rightarrow> string \<Rightarrow> nat \<times> caps \<Rightarrow> (nat \<times> caps) list" where
  "ends (RChar p) s (i, g) = (if i < length s \<and> p (s ! i) then [(i + 1, g)] else [])"
| "ends (RRep p lo hi) s (i, g) = map (\<lambda>k. (i + k, g)) (rev [lo..<run_length p hi s i + 1])"
| "ends REmpty s (i, g) = [(i, g)]"
| "ends (RSeq a b) s (i, g) = concat (map (ends b s) (ends a s (i, g)))"
| "ends (RAlt a b) s (i, g) = ends a s (i, g) @ ends b s (i, g)"
| "ends RBound s (i, g) = (if (0 < i \<and> word_at s (i - 1)) \<noteq> word_at s i then [(i, g)] else [])"
| "ends (RLook r) s (i, g) = (if ends r s (i, g) = [] then [] else [(i, g)])"
| "ends (RGroup n r) s (i, g) = map (\<lambda>(j, h). (j, (n, i, j) # h)) (ends r s (i, g))"

definition rmatch :: "rx \<Rightarrow> string \<Rightarrow> nat \<Rightarrow> (nat \<times> caps) option" where
  "rmatch r s i = (case ends r s (i, []) of [] \<Rightarrow> None | e # _ \<Rightarrow> Some e)"

definition fullmatch :: "rx \<Rightarrow> string \<Rightarrow> caps option" where
  "fullmatch r s = map_option snd (find (\<lambda>(j, g). j = length s) (ends r s (0, [])))"

definition group :: "string \<Rightarrow> caps \<Rightarrow> nat \<Rightarrow> string option" where
  "group s g n = map_option (\<lambda>(i, j). take (j - i) (drop i s)) (map_of g n)"

text \<open>The first match from a position on: its start and end.\<close>

definition search_from :: "rx \<Rightarrow> string \<Rightarrow> nat \<Rightarrow> (nat \<times> nat) option" where
  "search_from r s i =
     (case List.find (\<lambda>j. rmatch r s j \<noteq> None) [i..<length s + 1] of
        None \<Rightarrow> None
      | Some j \<Rightarrow> map_option (\<lambda>(k, g). (j, k)) (rmatch r s j))"

text \<open>\<open>split\<close> by an expression without empty matches; the first argument bounds the number of cuts.\<close>

fun split_from :: "nat \<Rightarrow> rx \<Rightarrow> string \<Rightarrow> nat \<Rightarrow> string list" where
  "split_from 0 r s i = [drop i s]"
| "split_from (Suc n) r s i =
     (case search_from r s i of
        None \<Rightarrow> [drop i s]
      | Some (j, k) \<Rightarrow> take (j - i) (drop i s) # split_from n r s k)"

definition rsplit :: "rx \<Rightarrow> string \<Rightarrow> string list" where
  "rsplit r s = split_from (length s) r s 0"

section \<open>Building blocks\<close>

text \<open>Literals match without regard to case.\<close>

definition same_letter :: "char \<Rightarrow> char \<Rightarrow> bool" where
  "same_letter x c \<longleftrightarrow> ascii_lower [c] = ascii_lower [x]"

fun lit :: "string \<Rightarrow> rx" where
  "lit [] = REmpty"
| "lit (x # xs) = RSeq (RChar (same_letter x)) (lit xs)"

fun seq :: "rx list \<Rightarrow> rx" where
  "seq [] = REmpty"
| "seq (r # rs) = RSeq r (seq rs)"

fun alts :: "rx list \<Rightarrow> rx" where
  "alts [] = RLook (RChar (\<lambda>_. False))"
| "alts [r] = r"
| "alts (r # q # rs) = RAlt r (alts (q # rs))"

definition opt :: "rx \<Rightarrow> rx" where
  "opt r = RAlt r REmpty"

definition spaces :: rx where
  "spaces = RRep is_space 0 None"

definition spaces1 :: rx where
  "spaces1 = RRep is_space 1 None"

definition one_of :: "string \<Rightarrow> rx" where
  "one_of cs = RChar (\<lambda>c. c \<in> set cs)"

end
