(* ===== verification/Arbitration.thy ===== *)
theory Arbitration
  imports Coordinator Py_Regex
begin

text \<open>
  How \<open>WorkItemCoordinator\<close> reads a transcript (\<open>server/work_item_coordinator.py\<close>): spoken control
  commands, the reply to a pending clarification, and \<open>arbitrate\<close>, which consumes the pending dialogue or
  asks the router. The router's model provider is an argument.
\<close>

section \<open>Expressions\<close>

definition SEPARATE_REQUEST_VERBS :: rx where
  "SEPARATE_REQUEST_VERBS =
     alts [lit ''search'', lit ''find'', seq [lit ''look'', spaces1, lit ''up''], lit ''check'', seq [lit ''show'', spaces1, lit ''me''],
       seq [lit ''tell'', spaces1, lit ''me''], lit ''get'', lit ''open'', lit ''create'', lit ''write'', lit ''summarize'']"

definition MULTI_INTENT_SEPARATOR :: rx where
  "MULTI_INTENT_SEPARATOR =
     seq [spaces, opt (seq [one_of '','', spaces]), RBound,
       alts [seq [lit ''and'', opt (seq [spaces1, alts [lit ''also'', lit ''then'']])], lit ''also''], spaces1,
       RLook (seq [opt (seq [lit ''please'', spaces1]), SEPARATE_REQUEST_VERBS, RBound])]"

definition IMPERATIVE_NEW_TOPIC :: rx where
  "IMPERATIVE_NEW_TOPIC = seq [opt (seq [alts [lit ''please'', lit ''also''], spaces1]), SEPARATE_REQUEST_VERBS, RBound]"

definition POLITE_NEW_TOPIC :: rx where
  "POLITE_NEW_TOPIC =
     seq [opt (seq [lit ''please'', spaces1]), alts [lit ''can'', lit ''could'', lit ''would'', lit ''will''], spaces1, lit ''you'', spaces1,
       opt (seq [lit ''please'', spaces1]), SEPARATE_REQUEST_VERBS, RBound]"

definition CONTROL_COMMAND :: rx where
  "CONTROL_COMMAND =
     seq [spaces, RGroup 1 (alts [lit ''pause'', lit ''resume'', lit ''cancel'', lit ''stop'', lit ''consent'']),
       opt (seq [spaces1, RGroup 2 (seq [lit ''work'', opt (seq [one_of ''-_ '', lit ''item'']), one_of ''-_ '',
         RRep (\<lambda>c. word_char c \<or> c = CHR ''-'') 1 (Some 128)])]),
       spaces, opt (one_of ''.!''), spaces]"

section \<open>Reading a transcript\<close>

definition replace_char :: "char \<Rightarrow> char \<Rightarrow> string \<Rightarrow> string" where
  "replace_char a b s = map (\<lambda>c. if c = a then b else c) s"

definition control_intent :: "string \<Rightarrow> (string \<times> string option) option" where
  "control_intent transcript =
     (case fullmatch CONTROL_COMMAND transcript of
        None \<Rightarrow> None
      | Some g \<Rightarrow>
          Some (ascii_lower (the (group transcript g 1)),
                (case group transcript g 2 of
                   None \<Rightarrow> None
                 | Some t \<Rightarrow> if t = [] then None else Some (replace_char CHR '' '' CHR ''_'' t))))"

datatype pending_reply = NewTopic | MultiIntent | SteerSameTopic | ContinuePending

definition pending_intent :: "string \<Rightarrow> pending_reply" where
  "pending_intent transcript =
     (let normalized = py_join '' '' (py_split (py_strip transcript)); lowered = ascii_lower normalized in
      if list_ex (\<lambda>p. starts_with p lowered) [''new question'', ''unrelated'', ''forget that''] then NewTopic
      else if (case search_from MULTI_INTENT_SEPARATOR normalized 0 of
                 None \<Rightarrow> False
               | Some (j, k) \<Rightarrow> strip_chars '' ,'' (take j normalized) \<noteq> []) then MultiIntent
      else if list_ex (\<lambda>p. starts_with p lowered) [''what about'', ''how about'', ''instead'', ''change that''] then SteerSameTopic
      else if list_ex (\<lambda>p. starts_with p lowered) [''who '', ''what '', ''when '', ''where '', ''why '', ''how ''] then NewTopic
      else if rmatch IMPERATIVE_NEW_TOPIC normalized 0 \<noteq> None \<or> rmatch POLITE_NEW_TOPIC normalized 0 \<noteq> None then NewTopic
      else ContinuePending)"

definition intent_parts :: "nat \<Rightarrow> string \<Rightarrow> string list" where
  "intent_parts limit transcript =
     take limit (filter (\<lambda>p. p \<noteq> []) (map py_strip (rsplit MULTI_INTENT_SEPARATOR transcript)))"

section \<open>Arbitration\<close>

record dispatch_outcome =
  do_kind :: string
  do_transcript :: string
  do_decision :: "routing_decision option"
  do_catalogue :: "worker_catalogue option"
  do_work_items :: "string list"
  do_control_action :: "string option"
  do_prose :: "string option"
  do_pending_dialogue :: "pending_dialogue option"

definition outcome_of :: "string \<Rightarrow> string \<Rightarrow> dispatch_outcome" where
  "outcome_of kind transcript =
     \<lparr>do_kind = kind, do_transcript = transcript, do_decision = None, do_catalogue = None, do_work_items = [],
      do_control_action = None, do_prose = None, do_pending_dialogue = None\<rparr>"

datatype arbitration_error = ArbitrationClosed | NoRegistryOrRouter | RouterRejected routing_error

type_synonym model_call = "worker_catalogue \<Rightarrow> string \<Rightarrow> routing_decision \<times> string option"

definition drop_pending :: "string \<Rightarrow> coordinator \<Rightarrow> coordinator" where
  "drop_pending session_id c = c\<lparr>co_pending := AList.delete session_id (co_pending c)\<rparr>"

definition arbitrate_control ::
    "instant \<Rightarrow> string \<Rightarrow> string \<Rightarrow> string \<times> string option \<Rightarrow> coordinator \<Rightarrow> coordinator \<times> dispatch_outcome" where
  "arbitrate_control now session_id transcript control c =
     (case pending now session_id c of
        (c, p) \<Rightarrow>
          (case (fst control = ''consent'', p) of
             (True, Some d) \<Rightarrow>
               (drop_pending session_id c,
                (outcome_of ''continue_pending'' transcript)\<lparr>do_work_items := [pd_owner_id d],
                  do_control_action := Some ''consent'', do_pending_dialogue := Some d\<rparr>)
           | _ \<Rightarrow>
               (c, (outcome_of ''control'' transcript)\<lparr>do_work_items := (case snd control of None \<Rightarrow> [] | Some t \<Rightarrow> [t]),
                  do_control_action := Some (fst control)\<rparr>)))"

definition arbitrate_route ::
    "string \<Rightarrow> registry option \<Rightarrow> model_call option \<Rightarrow> coordinator \<Rightarrow> coordinator \<times> (arbitration_error + dispatch_outcome)" where
  "arbitrate_route transcript registry router c =
     (case (registry, router) of
        (Some r, Some call) \<Rightarrow>
          (case route_envelope call transcript (catalogue r) of
             Inl e \<Rightarrow> (c, Inl (RouterRejected e))
           | Inr (d, prose) \<Rightarrow>
               (c, Inr ((outcome_of ''routed'' transcript)\<lparr>do_decision := Some d, do_catalogue := Some (catalogue r), do_prose := prose\<rparr>)))
      | _ \<Rightarrow> (c, Inl NoRegistryOrRouter))"

definition arbitrate ::
    "instant \<Rightarrow> string \<Rightarrow> string \<Rightarrow> registry option \<Rightarrow> model_call option \<Rightarrow> coordinator \<Rightarrow>
     coordinator \<times> (arbitration_error + dispatch_outcome)" where
  "arbitrate now session_id transcript registry router c =
     (if co_shutdown c then (c, Inl ArbitrationClosed)
      else
        case control_intent transcript of
          Some control \<Rightarrow> (case arbitrate_control now session_id transcript control c of (c, d) \<Rightarrow> (c, Inr d))
        | None \<Rightarrow>
            (case pending now session_id c of
               (c, None) \<Rightarrow> arbitrate_route transcript registry router c
             | (c, Some d) \<Rightarrow>
                 (case pending_intent transcript of
                    MultiIntent \<Rightarrow>
                      (drop_pending session_id c,
                       Inr ((outcome_of ''multi_intent'' transcript)\<lparr>do_work_items := intent_parts (co_max_work_items_per_turn c) transcript,
                         do_pending_dialogue := Some d\<rparr>))
                  | NewTopic \<Rightarrow> arbitrate_route transcript registry router c
                  | _ \<Rightarrow>
                      (drop_pending session_id c,
                       Inr ((outcome_of ''continue_pending'' transcript)\<lparr>do_work_items := [pd_owner_id d],
                         do_pending_dialogue := Some d\<rparr>)))))"

end
