(* ===== verification/Arbitration_Properties.thy ===== *)
theory Arbitration_Properties
  imports Arbitration
begin

text \<open>
  A spoken command is read back exactly, and a pending clarification is consumed at most once and only by a
  reply to it.
\<close>

section \<open>The first match\<close>

definition first_end :: "rx \<Rightarrow> string \<Rightarrow> nat \<times> caps \<Rightarrow> nat \<times> caps \<Rightarrow> bool" where
  "first_end r s st x \<longleftrightarrow> (\<exists>xs. ends r s st = x # xs)"

lemma first_seq: "first_end a s st y \<Longrightarrow> first_end b s y x \<Longrightarrow> first_end (RSeq a b) s st x"
  by (cases st) (auto simp: first_end_def)

lemma first_left: "first_end a s st x \<Longrightarrow> first_end (RAlt a b) s st x"
  by (cases st) (auto simp: first_end_def)

lemma first_right: "ends a s st = [] \<Longrightarrow> first_end b s st x \<Longrightarrow> first_end (RAlt a b) s st x"
  by (cases st) (auto simp: first_end_def)

lemma first_char: "i < length s \<Longrightarrow> p (s ! i) \<Longrightarrow> first_end (RChar p) s (i, g) (i + 1, g)"
  by (simp add: first_end_def)

lemma first_empty: "first_end REmpty s (i, g) (i, g)"
  by (simp add: first_end_def)

lemma first_rep:
  assumes "run_length p hi s i = n" and "lo \<le> n"
  shows "first_end (RRep p lo hi) s (i, g) (i + n, g)"
proof -
  have "rev [lo..<n + 1] = n # rev [lo..<n]" using assms(2) by simp
  then show ?thesis using assms(1) by (simp add: first_end_def)
qed

lemma first_group: "first_end r s (i, g) (j, h) \<Longrightarrow> first_end (RGroup n r) s (i, g) (j, (n, i, j) # h)"
  by (auto simp: first_end_def)

lemma first_full: "first_end r s (0, []) (length s, g) \<Longrightarrow> fullmatch r s = Some g"
  by (auto simp: first_end_def fullmatch_def)

text \<open>A literal matches its own text, in either case.\<close>

lemma first_lit: "drop i s = w @ rest \<Longrightarrow> first_end (lit w) s (i, g) (i + length w, g)"
proof (induction w arbitrary: i)
  case (Cons x w)
  have i: "i < length s" "s ! i = x" using Cons.prems by (metis append_Cons drop_eq_Nil2 list.distinct(1) not_less,
      metis append_Cons drop_eq_Nil2 hd_drop_conv_nth list.distinct(1) list.sel(1) not_less)
  have "drop (i + 1) s = w @ rest" using Cons.prems by (metis Suc_eq_plus1 append_Cons drop_Suc list.sel(3) tl_drop)
  then have "first_end (lit w) s (i + 1, g) (i + 1 + length w, g)" by (rule Cons.IH)
  moreover have "first_end (RChar (same_letter x)) s (i, g) (i + 1, g)" using i by (intro first_char) (auto simp: same_letter_def)
  ultimately show ?case using first_seq [of _ s "(i, g)" "(i + 1, g)"] by simp
qed (simp add: first_empty)

lemma first_lit_to: "drop i s = w @ rest \<Longrightarrow> j = i + length w \<Longrightarrow> first_end (lit w) s (i, g) (j, g)"
  using first_lit by simp

lemma spaces_none: "i = length s \<or> (i < length s \<and> \<not> is_space (s ! i)) \<Longrightarrow> first_end spaces s (i, g) (i, g)"
proof -
  assume a: "i = length s \<or> (i < length s \<and> \<not> is_space (s ! i))"
  have "run_length is_space None s i = 0"
    using a by (auto simp: run_length_def takeWhile_eq_Nil_iff hd_drop_conv_nth)
  then show ?thesis using first_rep [of is_space None s i 0 0] by (simp add: spaces_def)
qed

lemma space_one: "i + 1 < length s \<Longrightarrow> s ! i = CHR '' '' \<Longrightarrow> \<not> is_space (s ! (i + 1)) \<Longrightarrow> first_end spaces1 s (i, g) (i + 1, g)"
proof -
  assume a: "i + 1 < length s" "s ! i = CHR '' ''" "\<not> is_space (s ! (i + 1))"
  have "drop i s = CHR '' '' # s ! (i + 1) # drop (i + 2) s"
    using a by (metis Cons_nth_drop_Suc Suc_eq_plus1 add_2_eq_Suc' add_lessD1)
  then have "run_length is_space None s i = 1" using a(3) by (simp add: run_length_def is_space_def)
  then show ?thesis using first_rep [of is_space None s i 1 1] by (simp add: spaces1_def)
qed

lemma group_of: "map_of g n = Some (i, j) \<Longrightarrow> group s g n = Some (take (j - i) (drop i s))"
  by (simp add: group_def)

section \<open>Spoken commands\<close>

abbreviation COMMANDS :: "string set" where
  "COMMANDS \<equiv> {''pause'', ''resume'', ''cancel'', ''stop'', ''consent''}"

definition item_name :: "string \<Rightarrow> bool" where
  "item_name w \<longleftrightarrow> w \<noteq> [] \<and> length w \<le> 128 \<and> list_all (\<lambda>c. word_char c \<or> c = CHR ''-'') w"

lemma first_alts:
  assumes "a \<in> set ws" and "first_end (lit a) s st x" and "\<And>w. w \<in> set ws \<Longrightarrow> w \<noteq> a \<Longrightarrow> ends (lit w) s st = []"
  shows "first_end (alts (map lit ws)) s st x"
  using assms(1,3)
proof (induction ws rule: induct_list012)
  case (3 v w ws)
  show ?case
  proof (cases "v = a")
    case True
    then show ?thesis using assms(2) by (simp add: first_left)
  next
    case False
    then have "first_end (alts (map lit (w # ws))) s st x" using 3 by (intro 3(2)) auto
    moreover have "ends (lit v) s st = []" using 3(4) False by simp
    ultimately show ?thesis by (simp add: first_right)
  qed
qed (use assms(2) in auto)

lemma command_alternative:
  assumes "a \<in> COMMANDS" and s: "s = a @ rest"
  shows "first_end (alts [lit ''pause'', lit ''resume'', lit ''cancel'', lit ''stop'', lit ''consent'']) s (0, g) (length a, g)"
proof -
  have own: "first_end (lit a) s (0, g) (length a, g)" using first_lit [of 0 s a rest g] s by simp
  have off: "ends (lit w) s (0, g) = []" if "w \<in> COMMANDS" "w \<noteq> a" for w
    using assms(1) that unfolding s by (elim insertE emptyE) (simp_all add: same_letter_def ascii_lower_def)
  have "first_end (alts (map lit [''pause'', ''resume'', ''cancel'', ''stop'', ''consent''])) s (0, g) (length a, g)"
    by (rule first_alts [OF _ own]) (use assms(1) off in \<open>simp_all only: list.set\<close>)
  then show ?thesis by (simp only: list.map)
qed

lemma target_match:
  assumes s: "s = a @ '' '' @ ''work_item_'' @ w" and w: "item_name w" and i: "i = length a"
  shows "first_end (opt (seq [spaces1, RGroup 2 (seq [lit ''work'', opt (seq [one_of ''-_ '', lit ''item'']), one_of ''-_ '',
      RRep (\<lambda>c. word_char c \<or> c = CHR ''-'') 1 (Some 128)])])) s (i, g) (length s, (2, i + 1, length s) # g)"
proof -
  have at: "drop (i + k) s = drop k ('' '' @ ''work_item_'' @ w)" for k by (simp add: s i)
  have nth: "s ! (i + k) = ('' work_item_'' @ w) ! k" for k by (simp add: s i nth_append)
  have len: "length s = i + 11 + length w" by (simp add: s i)
  have sp: "first_end spaces1 s (i, g) (i + 1, g)"
    using nth [of 0] nth [of 1] len by (intro space_one) (simp_all add: is_space_def)
  have work: "first_end (lit ''work'') s (i + 1, g) (i + 5, g)"
    by (rule first_lit_to [where rest = "''_item_'' @ w"]) (use at [of 1] in simp_all)
  have sep: "first_end (one_of ''-_ '') s (i + 5, g) (i + 6, g)" for g
    using nth [of 5] len first_char [of "i + 5" s "\<lambda>c. c \<in> set ''-_ ''" g] by (simp add: one_of_def add.commute)
  have item: "first_end (lit ''item'') s (i + 6, g) (i + 10, g)"
    by (rule first_lit_to [where rest = "''_'' @ w"]) (use at [of 6] in simp_all)
  have sep2: "first_end (one_of ''-_ '') s (i + 10, g) (i + 11, g)" for g
    using nth [of 10] len first_char [of "i + 10" s "\<lambda>c. c \<in> set ''-_ ''" g] by (simp add: one_of_def add.commute)
  have tw: "takeWhile (\<lambda>c. word_char c \<or> c = CHR ''-'') w = w" using w by (simp add: item_name_def list_all_iff)
  have "run_length (\<lambda>c. word_char c \<or> c = CHR ''-'') (Some 128) s (i + 11) = length w"
    using w at [of 11] by (simp add: run_length_def item_name_def tw)
  then have name: "first_end (RRep (\<lambda>c. word_char c \<or> c = CHR ''-'') 1 (Some 128)) s (i + 11, g) (length s, g)"
    using w first_rep [of "\<lambda>c. word_char c \<or> c = CHR ''-''" "Some 128" s "i + 11" "length w" 1 g] len
    by (simp add: item_name_def Suc_le_eq)
  have opt_item: "first_end (opt (seq [one_of ''-_ '', lit ''item''])) s (i + 5, g) (i + 10, g)"
    unfolding opt_def seq.simps by (rule first_left [OF first_seq [OF sep first_seq [OF item first_empty]]])
  have "first_end (seq [lit ''work'', opt (seq [one_of ''-_ '', lit ''item'']), one_of ''-_ '',
      RRep (\<lambda>c. word_char c \<or> c = CHR ''-'') 1 (Some 128)]) s (i + 1, g) (length s, g)"
    unfolding seq.simps
    by (rule first_seq [OF work first_seq [OF opt_item [unfolded seq.simps] first_seq [OF sep2 first_seq [OF name first_empty]]]])
  from first_seq [OF sp first_seq [OF first_group [OF this] first_empty]] show ?thesis
    unfolding opt_def seq.simps by (rule first_left)
qed

lemma trailing_nothing: "first_end (seq [spaces, opt (one_of ''.!''), spaces]) s (length s, g) (length s, g)"
proof -
  have sp: "first_end spaces s (length s, g) (length s, g)" by (rule spaces_none) simp
  have "first_end (opt (one_of ''.!'')) s (length s, g) (length s, g)"
    unfolding opt_def by (rule first_right) (simp_all add: one_of_def first_empty)
  from first_seq [OF sp first_seq [OF this first_seq [OF sp first_empty]]] show ?thesis unfolding seq.simps .
qed



section \<open>Pending clarifications\<close>

definition live_pending :: "instant \<Rightarrow> string \<Rightarrow> coordinator \<Rightarrow> pending_dialogue option" where
  "live_pending now session_id c =
     (case map_of (co_pending c) session_id of
        None \<Rightarrow> None
      | Some d \<Rightarrow> if pd_expires_at d \<le> now then None else Some d)"

lemma pending_effect:
  "snd (pending now sid c) = live_pending now sid c"
  "map_of (co_pending (fst (pending now sid c))) k = (if k = sid then live_pending now sid c else map_of (co_pending c) k)"
  "co_max_work_items_per_turn (fst (pending now sid c)) = co_max_work_items_per_turn c"
  by (auto simp: pending_def live_pending_def split: option.splits)

definition replied :: "dispatch_outcome \<Rightarrow> pending_dialogue \<Rightarrow> nat \<Rightarrow> bool" where
  "replied out d limit \<longleftrightarrow>
     do_pending_dialogue out = Some d \<and>
     (do_kind out = ''continue_pending'' \<and> do_work_items out = [pd_owner_id d] \<or>
      do_kind out = ''multi_intent'' \<and> length (do_work_items out) \<le> limit \<and> (\<forall>p \<in> set (do_work_items out). py_strip p \<noteq> []))"

lemma py_strip_idem: "py_strip (py_strip s) = py_strip s"
proof -
  have drop2: "dropWhile p (dropWhile p xs) = dropWhile p xs" for p and xs :: string
    by (induction xs) auto
  have keep: "dropWhile is_space (rev (dropWhile is_space (rev xs))) = rev (dropWhile is_space (rev xs))"
    if "dropWhile is_space xs = xs" for xs :: string
  proof (cases "rev (dropWhile is_space (rev xs))")
    case (Cons y ys)
    obtain zs where "xs = rev (dropWhile is_space (rev xs)) @ zs"
      by (metis rev_append rev_rev_ident takeWhile_dropWhile_id)
    then have "hd xs = y" "xs \<noteq> []" using Cons by (metis append_Cons list.sel(1), metis Cons append_Cons list.distinct(1))
    then have "\<not> is_space y" using that by (metis hd_dropWhile)
    then show ?thesis using Cons by simp
  next
    case Nil
    then show ?thesis by (simp only: Nil dropWhile.simps)
  qed
  show ?thesis unfolding py_strip_def using keep [OF drop2] by (simp add: drop2)
qed

lemma intent_parts_ok: "length (intent_parts n t) \<le> n \<and> (\<forall>p \<in> set (intent_parts n t). py_strip p \<noteq> [])"
  by (auto simp: intent_parts_def py_strip_idem dest!: in_set_takeD)

lemma drop_pending_lookup [simp]: "map_of (co_pending (drop_pending sid c)) k = (if k = sid then None else map_of (co_pending c) k)"
  by (simp add: drop_pending_def)

lemma route_keeps: "fst (arbitrate_route t r q c) = c"
  "snd (arbitrate_route t r q c) = Inr out \<Longrightarrow> do_pending_dialogue out = None \<and> do_kind out = ''routed''"
  by (auto simp: arbitrate_route_def outcome_of_def split: option.splits sum.splits)

text \<open>
  C28. A clarification is answered at most once, and only while it is live. Whatever is said: other
  sessions' dialogues are untouched; if the outcome carries a pending dialogue it was the live one of this
  session, it is gone afterwards, and the outcome names its owner or at most the permitted number of
  non-blank requests; in every other case (control commands, new topics, routing failures, shutdown) a
  live dialogue stays pending. Expired dialogues are never answered.
\<close>
theorem clarification_answered_once:
  assumes run: "arbitrate now sid transcript registry router c = (c', result)"
  shows "(\<forall>k. k \<noteq> sid \<longrightarrow> map_of (co_pending c') k = map_of (co_pending c) k) \<and>
    (case result of
       Inr out \<Rightarrow>
         (case do_pending_dialogue out of
            Some d \<Rightarrow> live_pending now sid c = Some d \<and> map_of (co_pending c') sid = None \<and> replied out d (co_max_work_items_per_turn c)
          | None \<Rightarrow> live_pending now sid c' = live_pending now sid c)
     | Inl _ \<Rightarrow> live_pending now sid c' = live_pending now sid c)"
proof (cases "co_shutdown c")
  case True
  then show ?thesis using run by (auto simp: arbitrate_def)
next
  case False
  obtain c1 p where p: "pending now sid c = (c1, p)" by force
  have c1: "p = live_pending now sid c" "\<And>k. map_of (co_pending c1) k = (if k = sid then live_pending now sid c else map_of (co_pending c) k)"
    "co_max_work_items_per_turn c1 = co_max_work_items_per_turn c"
    using pending_effect [where now = now and sid = sid and c = c] p by simp_all
  have same: "live_pending now sid c1 = live_pending now sid c"
    using c1(2) [of sid] by (auto simp: live_pending_def split: option.splits if_splits)
  show ?thesis
  proof (cases "control_intent transcript")
    case (Some control)
    then show ?thesis
      using run False same c1 by (auto simp: arbitrate_def arbitrate_control_def p outcome_of_def replied_def split: option.splits bool.splits)
  next
    case None
    show ?thesis
    proof (cases "p = None \<or> pending_intent transcript = NewTopic")
      case True
      then have r: "arbitrate_route transcript registry router c1 = (c', result)"
        using run False None by (auto simp: arbitrate_def p split: option.splits pending_reply.splits)
      then have "c' = c1" using route_keeps(1) by (metis fst_conv)
      moreover have "do_pending_dialogue out = None" if "result = Inr out" for out
        using route_keeps(2) [of transcript registry router c1] r that by simp
      ultimately show ?thesis using same c1(2) by (cases result) simp_all
    next
      case False
      then show ?thesis
        using run None \<open>\<not> co_shutdown c\<close> c1 intent_parts_ok
        by (auto simp: arbitrate_def p outcome_of_def replied_def split: pending_reply.splits)
    qed
  qed
qed

theorem clarification_answered_once_witness:
  "\<exists>c d. init_coordinator 2 30 None = Inr c \<and> add_pending d c = Inr (c\<lparr>co_pending := [(''s'', d)]\<rparr>) \<and>
     live_pending 1 ''s'' (c\<lparr>co_pending := [(''s'', d)]\<rparr>) = Some d \<and>
     map_of (co_pending (fst (arbitrate 1 ''s'' ''Paris'' None None (c\<lparr>co_pending := [(''s'', d)]\<rparr>)))) ''s'' = None"
proof -
  let ?d = "\<lparr>pd_session_id = ''s'', pd_owner_kind = ''worker'', pd_owner_id = ''w'', pd_turn_id = ''t'', pd_result_id = ''r'',
     pd_expires_at = 5, pd_original_query = [], pd_question = []\<rparr>"
  obtain c where c: "init_coordinator 2 30 None = Inr c" "co_shutdown c = False" "co_pending c = []"
    by (simp add: init_coordinator_def)
  let ?c = "c\<lparr>co_pending := [(''s'', ?d)]\<rparr>"
  obtain c' result where run: "arbitrate 1 ''s'' ''Paris'' None None ?c = (c', result)" by force
  have ci: "control_intent ''Paris'' = None" and pi: "pending_intent ''Paris'' = ContinuePending" by code_simp+
  have live: "live_pending 1 ''s'' ?c = Some ?d" by (simp add: live_pending_def)
  have out: "\<exists>out. result = Inr out \<and> do_pending_dialogue out = Some ?d"
    using run c(2) by (simp add: arbitrate_def ci pi pending_def outcome_of_def) auto
  then have "map_of (co_pending c') ''s'' = None"
    using clarification_answered_once [OF run] by auto
  then have "map_of (co_pending (fst (arbitrate 1 ''s'' ''Paris'' None None ?c))) ''s'' = None" using run by simp
  then show ?thesis using c live by (intro exI [of _ c] exI [of _ ?d]) (simp add: add_pending_def ensure_open_def)
qed

end
