(* ===== verification/Http_Gate.thy ===== *)
theory Http_Gate
  imports Connection Configuration
begin

text \<open>
  The request checks of \<open>server/app.py\<close>: percent encoding of the raw query, the capability list, the
  handshake carried by the URL, and the origin of local requests. A request carries its raw query string,
  the decoded query parameters in order (the framework's decoding is outside; \<open>get\<close> of a repeated name
  gives the last value), and its headers. Texts have characters with codes below 256, so a JSON escape
  beyond that range does not occur.
\<close>

datatype http_error = BadRequest | Unauthorized | Forbidden

record http_request =
  rq_method :: string
  rq_raw_query :: string
  rq_query_params :: "(string \<times> string) list"
  rq_headers :: "(string, string) dict"

definition query_get :: "http_request \<Rightarrow> string \<Rightarrow> string option" where
  "query_get rq name = map_of (rev (rq_query_params rq)) name"

definition query_getlist :: "http_request \<Rightarrow> string \<Rightarrow> string list" where
  "query_getlist rq name = map snd (filter (\<lambda>(n, v). n = name) (rq_query_params rq))"

section \<open>Percent encoding\<close>

definition is_hex :: "char \<Rightarrow> bool" where
  "is_hex c \<longleftrightarrow> hex_value c \<noteq> None"

fun validate_raw_percent_encoding :: "string \<Rightarrow> bool" where
  "validate_raw_percent_encoding [] \<longleftrightarrow> True"
| "validate_raw_percent_encoding (c # cs) \<longleftrightarrow>
     (if c = CHR ''%'' then
        (case cs of
           a # b # rest \<Rightarrow> is_hex a \<and> is_hex b \<and> validate_raw_percent_encoding rest
         | _ \<Rightarrow> False)
      else validate_raw_percent_encoding cs)"

section \<open>Capabilities\<close>

definition MAX_CAPABILITY_ENTRIES :: nat where
  "MAX_CAPABILITY_ENTRIES = 16"

definition MAX_CAPABILITY_NAME_LENGTH :: nat where
  "MAX_CAPABILITY_NAME_LENGTH = 64"

definition MAX_CAPABILITY_FIELD_LENGTH :: nat where
  "MAX_CAPABILITY_FIELD_LENGTH = 2 + MAX_CAPABILITY_ENTRIES * (MAX_CAPABILITY_NAME_LENGTH + 3)"

definition json_space :: "char \<Rightarrow> bool" where
  "json_space c \<longleftrightarrow> c \<in> {CHR '' '', CHR 0x09, CHR 0x0A, CHR 0x0D}"

definition json_escape :: "char \<Rightarrow> char option" where
  "json_escape e =
     map_of [(CHR 0x22, CHR 0x22), (CHR 0x5C, CHR 0x5C), (CHR ''/'', CHR ''/''), (CHR ''b'', CHR 0x08), (CHR ''f'', CHR 0x0C),
       (CHR ''n'', CHR 0x0A), (CHR ''r'', CHR 0x0D), (CHR ''t'', CHR 0x09)] e"

text \<open>The rest of a JSON string after its opening quote: its value and what follows the closing quote.\<close>

fun json_string :: "string \<Rightarrow> (string \<times> string) option" where
  "json_string [] = None"
| "json_string (c # cs) =
     (if c = CHR 0x22 then Some ([], cs)
      else if c = CHR 0x5C then
        (case cs of
           [] \<Rightarrow> None
         | e # rest \<Rightarrow>
             if e = CHR ''u'' then
               (case rest of
                  h1 # h2 # h3 # h4 # more_text \<Rightarrow>
                    (case hextets [[h1, h2, h3, h4]] of
                       Some [n] \<Rightarrow>
                         if n < 256 then map_option (\<lambda>(s, r). (char_of n # s, r)) (json_string more_text) else None
                     | _ \<Rightarrow> None)
                | _ \<Rightarrow> None)
             else
               (case json_escape e of
                  None \<Rightarrow> None
                | Some d \<Rightarrow> map_option (\<lambda>(s, r). (d # s, r)) (json_string rest)))
      else if (of_char c :: nat) < 32 then None
      else map_option (\<lambda>(s, r). (c # s, r)) (json_string cs))"

text \<open>
  \<open>json.loads\<close> as far as the caller can tell: the list when the text is an array of strings; every other
  value, and every malformed text, is answered the same way. The first argument bounds the entries read.
\<close>

fun json_entries :: "nat \<Rightarrow> string \<Rightarrow> (string list \<times> string) option" where
  "json_entries 0 t = None"
| "json_entries (Suc n) t =
     (case dropWhile json_space t of
        [] \<Rightarrow> None
      | q # rest \<Rightarrow>
          if q \<noteq> CHR 0x22 then None
          else
            case json_string rest of
              None \<Rightarrow> None
            | Some (s, after_string) \<Rightarrow>
                (case dropWhile json_space after_string of
                   [] \<Rightarrow> None
                 | d # more_text \<Rightarrow>
                     if d = CHR 0x5D then Some ([s], more_text)
                     else if d = CHR '','' then map_option (\<lambda>(ss, r). (s # ss, r)) (json_entries n more_text)
                     else None))"

definition json_string_array :: "string \<Rightarrow> string list option" where
  "json_string_array t =
     (case dropWhile json_space t of
        [] \<Rightarrow> None
      | b # rest \<Rightarrow>
          if b \<noteq> CHR 0x5B then None
          else
            case (case dropWhile json_space rest of
                    [] \<Rightarrow> None
                  | d # more_text \<Rightarrow> if d = CHR 0x5D then Some ([], more_text) else json_entries (length rest) rest) of
              None \<Rightarrow> None
            | Some (ss, after_array) \<Rightarrow> if list_all json_space after_array then Some ss else None)"

definition decode_capabilities :: "http_request \<Rightarrow> http_error + string list \<times> bool" where
  "decode_capabilities rq =
     (case query_getlist rq ''capabilities'' of
        [] \<Rightarrow> Inr ([], False)
      | [value] \<Rightarrow>
          if MAX_CAPABILITY_FIELD_LENGTH < length value then Inl BadRequest
          else
            (case json_string_array value of
               None \<Rightarrow> Inl BadRequest
             | Some decoded \<Rightarrow>
                 if MAX_CAPABILITY_ENTRIES < length decoded \<or>
                    list_ex (\<lambda>item. item = [] \<or> MAX_CAPABILITY_NAME_LENGTH < length item) decoded
                 then Inl BadRequest else Inr (decoded, True))
      | _ \<Rightarrow> Inl BadRequest)"

section \<open>The handshake in the URL\<close>

definition query_int :: "string option \<Rightarrow> nat option" where
  "query_int v =
     (case v of
        None \<Rightarrow> None
      | Some s \<Rightarrow> (case parse_int s of Inl _ \<Rightarrow> None | Inr n \<Rightarrow> if n < 0 then None else Some (nat n)))"

definition build_handshake :: "http_request \<Rightarrow> string list \<Rightarrow> bool \<Rightarrow> snapshot_handshake option" where
  "build_handshake rq capabilities present =
     (case (query_get rq ''session_id'', query_get rq ''resume_token'', query_int (query_get rq ''proposed_epoch''),
            query_int (Some (case query_get rq ''snapshot_sequence'' of None \<Rightarrow> ''0'' | Some s \<Rightarrow> s)), validate_capabilities capabilities) of
        (Some sid, Some token, Some epoch, Some sequence, Inr caps) \<Rightarrow>
          Some \<lparr>hs_contract_version = (case query_get rq ''contract_version'' of None \<Rightarrow> CONTRACT_VERSION | Some v \<Rightarrow> v),
                hs_session_id = sid, hs_resume_token = token, hs_proposed_epoch = epoch, hs_snapshot_sequence = sequence,
                hs_capabilities = caps, hs_capabilities_present = present\<rparr>
      | _ \<Rightarrow> None)"

definition handshake_from_query ::
    "string \<Rightarrow> string \<Rightarrow> instant \<Rightarrow> http_request \<Rightarrow> handshake_tokens \<Rightarrow> handshake_tokens \<times> (http_error + snapshot_handshake)" where
  "handshake_from_query session_id resume_token now rq g =
     (if \<not> validate_raw_percent_encoding (rq_raw_query rq) then (g, Inl BadRequest)
      else
        case decode_capabilities rq of
          Inl e \<Rightarrow> (g, Inl e)
        | Inr (capabilities, present) \<Rightarrow>
            (case build_handshake rq capabilities present of
               None \<Rightarrow> (g, Inl BadRequest)
             | Some h \<Rightarrow>
                 if hs_session_id h \<noteq> session_id then (g, Inl Unauthorized)
                 else
                   (case validate_handshake_token (hs_resume_token h) now (hs_proposed_epoch h) (rq_method rq = ''POST'') g of
                      (g, False) \<Rightarrow> (g, Inl Unauthorized)
                    | (g, True) \<Rightarrow> (g, Inr (h\<lparr>hs_resume_token := resume_token\<rparr>)))))"

section \<open>The origin of local requests\<close>

definition LOOPBACK_HOSTS :: "string list" where
  "LOOPBACK_HOSTS = [''127.0.0.1'', ''localhost'', ''::1'']"

text \<open>\<open>None\<close> is the \<open>ValueError\<close> of a port that is not a number in range.\<close>

definition url_port :: "string \<Rightarrow> nat option option" where
  "url_port netloc =
     (case snd (host_info netloc) of
        None \<Rightarrow> Some None
      | Some p \<Rightarrow> if all_digits p \<and> read_nat p \<le> 65535 then Some (Some (read_nat p)) else None)"

definition effective_port :: "string \<Rightarrow> nat option \<Rightarrow> nat" where
  "effective_port scheme port =
     (case port of
        Some p \<Rightarrow> if p \<noteq> 0 then p else if scheme = ''https'' then 443 else 80
      | None \<Rightarrow> if scheme = ''https'' then 443 else 80)"

definition allowed_hosts :: "string \<Rightarrow> string option set" where
  "allowed_hosts configured_netloc =
     (let h = url_hostname configured_netloc in
      insert h (if h \<in> Some ` set LOOPBACK_HOSTS then Some ` set LOOPBACK_HOSTS else {}))"

definition allowed_origin :: "platform \<Rightarrow> string \<times> string \<Rightarrow> string \<Rightarrow> bool" where
  "allowed_origin pl configured value =
     (case url_scheme_netloc (pl_bracketed_ok pl) value of
        None \<Rightarrow> False
      | Some (scheme, netloc) \<Rightarrow>
          (case (url_port netloc, url_port (snd configured)) of
             (Some p, Some q) \<Rightarrow>
               scheme = fst configured \<and> url_hostname netloc \<in> allowed_hosts (snd configured) \<and>
               effective_port scheme p = effective_port (fst configured) q
           | _ \<Rightarrow> False))"

definition require_local_origin :: "platform \<Rightarrow> string \<times> string \<Rightarrow> http_request \<Rightarrow> http_error + unit" where
  "require_local_origin pl configured rq =
     (if truthy (map_of (rq_headers rq) ''origin'') then
        (if allowed_origin pl configured (the (map_of (rq_headers rq) ''origin'')) then Inr () else Inl Forbidden)
      else if map_of (rq_headers rq) ''sec-fetch-site'' \<noteq> Some ''same-origin'' \<or>
              \<not> allowed_origin pl configured
                 (fst configured @ ''://'' @ (case map_of (rq_headers rq) ''host'' of None \<Rightarrow> [] | Some h \<Rightarrow> h))
      then Inl Forbidden else Inr ())"

section \<open>Properties\<close>

text \<open>The grammar of a raw query: plain characters and escapes of two hexadecimal digits.\<close>

inductive percent_encoded :: "string \<Rightarrow> bool" where
  pe_end: "percent_encoded []"
| pe_plain: "c \<noteq> CHR ''%'' \<Longrightarrow> percent_encoded s \<Longrightarrow> percent_encoded (c # s)"
| pe_escape: "is_hex a \<Longrightarrow> is_hex b \<Longrightarrow> percent_encoded s \<Longrightarrow> percent_encoded (CHR ''%'' # a # b # s)"

inductive_cases percent_encodedE: "percent_encoded (c # s)"

lemma percent_encoding_exact: "validate_raw_percent_encoding s \<longleftrightarrow> percent_encoded s"
proof
  show "validate_raw_percent_encoding s \<Longrightarrow> percent_encoded s"
    by (induction s rule: validate_raw_percent_encoding.induct)
      (auto intro: percent_encoded.intros split: if_splits list.splits)
  show "percent_encoded s \<Longrightarrow> validate_raw_percent_encoding s"
    by (induction rule: percent_encoded.induct) auto
qed

lemma capabilities_bounded:
  "decode_capabilities rq = Inr (caps, present) \<Longrightarrow>
     length caps \<le> 16 \<and> (\<forall>c \<in> set caps. c \<noteq> [] \<and> length c \<le> 64) \<and> (present \<or> caps = [])"
  by (auto simp: decode_capabilities_def MAX_CAPABILITY_ENTRIES_def MAX_CAPABILITY_NAME_LENGTH_def list_ex_iff
      split: list.splits option.splits if_splits)

lemma build_handshake_fields:
  "build_handshake rq caps present = Some h \<Longrightarrow>
     hs_capabilities h = sort (remdups caps) \<and> hs_capabilities_present h = present \<and>
     query_get rq ''session_id'' = Some (hs_session_id h) \<and> query_get rq ''resume_token'' = Some (hs_resume_token h)"
  by (auto simp: build_handshake_def validate_capabilities_def split: option.splits sum.splits if_splits)

lemma token_accepted:
  "validate_handshake_token t now e redeem g = (g', True) \<Longrightarrow>
     \<exists>expires. now < expires \<and> map_of (prune_handshake_tokens now g) t = Some (e, expires, \<not> redeem) \<and> map_of g' t = Some (e, expires, True)"
  by (auto simp: validate_handshake_token_def Let_def split: if_splits option.splits)

text \<open>
  The URL handshake spends a token only on a request it accepts or refuses for its identity. A request
  answered 400, or naming another session, leaves every token as it was; an accepted one names this
  session, presents a live token minted for its epoch, marks it redeemed when it is a POST, requires it to
  be redeemed already otherwise, and carries the server's own resume token and at most 16 distinct sorted
  capabilities of 1 to 64 characters.
\<close>
theorem handshake_spends_no_token_on_malformed:
  assumes "handshake_from_query sid secret now rq g = (g', r)"
  shows "(r = Inl BadRequest \<longrightarrow> g' = g) \<and> (query_get rq ''session_id'' \<noteq> Some sid \<longrightarrow> g' = g \<and> (\<exists>e. r = Inl e)) \<and>
    (\<forall>h. r = Inr h \<longrightarrow>
       hs_session_id h = sid \<and> hs_resume_token h = secret \<and>
       length (hs_capabilities h) \<le> 16 \<and> sorted (hs_capabilities h) \<and> distinct (hs_capabilities h) \<and>
       (\<forall>c \<in> set (hs_capabilities h). c \<noteq> [] \<and> length c \<le> 64) \<and>
       (\<exists>token expires.
          query_get rq ''resume_token'' = Some token \<and> now < expires \<and>
          map_of (prune_handshake_tokens now g) token = Some (hs_proposed_epoch h, expires, rq_method rq \<noteq> ''POST'') \<and>
          map_of g' token = Some (hs_proposed_epoch h, expires, True)))"
proof (cases "validate_raw_percent_encoding (rq_raw_query rq)")
  case False
  then show ?thesis using assms by (auto simp: handshake_from_query_def)
next
  case ok: True
  show ?thesis
  proof (cases "decode_capabilities rq")
    case (Inl e)
    then show ?thesis using assms ok by (auto simp: handshake_from_query_def)
  next
    case (Inr d)
    obtain caps present where d: "decode_capabilities rq = Inr (caps, present)" using Inr by (metis prod.exhaust)
    show ?thesis
    proof (cases "build_handshake rq caps present")
      case None
      then show ?thesis using assms ok d by (auto simp: handshake_from_query_def)
    next
      case (Some h)
      note f = build_handshake_fields [OF Some]
      have caps: "length (hs_capabilities h) \<le> 16" "\<forall>c \<in> set (hs_capabilities h). c \<noteq> [] \<and> length c \<le> 64"
        using capabilities_bounded [OF d] f by (auto intro: order_trans [OF length_remdups_leq])
      have run: "(g', r) = (if hs_session_id h \<noteq> sid then (g, Inl Unauthorized)
          else case validate_handshake_token (hs_resume_token h) now (hs_proposed_epoch h) (rq_method rq = ''POST'') g of
            (g, False) \<Rightarrow> (g, Inl Unauthorized) | (g, True) \<Rightarrow> (g, Inr (h\<lparr>hs_resume_token := secret\<rparr>)))"
        using assms ok d Some by (simp add: handshake_from_query_def)
      show ?thesis
      proof (cases "hs_session_id h = sid")
        case False
        then show ?thesis using run f by simp
      next
        case sid: True
        obtain t b where v: "validate_handshake_token (hs_resume_token h) now (hs_proposed_epoch h) (rq_method rq = ''POST'') g = (t, b)"
          by force
        show ?thesis
        proof (cases b)
          case True
          then have "g' = t" "r = Inr (h\<lparr>hs_resume_token := secret\<rparr>)" using run sid v by simp_all
          then show ?thesis using token_accepted v True sid caps f by (simp add: exI)
        next
          case False
          then show ?thesis using run sid v f by simp
        qed
      qed
    qed
  qed
qed

theorem handshake_spends_no_token_on_malformed_witness:
  "fst (handshake_from_query ''s'' ''secret'' 1
      \<lparr>rq_method = ''POST'', rq_raw_query = ''session_id=s&x=%2'', rq_query_params = [(''session_id'', ''s''), (''x'', ''%2'')], rq_headers = []\<rparr>
      [(''tok'', 1, 9, False)]) = [(''tok'', 1, 9, False)]"
proof -
  let ?rq = "\<lparr>rq_method = ''POST'', rq_raw_query = ''session_id=s&x=%2'', rq_query_params = [(''session_id'', ''s''), (''x'', ''%2'')],
    rq_headers = []\<rparr>"
  let ?g = "[(''tok'', 1, 9, False)] :: handshake_tokens"
  obtain g' r where run: "handshake_from_query ''s'' ''secret'' 1 ?rq ?g = (g', r)" by force
  have "r = Inl BadRequest" using run by (simp add: handshake_from_query_def)
  then show ?thesis using handshake_spends_no_token_on_malformed [OF run] run by simp
qed

text \<open>
  A request that passes the origin check has an origin (or, marked same-origin by the browser, a host) with
  the configured scheme and port on the configured host, or on another loopback name if that one is loopback.
\<close>

lemma local_origin_required:
  assumes "require_local_origin pl configured rq = Inr ()"
  shows "\<exists>value netloc p q. value \<in> {the (map_of (rq_headers rq) ''origin''),
      fst configured @ ''://'' @ (case map_of (rq_headers rq) ''host'' of None \<Rightarrow> [] | Some h \<Rightarrow> h)} \<and>
    url_scheme_netloc (pl_bracketed_ok pl) value = Some (fst configured, netloc) \<and>
    url_hostname netloc \<in> allowed_hosts (snd configured) \<and> url_port netloc = Some p \<and> url_port (snd configured) = Some q \<and>
    effective_port (fst configured) p = effective_port (fst configured) q"
proof -
  have origin: "\<exists>netloc p q. url_scheme_netloc (pl_bracketed_ok pl) v = Some (fst configured, netloc) \<and>
      url_hostname netloc \<in> allowed_hosts (snd configured) \<and> url_port netloc = Some p \<and> url_port (snd configured) = Some q \<and>
      effective_port (fst configured) p = effective_port (fst configured) q" if "allowed_origin pl configured v" for v
    using that by (cases "url_port (snd configured)") (auto simp: allowed_origin_def split: option.splits)
  show ?thesis
  proof (cases "truthy (map_of (rq_headers rq) ''origin'')")
    case True
    then have "allowed_origin pl configured (the (map_of (rq_headers rq) ''origin''))"
      using assms unfolding require_local_origin_def by (simp split: if_splits)
    then show ?thesis using origin by blast
  next
    case False
    then have "allowed_origin pl configured (fst configured @ ''://'' @ (case map_of (rq_headers rq) ''host'' of None \<Rightarrow> [] | Some h \<Rightarrow> h))"
      using assms unfolding require_local_origin_def by (metis Inl_Inr_False)
    then show ?thesis using origin by blast
  qed
qed

end
