(* ===== verification/Turns.thy ===== *)
theory Turns
  imports Routing
begin

text \<open>
  The debounced end of a user turn (\<open>FinalTurnTranscriptProcessor\<close> of \<open>server/turns.py\<close>).

  Speech fragments are collected until the grace period after a semantic stop ends; then they become one
  application turn, dispatched by a background task that holds one of a fixed number of slots. The
  coroutine \<open>_complete_after_grace\<close> is split at its awaits: it sleeps, then may wait for a slot, holding
  the text it took, then passes the stop frame on. A cancelled sleeper returns at once; a cancelled waiter
  loses its text. A completion task that is not in \<open>tp_completions\<close> is done. \<open>_arm_completion\<close> waits for
  a committed completion before it starts the next one; \<open>tp_arms\<close> lists the tasks such calls wait for (a
  call whose task is cancelled ends with it). \<open>tp_dispatched\<close> and \<open>tp_accepted\<close> record the turns handed
  to a dispatch task and the fragments kept, in order; \<open>tp_stops\<close> counts the stop frames passed on.
\<close>

datatype completion = Sleeping | WaitingForSlot string | PushingStop

record turn_processor =
  tp_max_transcript_chars :: nat
  tp_fragments :: "string list"
  tp_fragment_chars :: nat
  tp_slots :: nat
  tp_dispatches :: "(nat, string) dict"
  tp_completions :: "(nat, completion) dict"
  tp_completion_task :: "nat option"
  tp_committed :: bool
  tp_closing :: bool
  tp_next :: nat
  tp_arms :: "nat list"
  tp_dispatched :: "string list"
  tp_stops :: nat
  tp_accepted :: "string list"

datatype turns_error = NonPositiveDispatches | NonPositiveChars

definition init_turns :: "nat \<Rightarrow> nat \<Rightarrow> turns_error + turn_processor" where
  "init_turns max_pending_dispatches max_transcript_chars =
     (if max_pending_dispatches < 1 then Inl NonPositiveDispatches
      else if max_transcript_chars < 1 then Inl NonPositiveChars
      else Inr \<lparr>tp_max_transcript_chars = max_transcript_chars, tp_fragments = [], tp_fragment_chars = 0,
        tp_slots = max_pending_dispatches, tp_dispatches = [], tp_completions = [], tp_completion_task = None,
        tp_committed = False, tp_closing = False, tp_next = 0, tp_arms = [], tp_dispatched = [], tp_stops = 0, tp_accepted = []\<rparr>)"

definition append_fragment :: "string \<Rightarrow> turn_processor \<Rightarrow> turn_processor" where
  "append_fragment t p =
     (let separator_chars = (if tp_fragments p = [] then 0 else 1);
          remaining = tp_max_transcript_chars p - tp_fragment_chars p in
      if remaining \<le> separator_chars then p
      else
        let fragment = take (remaining - separator_chars) t in
        if fragment = [] then p
        else p\<lparr>tp_fragments := tp_fragments p @ [fragment],
               tp_fragment_chars := tp_fragment_chars p + separator_chars + length fragment,
               tp_accepted := tp_accepted p @ [fragment]\<rparr>)"

definition clear_fragments :: "turn_processor \<Rightarrow> turn_processor" where
  "clear_fragments p = p\<lparr>tp_fragments := [], tp_fragment_chars := 0\<rparr>"

text \<open>Ending a completion task: its own bookkeeping first, when it is still the current one.\<close>

definition completion_done :: "nat \<Rightarrow> turn_processor \<Rightarrow> turn_processor" where
  "completion_done i p = p\<lparr>tp_completions := AList.delete i (tp_completions p)\<rparr>"

definition finish_completion :: "nat \<Rightarrow> turn_processor \<Rightarrow> turn_processor" where
  "finish_completion i p =
     completion_done i
       (if tp_completion_task p = Some i then p\<lparr>tp_completion_task := None, tp_committed := False\<rparr> else p)"

definition cancel_completion :: "turn_processor \<Rightarrow> turn_processor" where
  "cancel_completion p =
     (let p = (case tp_completion_task p of
                 None \<Rightarrow> p
               | Some i \<Rightarrow> (completion_done i p)\<lparr>tp_arms := filter (\<lambda>j. j \<noteq> i) (tp_arms p)\<rparr>)
      in p\<lparr>tp_completion_task := None, tp_committed := False\<rparr>)"

text \<open>\<open>_dispatch_in_background\<close> once it holds a slot, up to passing the stop frame on.\<close>

definition dispatch_with_slot :: "nat \<Rightarrow> string \<Rightarrow> turn_processor \<Rightarrow> turn_processor" where
  "dispatch_with_slot i t p =
     (if tp_closing p then finish_completion i (p\<lparr>tp_slots := tp_slots p + 1\<rparr>)
      else p\<lparr>tp_dispatches := AList.update (tp_next p) t (tp_dispatches p), tp_next := tp_next p + 1,
             tp_dispatched := tp_dispatched p @ [t], tp_completions := AList.update i PushingStop (tp_completions p)\<rparr>)"

definition grace_elapsed :: "nat \<Rightarrow> turn_processor \<Rightarrow> turn_processor" where
  "grace_elapsed i p =
     (if map_of (tp_completions p) i \<noteq> Some Sleeping then p
      else
        let t = py_join '' '' (tp_fragments p); p = clear_fragments p in
        if t = [] then completion_done i (p\<lparr>tp_completion_task := None\<rparr>)
        else
          let p = p\<lparr>tp_committed := True\<rparr> in
          if 0 < tp_slots p then dispatch_with_slot i t (p\<lparr>tp_slots := tp_slots p - 1\<rparr>)
          else p\<lparr>tp_completions := AList.update i (WaitingForSlot t) (tp_completions p)\<rparr>)"

definition slot_granted :: "nat \<Rightarrow> turn_processor \<Rightarrow> turn_processor" where
  "slot_granted i p =
     (case map_of (tp_completions p) i of
        Some (WaitingForSlot t) \<Rightarrow> if 0 < tp_slots p then dispatch_with_slot i t (p\<lparr>tp_slots := tp_slots p - 1\<rparr>) else p
      | _ \<Rightarrow> p)"

definition stop_pushed :: "nat \<Rightarrow> turn_processor \<Rightarrow> turn_processor" where
  "stop_pushed i p =
     (if map_of (tp_completions p) i \<noteq> Some PushingStop then p else finish_completion i (p\<lparr>tp_stops := tp_stops p + 1\<rparr>))"

definition dispatch_done :: "nat \<Rightarrow> turn_processor \<Rightarrow> turn_processor" where
  "dispatch_done k p =
     (if map_of (tp_dispatches p) k = None then p
      else p\<lparr>tp_dispatches := AList.delete k (tp_dispatches p), tp_slots := tp_slots p + 1\<rparr>)"

definition start_completion :: "turn_processor \<Rightarrow> turn_processor" where
  "start_completion p =
     (if tp_closing p then p
      else p\<lparr>tp_completions := AList.update (tp_next p) Sleeping (tp_completions p), tp_completion_task := Some (tp_next p),
             tp_next := tp_next p + 1\<rparr>)"

definition arm_completion :: "turn_processor \<Rightarrow> turn_processor" where
  "arm_completion p =
     (case tp_completion_task p of
        Some i \<Rightarrow>
          if map_of (tp_completions p) i = None then start_completion p
          else if tp_committed p then p\<lparr>tp_arms := tp_arms p @ [i]\<rparr>
          else start_completion (cancel_completion p)
      | None \<Rightarrow> start_completion p)"

text \<open>A call of \<open>_arm_completion\<close> resumes when the task it waits for is done.\<close>

definition arm_resumed :: "turn_processor \<Rightarrow> turn_processor" where
  "arm_resumed p =
     (case tp_arms p of
        [] \<Rightarrow> p
      | i # rest \<Rightarrow> if map_of (tp_completions p) i \<noteq> None then p else start_completion (p\<lparr>tp_arms := rest\<rparr>))"

definition cleanup_turns :: "turn_processor \<Rightarrow> turn_processor" where
  "cleanup_turns p =
     clear_fragments (p\<lparr>tp_closing := True, tp_completions := [], tp_slots := tp_slots p + length (tp_dispatches p),
       tp_dispatches := [], tp_completion_task := None, tp_committed := False, tp_arms := []\<rparr>)"

datatype turn_frame = Transcription string | UserStarted | UserStopped | CancelOrEnd | OtherFrame

text \<open>\<open>process_frame\<close> downstream; the result tells whether the frame is passed on.\<close>

definition turns_process_frame :: "turn_frame \<Rightarrow> turn_processor \<Rightarrow> turn_processor \<times> bool" where
  "turns_process_frame f p =
     (case f of
        Transcription t \<Rightarrow> (let t = py_strip t in if t = [] then p else append_fragment t p, False)
      | UserStarted \<Rightarrow>
          (if tp_completion_task p \<noteq> None \<and> \<not> tp_committed p then cancel_completion p else p, True)
      | UserStopped \<Rightarrow> (arm_completion p, False)
      | CancelOrEnd \<Rightarrow> (clear_fragments (cancel_completion p), True)
      | OtherFrame \<Rightarrow> (p, True))"

datatype turn_event =
    Frame turn_frame
  | GraceElapsed nat
  | SlotGranted nat
  | StopPushed nat
  | DispatchDone nat
  | ArmResumed
  | Cleanup

fun turn_step :: "turn_event \<Rightarrow> turn_processor \<Rightarrow> turn_processor" where
  "turn_step (Frame f) p = fst (turns_process_frame f p)"
| "turn_step (GraceElapsed i) p = grace_elapsed i p"
| "turn_step (SlotGranted i) p = slot_granted i p"
| "turn_step (StopPushed i) p = stop_pushed i p"
| "turn_step (DispatchDone k) p = dispatch_done k p"
| "turn_step ArmResumed p = arm_resumed p"
| "turn_step Cleanup p = cleanup_turns p"

section \<open>Invariant\<close>

text \<open>
  The framework handles one system frame at a time, so while a call of \<open>_arm_completion\<close> waits no other
  start or stop of speech is handled; transcriptions and the end of the pipeline travel in another queue.
\<close>

fun turn_event_ok :: "turn_event \<Rightarrow> turn_processor \<Rightarrow> bool" where
  "turn_event_ok (Frame UserStarted) p \<longleftrightarrow> tp_arms p = []"
| "turn_event_ok (Frame UserStopped) p \<longleftrightarrow> tp_arms p = []"
| "turn_event_ok e p \<longleftrightarrow> True"

definition fragments_inv :: "turn_processor \<Rightarrow> bool" where
  "fragments_inv p \<longleftrightarrow>
     tp_fragment_chars p = length (py_join '' '' (tp_fragments p)) \<and> tp_fragment_chars p \<le> tp_max_transcript_chars p \<and>
     [] \<notin> set (tp_fragments p)"

definition text_ok :: "turn_processor \<Rightarrow> string \<Rightarrow> bool" where
  "text_ok p t \<longleftrightarrow> t \<noteq> [] \<and> length t \<le> tp_max_transcript_chars p"

definition texts_inv :: "turn_processor \<Rightarrow> bool" where
  "texts_inv p \<longleftrightarrow>
     (\<forall>t \<in> set (tp_dispatched p). text_ok p t) \<and> (\<forall>i t. map_of (tp_completions p) i = Some (WaitingForSlot t) \<longrightarrow> text_ok p t)"

definition slots_inv :: "nat \<Rightarrow> turn_processor \<Rightarrow> bool" where
  "slots_inv n p \<longleftrightarrow>
     tp_slots p + length (tp_dispatches p) = n \<and> wf_dict (tp_dispatches p) \<and> set (dkeys (tp_dispatches p)) \<subseteq> {..<tp_next p}"

text \<open>At most one completion task exists, it is the current one, and its stage decides \<open>tp_committed\<close>.\<close>

definition stage_inv :: "turn_processor \<Rightarrow> bool" where
  "stage_inv p \<longleftrightarrow>
     \<not> tp_closing p \<and>
     (case tp_completion_task p of
        None \<Rightarrow> tp_completions p = [] \<and> \<not> tp_committed p
      | Some i \<Rightarrow> (\<exists>c. tp_completions p = [(i, c)] \<and> (tp_committed p \<longleftrightarrow> c \<noteq> Sleeping))) \<and>
     (\<forall>i \<in> set (tp_arms p). tp_completion_task p = None \<or> (tp_completion_task p = Some i \<and> tp_committed p)) \<and>
     length (tp_arms p) \<le> 1"

fun waiting_text :: "completion \<Rightarrow> string list" where
  "waiting_text (WaitingForSlot t) = [t]"
| "waiting_text _ = []"

fun unpushed_stop :: "completion \<Rightarrow> nat" where
  "unpushed_stop PushingStop = 1"
| "unpushed_stop _ = 0"

definition waiting_texts :: "turn_processor \<Rightarrow> string list" where
  "waiting_texts p = concat (map waiting_text (dvals (tp_completions p)))"

definition partition_inv :: "turn_processor \<Rightarrow> bool" where
  "partition_inv p \<longleftrightarrow>
     (\<exists>groups. map (py_join '' '') groups = tp_dispatched p @ waiting_texts p \<and> [] \<notin> set groups \<and>
               concat groups @ tp_fragments p = tp_accepted p) \<and>
     tp_stops p + sum_list (map unpushed_stop (dvals (tp_completions p))) = length (tp_dispatched p)"

fun keeps_speech :: "turn_event \<Rightarrow> bool" where
  "keeps_speech (Frame CancelOrEnd) \<longleftrightarrow> False"
| "keeps_speech Cleanup \<longleftrightarrow> False"
| "keeps_speech _ \<longleftrightarrow> True"

lemma append_fragment_inv: "fragments_inv p \<Longrightarrow> fragments_inv (append_fragment t p)"
proof -
  assume inv: "fragments_inv p"
  have join: "length (py_join '' '' (fs @ [f])) = length (py_join '' '' fs) + (if fs = [] then 0 else 1) + length f" for fs f
    by (induction fs rule: induct_list012) auto
  show ?thesis using inv by (auto simp: append_fragment_def fragments_inv_def Let_def join)
qed

lemmas turn_op_defs = turns_process_frame_def grace_elapsed_def slot_granted_def stop_pushed_def dispatch_done_def
  arm_resumed_def cleanup_turns_def arm_completion_def start_completion_def cancel_completion_def completion_done_def
  finish_completion_def dispatch_with_slot_def clear_fragments_def Let_def

lemma append_fragment_fields [simp]:
  "tp_max_transcript_chars (append_fragment t p) = tp_max_transcript_chars p"
  "tp_slots (append_fragment t p) = tp_slots p" "tp_dispatches (append_fragment t p) = tp_dispatches p"
  "tp_completions (append_fragment t p) = tp_completions p" "tp_completion_task (append_fragment t p) = tp_completion_task p"
  "tp_committed (append_fragment t p) = tp_committed p" "tp_closing (append_fragment t p) = tp_closing p"
  "tp_next (append_fragment t p) = tp_next p" "tp_arms (append_fragment t p) = tp_arms p"
  "tp_dispatched (append_fragment t p) = tp_dispatched p" "tp_stops (append_fragment t p) = tp_stops p"
  by (simp_all add: append_fragment_def Let_def)

lemma append_fragment_accepts:
  "\<exists>fs. tp_fragments (append_fragment t p) = tp_fragments p @ fs \<and> tp_accepted (append_fragment t p) = tp_accepted p @ fs"
  by (auto simp: append_fragment_def Let_def)

section \<open>Bounds\<close>

lemma step_max_chars [simp]: "tp_max_transcript_chars (turn_step e p) = tp_max_transcript_chars p"
  by (cases e; auto simp: turn_op_defs split: turn_frame.splits option.splits completion.splits list.splits)

lemma fragments_inv_cong:
  "tp_fragments q = tp_fragments p \<and> tp_fragment_chars q = tp_fragment_chars p \<or> tp_fragments q = [] \<and> tp_fragment_chars q = 0 \<Longrightarrow>
   tp_max_transcript_chars q = tp_max_transcript_chars p \<Longrightarrow> fragments_inv p \<Longrightarrow> fragments_inv q"
  by (auto simp: fragments_inv_def)

lemma join_empty: "[] \<notin> set fs \<Longrightarrow> py_join '' '' fs = [] \<longleftrightarrow> fs = []"
  by (induction fs rule: induct_list012) auto

lemma step_fragments_inv: "fragments_inv p \<Longrightarrow> fragments_inv (turn_step e p)"
proof (cases e)
  case (Frame f)
  then show "fragments_inv p \<Longrightarrow> ?thesis"
    by (cases f) (auto simp: turn_op_defs append_fragment_inv intro: fragments_inv_cong split: option.split)
qed (auto simp: turn_op_defs intro: fragments_inv_cong split: option.split completion.split list.split)

text \<open>Any state whose texts are old ones or fit themselves keeps the invariant.\<close>

lemma texts_inv_cong:
  assumes "texts_inv p" "tp_max_transcript_chars q = tp_max_transcript_chars p"
    and "\<And>t. t \<in> set (tp_dispatched q) \<Longrightarrow> text_ok p t \<or> t \<in> set (tp_dispatched p)"
    and "\<And>i t. map_of (tp_completions q) i = Some (WaitingForSlot t) \<Longrightarrow>
           text_ok p t \<or> map_of (tp_completions p) i = Some (WaitingForSlot t)"
  shows "texts_inv q"
proof -
  have "text_ok q = text_ok p" using assms(2) by (simp add: text_ok_def fun_eq_iff)
  with assms show ?thesis unfolding texts_inv_def by metis
qed

lemma dispatch_with_slot_texts: "texts_inv p \<Longrightarrow> text_ok p t \<Longrightarrow> texts_inv (dispatch_with_slot i t (p\<lparr>tp_slots := n\<rparr>))"
  by (erule texts_inv_cong)
    (auto simp: dispatch_with_slot_def finish_completion_def completion_done_def dict_simps split: if_splits)

lemma grace_elapsed_texts: "fragments_inv p \<Longrightarrow> texts_inv p \<Longrightarrow> texts_inv (grace_elapsed i p)"
proof -
  assume inv: "fragments_inv p" "texts_inv p"
  let ?q = "p\<lparr>tp_fragments := [], tp_fragment_chars := 0, tp_committed := True\<rparr>"
  have ok: "texts_inv ?q" "py_join '' '' (tp_fragments p) \<noteq> [] \<Longrightarrow> text_ok ?q (py_join '' '' (tp_fragments p))"
    using inv by (auto simp: texts_inv_def text_ok_def fragments_inv_def)
  have "texts_inv (?q\<lparr>tp_completions := AList.update i (WaitingForSlot (py_join '' '' (tp_fragments p))) (tp_completions p)\<rparr>)"
    if "py_join '' '' (tp_fragments p) \<noteq> []"
    by (rule texts_inv_cong [OF ok(1)]) (use ok(2) [OF that] in \<open>auto simp: dict_simps split: if_splits\<close>)
  moreover have "texts_inv (p\<lparr>tp_fragments := [], tp_fragment_chars := 0, tp_completion_task := None, tp_completions := AList.delete i (tp_completions p)\<rparr>)"
    by (rule texts_inv_cong [OF inv(2)]) (auto simp: dict_simps split: if_splits)
  ultimately show ?thesis
    using inv dispatch_with_slot_texts [OF ok(1) ok(2)]
    by (simp add: grace_elapsed_def clear_fragments_def completion_done_def Let_def)
qed

lemma slot_granted_texts: "texts_inv p \<Longrightarrow> texts_inv (slot_granted i p)"
  by (auto simp: slot_granted_def texts_inv_def [of p] intro!: dispatch_with_slot_texts split: option.split completion.split)

lemma step_texts_inv: "fragments_inv p \<Longrightarrow> texts_inv p \<Longrightarrow> texts_inv (turn_step e p)"
proof (cases e)
  case (Frame f)
  then show "texts_inv p \<Longrightarrow> texts_inv (turn_step e p)"
    by (cases f; elim texts_inv_cong)
      (auto simp: turn_op_defs dict_simps split: option.splits if_splits)
next
  case (StopPushed i)
  then show "texts_inv p \<Longrightarrow> texts_inv (turn_step e p)"
    by (elim texts_inv_cong) (auto simp: turn_op_defs dict_simps split: if_splits)
next
  case (DispatchDone k)
  then show "texts_inv p \<Longrightarrow> texts_inv (turn_step e p)"
    by (elim texts_inv_cong) (auto simp: dispatch_done_def split: if_splits)
next
  case ArmResumed
  then show "texts_inv p \<Longrightarrow> texts_inv (turn_step e p)"
    by (elim texts_inv_cong) (auto simp: arm_resumed_def start_completion_def dict_simps split: if_splits list.splits)
next
  case Cleanup
  then show "texts_inv p \<Longrightarrow> texts_inv (turn_step e p)"
    by (elim texts_inv_cong) (auto simp: cleanup_turns_def clear_fragments_def)
qed (simp_all add: grace_elapsed_texts slot_granted_texts)

lemma length_delete_wf: "wf_dict d \<Longrightarrow> map_of d k \<noteq> None \<Longrightarrow> Suc (length (AList.delete k d)) = length d"
proof -
  assume d: "wf_dict d" "map_of d k \<noteq> None"
  then have "k \<in> set (dkeys d)" by (simp add: map_of_None_iff)
  moreover have "filter (\<lambda>x. x \<noteq> k) (dkeys d) = remove1 k (dkeys d)"
    using d(1) by (simp add: wf_dict_def distinct_remove1_removeAll removeAll_filter_not_eq eq_commute)
  ultimately have "Suc (length (dkeys (AList.delete k d))) = length (dkeys d)"
    by (metis Suc_pred dkeys_dpop length_pos_if_in_set length_remove1 One_nat_def)
  then show ?thesis by simp
qed

lemma dispatch_done_slots: "slots_inv n p \<Longrightarrow> slots_inv n (dispatch_done k p)"
  by (auto simp: dispatch_done_def slots_inv_def simp del: set_map dest: length_delete_wf)

lemma dispatch_with_slot_slots:
  "slots_inv n p \<Longrightarrow> 0 < tp_slots p \<Longrightarrow> slots_inv n (dispatch_with_slot i t (p\<lparr>tp_slots := tp_slots p - 1\<rparr>))"
  by (auto simp: dispatch_with_slot_def finish_completion_def completion_done_def slots_inv_def length_dset less_Suc_eq
      simp del: set_map)

lemma slots_inv_cong:
  "tp_slots q = tp_slots p \<Longrightarrow> tp_dispatches q = tp_dispatches p \<Longrightarrow> tp_next p \<le> tp_next q \<Longrightarrow> slots_inv n p \<Longrightarrow> slots_inv n q"
  by (auto simp: slots_inv_def subset_iff)

lemma grace_elapsed_slots: "slots_inv n p \<Longrightarrow> slots_inv n (grace_elapsed i p)"
proof -
  assume inv: "slots_inv n p"
  have "slots_inv n (dispatch_with_slot i t (p\<lparr>tp_fragments := [], tp_fragment_chars := 0, tp_committed := True, tp_slots := tp_slots p - 1\<rparr>))"
    if "0 < tp_slots p" for t
    using dispatch_with_slot_slots [of n "p\<lparr>tp_fragments := [], tp_fragment_chars := 0, tp_committed := True\<rparr>"] inv that
    by (simp add: slots_inv_def)
  with inv show ?thesis
    by (auto simp: grace_elapsed_def Let_def clear_fragments_def completion_done_def intro: slots_inv_cong)
qed

lemma step_slots_inv: "slots_inv n p \<Longrightarrow> slots_inv n (turn_step e p)"
proof (cases e)
  case (Frame f)
  then show "slots_inv n p \<Longrightarrow> slots_inv n (turn_step e p)"
    by (cases f) (auto simp: turn_op_defs intro: slots_inv_cong split: option.split)
next
  case (SlotGranted i)
  then show "slots_inv n p \<Longrightarrow> slots_inv n (turn_step e p)"
    using dispatch_with_slot_slots [of n p i] by (auto simp: slot_granted_def split: option.split completion.split)
next
  case Cleanup
  then show "slots_inv n p \<Longrightarrow> slots_inv n (turn_step e p)" by (auto simp: turn_op_defs slots_inv_def wf_dict_def)
qed (auto simp: grace_elapsed_slots dispatch_done_slots stop_pushed_def finish_completion_def completion_done_def
      arm_resumed_def start_completion_def intro: slots_inv_cong split: list.split)

definition turns_inv :: "nat \<Rightarrow> nat \<Rightarrow> turn_processor \<Rightarrow> bool" where
  "turns_inv n m p \<longleftrightarrow>
     fragments_inv p \<and> texts_inv p \<and> slots_inv n p \<and> tp_max_transcript_chars p = m"

interpretation turns: machine turn_step "turns_inv n m" for n m
  by unfold_locales (simp add: turns_inv_def step_fragments_inv step_texts_inv step_slots_inv)

lemma init_turns_inv: "init_turns n m = Inr p \<Longrightarrow> turns_inv n m p"
  by (auto simp: init_turns_def turns_inv_def fragments_inv_def texts_inv_def slots_inv_def wf_dict_def split: if_splits)

section \<open>The stages of a completion\<close>

lemma step_stage_inv: "stage_inv p \<Longrightarrow> turn_event_ok e p \<Longrightarrow> keeps_speech e \<Longrightarrow> stage_inv (turn_step e p)"
  by (cases e rule: keeps_speech.cases)
    (auto simp: turn_op_defs stage_inv_def split: turn_frame.splits option.splits completion.splits list.splits if_splits)

lemma partition_inv_keep:
  "partition_inv p \<Longrightarrow> tp_dispatched q = tp_dispatched p \<Longrightarrow> tp_stops q = tp_stops p \<Longrightarrow>
   tp_fragments q = tp_fragments p @ fs \<Longrightarrow> tp_accepted q = tp_accepted p @ fs \<Longrightarrow>
   waiting_texts q = waiting_texts p \<Longrightarrow>
   sum_list (map unpushed_stop (dvals (tp_completions q))) = sum_list (map unpushed_stop (dvals (tp_completions p))) \<Longrightarrow>
   partition_inv q"
  unfolding partition_inv_def by (metis append.assoc)

lemma partition_inv_take:
  assumes "partition_inv p" "tp_completions p = [(i, Sleeping)]" "py_join '' '' (tp_fragments p) \<noteq> []"
    and "tp_fragments q = []" "tp_accepted q = tp_accepted p" "tp_stops q = tp_stops p"
    and "tp_dispatched q @ waiting_texts q = tp_dispatched p @ [py_join '' '' (tp_fragments p)]"
    and "length (tp_dispatched q) = length (tp_dispatched p) + sum_list (map unpushed_stop (dvals (tp_completions q)))"
  shows "partition_inv q"
proof -
  from assms(1,2) obtain groups where g: "map (py_join '' '') groups = tp_dispatched p" "[] \<notin> set groups"
      "concat groups @ tp_fragments p = tp_accepted p" and n: "tp_stops p = length (tp_dispatched p)"
    by (auto simp: partition_inv_def waiting_texts_def)
  have "tp_fragments p \<noteq> []" using assms(3) by auto
  then have "map (py_join '' '') (groups @ [tp_fragments p]) = tp_dispatched q @ waiting_texts q \<and>
    [] \<notin> set (groups @ [tp_fragments p]) \<and> concat (groups @ [tp_fragments p]) @ tp_fragments q = tp_accepted q"
    using g assms(4,5,7) by simp
  then show ?thesis using assms(6,8) n unfolding partition_inv_def by (intro conjI exI [of _ "groups @ [tp_fragments p]"]) simp_all
qed

lemma stage_sleeping:
  "stage_inv p \<Longrightarrow> map_of (tp_completions p) i = Some c \<Longrightarrow>
   tp_completions p = [(i, c)] \<and> tp_completion_task p = Some i \<and> \<not> tp_closing p \<and> (tp_committed p \<longleftrightarrow> c \<noteq> Sleeping)"
  by (auto simp: stage_inv_def split: option.splits if_splits)

lemma grace_elapsed_partition: "fragments_inv p \<Longrightarrow> stage_inv p \<Longrightarrow> partition_inv p \<Longrightarrow> partition_inv (grace_elapsed i p)"
proof (cases "map_of (tp_completions p) i = Some Sleeping")
  case True
  assume fi: "fragments_inv p" and inv: "stage_inv p" "partition_inv p"
  note s = stage_sleeping [OF inv(1) True]
  show ?thesis
  proof (cases "py_join '' '' (tp_fragments p) = []")
    case empty: True
    then have "tp_fragments p = []" using fi join_empty by (simp add: fragments_inv_def)
    then show ?thesis using s True by (auto intro!: partition_inv_keep [OF inv(2)] simp: turn_op_defs waiting_texts_def)
  next
    case False
    show ?thesis
      by (rule partition_inv_take [OF inv(2) conjunct1 [OF s] False])
        (use s True False in \<open>auto simp: turn_op_defs waiting_texts_def\<close>)
  qed
qed (simp add: grace_elapsed_def)

lemma slot_granted_partition: "stage_inv p \<Longrightarrow> partition_inv p \<Longrightarrow> partition_inv (slot_granted i p)"
  by (auto simp: slot_granted_def dispatch_with_slot_def partition_inv_def waiting_texts_def dest!: stage_sleeping
      split: option.split completion.split)

lemma stop_pushed_partition: "stage_inv p \<Longrightarrow> partition_inv p \<Longrightarrow> partition_inv (stop_pushed i p)"
  by (auto simp: stop_pushed_def finish_completion_def completion_done_def partition_inv_def waiting_texts_def dest!: stage_sleeping)

lemma start_completion_partition:
  "tp_completions p = [] \<Longrightarrow> partition_inv p \<Longrightarrow> partition_inv (start_completion p)"
  by (auto simp: start_completion_def partition_inv_def waiting_texts_def)

lemma cancel_sleeping_partition:
  "stage_inv p \<Longrightarrow> \<not> tp_committed p \<Longrightarrow> partition_inv p \<Longrightarrow> partition_inv (cancel_completion p) \<and> tp_completions (cancel_completion p) = []"
  by (auto simp: cancel_completion_def completion_done_def stage_inv_def partition_inv_def waiting_texts_def Let_def split: option.splits)

lemma arm_completion_partition: "stage_inv p \<Longrightarrow> partition_inv p \<Longrightarrow> partition_inv (arm_completion p)"
proof (cases "tp_completion_task p")
  case None
  then show "stage_inv p \<Longrightarrow> partition_inv p \<Longrightarrow> ?thesis"
    by (simp add: arm_completion_def start_completion_partition stage_inv_def)
next
  case (Some i)
  assume inv: "stage_inv p" "partition_inv p"
  have "partition_inv (p\<lparr>tp_arms := tp_arms p @ [i]\<rparr>)"
    using inv(2) by (simp add: partition_inv_def waiting_texts_def)
  then show ?thesis
    using inv Some cancel_sleeping_partition [OF inv(1) _ inv(2)]
    by (auto simp: arm_completion_def start_completion_partition stage_inv_def)
qed

lemma arm_resumed_partition: "stage_inv p \<Longrightarrow> partition_inv p \<Longrightarrow> partition_inv (arm_resumed p)"
proof (cases "tp_arms p")
  case (Cons i rest)
  assume inv: "stage_inv p" "partition_inv p"
  have rest: "partition_inv (p\<lparr>tp_arms := rest\<rparr>)" using inv(2) by (simp add: partition_inv_def waiting_texts_def)
  have "tp_completions p = []" if "map_of (tp_completions p) i = None"
    using inv(1) that Cons by (auto simp: stage_inv_def split: option.splits)
  then show ?thesis using inv(2) Cons start_completion_partition [OF _ rest] by (auto simp: arm_resumed_def)
qed (simp add: arm_resumed_def)

lemma step_partition_inv:
  assumes "fragments_inv p" "stage_inv p" "partition_inv p" "keeps_speech e"
  shows "partition_inv (turn_step e p)"
proof (cases e)
  case (Frame f)
  have "partition_inv (append_fragment t p)" for t
    using append_fragment_accepts [of t p] by (auto intro: partition_inv_keep [OF assms(3)] simp: waiting_texts_def)
  moreover have "partition_inv (cancel_completion p)" if "\<not> tp_committed p"
    using cancel_sleeping_partition assms that by blast
  ultimately show ?thesis
    using assms Frame by (cases f) (auto simp: turns_process_frame_def Let_def arm_completion_partition)
next
  case (DispatchDone k)
  then show ?thesis using assms(3) by (auto simp: dispatch_done_def partition_inv_def waiting_texts_def)
qed (use assms in \<open>auto simp: grace_elapsed_partition slot_granted_partition stop_pushed_partition arm_resumed_partition\<close>)

definition turns_speech_inv :: "nat \<Rightarrow> nat \<Rightarrow> turn_processor \<Rightarrow> bool" where
  "turns_speech_inv n m p \<longleftrightarrow> turns_inv n m p \<and> stage_inv p \<and> partition_inv p"

interpretation speech: guarded_machine turn_step "\<lambda>e p. turn_event_ok e p \<and> keeps_speech e" "turns_speech_inv n m" for n m
  by unfold_locales
    (simp add: turns_speech_inv_def turns.step_inv step_stage_inv step_partition_inv turns_inv_def step_fragments_inv step_texts_inv step_slots_inv)

lemma init_speech_inv: "init_turns n m = Inr p \<Longrightarrow> turns_speech_inv n m p"
  by (auto simp: turns_speech_inv_def init_turns_inv) (auto simp: init_turns_def stage_inv_def partition_inv_def waiting_texts_def split: if_splits)

text \<open>A run: every event admitted in the state where it happens, and no end of the pipeline.\<close>

fun speech_run :: "turn_event list \<Rightarrow> turn_processor \<Rightarrow> bool" where
  "speech_run [] p \<longleftrightarrow> True"
| "speech_run (e # es) p \<longleftrightarrow> turn_event_ok e p \<and> keeps_speech e \<and> speech_run es (turn_step e p)"

lemma speech_run_legal: "speech_run es p \<longleftrightarrow> speech.legal es p"
  by (induction es arbitrary: p) auto

section \<open>Properties\<close>

text \<open>
  Turns are bounded and so is their number. After any sequence of frames, grace periods, granted
  slots, finished dispatches and cleanups, the dispatch tasks in flight and the free slots add up to the
  configured \<open>max_pending_dispatches\<close>, and every text ever handed to a dispatch task (or waiting for a slot) is
  non-empty and at most \<open>max_transcript_chars\<close> long; so are the fragments collected for the next one.
\<close>
theorem turns_bounded:
  assumes "init_turns n m = Inr p" "q = fold turn_step es p"
  shows "length (tp_dispatches q) + tp_slots q = n \<and>
         (\<forall>t \<in> set (tp_dispatched q). t \<noteq> [] \<and> length t \<le> m) \<and>
         (\<forall>i t. map_of (tp_completions q) i = Some (WaitingForSlot t) \<longrightarrow> t \<noteq> [] \<and> length t \<le> m) \<and>
         length (py_join '' '' (tp_fragments q)) \<le> m"
proof -
  have "turns_inv n m q" unfolding assms(2) by (rule turns.run_inv [OF init_turns_inv [OF assms(1)]])
  then have "texts_inv q" "slots_inv n q" "fragments_inv q" "tp_max_transcript_chars q = m" by (simp_all add: turns_inv_def)
  then show ?thesis unfolding texts_inv_def slots_inv_def fragments_inv_def text_ok_def by simp
qed

definition demo_events :: "turn_event list" where
  "demo_events = [Frame (Transcription '' book ''), Frame UserStopped, Frame UserStarted, Frame (Transcription ''a table''),
     Frame UserStopped, GraceElapsed 1, StopPushed 1, Frame (Transcription ''and more''), Frame UserStopped, GraceElapsed 3]"

definition demo_turns :: turn_processor where
  "demo_turns = (case init_turns 1 12 of Inr p \<Rightarrow> p)"

lemma demo_turns_init: "init_turns 1 12 = Inr demo_turns"
  by (simp add: demo_turns_def init_turns_def)

lemma demo_dispatched: "tp_dispatched (fold turn_step demo_events demo_turns) = [''book a table'']"
  by code_simp

theorem turns_bounded_witness:
  "length (tp_dispatches (fold turn_step demo_events demo_turns)) + tp_slots (fold turn_step demo_events demo_turns) = 1 \<and>
   length (hd (tp_dispatched (fold turn_step demo_events demo_turns))) \<le> 12"
  using turns_bounded [OF demo_turns_init refl, of demo_events] by (simp add: demo_dispatched)

text \<open>
  C29. No accepted speech is lost, duplicated or reordered. In every run in which the pipeline is not
  ended, the turns dispatched so far and the one waiting for a slot are the accepted fragments cut into
  consecutive non-empty groups, each joined by one space, followed by the fragments of the turn still
  open -- however often speech resumes within the grace period. At most one turn waits, and one stop of speech is passed on for
  every dispatched turn, the last one possibly being on its way.
\<close>
theorem turns_partition_speech:
  assumes "init_turns n m = Inr p" "speech_run es p" "q = fold turn_step es p"
  shows "(\<exists>groups. map (py_join '' '') groups = tp_dispatched q @ waiting_texts q \<and> [] \<notin> set groups \<and>
                   concat groups @ tp_fragments q = tp_accepted q) \<and>
         length (waiting_texts q) \<le> 1 \<and>
         tp_stops q \<le> length (tp_dispatched q) \<and> length (tp_dispatched q) \<le> tp_stops q + 1"
proof -
  have "turns_speech_inv n m q"
    unfolding assms(3) using init_speech_inv [OF assms(1)] assms(2) by (rule speech.run_inv [unfolded speech_run_legal [symmetric]])
  then have inv: "stage_inv q" "partition_inv q" by (simp_all add: turns_speech_inv_def)
  from inv(1) have "tp_completions q = [] \<or> (\<exists>i c. tp_completions q = [(i, c)])"
    by (auto simp: stage_inv_def split: option.splits)
  then have "length (waiting_texts q) \<le> 1 \<and> sum_list (map unpushed_stop (dvals (tp_completions q))) \<le> 1"
  proof (elim disjE exE)
    fix i c assume "tp_completions q = [(i, c)]"
    then show ?thesis by (cases c) (simp_all add: waiting_texts_def)
  qed (simp add: waiting_texts_def)
  with inv(2) show ?thesis unfolding partition_inv_def by auto
qed

theorem turns_partition_speech_witness:
  "\<exists>groups. map (py_join '' '') groups = [''book a table'', ''and more''] \<and> [] \<notin> set groups"
proof -
  have run: "speech_run demo_events demo_turns" by code_simp
  have waits: "waiting_texts (fold turn_step demo_events demo_turns) = [''and more'']" by code_simp
  show ?thesis
    using conjunct1 [OF turns_partition_speech [OF demo_turns_init run refl]] unfolding waits demo_dispatched append.simps
    by (elim exE conjE) (intro exI conjI)
qed

end
