(* ===== verification/Grounded_Results.thy ===== *)
theory Grounded_Results
  imports Contracts Py_Text Configuration
begin

text \<open>
  Canonical grounded results (\<open>server/results.py\<close>): the clean-up of citations and the projections of a
  result. Values from outside are \<open>pyval\<close>s: scalars, or references into a store of mappings, lists and
  other objects, so that payloads may share structure and be cyclic. \<open>str\<close> of a value that is not a
  string is an argument \<open>sh\<close>. A raised exception is a \<open>result_error\<close>.
\<close>

section \<open>Values from outside\<close>

datatype pyval = PNone | PBool bool | PInt int | PFloat py_float | PStr string | PBytes string | PRef nat

datatype pyobj = PMap "(string, pyval) dict" | PList "pyval list" | PObj "(string, pyval) dict"

type_synonym store = "(nat, pyobj) dict"

definition obj_at :: "store \<Rightarrow> nat \<Rightarrow> pyobj" where
  "obj_at h a = (case map_of h a of Some x \<Rightarrow> x | None \<Rightarrow> PObj [])"

fun py_true :: "store \<Rightarrow> pyval \<Rightarrow> bool" where
  "py_true h PNone \<longleftrightarrow> False"
| "py_true h (PBool b) \<longleftrightarrow> b"
| "py_true h (PInt i) \<longleftrightarrow> i \<noteq> 0"
| "py_true h (PFloat x) \<longleftrightarrow> x \<noteq> PFin 0"
| "py_true h (PStr s) \<longleftrightarrow> s \<noteq> []"
| "py_true h (PBytes s) \<longleftrightarrow> s \<noteq> []"
| "py_true h (PRef a) \<longleftrightarrow> (case obj_at h a of PMap m \<Rightarrow> m \<noteq> [] | PList l \<Rightarrow> l \<noteq> [] | PObj _ \<Rightarrow> True)"

fun to_str :: "(pyval \<Rightarrow> string) \<Rightarrow> pyval \<Rightarrow> string" where
  "to_str sh (PStr s) = s"
| "to_str sh v = sh v"

definition get_value :: "(string, pyval) dict \<Rightarrow> string \<Rightarrow> pyval" where
  "get_value m k = (case map_of m k of Some v \<Rightarrow> v | None \<Rightarrow> PNone)"

text \<open>\<open>str(v or "")\<close>.\<close>

definition str_or_empty :: "(pyval \<Rightarrow> string) \<Rightarrow> store \<Rightarrow> pyval \<Rightarrow> string" where
  "str_or_empty sh h v = (if py_true h v then to_str sh v else [])"

section \<open>Citations\<close>

datatype result_error = InvalidCitation | InvalidResult contract_error | ForeignProjection

text \<open>The pattern \<open>^https?://[^\s]+$\<close> of \<open>Citation.url\<close>.\<close>

definition citation_url_ok :: "string \<Rightarrow> bool" where
  "citation_url_ok url \<longleftrightarrow>
     (case (if starts_with ''http://'' url then Some (drop 7 url) else if starts_with ''https://'' url then Some (drop 8 url) else None) of
        None \<Rightarrow> False
      | Some rest \<Rightarrow> rest \<noteq> [] \<and> list_all (\<lambda>c. \<not> is_space c \<or> c \<in> {CHR 0x1C, CHR 0x1D, CHR 0x1E, CHR 0x1F}) rest)"

definition web_url :: "(string \<Rightarrow> bool) \<Rightarrow> string \<Rightarrow> bool" where
  "web_url bracketed_ok url \<longleftrightarrow>
     (case url_scheme_netloc bracketed_ok url of
        None \<Rightarrow> False
      | Some (scheme, netloc) \<Rightarrow>
          scheme \<in> {''http'', ''https''} \<and> netloc \<noteq> [] \<and> url_hostname netloc \<noteq> None \<and> \<not> list_ex is_space url)"

fun normalize_from :: "(string \<Rightarrow> bool) \<Rightarrow> (pyval \<Rightarrow> string) \<Rightarrow> store \<Rightarrow> string list \<Rightarrow> (string, pyval) dict list \<Rightarrow> result_error + citation list" where
  "normalize_from br sh h seen [] = Inr []"
| "normalize_from br sh h seen (item # items) =
     (case get_value item ''url'' of
        PStr url \<Rightarrow>
          if \<not> web_url br url \<or> url \<in> set seen then normalize_from br sh h seen items
          else if \<not> citation_url_ok url then Inl InvalidCitation
          else
            (case normalize_from br sh h (url # seen) items of
               Inl e \<Rightarrow> Inl e
             | Inr cs \<Rightarrow> Inr (\<lparr>ci_title = str_or_empty sh h (get_value item ''title''), ci_url = url\<rparr> # cs))
      | _ \<Rightarrow> normalize_from br sh h seen items)"

definition normalize_citations :: "(string \<Rightarrow> bool) \<Rightarrow> (pyval \<Rightarrow> string) \<Rightarrow> store \<Rightarrow> (string, pyval) dict list \<Rightarrow> result_error + citation list" where
  "normalize_citations br sh h items = normalize_from br sh h [] items"

definition dump_citation :: "citation \<Rightarrow> (string, pyval) dict" where
  "dump_citation c = [(''title'', PStr (ci_title c)), (''url'', PStr (ci_url c))]"

section \<open>Results\<close>

text \<open>The fresh identifier and the current timestamp are arguments.\<close>

definition canonical_result ::
  "(string \<Rightarrow> bool) \<Rightarrow> (pyval \<Rightarrow> string) \<Rightarrow> store \<Rightarrow> string \<Rightarrow> string \<Rightarrow> string \<Rightarrow> string \<Rightarrow> string option \<Rightarrow>
   (string, pyval) dict list \<Rightarrow> string option \<Rightarrow> string \<Rightarrow> epoch option \<Rightarrow> result_error + grounded_result" where
  "canonical_result br sh h now worker_id turn_id t spoken citations result_id fresh origin_epoch =
     (case normalize_citations br sh h citations of
        Inl e \<Rightarrow> Inl e
      | Inr cs \<Rightarrow>
          (case validate_projections
                  \<lparr>gr_result_id = (case result_id of Some r \<Rightarrow> if r \<noteq> [] then r else ''result-'' @ fresh | None \<Rightarrow> ''result-'' @ fresh),
                   gr_worker_id = worker_id, gr_turn_id = turn_id, gr_timestamp = now, gr_text = t, gr_citations = cs,
                   gr_spoken_text = (case spoken of None \<Rightarrow> t | Some s \<Rightarrow> s), gr_origin_epoch = origin_epoch\<rparr> of
             Inl e \<Rightarrow> Inl (InvalidResult e)
           | Inr r \<Rightarrow> Inr r))"

record projected_result =
  pr_result_id :: string
  pr_text :: string
  pr_citations :: "citation list"
  pr_timestamp :: "string option"

definition project_result ::
  "grounded_result \<Rightarrow> string option \<Rightarrow> string option \<Rightarrow> result_error + projected_result \<times> projected_result" where
  "project_result r spoken ui =
     (if (spoken \<noteq> None \<and> spoken \<noteq> Some (gr_spoken_text r)) \<or> (ui \<noteq> None \<and> ui \<noteq> Some (gr_text r)) then Inl ForeignProjection
      else Inr (\<lparr>pr_result_id = gr_result_id r, pr_text = gr_spoken_text r, pr_citations = gr_citations r, pr_timestamp = Some (gr_timestamp r)\<rparr>,
                \<lparr>pr_result_id = gr_result_id r, pr_text = gr_text r, pr_citations = gr_citations r, pr_timestamp = Some (gr_timestamp r)\<rparr>))"

section \<open>Clean citations\<close>

definition clean_url :: "(string \<Rightarrow> bool) \<Rightarrow> string \<Rightarrow> bool" where
  "clean_url br url \<longleftrightarrow> web_url br url \<and> citation_url_ok url"

text \<open>The urls offered by the items, in order.\<close>

fun offered_urls :: "(string \<Rightarrow> bool) \<Rightarrow> (string, pyval) dict list \<Rightarrow> string list" where
  "offered_urls br [] = []"
| "offered_urls br (item # items) =
     (case get_value item ''url'' of
        PStr url \<Rightarrow> if web_url br url then url # offered_urls br items else offered_urls br items
      | _ \<Rightarrow> offered_urls br items)"

fun first_occurrences :: "'a list \<Rightarrow> 'a list \<Rightarrow> 'a list" where
  "first_occurrences seen [] = []"
| "first_occurrences seen (x # xs) =
     (if x \<in> set seen then first_occurrences seen xs else x # first_occurrences (x # seen) xs)"

lemma first_occurrences_set: "set (first_occurrences seen xs) = set xs - set seen"
  by (induction seen xs rule: first_occurrences.induct) auto

lemma first_occurrences_distinct: "distinct (first_occurrences seen xs)"
  by (induction seen xs rule: first_occurrences.induct) (auto simp: first_occurrences_set)

lemma normalize_from_Inr:
  "normalize_from br sh h seen items = Inr cs \<Longrightarrow>
   map ci_url cs = first_occurrences seen (offered_urls br items) \<and> list_all (\<lambda>c. clean_url br (ci_url c)) cs"
  by (induction br sh h seen items arbitrary: cs rule: normalize_from.induct)
    (auto simp: clean_url_def split: pyval.splits if_splits sum.splits)

lemma normalize_from_Inl:
  "normalize_from br sh h seen items = Inl e \<longleftrightarrow>
     e = InvalidCitation \<and> (\<exists>url \<in> set (offered_urls br items) - set seen. \<not> citation_url_ok url)"
  by (induction br sh h seen items rule: normalize_from.induct)
    (auto split: pyval.splits if_splits sum.splits)

lemma normalize_from_dump:
  "list_all (\<lambda>c. clean_url br (ci_url c)) cs \<Longrightarrow> distinct (map ci_url cs) \<Longrightarrow> set (map ci_url cs) \<inter> set seen = {} \<Longrightarrow>
   normalize_from br sh h seen (map dump_citation cs) = Inr cs"
  by (induction cs arbitrary: seen) (auto simp: dump_citation_def get_value_def clean_url_def str_or_empty_def)

section \<open>Properties\<close>

text \<open>
  C31. Citations are cleaned deterministically and the cleaned list is a fixed point. When
  \<open>normalize_citations\<close> returns, its citations are the offered absolute http(s) URLs with a host and no
  whitespace, each at its first occurrence and in that order; and cleaning the dumped citations again (as
  \<open>canonical_result\<close> does with what the worker cleaned) gives them back unchanged, titles included. It fails
  exactly when an offered URL violates the pattern of \<open>Citation\<close>.
\<close>
theorem citations_clean_and_stable:
  "(case normalize_citations br sh h items of
      Inr cs \<Rightarrow>
        map ci_url cs = first_occurrences [] (offered_urls br items) \<and> distinct (map ci_url cs) \<and>
        list_all (\<lambda>c. clean_url br (ci_url c)) cs \<and>
        normalize_citations br sh' h' (map dump_citation cs) = Inr cs
    | Inl e \<Rightarrow> e = InvalidCitation \<and> \<not> list_all citation_url_ok (offered_urls br items))"
proof (cases "normalize_citations br sh h items")
  case (Inl e)
  then show ?thesis using normalize_from_Inl [of br sh h "[]" items e] by (auto simp: normalize_citations_def list_all_iff)
next
  case (Inr cs)
  note n = normalize_from_Inr [OF Inr [unfolded normalize_citations_def]]
  then have "distinct (map ci_url cs)" by (simp add: first_occurrences_distinct)
  with n Inr show ?thesis using normalize_from_dump [of br cs "[]" sh' h'] by (simp add: normalize_citations_def)
qed

lemma offered_urls_append: "offered_urls br (xs @ ys) = offered_urls br xs @ offered_urls br ys"
  by (induction br xs rule: offered_urls.induct) (auto split: pyval.split)



end
