(* ===== verification/Web_Search.thy ===== *)
theory Web_Search
  imports Grounded_Results Py_Regex Routing
begin

text \<open>
  The hosted-web-search worker (\<open>server/workers/web_search.py\<close>, with the query rendering of
  \<open>server/workers/base.py\<close>): when it asks back, what it sends to the provider, and how it turns the
  provider's response into a grounded result. The response is a value in a store (\<open>Grounded_Results\<close>); the
  outcome of the provider call and the JSON parser of the answer envelope are arguments.
\<close>

section \<open>Asking back\<close>

definition search_at_end :: "rx \<Rightarrow> string \<Rightarrow> bool" where
  "search_at_end r s \<longleftrightarrow> list_ex (\<lambda>j. list_ex (\<lambda>(k, g). k = length s) (ends r s (j, []))) [0..<length s + 1]"

text \<open>The non-overlapping matches of an expression without empty matches (\<open>finditer\<close>).\<close>

fun matches_from :: "nat \<Rightarrow> rx \<Rightarrow> string \<Rightarrow> nat \<Rightarrow> (nat \<times> nat) list" where
  "matches_from 0 r s i = []"
| "matches_from (Suc n) r s i =
     (case search_from r s i of None \<Rightarrow> [] | Some (j, k) \<Rightarrow> (j, k) # matches_from n r s k)"

definition find_all :: "rx \<Rightarrow> string \<Rightarrow> (nat \<times> nat) list" where
  "find_all r s = matches_from (length s) r s 0"

definition findall_texts :: "rx \<Rightarrow> string \<Rightarrow> string list" where
  "findall_texts r s = map (\<lambda>(j, k). take (k - j) (drop j s)) (find_all r s)"

definition WEATHER_MODIFIER_WORDS :: "string list" where
  "WEATHER_MODIFIER_WORDS =
     [''afternoon'', ''april'', ''august'', ''autumn'', ''c'', ''celsius'', ''centigrade'', ''coming'', ''december'', ''degrees'',
      ''evening'', ''f'', ''fahrenheit'', ''fall'', ''february'', ''friday'', ''hour'', ''hours'', ''january'', ''july'', ''june'',
      ''k'', ''kelvin'', ''last'', ''march'', ''may'', ''midnight'', ''monday'', ''month'', ''morning'', ''next'', ''night'', ''noon'',
      ''november'', ''now'', ''october'', ''saturday'', ''september'', ''spring'', ''summer'', ''sunday'', ''the'', ''this'',
      ''thursday'', ''today'', ''tomorrow'', ''tonight'', ''tuesday'', ''wednesday'', ''week'', ''weekend'', ''winter'', ''year'',
      ''yesterday'']"

definition WEATHER_TEMPORAL_WORDS :: "string list" where
  "WEATHER_TEMPORAL_WORDS =
     filter (\<lambda>w. w \<notin> {''c'', ''celsius'', ''centigrade'', ''degrees'', ''f'', ''fahrenheit'', ''k'', ''kelvin'', ''the''}) WEATHER_MODIFIER_WORDS"

definition digits :: "nat \<Rightarrow> nat option \<Rightarrow> rx" where
  "digits lo hi = RRep is_digit lo hi"

definition clock_time :: rx where
  "clock_time = seq [digits 1 (Some 2), opt (seq [one_of '':'', digits 2 (Some 2)]), spaces, alts [lit ''am'', lit ''pm'']]"

definition WEATHER_TEMPORAL_PREFIX :: rx where
  "WEATHER_TEMPORAL_PREFIX =
     seq [alts [clock_time,
            seq [alts (map lit [''zero'', ''one'', ''two'', ''three'', ''four'', ''five'', ''six'', ''seven'', ''eight'', ''nine'', ''ten''] @ [digits 1 None]),
                 spaces1,
                 alts (map lit [''minute'', ''minutes'', ''hour'', ''hours'', ''day'', ''days'', ''week'', ''weeks'', ''month'', ''months''])]],
          RBound]"

definition PREPOSITION :: rx where
  "PREPOSITION = seq [RBound, alts (map lit [''in'', ''for'', ''at'', ''near'']), RBound]"

definition strip_quotes :: "string \<Rightarrow> string" where
  "strip_quotes t = strip_chars [CHR 0x22, CHR 0x27, CHR ''('', CHR '')'', CHR 0x5B, CHR 0x5D, CHR 0x7B, CHR 0x7D] t"

definition isdigit_str :: "string \<Rightarrow> bool" where
  "isdigit_str s \<longleftrightarrow> s \<noteq> [] \<and> list_all (\<lambda>c. is_digit c \<or> (of_char c :: nat) \<in> {178, 179, 185}) s"

definition unit_letter :: rx where
  "unit_letter = alts (map lit [''c'', ''f'', ''k''])"

definition DATE_OR_TIME :: rx where
  "DATE_OR_TIME = alts [clock_time, seq [digits 4 (Some 4), one_of ''-'', digits 1 (Some 2), one_of ''-'', digits 1 (Some 2)]]"

definition TEMPERATURE :: rx where
  "TEMPERATURE =
     alts [seq [opt (one_of [CHR 0xB0]), unit_letter],
           seq [opt (one_of ''-+''), digits 1 None, opt (seq [one_of ''.'', digits 1 None]), one_of [CHR 0xB0], opt unit_letter]]"

text \<open>Whether the words after one preposition name a plausible place.\<close>

definition names_place :: "string \<Rightarrow> bool" where
  "names_place following =
     (let tokens = take 3 (findall_texts (RRep (\<lambda>c. \<not> is_space c \<and> c \<notin> set '',;?.!'') 1 None) following) in
      case tokens of
        [] \<Rightarrow> False
      | t0 # rest \<Rightarrow>
          let phrase = py_join '' '' (map strip_quotes tokens);
              first = ascii_lower (strip_quotes t0);
              second = (case rest of [] \<Rightarrow> [] | t1 # _ \<Rightarrow> ascii_lower (strip_quotes t1)) in
          if rmatch WEATHER_TEMPORAL_PREFIX phrase 0 \<noteq> None then False
          else if first \<in> set WEATHER_MODIFIER_WORDS then first = ''the'' \<and> second \<notin> set WEATHER_TEMPORAL_WORDS
          else if second \<in> {''degree'', ''degrees'', ''hour'', ''hours''} \<and> isdigit_str first then False
          else if fullmatch DATE_OR_TIME first \<noteq> None then False
          else fullmatch TEMPERATURE first = None)"

definition has_weather_location :: "string \<Rightarrow> bool" where
  "has_weather_location query = list_ex (\<lambda>(j, k). names_place (drop k query)) (find_all PREPOSITION query)"

definition default_web_clarification :: "string \<Rightarrow> string option" where
  "default_web_clarification query =
     (let lowered = ascii_lower (py_join '' '' (py_split (py_strip query))) in
      if search_from (seq [RBound, alts (map lit [''weather'', ''forecast'', ''temperature'']), RBound]) lowered 0 \<noteq> None \<and>
         \<not> has_weather_location lowered then Some ''Which location should I use?''
      else if search_at_end (seq [RBound, alts [lit ''search'', lit ''find'', lit ''look for''], spaces]) lowered
      then Some ''What should I search for?''
      else None)"

section \<open>The request\<close>

definition rstrip_chars :: "char list \<Rightarrow> string \<Rightarrow> string" where
  "rstrip_chars cs s = rev (dropWhile (\<lambda>c. c \<in> set cs) (rev s))"

definition refine_query :: "string \<Rightarrow> string" where
  "refine_query query =
     (let normalized = py_join '' '' (py_split (py_strip query)) in
      take 2000 (rstrip_chars '' ;'' (case split_at ''refined:'' normalized of None \<Rightarrow> normalized | Some (before, _) \<Rightarrow> before)))"

definition bounded_text :: "nat \<Rightarrow> string \<Rightarrow> string" where
  "bounded_text limit v = take limit (py_join '' '' (py_split (py_strip v)))"

definition provider_query :: "string \<times> string \<times> string \<Rightarrow> string" where
  "provider_query c =
     (case c of (original_query, question, answer) \<Rightarrow>
        ''Original request: '' @ bounded_text 650 original_query @ [CHR 0x0A] @
        ''Clarification asked: '' @ bounded_text 400 question @ [CHR 0x0A] @
        ''User answer: '' @ bounded_text 800 answer)"

record history_entry =
  he_turn_id :: string
  he_query :: string
  he_text :: string
  he_result_id :: string

definition contextual_input :: "history_entry list \<Rightarrow> string \<Rightarrow> string" where
  "contextual_input history query =
     (if history = [] then query
      else
        let previous = drop (length history - 4) history;
            ctxt = py_join [CHR 0x0A] (map (\<lambda>e. ''Previous query: '' @ he_query e @ [CHR 0x0A] @
                                               ''Previous answer: '' @ take 1200 (he_text e)) previous) in
        ''Use this prior topic context when useful:'' @ [CHR 0x0A] @ ctxt @ [CHR 0x0A] @ ''Current request: '' @ query)"

record worker_request =
  wq_model :: string
  wq_tools :: "string list"
  wq_tool_choice :: string
  wq_include :: "string list"
  wq_instructions :: string
  wq_input :: string
  wq_text_format :: string
  wq_store :: bool
  wq_reasoning_effort :: "string option"

definition build_worker_request_kwargs :: "string \<Rightarrow> string option \<Rightarrow> string \<Rightarrow> string \<Rightarrow> worker_request" where
  "build_worker_request_kwargs model effort query instructions =
     \<lparr>wq_model = model, wq_tools = [''web_search''], wq_tool_choice = ''required'', wq_include = [''web_search_call.action.sources''],
      wq_instructions = instructions, wq_input = query, wq_text_format = ''web_search_answer'', wq_store = False,
      wq_reasoning_effort = effort\<rparr>"

section \<open>The response\<close>

datatype search_error =
    WorkerDeclined
  | WorkerClarify string
  | ProviderTimeout
  | ProviderFailed
  | NotIterable
  | BadResult result_error

text \<open>\<open>_value\<close>: an item of a mapping or an attribute of an object; no other value has the names asked for.\<close>

definition value_of :: "store \<Rightarrow> pyval \<Rightarrow> string \<Rightarrow> pyval" where
  "value_of h v name =
     (case v of
        PRef a \<Rightarrow> (case obj_at h a of PMap m \<Rightarrow> get_value m name | PObj attrs \<Rightarrow> get_value attrs name | PList _ \<Rightarrow> PNone)
      | _ \<Rightarrow> PNone)"

text \<open>Iterating over \<open>v or []\<close>.\<close>

definition iterate :: "store \<Rightarrow> pyval \<Rightarrow> search_error + pyval list" where
  "iterate h v =
     (if \<not> py_true h v then Inr []
      else case v of
        PStr s \<Rightarrow> Inr (map (\<lambda>c. PStr [c]) s)
      | PBytes s \<Rightarrow> Inr (map (\<lambda>c. PInt (of_char c)) s)
      | PRef a \<Rightarrow>
          (case obj_at h a of
             PList l \<Rightarrow> Inr l
           | PMap m \<Rightarrow> Inr (map PStr (dkeys m))
           | PObj _ \<Rightarrow> Inl NotIterable)
      | _ \<Rightarrow> Inl NotIterable)"

fun content_chunks :: "store \<Rightarrow> pyval list \<Rightarrow> string list" where
  "content_chunks h [] = []"
| "content_chunks h (c # cs) = (case value_of h c ''text'' of PStr t \<Rightarrow> t # content_chunks h cs | _ \<Rightarrow> content_chunks h cs)"

fun output_chunks :: "store \<Rightarrow> pyval list \<Rightarrow> search_error + string list" where
  "output_chunks h [] = Inr []"
| "output_chunks h (item # items) =
     (case iterate h (value_of h item ''content'') of
        Inl e \<Rightarrow> Inl e
      | Inr cs \<Rightarrow> (case output_chunks h items of Inl e \<Rightarrow> Inl e | Inr ts \<Rightarrow> Inr (content_chunks h cs @ ts)))"

definition response_text :: "store \<Rightarrow> pyval \<Rightarrow> search_error + string" where
  "response_text h response =
     (case value_of h response ''output_text'' of
        PStr (c # cs) \<Rightarrow> Inr (c # cs)
      | _ \<Rightarrow>
          (case iterate h (value_of h response ''output'') of
             Inl e \<Rightarrow> Inl e
           | Inr items \<Rightarrow>
               (case output_chunks h items of Inl e \<Rightarrow> Inl e | Inr ts \<Rightarrow> Inr (py_strip (py_join [CHR 0x0A] ts)))))"

record web_search_answer =
  wa_display_text :: string
  wa_spoken_text :: string

text \<open>
  \<open>WebSearchAnswer.model_validate_json\<close>: the parser gives the members of a JSON object, a member that is
  not a string being \<open>None\<close>, and fails on every other text. Of a repeated member the last one counts.
\<close>

definition validate_answer :: "(string \<Rightarrow> (string, string option) dict option) \<Rightarrow> string \<Rightarrow> web_search_answer option" where
  "validate_answer parse raw =
     (case parse raw of
        None \<Rightarrow> None
      | Some members \<Rightarrow>
          if set (dkeys members) \<noteq> {''display_text'', ''spoken_text''} then None
          else
            (case (map_of (rev members) ''display_text'', map_of (rev members) ''spoken_text'') of
               (Some (Some d), Some (Some s)) \<Rightarrow>
                 if py_strip d = [] \<or> py_strip s = [] \<or> 600 < length (py_strip s) then None
                 else Some \<lparr>wa_display_text = py_strip d, wa_spoken_text = py_strip s\<rparr>
             | _ \<Rightarrow> None))"

definition response_answer ::
  "(string \<Rightarrow> (string, string option) dict option) \<Rightarrow> store \<Rightarrow> pyval \<Rightarrow> search_error + web_search_answer" where
  "response_answer parse h response =
     (case response_text h response of
        Inl e \<Rightarrow> Inl e
      | Inr raw \<Rightarrow>
          if raw = [] then Inl WorkerDeclined
          else case validate_answer parse raw of None \<Rightarrow> Inl WorkerDeclined | Some a \<Rightarrow> Inr a)"

section \<open>Citations in the response\<close>

text \<open>
  \<open>_response_citations\<close>: a breadth-first walk over the response with bounds on depth, nodes and
  candidates. \<open>wk_seen\<close> holds the identities of the objects met.
\<close>

record walk =
  wk_citations :: "(string, pyval) dict list"
  wk_queue :: "(pyval \<times> nat) list"
  wk_seen :: "nat list"
  wk_visited :: nat

definition found :: "string \<Rightarrow> string \<Rightarrow> (string, pyval) dict" where
  "found title url = [(''title'', PStr title), (''url'', PStr url)]"

fun enqueue_children :: "nat \<Rightarrow> nat \<Rightarrow> pyval list \<Rightarrow> walk \<Rightarrow> walk" where
  "enqueue_children max_nodes depth [] w = w"
| "enqueue_children max_nodes depth (child # children) w =
     (if max_nodes \<le> wk_visited w + length (wk_queue w) then w
      else enqueue_children max_nodes depth children (w\<lparr>wk_queue := wk_queue w @ [(child, depth + 1)]\<rparr>))"

definition CHILD_NAMES :: "string list" where
  "CHILD_NAMES = [''output'', ''content'', ''annotations'', ''results'', ''action'', ''sources'']"

text \<open>The citation a value holds, if any.\<close>

definition citation_in :: "(pyval \<Rightarrow> string) \<Rightarrow> store \<Rightarrow> pyval \<Rightarrow> (string, pyval) dict list" where
  "citation_in sh h v =
     (case v of
        PRef a \<Rightarrow>
          (case obj_at h a of
             PMap m \<Rightarrow>
               (case get_value m ''url'' of
                  PStr url \<Rightarrow>
                    if (case split_at ''citation'' (ascii_lower (case map_of m ''type'' of None \<Rightarrow> [] | Some t \<Rightarrow> to_str sh t)) of
                          None \<Rightarrow> False | Some _ \<Rightarrow> True) \<or> map_of m ''title'' \<noteq> None
                    then [found (str_or_empty sh h (get_value m ''title'')) url] else []
                | _ \<Rightarrow> [])
           | PList _ \<Rightarrow> []
           | PObj attrs \<Rightarrow>
               (case get_value attrs ''url'' of
                  PStr url \<Rightarrow> [found (str_or_empty sh h (get_value attrs ''title'')) url]
                | _ \<Rightarrow> []))
      | _ \<Rightarrow> [])"

definition payload_children :: "store \<Rightarrow> pyval \<Rightarrow> pyval list" where
  "payload_children h v =
     (case v of
        PRef a \<Rightarrow>
          (case obj_at h a of
             PMap m \<Rightarrow> dvals m
           | PList l \<Rightarrow> l
           | PObj attrs \<Rightarrow> filter (\<lambda>c. c \<noteq> PNone) (map (get_value attrs) CHILD_NAMES))
      | _ \<Rightarrow> [])"

definition is_list :: "store \<Rightarrow> pyval \<Rightarrow> bool" where
  "is_list h v \<longleftrightarrow> (case v of PRef a \<Rightarrow> (case obj_at h a of PList _ \<Rightarrow> True | _ \<Rightarrow> False) | _ \<Rightarrow> False)"

definition identity_seen :: "pyval \<Rightarrow> walk \<Rightarrow> bool" where
  "identity_seen v w = (case v of PRef a \<Rightarrow> a \<in> set (wk_seen w) | _ \<Rightarrow> False)"

definition note_identity :: "pyval \<Rightarrow> walk \<Rightarrow> walk" where
  "note_identity v w = (case v of PRef a \<Rightarrow> w\<lparr>wk_seen := a # wk_seen w\<rparr> | _ \<Rightarrow> w)"

text \<open>One round of the loop, for the value popped.\<close>

definition visit :: "(pyval \<Rightarrow> string) \<Rightarrow> store \<Rightarrow> nat \<Rightarrow> nat \<Rightarrow> pyval \<Rightarrow> nat \<Rightarrow> walk \<Rightarrow> walk" where
  "visit sh h max_depth max_nodes v depth w =
     (if max_depth < depth \<or> identity_seen v w then w
      else
        let w = note_identity v w; w = w\<lparr>wk_citations := wk_citations w @ citation_in sh h v\<rparr> in
        if is_list h v \<or> depth < max_depth then enqueue_children max_nodes depth (payload_children h v) w else w)"

function walk_response :: "(pyval \<Rightarrow> string) \<Rightarrow> store \<Rightarrow> nat \<Rightarrow> nat \<Rightarrow> nat \<Rightarrow> walk \<Rightarrow> walk" where
  "walk_response sh h max_candidates max_depth max_nodes w =
     (case wk_queue w of
        [] \<Rightarrow> w
      | (v, depth) # rest \<Rightarrow>
          if max_nodes \<le> wk_visited w \<or> max_candidates \<le> length (wk_citations w) then w
          else walk_response sh h max_candidates max_depth max_nodes
                 (visit sh h max_depth max_nodes v depth (w\<lparr>wk_queue := rest, wk_visited := wk_visited w + 1\<rparr>)))"
  by auto

lemma enqueue_fields [simp]:
  "wk_visited (enqueue_children n d cs w) = wk_visited w" "wk_citations (enqueue_children n d cs w) = wk_citations w" "wk_seen (enqueue_children n d cs w) = wk_seen w"
  by (induction n d cs w rule: enqueue_children.induct) auto

lemma visit_visited [simp]: "wk_visited (visit sh h md mn v d w) = wk_visited w"
  by (auto simp: visit_def note_identity_def Let_def split: pyval.split)

termination walk_response
  by (relation "measure (\<lambda>(sh, h, mc, md, mn, w). mn - wk_visited w)") auto

declare walk_response.simps [simp del]

definition MAX_DEPTH :: nat where
  "MAX_DEPTH = 64"

definition MAX_NODES :: nat where
  "MAX_NODES = 10000"

definition response_citations :: "(pyval \<Rightarrow> string) \<Rightarrow> store \<Rightarrow> pyval \<Rightarrow> nat \<Rightarrow> (string, pyval) dict list" where
  "response_citations sh h response max_candidates =
     wk_citations (walk_response sh h max_candidates MAX_DEPTH MAX_NODES
       \<lparr>wk_citations = [], wk_queue = [(response, 0)], wk_seen = [], wk_visited = 0\<rparr>)"

section \<open>Searching\<close>

record search_worker =
  sw_worker_id :: string
  sw_model :: string
  sw_reasoning_effort :: "string option"
  sw_decline :: "string \<Rightarrow> bool"
  sw_needs_clarification :: "string \<Rightarrow> string option"
  sw_max_citations :: nat
  sw_history :: "history_entry list"

datatype provider_outcome = Responded store pyval | TimedOut | ProviderRaised

text \<open>What the interpreter and the framework supply: URL checks, \<open>str\<close>, the JSON parser, the clock and fresh ids.\<close>

record search_platform =
  pf_bracketed_ok :: "string \<Rightarrow> bool"
  pf_str :: "pyval \<Rightarrow> string"
  pf_parse :: "string \<Rightarrow> (string, string option) dict option"
  pf_now :: string
  pf_fresh :: string

definition append_context :: "history_entry \<Rightarrow> search_worker \<Rightarrow> search_worker" where
  "append_context e w = w\<lparr>sw_history := sw_history w @ [e]\<rparr>"

text \<open>The closure \<open>execute\<close>, once its turn in the mailbox has come: the request it sends, and the rest of it.\<close>

definition search_request :: "search_worker \<Rightarrow> string \<Rightarrow> string \<Rightarrow> worker_request" where
  "search_request w instructions refined =
     build_worker_request_kwargs (sw_model w) (sw_reasoning_effort w) (contextual_input (sw_history w) refined) instructions"

definition execute ::
  "search_platform \<Rightarrow> provider_outcome \<Rightarrow> string \<Rightarrow> epoch option \<Rightarrow> string \<Rightarrow> search_worker \<Rightarrow> search_worker \<times> (search_error + grounded_result)" where
  "execute pf outcome turn_id origin_epoch refined w =
     (case outcome of
        TimedOut \<Rightarrow> (w, Inl ProviderTimeout)
      | ProviderRaised \<Rightarrow> (w, Inl ProviderFailed)
      | Responded h response \<Rightarrow>
          (case response_answer (pf_parse pf) h response of
             Inl e \<Rightarrow> (w, Inl e)
           | Inr answer \<Rightarrow>
               (case normalize_citations (pf_bracketed_ok pf) (pf_str pf) h
                       (response_citations (pf_str pf) h response (max (sw_max_citations w * 4) (sw_max_citations w))) of
                  Inl e \<Rightarrow> (w, Inl (BadResult e))
                | Inr cs \<Rightarrow>
                    (case canonical_result (pf_bracketed_ok pf) (pf_str pf) h (pf_now pf) (sw_worker_id w) turn_id (wa_display_text answer)
                            (Some (wa_spoken_text answer)) (map dump_citation (take (sw_max_citations w) cs)) None (pf_fresh pf) origin_epoch of
                       Inl e \<Rightarrow> (w, Inl (BadResult e))
                     | Inr r \<Rightarrow>
                         (append_context \<lparr>he_turn_id = turn_id, he_query = refined, he_text = wa_display_text answer, he_result_id = gr_result_id r\<rparr> w,
                          Inr r)))))"

definition search_precheck :: "string \<Rightarrow> (string \<times> string \<times> string) option \<Rightarrow> search_worker \<Rightarrow> search_error + string" where
  "search_precheck query clarification w =
     (let refined = (case clarification of Some c \<Rightarrow> provider_query c | None \<Rightarrow> refine_query query) in
      if sw_decline w refined then Inl WorkerDeclined
      else case clarification of
        Some _ \<Rightarrow> Inr refined
      | None \<Rightarrow>
          (case sw_needs_clarification w refined of
             Some (c # cs) \<Rightarrow> Inl (WorkerClarify (c # cs))
           | _ \<Rightarrow> Inr refined))"

definition search ::
  "search_platform \<Rightarrow> provider_outcome \<Rightarrow> string \<Rightarrow> string \<Rightarrow> epoch option \<Rightarrow> (string \<times> string \<times> string) option \<Rightarrow>
   search_worker \<Rightarrow> search_worker \<times> (search_error + grounded_result)" where
  "search pf outcome query turn_id origin_epoch clarification w =
     (case search_precheck query clarification w of
        Inl e \<Rightarrow> (w, Inl e)
      | Inr refined \<Rightarrow> execute pf outcome turn_id origin_epoch refined w)"

text \<open>\<open>run\<close> with a query string; \<open>None\<close> is the decline outcome.\<close>

definition run_query ::
  "search_platform \<Rightarrow> provider_outcome \<Rightarrow> string \<Rightarrow> search_worker \<Rightarrow> search_worker \<times> (search_error + grounded_result) option" where
  "run_query pf outcome query w =
     (if sw_decline w (refine_query query) then (w, None)
      else let (w, r) = search pf outcome query ''turn-worker'' None None w in (w, Some r))"

end
