(* ===== verification/Web_Search_Properties.thy ===== *)
theory Web_Search_Properties
  imports Web_Search
begin

text \<open>
  Properties of the web-search worker: the walk over a provider response is bounded, sound and, within its
  bounds, complete, for cyclic responses too; a search returns a grounded result and extends the history, or
  fails and leaves the worker as it was; requests are bounded however long the history grows.
\<close>

section \<open>The walk over a response\<close>

text \<open>\<open>reaches h d v u\<close>: \<open>u\<close> is reached from \<open>v\<close> by following \<open>d\<close> children.\<close>

inductive reaches :: "store \<Rightarrow> nat \<Rightarrow> pyval \<Rightarrow> pyval \<Rightarrow> bool" for h where
  here: "reaches h 0 v v"
| child: "reaches h d v u \<Longrightarrow> c \<in> set (payload_children h u) \<Longrightarrow> reaches h (Suc d) v c"

lemma enqueue_children_take:
  "wk_queue (enqueue_children n d cs w) = wk_queue w @ map (\<lambda>c. (c, d + 1)) (take (n - (wk_visited w + length (wk_queue w))) cs)"
proof (induction n d cs w rule: enqueue_children.induct)
  case (2 n d c cs w)
  have "n - Suc k = m" if "n - k = Suc m" for k m using that by simp
  with 2 show ?case by (cases "n - (wk_visited w + length (wk_queue w))") auto
qed simp

lemma note_identity_fields [simp]:
  "wk_queue (note_identity v w) = wk_queue w" "wk_citations (note_identity v w) = wk_citations w"
  "wk_visited (note_identity v w) = wk_visited w"
  by (auto simp: note_identity_def split: pyval.split)

lemma citation_in_short: "length (citation_in sh h v) \<le> 1"
  by (auto simp: citation_in_def split: pyval.split pyobj.split)

lemma citation_in_scalar: "(\<And>a. v \<noteq> PRef a) \<Longrightarrow> citation_in sh h v = []"
  by (cases v) (auto simp: citation_in_def)

definition walk_inv :: "(pyval \<Rightarrow> string) \<Rightarrow> store \<Rightarrow> pyval \<Rightarrow> nat \<Rightarrow> nat \<Rightarrow> walk \<Rightarrow> bool" where
  "walk_inv sh h r mc mn w \<longleftrightarrow>
     length (wk_citations w) \<le> mc \<and> wk_visited w + length (wk_queue w) \<le> mn \<and>
     length (wk_citations w) \<le> length (wk_seen w) \<and> distinct (wk_seen w) \<and>
     (\<forall>a \<in> set (wk_seen w). \<exists>d. reaches h d r (PRef a)) \<and>
     (\<forall>(v, d) \<in> set (wk_queue w). reaches h d r v) \<and>
     (\<forall>c \<in> set (wk_citations w). \<exists>a \<in> set (wk_seen w). c \<in> set (citation_in sh h (PRef a)))"

text \<open>One round keeps the invariant when the loop condition holds.\<close>

lemma visit_inv:
  assumes "walk_inv sh h r mc mn w" "wk_queue w = (v, d) # rest" "wk_visited w < mn" "length (wk_citations w) < mc"
  shows "walk_inv sh h r mc mn (visit sh h md mn v d (w\<lparr>wk_queue := rest, wk_visited := wk_visited w + 1\<rparr>))"
proof (cases "md < d \<or> identity_seen v w")
  case True
  then show ?thesis using assms by (auto simp: visit_def walk_inv_def identity_seen_def split: pyval.splits)
next
  case False
  let ?w = "w\<lparr>wk_queue := rest, wk_visited := wk_visited w + 1\<rparr>"
  let ?u = "(note_identity v ?w)\<lparr>wk_citations := wk_citations w @ citation_in sh h v\<rparr>"
  have rv: "reaches h d r v" using assms(1,2) by (auto simp: walk_inv_def)
  have u: "walk_inv sh h r mc mn ?u"
  proof (cases v)
    case (PRef a)
    then show ?thesis
      using assms False rv citation_in_short [of sh h v]
      by (auto simp: walk_inv_def note_identity_def identity_seen_def)
  qed (use assms in \<open>auto simp: walk_inv_def note_identity_def citation_in_def\<close>)
  have "\<forall>(c, k) \<in> set (wk_queue (enqueue_children mn d (payload_children h v) ?u)). reaches h k r c"
    using u rv by (auto simp: enqueue_children_take walk_inv_def dest: in_set_takeD intro: reaches.child)
  moreover have "wk_visited ?u + length (wk_queue (enqueue_children mn d (payload_children h v) ?u)) \<le> mn"
    using u by (auto simp: enqueue_children_take walk_inv_def)
  ultimately have "walk_inv sh h r mc mn (enqueue_children mn d (payload_children h v) ?u)"
    using u by (simp add: walk_inv_def)
  then show ?thesis using False u by (simp add: visit_def Let_def identity_seen_def cong: pyval.case_cong)
qed

lemma walk_response_inv: "walk_inv sh h r mc mn w \<Longrightarrow> walk_inv sh h r mc mn (walk_response sh h mc md mn w)"
proof (induction sh h mc md mn w rule: walk_response.induct)
  case (1 sh h mc md mn w)
  show ?case
  proof (cases "wk_queue w")
    case (Cons x rest)
    obtain v d where x: "x = (v, d)" by force
    show ?thesis
    proof (cases "mn \<le> wk_visited w \<or> mc \<le> length (wk_citations w)")
      case False
      then have "walk_inv sh h r mc mn (visit sh h md mn v d (w\<lparr>wk_queue := rest, wk_visited := wk_visited w + 1\<rparr>))"
        using visit_inv [OF "1.prems" Cons [unfolded x]] by simp
      then show ?thesis using 1(1) [OF Cons x [symmetric] False] Cons x False by (simp add: walk_response.simps [of sh h mc md mn w])
    qed (use 1 Cons x in \<open>simp add: walk_response.simps [of sh h mc md mn w]\<close>)
  qed (use 1 in \<open>simp add: walk_response.simps [of sh h mc md mn w]\<close>)
qed

text \<open>
  Completeness. Nothing was cut off when the nodes visited and queued stay below the bound; \<open>closed\<close> says
  that what was seen has been read and that its children are seen or queued.
\<close>

definition nodes :: "walk \<Rightarrow> nat" where
  "nodes w = wk_visited w + length (wk_queue w)"

definition pending_refs :: "walk \<Rightarrow> nat set" where
  "pending_refs w = {a. PRef a \<in> fst ` set (wk_queue w)}"

definition closed :: "(pyval \<Rightarrow> string) \<Rightarrow> store \<Rightarrow> pyval \<Rightarrow> walk \<Rightarrow> bool" where
  "closed sh h r w \<longleftrightarrow>
     (\<forall>a. r = PRef a \<longrightarrow> a \<in> set (wk_seen w) \<union> pending_refs w) \<and>
     (\<forall>a \<in> set (wk_seen w).
        set (citation_in sh h (PRef a)) \<subseteq> set (wk_citations w) \<and>
        (\<forall>b. PRef b \<in> set (payload_children h (PRef a)) \<longrightarrow> b \<in> set (wk_seen w) \<union> pending_refs w))"

lemma enqueue_untruncated:
  "nodes (enqueue_children n d cs w) < n \<Longrightarrow> wk_queue (enqueue_children n d cs w) = wk_queue w @ map (\<lambda>c. (c, d + 1)) cs"
  by (auto simp: enqueue_children_take nodes_def min_def split: if_splits)

lemma visit_nodes: "wk_queue w = (v, d) # rest \<Longrightarrow> nodes w \<le> nodes (visit sh h md mn v d (w\<lparr>wk_queue := rest, wk_visited := wk_visited w + 1\<rparr>))"
  by (auto simp: visit_def nodes_def enqueue_children_take Let_def)

lemma walk_nodes: "nodes w \<le> nodes (walk_response sh h mc md mn w)"
proof (induction sh h mc md mn w rule: walk_response.induct)
  case (1 sh h mc md mn w)
  show ?case
  proof (cases "wk_queue w = [] \<or> mn \<le> wk_visited w \<or> mc \<le> length (wk_citations w)")
    case True
    then show ?thesis by (auto simp: walk_response.simps [of sh h mc md mn w] split: list.split)
  next
    case False
    then obtain v d rest where q: "wk_queue w = (v, d) # rest" by (cases "wk_queue w") auto
    then show ?thesis
      using 1 [OF q refl] False visit_nodes [OF q, of sh h md mn]
      by (auto simp: walk_response.simps [of sh h mc md mn w])
  qed
qed

lemma visit_closed:
  assumes "closed sh h r w" "wk_queue w = (v, d) # rest" "d < md"
    and "nodes (visit sh h md mn v d (w\<lparr>wk_queue := rest, wk_visited := wk_visited w + 1\<rparr>)) < mn"
  shows "closed sh h r (visit sh h md mn v d (w\<lparr>wk_queue := rest, wk_visited := wk_visited w + 1\<rparr>))"
proof (cases "identity_seen v w")
  case True
  then obtain a where a: "v = PRef a" "a \<in> set (wk_seen w)" by (auto simp: identity_seen_def split: pyval.splits)
  then have "pending_refs w = insert a (pending_refs (w\<lparr>wk_queue := rest, wk_visited := wk_visited w + 1\<rparr>))"
    using assms(2) by (auto simp: pending_refs_def)
  then show ?thesis using assms(1) a True by (auto simp: visit_def closed_def identity_seen_def)
next
  case False
  let ?u = "(note_identity v (w\<lparr>wk_queue := rest, wk_visited := wk_visited w + 1\<rparr>))\<lparr>wk_citations := wk_citations w @ citation_in sh h v\<rparr>"
  have vis: "visit sh h md mn v d (w\<lparr>wk_queue := rest, wk_visited := wk_visited w + 1\<rparr>) = enqueue_children mn d (payload_children h v) ?u"
    using False assms(3) by (simp add: visit_def Let_def identity_seen_def cong: pyval.case_cong)
  then have q: "wk_queue (enqueue_children mn d (payload_children h v) ?u) = rest @ map (\<lambda>c. (c, d + 1)) (payload_children h v)"
    using enqueue_untruncated [of mn d "payload_children h v" ?u] assms(4) by simp
  show ?thesis
  proof (cases "\<exists>a. v = PRef a")
    case True
    then obtain a where PRef: "v = PRef a" by blast
    have p: "pending_refs w = insert a {b. PRef b \<in> fst ` set rest}"
      using assms(2) PRef by (auto simp: pending_refs_def)
    have n: "pending_refs (enqueue_children mn d (payload_children h v) ?u) =
        {b. PRef b \<in> fst ` set rest} \<union> {b. PRef b \<in> set (payload_children h v)}"
      unfolding pending_refs_def q by force
    have s: "set (wk_seen ?u) = insert a (set (wk_seen w))" using PRef by (simp add: note_identity_def)
    show ?thesis using assms(1) PRef unfolding vis closed_def n p enqueue_fields s by auto
  next
    case scalar: False
    then have "payload_children h v = []" "citation_in sh h v = []" "note_identity v w' = w'" for w'
      by (auto simp: payload_children_def citation_in_def note_identity_def split: pyval.split)
    moreover have "pending_refs w = {b. PRef b \<in> fst ` set rest}" using assms(2) scalar by (auto simp: pending_refs_def)
    ultimately show ?thesis using assms(1) unfolding vis closed_def by (simp add: pending_refs_def)
  qed
qed

lemma walk_closed:
  assumes "\<And>d v. reaches h d r v \<Longrightarrow> d < md"
  shows "walk_inv sh h r mc mn w \<Longrightarrow> closed sh h r w \<Longrightarrow> nodes (walk_response sh h mc md mn w) < mn \<Longrightarrow>
    length (wk_citations (walk_response sh h mc md mn w)) < mc \<Longrightarrow>
    closed sh h r (walk_response sh h mc md mn w) \<and> wk_queue (walk_response sh h mc md mn w) = []"
  using assms
proof (induction sh h mc md mn w rule: walk_response.induct)
  case (1 sh h mc md mn w)
  show ?case
  proof (cases "wk_queue w")
    case Nil
    then show ?thesis using 1 by (simp add: walk_response.simps [of sh h mc md mn w])
  next
    case (Cons x rest)
    obtain v d where x: "x = (v, d)" by force
    note q = Cons [unfolded x]
    have stop: "\<not> (mn \<le> wk_visited w \<or> mc \<le> length (wk_citations w))"
    proof
      assume s: "mn \<le> wk_visited w \<or> mc \<le> length (wk_citations w)"
      then have "walk_response sh h mc md mn w = w" using q by (simp add: walk_response.simps [of sh h mc md mn w])
      then show False using s "1.prems"(3,4) by (auto simp: nodes_def)
    qed
    let ?n = "visit sh h md mn v d (w\<lparr>wk_queue := rest, wk_visited := wk_visited w + 1\<rparr>)"
    have eq: "walk_response sh h mc md mn w = walk_response sh h mc md mn ?n"
      using q stop by (simp add: walk_response.simps [of sh h mc md mn w])
    have inv: "walk_inv sh h r mc mn ?n" using visit_inv [OF "1.prems"(1) q] stop by simp
    have d: "d < md" using "1.prems"(1,5) q by (auto simp: walk_inv_def)
    have small: "nodes ?n < mn" using walk_nodes [of ?n sh h mc md mn] eq "1.prems"(3) by simp
    have cl: "closed sh h r ?n" using visit_closed [OF "1.prems"(2) q d small] .
    show ?thesis using "1.IH" [OF q refl stop inv cl _ _ "1.prems"(5)] eq "1.prems"(3,4) by simp
  qed
qed

lemma closed_reaches:
  "reaches h d r u \<Longrightarrow> closed sh h r w \<Longrightarrow> wk_queue w = [] \<Longrightarrow> u = PRef a \<Longrightarrow> a \<in> set (wk_seen w)"
proof (induction arbitrary: a rule: reaches.induct)
  case here
  then show ?case by (auto simp: closed_def pending_refs_def)
next
  case (child d v u c)
  then obtain b where b: "u = PRef b" by (cases u) (auto simp: payload_children_def)
  then have "b \<in> set (wk_seen w)" using child by blast
  then show ?case using child(2,4,5,6) b by (auto simp: closed_def pending_refs_def)
qed

definition start_walk :: "pyval \<Rightarrow> walk" where
  "start_walk response = \<lparr>wk_citations = [], wk_queue = [(response, 0)], wk_seen = [], wk_visited = 0\<rparr>"

lemma start_walk_inv: "walk_inv sh h r mc MAX_NODES (start_walk r)"
  by (simp add: walk_inv_def start_walk_def MAX_NODES_def reaches.here)

lemma response_citations_inv:
  "walk_inv sh h r mc MAX_NODES (walk_response sh h mc MAX_DEPTH MAX_NODES (start_walk r)) \<and>
   response_citations sh h r mc = wk_citations (walk_response sh h mc MAX_DEPTH MAX_NODES (start_walk r))"
  using walk_response_inv [OF start_walk_inv] by (simp add: response_citations_def start_walk_def)

text \<open>
  The search for citations is bounded and sound on every response, cyclic ones included: it ends, returns
  at most the candidates asked for, and every citation is one that an object reachable from the response holds, no
  object being read twice.
\<close>
theorem citation_walk_bounded:
  "length (response_citations sh h r n) \<le> n \<and>
   set (response_citations sh h r n) \<subseteq> (\<Union>a \<in> {a. \<exists>d. reaches h d r (PRef a)}. set (citation_in sh h (PRef a))) \<and>
   (\<exists>objects. distinct objects \<and> length (response_citations sh h r n) \<le> length objects \<and>
              set objects \<subseteq> {a. \<exists>d. reaches h d r (PRef a)})"
proof -
  let ?w = "walk_response sh h n MAX_DEPTH MAX_NODES (start_walk r)"
  have inv: "walk_inv sh h r n MAX_NODES ?w" and eq: "response_citations sh h r n = wk_citations ?w"
    using response_citations_inv by blast+
  have "length (wk_citations ?w) \<le> n" "distinct (wk_seen ?w)" "length (wk_citations ?w) \<le> length (wk_seen ?w)"
    "set (wk_seen ?w) \<subseteq> {a. \<exists>d. reaches h d r (PRef a)}"
    "set (wk_citations ?w) \<subseteq> (\<Union>a \<in> set (wk_seen ?w). set (citation_in sh h (PRef a)))"
    using inv by (auto simp: walk_inv_def)
  moreover from this have "set (wk_citations ?w) \<subseteq> (\<Union>a \<in> {a. \<exists>d. reaches h d r (PRef a)}. set (citation_in sh h (PRef a)))"
    by (meson UN_mono order_refl order_trans)
  ultimately show ?thesis unfolding eq by metis
qed

text \<open>
  Within its bounds the search for citations misses nothing. For a response less than 64 levels deep, when
  the walk used neither all its nodes nor all its candidates, the citations found are exactly those held by the
  objects reachable from the response.
\<close>
theorem citation_walk_complete:
  assumes "\<And>d v. reaches h d r v \<Longrightarrow> d < MAX_DEPTH"
    and "w = walk_response sh h n MAX_DEPTH MAX_NODES (start_walk r)"
    and "nodes w < MAX_NODES" and "length (response_citations sh h r n) < n"
  shows "set (response_citations sh h r n) = (\<Union>a \<in> {a. \<exists>d. reaches h d r (PRef a)}. set (citation_in sh h (PRef a)))"
proof -
  have eq: "response_citations sh h r n = wk_citations w" using response_citations_inv assms(2) by blast
  have "closed sh h r (start_walk r)" by (auto simp: closed_def start_walk_def pending_refs_def)
  then have cl: "closed sh h r w" "wk_queue w = []"
    using walk_closed [OF assms(1) start_walk_inv] assms(2,3,4) eq by auto
  have "set (citation_in sh h (PRef a)) \<subseteq> set (wk_citations w)" if "reaches h d r (PRef a)" for a d
    using closed_reaches [OF that cl refl] cl(1) by (auto simp: closed_def)
  moreover have "set (wk_citations w) \<subseteq> (\<Union>a \<in> {a. \<exists>d. reaches h d r (PRef a)}. set (citation_in sh h (PRef a)))"
    using response_citations_inv [of sh h r n] assms(2) unfolding walk_inv_def by blast
  ultimately show ?thesis unfolding eq by blast
qed

section \<open>Requests\<close>

text \<open>Queries kept in the history are bounded, hence so is what is sent.\<close>

definition history_bounded :: "search_worker \<Rightarrow> bool" where
  "history_bounded w \<longleftrightarrow> (\<forall>e \<in> set (sw_history w). length (he_query e) \<le> 2000)"

lemma precheck_bounded: "search_precheck query c w = Inr refined \<Longrightarrow> length refined \<le> 2000"
proof -
  have "length (refine_query q) \<le> 2000" for q by (simp add: refine_query_def Let_def)
  moreover have "length (provider_query k) \<le> 2000" for k by (cases k) (simp add: provider_query_def bounded_text_def)
  ultimately show "search_precheck query c w = Inr refined \<Longrightarrow> length refined \<le> 2000"
    by (auto simp: search_precheck_def Let_def split: if_splits option.splits list.splits)
qed

lemma join_bound: "\<forall>t \<in> set ts. length t \<le> b \<Longrightarrow> length (py_join [CHR 0x0A] ts) \<le> length ts * (b + 1)"
  by (induction ts rule: induct_list012) auto

lemma contextual_input_bounded:
  assumes "\<forall>e \<in> set history. length (he_query e) \<le> 2000" and "length query \<le> 2000"
  shows "length (contextual_input history query) \<le> 16000"
proof -
  let ?f = "\<lambda>e. ''Previous query: '' @ he_query e @ [CHR 0x0A] @ ''Previous answer: '' @ take 1200 (he_text e)"
  let ?p = "drop (length history - 4) history"
  have "\<forall>t \<in> set (map ?f ?p). length t \<le> 3234" using assms(1) by (auto dest!: in_set_dropD)
  from join_bound [OF this] have "length (py_join [CHR 0x0A] (map ?f ?p)) \<le> 4 * 3235" by simp
  then show ?thesis using assms(2) unfolding contextual_input_def Let_def by (simp del: append_assoc)
qed

section \<open>Searching\<close>

text \<open>The parameters of one search, for runs of several.\<close>

type_synonym search_params =
  "search_platform \<times> provider_outcome \<times> string \<times> string \<times> epoch option \<times> (string \<times> string \<times> string) option"

fun run_search_call :: "search_params \<Rightarrow> search_worker \<Rightarrow> search_worker" where
  "run_search_call (pf, outcome, query, turn, ep, c) w = fst (search pf outcome query turn ep c w)"

lemma search_history:
  "search pf outcome query turn ep c w = (w', r) \<Longrightarrow>
   (case r of
      Inl _ \<Rightarrow> w' = w
    | Inr res \<Rightarrow> \<exists>refined. search_precheck query c w = Inr refined \<and>
        w' = w\<lparr>sw_history := sw_history w @ [\<lparr>he_turn_id = turn, he_query = refined, he_text = gr_text res, he_result_id = gr_result_id res\<rparr>]\<rparr>)"
  by (auto simp: search_def execute_def append_context_def canonical_result_def validate_projections_def
      split: sum.splits provider_outcome.splits if_splits option.splits)

interpretation searches: machine run_search_call history_bounded
proof unfold_locales
  fix w and k :: search_params
  obtain pf outcome query turn ep c where k: "k = (pf, outcome, query, turn, ep, c)" by (cases k) auto
  obtain w' r where s: "search pf outcome query turn ep c w = (w', r)" by force
  assume "history_bounded w"
  then show "history_bounded (run_search_call k w)"
    using search_history [OF s] k s precheck_bounded by (auto simp: history_bounded_def split: sum.splits)
qed

lemma validate_answer_ok:
  "validate_answer parse raw = Some a \<Longrightarrow>
   wa_display_text a \<noteq> [] \<and> wa_spoken_text a \<noteq> [] \<and> length (wa_spoken_text a) \<le> 600"
proof -
  have "(case (x, y) of (Some (Some d), Some (Some s)) \<Rightarrow>
            if py_strip d = [] \<or> py_strip s = [] \<or> 600 < length (py_strip s) then None
            else Some \<lparr>wa_display_text = py_strip d, wa_spoken_text = py_strip s\<rparr>
          | _ \<Rightarrow> None) = Some a \<Longrightarrow>
      wa_display_text a \<noteq> [] \<and> wa_spoken_text a \<noteq> [] \<and> length (wa_spoken_text a) \<le> 600" for x y
    by (auto split: option.splits if_splits)
  then show "validate_answer parse raw = Some a \<Longrightarrow> ?thesis"
    unfolding validate_answer_def by (simp only: option.distinct split: option.splits if_splits) blast
qed

lemma search_grounded:
  assumes "search pf outcome query turn ep c w = (w', Inr res)"
  shows "gr_worker_id res = sw_worker_id w \<and> gr_turn_id res = turn \<and> gr_origin_epoch res = ep \<and>
    py_strip (gr_text res) \<noteq> [] \<and> py_strip (gr_spoken_text res) \<noteq> [] \<and> length (gr_spoken_text res) \<le> 600 \<and>
    length (gr_citations res) \<le> sw_max_citations w \<and> distinct (map ci_url (gr_citations res)) \<and>
    list_all (\<lambda>k. clean_url (pf_bracketed_ok pf) (ci_url k)) (gr_citations res)"
proof -
  obtain h response answer cs where a: "response_answer (pf_parse pf) h response = Inr answer"
    and n: "normalize_citations (pf_bracketed_ok pf) (pf_str pf) h
      (response_citations (pf_str pf) h response (max (sw_max_citations w * 4) (sw_max_citations w))) = Inr cs"
    and r: "canonical_result (pf_bracketed_ok pf) (pf_str pf) h (pf_now pf) (sw_worker_id w) turn (wa_display_text answer)
      (Some (wa_spoken_text answer)) (map dump_citation (take (sw_max_citations w) cs)) None (pf_fresh pf) ep = Inr res"
    using assms by (auto simp: search_def execute_def split: sum.splits provider_outcome.splits)
  have cs: "distinct (map ci_url cs)" "list_all (\<lambda>k. clean_url (pf_bracketed_ok pf) (ci_url k)) cs"
    using normalize_from_Inr [OF n [unfolded normalize_citations_def]] by (simp_all add: first_occurrences_distinct)
  let ?cs = "take (sw_max_citations w) cs"
  have t: "distinct (map ci_url ?cs)" "list_all (\<lambda>k. clean_url (pf_bracketed_ok pf) (ci_url k)) ?cs"
    using cs by (auto simp: take_map [symmetric] list_all_iff dest: in_set_takeD)
  then have "normalize_citations (pf_bracketed_ok pf) (pf_str pf) h (map dump_citation ?cs) = Inr ?cs"
    using normalize_from_dump [of _ ?cs "[]"] by (simp add: normalize_citations_def)
  moreover have "length (wa_spoken_text answer) \<le> 600"
    using a validate_answer_ok by (auto simp: response_answer_def split: sum.splits if_splits option.splits)
  ultimately show ?thesis
    using r t by (auto simp: canonical_result_def validate_projections_def split: sum.splits if_splits)
qed

text \<open>
  C30. A search either fails and leaves the worker as it was, or returns a result of this worker and turn with
  non-blank texts, a spoken text of at most 600 characters, and at most the configured number of distinct, absolute web
  citations, and appends exactly this turn to the history. In every sequence of searches, whatever the
  provider answers, what is sent to the provider stays within 16,000 characters.
\<close>
theorem search_grounded_or_inert:
  assumes "sw_history w = []" and "u = fold run_search_call calls w" and "search pf outcome query turn ep c u = (u', r)"
  shows "(\<forall>refined. search_precheck query c u = Inr refined \<longrightarrow> length (wq_input (search_request u instructions refined)) \<le> 16000) \<and>
    (case r of
       Inl _ \<Rightarrow> u' = u
     | Inr res \<Rightarrow>
         gr_worker_id res = sw_worker_id u \<and> gr_turn_id res = turn \<and> gr_origin_epoch res = ep \<and>
         py_strip (gr_text res) \<noteq> [] \<and> py_strip (gr_spoken_text res) \<noteq> [] \<and> length (gr_spoken_text res) \<le> 600 \<and>
         length (gr_citations res) \<le> sw_max_citations u \<and> distinct (map ci_url (gr_citations res)) \<and>
         list_all (\<lambda>k. clean_url (pf_bracketed_ok pf) (ci_url k)) (gr_citations res) \<and>
         (\<exists>e. sw_history u' = sw_history u @ [e] \<and> he_turn_id e = turn \<and> he_text e = gr_text res \<and> he_result_id e = gr_result_id res))"
proof -
  have "history_bounded w" using assms(1) by (simp add: history_bounded_def)
  then have b: "history_bounded u" unfolding assms(2) by (rule searches.run_inv)
  have "length (wq_input (search_request u instructions refined)) \<le> 16000" if "search_precheck query c u = Inr refined" for refined
    using contextual_input_bounded [of "sw_history u" refined] b precheck_bounded [OF that]
    by (simp add: search_request_def build_worker_request_kwargs_def history_bounded_def)
  moreover note search_history [OF assms(3)] 
  moreover have "\<And>res. r = Inr res \<Longrightarrow> search pf outcome query turn ep c u = (u', Inr res)" using assms(3) by simp
  ultimately show ?thesis using search_grounded by (cases r) fastforce+
qed

definition demo_search_worker :: search_worker where
  "demo_search_worker = \<lparr>sw_worker_id = ''w1'', sw_model = ''m'', sw_reasoning_effort = None, sw_decline = (\<lambda>_. False),
     sw_needs_clarification = default_web_clarification, sw_max_citations = 12, sw_history = []\<rparr>"

definition demo_platform :: search_platform where
  "demo_platform = \<lparr>pf_bracketed_ok = (\<lambda>_. True), pf_str = (\<lambda>_. []),
     pf_parse = (\<lambda>_. Some [(''display_text'', Some ''Rainy.''), (''spoken_text'', Some ''It rains.'')]), pf_now = ''t'', pf_fresh = ''1''\<rparr>"

definition demo_response :: store where
  "demo_response = [(0, PObj [(''output_text'', PStr ''{}''), (''sources'', PRef 1)]),
     (1, PList [PRef 2, PRef 2, PRef 0]), (2, PMap [(''title'', PStr ''A''), (''url'', PStr ''https://a.org'')])]"

theorem search_grounded_or_inert_witness:
  "case snd (search demo_platform (Responded demo_response (PRef 0)) ''rain in paris'' ''t1'' (Some 1) None demo_search_worker) of
     Inr res \<Rightarrow> gr_citations res = [\<lparr>ci_title = ''A'', ci_url = ''https://a.org''\<rparr>] \<and> length (gr_citations res) \<le> 12 \<and> gr_turn_id res = ''t1''
   | Inl _ \<Rightarrow> False"
proof -
  let ?s = "search demo_platform (Responded demo_response (PRef 0)) ''rain in paris'' ''t1'' (Some 1) None demo_search_worker"
  have ok: "case snd ?s of Inr res \<Rightarrow> gr_citations res = [\<lparr>ci_title = ''A'', ci_url = ''https://a.org''\<rparr>] | Inl _ \<Rightarrow> False"
    by code_simp
  have h: "sw_history demo_search_worker = []" "sw_max_citations demo_search_worker = 12" by (simp_all add: demo_search_worker_def)
  have "?s = (fst ?s, snd ?s)" by simp
  from search_grounded_or_inert [OF h(1) _ this, of "[]" undefined] ok h(2) show ?thesis by (auto split: sum.splits)
qed

end
