(* ===== verification/Worker_Mailbox.thy ===== *)
theory Worker_Mailbox
  imports Prelude
begin

text \<open>
  The mailbox of a context worker (\<open>ContextWorker.submit\<close> of \<open>server/workers/base.py\<close>). Every submission
  becomes a task that awaits the one submitted before it and then runs its operation. Tasks are numbered
  by submission. A task is \<open>Created\<close> until the event loop runs its first step, \<open>Waiting\<close> while it awaits
  its predecessor, \<open>Running\<close> while its operation runs. \<open>mb_started\<close> records the order in which operations
  begin.

  Cancellation follows asyncio: cancelling a task that has not run yet ends it, cancelling a task that
  awaits another task cancels that one, and the resulting \<open>CancelledError\<close> reaches the waiting task at its
  \<open>await previous\<close>, where the code catches every exception and goes on.
\<close>

datatype mail_end = Returned | RaisedError | WasCancelled

datatype mail_stage = Created | Waiting | Running | Ended mail_end

record mail_task =
  mt_previous :: "nat option"
  mt_stage :: mail_stage

record mailbox =
  mb_tasks :: "mail_task list"
  mb_tail :: "nat option"
  mb_status :: string
  mb_started :: "nat list"

definition init_mailbox :: mailbox where
  "init_mailbox = \<lparr>mb_tasks = [], mb_tail = None, mb_status = ''idle'', mb_started = []\<rparr>"

definition stage_of :: "mailbox \<Rightarrow> nat \<Rightarrow> mail_stage" where
  "stage_of m k = (if k < length (mb_tasks m) then mt_stage (mb_tasks m ! k) else Ended Returned)"

fun has_ended :: "mail_stage \<Rightarrow> bool" where
  "has_ended (Ended _) \<longleftrightarrow> True"
| "has_ended _ \<longleftrightarrow> False"

definition set_stage :: "nat \<Rightarrow> mail_stage \<Rightarrow> mailbox \<Rightarrow> mailbox" where
  "set_stage k s m = m\<lparr>mb_tasks := (mb_tasks m)[k := (mb_tasks m ! k)\<lparr>mt_stage := s\<rparr>]\<rparr>"

definition submit :: "mailbox \<Rightarrow> mailbox" where
  "submit m =
     m\<lparr>mb_tasks := mb_tasks m @ [\<lparr>mt_previous = mb_tail m, mt_stage = Created\<rparr>], mb_tail := Some (length (mb_tasks m))\<rparr>"

definition begin_operation :: "nat \<Rightarrow> mailbox \<Rightarrow> mailbox" where
  "begin_operation k m = (set_stage k Running m)\<lparr>mb_status := ''running'', mb_started := mb_started m @ [k]\<rparr>"

definition previous_ended :: "mailbox \<Rightarrow> nat \<Rightarrow> bool" where
  "previous_ended m k = (case mt_previous (mb_tasks m ! k) of None \<Rightarrow> True | Some j \<Rightarrow> has_ended (stage_of m j))"

definition first_step :: "nat \<Rightarrow> mailbox \<Rightarrow> mailbox" where
  "first_step k m =
     (if stage_of m k = Created then if previous_ended m k then begin_operation k m else set_stage k Waiting m else m)"

definition resume_task :: "nat \<Rightarrow> mailbox \<Rightarrow> mailbox" where
  "resume_task k m = (if stage_of m k = Waiting \<and> previous_ended m k then begin_operation k m else m)"

definition operation_ends :: "nat \<Rightarrow> mail_end \<Rightarrow> mailbox \<Rightarrow> mailbox" where
  "operation_ends k e m = (if stage_of m k = Running then (set_stage k (Ended e) m)\<lparr>mb_status := ''idle''\<rparr> else m)"

function cancel_task :: "nat \<Rightarrow> mailbox \<Rightarrow> mailbox" where
  "cancel_task k m =
     (case stage_of m k of
        Created \<Rightarrow> set_stage k (Ended WasCancelled) m
      | Waiting \<Rightarrow>
          (case mt_previous (mb_tasks m ! k) of
             None \<Rightarrow> m
           | Some j \<Rightarrow> if has_ended (stage_of m j) \<or> k \<le> j then m else cancel_task j m)
      | Running \<Rightarrow> operation_ends k WasCancelled m
      | Ended _ \<Rightarrow> m)"
  by auto
termination by (relation "measure fst") auto

declare cancel_task.simps [simp del]

datatype mail_event = Submit | FirstStep nat | Resume nat | OperationEnds nat mail_end | Cancel nat

fun mail_step :: "mail_event \<Rightarrow> mailbox \<Rightarrow> mailbox" where
  "mail_step Submit m = submit m"
| "mail_step (FirstStep k) m = first_step k m"
| "mail_step (Resume k) m = resume_task k m"
| "mail_step (OperationEnds k e) m = operation_ends k e m"
| "mail_step (Cancel k) m = cancel_task k m"

text \<open>
  The event loop runs the first steps of tasks in the order of their creation. The second clause is the
  condition under which the mailbox serializes: no submission is cancelled before its first step.
\<close>

fun mail_ok :: "mail_event \<Rightarrow> mailbox \<Rightarrow> bool" where
  "mail_ok (FirstStep k) m \<longleftrightarrow> (\<forall>j < k. stage_of m j \<noteq> Created)"
| "mail_ok (Cancel k) m \<longleftrightarrow> stage_of m k \<noteq> Created"
| "mail_ok e m \<longleftrightarrow> True"

section \<open>Serialization\<close>

text \<open>
  The tasks are, in order: ended ones, at most one running, waiting ones, created ones; the predecessor of
  a task is the one before it.
\<close>

definition begun :: "mail_stage \<Rightarrow> bool" where
  "begun s \<longleftrightarrow> s = Running \<or> has_ended s"

definition chained :: "mailbox \<Rightarrow> bool" where
  "chained m \<longleftrightarrow>
     (\<forall>k < length (mb_tasks m). mt_previous (mb_tasks m ! k) = (if k = 0 then None else Some (k - 1))) \<and>
     mb_tail m = (if mb_tasks m = [] then None else Some (length (mb_tasks m) - 1))"

definition ordered :: "mailbox \<Rightarrow> bool" where
  "ordered m \<longleftrightarrow>
     (let b = length (mb_started m); n = length (mb_tasks m) in
      b \<le> n \<and> mb_started m = [0..<b] \<and> (\<forall>k < n. begun (stage_of m k) \<longleftrightarrow> k < b) \<and>
      (\<forall>k. k + 1 < b \<longrightarrow> has_ended (stage_of m k)) \<and>
      (\<forall>k < n. stage_of m k = Waiting \<longrightarrow> (\<forall>j < k. stage_of m j \<noteq> Created)))"

definition status_right :: "mailbox \<Rightarrow> bool" where
  "status_right m \<longleftrightarrow> mb_status m = (if \<exists>k. stage_of m k = Running then ''running'' else ''idle'')"

definition mail_inv :: "mailbox \<Rightarrow> bool" where
  "mail_inv m \<longleftrightarrow> chained m \<and> ordered m \<and> status_right m"

lemma stage_of_set [simp]:
  "stage_of (set_stage k s m) j = (if j = k \<and> k < length (mb_tasks m) then s else stage_of m j)"
  by (auto simp: stage_of_def set_stage_def nth_list_update)

lemma set_stage_fields [simp]:
  "length (mb_tasks (set_stage k s m)) = length (mb_tasks m)" "mb_tail (set_stage k s m) = mb_tail m"
  "mb_status (set_stage k s m) = mb_status m" "mb_started (set_stage k s m) = mb_started m"
  by (simp_all add: set_stage_def)

lemma stage_of_updates [simp]:
  "stage_of (m\<lparr>mb_status := x\<rparr>) = stage_of m" "stage_of (m\<lparr>mb_started := y\<rparr>) = stage_of m"
  "stage_of (m\<lparr>mb_tail := z\<rparr>) = stage_of m"
  by (simp_all add: stage_of_def fun_eq_iff)

lemma stage_of_submit [simp]: "stage_of (submit m) j = (if j = length (mb_tasks m) then Created else stage_of m j)"
  by (simp add: stage_of_def submit_def nth_append)

lemma in_range: "stage_of m k \<in> {Created, Waiting, Running} \<Longrightarrow> k < length (mb_tasks m)"
  by (auto simp: stage_of_def split: if_splits)

lemma chained_set: "chained (set_stage k s m) \<longleftrightarrow> chained m"
proof -
  have "mt_previous (mb_tasks (set_stage k s m) ! j) = mt_previous (mb_tasks m ! j)" for j
    by (cases "k < length (mb_tasks m)") (simp_all add: set_stage_def nth_list_update list_update_beyond)
  moreover have "mb_tasks (set_stage k s m) = [] \<longleftrightarrow> mb_tasks m = []" by (simp add: set_stage_def)
  ultimately show ?thesis by (simp add: chained_def)
qed

lemma chained_submit: "chained m \<Longrightarrow> chained (submit m)"
  by (auto simp: chained_def submit_def nth_append less_Suc_eq)

lemma previous_ended_iff:
  "chained m \<Longrightarrow> k < length (mb_tasks m) \<Longrightarrow> previous_ended m k \<longleftrightarrow> k = 0 \<or> has_ended (stage_of m (k - 1))"
  by (auto simp: chained_def previous_ended_def)

text \<open>A task whose predecessor has ended and that has not begun is the next one.\<close>

lemma next_task:
  assumes "mail_inv m" "k < length (mb_tasks m)" "previous_ended m k" "\<not> begun (stage_of m k)"
  shows "k = length (mb_started m) \<and> (\<forall>j < k. has_ended (stage_of m j))"
proof -
  have o: "ordered m" and c: "chained m" using assms(1) by (simp_all add: mail_inv_def)
  have k: "length (mb_started m) \<le> k" using o assms(2,4) by (auto simp: ordered_def Let_def)
  have p: "k = 0 \<or> has_ended (stage_of m (k - 1))" using previous_ended_iff [OF c assms(2)] assms(3) by simp
  then have "k \<le> length (mb_started m)"
  proof (cases k)
    case (Suc j)
    then have "begun (stage_of m j)" using p by (simp add: begun_def)
    then show ?thesis using o assms(2) Suc by (auto simp: ordered_def Let_def)
  qed simp
  with k have eq: "k = length (mb_started m)" by simp
  have "has_ended (stage_of m j)" if "j < k" for j
    using o p eq that by (cases "j = k - 1") (auto simp: ordered_def Let_def)
  with eq show ?thesis by simp
qed

lemma begin_inv:
  assumes "mail_inv m" "k < length (mb_tasks m)" "previous_ended m k" "\<not> begun (stage_of m k)"
  shows "mail_inv (begin_operation k m)"
proof -
  note n = next_task [OF assms]
  have "ordered m" "chained m" using assms(1) by (simp_all add: mail_inv_def)
  then have "ordered (begin_operation k m)"
    using n assms(2) by (auto simp: ordered_def begin_operation_def Let_def begun_def less_Suc_eq)
  moreover have "chained (begin_operation k m)"
    using \<open>chained m\<close> chained_set [of k Running m] by (simp add: begin_operation_def chained_def)
  ultimately show ?thesis using assms(2) by (auto simp: mail_inv_def status_right_def begin_operation_def)
qed

lemma running_unique: "mail_inv m \<Longrightarrow> stage_of m k = Running \<Longrightarrow> length (mb_started m) = Suc k"
  using in_range [of m k] by (auto simp: mail_inv_def ordered_def Let_def begun_def) (metis Suc_lessI begun_def has_ended.simps(4))

lemma end_inv: "mail_inv m \<Longrightarrow> mail_inv (operation_ends k e m)"
proof (cases "stage_of m k = Running")
  case True
  assume inv: "mail_inv m"
  have "stage_of m j \<noteq> Running" if "j \<noteq> k" for j
    using running_unique [OF inv True] running_unique [OF inv, of j] that by auto
  then show ?thesis
    using inv True in_range [of m k] chained_set [of k "Ended e" m]
    by (auto simp: mail_inv_def operation_ends_def status_right_def ordered_def Let_def begun_def chained_def)
qed (simp add: operation_ends_def)

lemma wait_inv:
  "mail_inv m \<Longrightarrow> stage_of m k = Created \<Longrightarrow> \<forall>j < k. stage_of m j \<noteq> Created \<Longrightarrow> mail_inv (set_stage k Waiting m)"
  using in_range [of m k]
  by (auto simp: mail_inv_def chained_set status_right_def ordered_def Let_def begun_def)

text \<open>Cancelling a waiting task ends the running one, if any, and changes nothing else.\<close>

lemma cancel_waiting:
  assumes "mail_inv m" "stage_of m k = Waiting"
  shows "cancel_task k m =
    (case mb_started m of [] \<Rightarrow> m | _ \<Rightarrow> operation_ends (length (mb_started m) - 1) WasCancelled m)"
  using assms(2)
proof (induction k rule: less_induct)
  case (less k)
  have c: "chained m" and o: "ordered m" using assms(1) by (simp_all add: mail_inv_def)
  have range: "k < length (mb_tasks m)" using in_range less.prems by blast
  show ?case
  proof (cases k)
    case 0
    then have "mb_started m = []" using o range less.prems by (auto simp: ordered_def Let_def begun_def)
    moreover have "mt_previous (mb_tasks m ! 0) = None" using c range 0 by (auto simp: chained_def)
    ultimately show ?thesis using 0 less.prems by (simp add: cancel_task.simps [of 0])
  next
    case (Suc j)
    have prev: "mt_previous (mb_tasks m ! k) = Some j" using c range Suc by (simp add: chained_def)
    show ?thesis
    proof (cases "has_ended (stage_of m j)")
      case True
      then have "k = length (mb_started m)"
        using next_task [OF assms(1) range] less.prems prev by (simp add: previous_ended_def begun_def)
      with Suc have "length (mb_started m) = Suc j" by simp
      then show ?thesis
        using True prev less.prems by (cases "mb_started m") (auto simp: cancel_task.simps [of k] operation_ends_def)
    next
      case False
      then have step: "cancel_task k m = cancel_task j m" using prev less.prems Suc by (simp add: cancel_task.simps [of "Suc j"])
      have "stage_of m j \<noteq> Created" using o less.prems range Suc by (auto simp: ordered_def Let_def)
      with False consider "stage_of m j = Waiting" | "stage_of m j = Running" by (cases "stage_of m j") auto
      then show ?thesis
      proof cases
        case 1
        then show ?thesis using less.IH [of j] step Suc by simp
      next
        case 2
        with running_unique [OF assms(1) 2] show ?thesis
          using step by (cases "mb_started m") (simp_all add: cancel_task.simps [of j])
      qed
    qed
  qed
qed

lemma mail_cancel_inv: "mail_inv m \<Longrightarrow> stage_of m k \<noteq> Created \<Longrightarrow> mail_inv (cancel_task k m)"
proof (cases "stage_of m k = Waiting")
  case True
  assume "mail_inv m"
  then show ?thesis using cancel_waiting [OF _ True] end_inv by (simp split: list.split)
qed (auto simp: cancel_task.simps [of k] end_inv split: mail_stage.split)

lemma submit_inv: "mail_inv m \<Longrightarrow> mail_inv (submit m)"
proof -
  assume inv: "mail_inv m"
  have "length (mb_tasks (submit m)) = Suc (length (mb_tasks m))" "mb_started (submit m) = mb_started m" "mb_status (submit m) = mb_status m"
    by (simp_all add: submit_def)
  moreover have "(\<exists>k. stage_of (submit m) k = Running) \<longleftrightarrow> (\<exists>k. stage_of m k = Running)"
    by (auto simp: stage_of_def submit_def nth_append)
  ultimately show ?thesis
    using inv chained_submit by (auto simp: mail_inv_def status_right_def ordered_def Let_def less_Suc_eq begun_def)
qed

interpretation mail: guarded_machine mail_step mail_ok mail_inv
proof unfold_locales
  fix m e
  assume "mail_inv m" "mail_ok e m"
  then show "mail_inv (mail_step e m)"
    using in_range [of m]
    by (cases e) (auto simp: submit_inv first_step_def resume_task_def begin_inv wait_inv end_inv mail_cancel_inv begun_def)
qed

lemma init_mail_inv: "mail_inv init_mailbox"
  by (simp add: mail_inv_def init_mailbox_def chained_def ordered_def status_right_def stage_of_def)

section \<open>Properties\<close>

fun mail_run :: "mail_event list \<Rightarrow> mailbox \<Rightarrow> bool" where
  "mail_run [] m \<longleftrightarrow> True"
| "mail_run (e # es) m \<longleftrightarrow> mail_ok e m \<and> mail_run es (mail_step e m)"

lemma mail_run_legal: "mail_run es m \<longleftrightarrow> mail.legal es m"
  by (induction es arbitrary: m) auto

lemma reached_inv: "mail_run es init_mailbox \<Longrightarrow> mail_inv (fold mail_step es init_mailbox)"
  using mail.run_inv [OF init_mail_inv] by (simp add: mail_run_legal)


definition demo_mail :: "mail_event list" where
  "demo_mail = [Submit, FirstStep 0, Submit, FirstStep 1, Submit, OperationEnds 0 RaisedError, Resume 1, FirstStep 2]"




text \<open>A submission cancelled before its first step ends at once, and its successor then overtakes: two operations run.\<close>

lemma early_cancel_overlaps:
  "let m = fold mail_step [Submit, FirstStep 0, Submit, Cancel 1, Submit, FirstStep 2] init_mailbox in
   stage_of m 0 = Running \<and> stage_of m 2 = Running"
  by code_simp

end
