(* ===== verification/Turn_Monad.thy ===== *)
theory Turn_Monad
  imports Session_Host Arbitration Grounded_Results
begin

text \<open>
  The language in which the turn handlers of \<open>SessionHost\<close> are written: computations that call
  collaborators and may raise.

  A handler leaves a trace of the calls it makes, in order, and keeps the local variables that its
  \<open>except\<close> and \<open>finally\<close> clauses read (\<open>delegated_children\<close>, \<open>retained_still_open\<close>,
  \<open>retained_work_items\<close>). What a call answers, and whether it raises, is decided by \<open>turn_env\<close>, a record of
  functions of the trace so far: a handler sees the rest of the program only through these answers, so a
  theorem for every \<open>turn_env\<close> covers every state of the collaborators and everything that other tasks do while
  the handler awaits. \<open>h_call\<close> is a call that may raise or be cancelled, \<open>h_log\<close> one that cannot.
\<close>

section \<open>Calls and answers\<close>

datatype handler_exc = RoutingInvalid | WorkerTypeUnsupported | ClarifyRaised string | DeclinedRaised | OtherExc

datatype call =
    RegisterTurnTask string
  | AppendTranscript string
  | Arbitrate string
  | RecordRouting
  | SetRouting routing_decision
  | CommitAndSpeak grounded_result speech_role bool
  | TurnFinalize "string option" "(string \<times> string) option"
  | NewChild string
  | ChildFinalize string string
  | EmitStatus child_report
  | SettleAck string bool
  | ReleaseTurn string
  | ReleaseItem string string
  | RegisterTurnItem string string
  | RegisterKnown string
  | ProjectWorker string
  | PauseSpeech string
  | ResumeSpeech "string option"
  | StartSpeech string
  | WaitForStops
  | CancelTurnOrChild "string option" "string option"
  | DispatchWorker routing_decision
  | RegisterWorker
  | StartSearch string
  | TrackSearch string
  | EarlyAck bool
  | WaitForeground
  | CancelSearch
  | TakeResult
  | RegisterRetained string
  | PopRetained string
  | RetainLate string
  | RouteItem string
  | SubmitWork "string list"
  | RecordClarification string string
  | RetainItem string
  | RecordCommit

type_synonym trace = "call list"

text \<open>\<open>SubmittedOutcome\<close> with the results as the handlers use them.\<close>

record submission_reply =
  sb_results :: "grounded_result list"
  sb_pending_work_item_ids :: "string list"
  sb_failures :: "work_item_failure list"

record turn_env =
  en_raises :: "trace \<Rightarrow> handler_exc raised option"
  en_admitted :: bool
  en_turn_id :: string
  en_epoch :: epoch
  en_now :: "trace \<Rightarrow> string"
  en_fresh :: "trace \<Rightarrow> string"
  en_outcome :: "trace \<Rightarrow> dispatch_outcome"
  en_active_speech :: "trace \<Rightarrow> string option"
  en_replay :: "trace \<Rightarrow> string option"
  en_ack_turn :: "trace \<Rightarrow> string \<Rightarrow> string option"
  en_cancelled :: "trace \<Rightarrow> string list \<times> string list"
  en_cancelled_ids :: "trace \<Rightarrow> string \<Rightarrow> bool"
  en_worker :: "trace \<Rightarrow> worker_object"
  en_owner :: "trace \<Rightarrow> string \<Rightarrow> worker_object option"
  en_search_started :: "trace \<Rightarrow> bool"
  en_search_done :: "trace \<Rightarrow> bool"
  en_search_result :: "trace \<Rightarrow> grounded_result option"
  en_retained :: "trace \<Rightarrow> bool"
  en_replaces_legacy :: "trace \<Rightarrow> bool"
  en_envelope :: "trace \<Rightarrow> routing_decision \<times> string option"
  en_committed :: "trace \<Rightarrow> grounded_result \<times> string set"
  en_submitted :: "trace \<Rightarrow> submission_reply"
  en_labels :: "trace \<Rightarrow> nat \<Rightarrow> string option"

record turn_state =
  ts_trace :: trace
  ts_children :: "(string, string option) dict"
  ts_retained_open :: bool
  ts_retained_items :: "string set"

definition start_turn :: turn_state where
  "start_turn = \<lparr>ts_trace = [], ts_children = [], ts_retained_open = False, ts_retained_items = {}\<rparr>"

type_synonym 'a handler = "turn_env \<Rightarrow> turn_state \<Rightarrow> turn_state \<times> (handler_exc raised + 'a)"

section \<open>Combinators\<close>

definition h_ret :: "'a \<Rightarrow> 'a handler" where
  "h_ret x en s = (s, Inr x)"

definition h_raise :: "handler_exc raised \<Rightarrow> 'a handler" where
  "h_raise e en s = (s, Inl e)"

definition h_bind :: "'a handler \<Rightarrow> ('a \<Rightarrow> 'b handler) \<Rightarrow> 'b handler" where
  "h_bind m k en s = (case m en s of (s, Inl e) \<Rightarrow> (s, Inl e) | (s, Inr x) \<Rightarrow> k x en s)"

definition h_log :: "call \<Rightarrow> unit handler" where
  "h_log c en s = (s\<lparr>ts_trace := ts_trace s @ [c]\<rparr>, Inr ())"

definition h_call :: "call \<Rightarrow> unit handler" where
  "h_call c en s =
     (let s = s\<lparr>ts_trace := ts_trace s @ [c]\<rparr> in
      case en_raises en (ts_trace s) of None \<Rightarrow> (s, Inr ()) | Some e \<Rightarrow> (s, Inl e))"

definition h_ask :: "(turn_env \<Rightarrow> trace \<Rightarrow> 'a) \<Rightarrow> 'a handler" where
  "h_ask f en s = (s, Inr (f en (ts_trace s)))"

definition h_locals :: "(turn_state \<Rightarrow> 'a) \<Rightarrow> 'a handler" where
  "h_locals f en s = (s, Inr (f s))"

definition h_modify :: "(turn_state \<Rightarrow> turn_state) \<Rightarrow> unit handler" where
  "h_modify f en s = (f s, Inr ())"

text \<open>\<open>except Exception\<close>: every exception but a cancellation.\<close>

definition h_catch :: "'a handler \<Rightarrow> (handler_exc raised \<Rightarrow> 'a handler) \<Rightarrow> 'a handler" where
  "h_catch m k en s =
     (case m en s of
        (s, Inl CancelledError) \<Rightarrow> (s, Inl CancelledError)
      | (s, Inl e) \<Rightarrow> k e en s
      | (s, Inr x) \<Rightarrow> (s, Inr x))"

text \<open>An \<open>except\<close> clause that cleans up and raises again; it is told whether this is a cancellation.\<close>

definition h_cleanup :: "'a handler \<Rightarrow> (bool \<Rightarrow> unit handler) \<Rightarrow> 'a handler" where
  "h_cleanup m k en s =
     (case m en s of
        (s, Inl e) \<Rightarrow> (case k (e = CancelledError) en s of (s, Inl e') \<Rightarrow> (s, Inl e') | (s, Inr _) \<Rightarrow> (s, Inl e))
      | (s, Inr x) \<Rightarrow> (s, Inr x))"

definition h_finally :: "'a handler \<Rightarrow> unit handler \<Rightarrow> 'a handler" where
  "h_finally m k en s =
     (case m en s of (s, r) \<Rightarrow> (case k en s of (s, Inl e) \<Rightarrow> (s, Inl e) | (s, Inr _) \<Rightarrow> (s, r)))"

text \<open>A nested handler has local variables of its own.\<close>

definition h_scope :: "'a handler \<Rightarrow> 'a handler" where
  "h_scope m en s =
     (case m en (start_turn\<lparr>ts_trace := ts_trace s\<rparr>) of (s', r) \<Rightarrow> (s\<lparr>ts_trace := ts_trace s'\<rparr>, r))"

fun h_each :: "('a \<Rightarrow> unit handler) \<Rightarrow> 'a list \<Rightarrow> unit handler" where
  "h_each f [] = h_ret ()"
| "h_each f (x # xs) = h_bind (f x) (\<lambda>_. h_each f xs)"

fun h_fold :: "('a \<Rightarrow> 'b \<Rightarrow> 'b handler) \<Rightarrow> 'a list \<Rightarrow> 'b \<Rightarrow> 'b handler" where
  "h_fold f [] acc = h_ret acc"
| "h_fold f (x # xs) acc = h_bind (f x acc) (\<lambda>acc. h_fold f xs acc)"

definition h_when :: "bool \<Rightarrow> unit handler \<Rightarrow> unit handler" where
  "h_when b m = (if b then m else h_ret ())"

end
