(* ===== verification/Turn_Handlers.thy ===== *)
theory Turn_Handlers
  imports Turn_Monad
begin

text \<open>
  The turn handlers of \<open>SessionHost\<close> (\<open>server/pipeline.py\<close>): \<open>_handle_transcript_impl\<close> with its control,
  main-model and single-delegation branches, \<open>_handle_pending\<close>, \<open>_handle_multi_intent\<close> and
  \<open>_search_with_timeout\<close>, in the language of \<open>Turn_Monad\<close>, ending in the epilogues of \<open>Turn_Epilogue\<close>.
  \<open>work_status\<close> emissions, commits, dispatches and every await may raise; measured durations and log lines are left out.
\<close>

section \<open>Texts and identifiers\<close>

definition CONTROL_ACK_TEXT :: "(string, string) dict" where
  "CONTROL_ACK_TEXT =
     [(''pause'', ''Pausing the active response.''), (''resume'', ''Resuming the paused response.''),
      (''cancel'', ''Cancelling the active response.''), (''stop'', ''Stopping the active response.'')]"

definition CONTROL_MISS_ACK_TEXT :: "(string, string) dict" where
  "CONTROL_MISS_ACK_TEXT =
     [(''unknown_target'', ''I could not find that active work item.''), (''no_active'', ''There is no active response to cancel.'')]"

definition ROUTING_UNAVAILABLE_TEXT :: string where
  "ROUTING_UNAVAILABLE_TEXT = ''Routing is temporarily unavailable. Please try that request again.''"

definition SEARCH_UNAVAILABLE_TEXT :: string where
  "SEARCH_UNAVAILABLE_TEXT = ''The web search is temporarily unavailable.''"

definition NO_RELIABLE_RESULT_TEXT :: string where
  "NO_RELIABLE_RESULT_TEXT = ''I could not find a reliable result for that request.''"

definition SEARCH_BUSY_TEXT :: string where
  "SEARCH_BUSY_TEXT = ''The search service is busy; please try again shortly.''"

definition PENDING_REQUEST_INCOMPLETE_TEXT :: string where
  "PENDING_REQUEST_INCOMPLETE_TEXT = ''The pending web request could not be completed.''"

definition CAPABILITY_UNAVAILABLE_TEXT :: string where
  "CAPABILITY_UNAVAILABLE_TEXT = ''I cannot access that capability here.''"

definition FOREGROUND_TIMEOUT_TEXT :: string where
  "FOREGROUND_TIMEOUT_TEXT = ''That is taking longer than expected; I will continue in the background.''"

definition ITEM_TIMEOUT_TEXT :: string where
  "ITEM_TIMEOUT_TEXT = ''That item is taking longer than expected; I will continue in the background.''"

definition multi_intent_item_turn_id :: "string \<Rightarrow> nat \<Rightarrow> string" where
  "multi_intent_item_turn_id turn_id index = turn_id @ ''-'' @ show_nat index"

text \<open>
  \<open>rpartition\<close> at the last dash. \<open>isdigit\<close> also accepts superscript digits, on which \<open>int\<close> raises \<open>ValueError\<close>
  (\<open>Inl\<close>), as it does on more than 4300 digits.
\<close>

definition py_isdigit :: "char \<Rightarrow> bool" where
  "py_isdigit c \<longleftrightarrow> is_digit c \<or> (of_char c :: nat) \<in> {178, 179, 185}"

definition split_multi_intent_turn_id :: "string \<Rightarrow> unit + (string \<times> nat) option" where
  "split_multi_intent_turn_id candidate =
     (let index = rev (takeWhile (\<lambda>c. c \<noteq> CHR ''-'') (rev candidate));
          rest = rev (dropWhile (\<lambda>c. c \<noteq> CHR ''-'') (rev candidate)) in
      if rest = [] \<or> butlast rest = [] \<or> index = [] \<or> \<not> list_all py_isdigit index then Inr None
      else if \<not> all_digits index \<or> 4300 < length index then Inl ()
      else Inr (Some (butlast rest, read_nat index)))"

definition work_id :: "string \<Rightarrow> string" where
  "work_id turn_id = ''work-'' @ turn_id"

definition item_work_id :: "string \<Rightarrow> nat \<Rightarrow> string" where
  "item_work_id turn_id index = ''work-'' @ turn_id @ ''-'' @ show_nat index"

definition speech_role_for_child_outcome :: "string \<Rightarrow> speech_role" where
  "speech_role_for_child_outcome label = (if label = ''retained'' then ROLE_TIMEOUT_NOTICE else ROLE_RESULT)"

fun failure_child_outcome :: "failure_kind \<Rightarrow> string" where
  "failure_child_outcome CapacityRejected = ''capacity_rejected''"
| "failure_child_outcome RetentionRejectedKind = ''retention_rejected''"
| "failure_child_outcome CancelledKind = ''cancelled''"
| "failure_child_outcome FailedKind = ''failed''"

section \<open>Results and statuses\<close>

definition build_result :: "string \<Rightarrow> string \<Rightarrow> string \<Rightarrow> grounded_result handler" where
  "build_result worker_id turn_id t en s =
     (case canonical_result (\<lambda>_. True) (\<lambda>_. []) [] (en_now en (ts_trace s)) worker_id turn_id t None [] None
             (en_fresh en (ts_trace s)) (Some (en_epoch en)) of
        Inl _ \<Rightarrow> (s, Inl (PyException OtherExc))
      | Inr r \<Rightarrow> (s, Inr r))"

definition speak :: "grounded_result \<Rightarrow> speech_role \<Rightarrow> bool \<Rightarrow> grounded_result handler" where
  "speak r role require_tts =
     h_bind (h_call (CommitAndSpeak r role require_tts)) (\<lambda>_. h_ask (\<lambda>en t. fst (en_committed en t)))"

definition emit_work_status_h ::
    "string \<Rightarrow> string \<Rightarrow> string option \<Rightarrow> string option \<Rightarrow> work_status_state \<Rightarrow> terminal_reason option \<Rightarrow> unit handler" where
  "emit_work_status_h turn_id work_item_id parent worker_id st reason en =
     h_call (EmitStatus
       \<lparr>cr_turn_id = turn_id, cr_work_item_id = work_item_id, cr_parent_work_item_id = parent, cr_worker_id = worker_id,
        cr_state = st, cr_origin_epoch = Some (en_epoch en), cr_terminal_reason = reason\<rparr>) en"

datatype turn_reply =
    Echo string
  | CommittedResult grounded_result
  | OutcomeItself dispatch_outcome
  | NothingCommitted
  | CommittedAll "grounded_result list"

definition main_reply :: "string \<Rightarrow> string \<Rightarrow> bool \<Rightarrow> string option \<Rightarrow> (string \<times> string) option \<Rightarrow> turn_reply handler" where
  "main_reply turn_id t require_tts outcome_label control =
     h_bind (build_result ''main'' turn_id t) (\<lambda>r.
     h_bind (speak r ROLE_RESULT require_tts) (\<lambda>c.
     h_bind (h_log (TurnFinalize outcome_label control)) (\<lambda>_. h_ret (CommittedResult c))))"

definition clarification_result_h :: "string \<Rightarrow> string \<Rightarrow> string \<Rightarrow> string \<Rightarrow> grounded_result handler" where
  "clarification_result_h worker_id turn_id question original_query =
     h_bind (build_result worker_id turn_id question) (\<lambda>r.
     h_bind (h_log (RecordClarification (gr_result_id r) original_query)) (\<lambda>_. h_ret r))"

section \<open>Leaving a handler\<close>

definition turn_ctx :: "turn_env \<Rightarrow> string \<Rightarrow> (turn_state, handler_exc) epilogue_ctx" where
  "turn_ctx en work_item_id =
     \<lparr>ec_settle_turn_ack = (\<lambda>turn_id cancel_admitted s. fst (h_log (SettleAck turn_id cancel_admitted) en s)),
      ec_emit_work_status = (\<lambda>report. h_call (EmitStatus report) en),
      ec_release_turn_work_item = (\<lambda>turn_id item s. fst (h_log (ReleaseItem turn_id item) en s)),
      ec_release_all_turn_work_items = (\<lambda>turn_id s. fst (h_log (ReleaseTurn turn_id) en s)),
      ec_worker_projection = Some (\<lambda>ep status result s. fst (h_log (ProjectWorker status) en s)),
      ec_commit_and_speak =
        (\<lambda>r role. h_bind (h_call (CommitAndSpeak r role True)) (\<lambda>_. h_ask en_committed) en),
      ec_child_finalize = (\<lambda>label worker result s. fst (h_log (ChildFinalize work_item_id label) en s)),
      ec_record_commit = (\<lambda>s. fst (h_log RecordCommit en s)),
      ec_turn_finalize = (\<lambda>s. fst (h_log (TurnFinalize None None) en s))\<rparr>"

definition is_turn_finalize :: "call \<Rightarrow> bool" where
  "is_turn_finalize c = (case c of TurnFinalize _ _ \<Rightarrow> True | _ \<Rightarrow> False)"

definition turn_finalized :: "trace \<Rightarrow> bool" where
  "turn_finalized t = list_ex is_turn_finalize t"

definition finalize_turn_exception_h ::
    "string \<Rightarrow> string option \<Rightarrow> (turn_state \<Rightarrow> (string, string option) dict) \<Rightarrow> bool \<Rightarrow> unit handler" where
  "finalize_turn_exception_h turn_id parent children cancelled =
     h_bind (h_log (SettleAck turn_id False)) (\<lambda>_.
     h_bind (h_locals children) (\<lambda>cs.
     h_bind (h_each (\<lambda>(item, worker). emit_work_status_h turn_id item parent worker (if cancelled then WsCancelled else WsFailed) None) cs) (\<lambda>_.
     h_bind (h_locals (\<lambda>s. turn_finalized (ts_trace s))) (\<lambda>finalized.
     h_when (\<not> finalized) (h_log (TurnFinalize (Some (if cancelled then ''cancelled'' else ''failed'')) None))))))"

text \<open>The clauses shared by the single-child handlers.\<close>

definition open_children :: "turn_state \<Rightarrow> (string, string option) dict" where
  "open_children s = (if ts_retained_open s then [] else ts_children s)"

definition single_child_clauses :: "string \<Rightarrow> turn_reply handler \<Rightarrow> turn_reply handler" where
  "single_child_clauses turn_id body =
     h_finally
       (h_cleanup body (finalize_turn_exception_h turn_id None open_children))
       (h_bind (h_locals ts_retained_open) (\<lambda>retained. h_when (\<not> retained) (h_log (ReleaseTurn turn_id))))"

section \<open>Delegation\<close>

definition reject_delegation ::
    "delegation_request \<Rightarrow> string option \<Rightarrow> string \<Rightarrow> terminal_reason option \<Rightarrow> bool \<Rightarrow> (string \<times> string) option handler" where
  "reject_delegation r worker_id label reason finalize_turn_on_failure =
     h_bind (h_log (NewChild (dr_work_item_id r))) (\<lambda>_.
     h_bind (h_log (ChildFinalize (dr_work_item_id r) label)) (\<lambda>_.
     h_bind (h_when finalize_turn_on_failure (h_log (TurnFinalize (Some ''failed'') None))) (\<lambda>_.
     h_bind (h_call (EmitStatus (delegation_report r worker_id WsFailed reason))) (\<lambda>_. h_ret None))))"

definition delegate :: "delegation_request \<Rightarrow> bool \<Rightarrow> (string \<times> string) option handler" where
  "delegate r finalize_turn_on_failure =
     (case dr_worker r of
        None \<Rightarrow> reject_delegation r None ''missing_worker'' (Some MissingWorker) finalize_turn_on_failure
      | Some w \<Rightarrow>
          h_bind (h_call (ProjectWorker ''running'')) (\<lambda>_.
          let worker_id = delegation_worker_id r w in
          if \<not> wk_search w then reject_delegation r (Some worker_id) ''missing_search'' None finalize_turn_on_failure
          else
            h_bind (h_log (NewChild (dr_work_item_id r))) (\<lambda>_.
            h_bind (h_modify (\<lambda>s. s\<lparr>ts_children := AList.update (dr_work_item_id r) (Some worker_id) (ts_children s)\<rparr>)) (\<lambda>_.
            h_bind (h_log (RegisterTurnItem (dr_turn_id r) (dr_work_item_id r))) (\<lambda>_.
            h_bind (h_log (RegisterKnown (dr_work_item_id r))) (\<lambda>_.
            h_bind (h_call (EmitStatus (delegation_report r (Some worker_id) WsRouting None))) (\<lambda>_.
            h_ret (Some (dr_work_item_id r, worker_id)))))))))"

definition delegation_of :: "turn_env \<Rightarrow> string \<Rightarrow> string \<Rightarrow> worker_object option \<Rightarrow> string option \<Rightarrow> string option \<Rightarrow> delegation_request" where
  "delegation_of en turn_id work_item_id worker override parent =
     \<lparr>dr_turn_id = turn_id, dr_work_item_id = work_item_id, dr_worker = worker, dr_origin_epoch = en_epoch en,
      dr_worker_id_override = override, dr_parent_work_item_id = parent\<rparr>"

section \<open>Waiting for one search\<close>

datatype search_execution = SxCompleted "grounded_result option" | SxRetained | SxCapacityRejected | SxRetentionRejected

definition dispatch_search_task :: "string \<Rightarrow> bool handler" where
  "dispatch_search_task query = h_bind (h_call (StartSearch query)) (\<lambda>_. h_ask en_search_started)"

definition wait_for_search :: "string \<Rightarrow> search_execution handler" where
  "wait_for_search work_item_id =
     h_bind (h_log (TrackSearch work_item_id)) (\<lambda>_.
     h_bind (h_cleanup (h_call WaitForeground) (\<lambda>cancelled. h_when cancelled (h_log CancelSearch))) (\<lambda>_.
     h_bind (h_ask en_search_done) (\<lambda>finished.
     if finished then h_bind (h_call TakeResult) (\<lambda>_. h_bind (h_ask en_search_result) (\<lambda>r. h_ret (SxCompleted r)))
     else
       h_bind (h_log (RegisterRetained work_item_id)) (\<lambda>_.
       h_bind (h_call (RetainLate work_item_id)) (\<lambda>_.
       h_bind (h_ask en_retained) (\<lambda>accepted.
       if accepted then h_ret SxRetained
       else h_bind (h_log (PopRetained work_item_id)) (\<lambda>_. h_ret SxRetentionRejected)))))))"

definition search_with_timeout :: "string \<Rightarrow> string \<Rightarrow> bool \<Rightarrow> bool \<Rightarrow> search_execution handler" where
  "search_with_timeout query work_item_id has_task task_dispatched =
     (if \<not> has_task \<and> task_dispatched then h_ret SxCapacityRejected
      else
        h_bind (if has_task then h_ret True else dispatch_search_task query) (\<lambda>started.
        if started then wait_for_search work_item_id else h_ret SxCapacityRejected))"

section \<open>One delegated search\<close>

text \<open>
  What the foreground window of a search came to: \<open>Inl\<close> is the early return that commits nothing, \<open>Inr\<close>
  the result to commit and the outcome label of the child.
\<close>

definition settle_execution ::
    "string \<Rightarrow> string \<Rightarrow> string \<Rightarrow> search_execution \<Rightarrow> (unit + grounded_result \<times> string) handler" where
  "settle_execution turn_id work_item_id worker_id execution =
     (case execution of
        SxCompleted (Some r) \<Rightarrow> h_ret (Inr (r, ''completed''))
      | SxCompleted None \<Rightarrow>
          h_bind (build_result worker_id turn_id NO_RELIABLE_RESULT_TEXT) (\<lambda>r. h_ret (Inr (r, ''declined'')))
      | SxRetained \<Rightarrow>
          h_bind (emit_work_status_h turn_id work_item_id None (Some worker_id) WsBackground None) (\<lambda>_.
          h_bind (h_ask en_replaces_legacy) (\<lambda>replaces.
          if replaces then
            h_bind (h_log (ChildFinalize work_item_id ''retained'')) (\<lambda>_.
            h_bind (h_log (TurnFinalize None None)) (\<lambda>_.
            h_bind (h_modify (\<lambda>s. s\<lparr>ts_retained_open := True\<rparr>)) (\<lambda>_. h_ret (Inl ()))))
          else h_bind (build_result worker_id turn_id FOREGROUND_TIMEOUT_TEXT) (\<lambda>r. h_ret (Inr (r, ''retained'')))))
      | SxCapacityRejected \<Rightarrow>
          h_bind (build_result worker_id turn_id SEARCH_BUSY_TEXT) (\<lambda>r. h_ret (Inr (r, ''capacity_rejected'')))
      | SxRetentionRejected \<Rightarrow>
          h_bind (build_result worker_id turn_id SEARCH_BUSY_TEXT) (\<lambda>r. h_ret (Inr (r, ''retention_rejected''))))"

definition run_search :: "string \<Rightarrow> string \<Rightarrow> string \<Rightarrow> string \<Rightarrow> (unit + grounded_result \<times> string) handler" where
  "run_search transcript turn_id work_item_id worker_id =
     h_bind (dispatch_search_task transcript) (\<lambda>started.
     h_bind (h_when started (h_log (TrackSearch work_item_id))) (\<lambda>_.
     h_bind (emit_work_status_h turn_id work_item_id None (Some worker_id) WsSearching None) (\<lambda>_.
     h_bind (h_call (EarlyAck True)) (\<lambda>_.
     h_bind (search_with_timeout transcript work_item_id started True) (\<lambda>execution.
     settle_execution turn_id work_item_id worker_id execution)))))"

definition search_failure ::
    "string \<Rightarrow> string \<Rightarrow> string \<Rightarrow> handler_exc raised \<Rightarrow> (unit + grounded_result \<times> string) handler" where
  "search_failure transcript turn_id worker_id e =
     (case e of
        PyException (ClarifyRaised question) \<Rightarrow>
          h_bind (clarification_result_h worker_id turn_id question transcript) (\<lambda>r. h_ret (Inr (r, ''clarify'')))
      | PyException DeclinedRaised \<Rightarrow>
          h_bind (build_result worker_id turn_id NO_RELIABLE_RESULT_TEXT) (\<lambda>r. h_ret (Inr (r, ''declined'')))
      | _ \<Rightarrow> h_bind (build_result worker_id turn_id SEARCH_UNAVAILABLE_TEXT) (\<lambda>r. h_ret (Inr (r, ''failed''))))"

definition single_child_epilogue ::
    "string \<Rightarrow> string \<Rightarrow> string \<Rightarrow> grounded_result \<Rightarrow> string \<Rightarrow> bool \<Rightarrow> bool \<Rightarrow>
     (string option \<Rightarrow> bool \<Rightarrow> string option \<Rightarrow> derived_status) \<Rightarrow> bool \<Rightarrow> bool \<Rightarrow> turn_reply handler" where
  "single_child_epilogue turn_id work_item_id worker_id result label retained was_cancelled derive cancel_admitted single en s =
     (case finalize_single_child_turn (turn_ctx en work_item_id)
             \<lparr>sa_turn_id = turn_id, sa_work_item_id = work_item_id, sa_origin_epoch = en_epoch en, sa_worker_id = worker_id,
              sa_result = result, sa_child_outcome_label = label, sa_retained_still_open = retained, sa_was_cancelled = was_cancelled,
              sa_speech_role = speech_role_for_child_outcome label, sa_project_idle = single, sa_cancel_admitted = cancel_admitted,
              sa_record_commit_ms = single, sa_derive_status = derive\<rparr> s of
        (s, Inl e) \<Rightarrow> (s, Inl e)
      | (s, Inr o') \<Rightarrow> (s, Inr (CommittedResult (se_result o'))))"

definition finish_single :: "string \<Rightarrow> string \<Rightarrow> string \<Rightarrow> grounded_result \<times> string \<Rightarrow> turn_reply handler" where
  "finish_single turn_id work_item_id worker_id settled =
     h_bind (h_ask (\<lambda>en t. en_cancelled_ids en t work_item_id)) (\<lambda>was_cancelled.
     let retained = (snd settled = ''retained'' \<and> \<not> was_cancelled) in
     h_bind (h_modify (\<lambda>s. s\<lparr>ts_retained_open := retained\<rparr>)) (\<lambda>_.
     single_child_epilogue turn_id work_item_id worker_id (fst settled) (snd settled) retained was_cancelled
       status_omitted_while_retained False True))"

definition delegated_turn :: "string \<Rightarrow> string \<Rightarrow> dispatch_outcome \<Rightarrow> worker_object \<Rightarrow> turn_reply handler" where
  "delegated_turn transcript turn_id dispatched worker en =
     h_bind (delegate (delegation_of en turn_id (work_id turn_id) (Some worker) None None) True) (\<lambda>d.
     case d of
       None \<Rightarrow> h_ret (OutcomeItself dispatched)
     | Some (work_item_id, worker_id) \<Rightarrow>
         h_bind (h_catch (run_search transcript turn_id work_item_id worker_id) (search_failure transcript turn_id worker_id)) (\<lambda>settled.
         case settled of
           Inl _ \<Rightarrow> h_ret NothingCommitted
         | Inr rl \<Rightarrow> finish_single turn_id work_item_id worker_id rl)) en"

end
