(* ===== verification/Turn_Fan_Out.thy ===== *)
theory Turn_Fan_Out
  imports Turn_Handlers
begin

text \<open>
  The handlers that submit their work through the coordinator (\<open>server/pipeline.py\<close>): \<open>_handle_pending\<close>,
  which continues a clarification with one child, and \<open>_handle_multi_intent\<close>, which routes every part of a compound
  turn, submits the delegated ones together and fans their outcomes in again. The answer of \<open>coordinator.submit\<close> and the
  labels its \<open>execute\<close> closures set come from the environment; \<open>run_execute\<close> is one run of such a closure.
\<close>

section \<open>The closures that run a search inside a submission\<close>

text \<open>One search of the closure: what it returned or raised, with the label it leaves.\<close>

definition run_execute ::
    "string \<Rightarrow> string \<Rightarrow> string \<Rightarrow> handler_exc raised + grounded_result \<Rightarrow> (grounded_result \<times> string) handler" where
  "run_execute worker_id item_turn_id original_query searched =
     (case searched of
        Inr r \<Rightarrow> h_ret (r, ''completed'')
      | Inl (PyException (ClarifyRaised question)) \<Rightarrow>
          h_bind (clarification_result_h worker_id item_turn_id question original_query) (\<lambda>r. h_ret (r, ''clarify''))
      | Inl (PyException DeclinedRaised) \<Rightarrow>
          h_bind (build_result worker_id item_turn_id NO_RELIABLE_RESULT_TEXT) (\<lambda>r. h_ret (r, ''declined''))
      | Inl e \<Rightarrow> h_raise e)"

text \<open>
  \<open>execution_indexes\<close>: which dispatched items a pair of worker and query stands for, in order; every run
  of the closure takes the first one.
\<close>

definition execution_indexes :: "(nat \<times> string \<times> string) list \<Rightarrow> (string \<times> string, nat list) dict" where
  "execution_indexes runnable =
     fold (\<lambda>(i, pair) d. AList.update pair ((case map_of d pair of None \<Rightarrow> [] | Some is \<Rightarrow> is) @ [i]) d) runnable []"

definition take_execution :: "string \<times> string \<Rightarrow> (string \<times> string, nat list) dict \<Rightarrow> (string \<times> string, nat list) dict \<times> nat option" where
  "take_execution pair d =
     (case map_of d pair of
        Some (i # is) \<Rightarrow> (AList.update pair is d, Some i)
      | _ \<Rightarrow> (d, None))"

section \<open>Continuing a clarification\<close>

definition pending_owner :: "dispatch_outcome \<Rightarrow> string option" where
  "pending_owner dispatched =
     (case do_pending_dialogue dispatched of
        Some d \<Rightarrow> Some (pd_owner_id d)
      | None \<Rightarrow> (case do_work_items dispatched of [] \<Rightarrow> None | i # _ \<Rightarrow> Some i))"

definition settle_pending ::
    "string \<Rightarrow> string \<Rightarrow> string \<Rightarrow> submission_reply \<Rightarrow> (unit + grounded_result \<times> string) handler" where
  "settle_pending turn_id work_item_id worker_id submitted =
     (case sb_results submitted of
        r # _ \<Rightarrow>
          h_bind (h_ask (\<lambda>en t. case en_labels en t 0 of None \<Rightarrow> ''completed'' | Some l \<Rightarrow> l)) (\<lambda>label.
          h_bind (h_log (ChildFinalize work_item_id label)) (\<lambda>_. h_ret (Inr (r, label))))
      | [] \<Rightarrow>
          if sb_pending_work_item_ids submitted \<noteq> [] then
            h_bind (h_modify (\<lambda>s. s\<lparr>ts_retained_open := True\<rparr>)) (\<lambda>_.
            h_bind (h_log (ChildFinalize work_item_id ''retained'')) (\<lambda>_.
            h_bind (h_log (RegisterRetained work_item_id)) (\<lambda>_.
            h_bind (emit_work_status_h turn_id work_item_id None (Some worker_id) WsBackground None) (\<lambda>_.
            h_bind (h_ask en_replaces_legacy) (\<lambda>replaces.
            if replaces then h_bind (h_log (TurnFinalize None None)) (\<lambda>_. h_ret (Inl ()))
            else h_bind (build_result worker_id turn_id FOREGROUND_TIMEOUT_TEXT) (\<lambda>r. h_ret (Inr (r, ''retained'')))))))) 
          else
            let label = (case sb_failures submitted of [] \<Rightarrow> ''failed'' | f # _ \<Rightarrow> failure_child_outcome (wf_failure_kind f)) in
            h_bind (build_result worker_id turn_id PENDING_REQUEST_INCOMPLETE_TEXT) (\<lambda>r.
            h_bind (h_log (ChildFinalize work_item_id label)) (\<lambda>_. h_ret (Inr (r, label)))))"

definition finish_pending :: "string \<Rightarrow> string \<Rightarrow> string \<Rightarrow> bool \<Rightarrow> grounded_result \<times> string \<Rightarrow> turn_reply handler" where
  "finish_pending turn_id work_item_id worker_id nothing_accepted settled =
     h_bind (h_ask (\<lambda>en t. en_cancelled_ids en t work_item_id)) (\<lambda>was_cancelled.
     h_bind (h_locals ts_retained_open) (\<lambda>open_before.
     let retained = (open_before \<and> \<not> was_cancelled) in
     h_bind (h_modify (\<lambda>s. s\<lparr>ts_retained_open := retained\<rparr>)) (\<lambda>_.
     single_child_epilogue turn_id work_item_id worker_id (fst settled) (snd settled) retained was_cancelled
       child_work_status_after_dispatch nothing_accepted False)))"

definition pending_submission :: "string \<Rightarrow> string \<Rightarrow> string \<Rightarrow> turn_reply handler" where
  "pending_submission turn_id work_item_id worker_id =
     h_bind (h_call (EarlyAck False)) (\<lambda>_.
     h_bind (emit_work_status_h turn_id work_item_id None (Some worker_id) WsSearching None) (\<lambda>_.
     h_bind (h_call (SubmitWork [work_item_id])) (\<lambda>_.
     h_bind (h_ask en_submitted) (\<lambda>submitted.
     h_bind (settle_pending turn_id work_item_id worker_id submitted) (\<lambda>settled.
     case settled of
       Inl _ \<Rightarrow> h_ret NothingCommitted
     | Inr rl \<Rightarrow>
         finish_pending turn_id work_item_id worker_id
           (sb_results submitted = [] \<and> sb_pending_work_item_ids submitted = []) rl)))))"

definition handle_pending :: "dispatch_outcome \<Rightarrow> string \<Rightarrow> turn_reply handler" where
  "handle_pending dispatched turn_id =
     single_child_clauses turn_id (\<lambda>en.
       h_bind (h_ask (\<lambda>en t. if truthy (pending_owner dispatched) then en_owner en t (the (pending_owner dispatched)) else None)) (\<lambda>worker.
       h_bind (h_when (worker \<noteq> None) (h_call RegisterWorker)) (\<lambda>_.
       h_bind (delegate (delegation_of en turn_id (work_id turn_id) worker
                 (Some (if truthy (pending_owner dispatched) then the (pending_owner dispatched) else ''main'')) None) True) (\<lambda>d.
       case d of
         None \<Rightarrow> h_ret (OutcomeItself dispatched)
       | Some (work_item_id, worker_id) \<Rightarrow> pending_submission turn_id work_item_id worker_id))) en)"

section \<open>Preparing a compound turn\<close>

record multi_acc =
  ma_results :: "(nat, grounded_result) dict"
  ma_runnable :: "(nat \<times> string \<times> string) list"

definition set_result :: "nat \<Rightarrow> grounded_result \<Rightarrow> multi_acc \<Rightarrow> multi_acc" where
  "set_result index r a = a\<lparr>ma_results := AList.update index r (ma_results a)\<rparr>"

text \<open>An item answered without delegation: its result, and a child record of its own.\<close>

definition answer_item :: "string \<Rightarrow> nat \<Rightarrow> string \<Rightarrow> string \<Rightarrow> multi_acc \<Rightarrow> multi_acc handler" where
  "answer_item turn_id index t label a =
     h_bind (build_result ''main'' (multi_intent_item_turn_id turn_id index) t) (\<lambda>r.
     h_bind (h_log (NewChild (item_work_id turn_id index))) (\<lambda>_.
     h_bind (h_log (ChildFinalize (item_work_id turn_id index) label)) (\<lambda>_. h_ret (set_result index r a))))"

definition default_prose :: "routing_action \<Rightarrow> string" where
  "default_prose action =
     (if action = Direct then ''I could not produce a direct answer yet.''
      else if action = Unsupported then ''I cannot access that capability here.''
      else ''Could you clarify what you want me to search for?'')"

definition action_label :: "routing_action \<Rightarrow> string" where
  "action_label action =
     (if action = Direct then ''direct'' else if action = Unsupported then ''unsupported'' else ''clarify'')"

definition prose_or_default :: "string option \<Rightarrow> routing_action \<Rightarrow> string" where
  "prose_or_default prose action = (if truthy prose then the prose else default_prose action)"

text \<open>\<open>except (RoutingValidationError, UnsupportedWorkerType)\<close>: \<open>None\<close>; every other exception goes on.\<close>

definition resolve_worker :: "routing_decision \<Rightarrow> worker_object option handler" where
  "resolve_worker decision =
     h_catch
       (h_bind (h_call (DispatchWorker decision)) (\<lambda>_.
        h_bind (h_ask en_worker) (\<lambda>w. h_bind (h_call RegisterWorker) (\<lambda>_. h_ret (Some w)))))
       (\<lambda>e. if e \<in> {PyException RoutingInvalid, PyException WorkerTypeUnsupported} then h_ret None else h_raise e)"

definition delegate_item ::
    "string \<Rightarrow> nat \<Rightarrow> string \<Rightarrow> worker_object option \<Rightarrow> multi_acc \<Rightarrow> multi_acc handler" where
  "delegate_item turn_id index item_text worker a en =
     h_bind (delegate (delegation_of en turn_id (item_work_id turn_id index) worker None (Some (work_id turn_id))) False) (\<lambda>d.
     case d of
       None \<Rightarrow>
         h_bind (build_result ''main'' (multi_intent_item_turn_id turn_id index) CAPABILITY_UNAVAILABLE_TEXT) (\<lambda>r.
         h_ret (set_result index r a))
     | Some (_, worker_id) \<Rightarrow>
         h_bind (h_call (EarlyAck False)) (\<lambda>_.
         h_ret (a\<lparr>ma_runnable := ma_runnable a @ [(index, worker_id, item_text)]\<rparr>))) en"

definition route_item :: "string \<Rightarrow> nat \<Rightarrow> string \<Rightarrow> multi_acc \<Rightarrow> multi_acc handler" where
  "route_item turn_id index item_text a =
     h_bind (h_catch (h_bind (h_call (RouteItem item_text)) (\<lambda>_. h_bind (h_ask en_envelope) (\<lambda>v. h_ret (Some v)))) (\<lambda>_. h_ret None))
     (\<lambda>envelope.
     case envelope of
       None \<Rightarrow> answer_item turn_id index ROUTING_UNAVAILABLE_TEXT ''failed'' a
     | Some (decision, prose) \<Rightarrow>
         if \<not> is_worker_route (rd_action decision) then
           answer_item turn_id index (prose_or_default prose (rd_action decision)) (action_label (rd_action decision)) a
         else
           h_bind (resolve_worker decision) (\<lambda>worker.
           case worker of
             None \<Rightarrow> answer_item turn_id index CAPABILITY_UNAVAILABLE_TEXT ''failed'' a
           | Some w \<Rightarrow> delegate_item turn_id index item_text (Some w) a))"

definition prepare_item :: "dispatch_outcome \<Rightarrow> string \<Rightarrow> nat \<times> string \<Rightarrow> multi_acc \<Rightarrow> multi_acc handler" where
  "prepare_item dispatched turn_id item a =
     (case (fst item, do_pending_dialogue dispatched) of
        (0, Some d) \<Rightarrow>
          h_bind (h_ask (\<lambda>en t. en_owner en t (pd_owner_id d))) (\<lambda>worker. delegate_item turn_id 0 (snd item) worker a)
      | _ \<Rightarrow> route_item turn_id (fst item) (snd item) a)"

section \<open>Fanning in\<close>

record fan_in =
  fi_results :: "(nat, grounded_result) dict"
  fi_attributed :: "nat set"
  fi_deferred :: "(nat, held_status) dict"
  fi_roles :: "(nat, speech_role) dict"

definition index_for_item_turn_id :: "string \<Rightarrow> nat list \<Rightarrow> string \<Rightarrow> nat option" where
  "index_for_item_turn_id turn_id idx key = map_of (map (\<lambda>i. (multi_intent_item_turn_id turn_id i, i)) idx) key"

definition index_for_work_item_id :: "string \<Rightarrow> nat list \<Rightarrow> string \<Rightarrow> nat option" where
  "index_for_work_item_id turn_id idx key = map_of (map (\<lambda>i. (item_work_id turn_id i, i)) idx) key"

definition worker_at :: "(nat \<times> string \<times> string) list \<Rightarrow> nat \<Rightarrow> string" where
  "worker_at runnable index = (case map_of runnable index of None \<Rightarrow> [] | Some (w, _) \<Rightarrow> w)"

text \<open>Of several results for one item the last one counts.\<close>

definition final_results :: "string \<Rightarrow> nat list \<Rightarrow> grounded_result list \<Rightarrow> (nat, grounded_result) dict" where
  "final_results turn_id idx rs =
     fold (\<lambda>r d. case index_for_item_turn_id turn_id idx (gr_turn_id r) of None \<Rightarrow> d | Some i \<Rightarrow> AList.update i r d) rs []"

definition hold_status :: "nat \<Rightarrow> string \<Rightarrow> string \<Rightarrow> derived_status \<Rightarrow> fan_in \<Rightarrow> fan_in" where
  "hold_status index work_item_id worker_id derived f =
     (case derived of
        None \<Rightarrow> f
      | Some (st, reason) \<Rightarrow> f\<lparr>fi_deferred := AList.update index (work_item_id, Some worker_id, st, reason) (fi_deferred f)\<rparr>)"

definition fan_in_result :: "string \<Rightarrow> (nat \<times> string \<times> string) list \<Rightarrow> nat \<times> grounded_result \<Rightarrow> fan_in \<Rightarrow> fan_in handler" where
  "fan_in_result turn_id runnable ir f =
     (let index = fst ir; item = item_work_id turn_id index; worker_id = worker_at runnable index in
      h_bind (h_ask (\<lambda>en t. case en_labels en t index of None \<Rightarrow> ''completed'' | Some l \<Rightarrow> l)) (\<lambda>label.
      h_bind (h_log (ChildFinalize item label)) (\<lambda>_.
      h_bind (h_ask (\<lambda>en t. en_cancelled_ids en t item)) (\<lambda>cancelled.
      h_ret (hold_status index item worker_id (work_status_for_outcome (Some label) cancelled True (Some label))
               (f\<lparr>fi_results := AList.update index (snd ir) (fi_results f), fi_attributed := insert index (fi_attributed f)\<rparr>))))))"

definition fan_in_pending :: "string \<Rightarrow> (nat \<times> string \<times> string) list \<Rightarrow> string \<Rightarrow> fan_in \<Rightarrow> fan_in handler" where
  "fan_in_pending turn_id runnable item f =
     (case index_for_work_item_id turn_id (map fst runnable) item of
        None \<Rightarrow> h_ret f
      | Some index \<Rightarrow>
          let worker_id = worker_at runnable index; f = f\<lparr>fi_attributed := insert index (fi_attributed f)\<rparr> in
          h_bind (h_ask (\<lambda>en t. en_cancelled_ids en t item)) (\<lambda>cancelled.
          h_bind (h_when (\<not> cancelled)
                    (h_bind (h_log (RetainItem item)) (\<lambda>_.
                     h_modify (\<lambda>s. s\<lparr>ts_retained_items := insert item (ts_retained_items s)\<rparr>)))) (\<lambda>_.
          h_bind (h_ask en_replaces_legacy) (\<lambda>replaces.
          h_bind (if replaces then h_ret f
                  else h_bind (build_result worker_id (multi_intent_item_turn_id turn_id index) ITEM_TIMEOUT_TEXT) (\<lambda>r.
                       h_ret (f\<lparr>fi_results := AList.update index r (fi_results f),
                                fi_roles := AList.update index ROLE_TIMEOUT_NOTICE (fi_roles f)\<rparr>))) (\<lambda>f.
          h_bind (h_log (ChildFinalize item ''retained'')) (\<lambda>_.
          h_bind (h_ask (\<lambda>en t. en_cancelled_ids en t item)) (\<lambda>cancelled.
          h_bind (case child_work_status_after_dispatch (Some ''retained'') cancelled None of
                    None \<Rightarrow> h_ret ()
                  | Some (st, reason) \<Rightarrow>
                      emit_work_status_h turn_id item (Some (work_id turn_id)) (Some worker_id) st reason) (\<lambda>_.
          h_bind (h_log (RegisterRetained item)) (\<lambda>_. h_ret f)))))))))"

definition fan_in_failure :: "string \<Rightarrow> (nat \<times> string \<times> string) list \<Rightarrow> work_item_failure \<Rightarrow> fan_in \<Rightarrow> fan_in handler" where
  "fan_in_failure turn_id runnable failure f =
     (let item = wf_work_item_id failure; label = failure_child_outcome (wf_failure_kind failure) in
      case index_for_work_item_id turn_id (map fst runnable) item of
        None \<Rightarrow> h_ret f
      | Some index \<Rightarrow>
          h_bind (build_result (wf_worker_id failure) (multi_intent_item_turn_id turn_id index) SEARCH_UNAVAILABLE_TEXT) (\<lambda>r.
          h_bind (h_log (ChildFinalize item label)) (\<lambda>_.
          h_bind (h_ask (\<lambda>en t. en_cancelled_ids en t item)) (\<lambda>cancelled.
          h_ret (hold_status index item (wf_worker_id failure) (work_status_for_outcome (Some label) cancelled True (Some label))
                   (f\<lparr>fi_results := AList.update index r (fi_results f), fi_attributed := insert index (fi_attributed f)\<rparr>))))))"

definition reconcile :: "string \<Rightarrow> (nat \<times> string \<times> string) list \<Rightarrow> nat set \<Rightarrow> nat \<Rightarrow> unit handler" where
  "reconcile turn_id runnable attributed index =
     (if index \<in> attributed then h_ret ()
      else
        let item = item_work_id turn_id index in
        h_bind (h_locals (\<lambda>s. list_ex (\<lambda>c. case c of ChildFinalize i _ \<Rightarrow> i = item | _ \<Rightarrow> False) (ts_trace s))) (\<lambda>finalized.
        h_bind (h_when (\<not> finalized) (h_log (ChildFinalize item ''failed''))) (\<lambda>_.
        h_bind (h_ask (\<lambda>en t. en_cancelled_ids en t item)) (\<lambda>cancelled.
        emit_work_status_h turn_id item (Some (work_id turn_id)) (Some (worker_at runnable index))
          (if cancelled then WsCancelled else WsFailed) None))))"

definition fan_in_all :: "string \<Rightarrow> multi_acc \<Rightarrow> submission_reply \<Rightarrow> fan_in handler" where
  "fan_in_all turn_id a submitted =
     (let runnable = ma_runnable a in
      h_bind (h_fold (fan_in_result turn_id runnable) (final_results turn_id (map fst runnable) (sb_results submitted))
                \<lparr>fi_results = ma_results a, fi_attributed = {}, fi_deferred = [], fi_roles = []\<rparr>) (\<lambda>f.
      h_bind (h_fold (fan_in_pending turn_id runnable) (sb_pending_work_item_ids submitted) f) (\<lambda>f.
      h_bind (h_fold (fan_in_failure turn_id runnable) (sb_failures submitted) f) (\<lambda>f.
      h_bind (h_each (reconcile turn_id runnable (fi_attributed f)) (map fst runnable)) (\<lambda>_. h_ret f)))))"

definition multi_ctx :: "turn_env \<Rightarrow> (turn_state, handler_exc) epilogue_ctx" where
  "multi_ctx en = (turn_ctx en [])\<lparr>ec_worker_projection := None\<rparr>"

definition multi_epilogue :: "string \<Rightarrow> fan_in \<Rightarrow> turn_reply handler" where
  "multi_epilogue turn_id f en s =
     (case finalize_fan_out_turn (multi_ctx en)
             \<lparr>fa_turn_id = turn_id, fa_parent_work_item_id = work_id turn_id, fa_origin_epoch = en_epoch en,
              fa_results = fi_results f, fa_attributed_indexes = fi_attributed f,
              fa_retained_work_items = ts_retained_items s, fa_speech_roles = fi_roles f\<rparr> (fi_deferred f) s of
        (s, Inl e) \<Rightarrow> (s, Inl e)
      | (s, Inr rs) \<Rightarrow> (s, Inr (CommittedAll rs)))"

section \<open>A compound turn\<close>

definition unretained_children :: "turn_state \<Rightarrow> (string, string option) dict" where
  "unretained_children s = filter (\<lambda>(k, v). k \<notin> ts_retained_items s) (ts_children s)"

definition multi_body :: "dispatch_outcome \<Rightarrow> string \<Rightarrow> turn_reply handler" where
  "multi_body dispatched turn_id =
     h_bind (h_fold (prepare_item dispatched turn_id) (enumerate 0 (do_work_items dispatched)) \<lparr>ma_results = [], ma_runnable = []\<rparr>) (\<lambda>a.
     h_bind (h_locals ts_children) (\<lambda>children.
     h_bind (h_each (\<lambda>(item, worker). emit_work_status_h turn_id item (Some (work_id turn_id)) worker WsSearching None) children) (\<lambda>_.
     h_bind (h_call (SubmitWork (map (\<lambda>(i, _). item_work_id turn_id i) (ma_runnable a)))) (\<lambda>_.
     h_bind (h_ask en_submitted) (\<lambda>submitted.
     h_bind (fan_in_all turn_id a submitted) (\<lambda>f. multi_epilogue turn_id f))))))"

definition release_children :: "string \<Rightarrow> unit handler" where
  "release_children turn_id en s =
     (release_fan_out_turn_work_items (multi_ctx en) turn_id (ts_children s) (ts_retained_items s) s, Inr ())"

definition handle_multi_intent :: "dispatch_outcome \<Rightarrow> string \<Rightarrow> turn_reply handler" where
  "handle_multi_intent dispatched turn_id =
     h_finally
       (h_cleanup (multi_body dispatched turn_id)
          (finalize_turn_exception_h turn_id (Some (work_id turn_id)) unretained_children))
       (release_children turn_id)"

end
