(* ===== verification/Turn_Transcript.thy ===== *)
theory Turn_Transcript
  imports Turn_Fan_Out
begin

text \<open>
  \<open>_handle_transcript_impl\<close> of \<open>server/pipeline.py\<close>: one final transcript, from its admission to the
  reply, with spoken control commands, main-model answers, delegation, and the nested handlers of \<open>Turn_Fan_Out\<close>.
\<close>

section \<open>Spoken control\<close>

text \<open>The effect of a control action: the control outcome and the text that replaces the usual acknowledgement.\<close>

definition cancel_control :: "string \<Rightarrow> string option \<Rightarrow> (string \<times> string option) handler" where
  "cancel_control turn_id target =
     h_bind (h_ask (\<lambda>en t. case target of None \<Rightarrow> Some turn_id | Some i \<Rightarrow> en_ack_turn en t i)) (\<lambda>cancel_turn_id.
     h_bind (h_call (CancelTurnOrChild cancel_turn_id target)) (\<lambda>_.
     h_bind (h_ask en_cancelled) (\<lambda>(cancelled_work, cancelled_speech).
     h_bind (h_call WaitForStops) (\<lambda>_.
     if cancelled_work = [] \<and> cancelled_speech = [] then
       let missed = (if target \<noteq> None then ''unknown_target'' else ''no_active'') in
       h_ret (missed, map_of CONTROL_MISS_ACK_TEXT missed)
     else h_ret (''applied'', None)))))"

definition control_effect :: "dispatch_outcome \<Rightarrow> string \<Rightarrow> (string \<times> string option) handler" where
  "control_effect dispatched turn_id =
     (let action = do_control_action dispatched;
          target = (case do_work_items dispatched of [] \<Rightarrow> None | i # _ \<Rightarrow> Some i) in
      if action = Some ''pause'' then
        h_bind (h_ask en_active_speech) (\<lambda>active.
        case active of
          None \<Rightarrow> h_ret (''no_active'', None)
        | Some current \<Rightarrow>
            h_bind (h_call (PauseSpeech (case target of None \<Rightarrow> current | Some i \<Rightarrow> i))) (\<lambda>_.
            h_bind (h_call WaitForStops) (\<lambda>_. h_ret (''applied'', None))))
      else if action = Some ''resume'' then
        h_bind (h_call (ResumeSpeech target)) (\<lambda>_.
        h_bind (h_ask en_replay) (\<lambda>replay.
        case replay of
          None \<Rightarrow> h_ret (''no_active'', None)
        | Some i \<Rightarrow> h_bind (h_call (StartSpeech i)) (\<lambda>_. h_ret (''applied'', None))))
      else if action \<in> {Some ''cancel'', Some ''stop''} then cancel_control turn_id target
      else if action = Some ''consent'' then h_ret (''no_pending'', None)
      else h_ret (''unknown_target'', None))"

definition control_turn :: "dispatch_outcome \<Rightarrow> string \<Rightarrow> turn_reply handler" where
  "control_turn dispatched turn_id =
     h_bind (control_effect dispatched turn_id) (\<lambda>(control_outcome, ack_override).
     let t = (case ack_override of
                Some a \<Rightarrow> a
              | None \<Rightarrow>
                  (case do_control_action dispatched of
                     None \<Rightarrow> ''Control request noted.''
                   | Some action \<Rightarrow> (case map_of CONTROL_ACK_TEXT action of None \<Rightarrow> ''Control request noted.'' | Some a \<Rightarrow> a))) in
     case do_control_action dispatched of
       None \<Rightarrow> main_reply turn_id t True (Some ''failed'') None
     | Some action \<Rightarrow> main_reply turn_id t True (Some ''control'') (Some (action, control_outcome)))"

section \<open>Routed turns\<close>

definition routed_turn :: "string \<Rightarrow> string \<Rightarrow> dispatch_outcome \<Rightarrow> routing_decision \<Rightarrow> turn_reply handler" where
  "routed_turn transcript turn_id dispatched decision =
     h_bind (h_call (SetRouting decision)) (\<lambda>_.
     if \<not> is_worker_route (rd_action decision) then
       main_reply turn_id (prose_or_default (do_prose dispatched) (rd_action decision)) False (Some (action_label (rd_action decision))) None
     else
       h_bind (resolve_worker decision) (\<lambda>worker.
       case worker of
         None \<Rightarrow> main_reply turn_id CAPABILITY_UNAVAILABLE_TEXT True (Some ''failed'') None
       | Some w \<Rightarrow> delegated_turn transcript turn_id dispatched w))"

definition unrouted_turn :: "string \<Rightarrow> dispatch_outcome \<Rightarrow> turn_reply handler" where
  "unrouted_turn turn_id dispatched =
     (if do_kind dispatched = ''control'' then control_turn dispatched turn_id
      else if do_kind dispatched = ''multi_intent'' then h_scope (handle_multi_intent dispatched turn_id)
      else if do_kind dispatched = ''continue_pending'' then h_scope (handle_pending dispatched turn_id)
      else h_bind (h_log (TurnFinalize (Some ''failed'') None)) (\<lambda>_. h_ret (OutcomeItself dispatched)))"

section \<open>A transcript\<close>

definition arbitrate_turn :: "string \<Rightarrow> dispatch_outcome option handler" where
  "arbitrate_turn transcript =
     h_catch
       (h_bind (h_call (Arbitrate transcript)) (\<lambda>_.
        h_bind (h_ask en_outcome) (\<lambda>dispatched. h_bind (h_log RecordRouting) (\<lambda>_. h_ret (Some dispatched)))))
       (\<lambda>_. h_ret None)"

definition transcript_body :: "string \<Rightarrow> string \<Rightarrow> turn_reply handler" where
  "transcript_body transcript turn_id =
     h_bind (h_log (RegisterTurnTask (work_id turn_id))) (\<lambda>_.
     h_bind (h_call (AppendTranscript transcript)) (\<lambda>_.
     h_bind (arbitrate_turn transcript) (\<lambda>routed.
     case routed of
       None \<Rightarrow> main_reply turn_id ROUTING_UNAVAILABLE_TEXT True (Some ''failed'') None
     | Some dispatched \<Rightarrow>
         (case (do_kind dispatched = ''routed'', do_decision dispatched) of
            (True, Some decision) \<Rightarrow> routed_turn transcript turn_id dispatched decision
          | _ \<Rightarrow> unrouted_turn turn_id dispatched))))"

definition handle_transcript :: "string \<Rightarrow> turn_reply handler" where
  "handle_transcript transcript en =
     (if \<not> en_admitted en then h_ret (Echo transcript) en
      else single_child_clauses (en_turn_id en) (transcript_body transcript (en_turn_id en)) en)"

end
