(* ===== verification/Turn_Rules.thy ===== *)
theory Turn_Rules
  imports Turn_Transcript
begin

text \<open>
  Weakest preconditions for the handlers of \<open>Turn_Monad\<close>: \<open>wp en m Q E s\<close> says that \<open>m\<close>, started in \<open>s\<close>,
  ends in \<open>Q\<close> when it returns and in \<open>E\<close> when it raises. There is one equation per combinator (collected in \<open>wp\<close>), so
  straight-line code is verified by rewriting, and \<open>wp_mono\<close> to use the lemma of a part. Handlers are total, so nothing is
  said only of runs that end.
\<close>

named_theorems wp "weakest preconditions of the handler combinators"

definition wp ::
    "turn_env \<Rightarrow> 'a handler \<Rightarrow> ('a \<Rightarrow> turn_state \<Rightarrow> bool) \<Rightarrow> (handler_exc raised \<Rightarrow> turn_state \<Rightarrow> bool) \<Rightarrow> turn_state \<Rightarrow> bool" where
  "wp en m Q E s = (case m en s of (s', Inl e) \<Rightarrow> E e s' | (s', Inr x) \<Rightarrow> Q x s')"

definition logged :: "call \<Rightarrow> turn_state \<Rightarrow> turn_state" where
  "logged c s = s\<lparr>ts_trace := ts_trace s @ [c]\<rparr>"

lemma wp_mono:
  assumes "wp en m Q E s" and "\<And>x s'. Q x s' \<Longrightarrow> Q' x s'" and "\<And>e s'. E e s' \<Longrightarrow> E' e s'"
  shows "wp en m Q' E' s"
  using assms by (auto simp: wp_def split: sum.splits)

lemma wp_iff: "m en s = (s', r) \<Longrightarrow> wp en m Q E s \<longleftrightarrow> (case r of Inl e \<Rightarrow> E e s' | Inr x \<Rightarrow> Q x s')"
  by (simp add: wp_def)

lemma wp_ret [wp]: "wp en (h_ret x) Q E s = Q x s"
  by (simp add: wp_def h_ret_def)

lemma wp_raise [wp]: "wp en (h_raise e) Q E s = E e s"
  by (simp add: wp_def h_raise_def)

lemma wp_bind [wp]: "wp en (h_bind m k) Q E s = wp en m (\<lambda>x. wp en (k x) Q E) E s"
  by (auto simp: wp_def h_bind_def split: prod.split sum.split)

lemma wp_log [wp]: "wp en (h_log c) Q E s = Q () (logged c s)"
  by (simp add: wp_def h_log_def logged_def)

lemma wp_call [wp]:
  "wp en (h_call c) Q E s = (case en_raises en (ts_trace s @ [c]) of None \<Rightarrow> Q () (logged c s) | Some e \<Rightarrow> E e (logged c s))"
  by (simp add: wp_def h_call_def logged_def Let_def split: option.split)

lemma wp_ask [wp]: "wp en (h_ask f) Q E s = Q (f en (ts_trace s)) s"
  by (simp add: wp_def h_ask_def)

lemma wp_locals [wp]: "wp en (h_locals f) Q E s = Q (f s) s"
  by (simp add: wp_def h_locals_def)

lemma wp_modify [wp]: "wp en (h_modify f) Q E s = Q () (f s)"
  by (simp add: wp_def h_modify_def)

lemma wp_catch [wp]:
  "wp en (h_catch m k) Q E s =
     wp en m Q (\<lambda>e s'. if e = CancelledError then E e s' else wp en (k e) Q E s') s"
  by (auto simp: wp_def h_catch_def split: prod.split sum.split raised.split)

lemma wp_cleanup [wp]:
  "wp en (h_cleanup m k) Q E s = wp en m Q (\<lambda>e. wp en (k (e = CancelledError)) (\<lambda>_. E e) E) s"
  by (auto simp: wp_def h_cleanup_def split: prod.split sum.split)

lemma wp_finally [wp]:
  "wp en (h_finally m k) Q E s = wp en m (\<lambda>x. wp en k (\<lambda>_. Q x) E) (\<lambda>e. wp en k (\<lambda>_. E e) E) s"
  by (auto simp: wp_def h_finally_def split: prod.split sum.split)

lemma wp_when [wp]: "wp en (h_when b m) Q E s = (if b then wp en m Q E s else Q () s)"
  by (simp add: h_when_def wp)

lemma wp_if [wp]: "wp en (if b then m else k) Q E s = (if b then wp en m Q E s else wp en k Q E s)"
  by simp

lemma wp_scope [wp]:
  "wp en (h_scope m) Q E s =
     wp en m (\<lambda>x s'. Q x (s\<lparr>ts_trace := ts_trace s'\<rparr>)) (\<lambda>e s'. E e (s\<lparr>ts_trace := ts_trace s'\<rparr>)) (start_turn\<lparr>ts_trace := ts_trace s\<rparr>)"
  by (auto simp: wp_def h_scope_def split: prod.split sum.split)

lemma wp_each:
  assumes "I s" and "\<And>x s. x \<in> set xs \<Longrightarrow> I s \<Longrightarrow> wp en (f x) (\<lambda>_. I) E s"
  shows "wp en (h_each f xs) (\<lambda>_. I) E s"
  using assms
proof (induction xs arbitrary: s)
  case (Cons x xs)
  then have "wp en (f x) (\<lambda>_. I) E s" by simp
  then show ?case unfolding h_each.simps wp_bind by (rule wp_mono) (use Cons in simp_all)
qed (simp add: wp)

lemma wp_fold:
  assumes "I acc s" and "\<And>x acc s. x \<in> set xs \<Longrightarrow> I acc s \<Longrightarrow> wp en (f x acc) I E s"
  shows "wp en (h_fold f xs acc) I E s"
  using assms
proof (induction xs arbitrary: acc s)
  case (Cons x xs)
  then have "wp en (f x acc) I E s" by simp
  then show ?case unfolding h_fold.simps wp_bind by (rule wp_mono) (use Cons in simp_all)
qed (simp add: wp)

section \<open>What the calls of a trace come to\<close>

text \<open>The children whose last status is \<open>routing\<close> or \<open>searching\<close>.\<close>

definition step_open :: "call \<Rightarrow> string set \<Rightarrow> string set" where
  "step_open c ids =
     (case c of
        EmitStatus r \<Rightarrow>
          if cr_state r \<in> {WsRouting, WsSearching} then insert (cr_work_item_id r) ids else ids - {cr_work_item_id r}
      | _ \<Rightarrow> ids)"

definition open_ids :: "trace \<Rightarrow> string set" where
  "open_ids t = fold step_open t {}"

text \<open>The children that a compound turn left to the coordinator.\<close>

definition kept_ids :: "trace \<Rightarrow> string set" where
  "kept_ids t = {w. RetainItem w \<in> set t}"

text \<open>Whether an early acknowledgement was asked for and not settled since.\<close>

definition step_ack :: "call \<Rightarrow> bool \<Rightarrow> bool" where
  "step_ack c b = (case c of EarlyAck _ \<Rightarrow> True | SettleAck _ _ \<Rightarrow> False | _ \<Rightarrow> b)"

definition ack_open :: "trace \<Rightarrow> bool" where
  "ack_open t = fold step_ack t False"

text \<open>Whether every result was committed with no acknowledgement outstanding.\<close>

definition is_commit :: "call \<Rightarrow> bool" where
  "is_commit c = (case c of CommitAndSpeak _ _ _ \<Rightarrow> True | _ \<Rightarrow> False)"

fun clean_from :: "bool \<Rightarrow> trace \<Rightarrow> bool" where
  "clean_from acking [] = True"
| "clean_from acking (c # t) = ((is_commit c \<longrightarrow> \<not> acking) \<and> clean_from (step_ack c acking) t)"

definition clean_commits :: "trace \<Rightarrow> bool" where
  "clean_commits t = clean_from False t"

lemma clean_from_snoc: "clean_from b (t @ [c]) \<longleftrightarrow> clean_from b t \<and> (is_commit c \<longrightarrow> \<not> fold step_ack t b)"
  by (induction t arbitrary: b) auto

record turn_view =
  tv_open :: "string set"
  tv_kept :: "string set"
  tv_ack :: bool
  tv_finalized :: bool
  tv_clean :: bool
  tv_children :: "string set"
  tv_retained_open :: bool
  tv_retained_items :: "string set"

definition view :: "turn_state \<Rightarrow> turn_view" where
  "view s =
     \<lparr>tv_open = open_ids (ts_trace s), tv_kept = kept_ids (ts_trace s), tv_ack = ack_open (ts_trace s),
      tv_finalized = turn_finalized (ts_trace s), tv_clean = clean_commits (ts_trace s), tv_children = set (dkeys (ts_children s)),
      tv_retained_open = ts_retained_open s, tv_retained_items = ts_retained_items s\<rparr>"

definition step_view :: "call \<Rightarrow> turn_view \<Rightarrow> turn_view" where
  "step_view c v =
     v\<lparr>tv_open := step_open c (tv_open v),
       tv_kept := (case c of RetainItem w \<Rightarrow> insert w (tv_kept v) | _ \<Rightarrow> tv_kept v),
       tv_ack := step_ack c (tv_ack v), tv_finalized := (tv_finalized v \<or> is_turn_finalize c),
       tv_clean := (tv_clean v \<and> (is_commit c \<longrightarrow> \<not> tv_ack v))\<rparr>"

lemma view_logged [simp]: "view (logged c s) = step_view c (view s)"
  by (cases c) (auto simp: view_def logged_def step_view_def open_ids_def kept_ids_def ack_open_def turn_finalized_def is_turn_finalize_def
      clean_commits_def clean_from_snoc is_commit_def)

lemma logged_fields [simp]:
  "ts_trace (logged c s) = ts_trace s @ [c]" "ts_children (logged c s) = ts_children s"
  "ts_retained_open (logged c s) = ts_retained_open s" "ts_retained_items (logged c s) = ts_retained_items s"
  by (simp_all add: logged_def)

lemma view_modified [simp]:
  "view (s\<lparr>ts_retained_open := b\<rparr>) = (view s)\<lparr>tv_retained_open := b\<rparr>"
  "view (s\<lparr>ts_retained_items := w\<rparr>) = (view s)\<lparr>tv_retained_items := w\<rparr>"
  "view (s\<lparr>ts_children := d\<rparr>) = (view s)\<lparr>tv_children := set (dkeys d)\<rparr>"
  by (simp_all add: view_def)

lemma update_keys [simp]: "fst ` set (AList.update k v d) = insert k (fst ` set d)"
  using set_dkeys_dset [of k v d] by simp

lemma view_fields:
  "tv_retained_open (view s) = ts_retained_open s" "tv_retained_items (view s) = ts_retained_items s"
  "tv_children (view s) = set (dkeys (ts_children s))"
  "tv_finalized (view s) = turn_finalized (ts_trace s)"
  by (simp_all add: view_def)

text \<open>Calls that change nothing of this.\<close>

definition neutral :: "call \<Rightarrow> bool" where
  "neutral c =
     (case c of
        EmitStatus _ \<Rightarrow> False | RetainItem _ \<Rightarrow> False | EarlyAck _ \<Rightarrow> False | SettleAck _ _ \<Rightarrow> False | TurnFinalize _ _ \<Rightarrow> False
      | CommitAndSpeak _ _ _ \<Rightarrow> False | _ \<Rightarrow> True)"

lemma step_view_neutral: "neutral c \<Longrightarrow> step_view c v = v"
  by (cases c) (simp_all add: neutral_def step_view_def step_open_def step_ack_def is_turn_finalize_def is_commit_def)

lemma neutral_calls [simp]:
  "neutral (RegisterTurnTask a)" "neutral (AppendTranscript a)" "neutral (Arbitrate a)" "neutral RecordRouting"
  "neutral (SetRouting d)" "neutral (NewChild a)" "neutral (ChildFinalize a l)"
  "neutral (ReleaseTurn a)" "neutral (ReleaseItem a i)" "neutral (RegisterTurnItem a i)" "neutral (RegisterKnown a)"
  "neutral (ProjectWorker a)" "neutral (PauseSpeech a)" "neutral (ResumeSpeech t)" "neutral (StartSpeech a)" "neutral WaitForStops"
  "neutral (CancelTurnOrChild t t')" "neutral (DispatchWorker d)" "neutral RegisterWorker" "neutral (StartSearch a)"
  "neutral (TrackSearch a)" "neutral WaitForeground" "neutral CancelSearch" "neutral TakeResult" "neutral (RegisterRetained a)"
  "neutral (PopRetained a)" "neutral (RetainLate a)" "neutral (RouteItem a)" "neutral (SubmitWork is)" "neutral (RecordClarification a i)"
  "neutral RecordCommit"
  by (simp_all add: neutral_def)

lemma step_view_steps [simp]:
  "step_view (SettleAck a b) v = v\<lparr>tv_ack := False\<rparr>"
  "step_view (EarlyAck b) v = v\<lparr>tv_ack := True\<rparr>"
  "step_view (TurnFinalize l c) v = v\<lparr>tv_finalized := True\<rparr>"
  "step_view (RetainItem w) v = v\<lparr>tv_kept := insert w (tv_kept v)\<rparr>"
  "step_view (EmitStatus r) v =
     v\<lparr>tv_open := (if cr_state r \<in> {WsRouting, WsSearching} then insert (cr_work_item_id r) (tv_open v)
                   else tv_open v - {cr_work_item_id r})\<rparr>"
  "step_view (CommitAndSpeak g role b) v = v\<lparr>tv_clean := (tv_clean v \<and> \<not> tv_ack v)\<rparr>"
  by (simp_all add: step_view_def step_open_def step_ack_def is_turn_finalize_def is_commit_def)

declare step_view_neutral [simp]

section \<open>Parts that leave the view alone\<close>

definition quiet :: "turn_env \<Rightarrow> bool" where
  "quiet en \<longleftrightarrow> (\<forall>t r. en_raises en (t @ [EmitStatus r]) = None)"

abbreviation same_view :: "turn_state \<Rightarrow> turn_state \<Rightarrow> bool" where
  "same_view s s' \<equiv> view s' = view s"

abbreviation inert :: "turn_env \<Rightarrow> 'a handler \<Rightarrow> bool" where
  "inert en m \<equiv> \<forall>s. wp en m (\<lambda>_. same_view s) (\<lambda>_. same_view s) s"

lemma quiet_last [wp]:
  assumes "quiet en" and "t \<noteq> []" and "\<exists>r. last t = EmitStatus r"
  shows "en_raises en t = None"
  using assms append_butlast_last_id [of t] unfolding quiet_def by metis

lemma wp_emit [wp]:
  "quiet en \<Longrightarrow> wp en (h_call (EmitStatus r)) Q E s = Q () (logged (EmitStatus r) s)"
  by (simp add: wp_call quiet_def)

lemma wp_emit_h [wp]:
  "quiet en \<Longrightarrow> wp en (emit_work_status_h turn item parent worker st reason) Q E s =
     Q () (logged (EmitStatus
       \<lparr>cr_turn_id = turn, cr_work_item_id = item, cr_parent_work_item_id = parent, cr_worker_id = worker,
        cr_state = st, cr_origin_epoch = Some (en_epoch en), cr_terminal_reason = reason\<rparr>) s)"
  by (simp add: emit_work_status_h_def wp_def h_call_def quiet_def logged_def Let_def)

lemma build_result_wp: "(\<And>r. Q r s) \<Longrightarrow> E (PyException OtherExc) s \<Longrightarrow> wp en (build_result w t x) Q E s"
  by (simp add: wp_def build_result_def split: sum.split)

lemma inert_build [simp]: "inert en (build_result w t x)"
  by (simp add: build_result_wp)

end
