(* ===== verification/Turn_Settlement.thy ===== *)
theory Turn_Settlement
  imports Turn_Rules
begin

text \<open>
  What the single-child handlers leave behind. A handler that returns or raises has given every child it
  announced (\<open>routing\<close>, \<open>searching\<close>) a later status, unless the coordinator keeps the child, and has finalized the record of the turn.
  The lemmas go up the calls: parts that change nothing the clauses read, \<open>delegate\<close>, one search,
  the epilogue, the clauses.
\<close>

section \<open>Predicates on views\<close>

definition nothing_open :: "turn_view \<Rightarrow> bool" where
  "nothing_open v \<longleftrightarrow> tv_open v \<subseteq> tv_kept v"

text \<open>What the clauses of a single-child handler need when the body raises.\<close>

definition recoverable :: "turn_view \<Rightarrow> bool" where
  "recoverable v \<longleftrightarrow> tv_clean v \<and> tv_open v \<subseteq> tv_children v \<union> tv_kept v \<and> (tv_retained_open v \<longrightarrow> nothing_open v)"

definition only_open :: "string \<Rightarrow> turn_view \<Rightarrow> bool" where
  "only_open w v \<longleftrightarrow> tv_clean v \<and> tv_open v \<subseteq> insert w (tv_kept v) \<and> w \<in> tv_children v"

definition at_rest :: "turn_view \<Rightarrow> bool" where
  "at_rest v \<longleftrightarrow> tv_clean v \<and> nothing_open v \<and> \<not> tv_ack v"

definition ended :: "turn_reply \<Rightarrow> turn_view \<Rightarrow> bool" where
  "ended reply v \<longleftrightarrow> tv_clean v \<and> nothing_open v \<and> tv_finalized v \<and> (tv_ack v \<longrightarrow> reply = NothingCommitted)"

definition failed_over :: "turn_view \<Rightarrow> bool" where
  "failed_over v \<longleftrightarrow> tv_clean v \<and> nothing_open v \<and> tv_finalized v \<and> \<not> tv_ack v"

lemmas view_preds = nothing_open_def recoverable_def only_open_def at_rest_def ended_def failed_over_def

section \<open>Parts that leave the view alone\<close>

lemma inert_clarification [simp]: "inert en (clarification_result_h w t q oq)"
  by (auto simp: clarification_result_h_def wp intro!: build_result_wp)

lemma inert_dispatch [simp]: "inert en (dispatch_search_task q)"
  by (simp add: dispatch_search_task_def wp split: option.split)

lemma inert_wait [simp]: "inert en (wait_for_search i)"
  by (simp add: wait_for_search_def wp split: option.split)

lemma inert_search_with_timeout [simp]: "inert en (search_with_timeout q i b c)"
proof
  fix s
  have "wp en (wait_for_search i) (\<lambda>_. same_view s) (\<lambda>_. same_view s) s'" if "view s' = view s" for s'
    using inert_wait [of en i] that by metis
  then show "wp en (search_with_timeout q i b c) (\<lambda>_. same_view s) (\<lambda>_. same_view s) s"
    by (simp add: search_with_timeout_def dispatch_search_task_def wp split: option.split)
qed

lemma inert_resolve [simp]: "inert en (resolve_worker d)"
  by (simp add: resolve_worker_def wp split: option.split)

lemma inert_arbitrate [simp]: "inert en (arbitrate_turn t)"
  by (simp add: arbitrate_turn_def wp split: option.split)

lemma inert_cancel [simp]: "inert en (cancel_control t i)"
  by (simp add: cancel_control_def wp Let_def split: option.split prod.split)

lemma inert_control [simp]: "inert en (control_effect d t)"
proof
  fix s
  show "wp en (control_effect d t) (\<lambda>_. same_view s) (\<lambda>_. same_view s) s"
    unfolding control_effect_def Let_def wp_if
    by (simp add: wp split: option.split)
qed

lemma wp_inert:
  assumes "inert en m" and "\<And>x s'. view s' = view s \<Longrightarrow> Q x s'" and "\<And>e s'. view s' = view s \<Longrightarrow> E e s'"
  shows "wp en m Q E s"
  using assms(1) by (rule allE) (erule wp_mono, use assms in auto)

section \<open>Answers of the main model\<close>

lemma main_reply_wp:
  assumes "at_rest (view s)"
  shows "wp en (main_reply turn t tts l c) (\<lambda>r s. ended r (view s)) (\<lambda>_ s. at_rest (view s)) s"
  using assms
  by (auto simp: main_reply_def speak_def wp view_preds intro!: build_result_wp split: option.split)

lemma control_turn_wp:
  assumes "at_rest (view s)"
  shows "wp en (control_turn d turn) (\<lambda>r s. ended r (view s)) (\<lambda>_ s. at_rest (view s)) s"
  unfolding control_turn_def wp_bind
  by (rule wp_inert) (use assms in \<open>auto intro!: main_reply_wp split: option.split\<close>)

section \<open>Delegation\<close>

lemma reject_delegation_wp:
  assumes "quiet en"
  shows "wp en (reject_delegation r w l reason fin)
     (\<lambda>d s'. d = None \<and> view s' = (view s)\<lparr>tv_open := tv_open (view s) - {dr_work_item_id r}, tv_finalized := (fin \<or> tv_finalized (view s))\<rparr>)
     (\<lambda>_ s'. False) s"
  using assms by (simp add: reject_delegation_def wp delegation_report_def)

lemma delegate_wp:
  assumes "quiet en"
  shows "wp en (delegate r fin)
     (\<lambda>d s'. case d of
         None \<Rightarrow> view s' = (view s)\<lparr>tv_open := tv_open (view s) - {dr_work_item_id r}, tv_finalized := (fin \<or> tv_finalized (view s))\<rparr>
       | Some (i, w) \<Rightarrow> i = dr_work_item_id r \<and>
           view s' = (view s)\<lparr>tv_children := insert i (tv_children (view s)), tv_open := insert i (tv_open (view s))\<rparr>)
     (\<lambda>_ s'. view s' = view s) s"
proof (cases "dr_worker r")
  case None
  show ?thesis unfolding delegate_def using None
    by simp (rule wp_mono [OF reject_delegation_wp [OF assms]], auto)
next
  case (Some w)
  have "wp en (reject_delegation r u l reason fin)
     (\<lambda>d s'. case d of
         None \<Rightarrow> view s' = (view s)\<lparr>tv_open := tv_open (view s) - {dr_work_item_id r}, tv_finalized := (fin \<or> tv_finalized (view s))\<rparr>
       | Some (i, w) \<Rightarrow> i = dr_work_item_id r \<and>
           view s' = (view s)\<lparr>tv_children := insert i (tv_children (view s)), tv_open := insert i (tv_open (view s))\<rparr>)
     (\<lambda>_ s'. view s' = view s) (logged (ProjectWorker ''running'') s)" for u l reason
    by (rule wp_mono [OF reject_delegation_wp [OF assms]]) auto
  with Some assms show ?thesis
    by (simp add: delegate_def wp Let_def delegation_report_def view_fields split: option.split)
qed

section \<open>One search\<close>

text \<open>Before the epilogue: the child is the only one open, and not open when it is retained.\<close>

definition searched :: "string \<Rightarrow> unit + grounded_result \<times> string \<Rightarrow> turn_view \<Rightarrow> bool" where
  "searched w x v \<longleftrightarrow>
     (case x of
        Inl _ \<Rightarrow> ended NothingCommitted v
      | Inr (_, label) \<Rightarrow> only_open w v \<and> \<not> tv_retained_open v \<and> (label = ''retained'' \<longrightarrow> nothing_open v))"

lemma settle_execution_wp:
  assumes "quiet en" and "only_open w (view s)" and "\<not> tv_retained_open (view s)"
  shows "wp en (settle_execution turn w wid x) (\<lambda>x s. searched w x (view s)) (\<lambda>_ s. only_open w (view s) \<and> \<not> tv_retained_open (view s)) s"
  using assms
  by (auto simp: settle_execution_def wp searched_def view_preds intro!: build_result_wp split: search_execution.split option.split)

lemma run_search_wp:
  assumes "quiet en" and "only_open w (view s)" and "\<not> tv_retained_open (view s)"
  shows "wp en (run_search t turn w wid) (\<lambda>x s. searched w x (view s)) (\<lambda>_ s. only_open w (view s) \<and> \<not> tv_retained_open (view s)) s"
proof -
  have 1: "wp en (search_with_timeout t w b True) (\<lambda>x. wp en (settle_execution turn w wid x) (\<lambda>x s. searched w x (view s))
      (\<lambda>_ s. only_open w (view s) \<and> \<not> tv_retained_open (view s))) (\<lambda>_ s. only_open w (view s) \<and> \<not> tv_retained_open (view s)) s'"
    if "only_open w (view s')" "\<not> tv_retained_open (view s')" for s' b
    by (rule wp_inert) (use that settle_execution_wp [OF assms(1)] in auto)
  show ?thesis unfolding run_search_def wp_bind
    by (rule wp_inert) (use assms in \<open>auto simp: wp intro!: 1 split: option.split\<close>, auto simp: only_open_def)
qed

lemma search_failure_wp:
  assumes "only_open w (view s)" and "\<not> tv_retained_open (view s)"
  shows "wp en (search_failure t turn wid e) (\<lambda>x s. searched w x (view s)) (\<lambda>_ s. only_open w (view s) \<and> \<not> tv_retained_open (view s)) s"
proof -
  have 1: "wp en (h_bind m (\<lambda>r. h_ret (Inr (r, l)))) (\<lambda>x s. searched w x (view s)) (\<lambda>_ s. only_open w (view s) \<and> \<not> tv_retained_open (view s)) s"
    if "inert en m" and "l \<noteq> ''retained''" for m l
    unfolding wp_bind by (rule wp_inert [OF that(1)]) (use assms that(2) in \<open>auto simp: wp searched_def\<close>)
  show ?thesis unfolding search_failure_def
    by (auto intro!: 1 split: raised.split handler_exc.split)
qed

section \<open>The epilogue of one child\<close>

text \<open>The epilogue written with the combinators, so that the rules above apply to it.\<close>

definition emit_derived_h :: "string \<Rightarrow> string \<Rightarrow> string \<Rightarrow> derived_status \<Rightarrow> unit handler" where
  "emit_derived_h turn w wid derived =
     (case derived of None \<Rightarrow> h_ret () | Some (st, reason) \<Rightarrow> emit_work_status_h turn w None (Some wid) st reason)"

definition tail_h :: "string \<Rightarrow> string \<Rightarrow> bool \<Rightarrow> grounded_result \<Rightarrow> turn_reply handler" where
  "tail_h w label single committed =
     h_bind (h_log (ChildFinalize w label)) (\<lambda>_.
     h_bind (h_when single (h_log RecordCommit)) (\<lambda>_.
     h_bind (h_log (TurnFinalize None None)) (\<lambda>_.
     h_bind (h_when single (h_log (ProjectWorker ''idle''))) (\<lambda>_. h_ret (CommittedResult committed)))))"

definition epilogue_h ::
    "string \<Rightarrow> string \<Rightarrow> string \<Rightarrow> grounded_result \<Rightarrow> string \<Rightarrow> derived_status \<Rightarrow> bool \<Rightarrow> bool \<Rightarrow> turn_reply handler" where
  "epilogue_h turn w wid r label derived cancel_admitted single =
     h_bind (h_log (SettleAck turn cancel_admitted)) (\<lambda>_.
     h_bind (h_cleanup (h_bind (h_call (CommitAndSpeak r (speech_role_for_child_outcome label) True)) (\<lambda>_. h_ask en_committed))
               (\<lambda>cancelled. h_when (\<not> cancelled) (emit_derived_h turn w wid (work_status_after_commit_failure derived)))) (\<lambda>committed.
     h_bind (emit_derived_h turn w wid derived) (\<lambda>_. tail_h w label single (fst committed))))"

lemma emit_derived_turn:
  "emit_derived (turn_ctx en w) a d s = emit_derived_h (sa_turn_id a) (sa_work_item_id a) (sa_worker_id a) d en s"
  if "sa_origin_epoch a = en_epoch en"
  using that
  by (cases d) (auto simp: emit_derived_def emit_derived_h_def turn_ctx_def h_ret_def emit_work_status_h_def single_child_report_def)

lemma tail_turn:
  "(case single_child_tail (turn_ctx en w) a c s of (s, Inl e) \<Rightarrow> (s, Inl e) | (s, Inr o') \<Rightarrow> (s, Inr (CommittedResult (se_result o')))) =
     tail_h w (sa_child_outcome_label a) (sa_project_idle a) c en s"
  if "sa_record_commit_ms a = sa_project_idle a"
  using that
  by (cases "sa_project_idle a")
     (simp_all add: single_child_tail_def tail_h_def turn_ctx_def Let_def h_bind_def h_log_def h_when_def h_ret_def)

lemma single_child_epilogue_eq:
  "single_child_epilogue turn w wid r label retained c derive ca single en s =
     epilogue_h turn w wid r label (derive (Some label) c (Some label)) ca single en s"
proof -
  define a where "a = \<lparr>sa_turn_id = turn, sa_work_item_id = w, sa_origin_epoch = en_epoch en, sa_worker_id = wid,
              sa_result = r, sa_child_outcome_label = label, sa_retained_still_open = retained, sa_was_cancelled = c,
              sa_speech_role = speech_role_for_child_outcome label, sa_project_idle = single, sa_cancel_admitted = ca,
              sa_record_commit_ms = single, sa_derive_status = derive\<rparr>"
  define s0 where "s0 = logged (SettleAck turn ca) s"
  let ?commit = "h_bind (h_call (CommitAndSpeak r (speech_role_for_child_outcome label) True)) (\<lambda>_. h_ask en_committed) en s0"
  have a: "sa_origin_epoch a = en_epoch en" "sa_record_commit_ms a = sa_project_idle a" "sa_turn_id a = turn" "sa_work_item_id a = w"
    "sa_worker_id a = wid" "sa_child_outcome_label a = label" "sa_project_idle a = single" "sa_derive_status a = derive"
    "sa_was_cancelled a = c" "sa_cancel_admitted a = ca" "sa_result a = r" "sa_speech_role a = speech_role_for_child_outcome label"
    by (simp_all add: a_def)
  note tail = tail_turn [OF a(2), unfolded a, symmetric]
  note emit = emit_derived_turn [OF a(1), unfolded a]
  have ctx: "ec_commit_and_speak (turn_ctx en w) r (speech_role_for_child_outcome label) s0 = ?commit"
    "ec_settle_turn_ack (turn_ctx en w) turn ca s = s0"
    by (simp_all add: turn_ctx_def h_log_def s0_def logged_def)
  obtain s1 x where commit: "?commit = (s1, x)" by fastforce
  have log: "h_log (SettleAck turn ca) en s = (s0, Inr ())" by (simp add: h_log_def s0_def logged_def)
  show ?thesis
    unfolding single_child_epilogue_def a_def [symmetric] finalize_single_child_turn_def Let_def a ctx commit epilogue_h_def
    unfolding h_bind_def [of "h_log _"] h_bind_def [of "h_cleanup _ _"] h_cleanup_def log prod.case sum.case commit
    by (cases x; (cases "projl x")?)
       (auto simp: emit tail h_bind_def [of "emit_derived_h _ _ _ _"] h_when_def h_ret_def split: prod.split sum.split)
qed

lemma emit_derived_wp:
  assumes "quiet en" and "\<And>st reason. d = Some (st, reason) \<Longrightarrow> st \<notin> {WsRouting, WsSearching}"
  shows "wp en (emit_derived_h turn w wid d)
     (\<lambda>_ s'. view s' = (view s)\<lparr>tv_open := (if d = None then tv_open (view s) else tv_open (view s) - {w})\<rparr>) (\<lambda>_ _. False) s"
  using assms by (auto simp: emit_derived_h_def wp split: option.split)

lemma commit_failure_closes:
  "work_status_after_commit_failure d = Some (st, reason) \<Longrightarrow> st \<notin> {WsRouting, WsSearching}"
  by (auto simp: work_status_after_commit_failure_def split: option.splits prod.splits if_splits)

definition closing :: "derived_status \<Rightarrow> turn_view \<Rightarrow> bool" where
  "closing d v \<longleftrightarrow> (case d of None \<Rightarrow> nothing_open v | Some (st, _) \<Rightarrow> st \<notin> {WsRouting, WsSearching})"

abbreviation settles :: "turn_env \<Rightarrow> turn_reply handler \<Rightarrow> turn_state \<Rightarrow> bool" where
  "settles en m s \<equiv> wp en m (\<lambda>r s. ended r (view s)) (\<lambda>_ s. recoverable (view s)) s"

lemma epilogue_wp:
  assumes "quiet en" and "only_open w (view s)" and "recoverable (view s)" and "closing d (view s)"
  shows "settles en (epilogue_h turn w wid r label d ca single) s"
proof -
  let ?E = "\<lambda>(_ :: handler_exc raised) s. recoverable (view s)"
  define ready where "ready v \<longleftrightarrow> only_open w v \<and> recoverable v \<and> closing d v \<and> \<not> tv_ack v" for v
  have tail: "settles en (tail_h w label single c) s'" if "tv_clean (view s') \<and> nothing_open (view s') \<and> \<not> tv_ack (view s')" for s' c
    using that by (simp add: tail_h_def wp view_preds)
  have derived: "st \<notin> {WsRouting, WsSearching}" if "d = Some (st, reason)" for st reason
    using that assms(4) by (simp add: closing_def)
  have close: "wp en (emit_derived_h turn w wid d) (\<lambda>_. settles en (tail_h w label single c)) ?E s'"
    if "ready (view s')" for s' c
    by (rule wp_mono [OF emit_derived_wp [OF assms(1) derived]], assumption, rule tail)
       (use that in \<open>auto simp: ready_def closing_def view_preds split: option.splits if_splits\<close>)
  have failed: "wp en (emit_derived_h turn w wid (work_status_after_commit_failure d)) (\<lambda>_. ?E e) ?E s'"
    if "ready (view s')" for s' e
    by (rule wp_mono [OF emit_derived_wp [OF assms(1) commit_failure_closes]])
       (use that in \<open>auto simp: ready_def view_preds split: if_splits\<close>)
  have "ready (view (logged (SettleAck turn ca) s))"
    using assms by (auto simp: ready_def closing_def view_preds split: option.splits)
  then show ?thesis
    by (simp add: epilogue_h_def wp close failed split: option.split) (simp add: ready_def)
qed

lemma status_omitted_closing:
  "(label = ''retained'' \<Longrightarrow> nothing_open v) \<Longrightarrow> closing (status_omitted_while_retained (Some label) c k) v"
  by (simp add: closing_def status_omitted_while_retained_def work_status_for_outcome_def)

lemma after_dispatch_closing: "closing (child_work_status_after_dispatch (Some label) c k) v"
  by (simp add: closing_def child_work_status_after_dispatch_def work_status_for_outcome_def)

lemma single_child_epilogue_wp:
  assumes "quiet en" and "only_open w (view s)" and "recoverable (view s)" and "closing (derive (Some label) c (Some label)) (view s)"
  shows "settles en (single_child_epilogue turn w wid r label retained c derive ca single) s"
  using epilogue_wp [OF assms, of turn wid r label ca single] by (simp add: wp_def single_child_epilogue_eq)

section \<open>The handlers\<close>

lemma finish_single_wp:
  assumes "quiet en" and "searched w (Inr rl) (view s)"
  shows "settles en (finish_single turn w wid rl) s"
proof -
  obtain r label where rl: "rl = (r, label)" by fastforce
  show ?thesis
    unfolding finish_single_def Let_def wp_bind wp_ask wp_modify
    by (rule single_child_epilogue_wp [OF assms(1)]; (rule status_omitted_closing)?)
       (use assms(2) in \<open>auto simp: searched_def rl view_preds\<close>)
qed

lemma settled_search_wp:
  assumes "quiet en" and "searched w x (view s)"
  shows "settles en (case x of Inl _ \<Rightarrow> h_ret NothingCommitted | Inr rl \<Rightarrow> finish_single turn w wid rl) s"
  using assms finish_single_wp by (cases x) (auto simp: wp searched_def)

lemma search_wp:
  assumes "quiet en" and "only_open w (view s) \<and> \<not> tv_retained_open (view s)"
  shows "wp en (h_catch (run_search t turn w wid) (search_failure t turn wid)) (\<lambda>x s. searched w x (view s))
    (\<lambda>_ s. only_open w (view s) \<and> \<not> tv_retained_open (view s)) s"
  unfolding wp_catch
  by (rule wp_mono [OF run_search_wp]) (use assms search_failure_wp in auto)

lemma only_open_recoverable: "only_open w v \<and> \<not> tv_retained_open v \<Longrightarrow> recoverable v"
  by (auto simp: view_preds)

lemma delegate_settles:
  assumes "quiet en" and "at_rest (view s)" and "\<not> tv_retained_open (view s)"
    and "\<And>i wid s'. only_open i (view s') \<and> \<not> tv_retained_open (view s') \<Longrightarrow> settles en (k i wid) s'"
  shows "settles en (h_bind (delegate r True) (\<lambda>x. case x of None \<Rightarrow> h_ret (OutcomeItself d) | Some (i, wid) \<Rightarrow> k i wid)) s"
  unfolding wp_bind
proof (rule wp_mono [OF delegate_wp [OF assms(1)]], goal_cases)
  case (1 x s')
  then show ?case
  proof (cases x)
    case None
    with 1 assms(2) show ?thesis by (auto simp: wp view_preds)
  next
    case (Some p)
    then obtain i wid where x: "x = Some (i, wid)" by (cases p) auto
    with 1 assms(2,3) have "only_open i (view s') \<and> \<not> tv_retained_open (view s')" by (auto simp: view_preds)
    from assms(4) [OF this] show ?thesis by (simp add: x)
  qed
qed (use assms in \<open>auto simp: view_preds\<close>)

lemma delegated_turn_wp:
  assumes "quiet en" and "at_rest (view s)" and "\<not> tv_retained_open (view s)"
  shows "settles en (delegated_turn t turn d w) s"
proof -
  have "settles en (h_bind (h_catch (run_search t turn i wid) (search_failure t turn wid))
      (\<lambda>x. case x of Inl _ \<Rightarrow> h_ret NothingCommitted | Inr rl \<Rightarrow> finish_single turn i wid rl)) s'"
    if "only_open i (view s') \<and> \<not> tv_retained_open (view s')" for i wid s'
    unfolding wp_bind
    by (rule wp_mono [OF search_wp [OF assms(1) that]]) (auto intro: settled_search_wp [OF assms(1)] only_open_recoverable)
  from delegate_settles [OF assms this, where r = "delegation_of en turn (work_id turn) (Some w) None None" and d = d]
  show ?thesis by (simp add: wp_def delegated_turn_def)
qed

lemma routed_turn_wp:
  assumes "quiet en" and "at_rest (view s)" and "\<not> tv_retained_open (view s)"
  shows "settles en (routed_turn t turn d decision) s"
proof -
  have reply: "settles en (main_reply turn x tts l c) s'" if "view s' = view s" for x tts l c s'
    by (rule wp_mono [OF main_reply_wp]) (use that assms in \<open>auto simp: view_preds\<close>)
  have worker: "settles en (h_bind (resolve_worker decision) (\<lambda>worker.
       case worker of
         None \<Rightarrow> main_reply turn CAPABILITY_UNAVAILABLE_TEXT True (Some ''failed'') None
       | Some w \<Rightarrow> delegated_turn t turn d w)) s'" if "view s' = view s" for s'
    unfolding wp_bind
    by (rule wp_inert) (use that assms in \<open>auto intro!: reply delegated_turn_wp split: option.split\<close>, auto simp: view_preds)
  have "recoverable (view s)" using assms by (auto simp: view_preds)
  then show ?thesis unfolding routed_turn_def wp_bind wp_call wp_if
    using reply worker [unfolded wp_bind] by (simp split: option.split)
qed

section \<open>Continuing a clarification\<close>

lemma finish_pending_wp:
  assumes "quiet en" and "only_open w (view s)" and "recoverable (view s)"
  shows "settles en (finish_pending turn w wid b rl) s"
  unfolding finish_pending_def Let_def wp_bind wp_ask wp_locals wp_modify
  by (rule single_child_epilogue_wp [OF assms(1)]; (rule after_dispatch_closing)?)
     (use assms(2,3) in \<open>auto simp: view_preds view_fields\<close>)

definition pending_settled :: "string \<Rightarrow> unit + grounded_result \<times> string \<Rightarrow> turn_view \<Rightarrow> bool" where
  "pending_settled w x v \<longleftrightarrow> (case x of Inl _ \<Rightarrow> ended NothingCommitted v | Inr _ \<Rightarrow> only_open w v \<and> recoverable v)"

lemma settle_pending_wp:
  assumes "quiet en" and "only_open w (view s) \<and> \<not> tv_retained_open (view s)"
  shows "wp en (settle_pending turn w wid submitted) (\<lambda>x s. pending_settled w x (view s)) (\<lambda>_ s. recoverable (view s)) s"
  using assms
  by (auto simp: settle_pending_def wp pending_settled_def view_preds Let_def intro!: build_result_wp split: list.split)

lemma pending_submission_wp:
  assumes "quiet en" and "only_open w (view s) \<and> \<not> tv_retained_open (view s)"
  shows "settles en (pending_submission turn w wid) s"
proof -
  have 1: "settles en (case x of Inl _ \<Rightarrow> h_ret NothingCommitted | Inr rl \<Rightarrow> finish_pending turn w wid b rl) s'"
    if "pending_settled w x (view s')" for x s' b
    using that finish_pending_wp [OF assms(1)] by (cases x) (auto simp: wp pending_settled_def)
  have 2: "settles en (h_bind (settle_pending turn w wid submitted) (\<lambda>x.
      case x of Inl _ \<Rightarrow> h_ret NothingCommitted | Inr rl \<Rightarrow> finish_pending turn w wid (b submitted) rl)) s'"
    if "only_open w (view s') \<and> \<not> tv_retained_open (view s')" for submitted s' b
    unfolding wp_bind by (rule wp_mono [OF settle_pending_wp [OF assms(1) that]]) (use 1 in auto)
  show ?thesis unfolding pending_submission_def wp_bind [of en "h_call _"] wp_bind [of en "h_ask _"] wp_bind [of en "emit_work_status_h _ _ _ _ _ _"]
    wp_call wp_ask wp_emit_h [OF assms(1)]
    using assms(2) by (auto intro!: 2 split: option.split) (auto simp: view_preds)
qed

section \<open>The clauses of the single-child handlers\<close>

lemma terminalize_each_wp:
  assumes "quiet en" and "st \<notin> {WsRouting, WsSearching}"
  shows "wp en (h_each (\<lambda>(item, worker). emit_work_status_h turn item parent worker st None) cs)
    (\<lambda>_ s'. view s' = (view s)\<lparr>tv_open := tv_open (view s) - fst ` set cs\<rparr>) (\<lambda>_ _. False) s"
proof (induction cs arbitrary: s)
  case (Cons c cs)
  then show ?case
    using assms by (cases c) (auto simp: wp Diff_insert2 [symmetric] intro!: wp_mono [OF Cons])
qed (simp add: wp)

lemma finalize_turn_exception_wp:
  assumes "quiet en"
  shows "wp en (finalize_turn_exception_h turn parent cs cancelled)
    (\<lambda>_ s'. view s' = (view s)\<lparr>tv_ack := False, tv_open := tv_open (view s) - fst ` set (cs (logged (SettleAck turn False) s)), tv_finalized := True\<rparr>)
    (\<lambda>_ _. False) s"
  unfolding finalize_turn_exception_h_def wp_bind wp_log wp_locals
  by (rule wp_mono [OF terminalize_each_wp [OF assms]]) (auto simp: wp view_fields [symmetric])

lemma single_child_clauses_wp:
  assumes "quiet en" and "settles en body s"
  shows "wp en (single_child_clauses turn body) (\<lambda>r s. ended r (view s)) (\<lambda>_ s. failed_over (view s)) s"
proof -
  have 1: "wp en (finalize_turn_exception_h turn None open_children c) (\<lambda>_ s. failed_over (view s)) (\<lambda>_ _. False) s'"
    if "recoverable (view s')" for c s'
    by (rule wp_mono [OF finalize_turn_exception_wp [OF assms(1)]])
       (use that in \<open>auto simp: view_preds open_children_def view_fields\<close>)
  have 2: "wp en (h_cleanup body (finalize_turn_exception_h turn None open_children)) (\<lambda>r s. ended r (view s)) (\<lambda>_ s. failed_over (view s)) s"
    unfolding wp_cleanup
    by (rule wp_mono [OF assms(2)], assumption, rule wp_mono [OF 1]) auto
  show ?thesis unfolding single_child_clauses_def wp_finally
    by (rule wp_mono [OF 2]) (auto simp: wp)
qed

end
