(* ===== verification/Turn_Settlement_Fan_Out.thy ===== *)
theory Turn_Settlement_Fan_Out
  imports Turn_Settlement
begin

text \<open>
  The same for the handlers of \<open>Turn_Fan_Out\<close>. The children of a compound turn are announced in the loop
  over its parts, and closed by the statuses held back for the commit, by the reconciliation of what the coordinator did
  not answer, or by the clauses; what the coordinator keeps is recorded by \<open>RetainItem\<close>.
\<close>

section \<open>Continuing a clarification\<close>

lemma wp_env: "wp en (\<lambda>en. h_bind (m en) (k en) en) Q E s = wp en (h_bind (m en) (k en)) Q E s"
  by (simp add: wp_def)

lemma handle_pending_wp:
  assumes "quiet en" and "at_rest (view s)" and "\<not> tv_retained_open (view s)"
  shows "wp en (handle_pending d turn) (\<lambda>r s. ended r (view s)) (\<lambda>_ s. failed_over (view s)) s"
proof -
  have rest: "recoverable (view s)" using assms by (auto simp: view_preds)
  have 1: "settles en (h_bind (delegate r True) (\<lambda>x. case x of None \<Rightarrow> h_ret (OutcomeItself d)
      | Some (i, wid) \<Rightarrow> pending_submission turn i wid)) s'" if "view s' = view s" for r s'
    by (rule delegate_settles [OF assms(1)]) (use that assms in \<open>auto intro: pending_submission_wp\<close>)
  note 1 = 1 [unfolded wp_bind]
  show ?thesis unfolding handle_pending_def
    by (rule single_child_clauses_wp [OF assms(1)], rule wp_env [THEN iffD2])
       (simp add: wp_bind wp_ask wp_when wp_call rest 1 split: option.split)
qed

section \<open>Compound turns: predicates\<close>

abbreviation item_ids :: "string \<Rightarrow> nat set \<Rightarrow> string set" where
  "item_ids turn is \<equiv> item_work_id turn ` is"

definition multi_recoverable :: "turn_view \<Rightarrow> bool" where
  "multi_recoverable v \<longleftrightarrow> tv_clean v \<and> tv_open v \<subseteq> tv_children v \<union> tv_kept v \<and> tv_retained_items v \<subseteq> tv_kept v"

abbreviation runnable_indexes :: "multi_acc \<Rightarrow> nat set" where
  "runnable_indexes a \<equiv> fst ` set (ma_runnable a)"

definition prepared :: "string \<Rightarrow> multi_acc \<Rightarrow> turn_view \<Rightarrow> bool" where
  "prepared turn a v \<longleftrightarrow>
     multi_recoverable v \<and> tv_children v \<subseteq> item_ids turn (runnable_indexes a)"

text \<open>The held statuses are terminal ones, and stand at the index of their item.\<close>

definition held_for :: "string \<Rightarrow> (nat, held_status) dict \<Rightarrow> bool" where
  "held_for turn d \<longleftrightarrow>
     (\<forall>(i, w, worker, st, reason) \<in> set d. w = item_work_id turn i \<and> st \<notin> {WsRouting, WsSearching})"

definition fanned_in :: "string \<Rightarrow> nat set \<Rightarrow> fan_in \<Rightarrow> turn_view \<Rightarrow> bool" where
  "fanned_in turn is f v \<longleftrightarrow>
     multi_recoverable v \<and> held_for turn (fi_deferred f) \<and>
     tv_open v \<subseteq> tv_kept v \<union> item_ids turn (is - fi_attributed f) \<union> item_ids turn (fst ` set (fi_deferred f))"

definition to_commit :: "string \<Rightarrow> (nat, held_status) dict \<Rightarrow> turn_view \<Rightarrow> bool" where
  "to_commit turn d v \<longleftrightarrow>
     multi_recoverable v \<and> held_for turn d \<and> tv_open v \<subseteq> tv_kept v \<union> item_ids turn (fst ` set d)"

section \<open>Preparing the items\<close>

lemma answer_item_wp:
  assumes "prepared turn a (view s)"
  shows "wp en (answer_item turn i t l a) (\<lambda>a s. prepared turn a (view s)) (\<lambda>_ s. multi_recoverable (view s)) s"
  using assms by (auto simp: answer_item_def wp set_result_def prepared_def intro!: build_result_wp)

lemma delegate_item_wp:
  assumes "quiet en" and "prepared turn a (view s)"
  shows "wp en (delegate_item turn i t w a) (\<lambda>a s. prepared turn a (view s)) (\<lambda>_ s. multi_recoverable (view s)) s"
proof -
  let ?r = "delegation_of en turn (item_work_id turn i) w None (Some (work_id turn))"
  have id: "dr_work_item_id ?r = item_work_id turn i" by (simp add: delegation_of_def)
  have "wp en (h_bind (delegate ?r False) (\<lambda>d.
     case d of
       None \<Rightarrow>
         h_bind (build_result ''main'' (multi_intent_item_turn_id turn i) CAPABILITY_UNAVAILABLE_TEXT) (\<lambda>r.
         h_ret (set_result i r a))
     | Some (_, worker_id) \<Rightarrow>
         h_bind (h_call (EarlyAck False)) (\<lambda>_.
         h_ret (a\<lparr>ma_runnable := ma_runnable a @ [(i, worker_id, t)]\<rparr>))))
     (\<lambda>a s. prepared turn a (view s)) (\<lambda>_ s. multi_recoverable (view s)) s"
    unfolding wp_bind
  proof (rule wp_mono [OF delegate_wp [OF assms(1)]], goal_cases)
    case (1 x s')
    with assms(2) show ?case
      by (cases x) (auto simp: wp id prepared_def multi_recoverable_def set_result_def intro!: build_result_wp split: option.split)
  qed (use assms in \<open>auto simp: prepared_def\<close>)
  then show ?thesis by (simp add: wp_def delegate_item_def)
qed

lemma route_item_wp:
  assumes "quiet en" and "prepared turn a (view s)"
  shows "wp en (route_item turn i t a) (\<lambda>a s. prepared turn a (view s)) (\<lambda>_ s. multi_recoverable (view s)) s"
proof -
  let ?E = "\<lambda>(_ :: handler_exc raised) s. multi_recoverable (view s)"
  have 1: "wp en (resolve_worker d) (\<lambda>worker. wp en (case worker of
             None \<Rightarrow> answer_item turn i CAPABILITY_UNAVAILABLE_TEXT ''failed'' a
           | Some w \<Rightarrow> delegate_item turn i t (Some w) a) (\<lambda>a s. prepared turn a (view s)) ?E) ?E s'"
    if "view s' = view s" for d s'
    by (rule wp_inert)
       (use that assms in \<open>auto intro!: answer_item_wp delegate_item_wp split: option.split\<close>, auto simp: prepared_def)
  have 2: "wp en (answer_item turn i x l a) (\<lambda>a s. prepared turn a (view s)) ?E s'" if "view s' = view s" for x l s'
    by (rule answer_item_wp) (use that assms in simp)
  have "multi_recoverable (view s)" using assms(2) by (simp add: prepared_def)
  then show ?thesis
    by (simp add: route_item_def wp 1 2 split: option.split prod.split)
qed

lemma prepare_item_wp:
  assumes "quiet en" and "prepared turn a (view s)"
  shows "wp en (prepare_item d turn it a) (\<lambda>a s. prepared turn a (view s)) (\<lambda>_ s. multi_recoverable (view s)) s"
  using assms
  by (auto simp: prepare_item_def wp_bind wp_ask intro!: route_item_wp delegate_item_wp split: nat.split option.split)

section \<open>Fanning in\<close>

lemma index_of_item:
  assumes "index_for_work_item_id turn is item = Some i"
  shows "item = item_work_id turn i \<and> i \<in> set is"
  using map_of_SomeD [OF assms [unfolded index_for_work_item_id_def]] by auto

lemma held_for_update:
  assumes "held_for turn d" and "w = item_work_id turn i" and "st \<notin> {WsRouting, WsSearching}"
  shows "held_for turn (AList.update i (w, worker, st, reason) d)"
  using assms(1)
proof (induction d)
  case (Cons p d)
  then show ?case using assms(2,3) by (cases p) (auto simp: held_for_def)
qed (use assms in \<open>simp add: held_for_def\<close>)

lemma hold_status_fanned_in:
  assumes "fanned_in turn is f v" and "derived = Some (st, reason)" and "st \<notin> {WsRouting, WsSearching}"
  shows "fanned_in turn is (hold_status i (item_work_id turn i) worker derived
    (f\<lparr>fi_results := r, fi_attributed := insert i (fi_attributed f)\<rparr>)) v"
  using assms by (auto simp: hold_status_def fanned_in_def intro: held_for_update)

lemma outcome_derived:
  obtains st reason where "work_status_for_outcome (Some label) c b k = Some (st, reason)" "st \<notin> {WsRouting, WsSearching}"
  by (cases c; cases "label \<in> {''completed'', ''clarify'', ''declined''} \<and> b") (auto simp: work_status_for_outcome_def)

lemma hold_outcome_fanned_in:
  assumes "fanned_in turn is f v"
  shows "fanned_in turn is (hold_status i (item_work_id turn i) worker (work_status_for_outcome (Some label) c b k)
    (f\<lparr>fi_results := r, fi_attributed := insert i (fi_attributed f)\<rparr>)) v"
  by (rule outcome_derived [of label c b k]) (rule hold_status_fanned_in [OF assms])

lemma fan_in_result_wp:
  assumes "fanned_in turn is f (view s)"
  shows "wp en (fan_in_result turn runnable ir f) (\<lambda>f s. fanned_in turn is f (view s)) (\<lambda>_ _. False) s"
  using hold_outcome_fanned_in [OF assms] by (simp add: fan_in_result_def Let_def wp)

lemma fan_in_failure_wp:
  assumes "fanned_in turn is f (view s)"
  shows "wp en (fan_in_failure turn runnable failure f) (\<lambda>f s. fanned_in turn is f (view s)) (\<lambda>_ s. multi_recoverable (view s)) s"
  using hold_outcome_fanned_in [OF assms] assms
  by (auto simp: fan_in_failure_def Let_def wp fanned_in_def dest!: index_of_item intro!: build_result_wp split: option.split)

lemma emit_retained_wp:
  assumes "quiet en"
  shows "wp en (case child_work_status_after_dispatch (Some ''retained'') c None of
        None \<Rightarrow> h_ret ()
      | Some (st, reason) \<Rightarrow> emit_work_status_h turn item parent worker st reason)
    (\<lambda>_ s'. view s' = (view s)\<lparr>tv_open := tv_open (view s) - {item}\<rparr>) (\<lambda>_ _. False) s"
  using assms by (cases c) (simp_all add: wp child_work_status_after_dispatch_def work_status_for_outcome_def)

text \<open>Between the attribution of a pending item and its status, that item may still be open.\<close>

definition nearly_in :: "string \<Rightarrow> nat set \<Rightarrow> nat \<Rightarrow> fan_in \<Rightarrow> turn_view \<Rightarrow> bool" where
  "nearly_in turn is i f v \<longleftrightarrow>
     multi_recoverable v \<and> held_for turn (fi_deferred f) \<and> i \<in> fi_attributed f \<and>
     tv_open v \<subseteq> insert (item_work_id turn i)
       (tv_kept v \<union> item_ids turn (is - fi_attributed f) \<union> item_ids turn (fst ` set (fi_deferred f)))"

lemma nearly_in_start:
  "fanned_in turn is f v \<Longrightarrow> nearly_in turn is i (f\<lparr>fi_attributed := insert i (fi_attributed f)\<rparr>) v"
  by (auto simp: fanned_in_def nearly_in_def)

lemma nearly_in_kept:
  assumes "nearly_in turn is i f v" and "w = item_work_id turn i"
  shows "nearly_in turn is i f (v\<lparr>tv_kept := insert w (tv_kept v), tv_retained_items := insert w (tv_retained_items v)\<rparr>)"
  using assms by (auto simp: nearly_in_def multi_recoverable_def)

lemma nearly_in_close:
  "nearly_in turn is i f v \<Longrightarrow> fanned_in turn is f (v\<lparr>tv_open := tv_open v - {item_work_id turn i}\<rparr>)"
  by (auto simp: fanned_in_def nearly_in_def multi_recoverable_def)

lemma emit_pending_wp:
  assumes "quiet en" and "nearly_in turn is i f (view s)" and "item = item_work_id turn i"
  shows "wp en (h_bind (h_log (ChildFinalize item ''retained'')) (\<lambda>_.
          h_bind (h_ask (\<lambda>en t. en_cancelled_ids en t item)) (\<lambda>cancelled.
          h_bind (case child_work_status_after_dispatch (Some ''retained'') cancelled None of
                    None \<Rightarrow> h_ret ()
                  | Some (st, reason) \<Rightarrow> emit_work_status_h turn item parent worker st reason) (\<lambda>_.
          h_bind (h_log (RegisterRetained item)) (\<lambda>_. h_ret f)))))
    (\<lambda>f s. fanned_in turn is f (view s)) (\<lambda>_ s. multi_recoverable (view s)) s"
  unfolding wp_bind wp_log wp_ask wp_ret
  by (rule wp_mono [OF emit_retained_wp [OF assms(1)]]) (use nearly_in_close [OF assms(2)] assms(3) in auto)

lemma fan_in_pending_wp:
  assumes "quiet en" and "fanned_in turn is f (view s)"
  shows "wp en (fan_in_pending turn runnable item f) (\<lambda>f s. fanned_in turn is f (view s)) (\<lambda>_ s. multi_recoverable (view s)) s"
proof (cases "index_for_work_item_id turn (map fst runnable) item")
  case None
  with assms(2) show ?thesis by (simp add: fan_in_pending_def wp)
next
  case (Some i)
  then have item: "item = item_work_id turn i" by (simp add: index_of_item)
  let ?f = "f\<lparr>fi_attributed := insert i (fi_attributed f)\<rparr>"
  have upd: "nearly_in turn is i (g\<lparr>fi_results := r, fi_roles := x\<rparr>) v = nearly_in turn is i g v" for g r x v
    by (simp add: nearly_in_def)
  have rest: "nearly_in turn is i g v \<Longrightarrow> multi_recoverable v" for g v by (simp add: nearly_in_def)
  have body: "wp en (h_bind (h_ask en_replaces_legacy) (\<lambda>replaces.
          h_bind (if replaces then h_ret ?f
                  else h_bind (build_result worker (multi_intent_item_turn_id turn i) ITEM_TIMEOUT_TEXT) (\<lambda>r.
                       h_ret (?f\<lparr>fi_results := AList.update i r (fi_results ?f),
                                fi_roles := AList.update i ROLE_TIMEOUT_NOTICE (fi_roles ?f)\<rparr>))) (\<lambda>f.
          h_bind (h_log (ChildFinalize item ''retained'')) (\<lambda>_.
          h_bind (h_ask (\<lambda>en t. en_cancelled_ids en t item)) (\<lambda>cancelled.
          h_bind (case child_work_status_after_dispatch (Some ''retained'') cancelled None of
                    None \<Rightarrow> h_ret ()
                  | Some (st, reason) \<Rightarrow> emit_work_status_h turn item parent w st reason) (\<lambda>_.
          h_bind (h_log (RegisterRetained item)) (\<lambda>_. h_ret f)))))))
     (\<lambda>f s. fanned_in turn is f (view s)) (\<lambda>_ s. multi_recoverable (view s)) s'" if "nearly_in turn is i ?f (view s')" for worker parent w s'
    unfolding wp_bind [of en "h_ask en_replaces_legacy"] wp_ask wp_bind [of en "if _ then _ else _"] wp_if
    using that emit_pending_wp [OF assms(1) _ item, of "is"] upd rest
    by (simp only: wp_bind [of en "build_result _ _ _"]) (auto simp: wp_ret intro!: build_result_wp)
  have kept: "nearly_in turn is i ?f (view (logged (RetainItem item) s\<lparr>ts_retained_items := insert item (ts_retained_items (logged (RetainItem item) s))\<rparr>))"
    using nearly_in_kept [OF nearly_in_start [OF assms(2)] item] by (simp add: view_fields)
  show ?thesis
    unfolding fan_in_pending_def Some option.case Let_def wp_bind [of en "h_ask (\<lambda>en t. en_cancelled_ids en t item)"] wp_ask
      wp_bind [of en "h_when _ _"] wp_when
    using body [OF kept] body [OF nearly_in_start [OF assms(2)]]
    by (simp only: wp_bind [of en "h_log _"] wp_log wp_modify if_split) auto
qed

lemma reconcile_wp:
  assumes "quiet en"
  shows "wp en (reconcile turn runnable attributed i)
    (\<lambda>_ s'. view s' = (view s)\<lparr>tv_open := tv_open (view s) - item_ids turn ({i} - attributed)\<rparr>) (\<lambda>_ _. False) s"
  using assms by (auto simp: reconcile_def Let_def wp insert_Diff_if)

lemma reconcile_all_wp:
  assumes "quiet en"
  shows "wp en (h_each (reconcile turn runnable attributed) is)
    (\<lambda>_ s'. view s' = (view s)\<lparr>tv_open := tv_open (view s) - item_ids turn (set is - attributed)\<rparr>) (\<lambda>_ _. False) s"
proof (induction "is" arbitrary: s)
  case (Cons i "is")
  have sets: "tv_open v - item_ids turn ({i} - attributed) - item_ids turn (set is - attributed) =
      tv_open v - item_ids turn (set (i # is) - attributed)" for v :: turn_view
    by auto
  show ?case unfolding h_each.simps wp_bind
    by (rule wp_mono [OF reconcile_wp [OF assms]], rule wp_mono [OF Cons]) (auto simp: sets)
qed (simp add: wp)

lemma fan_in_all_wp:
  assumes "quiet en" and "prepared turn a (view s)"
  shows "wp en (fan_in_all turn a submitted) (\<lambda>f s. to_commit turn (fi_deferred f) (view s)) (\<lambda>_ s. multi_recoverable (view s)) s"
proof -
  let ?is = "runnable_indexes a" and ?E = "\<lambda>(_ :: handler_exc raised) s. multi_recoverable (view s)"
  let ?in = "\<lambda>f s. fanned_in turn ?is f (view s)"
  let ?start = "\<lparr>fi_results = ma_results a, fi_attributed = {}, fi_deferred = [], fi_roles = []\<rparr>"
  have "?in ?start s"
    using assms(2) by (auto simp: prepared_def fanned_in_def held_for_def multi_recoverable_def)
  then have 1: "wp en (h_fold (fan_in_result turn (ma_runnable a)) rs ?start) ?in ?E s" for rs
    by (rule wp_fold) (rule wp_mono [OF fan_in_result_wp], auto)
  have 2: "wp en (h_fold (fan_in_pending turn (ma_runnable a)) ps f) ?in ?E s'" if "?in f s'" for ps f s'
    by (rule wp_fold, rule that, rule fan_in_pending_wp [OF assms(1)])
  have 3: "wp en (h_fold (fan_in_failure turn (ma_runnable a)) fs f) ?in ?E s'" if "?in f s'" for fs f s'
    by (rule wp_fold, rule that, rule fan_in_failure_wp)
  have 4: "wp en (h_each (reconcile turn (ma_runnable a) (fi_attributed f)) (map fst (ma_runnable a)))
      (\<lambda>_ s. to_commit turn (fi_deferred f) (view s)) ?E s'" if "?in f s'" for f s'
    by (rule wp_mono [OF reconcile_all_wp [OF assms(1)]])
       (use that in \<open>auto simp: fanned_in_def to_commit_def multi_recoverable_def\<close>)
  show ?thesis unfolding fan_in_all_def Let_def wp_bind wp_ret
    by (rule wp_mono [OF 1]; (rule wp_mono [OF 2]; (rule wp_mono [OF 3]; (rule 4)?)?)?)
qed

section \<open>The epilogue of a compound turn\<close>

lemma multi_emit:
  assumes "quiet en"
  shows "ec_emit_work_status (multi_ctx en) r s = (logged (EmitStatus r) s, Inr ())"
  using assms by (simp add: multi_ctx_def turn_ctx_def h_call_def quiet_def logged_def Let_def)

lemma multi_commit:
  "\<exists>x. ec_commit_and_speak (multi_ctx en) r role s = (logged (CommitAndSpeak r role True) s, x)"
  by (auto simp: multi_ctx_def turn_ctx_def h_bind_def h_call_def h_ask_def logged_def Let_def split: option.split)

lemma held_for_subset: "held_for turn d \<Longrightarrow> set d' \<subseteq> set d \<Longrightarrow> held_for turn d'"
  unfolding held_for_def by (rule ballI, erule bspec, erule subsetD)

lemma emit_held_to_commit:
  assumes "quiet en" and "to_commit turn d (view s)" and "\<And>h. fst (g h) = fst h"
    and "\<And>h. fst (snd (snd h)) \<notin> {WsRouting, WsSearching} \<Longrightarrow> fst (snd (snd (g h))) \<notin> {WsRouting, WsSearching}"
  obtains s' where "emit_held (multi_ctx en) a g (map_of d i) s = (s', Inr ())" and "to_commit turn (AList.delete i d) (view s')"
    and "tv_ack (view s') = tv_ack (view s)"
proof (cases "map_of d i")
  case None
  then have "AList.delete i d = d" by (simp add: delete_id map_of_eq_None_iff)
  with None assms(2) that show ?thesis by (simp add: emit_held_def)
next
  case (Some h)
  obtain w worker st reason where h: "h = (w, worker, st, reason)" by (cases h)
  obtain worker' st' reason' where g: "g h = (w, worker', st', reason')" using assms(3) [of h] h by (cases "g h") auto
  have held: "w = item_work_id turn i" "st \<notin> {WsRouting, WsSearching}"
    using assms(2) map_of_SomeD [OF Some] by (auto simp: to_commit_def held_for_def h)
  then have "fst (snd (snd h)) \<notin> {WsRouting, WsSearching}" by (simp add: h)
  from assms(4) [OF this] have st': "st' \<notin> {WsRouting, WsSearching}" unfolding g by simp
  let ?s = "logged (EmitStatus (fan_out_report a (g h))) s"
  have "set (AList.delete i d) \<subseteq> set d" and keys: "fst ` set (AList.delete i d) = fst ` set d - {i}"
    by (auto simp: AList.delete_eq)
  then have "held_for turn (AList.delete i d)" using assms(2) by (auto simp: to_commit_def intro: held_for_subset)
  moreover have "item_ids turn (fst ` set d) \<subseteq> insert w (item_ids turn (fst ` set d - {i}))" using held(1) by auto
  then have "tv_open (view s) - {w} \<subseteq> tv_kept (view s) \<union> item_ids turn (fst ` set d - {i})"
    using assms(2) unfolding to_commit_def by blast
  ultimately have "to_commit turn (AList.delete i d) (view ?s)"
    using assms(2) st' by (auto simp: to_commit_def multi_recoverable_def fan_out_report_def g keys)
  moreover have "emit_held (multi_ctx en) a g (map_of d i) s = (?s, Inr ())"
    using Some assms(1) by (simp add: emit_held_def multi_emit)
  ultimately show ?thesis using that by (simp add: fan_out_report_def)
qed

lemma fan_out_commit_wp:
  assumes "quiet en" and "to_commit turn d (view s)" and "\<not> tv_ack (view s)"
  shows "wp en (\<lambda>en. fan_out_commit (multi_ctx en) a ixs committed excs d)
    (\<lambda>(_, _, d') s'. to_commit turn d' (view s') \<and> \<not> tv_ack (view s')) (\<lambda>_ s. multi_recoverable (view s)) s"
  using assms(2,3)
proof (induction ixs arbitrary: committed excs d s)
  case (Cons i ixs)
  let ?r = "the (map_of (fa_results a) i)" and ?role = "fan_out_role a i"
  let ?s = "logged (CommitAndSpeak ?r ?role True) s"
  obtain x where x: "ec_commit_and_speak (multi_ctx en) ?r ?role s = (?s, x)" using multi_commit by fast
  have commit: "to_commit turn d (view ?s)" and ack: "\<not> tv_ack (view ?s)"
    using Cons.prems by (simp_all add: to_commit_def multi_recoverable_def)
  have step: "wp en (\<lambda>en. fan_out_commit (multi_ctx en) a (i # ixs) committed excs d)
      (\<lambda>(_, _, d') s'. to_commit turn d' (view s') \<and> \<not> tv_ack (view s')) (\<lambda>_ s. multi_recoverable (view s)) s"
    if g: "\<And>h. fst (g h) = fst h" "\<And>h. fst (snd (snd h)) \<notin> {WsRouting, WsSearching} \<Longrightarrow> fst (snd (snd (g h))) \<notin> {WsRouting, WsSearching}"
      and eq: "\<And>s'. emit_held (multi_ctx en) a g (map_of d i) ?s = (s', Inr ()) \<Longrightarrow>
        fan_out_commit (multi_ctx en) a (i # ixs) committed excs d s = fan_out_commit (multi_ctx en) a ixs c e (AList.delete i d) s'"
    for g c e
  proof -
    obtain s' where s': "emit_held (multi_ctx en) a g (map_of d i) ?s = (s', Inr ())" "to_commit turn (AList.delete i d) (view s')"
      "tv_ack (view s') = tv_ack (view ?s)"
      by (rule emit_held_to_commit [OF assms(1) commit g, of a i]) (simp_all add: that)
    show ?thesis using Cons.IH [OF s'(2), of c e] ack unfolding wp_def eq [OF s'(1)] s'(3) by simp
  qed
  show ?case
  proof (cases x)
    case (Inl exc)
    show ?thesis
    proof (cases "exc = CancelledError")
      case True
      then show ?thesis using Cons.prems by (simp add: wp_def Let_def x Inl to_commit_def multi_recoverable_def)
    next
      case False
      show ?thesis
        by (rule step [of failed_status "committed @ [?r]" "excs @ [exc]"]; cases exc) (use False x Inl in \<open>auto simp: failed_status_def Let_def fun_eq_iff split: prod.splits\<close>)
    qed
  next
    case (Inr p)
    obtain v suppressed where p: "p = (v, suppressed)" by fastforce
    show ?thesis
      by (rule step [of "settled_status suppressed"]) (use x Inr p in \<open>auto simp: settled_status_def Let_def fun_eq_iff split: prod.splits\<close>)
  qed
qed (simp add: wp_def)

lemma fan_out_sweep_wp:
  assumes "quiet en" and "held_for turn d"
  shows "wp en (\<lambda>en. fan_out_sweep (multi_ctx en) a (dvals d))
    (\<lambda>_ s'. view s' = (view s)\<lparr>tv_open := tv_open (view s) - item_ids turn (fst ` set d)\<rparr>) (\<lambda>_ _. False) s"
  using assms(2)
proof (induction d arbitrary: s)
  case (Cons p d)
  obtain i w worker st reason where p: "p = (i, w, worker, st, reason)" by (cases p)
  have held: "held_for turn d" "w = item_work_id turn i" "st \<notin> {WsRouting, WsSearching}"
    using Cons.prems by (auto simp: held_for_def p)
  show ?case using Cons.IH [OF held(1), of "logged (EmitStatus (fan_out_report a (snd p))) s"] held(2,3)
    by (auto simp: wp_def p multi_emit [OF assms(1)] fan_out_report_def Diff_insert2 [symmetric] split: prod.splits sum.splits)
qed (simp add: wp_def)

lemma multi_epilogue_wp:
  assumes "quiet en" and "to_commit turn (fi_deferred f) (view s)"
  shows "wp en (multi_epilogue turn f) (\<lambda>r s. ended r (view s)) (\<lambda>_ s. multi_recoverable (view s)) s"
proof -
  define a where "a = \<lparr>fa_turn_id = turn, fa_parent_work_item_id = work_id turn, fa_origin_epoch = en_epoch en,
    fa_results = fi_results f, fa_attributed_indexes = fi_attributed f, fa_retained_work_items = ts_retained_items s, fa_speech_roles = fi_roles f\<rparr>"
  define s0 where "s0 = logged (SettleAck turn (fi_attributed f = {} \<and> ts_retained_items s = {})) s"
  have s0: "ec_settle_turn_ack (multi_ctx en) (fa_turn_id a) (fa_attributed_indexes a = {} \<and> fa_retained_work_items a = {}) s = s0"
    by (simp add: a_def s0_def multi_ctx_def turn_ctx_def h_log_def logged_def)
  have commit: "to_commit turn (fi_deferred f) (view s0)" and ack: "\<not> tv_ack (view s0)"
    using assms(2) by (simp_all add: s0_def to_commit_def multi_recoverable_def)
  obtain s1 x where x: "fan_out_commit (multi_ctx en) a (sort (dkeys (fa_results a))) [] [] (fi_deferred f) s0 = (s1, x)" by fastforce
  note post = fan_out_commit_wp [OF assms(1) commit ack, of a "sort (dkeys (fa_results a))" "[]" "[]", unfolded wp_def x]
  show ?thesis
  proof (cases x)
    case (Inl e)
    with post show ?thesis by (simp add: wp_def multi_epilogue_def a_def [symmetric] finalize_fan_out_turn_def s0 x Let_def)
  next
    case (Inr p)
    obtain committed excs d where p: "p = (committed, excs, d)" by (cases p)
    have d: "to_commit turn d (view s1)" "\<not> tv_ack (view s1)" using post by (auto simp: Inr p)
    then have "wp en (\<lambda>en. fan_out_sweep (multi_ctx en) a (dvals d))
      (\<lambda>_ s'. view s' = (view s1)\<lparr>tv_open := tv_open (view s1) - item_ids turn (fst ` set d)\<rparr>) (\<lambda>_ _. False) s1"
      by (intro fan_out_sweep_wp [OF assms(1)]) (simp add: to_commit_def)
    then obtain s2 where sweep: "fan_out_sweep (multi_ctx en) a (dvals d) s1 = (s2, Inr ())"
      and "view s2 = (view s1)\<lparr>tv_open := tv_open (view s1) - item_ids turn (fst ` set d)\<rparr>"
      by (auto simp: wp_def split: prod.splits sum.splits)
    with d have s2: "nothing_open (view s2)" "\<not> tv_ack (view s2)" "multi_recoverable (view s2)"
      by (auto simp: to_commit_def nothing_open_def multi_recoverable_def)
    have "ec_turn_finalize (multi_ctx en) s2 = logged (TurnFinalize None None) s2"
      by (simp add: multi_ctx_def turn_ctx_def h_log_def logged_def)
    with s2 show ?thesis
      by (auto simp: wp_def multi_epilogue_def a_def [symmetric] finalize_fan_out_turn_def s0 x Inr p sweep Let_def ended_def nothing_open_def multi_recoverable_def
          split: list.split)
  qed
qed

section \<open>Compound turns\<close>

lemma announce_wp:
  assumes "quiet en"
  shows "wp en (h_each (\<lambda>(item, worker). emit_work_status_h turn item parent worker WsSearching None) cs)
    (\<lambda>_ s'. view s' = (view s)\<lparr>tv_open := tv_open (view s) \<union> fst ` set cs\<rparr>) (\<lambda>_ _. False) s"
proof (induction cs arbitrary: s)
  case (Cons c cs)
  then show ?case
    using assms by (cases c) (auto simp: wp intro!: wp_mono [OF Cons])
qed (simp add: wp)

lemma multi_body_wp:
  assumes "quiet en" and "at_rest (view s)" and "tv_children (view s) = {}" and "tv_retained_items (view s) = {}"
  shows "wp en (multi_body d turn) (\<lambda>r s. ended r (view s)) (\<lambda>_ s. multi_recoverable (view s)) s"
proof -
  let ?E = "\<lambda>(_ :: handler_exc raised) s. multi_recoverable (view s)"
  have start: "prepared turn \<lparr>ma_results = [], ma_runnable = []\<rparr> (view s)"
    using assms(2-4) by (auto simp: prepared_def multi_recoverable_def nothing_open_def at_rest_def)
  have 1: "wp en (h_fold (prepare_item d turn) its \<lparr>ma_results = [], ma_runnable = []\<rparr>) (\<lambda>a s. prepared turn a (view s)) ?E s" for its
    by (rule wp_fold, rule start, rule prepare_item_wp [OF assms(1)])
  have 2: "wp en (h_each (\<lambda>(item, worker). emit_work_status_h turn item (Some (work_id turn)) worker WsSearching None) (ts_children s'))
      (\<lambda>_ s. prepared turn a (view s)) ?E s'" if "prepared turn a (view s')" for a s'
    by (rule wp_mono [OF announce_wp [OF assms(1)]])
       (use that in \<open>auto simp: prepared_def multi_recoverable_def view_fields\<close>)
  have 3: "wp en (h_bind (fan_in_all turn a submitted) (\<lambda>f. multi_epilogue turn f)) (\<lambda>r s. ended r (view s)) ?E s'"
    if "prepared turn a (view s')" for a submitted s'
    unfolding wp_bind by (rule wp_mono [OF fan_in_all_wp [OF assms(1) that]]) (auto intro: multi_epilogue_wp [OF assms(1)])
  have 4: "wp en (h_call (SubmitWork ids)) (\<lambda>_. wp en (h_ask en_submitted) (\<lambda>submitted.
       wp en (fan_in_all turn a submitted) (\<lambda>f. wp en (multi_epilogue turn f) (\<lambda>r s. ended r (view s)) ?E) ?E) ?E) ?E s'"
    if "prepared turn a (view s')" for a ids s'
    using that 3 [unfolded wp_bind] by (simp add: wp_call wp_ask prepared_def split: option.split)
  show ?thesis unfolding multi_body_def wp_bind wp_locals
    by (rule wp_mono [OF 1]; (rule wp_mono [OF 2]; (rule 4)?)?)
qed

lemma multi_release:
  "ec_release_turn_work_item (multi_ctx en) turn item s = logged (ReleaseItem turn item) s"
  "ec_release_all_turn_work_items (multi_ctx en) turn s = logged (ReleaseTurn turn) s"
  by (simp_all add: multi_ctx_def turn_ctx_def h_log_def logged_def)

lemma release_fold_view:
  "view (fold (\<lambda>item s. if item \<notin> r then ec_release_turn_work_item (multi_ctx en) turn item s else s) items s) = view s"
  by (induction items arbitrary: s) (simp_all add: multi_release)

lemma release_children_wp: "wp en (release_children turn) (\<lambda>_ s'. view s' = view s) (\<lambda>_ _. False) s"
  by (simp add: wp_def release_children_def release_fan_out_turn_work_items_def release_fold_view multi_release(2))

lemma handle_multi_intent_wp:
  assumes "quiet en" and "at_rest (view s)" and "tv_children (view s) = {}" and "tv_retained_items (view s) = {}"
  shows "wp en (handle_multi_intent d turn) (\<lambda>r s. ended r (view s)) (\<lambda>_ s. failed_over (view s)) s"
proof -
  have keys: "fst ` set (unretained_children s') = tv_children (view s') - tv_retained_items (view s')" for s'
    by (auto simp: unretained_children_def view_fields image_iff)
  have 1: "wp en (finalize_turn_exception_h turn (Some (work_id turn)) unretained_children c) (\<lambda>_ s. failed_over (view s)) (\<lambda>_ _. False) s'"
    if "multi_recoverable (view s')" for c s'
    by (rule wp_mono [OF finalize_turn_exception_wp [OF assms(1)]])
       (use that in \<open>auto simp: view_preds multi_recoverable_def keys\<close>)
  have 2: "wp en (h_cleanup (multi_body d turn) (finalize_turn_exception_h turn (Some (work_id turn)) unretained_children))
      (\<lambda>r s. ended r (view s)) (\<lambda>_ s. failed_over (view s)) s"
    unfolding wp_cleanup by (rule wp_mono [OF multi_body_wp [OF assms]], assumption, rule wp_mono [OF 1]) auto
  show ?thesis unfolding handle_multi_intent_def wp_finally
    by (rule wp_mono [OF 2]; rule wp_mono [OF release_children_wp]) auto
qed

end
