(* ===== verification/Turn_Outcomes.thy ===== *)
theory Turn_Outcomes
  imports Turn_Settlement_Fan_Out
begin

text \<open>
  What one final transcript comes to, whatever its collaborators answer or raise: the statuses it leaves
  (\<open>transcript_turn_settles\<close>), and what the outermost \<open>finally\<close> does to work that a nested handler retained
  (\<open>nested_retention_released\<close>).
\<close>

section \<open>The whole handler\<close>

lemma unrouted_turn_wp:
  assumes "quiet en" and "at_rest (view s)" and "\<not> tv_retained_open (view s)"
  shows "settles en (unrouted_turn turn d) s"
proof -
  let ?s = "start_turn\<lparr>ts_trace := ts_trace s\<rparr>"
  have inner: "at_rest (view ?s)" "\<not> tv_retained_open (view ?s)" "tv_children (view ?s) = {}" "tv_retained_items (view ?s) = {}"
    using assms(2) by (simp_all add: view_def start_turn_def view_preds)
  have outer: "view (s\<lparr>ts_trace := ts_trace s'\<rparr>) = (view s')\<lparr>tv_children := tv_children (view s), tv_retained_open := False,
      tv_retained_items := tv_retained_items (view s)\<rparr>" for s'
    using assms(3) by (simp add: view_def)
  have nested: "settles en (h_scope m) s"
    if "wp en m (\<lambda>r s. ended r (view s)) (\<lambda>_ s. failed_over (view s)) ?s" for m
    unfolding wp_scope by (rule wp_mono [OF that]) (auto simp: outer view_preds)
  have control: "settles en (control_turn d turn) s"
    by (rule wp_mono [OF control_turn_wp [OF assms(2)]]) (auto simp: view_preds)
  show ?thesis unfolding unrouted_turn_def
    using nested [OF handle_multi_intent_wp [OF assms(1) inner(1,3,4)]] nested [OF handle_pending_wp [OF assms(1) inner(1,2)]] control
    by simp (use assms(2) in \<open>simp add: wp view_preds\<close>)
qed

lemma transcript_body_wp:
  assumes "quiet en" and "at_rest (view s)" and "\<not> tv_retained_open (view s)"
  shows "settles en (transcript_body t turn) s"
proof -
  have rest: "recoverable v" if "at_rest v" for v using that by (auto simp: view_preds)
  have 1: "settles en (case routed of
       None \<Rightarrow> main_reply turn ROUTING_UNAVAILABLE_TEXT True (Some ''failed'') None
     | Some d \<Rightarrow> (case (do_kind d = ''routed'', do_decision d) of
            (True, Some decision) \<Rightarrow> routed_turn t turn d decision
          | _ \<Rightarrow> unrouted_turn turn d)) s'" if "view s' = view s" for routed s'
  proof -
    have "at_rest (view s')" "\<not> tv_retained_open (view s')" using that assms by simp_all
    moreover have "settles en (main_reply turn x b l c) s'" for x b l c
      by (rule wp_mono [OF main_reply_wp]) (use calculation rest in auto)
    ultimately show ?thesis
      using unrouted_turn_wp [OF assms(1)] routed_turn_wp [OF assms(1)] by (auto split: option.split bool.split)
  qed
  have 2: "wp en (arbitrate_turn t) (\<lambda>routed. settles en (case routed of
       None \<Rightarrow> main_reply turn ROUTING_UNAVAILABLE_TEXT True (Some ''failed'') None
     | Some d \<Rightarrow> (case (do_kind d = ''routed'', do_decision d) of
            (True, Some decision) \<Rightarrow> routed_turn t turn d decision
          | _ \<Rightarrow> unrouted_turn turn d))) (\<lambda>_ s. recoverable (view s)) s'" if "view s' = view s" for s'
    by (rule wp_inert) (use that 1 assms(2) rest in auto)
  show ?thesis unfolding transcript_body_def wp_bind [of en "h_log _"] wp_bind [of en "h_call _"] wp_bind [of en "arbitrate_turn _"] wp_log wp_call
    using 2 assms(2) rest by (simp split: option.split)
qed

lemma handle_transcript_wp:
  assumes "quiet en" and "en_admitted en"
  shows "wp en (handle_transcript t) (\<lambda>r s. ended r (view s)) (\<lambda>_ s. failed_over (view s)) start_turn"
proof -
  have "view start_turn = \<lparr>tv_open = {}, tv_kept = {}, tv_ack = False, tv_finalized = False, tv_clean = True, tv_children = {},
      tv_retained_open = False, tv_retained_items = {}\<rparr>"
    by (simp add: view_def start_turn_def open_ids_def kept_ids_def ack_open_def turn_finalized_def clean_commits_def)
  then have "at_rest (view start_turn)" "\<not> tv_retained_open (view start_turn)"
    by (simp_all add: view_preds)
  from single_child_clauses_wp [OF assms(1) transcript_body_wp [OF assms(1) this]]
  show ?thesis using assms(2) by (simp add: wp_def handle_transcript_def)
qed

section \<open>The outermost clause\<close>

abbreviation unretained :: "turn_env \<Rightarrow> 'a handler \<Rightarrow> turn_state \<Rightarrow> bool" where
  "unretained en m s \<equiv> wp en m (\<lambda>_ s. \<not> ts_retained_open s) (\<lambda>_ s. \<not> ts_retained_open s) s"

lemma unretained_inert:
  assumes "inert en m" and "\<not> ts_retained_open s"
  shows "unretained en m s"
  by (rule wp_inert [OF assms(1)]) (use assms(2) in \<open>simp_all add: view_fields [symmetric]\<close>)

lemma unretained_scope: "\<not> ts_retained_open s \<Longrightarrow> unretained en (h_scope m) s"
  unfolding wp_scope by (simp add: wp_def split: prod.split sum.split)

lemma unretained_main_reply: "\<not> ts_retained_open s \<Longrightarrow> unretained en (main_reply turn t b l c) s"
  by (auto simp: main_reply_def speak_def wp intro!: build_result_wp split: option.split)

lemma unretained_unrouted:
  assumes "\<not> ts_retained_open s"
  shows "unretained en (unrouted_turn turn d) s"
proof -
  have "unretained en (control_turn d turn) s"
    unfolding control_turn_def wp_bind
    by (rule wp_mono [OF unretained_inert [OF inert_control assms]])
       (auto intro!: unretained_main_reply split: option.split)
  then show ?thesis using assms by (simp add: unrouted_turn_def wp_bind wp_log wp_ret unretained_scope)
qed

lemma unretained_finalize:
  assumes "\<not> ts_retained_open s"
  shows "unretained en (finalize_turn_exception_h turn parent cs c) s"
proof -
  have emit: "unretained en (emit_work_status_h turn item parent w st None) s'" if "\<not> ts_retained_open s'" for item w st s'
    using that by (simp add: wp_def emit_work_status_h_def h_call_def Let_def split: option.split)
  have each: "unretained en (h_each (\<lambda>(item, worker). emit_work_status_h turn item parent worker st None) items) s'"
    if "\<not> ts_retained_open s'" for st items s'
    by (rule wp_each) (use that emit in auto)
  show ?thesis unfolding finalize_turn_exception_h_def wp_bind wp_log wp_locals
    by (rule wp_mono [OF each]) (use assms in \<open>auto simp: wp\<close>)
qed

lemma clauses_release:
  assumes "unretained en body s"
  shows "wp en (single_child_clauses turn body) (\<lambda>_ s. last (ts_trace s) = ReleaseTurn turn) (\<lambda>_ s. last (ts_trace s) = ReleaseTurn turn) s"
proof -
  have "unretained en (h_cleanup body (finalize_turn_exception_h turn None open_children)) s"
    unfolding wp_cleanup by (rule wp_mono [OF assms]) (auto intro: unretained_finalize)
  then show ?thesis unfolding single_child_clauses_def wp_finally
    by (rule wp_mono) (simp_all add: wp)
qed

definition arbitrated :: "string \<Rightarrow> turn_env \<Rightarrow> dispatch_outcome" where
  "arbitrated t en = en_outcome en [RegisterTurnTask (work_id (en_turn_id en)), AppendTranscript t, Arbitrate t]"

lemma unretained_body:
  assumes "do_kind (arbitrated t en) \<noteq> ''routed''"
  shows "unretained en (transcript_body t (en_turn_id en)) start_turn"
  using assms
  by (simp add: transcript_body_def arbitrate_turn_def arbitrated_def wp start_turn_def logged_def unretained_unrouted unretained_main_reply
      split: option.split)

section \<open>Properties\<close>

text \<open>
  C6. Whatever the router, the workers, the coordinator and the commits answer or raise (a cancellation
  included), a transcript that is admitted leaves nothing half done, on return as on raise: every child announced as routing or
  searching has a later status, unless a compound turn left it to the coordinator; the turn record is finalized; no result was
  committed while an early acknowledgement of the turn was outstanding; and an acknowledgement is left unsettled only by the
  return that commits nothing because the child goes on in the background. Emitting a status is synchronous and
  does not raise (\<open>valid_report_accepted\<close>).
\<close>

theorem transcript_turn_settles:
  assumes "quiet en" and "en_admitted en" and "handle_transcript t en start_turn = (s, r)"
  shows "open_ids (ts_trace s) \<subseteq> kept_ids (ts_trace s) \<and> turn_finalized (ts_trace s) \<and> clean_commits (ts_trace s) \<and>
    (ack_open (ts_trace s) \<longrightarrow> r = Inr NothingCommitted)"
  using handle_transcript_wp [OF assms(1,2), of t] assms(3)
  by (auto simp: wp_def view_def ended_def failed_over_def nothing_open_def split: sum.splits)

text \<open>
  C7. When \<open>_handle_pending\<close> or \<open>_handle_multi_intent\<close> handles the turn, the last thing the outer handler
  does is \<open>release_all_turn_work_items(turn_id)\<close>: its own \<open>retained_still_open\<close> is never set by the nested handler. So the
  ownership that the nested handlers mean to keep for a retained child ends with the turn.
\<close>

theorem nested_retention_released:
  assumes "en_admitted en" and "do_kind (arbitrated t en) \<in> {''continue_pending'', ''multi_intent''}"
    and "handle_transcript t en start_turn = (s, r)"
  shows "last (ts_trace s) = ReleaseTurn (en_turn_id en)"
proof -
  have "do_kind (arbitrated t en) \<noteq> ''routed''" using assms(2) by auto
  from clauses_release [OF unretained_body [OF this], of "en_turn_id en"] assms(1,3)
  show ?thesis by (auto simp: wp_def handle_transcript_def split: sum.splits)
qed

text \<open>A clarification whose search outlasts the foreground: the coordinator answers that it is pending.\<close>

definition demo_turn_decision :: routing_decision where
  "demo_turn_decision =
     \<lparr>rd_action = Direct, rd_worker_id = None, rd_worker_type = None, rd_topic = None, rd_capability = None, rd_capability_available = True,
      rd_model_policy = None, rd_catalogue_version = ''v'', rd_catalogue_worker_ids = [], rd_origin_epoch = Some 1\<rparr>"

definition demo_turn_result :: grounded_result where
  "demo_turn_result =
     \<lparr>gr_result_id = ''r'', gr_worker_id = ''web'', gr_turn_id = ''t'', gr_timestamp = ''now'', gr_text = ''x'', gr_citations = [],
      gr_spoken_text = ''x'', gr_origin_epoch = Some 1\<rparr>"

definition demo_turn_env :: turn_env where
  "demo_turn_env =
     \<lparr>en_raises = (\<lambda>_. None), en_admitted = True, en_turn_id = ''t'', en_epoch = 1, en_now = (\<lambda>_. ''now''), en_fresh = (\<lambda>_. ''r''),
      en_outcome = (\<lambda>_. (outcome_of ''continue_pending'' ''yes'')\<lparr>do_work_items := [''web'']\<rparr>),
      en_active_speech = (\<lambda>_. None), en_replay = (\<lambda>_. None), en_ack_turn = (\<lambda>_ _. None), en_cancelled = (\<lambda>_. ([], [])),
      en_cancelled_ids = (\<lambda>_ _. False), en_worker = (\<lambda>_. \<lparr>wk_search = True, wk_metadata = None, wk_status = None\<rparr>),
      en_owner = (\<lambda>_ _. Some \<lparr>wk_search = True, wk_metadata = None, wk_status = None\<rparr>),
      en_search_started = (\<lambda>_. True), en_search_done = (\<lambda>_. False), en_search_result = (\<lambda>_. None), en_retained = (\<lambda>_. True),
      en_replaces_legacy = (\<lambda>_. True), en_envelope = (\<lambda>_. (demo_turn_decision, None)), en_committed = (\<lambda>_. (demo_turn_result, {})),
      en_submitted = (\<lambda>_. \<lparr>sb_results = [], sb_pending_work_item_ids = [''work-t''], sb_failures = []\<rparr>), en_labels = (\<lambda>_ _. None)\<rparr>"

definition demo_trace :: trace where
  "demo_trace = ts_trace (fst (handle_transcript ''yes'' demo_turn_env start_turn))"

lemma demo_turn_run:
  "(\<lambda>(s, r). ack_open (ts_trace s) \<and> r = Inr NothingCommitted \<and> list_ex (\<lambda>c. c = RegisterRetained ''work-t'') (ts_trace s))
     (handle_transcript ''yes'' demo_turn_env start_turn)"
  by code_simp

lemma transcript_turn_settles_witness:
  "open_ids demo_trace \<subseteq> kept_ids demo_trace \<and> turn_finalized demo_trace \<and> clean_commits demo_trace \<and> ack_open demo_trace \<and>
    snd (handle_transcript ''yes'' demo_turn_env start_turn) = Inr NothingCommitted"
proof -
  have "quiet demo_turn_env" "en_admitted demo_turn_env" by (simp_all add: quiet_def demo_turn_env_def)
  from transcript_turn_settles [OF this, of "''yes''"] have "open_ids demo_trace \<subseteq> kept_ids demo_trace" "turn_finalized demo_trace" "clean_commits demo_trace"
    by (auto simp: demo_trace_def prod_eq_iff)
  moreover have "ack_open demo_trace" "snd (handle_transcript ''yes'' demo_turn_env start_turn) = Inr NothingCommitted"
    using demo_turn_run by (auto simp: demo_trace_def split: prod.splits)
  ultimately show ?thesis by simp
qed

lemma nested_retention_released_witness:
  "RegisterRetained ''work-t'' \<in> set demo_trace \<and> last demo_trace = ReleaseTurn ''t''"
proof -
  have "en_admitted demo_turn_env" "do_kind (arbitrated ''yes'' demo_turn_env) \<in> {''continue_pending'', ''multi_intent''}"
    by (simp_all add: demo_turn_env_def arbitrated_def outcome_of_def)
  from nested_retention_released [OF this] have "last demo_trace = ReleaseTurn (en_turn_id demo_turn_env)"
    by (auto simp: demo_trace_def prod_eq_iff)
  moreover have "list_ex (\<lambda>c. c = RegisterRetained ''work-t'') demo_trace" using demo_turn_run by (auto simp: demo_trace_def split: prod.splits)
  ultimately show ?thesis by (simp add: demo_turn_env_def list_ex_iff)
qed

section \<open>Identifiers of the parts of a compound turn\<close>

lemma show_nat_digits: "all_digits (show_nat n)"
proof (induction n rule: show_nat.induct)
  case (1 n)
  have digit: "is_digit (char_of (48 + k))" if "k < 10" for k :: nat
    using that by (auto simp: is_digit_def)
  show ?case
    using 1 digit [of n] digit [of "n mod 10"] by (cases "n < 10") (auto simp: show_nat.simps [of n] all_digits_def)
qed

lemma while_append:
  assumes "\<forall>c \<in> set xs. P c" and "\<not> P x"
  shows "takeWhile P (xs @ x # ys) = xs" and "dropWhile P (xs @ x # ys) = x # ys"
  using assms by (induction xs) simp_all

lemma digits_have_no_dash: "all_digits s \<Longrightarrow> CHR ''-'' \<notin> set s"
  by (auto simp: all_digits_def list_all_iff is_digit_def)

text \<open>
  C8. \<open>split_multi_intent_turn_id\<close> reads back the turn and the index of every identifier that
  \<open>multi_intent_item_turn_id\<close> makes of a non-empty turn identifier, dashes in it included (for an index that Python
  prints).
\<close>

theorem item_turn_id_round_trip:
  assumes "turn \<noteq> []" and "length (show_nat i) \<le> 4300"
  shows "split_multi_intent_turn_id (multi_intent_item_turn_id turn i) = Inr (Some (turn, i))"
proof -
  let ?n = "show_nat i"
  have "\<forall>c \<in> set (rev ?n). c \<noteq> CHR ''-''" using digits_have_no_dash [OF show_nat_digits, of i] by auto
  then have "takeWhile (\<lambda>c. c \<noteq> CHR ''-'') (rev ?n @ CHR ''-'' # rev turn) = rev ?n"
    and "dropWhile (\<lambda>c. c \<noteq> CHR ''-'') (rev ?n @ CHR ''-'' # rev turn) = CHR ''-'' # rev turn"
    by (rule while_append; simp)+
  moreover have "list_all py_isdigit ?n" "?n \<noteq> []"
    using show_nat_digits [of i] by (auto simp: all_digits_def list_all_iff py_isdigit_def)
  ultimately show ?thesis
    using assms show_nat_digits [of i]
    by (simp add: split_multi_intent_turn_id_def multi_intent_item_turn_id_def Let_def read_show_nat del: read_nat.simps)
qed

lemma item_turn_id_round_trip_witness:
  "multi_intent_item_turn_id ''turn-7'' 12 = ''turn-7-12'' \<and> split_multi_intent_turn_id (multi_intent_item_turn_id ''turn-7'' 12) = Inr (Some (''turn-7'', 12))"
proof -
  have "length (show_nat 12) \<le> 4300" by (simp add: show_nat.simps)
  from item_turn_id_round_trip [OF _ this, of "''turn-7''"]
  have "split_multi_intent_turn_id (multi_intent_item_turn_id ''turn-7'' 12) = Inr (Some (''turn-7'', 12))" by simp
  moreover have "multi_intent_item_turn_id ''turn-7'' 12 = ''turn-7-12''" by code_simp
  ultimately show ?thesis by simp
qed

lemma superscript_index_raises: "split_multi_intent_turn_id (''turn-'' @ [char_of (178 :: nat)]) = Inl ()"
  by code_simp

end
