(* ===== verification/Runner_Supervisor.thy ===== *)
theory Runner_Supervisor
  imports Routing
begin

text \<open>
  The supervisor of the worker runner, \<open>server/runner_supervisor.py\<close>. Runners come from outside the
  repository; of a runner object the model keeps which of the probed methods it has (\<open>runner_api\<close>). Worker registrations run as
  tasks: \<open>rv_tasks\<close> are the running ones with the runner whose \<open>add_workers\<close> they hold, and \<open>rv_finished\<close> those whose
  done callback has not run yet. How a registration ends is an argument. \<open>rv_added\<close> records the calls of \<open>add_workers\<close> that
  succeeded.

  Shown here: concurrent registrations of one worker share one task and a worker is added at most once; so a runner made by a later
  \<open>start\<close> never receives the workers of an earlier one.
\<close>

section \<open>State and operations\<close>

record runner_api =
  ra_add_workers :: bool
  ra_start :: bool
  ra_run :: bool
  ra_stop :: bool
  ra_cancel :: bool

record runner_supervisor =
  rv_runner :: "(nat \<times> runner_api) option"
  rv_run_task :: bool
  rv_registered :: "string set"
  rv_registrations :: "(string, nat) dict"
  rv_tasks :: "(nat \<times> string \<times> nat) list"
  rv_finished :: "(nat \<times> string) list"
  rv_next :: nat
  rv_added :: "(nat \<times> string) list"

definition init_supervisor :: runner_supervisor where
  "init_supervisor =
     \<lparr>rv_runner = None, rv_run_task = False, rv_registered = {}, rv_registrations = [], rv_tasks = [], rv_finished = [],
      rv_next = 0, rv_added = []\<rparr>"

definition new_runner :: "runner_api \<Rightarrow> runner_supervisor \<Rightarrow> runner_supervisor" where
  "new_runner api s = s\<lparr>rv_runner := Some (rv_next s, api), rv_next := rv_next s + 1\<rparr>"

definition adding_runner :: "runner_supervisor \<Rightarrow> nat option" where
  "adding_runner s = (case rv_runner s of Some (r, api) \<Rightarrow> if ra_add_workers api then Some r else None | None \<Rightarrow> None)"

text \<open>\<open>metadata.worker_id or name\<close>, when that is a non-empty string.\<close>

definition registration_id :: "string option \<Rightarrow> string option \<Rightarrow> string option" where
  "registration_id metadata_id name = (if truthy metadata_id then metadata_id else if truthy name then name else None)"

text \<open>\<open>register_worker\<close> up to its await: the task it waits for, if any.\<close>

definition request_registration :: "string option \<Rightarrow> runner_supervisor \<Rightarrow> runner_supervisor \<times> nat option" where
  "request_registration worker_id s =
     (case worker_id of
        None \<Rightarrow> (s, None)
      | Some w \<Rightarrow>
          if w \<in> rv_registered s then (s, None)
          else
            (case adding_runner s of
               None \<Rightarrow> (s, None)
             | Some r \<Rightarrow>
                 (case map_of (rv_registrations s) w of
                    Some t \<Rightarrow> (s, Some t)
                  | None \<Rightarrow>
                      let t = rv_next s in
                      (s\<lparr>rv_next := t + 1, rv_registrations := AList.update w t (rv_registrations s),
                         rv_tasks := rv_tasks s @ [(t, w, r)]\<rparr>, Some t))))"

text \<open>The end of the task of the local function \<open>register\<close>, and its done callback \<open>completed\<close>.\<close>

definition finish_registration :: "nat \<Rightarrow> bool \<Rightarrow> runner_supervisor \<Rightarrow> runner_supervisor" where
  "finish_registration t ok s =
     (case map_of (rv_tasks s) t of
        None \<Rightarrow> s
      | Some (w, r) \<Rightarrow>
          let s = s\<lparr>rv_tasks := filter (\<lambda>x. fst x \<noteq> t) (rv_tasks s), rv_finished := rv_finished s @ [(t, w)]\<rparr> in
          if ok then s\<lparr>rv_registered := insert w (rv_registered s), rv_added := rv_added s @ [(r, w)]\<rparr> else s)"

definition registration_completed :: "nat \<Rightarrow> runner_supervisor \<Rightarrow> runner_supervisor" where
  "registration_completed t s =
     (case map_of (rv_finished s) t of
        None \<Rightarrow> s
      | Some w \<Rightarrow>
          let s = s\<lparr>rv_finished := filter (\<lambda>x. fst x \<noteq> t) (rv_finished s)\<rparr> in
          if map_of (rv_registrations s) w = Some t then s\<lparr>rv_registrations := AList.delete w (rv_registrations s)\<rparr> else s)"

text \<open>\<open>register_worker\<close> when nothing else runs until its task has ended.\<close>

definition register_worker :: "bool \<Rightarrow> string option \<Rightarrow> runner_supervisor \<Rightarrow> runner_supervisor \<times> (unit + unit)" where
  "register_worker ok worker_id s =
     (case request_registration worker_id s of
        (s, None) \<Rightarrow> (s, Inr ())
      | (s, Some t) \<Rightarrow> (registration_completed t (finish_registration t ok s), if ok then Inr () else Inl ()))"

text \<open>\<open>workers\<close> are the registration ids of the \<open>BaseWorker\<close> instances of the registry.\<close>

fun register_all :: "(string option \<Rightarrow> bool) \<Rightarrow> string option list \<Rightarrow> runner_supervisor \<Rightarrow> runner_supervisor \<times> (unit + unit)" where
  "register_all ok [] s = (s, Inr ())"
| "register_all ok (w # ws) s =
     (case register_worker (ok w) w s of (s, Inl e) \<Rightarrow> (s, Inl e) | (s, Inr _) \<Rightarrow> register_all ok ws s)"

definition register_persistent_workers ::
    "(string option \<Rightarrow> bool) \<Rightarrow> string option list \<Rightarrow> runner_supervisor \<Rightarrow> runner_supervisor \<times> (unit + unit)" where
  "register_persistent_workers ok workers s = (if adding_runner s = None then (s, Inr ()) else register_all ok workers s)"

definition start_runner ::
    "runner_api \<Rightarrow> (string option \<Rightarrow> bool) \<Rightarrow> string option list \<Rightarrow> runner_supervisor \<Rightarrow> runner_supervisor \<times> (unit + unit)" where
  "start_runner api ok workers s =
     (case register_persistent_workers ok workers (new_runner api s) of
        (s, Inl e) \<Rightarrow> (s, Inl e)
      | (s, Inr _) \<Rightarrow> (s\<lparr>rv_run_task := (rv_run_task s \<or> (\<not> ra_start api \<and> ra_run api))\<rparr>, Inr ()))"

text \<open>Every registration is cancelled and awaited; the callbacks run before the waiter goes on.\<close>

definition cancel_registrations :: "runner_supervisor \<Rightarrow> runner_supervisor" where
  "cancel_registrations s =
     fold (\<lambda>t s. registration_completed t (finish_registration t False s)) (dvals (rv_registrations s)) s"

datatype runner_call = CallStop | CallCancel | NoCall

definition shutdown_runner :: "runner_supervisor \<Rightarrow> runner_supervisor \<times> runner_call" where
  "shutdown_runner s =
     (s\<lparr>rv_run_task := False\<rparr>,
      case rv_runner s of
        None \<Rightarrow> NoCall
      | Some (r, api) \<Rightarrow> if ra_stop api then CallStop else if ra_cancel api then CallCancel else NoCall)"

section \<open>Interleavings\<close>

datatype rv_op =
    NewRunner runner_api
  | Request "string option"
  | Finish nat bool
  | Completed nat
  | CancelRegistrations
  | ShutdownRunner

fun rv_step :: "rv_op \<Rightarrow> runner_supervisor \<Rightarrow> runner_supervisor" where
  "rv_step (NewRunner api) s = new_runner api s"
| "rv_step (Request w) s = fst (request_registration w s)"
| "rv_step (Finish t ok) s = finish_registration t ok s"
| "rv_step (Completed t) s = registration_completed t s"
| "rv_step CancelRegistrations s = cancel_registrations s"
| "rv_step ShutdownRunner s = fst (shutdown_runner s)"

definition rv_inv :: "runner_supervisor \<Rightarrow> bool" where
  "rv_inv s \<longleftrightarrow>
     (\<forall>t w r. (t, w, r) \<in> set (rv_tasks s) \<longrightarrow> map_of (rv_registrations s) w = Some t \<and> w \<notin> rv_registered s) \<and>
     (\<forall>w t. map_of (rv_registrations s) w = Some t \<longrightarrow> t < rv_next s) \<and>
     (\<forall>t w. (t, w) \<in> set (rv_finished s) \<longrightarrow> t < rv_next s \<and> (\<forall>v r. (t, v, r) \<notin> set (rv_tasks s))) \<and>
     distinct (map snd (rv_added s)) \<and> snd ` set (rv_added s) = rv_registered s"

lemma registration_task_inv:
  "rv_inv s \<Longrightarrow> (t, w, r) \<in> set (rv_tasks s) \<Longrightarrow> map_of (rv_registrations s) w = Some t \<and> w \<notin> rv_registered s \<and> t < rv_next s"
  unfolding rv_inv_def by metis

lemma request_inv: "rv_inv s \<Longrightarrow> rv_inv (fst (request_registration w s))"
proof (cases w)
  case (Some x)
  assume inv: "rv_inv s"
  have "t < rv_next s \<and> map_of (rv_registrations s) v \<noteq> None" if "(t, v, r) \<in> set (rv_tasks s)" for t v r
    using registration_task_inv [OF inv that] by simp
  with inv show ?thesis
    by (auto simp: rv_inv_def Some request_registration_def Let_def update_conv less_Suc_eq split: option.split) (metis option.distinct(1))+
qed (simp add: request_registration_def)

lemma registration_finish_inv: "rv_inv s \<Longrightarrow> rv_inv (finish_registration t ok s)"
proof (cases "map_of (rv_tasks s) t")
  case (Some p)
  assume inv: "rv_inv s"
  obtain w r where p: "p = (w, r)" by fastforce
  have mem: "(t, w, r) \<in> set (rv_tasks s)" using map_of_SomeD [OF Some] by (simp add: p)
  note w = registration_task_inv [OF inv this]
  have other: "v \<noteq> w" if "(t', v, r') \<in> set (rv_tasks s)" "t' \<noteq> t" for t' v r'
    using registration_task_inv [OF inv that(1)] that(2) w by auto
  have new: "w \<notin> snd ` set (rv_added s)" using inv w by (simp add: rv_inv_def)
  show ?thesis using inv w new other Some
    by (auto simp: rv_inv_def finish_registration_def p Let_def) metis+
qed (simp add: finish_registration_def)

lemma completed_inv: "rv_inv s \<Longrightarrow> rv_inv (registration_completed t s)"
proof (cases "map_of (rv_finished s) t")
  case (Some w)
  assume inv: "rv_inv s"
  have "(t, v, r) \<notin> set (rv_tasks s)" for v r using inv map_of_SomeD [OF Some] by (auto simp: rv_inv_def)
  then have "v \<noteq> w" if "(t', v, r) \<in> set (rv_tasks s)" "map_of (rv_registrations s) w = Some t" for t' v r
    using registration_task_inv [OF inv that(1)] that by auto
  with inv show ?thesis
    by (auto simp: rv_inv_def registration_completed_def Some Let_def delete_conv)
qed (simp add: registration_completed_def)

lemma rv_step_inv: "rv_inv s \<Longrightarrow> rv_inv (rv_step e s)"
proof (cases e)
  case CancelRegistrations
  assume inv: "rv_inv s"
  have "rv_inv (fold (\<lambda>t s. registration_completed t (finish_registration t False s)) ts s)" for ts
    using inv by (induction ts arbitrary: s) (simp_all add: completed_inv registration_finish_inv)
  then show ?thesis by (simp add: CancelRegistrations cancel_registrations_def)
qed (auto simp: request_inv registration_finish_inv completed_inv, auto simp: rv_inv_def new_runner_def shutdown_runner_def less_Suc_eq)

lemma init_rv_inv: "rv_inv init_supervisor"
  by (simp add: rv_inv_def init_supervisor_def)

interpretation supervision: machine rv_step rv_inv
  by unfold_locales (rule rv_step_inv)

text \<open>Runners are numbered in the order they were made, and a successful addition is never forgotten.\<close>

definition runners_fresh :: "runner_supervisor \<Rightarrow> bool" where
  "runners_fresh s \<longleftrightarrow>
     (\<forall>r \<in> fst ` set (rv_added s) \<union> (snd \<circ> snd) ` set (rv_tasks s) \<union> set_option (map_option fst (rv_runner s)). r < rv_next s)"

lemma adding_runner_current: "adding_runner s = Some r \<Longrightarrow> \<exists>api. rv_runner s = Some (r, api)"
  by (auto simp: adding_runner_def split: option.splits prod.splits if_splits)

lemma task_runner: "map_of (rv_tasks s) t = Some (w, r) \<Longrightarrow> r \<in> (snd \<circ> snd) ` set (rv_tasks s)"
  by (force dest: map_of_SomeD)

lemma basic_fresh:
  assumes "runners_fresh s"
  shows "runners_fresh (fst (request_registration w s))" and "runners_fresh (finish_registration t ok s)"
    and "runners_fresh (registration_completed t s)"
  using assms task_runner [of s t]
  by (auto simp: runners_fresh_def request_registration_def finish_registration_def registration_completed_def Let_def less_Suc_eq
      split: option.splits dest!: adding_runner_current)

lemma basic_kept:
  "set (rv_added s) \<subseteq> set (rv_added (fst (request_registration w s)))" "set (rv_added s) \<subseteq> set (rv_added (finish_registration t ok s))"
  "rv_added (registration_completed t s) = rv_added s"
  by (auto simp: request_registration_def finish_registration_def registration_completed_def Let_def split: option.splits)

lemma cancel_fresh_kept:
  "runners_fresh s \<Longrightarrow> runners_fresh (fold (\<lambda>t s. registration_completed t (finish_registration t False s)) ts s) \<and>
     set (rv_added s) \<subseteq> set (rv_added (fold (\<lambda>t s. registration_completed t (finish_registration t False s)) ts s))"
proof (induction ts arbitrary: s)
  case (Cons t ts)
  have "runners_fresh (registration_completed t (finish_registration t False s))" using Cons.prems by (intro basic_fresh)
  from Cons.IH [OF this] show ?case using basic_kept(2) [of s t False] basic_kept(3) [of t "finish_registration t False s"] by auto
qed simp

lemma rv_step_fresh: "runners_fresh s \<Longrightarrow> runners_fresh (rv_step e s)"
  by (cases e) (auto simp: basic_fresh cancel_fresh_kept cancel_registrations_def, auto simp: runners_fresh_def new_runner_def shutdown_runner_def less_Suc_eq)

lemma rv_step_kept: "runners_fresh s \<Longrightarrow> set (rv_added s) \<subseteq> set (rv_added (rv_step e s))"
  using basic_kept cancel_fresh_kept by (cases e) (auto simp: cancel_registrations_def new_runner_def shutdown_runner_def)

interpretation runner_ids: mono_machine rv_step runners_fresh "\<lambda>s t. set (rv_added s) \<subseteq> set (rv_added t)"
  by unfold_locales (auto intro: rv_step_fresh dest: rv_step_kept)

section \<open>Properties\<close>

text \<open>
  Registrations of one worker are coalesced. However calls of \<open>register_worker\<close>, ends of registration
  tasks (successes, failures, cancellations), their callbacks, restarts and shutdowns interleave, a worker has at most one running
  registration, none once it is registered, and is handed to \<open>add_workers\<close> successfully at most once.
\<close>

theorem worker_registration_coalesced:
  "let s = fold rv_step ops init_supervisor in
     distinct (map snd (rv_added s)) \<and> snd ` set (rv_added s) = rv_registered s \<and>
     list_all (\<lambda>(t, w, r). w \<notin> rv_registered s \<and> list_all (\<lambda>(t', w', r'). w' = w \<longrightarrow> t' = t) (rv_tasks s)) (rv_tasks s)"
proof -
  let ?s = "fold rv_step ops init_supervisor"
  have inv: "rv_inv ?s" by (rule supervision.run_inv [OF init_rv_inv])
  have "w \<notin> rv_registered ?s \<and> (\<forall>(t', w', r') \<in> set (rv_tasks ?s). w' = w \<longrightarrow> t' = t)" if "(t, w, r) \<in> set (rv_tasks ?s)" for t w r
    using registration_task_inv [OF inv that] by (auto dest: registration_task_inv [OF inv])
  then have "list_all (\<lambda>(t, w, r). w \<notin> rv_registered ?s \<and> list_all (\<lambda>(t', w', r'). w' = w \<longrightarrow> t' = t) (rv_tasks ?s)) (rv_tasks ?s)"
    unfolding list_all_iff by blast
  then show ?thesis using inv by (simp add: Let_def rv_inv_def)
qed

text \<open>
  C39. The runner that a later \<open>start\<close> makes never gets a worker that was registered before: the set of
  registered ids survives \<open>shutdown\<close>, so \<open>register_worker\<close> returns at once for each of them.
\<close>

theorem restarted_runner_gets_no_old_worker:
  assumes "s = fold rv_step before init_supervisor" and "w \<in> rv_registered s"
  shows "(rv_next s, w) \<notin> set (rv_added (fold rv_step after (new_runner api s)))"
proof
  let ?t = "fold rv_step after (new_runner api s)"
  assume new: "(rv_next s, w) \<in> set (rv_added ?t)"
  have init: "runners_fresh init_supervisor" by (simp add: runners_fresh_def init_supervisor_def)
  have inv: "rv_inv s" and fresh: "runners_fresh s"
    unfolding assms(1) by (rule supervision.run_inv [OF init_rv_inv], rule runner_ids.run_inv [OF init])
  have "w \<in> snd ` set (rv_added s)" using inv assms(2) by (simp add: rv_inv_def)
  then obtain r where r: "(r, w) \<in> set (rv_added s)" by auto
  then have "r < rv_next s" using fresh by (force simp: runners_fresh_def)
  have fresh': "runners_fresh (new_runner api s)" using rv_step_fresh [OF fresh, of "NewRunner api"] by simp
  have "set (rv_added (new_runner api s)) \<subseteq> set (rv_added ?t)" by (rule runner_ids.run_leq [OF fresh'])
  then have "(r, w) \<in> set (rv_added ?t)" using r by (auto simp: new_runner_def)
  moreover have "rv_inv ?t"
    using supervision.run_inv [OF inv, of "NewRunner api # after"] by simp
  then have "distinct (map snd (rv_added ?t))" by (simp add: rv_inv_def)
  ultimately have "r = rv_next s" using new unfolding distinct_map inj_on_def by (metis prod.inject snd_conv)
  with \<open>r < rv_next s\<close> show False by simp
qed

definition demo_api :: runner_api where
  "demo_api = \<lparr>ra_add_workers = True, ra_start = True, ra_run = True, ra_stop = True, ra_cancel = True\<rparr>"

lemma restarted_runner_gets_no_old_worker_witness:
  "let s = fold rv_step [NewRunner demo_api, Request (Some ''w''), Finish 1 True, Completed 1, CancelRegistrations, ShutdownRunner] init_supervisor;
       t = fold rv_step [Request (Some ''w'')] (new_runner demo_api s) in
     rv_added s = [(0, ''w'')] \<and> rv_runner t = Some (rv_next s, demo_api) \<and> (rv_next s, ''w'') \<notin> set (rv_added t)"
proof -
  let ?s = "fold rv_step [NewRunner demo_api, Request (Some ''w''), Finish 1 True, Completed 1, CancelRegistrations, ShutdownRunner] init_supervisor"
  have "''w'' \<in> rv_registered ?s" by code_simp
  from restarted_runner_gets_no_old_worker [OF refl this, of "[Request (Some ''w'')]" demo_api]
  have "(rv_next ?s, ''w'') \<notin> set (rv_added (fold rv_step [Request (Some ''w'')] (new_runner demo_api ?s)))" .
  moreover have "rv_added ?s = [(0, ''w'')]" by code_simp
  moreover have "rv_runner (fold rv_step [Request (Some ''w'')] (new_runner demo_api ?s)) = Some (rv_next ?s, demo_api)" by code_simp
  ultimately show ?thesis unfolding Let_def by blast
qed

end
