(* ===== verification/Host_Connections.thy ===== *)
theory Host_Connections
  imports Session_Host Runner_Supervisor
begin

text \<open>
  The life of the connections of a \<open>SessionHost\<close> (\<open>server/pipeline.py\<close>): starting the host, promoting a
  handshake to the one connection, the callbacks through which a connection speaks and hears, aborting it, and the
  shutdown of the host.

  A connection is an index into the store of \<open>Turn_Ack\<close>; \<open>hc_next\<close> is the next free one. The transport, the speech services and
  the Pipecat worker of a connection are outside the repository: the frames queued on workers are recorded in
  \<open>hc_frames\<close>. Shutdowns that nobody awaits are the entries of \<open>hc_shutdowns\<close> and run as steps of their own.
  \<open>connect\<close> has no await between the promotion and the retirement of the old connection; starting the runner, which the
  application does before it serves requests, is part of the same step.
  \<open>shutdown\<close> of the host is split where it waits.
\<close>

section \<open>State\<close>

datatype speech_frame =
    MarkerFrame string string string "epoch option"
  | SpeakFrame string "string option"
  | InterruptionFrame
  | FlushAckFrame string

record connected_host =
  hc_host :: session_host
  hc_started :: bool
  hc_next :: nat
  hc_stt :: bool
  hc_tts :: bool
  hc_shutdowns :: "(nat \<times> bool) list"
  hc_supervisor :: runner_supervisor
  hc_frames :: "(nat \<times> speech_frame) list"
  hc_cancels :: "nat set"

definition on_host :: "(session_host \<Rightarrow> session_host) \<Rightarrow> connected_host \<Rightarrow> connected_host" where
  "on_host f h = h\<lparr>hc_host := f (hc_host h)\<rparr>"

definition current :: "connected_host \<Rightarrow> nat option" where
  "current h = sh_connection (hc_host h)"

definition set_pipeline :: "nat \<Rightarrow> (connection_pipeline \<Rightarrow> connection_pipeline) \<Rightarrow> session_host \<Rightarrow> session_host" where
  "set_pipeline i f h =
     h\<lparr>sh_ack := (sh_ack h)\<lparr>ah_pipelines := (ah_pipelines (sh_ack h))(i := f (ah_pipelines (sh_ack h) i))\<rparr>\<rparr>"

definition set_active_epoch :: "epoch option \<Rightarrow> session_host \<Rightarrow> session_host" where
  "set_active_epoch e h = on_state (\<lambda>s. s\<lparr>ss_active_epoch := e\<rparr>) h"

text \<open>One operation of the scheduler of a connection, on the shared session state.\<close>

definition speech_op :: "nat \<Rightarrow> sc_op \<Rightarrow> session_host \<Rightarrow> session_host" where
  "speech_op i e h = on_scheduler i (with_scheduler i (sc_step e)) h"

section \<open>Retiring connections\<close>

definition deactivate_connection :: "bool \<Rightarrow> nat \<Rightarrow> session_host \<Rightarrow> session_host" where
  "deactivate_connection reconnect i h =
     (let h = set_pipeline i (\<lambda>c. c\<lparr>cp_active := False\<rparr>) h in
      speech_op i (ScInterrupt (Some (cp_epoch (pipeline_of i h))) reconnect True) h)"

definition shutdown_connection :: "bool \<Rightarrow> nat \<Rightarrow> session_host \<Rightarrow> session_host" where
  "shutdown_connection reconnect i h =
     (let h = deactivate_connection reconnect i h;
          h = set_pipeline i (\<lambda>c. c\<lparr>cp_worker := False, cp_worker_task := False, cp_observing := False\<rparr>) h in
      if cp_lifecycle (pipeline_of i h) then speech_op i (ScLifecycle OpClose) h else h)"

definition track_background_shutdown :: "nat \<Rightarrow> bool \<Rightarrow> connected_host \<Rightarrow> connected_host" where
  "track_background_shutdown i reconnect h = h\<lparr>hc_shutdowns := hc_shutdowns h @ [(i, reconnect)]\<rparr>"

definition run_background_shutdown :: "nat \<Rightarrow> connected_host \<Rightarrow> connected_host" where
  "run_background_shutdown k h =
     (if k < length (hc_shutdowns h) then
        let (i, reconnect) = hc_shutdowns h ! k in
        on_host (shutdown_connection reconnect i) (h\<lparr>hc_shutdowns := remove_at k (hc_shutdowns h)\<rparr>)
      else h)"

definition retire_old_connection :: "nat option \<Rightarrow> connected_host \<Rightarrow> connected_host" where
  "retire_old_connection old h =
     (case old of
        None \<Rightarrow> h
      | Some i \<Rightarrow> track_background_shutdown i True (on_host (deactivate_connection True i) h))"

definition abort_connection :: "bool \<Rightarrow> nat \<Rightarrow> connected_host \<Rightarrow> connected_host" where
  "abort_connection reconnect i h =
     (if current h = Some i
      then on_host (set_active_epoch None \<circ> (\<lambda>s. s\<lparr>sh_connection := None\<rparr>) \<circ> deactivate_connection reconnect i) h
      else h)"

section \<open>Starting and connecting\<close>

datatype connect_error = HostClosing | RunnerRaised | PromoteRaised promote_error

record connect_env =
  ce_api :: runner_api
  ce_adds :: "string option \<Rightarrow> bool"
  ce_workers :: "string option list"
  ce_clock :: instant
  ce_start_timeout :: real
  ce_grace :: real
  ce_tombstones :: int

definition start_host :: "connect_env \<Rightarrow> connected_host \<Rightarrow> connected_host \<times> (connect_error + unit)" where
  "start_host env h =
     (if hc_started h then (h, Inr ())
      else
        let h = on_host (\<lambda>s. s\<lparr>sh_closing := False\<rparr>) h in
        case start_runner (ce_api env) (ce_adds env) (ce_workers env) (hc_supervisor h) of
          (r, Inl _) \<Rightarrow> (h\<lparr>hc_supervisor := r\<rparr>, Inl RunnerRaised)
        | (r, Inr _) \<Rightarrow> (on_host (set_active_epoch None) (h\<lparr>hc_supervisor := r, hc_started := True\<rparr>), Inr ()))"

text \<open>The pipeline of a new connection, with a scheduler and a coordinator of its own.\<close>

definition build_connection_lifecycle :: "connect_env \<Rightarrow> bool \<Rightarrow> lifecycle" where
  "build_connection_lifecycle env tts = init_lifecycle (ce_clock env) (ce_start_timeout env) (ce_grace env) (ce_tombstones env) tts"

definition new_pipeline :: "connect_env \<Rightarrow> epoch \<Rightarrow> bool \<Rightarrow> session_state \<Rightarrow> connection_pipeline" where
  "new_pipeline env e tts state =
     \<lparr>cp_epoch = e, cp_scheduler = init_scheduler state (build_connection_lifecycle env tts), cp_lifecycle = True, cp_tts = tts,
      cp_worker = False, cp_worker_task = False, cp_observing = True, cp_active = True\<rparr>"

definition publish_connection :: "connect_env \<Rightarrow> connection \<Rightarrow> connected_host \<Rightarrow> connected_host" where
  "publish_connection env c h =
     (let old = current h; n = hc_next h;
          h = on_host (set_active_epoch (Some (cn_epoch c))) h;
          h = on_host (set_pipeline n (\<lambda>_. new_pipeline env (cn_epoch c) (hc_tts h) (sh_state (hc_host h)))) h;
          h = on_host (\<lambda>s. s\<lparr>sh_connection := Some n\<rparr>) (h\<lparr>hc_next := n + 1\<rparr>) in
      retire_old_connection old h)"

definition connect :: "connect_env \<Rightarrow> snapshot_handshake \<Rightarrow> connected_host \<Rightarrow> connected_host \<times> (connect_error + nat)" where
  "connect env handshake h =
     (if sh_closing (hc_host h) then (h, Inl HostClosing)
      else
        case start_host env h of
          (h, Inl e) \<Rightarrow> (h, Inl e)
        | (h, Inr _) \<Rightarrow>
            (case promote handshake (sh_arbiter (hc_host h)) of
               (a, Inl e) \<Rightarrow> (h, Inl (PromoteRaised e))
             | (a, Inr c) \<Rightarrow>
                 let n = hc_next h;
                     h = publish_connection env c (on_host (\<lambda>s. s\<lparr>sh_arbiter := a\<rparr>) h) in
                 (case register_persistent_workers (ce_adds env) (ce_workers env) (hc_supervisor h) of
                    (r, Inl _) \<Rightarrow> (h\<lparr>hc_supervisor := r\<rparr>, Inl RunnerRaised)
                  | (r, Inr _) \<Rightarrow> (h\<lparr>hc_supervisor := r\<rparr>, Inr n))))"

text \<open>A new host: no connection has a pipeline yet.\<close>

definition init_connected_host :: "string \<Rightarrow> string \<Rightarrow> bool \<Rightarrow> bool \<Rightarrow> coordinator option \<Rightarrow> bool \<Rightarrow> connected_host" where
  "init_connected_host session_id resume_token stt tts coordinator background_status =
     (let state = init_session session_id resume_token;
          blank = \<lparr>cp_epoch = 0, cp_scheduler = init_scheduler state (init_lifecycle 0 0 0 0 tts), cp_lifecycle = False, cp_tts = tts,
                   cp_worker = False, cp_worker_task = False, cp_observing = False, cp_active = False\<rparr> in
      \<lparr>hc_host =
         \<lparr>sh_state = state,
          sh_ack = \<lparr>ah_ledger = init_ledger, ah_pipelines = (\<lambda>_. blank), ah_emitting = [], ah_starts = []\<rparr>,
          sh_arbiter = init_arbiter session_id resume_token, sh_connection = None, sh_work = init_work_ledger, sh_candidates = [],
          sh_coordinator = coordinator, sh_background_status = background_status, sh_closing = False\<rparr>,
       hc_started = False, hc_next = 0, hc_stt = stt, hc_tts = tts, hc_shutdowns = [], hc_supervisor = init_supervisor, hc_frames = [],
       hc_cancels = {}\<rparr>)"

section \<open>Callbacks of a connection\<close>

definition connect_transport_acceptable :: "nat \<Rightarrow> session_host \<Rightarrow> bool" where
  "connect_transport_acceptable i h \<longleftrightarrow> sh_connection h = Some i \<and> cp_active (pipeline_of i h)"

datatype queue_error = NotActiveConnection | NoWorker

text \<open>\<open>correlated\<close>: the service has \<open>correlated_speak_frame\<close>.\<close>

definition speech_frames :: "bool \<Rightarrow> speech_item \<Rightarrow> connection_pipeline \<Rightarrow> speech_frame list" where
  "speech_frames correlated item c =
     (case sc_active (cp_scheduler c) of
        Some lease \<Rightarrow>
          if cp_lifecycle c
          then [MarkerFrame (ul_token lease) (si_utterance_id item) (si_work_item_id item) (si_origin_epoch item)] else []
      | None \<Rightarrow> []) @
     [SpeakFrame (si_text item) (if correlated then Some (si_utterance_id item) else None)]"

definition connect_queue_speech :: "bool \<Rightarrow> bool \<Rightarrow> nat \<Rightarrow> speech_item \<Rightarrow> connected_host \<Rightarrow> connected_host \<times> (queue_error + unit)" where
  "connect_queue_speech tts correlated i item h =
     (let c = pipeline_of i (hc_host h) in
      if \<not> tts \<or> current h \<noteq> Some i \<or> \<not> cp_active c \<or> si_origin_epoch item \<noteq> Some (cp_epoch c) \<or>
         \<not> host_accepts (Some (cp_epoch c)) (hc_host h)
      then (h, Inl NotActiveConnection)
      else if \<not> cp_worker c then (h, Inl NoWorker)
      else (h\<lparr>hc_frames := hc_frames h @ map (Pair i) (speech_frames correlated item c)\<rparr>, Inr ()))"

definition stop_token :: "speech_item option \<Rightarrow> connection_pipeline \<Rightarrow> string option" where
  "stop_token item c =
     (let lc = sc_lifecycle (cp_scheduler c);
          token = (if cp_lifecycle c then ls_slot_token lc else None);
          generation = (case token of None \<Rightarrow> None | Some t \<Rightarrow> map_of (ls_generations lc) t) in
      case item of
        None \<Rightarrow> token
      | Some i \<Rightarrow>
          (case generation of
             None \<Rightarrow> None
           | Some g \<Rightarrow> if gi_utterance_id (gn_identity g) = si_utterance_id i then token else None))"

definition connect_stop_speech :: "bool \<Rightarrow> nat \<Rightarrow> speech_item option \<Rightarrow> connected_host \<Rightarrow> connected_host" where
  "connect_stop_speech tts i item h =
     (let c = pipeline_of i (hc_host h) in
      if \<not> tts \<or> current h \<noteq> Some i \<or> \<not> cp_worker c then h
      else h\<lparr>hc_frames := hc_frames h @ map (Pair i)
               (InterruptionFrame # (case stop_token item c of None \<Rightarrow> [] | Some t \<Rightarrow> [FlushAckFrame t]))\<rparr>)"

definition connect_on_lifecycle_terminal ::
    "nat \<Rightarrow> generation_identity \<Rightarrow> delivery_disposition \<Rightarrow> bool option \<Rightarrow> string \<Rightarrow> connected_host \<Rightarrow> connected_host" where
  "connect_on_lifecycle_terminal i identity disposition acceptance token h =
     (if current h \<noteq> Some i then h
      else
        let h = (if disposition = D_DELIVERY_UNKNOWN then on_host (speech_op i (ScUnknown (gi_utterance_id identity))) h else h);
            c = pipeline_of i (hc_host h) in
        if cp_active c \<and> sc_active (cp_scheduler c) = None then on_host (speech_op i (ScStart acceptance token None)) h else h)"

text \<open>\<open>Some False\<close>: the teardown callable raised; \<open>None\<close>: there is none.\<close>

definition connect_dispatch_lifecycle_teardown :: "nat \<Rightarrow> string \<Rightarrow> bool option \<Rightarrow> connected_host \<Rightarrow> connected_host" where
  "connect_dispatch_lifecycle_teardown i token teardown h =
     (let h = on_host (set_pipeline i (\<lambda>c. c\<lparr>cp_active := False\<rparr>)) h;
          h = (if teardown = Some True \<and> cp_lifecycle (pipeline_of i (hc_host h))
               then on_host (speech_op i (ScLifecycle (OpTeardownComplete token))) h else h) in
      track_background_shutdown i False h)"

datatype tts_event = SynthesisStarted | SynthesisEnded | DeliveryCompleted | DeliveryUnknown

definition tts_event_ops :: "tts_event \<Rightarrow> string \<Rightarrow> connection_pipeline \<Rightarrow> sc_op list" where
  "tts_event_ops event context_id c =
     (case event of
        SynthesisStarted \<Rightarrow> [ScProviderStarted context_id]
      | SynthesisEnded \<Rightarrow> ScProviderSynthesisEnded context_id # (if cp_lifecycle c then [] else [ScProviderUnknown context_id])
      | DeliveryCompleted \<Rightarrow> if cp_lifecycle c then [] else [ScProviderCompleted context_id]
      | DeliveryUnknown \<Rightarrow>
          (case (cp_lifecycle c, map_of (ls_context_tokens (sc_lifecycle (cp_scheduler c))) context_id) of
             (True, Some t) \<Rightarrow> [ScLifecycle (OpProviderError t)]
           | _ \<Rightarrow> [ScProviderUnknown context_id]))"

definition connect_on_tts_event ::
    "nat \<Rightarrow> tts_event \<Rightarrow> string \<Rightarrow> bool option \<Rightarrow> string \<Rightarrow> connected_host \<Rightarrow> connected_host" where
  "connect_on_tts_event i event context_id acceptance token h =
     (let c = pipeline_of i (hc_host h);
          h = (if connect_transport_acceptable i (hc_host h) then on_host (fold (speech_op i) (tts_event_ops event context_id c)) h else h);
          d = pipeline_of i (hc_host h) in
      if \<not> cp_lifecycle c \<and> event \<noteq> SynthesisStarted \<and> connect_transport_acceptable i (hc_host h) \<and> sc_active (cp_scheduler d) = None
      then on_host (speech_op i (ScStart acceptance token None)) h else h)"

text \<open>The worker that the transport attaches to a connection.\<close>

definition attach_worker :: "nat \<Rightarrow> connected_host \<Rightarrow> connected_host" where
  "attach_worker i h = on_host (set_pipeline i (\<lambda>c. c\<lparr>cp_worker := True, cp_worker_task := True\<rparr>)) h"

section \<open>Shutting the host down\<close>

text \<open>
  Turn and work tasks are asked to end; their handlers, and the admission coroutines of acknowledgements, run on by themselves. The
  coordinator ends its own tasks before it forgets them. Recorders are finalized by \<open>Perf_Metrics.finalize_all\<close>.
\<close>

definition host_shutdown_begin :: "connected_host \<Rightarrow> connected_host" where
  "host_shutdown_begin h =
     on_host (\<lambda>s. s\<lparr>sh_closing := True\<rparr>)
       (h\<lparr>hc_cancels := hc_cancels h \<union> pending_tasks (sh_work (hc_host h)), hc_supervisor := cancel_registrations (hc_supervisor h)\<rparr>)"

definition host_shutdown_current :: "connected_host \<Rightarrow> connected_host" where
  "host_shutdown_current h =
     (case current h of
        None \<Rightarrow> h
      | Some i \<Rightarrow>
          track_background_shutdown i False (on_host ((\<lambda>s. s\<lparr>sh_connection := None\<rparr>) \<circ> deactivate_connection False i) h))"

definition host_shutdown_finish :: "connected_host \<Rightarrow> connected_host" where
  "host_shutdown_finish h =
     on_host (set_active_epoch None \<circ> (\<lambda>s. s\<lparr>sh_candidates := []\<rparr>) \<circ> on_ledger clear_all \<circ>
              (\<lambda>s. s\<lparr>sh_coordinator := map_option (shutdown_end \<circ> shutdown_begin None) (sh_coordinator s)\<rparr>))
       (h\<lparr>hc_supervisor := fst (shutdown_runner (hc_supervisor h)), hc_started := False\<rparr>)"

end
