(* ===== verification/Host_Connection_Properties.thy ===== *)
theory Host_Connection_Properties
  imports Host_Connections
begin

text \<open>
  Fencing of connections at the level of the host: in every reachable state at most one connection is
  active, it is the one promoted last, and the session accepts writes of its epoch; frames for the speaker never go back to a
  connection that was superseded. The scheduler of any connection, active or not, may run any of its operations at any time.
\<close>

section \<open>Schedulers leave the active epoch alone\<close>

abbreviation sc_epoch :: "scheduler \<Rightarrow> epoch option" where
  "sc_epoch s \<equiv> ss_active_epoch (sc_state s)"

lemma epoch_emit [simp]:
  "sc_epoch (emit_progress_with override allow d i s) = sc_epoch s" "sc_epoch (emit_progress d i s) = sc_epoch s"
  by (auto simp: emit_progress_def emit_progress_with_def speech_progress_op_def emit_def Let_def split: option.split)

lemma epoch_primitives [simp]:
  "sc_epoch (ack_terminal i r s) = sc_epoch s" "sc_epoch (notify_ack_swept r x s) = sc_epoch s" "sc_epoch (signal_stop x s) = sc_epoch s"
  "sc_epoch (set_queue k q s) = sc_epoch s" "sc_epoch (release u s) = sc_epoch s" "sc_epoch (discard_from_queue x s) = sc_epoch s"
  "sc_epoch (schedule_queue_advance k s) = sc_epoch s"
  by (auto simp: ack_terminal_def notify_ack_swept_def signal_stop_def set_queue_def release_def discard_from_queue_def
      schedule_queue_advance_def split: option.split list.split)

lemma epoch_reject [simp]: "sc_epoch (reject_candidate r c s) = sc_epoch s"
  by (simp add: reject_candidate_def Let_def)

lemma epoch_scan_key: "scan_key acc t k s = Some y \<Longrightarrow> sc_epoch (fst y) = sc_epoch s"
proof (induction rule: scan_key.raw_induct [rotated, consumes 1])
  case (1 scan acc t k s y)
  then show ?case by (auto split: list.splits pre_admission.splits)
qed

lemma epoch_scan_keys: "scan_keys acc t ks s = Some y \<Longrightarrow> sc_epoch (fst y) = sc_epoch s"
proof (induction ks arbitrary: s)
  case (Cons k ks)
  then obtain u r where u: "scan_key acc t k s = Some (u, r)" by (auto split: option.splits)
  with Cons epoch_scan_key [OF u] show ?case by (cases r) auto
qed auto

lemma epoch_start: "start_next acc t w s = Some (u, r) \<Longrightarrow> sc_epoch u = sc_epoch s"
  by (auto simp: start_next_def take_lease_def Let_def split: if_splits option.splits scan.splits prod.splits dest!: epoch_scan_keys epoch_scan_key)

lemma epoch_folds [simp]:
  "sc_epoch (fold (emit_progress d) xs s) = sc_epoch s" "sc_epoch (fold (sweep_item oe d) xs s) = sc_epoch s"
  "sc_epoch (fold cancel_item xs s) = sc_epoch s"
  by (induction xs arbitrary: s) (simp_all add: sweep_item_def cancel_item_def)

lemma epoch_cancel_folds:
  "sc_epoch (fst (fold cancel_queue ks r)) = sc_epoch (fst r)" "sc_epoch (fst (fold cancel_paused ks r)) = sc_epoch (fst r)"
  by (induction ks arbitrary: r)
     (auto simp: cancel_queue_def cancel_paused_def cancel_item_def Let_def split_beta split: option.split)

lemma epoch_finished [simp]: "sc_epoch (delivery_finished d x u s) = sc_epoch s" "sc_epoch (synthesis_ended u s) = sc_epoch s"
  by (auto simp: delivery_finished_def synthesis_ended_def Let_def split: option.split)

lemma epoch_enqueue [simp]: "sc_epoch (fst (enqueue i s)) = sc_epoch s"
  by (auto simp: enqueue_def Let_def split: sum.split)

lemma epoch_enqueued: "enqueue i s = (t, r) \<Longrightarrow> sc_epoch t = sc_epoch s"
  using epoch_enqueue [of i s] by simp

lemma epoch_resume [simp]: "sc_epoch (fst (resume u t s)) = sc_epoch s"
  unfolding resume_def Let_def
  by (simp split: option.split sum.split prod.split resume_target.split) (auto dest!: epoch_enqueued)

lemma epoch_step [simp]: "sc_epoch (sc_step e s) = sc_epoch s"
proof (cases e)
  case (ScAdvance acc t i)
  then show ?thesis by (auto simp: run_advance_def Let_def split: option.split dest!: epoch_start)
next
  case (ScStart acc t w)
  then show ?thesis by (auto split: option.split dest!: epoch_start)
next
  case (ScCancel k)
  then show ?thesis by (auto simp: cancel_def Let_def epoch_cancel_folds split: option.split)
next
  case (ScDiscardNotice k)
  then show ?thesis by (auto simp: discard_queued_notice_def discard_queued_def Let_def)
next
  case (ScDiscardAck k)
  then show ?thesis by (auto simp: discard_queued_ack_def discard_queued_def Let_def split: list.split)
qed (auto simp: submission_done_def submission_failed_def provider_started_def provider_synthesis_ended_def provider_delivery_completed_def
    provider_delivery_unknown_def delivery_completed_def delivery_unknown_def interrupt_def interrupt_lease_def sweep_all_def pause_def Let_def
    split: option.split submission.split)

section \<open>What the parts of the host keep\<close>

lemma speech_op_frame [simp]:
  "sh_connection (speech_op i e h) = sh_connection h" "sh_arbiter (speech_op i e h) = sh_arbiter h" "sh_closing (speech_op i e h) = sh_closing h"
  "cp_active (pipeline_of j (speech_op i e h)) = cp_active (pipeline_of j h)"
  "cp_epoch (pipeline_of j (speech_op i e h)) = cp_epoch (pipeline_of j h)"
  "ss_active_epoch (sh_state (speech_op i e h)) = ss_active_epoch (sh_state h)"
  by (simp_all add: speech_op_def on_scheduler_def with_scheduler_def Let_def pipeline_of_def)

lemma speech_ops_frame [simp]:
  "sh_connection (fold (speech_op i) es h) = sh_connection h" "sh_arbiter (fold (speech_op i) es h) = sh_arbiter h"
  "sh_closing (fold (speech_op i) es h) = sh_closing h"
  "cp_active (pipeline_of j (fold (speech_op i) es h)) = cp_active (pipeline_of j h)"
  "cp_epoch (pipeline_of j (fold (speech_op i) es h)) = cp_epoch (pipeline_of j h)"
  "ss_active_epoch (sh_state (fold (speech_op i) es h)) = ss_active_epoch (sh_state h)"
  by (induction es arbitrary: h) simp_all

lemma set_pipeline_frame [simp]:
  "sh_connection (set_pipeline i f h) = sh_connection h" "sh_arbiter (set_pipeline i f h) = sh_arbiter h"
  "sh_closing (set_pipeline i f h) = sh_closing h" "sh_state (set_pipeline i f h) = sh_state h"
  "pipeline_of j (set_pipeline i f h) = (if j = i then f (pipeline_of i h) else pipeline_of j h)"
  by (simp_all add: set_pipeline_def pipeline_of_def)

lemma deactivate_frame [simp]:
  "sh_connection (deactivate_connection r i h) = sh_connection h" "sh_arbiter (deactivate_connection r i h) = sh_arbiter h"
  "sh_closing (deactivate_connection r i h) = sh_closing h"
  "ss_active_epoch (sh_state (deactivate_connection r i h)) = ss_active_epoch (sh_state h)"
  "cp_active (pipeline_of j (deactivate_connection r i h)) = (j \<noteq> i \<and> cp_active (pipeline_of j h))"
  "cp_epoch (pipeline_of j (deactivate_connection r i h)) = cp_epoch (pipeline_of j h)"
  by (auto simp: deactivate_connection_def Let_def)

lemma shutdown_frame [simp]:
  "sh_connection (shutdown_connection r i h) = sh_connection h" "sh_arbiter (shutdown_connection r i h) = sh_arbiter h"
  "sh_closing (shutdown_connection r i h) = sh_closing h"
  "ss_active_epoch (sh_state (shutdown_connection r i h)) = ss_active_epoch (sh_state h)"
  "cp_active (pipeline_of j (shutdown_connection r i h)) = (j \<noteq> i \<and> cp_active (pipeline_of j h))"
  "cp_epoch (pipeline_of j (shutdown_connection r i h)) = cp_epoch (pipeline_of j h)"
  by (auto simp: shutdown_connection_def Let_def)

lemma set_active_epoch_frame [simp]:
  "sh_connection (set_active_epoch e h) = sh_connection h" "sh_arbiter (set_active_epoch e h) = sh_arbiter h"
  "sh_closing (set_active_epoch e h) = sh_closing h" "pipeline_of j (set_active_epoch e h) = pipeline_of j h"
  "ss_active_epoch (sh_state (set_active_epoch e h)) = e"
  by (simp_all add: set_active_epoch_def on_state_def pipeline_of_def)

lemma host_updates [simp]:
  "pipeline_of j (h\<lparr>sh_connection := c\<rparr>) = pipeline_of j h" "pipeline_of j (h\<lparr>sh_closing := b\<rparr>) = pipeline_of j h"
  "pipeline_of j (h\<lparr>sh_arbiter := a\<rparr>) = pipeline_of j h" "pipeline_of j (h\<lparr>sh_candidates := d\<rparr>) = pipeline_of j h"
  "pipeline_of j (h\<lparr>sh_coordinator := k\<rparr>) = pipeline_of j h"
  "pipeline_of j (on_ledger f h) = pipeline_of j h" "sh_connection (on_ledger f h) = sh_connection h"
  "sh_arbiter (on_ledger f h) = sh_arbiter h" "sh_closing (on_ledger f h) = sh_closing h" "sh_state (on_ledger f h) = sh_state h"
  by (simp_all add: pipeline_of_def on_ledger_def)

section \<open>The fence\<close>

definition fence :: "nat \<Rightarrow> session_host \<Rightarrow> bool" where
  "fence n s \<longleftrightarrow>
     (\<forall>i. cp_active (pipeline_of i s) \<longrightarrow> sh_connection s = Some i) \<and>
     (\<forall>i. sh_connection s = Some i \<longrightarrow> Suc i = n \<and> ss_active_epoch (sh_state s) = Some (cp_epoch (pipeline_of i s))) \<and>
     (case ar_active (sh_arbiter s) of
        None \<Rightarrow> n = 0
      | Some c \<Rightarrow> 0 < n \<and> cn_epoch c = ar_epoch (sh_arbiter s) \<and> cp_epoch (pipeline_of (n - 1) s) = ar_epoch (sh_arbiter s)) \<and>
     (\<forall>i j. i < j \<longrightarrow> j < n \<longrightarrow> cp_epoch (pipeline_of i s) < cp_epoch (pipeline_of j s))"

definition hc_inv :: "connected_host \<Rightarrow> bool" where
  "hc_inv h \<longleftrightarrow>
     fence (hc_next h) (hc_host h) \<and> (\<not> hc_started h \<longrightarrow> current h = None) \<and>
     sorted (map fst (hc_frames h)) \<and> (\<forall>i \<in> fst ` set (hc_frames h). i < hc_next h)"

lemma fence_cong:
  assumes "fence n s" and "sh_connection t = sh_connection s" and "sh_arbiter t = sh_arbiter s"
    and "\<And>i. cp_active (pipeline_of i t) \<Longrightarrow> cp_active (pipeline_of i s)" and "\<And>i. cp_epoch (pipeline_of i t) = cp_epoch (pipeline_of i s)"
    and "ss_active_epoch (sh_state t) = ss_active_epoch (sh_state s)"
  shows "fence n t"
  using assms by (auto simp: fence_def split: option.splits)

lemma fence_drop:
  assumes "fence n s" and "sh_connection t = None" and "sh_arbiter t = sh_arbiter s"
    and "\<And>i. \<not> cp_active (pipeline_of i t)" and "\<And>i. cp_epoch (pipeline_of i t) = cp_epoch (pipeline_of i s)"
  shows "fence n t"
  using assms by (auto simp: fence_def split: option.splits)

lemma promoted_connection:
  assumes "promote hs a = (b, Inr c)"
  shows "ar_active b = Some c \<and> ar_epoch b = cn_epoch c \<and> (ar_active a \<noteq> None \<longrightarrow> ar_epoch a < cn_epoch c)"
  using assms by (auto simp: promote_def Let_def split: sum.splits if_splits)

section \<open>The host as a machine\<close>

datatype hc_op =
    HStart connect_env
  | HConnect connect_env snapshot_handshake
  | HAttach nat
  | HAbort bool nat
  | HBackground nat
  | HSpeech nat sc_op
  | HQueue bool bool nat speech_item
  | HStop bool nat "speech_item option"
  | HTerminal nat generation_identity delivery_disposition "bool option" string
  | HTeardown nat string "bool option"
  | HTts nat tts_event string "bool option" string
  | HShutdownBegin
  | HShutdownCurrent
  | HShutdownFinish

primrec hc_step :: "hc_op \<Rightarrow> connected_host \<Rightarrow> connected_host" where
  "hc_step (HStart env) h = fst (start_host env h)"
| "hc_step (HConnect env hs) h = fst (connect env hs h)"
| "hc_step (HAttach i) h = attach_worker i h"
| "hc_step (HAbort r i) h = abort_connection r i h"
| "hc_step (HBackground k) h = run_background_shutdown k h"
| "hc_step (HSpeech i e) h = on_host (speech_op i e) h"
| "hc_step (HQueue tts correlated i item) h = fst (connect_queue_speech tts correlated i item h)"
| "hc_step (HStop tts i item) h = connect_stop_speech tts i item h"
| "hc_step (HTerminal i g d acc t) h = connect_on_lifecycle_terminal i g d acc t h"
| "hc_step (HTeardown i t b) h = connect_dispatch_lifecycle_teardown i t b h"
| "hc_step (HTts i e x acc t) h = connect_on_tts_event i e x acc t h"
| "hc_step HShutdownBegin h = host_shutdown_begin h"
| "hc_step HShutdownCurrent h = host_shutdown_current h"
| "hc_step HShutdownFinish h = host_shutdown_finish h"

text \<open>The three parts of the shutdown come in the order the code has them.\<close>

definition hc_ok :: "hc_op \<Rightarrow> connected_host \<Rightarrow> bool" where
  "hc_ok e h =
     (case e of
        HShutdownCurrent \<Rightarrow> sh_closing (hc_host h)
      | HShutdownFinish \<Rightarrow> sh_closing (hc_host h) \<and> current h = None
      | _ \<Rightarrow> True)"

lemma on_host_simps [simp]:
  "hc_host (on_host f h) = f (hc_host h)" "hc_next (on_host f h) = hc_next h" "hc_started (on_host f h) = hc_started h"
  "hc_frames (on_host f h) = hc_frames h" "current (on_host f h) = sh_connection (f (hc_host h))"
  "hc_host (track_background_shutdown i r h) = hc_host h" "hc_next (track_background_shutdown i r h) = hc_next h"
  "hc_started (track_background_shutdown i r h) = hc_started h" "hc_frames (track_background_shutdown i r h) = hc_frames h"
  by (simp_all add: on_host_def track_background_shutdown_def current_def)

text \<open>Operations that leave the promotion of connections alone and queue no frame.\<close>

definition unaffected :: "connected_host \<Rightarrow> connected_host \<Rightarrow> bool" where
  "unaffected h k \<longleftrightarrow>
     sh_connection (hc_host k) = sh_connection (hc_host h) \<and> sh_arbiter (hc_host k) = sh_arbiter (hc_host h) \<and>
     (\<forall>i. cp_active (pipeline_of i (hc_host k)) \<longrightarrow> cp_active (pipeline_of i (hc_host h))) \<and>
     (\<forall>i. cp_epoch (pipeline_of i (hc_host k)) = cp_epoch (pipeline_of i (hc_host h))) \<and>
     ss_active_epoch (sh_state (hc_host k)) = ss_active_epoch (sh_state (hc_host h)) \<and>
     hc_next k = hc_next h \<and> hc_started k = hc_started h \<and> hc_frames k = hc_frames h"

lemma unaffected_keeps: "hc_inv h \<Longrightarrow> unaffected h k \<Longrightarrow> hc_inv k"
  by (auto simp: hc_inv_def unaffected_def current_def intro: fence_cong)

lemma unaffected_ops:
  "unaffected h (attach_worker i h)" "unaffected h (run_background_shutdown n h)" "unaffected h (on_host (speech_op i e) h)"
  "unaffected h (connect_on_lifecycle_terminal i g d acc t h)" "unaffected h (connect_dispatch_lifecycle_teardown i t b h)"
  "unaffected h (connect_on_tts_event i x y acc t h)" "unaffected h (host_shutdown_begin h)"
  by (auto simp: unaffected_def attach_worker_def run_background_shutdown_def connect_on_lifecycle_terminal_def
      connect_dispatch_lifecycle_teardown_def connect_on_tts_event_def host_shutdown_begin_def Let_def split_beta)

text \<open>Operations that leave no current connection.\<close>

lemma active_is_current: "hc_inv h \<Longrightarrow> cp_active (pipeline_of i (hc_host h)) \<Longrightarrow> sh_connection (hc_host h) = Some i"
  by (simp add: hc_inv_def fence_def)

lemma hc_inv_drop:
  assumes "hc_inv h" and "current k = None" and "sh_arbiter (hc_host k) = sh_arbiter (hc_host h)"
    and "\<And>i. \<not> cp_active (pipeline_of i (hc_host k))"
    and "\<And>i. cp_epoch (pipeline_of i (hc_host k)) = cp_epoch (pipeline_of i (hc_host h))"
    and "hc_next k = hc_next h" and "hc_frames k = hc_frames h"
  shows "hc_inv k"
  using assms by (auto simp: hc_inv_def current_def intro: fence_drop)

lemma hc_inv_abort: "hc_inv h \<Longrightarrow> hc_inv (abort_connection r i h)"
  unfolding abort_connection_def
  by (cases "current h = Some i") (auto intro!: hc_inv_drop [of h] dest: active_is_current simp: current_def)

lemma hc_inv_shutdown_current: "hc_inv h \<Longrightarrow> hc_inv (host_shutdown_current h)"
  unfolding host_shutdown_current_def
  by (cases "current h") (auto intro!: hc_inv_drop [of h] dest: active_is_current simp: current_def track_background_shutdown_def)

lemma hc_inv_shutdown_finish: "hc_inv h \<Longrightarrow> current h = None \<Longrightarrow> hc_inv (host_shutdown_finish h)"
  unfolding host_shutdown_finish_def by (auto intro!: hc_inv_drop [of h] dest: active_is_current simp: current_def)

lemma hc_inv_start:
  assumes "hc_inv h"
  shows "hc_inv (fst (start_host env h))"
proof (cases "hc_started h")
  case False
  with assms have "current h = None" by (simp add: hc_inv_def)
  with assms have idle: "\<not> cp_active (pipeline_of i (hc_host h))" "sh_connection (hc_host h) = None" for i
    by (auto simp: current_def dest: active_is_current)
  with False assms show ?thesis
    by (auto simp: start_host_def Let_def current_def split: prod.split sum.split intro!: hc_inv_drop [of h])
qed (simp add: start_host_def assms)

lemma start_host_started: "start_host env h = (k, Inr u) \<Longrightarrow> hc_started k"
  by (auto simp: start_host_def Let_def split: if_splits prod.splits sum.splits)

text \<open>Publishing the connection that the arbiter promoted.\<close>

lemma publish_frame:
  "current (publish_connection env c h) = Some (hc_next h)" "hc_next (publish_connection env c h) = hc_next h + 1"
  "hc_started (publish_connection env c h) = hc_started h" "hc_frames (publish_connection env c h) = hc_frames h"
  "sh_arbiter (hc_host (publish_connection env c h)) = sh_arbiter (hc_host h)"
  "ss_active_epoch (sh_state (hc_host (publish_connection env c h))) = Some (cn_epoch c)"
  "cp_epoch (pipeline_of i (hc_host (publish_connection env c h))) = (if i = hc_next h then cn_epoch c else cp_epoch (pipeline_of i (hc_host h)))"
  "cp_active (pipeline_of i (hc_host (publish_connection env c h))) =
     (current h \<noteq> Some i \<and> (i = hc_next h \<or> cp_active (pipeline_of i (hc_host h))))"
  by (auto simp: publish_connection_def retire_old_connection_def new_pipeline_def current_def Let_def split: option.split)

lemma fence_publish:
  assumes "fence n s" and "promote hs (sh_arbiter s) = (a, Inr c)" and "sh_connection t = Some n" and "sh_arbiter t = a"
    and "ss_active_epoch (sh_state t) = Some (cn_epoch c)"
    and "\<And>i. cp_epoch (pipeline_of i t) = (if i = n then cn_epoch c else cp_epoch (pipeline_of i s))"
    and "\<And>i. cp_active (pipeline_of i t) \<Longrightarrow> i = n"
  shows "fence (Suc n) t"
proof -
  have p: "ar_active a = Some c" "ar_epoch a = cn_epoch c" "ar_active (sh_arbiter s) \<noteq> None \<Longrightarrow> ar_epoch (sh_arbiter s) < cn_epoch c"
    using promoted_connection [OF assms(2)] by auto
  have older: "cp_epoch (pipeline_of i s) < cn_epoch c" if "i < n" for i
  proof -
    from that assms(1) p(3) have last: "cp_epoch (pipeline_of (n - 1) s) < cn_epoch c"
      by (auto simp: fence_def split: option.splits)
    show ?thesis
    proof (cases "i = n - 1")
      case False
      with that assms(1) have "cp_epoch (pipeline_of i s) < cp_epoch (pipeline_of (n - 1) s)" by (simp add: fence_def)
      with last show ?thesis by simp
    qed (use last in simp)
  qed
  then show ?thesis using assms p by (auto simp: fence_def less_Suc_eq)
qed

lemma hc_inv_supervisor [simp]: "hc_inv (h\<lparr>hc_supervisor := r\<rparr>) = hc_inv h"
  by (simp add: hc_inv_def current_def)

lemma hc_inv_publish:
  assumes "hc_inv h" and "hc_started h" and "promote hs (sh_arbiter (hc_host h)) = (a, Inr c)"
  shows "hc_inv (publish_connection env c (on_host (\<lambda>s. s\<lparr>sh_arbiter := a\<rparr>) h))"
proof -
  let ?h = "publish_connection env c (on_host (\<lambda>s. s\<lparr>sh_arbiter := a\<rparr>) h)"
  note frame = publish_frame [where h = "on_host (\<lambda>s. s\<lparr>sh_arbiter := a\<rparr>) h", simplified]
  have "fence (hc_next h) (hc_host h)" using assms(1) by (simp add: hc_inv_def)
  then have "fence (Suc (hc_next h)) (hc_host ?h)"
  proof (rule fence_publish [OF _ assms(3)])
    show "sh_connection (hc_host ?h) = Some (hc_next h)" using frame(1) by (simp add: current_def)
    show "i = hc_next h" if "cp_active (pipeline_of i (hc_host ?h))" for i
      using that active_is_current [OF assms(1)] by (auto simp: frame)
  qed (simp_all add: frame)
  with assms(1,2) show ?thesis by (auto simp: hc_inv_def frame)
qed

lemma hc_inv_connect:
  assumes "hc_inv h"
  shows "hc_inv (fst (connect env hs h))"
proof (cases "start_host env h")
  case (Pair k r)
  then have k: "hc_inv k" using hc_inv_start [OF assms, of env] by simp
  show ?thesis
  proof (cases r)
    case (Inr u)
    then have "hc_started k" using Pair start_host_started by simp
    then show ?thesis
      using Inr Pair assms k by (auto simp: connect_def Let_def split: prod.split sum.split intro: hc_inv_publish)
  qed (use Pair assms k in \<open>simp add: connect_def\<close>)
qed

text \<open>Frames are queued for the current connection, which is the one promoted last.\<close>

lemma hc_inv_frames:
  assumes "hc_inv h" and "current h = Some i"
  shows "hc_inv (h\<lparr>hc_frames := hc_frames h @ map (Pair i) fs\<rparr>)"
proof -
  have "Suc i = hc_next h" using assms by (auto simp: hc_inv_def fence_def current_def)
  with assms show ?thesis by (auto simp: hc_inv_def current_def sorted_append comp_def map_replicate_const less_Suc_eq_le dest!: sym [of "Suc i"])
qed

lemma hc_inv_queue: "hc_inv h \<Longrightarrow> hc_inv (fst (connect_queue_speech tts correlated i item h))"
  by (simp add: connect_queue_speech_def Let_def hc_inv_frames)

lemma hc_inv_stop: "hc_inv h \<Longrightarrow> hc_inv (connect_stop_speech tts i item h)"
  unfolding connect_stop_speech_def Let_def by (simp add: hc_inv_frames del: list.map)

lemma hc_step_inv: "hc_inv h \<Longrightarrow> hc_ok e h \<Longrightarrow> hc_inv (hc_step e h)"
  by (cases e)
     (simp_all add: hc_inv_start hc_inv_connect hc_inv_abort hc_inv_queue hc_inv_stop hc_inv_shutdown_current hc_inv_shutdown_finish
       hc_ok_def unaffected_keeps [OF _ unaffected_ops(1)] unaffected_keeps [OF _ unaffected_ops(2)] unaffected_keeps [OF _ unaffected_ops(3)]
       unaffected_keeps [OF _ unaffected_ops(4)] unaffected_keeps [OF _ unaffected_ops(5)] unaffected_keeps [OF _ unaffected_ops(6)]
       unaffected_keeps [OF _ unaffected_ops(7)])

interpretation connections: guarded_machine hc_step hc_ok hc_inv
  by unfold_locales (rule hc_step_inv)

lemma init_hc_inv: "hc_inv (init_connected_host sid token stt tts coordinator status)"
  by (simp add: hc_inv_def fence_def init_connected_host_def init_arbiter_def pipeline_of_def current_def Let_def)

section \<open>Properties\<close>

definition live_connections :: "connected_host \<Rightarrow> nat list" where
  "live_connections h = filter (\<lambda>i. cp_active (pipeline_of i (hc_host h))) [0..<hc_next h]"

lemma current_promoted:
  assumes "hc_inv h" and "current h = Some i"
  shows "hc_next h = Suc i" and "ss_active_epoch (sh_state (hc_host h)) = Some (cp_epoch (pipeline_of i (hc_host h)))"
    and "accepts (Some e) (sh_arbiter (hc_host h)) \<longleftrightarrow> cp_epoch (pipeline_of i (hc_host h)) = e"
proof -
  have f: "fence (hc_next h) (hc_host h)" and c: "sh_connection (hc_host h) = Some i" using assms by (simp_all add: hc_inv_def current_def)
  then show n: "hc_next h = Suc i" and "ss_active_epoch (sh_state (hc_host h)) = Some (cp_epoch (pipeline_of i (hc_host h)))"
    by (simp_all add: fence_def)
  from f n show "accepts (Some e) (sh_arbiter (hc_host h)) \<longleftrightarrow> cp_epoch (pipeline_of i (hc_host h)) = e"
    by (auto simp: fence_def accepts_def split: option.splits)
qed

lemma live_eq:
  assumes "hc_inv h"
  shows "live_connections h = (case current h of None \<Rightarrow> [] | Some i \<Rightarrow> if cp_active (pipeline_of i (hc_host h)) then [i] else [])"
proof (cases "current h")
  case None
  then show ?thesis using active_is_current [OF assms] by (auto simp: live_connections_def filter_empty_conv current_def)
next
  case (Some i)
  then have "filter (\<lambda>j. cp_active (pipeline_of j (hc_host h))) [0..<i] = []"
    using active_is_current [OF assms] by (auto simp: filter_empty_conv current_def)
  then show ?thesis using Some current_promoted(1) [OF assms Some] by (simp add: live_connections_def)
qed

lemma live_epoch_accepted:
  assumes "hc_inv h"
  shows "host_accepts (Some e) (hc_host h) \<longleftrightarrow>
    \<not> sh_closing (hc_host h) \<and> (\<exists>i. live_connections h = [i] \<and> cp_epoch (pipeline_of i (hc_host h)) = e)"
proof (cases "current h")
  case None
  then show ?thesis using live_eq [OF assms] by (simp add: host_accepts_def current_def)
next
  case (Some i)
  then show ?thesis
    using live_eq [OF assms] current_promoted(3) [OF assms Some, of e] by (auto simp: host_accepts_def current_def pipeline_of_def)
qed

text \<open>
  C35. At most one connection is live, it is the current one and was promoted last; the session is fenced to its epoch while there
  is a current connection, the host accepts exactly the epoch of the live connection while it is not closing, and epochs of
  connections strictly increase in the order of promotion. This holds after any start, connect, abort, teardown,
  background shutdown, callback or scheduler operation of any connection, and a shutdown whose parts come in their order.
\<close>
theorem only_the_promoted_connection_is_live:
  assumes "connections.legal ops (init_connected_host sid token stt tts coordinator status)"
    and "h = fold hc_step ops (init_connected_host sid token stt tts coordinator status)"
  shows "(live_connections h = [] \<or> current h = Some (hc_next h - 1) \<and> live_connections h = [hc_next h - 1]) \<and>
    (current h = None \<or> current h = Some (hc_next h - 1) \<and>
       ss_active_epoch (sh_state (hc_host h)) = Some (cp_epoch (pipeline_of (hc_next h - 1) (hc_host h)))) \<and>
    (host_accepts (Some e) (hc_host h) \<longleftrightarrow>
       \<not> sh_closing (hc_host h) \<and> (\<exists>i. live_connections h = [i] \<and> cp_epoch (pipeline_of i (hc_host h)) = e)) \<and>
    sorted_wrt (<) (map (\<lambda>i. cp_epoch (pipeline_of i (hc_host h))) [0..<hc_next h])"
proof -
  have inv: "hc_inv h" unfolding assms(2) by (rule connections.run_inv [OF init_hc_inv assms(1)])
  have "live_connections h = [] \<or> current h = Some (hc_next h - 1) \<and> live_connections h = [hc_next h - 1]"
    using live_eq [OF inv] current_promoted(1) [OF inv] by (cases "current h") auto
  moreover have "current h = None \<or> current h = Some (hc_next h - 1) \<and>
      ss_active_epoch (sh_state (hc_host h)) = Some (cp_epoch (pipeline_of (hc_next h - 1) (hc_host h)))"
    using current_promoted(1,2) [OF inv] by (cases "current h") auto
  moreover have "sorted_wrt (<) (map (\<lambda>i. cp_epoch (pipeline_of i (hc_host h))) [0..<hc_next h])"
    using inv by (auto simp: hc_inv_def fence_def sorted_wrt_iff_nth_less)
  ultimately show ?thesis using live_epoch_accepted [OF inv] by blast
qed



definition demo_connect_env :: connect_env where
  "demo_connect_env =
     \<lparr>ce_api = demo_api, ce_adds = (\<lambda>_. True), ce_workers = [Some ''w''], ce_clock = 0, ce_start_timeout = 1, ce_grace = 1,
      ce_tombstones = 8\<rparr>"

text \<open>Two connections speak in turn; the queue callback of the first comes once more after the second took over, and the host shuts down.\<close>

definition demo_connection_ops :: "hc_op list" where
  "demo_connection_ops =
     [HConnect demo_connect_env (demo_handshake 1 []), HAttach 0, HQueue True False 0 (demo_item ROLE_RESULT ''u''),
      HConnect demo_connect_env (demo_handshake 2 []), HAttach 1, HQueue True False 0 (demo_item ROLE_RESULT ''v''),
      HStop True 0 None, HStop True 1 None, HShutdownBegin, HShutdownCurrent, HBackground 0, HShutdownFinish]"

definition demo_connected :: connected_host where
  "demo_connected = init_connected_host ''s'' ''r'' True True None False"

lemma shutdown_order [simp]:
  "sh_closing (hc_host (host_shutdown_begin h))" "sh_closing (hc_host (host_shutdown_current h)) = sh_closing (hc_host h)"
  "current (host_shutdown_current h) = None" "sh_closing (hc_host (run_background_shutdown k h)) = sh_closing (hc_host h)"
  "current (run_background_shutdown k h) = current h"
  by (simp_all add: host_shutdown_begin_def host_shutdown_current_def run_background_shutdown_def current_def track_background_shutdown_def
      Let_def split_beta split: option.split)

lemma demo_connection_legal: "connections.legal demo_connection_ops demo_connected"
  unfolding demo_connection_ops_def connections.legal.simps hc_ok_def hc_op.case hc_step.simps(12,13,5) by (simp only: shutdown_order simp_thms)

lemma demo_connection_run:
  "(\<lambda>h. hc_next h = 2 \<and> sh_closing (hc_host h) \<and> length (hc_frames h) = 2) (fold hc_step demo_connection_ops demo_connected)"
  by code_simp

lemma only_the_promoted_connection_is_live_witness:
  "let h = fold hc_step demo_connection_ops demo_connected in hc_next h = 2 \<and> \<not> host_accepts (Some 2) (hc_host h) \<and>
     sorted_wrt (<) (map (\<lambda>i. cp_epoch (pipeline_of i (hc_host h))) [0..<hc_next h])"
  using only_the_promoted_connection_is_live [OF demo_connection_legal [unfolded demo_connected_def] refl, folded demo_connected_def]
    demo_connection_run
  by (auto simp: Let_def)


end
