(* ===== verification/Speech_Services.thy ===== *)
theory Speech_Services
  imports Prelude
begin

text \<open>
  The local speech services: the websocket clients (\<open>server/services/ws_clients.py\<close>), the text-to-speech and
  speech-to-text adapters on them (\<open>server/services/tts.py\<close>, \<open>server/services/stt.py\<close>) and the correlation of a
  hosted context with an utterance (\<open>server/services/hosted.py\<close>).

  A websocket is the list of what it delivers: a message, or an exception at that point. A client is a number, and the clients that were
  closed are recorded in order. \<open>run_tts\<close> and \<open>run_stt\<close> are generators; their inputs are the events of the client, exceptions
  of an await or of the consumer, and interruptions of an audio context that run in between. The Pipecat base classes are outside the repository.
\<close>

section \<open>Messages\<close>

datatype event_type = TypeMissing | TypeText string | TypeOther | TypeUnhashable

datatype audio_field = AudioMissing | AudioText string | AudioOther

record ws_event =
  we_type :: event_type
  we_audio :: audio_field
  we_transcript :: "string option"

text \<open>Size in bytes of a binary message, or of the UTF-8 encoding of a text with what \<open>json.loads\<close> makes of it.\<close>

datatype parsed = Not_Json | Not_Object | Object ws_event

datatype raw_message = Binary nat | Text_Message nat parsed

datatype socket_input = Message raw_message | Timed_Out | Closed | Broken

definition has_type :: "string set \<Rightarrow> ws_event \<Rightarrow> bool" where
  "has_type ts e \<longleftrightarrow> (case we_type e of TypeText t \<Rightarrow> t \<in> ts | _ \<Rightarrow> False)"

definition error_event :: ws_event where
  "error_event = \<lparr>we_type = TypeText ''error'', we_audio = AudioMissing, we_transcript = None\<rparr>"

section \<open>Websocket clients\<close>

definition MAX_HANDSHAKE_EVENTS :: nat where "MAX_HANDSHAKE_EVENTS = 128"
definition MAX_EVENT_COUNT :: nat where "MAX_EVENT_COUNT = 4096"
definition MAX_MESSAGE_BYTES :: nat where "MAX_MESSAGE_BYTES = 1024 * 1024"
definition MAX_OPERATION_BYTES :: nat where "MAX_OPERATION_BYTES = 64 * 1024 * 1024"

datatype socket_error =
    UnsupportedTransport
  | SocketRaised
  | BinaryInHandshake
  | MessageLimit
  | NotJson
  | NotDict
  | UnhashableType
  | HandshakeLimit
  | UnexpectedType
  | StreamLimit
  | StreamTimeout

definition dial :: "string \<Rightarrow> string \<Rightarrow> socket_error + string" where
  "dial transport address =
     (if transport = ''uds'' then Inr address
      else if transport \<notin> {''tcp'', ''ws'', ''wss''} then Inl UnsupportedTransport
      else Inr ((if transport = ''wss'' then ''wss'' else ''ws'') @ ''://'' @ address @ ''/''))"

text \<open>The handshake reads the type of what it receives at once, which raises for a value that is no object.\<close>

fun receive_json :: "socket_input list \<Rightarrow> (socket_error + ws_event) \<times> socket_input list" where
  "receive_json [] = (Inl SocketRaised, [])"
| "receive_json (Message (Binary n) # ws) = (Inl BinaryInHandshake, ws)"
| "receive_json (Message (Text_Message n e) # ws) =
     (if n > MAX_MESSAGE_BYTES then Inl MessageLimit
      else case e of Not_Json \<Rightarrow> Inl NotJson | Not_Object \<Rightarrow> Inl NotDict | Object e \<Rightarrow> Inr e, ws)"
| "receive_json (w # ws) = (Inl SocketRaised, ws)"

fun receive_until :: "nat \<Rightarrow> string set \<Rightarrow> socket_input list \<Rightarrow> (socket_error + ws_event) \<times> socket_input list" where
  "receive_until 0 expected ws = (Inl HandshakeLimit, ws)"
| "receive_until (Suc n) expected ws =
     (case receive_json ws of
        (Inl e, ws) \<Rightarrow> (Inl e, ws)
      | (Inr e, ws) \<Rightarrow>
          if we_type e = TypeUnhashable then (Inl UnhashableType, ws)
          else if has_type expected e then (Inr e, ws) else receive_until n expected ws)"

definition stt_client_connect :: "bool \<Rightarrow> socket_input list \<Rightarrow> socket_error + unit" where
  "stt_client_connect language ws =
     (case receive_json ws of
        (Inl e, _) \<Rightarrow> Inl e
      | (Inr hello, ws) \<Rightarrow>
          if \<not> has_type {''server.hello''} hello then Inl UnexpectedType
          else
            (case receive_json ws of
               (Inl e, _) \<Rightarrow> Inl e
             | (Inr created, ws) \<Rightarrow>
                 if \<not> has_type {''session.created''} created then Inl UnexpectedType
                 else if \<not> language then Inr ()
                 else
                   (case fst (receive_until MAX_HANDSHAKE_EVENTS {''session.updated'', ''transcription_session.updated''} ws) of
                      Inl e \<Rightarrow> Inl e
                    | Inr _ \<Rightarrow> Inr ())))"

definition tts_client_connect :: "bool \<Rightarrow> socket_input list \<Rightarrow> socket_error + ws_event" where
  "tts_client_connect voice ws =
     (case receive_json ws of
        (Inl e, _) \<Rightarrow> Inl e
      | (Inr hello, ws) \<Rightarrow>
          if \<not> has_type {''server.hello''} hello then Inl UnexpectedType
          else if \<not> voice then Inr hello
          else
            (case receive_json ws of
               (Inl e, _) \<Rightarrow> Inl e
             | (Inr created, _) \<Rightarrow>
                 if has_type {''session.created'', ''session.updated''} created then Inr hello else Inl UnexpectedType))"

text \<open>The events of a stream (\<open>None\<close>: a JSON value that is no object), and how it ends: exhausted, or with an error.\<close>

definition raw_size :: "raw_message \<Rightarrow> nat" where
  "raw_size m = (case m of Binary n \<Rightarrow> n | Text_Message n _ \<Rightarrow> n)"

fun events :: "nat \<Rightarrow> nat \<Rightarrow> socket_input list \<Rightarrow> ws_event option list \<times> socket_error option" where
  "events event_count byte_count [] = ([], None)"
| "events event_count byte_count (Timed_Out # ws) = ([], Some StreamTimeout)"
| "events event_count byte_count (Closed # ws) = ([Some error_event], None)"
| "events event_count byte_count (Broken # ws) = ([], Some SocketRaised)"
| "events event_count byte_count (Message raw # ws) =
     (let event_count = event_count + 1; byte_count = byte_count + raw_size raw in
      if event_count > MAX_EVENT_COUNT \<or> byte_count > MAX_OPERATION_BYTES then ([], Some StreamLimit)
      else
        case raw of
          Binary _ \<Rightarrow> events event_count byte_count ws
        | Text_Message n e \<Rightarrow>
            if n > MAX_MESSAGE_BYTES then ([], Some MessageLimit)
            else
              (case e of
                 Not_Json \<Rightarrow> events event_count byte_count ws
               | Not_Object \<Rightarrow> let (es, r) = events event_count byte_count ws in (None # es, r)
               | Object e \<Rightarrow> let (es, r) = events event_count byte_count ws in (Some e # es, r)))"

lemma events_bounded: "length (fst (events n b ws)) \<le> (MAX_EVENT_COUNT - n) + 1"
proof (induction ws arbitrary: n b)
  case (Cons w ws)
  show ?case
  proof (cases w)
    case (Message raw)
    then show ?thesis
      using Cons.IH [of "n + 1" "b + raw_size raw"]
      by (cases raw) (auto simp: Let_def split_beta split: parsed.split)
  qed simp_all
qed simp

section \<open>Base64\<close>

text \<open>\<open>base64.b64decode\<close> with \<open>validate=True\<close>.\<close>

definition b64_value :: "char \<Rightarrow> nat option" where
  "b64_value c =
     (let n = of_char c in
      if 65 \<le> n \<and> n \<le> 90 then Some (n - 65)
      else if 97 \<le> n \<and> n \<le> 122 then Some (n - 71)
      else if 48 \<le> n \<and> n \<le> 57 then Some (n + 4)
      else if n = 43 then Some 62 else if n = 47 then Some 63 else None)"

definition b64_group :: "nat \<Rightarrow> nat \<Rightarrow> nat \<Rightarrow> nat \<Rightarrow> nat list" where
  "b64_group a b c d = [a * 4 + b div 16, (b mod 16) * 16 + c div 4, (c mod 4) * 64 + d]"

fun b64decode :: "string \<Rightarrow> nat list option" where
  "b64decode [] = Some []"
| "b64decode (a # b # c # d # cs) =
     (case (b64_value a, b64_value b) of
        (Some x, Some y) \<Rightarrow>
          if c = CHR ''='' then (if d = CHR ''='' \<and> cs = [] then Some (take 1 (b64_group x y 0 0)) else None)
          else
            (case b64_value c of
               None \<Rightarrow> None
             | Some z \<Rightarrow>
                 if d = CHR ''='' then (if cs = [] then Some (take 2 (b64_group x y z 0)) else None)
                 else
                   (case (b64_value d, b64decode cs) of
                      (Some w, Some bs) \<Rightarrow> Some (b64_group x y z w @ bs)
                    | _ \<Rightarrow> None))
      | _ \<Rightarrow> None)"
| "b64decode _ = None"

lemma b64_value_bound: "b64_value c = Some v \<Longrightarrow> v < 64"
  by (auto simp: b64_value_def Let_def split: if_splits)

lemma b64decode_bytes: "b64decode cs = Some bs \<Longrightarrow> list_all (\<lambda>b. b < 256) bs \<and> 4 * length bs \<le> 3 * length cs"
  by (induction cs arbitrary: bs rule: b64decode.induct)
     (auto simp: b64_group_def split: option.splits if_splits dest!: b64_value_bound)

section \<open>Text to speech\<close>

definition ends_with :: "string \<Rightarrow> string \<Rightarrow> bool" where
  "ends_with t s \<longleftrightarrow> drop (length s - length t) s = t"

datatype tts_frame = StartedFrame string | AudioFrame "nat list" int string | StoppedFrame string

record tts_service =
  tt_started :: bool
  tt_on_event :: bool
  tt_rate :: int
  tt_max_events :: nat
  tt_max_audio :: nat
  tt_client :: "nat option"
  tt_contexts :: "(string, nat) dict"
  tt_next :: nat
  tt_closed :: "nat list"
  tt_callbacks :: "(string \<times> string) list"
  tt_frames :: "tts_frame list"

definition init_tts :: "bool \<Rightarrow> int \<Rightarrow> nat \<Rightarrow> nat \<Rightarrow> tts_service" where
  "init_tts on_event rate max_events max_audio =
     \<lparr>tt_started = False, tt_on_event = on_event, tt_rate = rate, tt_max_events = max_events, tt_max_audio = max_audio, tt_client = None,
      tt_contexts = [], tt_next = 0, tt_closed = [], tt_callbacks = [], tt_frames = []\<rparr>"

definition tts_for_connection :: "tts_service \<Rightarrow> tts_service" where
  "tts_for_connection s = init_tts (tt_on_event s) (tt_rate s) (tt_max_events s) (tt_max_audio s)"

text \<open>
  What the world answers during one synthesis: the handshake (\<open>None\<close>: it raises; else the advertised rate), whether text is accepted,
  which callbacks return, and whether closing a client returns.
\<close>

record tts_env =
  te_hello :: "int option option"
  te_append :: bool
  te_callback :: "string \<Rightarrow> bool"
  te_close :: bool

datatype tts_error =
    NotStarted
  | ConnectRaised
  | AppendRaised
  | CallbackRaised
  | EventLimit
  | InvalidAudio
  | AudioLimit
  | ProviderError
  | StreamEnded
  | Interrupted

definition tts_abort_client :: "nat \<Rightarrow> tts_service \<Rightarrow> tts_service" where
  "tts_abort_client c s =
     s\<lparr>tt_client := (if tt_client s = Some c then None else tt_client s), tt_contexts := filter (\<lambda>(k, v). v \<noteq> c) (tt_contexts s),
       tt_closed := tt_closed s @ [c]\<rparr>"

definition tts_cleanup :: "tts_service \<Rightarrow> tts_service" where
  "tts_cleanup s = (case tt_client s of None \<Rightarrow> s | Some c \<Rightarrow> tts_abort_client c s)"

definition tts_connect :: "int option option \<Rightarrow> tts_service \<Rightarrow> tts_service \<times> (tts_error + nat)" where
  "tts_connect hello s =
     (case tt_client s of
        Some c \<Rightarrow> (s, Inr c)
      | None \<Rightarrow>
          let c = tt_next s; s = s\<lparr>tt_client := Some c, tt_next := c + 1\<rparr> in
          (case hello of
             None \<Rightarrow> (tts_abort_client c s, Inl ConnectRaised)
           | Some rate \<Rightarrow>
               (case rate of Some r \<Rightarrow> if r > 0 then s\<lparr>tt_rate := r\<rparr> else s | None \<Rightarrow> s, Inr c)))"

definition tts_notify :: "string \<Rightarrow> string \<Rightarrow> tts_service \<Rightarrow> tts_service" where
  "tts_notify event context_id s = (if tt_on_event s then s\<lparr>tt_callbacks := tt_callbacks s @ [(event, context_id)]\<rparr> else s)"

definition on_audio_context_interrupted :: "string \<Rightarrow> tts_service \<Rightarrow> tts_service" where
  "on_audio_context_interrupted context_id s =
     (case map_of (tt_contexts s) context_id of
        None \<Rightarrow> s
      | Some c \<Rightarrow> tts_abort_client c (s\<lparr>tt_contexts := AList.delete context_id (tt_contexts s)\<rparr>))"

text \<open>The \<open>finally\<close> block of \<open>run_tts\<close>; the client is the one the generator started with.\<close>

definition run_tts_finally :: "tts_env \<Rightarrow> string \<Rightarrow> nat \<Rightarrow> bool \<Rightarrow> tts_service \<Rightarrow> tts_service" where
  "run_tts_finally env context_id c completed s =
     (let s = (if map_of (tt_contexts s) context_id = Some c then s\<lparr>tt_contexts := AList.delete context_id (tt_contexts s)\<rparr> else s) in
      if completed then s
      else
        let s = tts_abort_client c s in
        if te_close env then tts_notify ''delivery_unknown'' context_id s else s)"

definition run_tts_raise :: "tts_env \<Rightarrow> string \<Rightarrow> nat \<Rightarrow> tts_error \<Rightarrow> tts_service \<Rightarrow> tts_service \<times> (tts_error + unit)" where
  "run_tts_raise env context_id c e s = (run_tts_finally env context_id c False s, Inl e)"

datatype tts_input = TtsEvent "ws_event option" | TtsRaises | TtsContextInterrupted string

definition audio_of :: "ws_event \<Rightarrow> nat list option" where
  "audio_of e = (case we_audio e of AudioText t \<Rightarrow> b64decode t | _ \<Rightarrow> None)"

definition put_tts_frame :: "tts_frame \<Rightarrow> tts_service \<Rightarrow> tts_service" where
  "put_tts_frame f s = s\<lparr>tt_frames := tt_frames s @ [f]\<rparr>"

definition run_tts_completed :: "tts_env \<Rightarrow> string \<Rightarrow> nat \<Rightarrow> tts_service \<Rightarrow> tts_service \<times> (tts_error + unit)" where
  "run_tts_completed env context_id c s =
     (let s = tts_notify ''synthesis_ended'' context_id s in
      if tt_on_event s \<and> \<not> te_callback env ''synthesis_ended'' then (run_tts_finally env context_id c True s, Inl CallbackRaised)
      else (run_tts_finally env context_id c True (put_tts_frame (StoppedFrame context_id) s), Inr ()))"

fun run_tts_events ::
    "tts_env \<Rightarrow> string \<Rightarrow> nat \<Rightarrow> nat \<Rightarrow> nat \<Rightarrow> tts_input list \<Rightarrow> tts_service \<Rightarrow> tts_service \<times> (tts_error + unit)" where
  "run_tts_events env context_id c event_count audio_bytes [] s = run_tts_raise env context_id c StreamEnded s"
| "run_tts_events env context_id c event_count audio_bytes (TtsRaises # inputs) s = run_tts_raise env context_id c Interrupted s"
| "run_tts_events env context_id c event_count audio_bytes (TtsContextInterrupted other # inputs) s =
     run_tts_events env context_id c event_count audio_bytes inputs (on_audio_context_interrupted other s)"
| "run_tts_events env context_id c event_count audio_bytes (TtsEvent event # inputs) s =
     (let event_count = event_count + 1 in
      if event_count > tt_max_events s then run_tts_raise env context_id c EventLimit s
      else
        case event of
          None \<Rightarrow> run_tts_raise env context_id c Interrupted s
        | Some e \<Rightarrow>
            (case we_type e of
               TypeMissing \<Rightarrow> run_tts_events env context_id c event_count audio_bytes inputs s
             | TypeText kind \<Rightarrow>
                 if ends_with ''audio.delta'' kind then
                   (case audio_of e of
                      None \<Rightarrow> run_tts_raise env context_id c InvalidAudio s
                    | Some audio \<Rightarrow>
                        let audio_bytes = audio_bytes + length audio in
                        if audio_bytes > tt_max_audio s then run_tts_raise env context_id c AudioLimit s
                        else run_tts_events env context_id c event_count audio_bytes inputs (put_tts_frame (AudioFrame audio (tt_rate s) context_id) s))
                 else if ends_with ''audio.done'' kind \<or> ends_with ''cancelled'' kind then run_tts_completed env context_id c s
                 else if kind \<in> {''error'', ''response.failed''} then run_tts_raise env context_id c ProviderError s
                 else run_tts_events env context_id c event_count audio_bytes inputs s
             | _ \<Rightarrow> run_tts_raise env context_id c Interrupted s))"

definition run_tts :: "tts_env \<Rightarrow> string \<Rightarrow> tts_input list \<Rightarrow> tts_service \<Rightarrow> tts_service \<times> (tts_error + unit)" where
  "run_tts env context_id inputs s =
     (if \<not> tt_started s then (s, Inl NotStarted)
      else
        case tts_connect (te_hello env) s of
          (s, Inl e) \<Rightarrow> (s, Inl e)
        | (s, Inr c) \<Rightarrow>
            let s = s\<lparr>tt_contexts := AList.update context_id c (tt_contexts s)\<rparr> in
            if \<not> te_append env then run_tts_raise env context_id c AppendRaised s
            else
              let s = tts_notify ''synthesis_started'' context_id s in
              if tt_on_event s \<and> \<not> te_callback env ''synthesis_started'' then run_tts_raise env context_id c CallbackRaised s
              else run_tts_events env context_id c 0 0 inputs (put_tts_frame (StartedFrame context_id) s))"

section \<open>Speech to text\<close>

datatype stt_frame = TranscriptionFrame string | ErrorFrame

record stt_service =
  sv_started :: bool
  sv_on_final :: bool
  sv_client :: "nat option"
  sv_next :: nat
  sv_closed :: "nat list"
  sv_frames :: "stt_frame list"
  sv_finals :: "string list"

definition init_stt :: "bool \<Rightarrow> stt_service" where
  "init_stt on_final =
     \<lparr>sv_started = False, sv_on_final = on_final, sv_client = None, sv_next = 0, sv_closed = [], sv_frames = [], sv_finals = []\<rparr>"

definition stt_for_connection :: "stt_service \<Rightarrow> stt_service" where
  "stt_for_connection s = init_stt (sv_on_final s)"

text \<open>Whether a new client connects, the audio is accepted, and the consumer of the generator goes on after a frame.\<close>

record stt_env =
  se_connect :: bool
  se_send :: bool
  se_resume :: bool

datatype stt_error = SttNotStarted | SttConnectRaised | SttSendRaised | SttStreamRaised | SttConsumerLeft

definition stt_abort_client :: "nat \<Rightarrow> stt_service \<Rightarrow> stt_service" where
  "stt_abort_client c s = s\<lparr>sv_client := (if sv_client s = Some c then None else sv_client s), sv_closed := sv_closed s @ [c]\<rparr>"

definition stt_cleanup :: "stt_service \<Rightarrow> stt_service" where
  "stt_cleanup s = (case sv_client s of None \<Rightarrow> s | Some c \<Rightarrow> stt_abort_client c s)"

definition put_stt_frame :: "stt_frame \<Rightarrow> stt_service \<Rightarrow> stt_service" where
  "put_stt_frame f s = s\<lparr>sv_frames := sv_frames s @ [f]\<rparr>"

definition stt_failed :: "stt_env \<Rightarrow> nat \<Rightarrow> stt_service \<Rightarrow> stt_service \<times> (stt_error + unit)" where
  "stt_failed env c s =
     (let s = put_stt_frame ErrorFrame (stt_abort_client c s) in
      if se_resume env then (s, Inr ()) else (stt_abort_client c s, Inl SttConsumerLeft))"

definition stt_completed :: "stt_env \<Rightarrow> nat \<Rightarrow> string \<Rightarrow> stt_service \<Rightarrow> stt_service \<times> (stt_error + unit)" where
  "stt_completed env c text s =
     (if text = [] then (s, Inr ())
      else
        let s = put_stt_frame (TranscriptionFrame text) s in
        if \<not> se_resume env then (stt_abort_client c s, Inl SttConsumerLeft)
        else (if sv_on_final s then s\<lparr>sv_finals := sv_finals s @ [text]\<rparr> else s, Inr ()))"

datatype stt_input = SttEvent "ws_event option" | SttRaises

fun run_stt_events :: "stt_env \<Rightarrow> nat \<Rightarrow> stt_input list \<Rightarrow> stt_service \<Rightarrow> stt_service \<times> (stt_error + unit)" where
  "run_stt_events env c [] s = stt_failed env c s"
| "run_stt_events env c (SttRaises # inputs) s = (stt_abort_client c s, Inl SttStreamRaised)"
| "run_stt_events env c (SttEvent None # inputs) s = (stt_abort_client c s, Inl SttStreamRaised)"
| "run_stt_events env c (SttEvent (Some e) # inputs) s =
     (case we_type e of
        TypeMissing \<Rightarrow> run_stt_events env c inputs s
      | TypeText kind \<Rightarrow>
          if ends_with ''transcription.completed'' kind
          then stt_completed env c (case we_transcript e of None \<Rightarrow> [] | Some t \<Rightarrow> t) s
          else if kind = ''error'' then stt_failed env c s
          else run_stt_events env c inputs s
      | _ \<Rightarrow> (stt_abort_client c s, Inl SttStreamRaised))"

definition run_stt :: "stt_env \<Rightarrow> stt_input list \<Rightarrow> stt_service \<Rightarrow> stt_service \<times> (stt_error + unit)" where
  "run_stt env inputs s =
     (if \<not> sv_started s then (s, Inl SttNotStarted)
      else
        let fresh = (sv_client s = None);
            c = (case sv_client s of None \<Rightarrow> sv_next s | Some c \<Rightarrow> c);
            s = (if fresh then s\<lparr>sv_client := Some c, sv_next := c + 1\<rparr> else s) in
        if fresh \<and> \<not> se_connect env then (stt_abort_client c s, Inl SttConnectRaised)
        else if \<not> se_send env then (stt_abort_client c s, Inl SttSendRaised)
        else run_stt_events env c inputs s)"

section \<open>Correlated contexts\<close>

text \<open>
  \<open>base\<close> is \<open>process_frame\<close> of the Pipecat service, which asks \<open>create_context_id\<close>; \<open>frame\<close> carries the correlation id of
  a \<open>CorrelatedTTSSpeakFrame\<close>. The previous id comes back even when \<open>base\<close> raises.
\<close>

definition create_context_id :: "string \<Rightarrow> string option \<Rightarrow> string" where
  "create_context_id fresh correlated = (case correlated of Some c \<Rightarrow> c | None \<Rightarrow> fresh)"

definition process_correlated_frame ::
    "((string \<Rightarrow> string) \<Rightarrow> 's \<Rightarrow> 's \<times> (unit + unit)) \<Rightarrow> string option \<Rightarrow> string option \<times> 's \<Rightarrow> (string option \<times> 's) \<times> (unit + unit)" where
  "process_correlated_frame base frame s =
     (let (correlated, t) = s; now = (case frame of Some c \<Rightarrow> Some c | None \<Rightarrow> correlated);
          (t, r) = base (\<lambda>fresh. create_context_id fresh now) t in
      ((correlated, t), r))"

text \<open>A segment gives at most one frame, and the client outlives it only when a transcription completed.\<close>

lemma run_stt_events_settles:
  assumes "run_stt_events env c inputs s = (t, r)" and "sv_client s = Some c"
  shows "\<exists>fs. sv_frames t = sv_frames s @ fs \<and> length fs \<le> 1 \<and>
    (sv_client t = None \<and> c \<in> set (sv_closed t) \<and> sv_finals t = sv_finals s \<or>
     sv_client t = Some c \<and> r = Inr () \<and> sv_finals t = sv_finals s @ (if sv_on_final s then [x. TranscriptionFrame x \<leftarrow> fs] else []))"
  using assms
  by (induction env c inputs s rule: run_stt_events.induct)
     (auto simp: stt_failed_def stt_completed_def stt_abort_client_def put_stt_frame_def Let_def split: event_type.splits if_splits option.splits)

section \<open>Every utterance settles\<close>

abbreviation tts_terminal :: "string \<Rightarrow> bool" where
  "tts_terminal e \<equiv> e = ''synthesis_ended'' \<or> e = ''delivery_unknown''"

definition audio_bytes_of :: "tts_frame list \<Rightarrow> nat" where
  "audio_bytes_of fs = (\<Sum>f\<leftarrow>fs. case f of AudioFrame bs _ _ \<Rightarrow> length bs | _ \<Rightarrow> 0)"

lemma audio_bytes_append [simp]: "audio_bytes_of (fs @ gs) = audio_bytes_of fs + audio_bytes_of gs"
  by (simp add: audio_bytes_of_def)

text \<open>How the rest of a synthesis ends, from a state \<open>s\<close> in which \<open>n\<close> events and \<open>b\<close> bytes were seen.\<close>

definition tts_settled :: "string \<Rightarrow> nat \<Rightarrow> nat \<Rightarrow> nat \<Rightarrow> tts_service \<Rightarrow> tts_service \<Rightarrow> (tts_error + unit) \<Rightarrow> bool" where
  "tts_settled context_id c n b s t r \<longleftrightarrow>
     (\<exists>event audio.
        tt_callbacks t = tt_callbacks s @ [(event, context_id)] \<and> tts_terminal event \<and>
        tt_frames t = tt_frames s @ audio @ (if r = Inr () then [StoppedFrame context_id] else []) \<and>
        list_all (\<lambda>f. case f of AudioFrame _ _ k \<Rightarrow> k = context_id | _ \<Rightarrow> False) audio \<and>
        length audio \<le> tt_max_events s - n \<and> audio_bytes_of audio \<le> tt_max_audio s - b \<and>
        (r = Inr () \<longrightarrow> event = ''synthesis_ended'') \<and>
        (event = ''delivery_unknown'' \<longrightarrow> c \<in> set (tt_closed t) \<and> tt_client t \<noteq> Some c \<and> c \<notin> snd ` set (tt_contexts t))) \<and>
     map_of (tt_contexts t) context_id \<noteq> Some c"

lemma tts_frames_of_abort [simp]:
  "tt_callbacks (tts_abort_client c s) = tt_callbacks s" "tt_frames (tts_abort_client c s) = tt_frames s"
  "tt_on_event (tts_abort_client c s) = tt_on_event s" "tt_max_events (tts_abort_client c s) = tt_max_events s"
  "tt_max_audio (tts_abort_client c s) = tt_max_audio s"
  by (simp_all add: tts_abort_client_def)

lemma tts_frames_of_interrupt [simp]:
  "tt_callbacks (on_audio_context_interrupted k s) = tt_callbacks s" "tt_frames (on_audio_context_interrupted k s) = tt_frames s"
  "tt_on_event (on_audio_context_interrupted k s) = tt_on_event s" "tt_max_events (on_audio_context_interrupted k s) = tt_max_events s"
  "tt_max_audio (on_audio_context_interrupted k s) = tt_max_audio s"
  by (simp_all add: on_audio_context_interrupted_def split: option.split)

lemma run_tts_raise_settles:
  assumes "te_close env" and "tt_on_event s"
  shows "tts_settled k c n b s (fst (run_tts_raise env k c e s)) (snd (run_tts_raise env k c e s))"
  using assms
  by (auto simp: tts_settled_def run_tts_raise_def run_tts_finally_def tts_notify_def tts_abort_client_def Let_def audio_bytes_of_def
      dest!: map_of_SomeD)

lemma run_tts_completed_settles:
  assumes "tt_on_event s"
  shows "tts_settled k c n b s (fst (run_tts_completed env k c s)) (snd (run_tts_completed env k c s))"
  using assms
  by (auto simp: tts_settled_def run_tts_completed_def run_tts_finally_def tts_notify_def put_tts_frame_def Let_def audio_bytes_of_def)

lemma tts_settled_skip: "tts_settled k c (Suc n) b s t r \<Longrightarrow> tts_settled k c n b s t r"
  unfolding tts_settled_def
  apply (elim exE conjE)
  subgoal for event audio by (intro conjI exI [of _ event] exI [of _ audio]) auto
  done

lemma tts_settled_audio:
  assumes "tts_settled k c (Suc n) (b + length bs) (put_tts_frame (AudioFrame bs rate k) s) t r"
    and "Suc n \<le> tt_max_events s" and "b + length bs \<le> tt_max_audio s"
  shows "tts_settled k c n b s t r"
  using assms unfolding tts_settled_def
  apply (elim exE conjE)
  subgoal for event audio
    by (intro conjI exI [of _ event] exI [of _ "AudioFrame bs rate k # audio"]) (auto simp: put_tts_frame_def audio_bytes_of_def)
  done

lemma tts_settled_interrupt: "tts_settled k c n b (on_audio_context_interrupted j s) t r \<Longrightarrow> tts_settled k c n b s t r"
  by (simp add: tts_settled_def)

lemma put_tts_frame_simps [simp]:
  "tt_on_event (put_tts_frame f s) = tt_on_event s" "tt_max_events (put_tts_frame f s) = tt_max_events s"
  "tt_max_audio (put_tts_frame f s) = tt_max_audio s" "tt_callbacks (put_tts_frame f s) = tt_callbacks s"
  "tt_frames (put_tts_frame f s) = tt_frames s @ [f]"
  by (simp_all add: put_tts_frame_def)

lemma run_tts_event_settles:
  assumes env: "te_close env" "tt_on_event s"
    and rest: "\<And>b s. tt_on_event s \<Longrightarrow>
      tts_settled k c (Suc n) b s (fst (run_tts_events env k c (Suc n) b inputs s)) (snd (run_tts_events env k c (Suc n) b inputs s))"
  shows "tts_settled k c n b s (fst (run_tts_events env k c n b (TtsEvent event # inputs) s)) (snd (run_tts_events env k c n b (TtsEvent event # inputs) s))"
proof -
  note settles = run_tts_raise_settles [OF env] run_tts_completed_settles [OF env(2)]
  note rest = tts_settled_skip [OF rest [OF env(2)]] tts_settled_audio [OF rest]
  show ?thesis
    by (cases event) (auto simp: Let_def settles env intro!: rest split: event_type.split option.split)
qed

lemma run_tts_events_settles:
  assumes "te_close env" and "tt_on_event s"
  shows "tts_settled k c n b s (fst (run_tts_events env k c n b inputs s)) (snd (run_tts_events env k c n b inputs s))"
  using assms(2)
proof (induction inputs arbitrary: n b s)
  case (Cons i inputs)
  then show ?case
  proof (cases i)
    case (TtsEvent event)
    then show ?thesis using run_tts_event_settles [OF assms(1) Cons.prems Cons.IH] by simp
  next
    case (TtsContextInterrupted j)
    then show ?thesis using tts_settled_interrupt [OF Cons.IH] Cons.prems by simp
  qed (simp add: run_tts_raise_settles assms(1))
qed (simp add: run_tts_raise_settles assms(1))

text \<open>The state in which the generator enters its \<open>try\<close> block.\<close>

lemma tts_connect_frame:
  assumes "tts_connect hello s = (t, Inr c)"
  shows "tt_callbacks t = tt_callbacks s" and "tt_frames t = tt_frames s" and "tt_on_event t = tt_on_event s"
    and "tt_max_events t = tt_max_events s" and "tt_max_audio t = tt_max_audio s" and "tt_client t = Some c"
  using assms by (auto simp: tts_connect_def Let_def split: option.splits if_splits)

lemma tts_connect_returns: "hello \<noteq> None \<or> tt_client s \<noteq> None \<Longrightarrow> \<exists>t c. tts_connect hello s = (t, Inr c)"
  by (auto simp: tts_connect_def Let_def split: option.split)

lemma tts_settled_lift:
  assumes "tts_settled k c 0 0 x t r" and "tt_callbacks x = tt_callbacks s @ started" and "started \<in> {[], [(''synthesis_started'', k)]}"
    and "tt_frames x = tt_frames s @ fs" and "fs \<in> {[], [StartedFrame k]}"
    and "tt_max_events x = tt_max_events s" and "tt_max_audio x = tt_max_audio s"
  shows "\<exists>c started event frames.
    tt_callbacks t = tt_callbacks s @ started @ [(event, k)] \<and> started \<in> {[], [(''synthesis_started'', k)]} \<and>
    tt_frames t = tt_frames s @ frames \<and> event \<in> {''synthesis_ended'', ''delivery_unknown''} \<and>
    (r = Inr () \<longrightarrow> event = ''synthesis_ended'' \<and> frames \<noteq> [] \<and> last frames = StoppedFrame k) \<and>
    (event = ''delivery_unknown'' \<longrightarrow> c \<in> set (tt_closed t) \<and> tt_client t \<noteq> Some c \<and> c \<notin> snd ` set (tt_contexts t)) \<and>
    map_of (tt_contexts t) k \<noteq> Some c \<and> audio_bytes_of frames \<le> tt_max_audio s \<and> length frames \<le> tt_max_events s + 2"
proof -
  from assms(1) obtain event audio where
      e: "tt_callbacks t = tt_callbacks x @ [(event, k)]" "tts_terminal event"
        "tt_frames t = tt_frames x @ audio @ (if r = Inr () then [StoppedFrame k] else [])"
      and bounds: "length audio \<le> tt_max_events x - 0" "audio_bytes_of audio \<le> tt_max_audio x - 0"
      and kept: "r = Inr () \<longrightarrow> event = ''synthesis_ended''" "map_of (tt_contexts t) k \<noteq> Some c"
        "event = ''delivery_unknown'' \<longrightarrow> c \<in> set (tt_closed t) \<and> tt_client t \<noteq> Some c \<and> c \<notin> snd ` set (tt_contexts t)"
    unfolding tts_settled_def by (elim exE conjE) (rule that, assumption+)
  define frames where "frames = fs @ audio @ (if r = Inr () then [StoppedFrame k] else [])"
  have "audio_bytes_of frames \<le> tt_max_audio s" "length frames \<le> tt_max_events s + 2"
    using bounds assms(5-7) by (auto simp: frames_def audio_bytes_of_def)
  moreover have "tt_frames t = tt_frames s @ frames" "tt_callbacks t = tt_callbacks s @ started @ [(event, k)]"
    using e assms(2,4) by (simp_all add: frames_def)
  moreover have "r = Inr () \<longrightarrow> event = ''synthesis_ended'' \<and> frames \<noteq> [] \<and> last frames = StoppedFrame k"
    using kept(1) by (simp add: frames_def)
  moreover have "event \<in> {''synthesis_ended'', ''delivery_unknown''}" using e(2) by simp
  ultimately show ?thesis using kept(2,3) assms(3) by blast
qed


definition demo_tts :: tts_service where
  "demo_tts = (init_tts True 24000 4096 1000)\<lparr>tt_started := True\<rparr>"

definition demo_tts_env :: tts_env where
  "demo_tts_env = \<lparr>te_hello = Some (Some 16000), te_append = True, te_callback = (\<lambda>_. True), te_close = True\<rparr>"

definition demo_tts_inputs :: "tts_input list" where
  "demo_tts_inputs =
     [TtsEvent (Some \<lparr>we_type = TypeText ''response.audio.delta'', we_audio = AudioText ''AQID'', we_transcript = None\<rparr>),
      TtsContextInterrupted ''u'', TtsEvent (Some error_event)]"


end
