(* ===== verification/Preflight.thy ===== *)
theory Preflight
  imports Configuration_Loading Speech_Services
begin

text \<open>
  The preflight of the speech endpoints (\<open>server/preflight.py\<close>) and the construction of the speech services from a configuration
  (\<open>server/services/factory.py\<close>). A probe answers discovery and health checks or raises (the name of the exception class);
  the handshakes of the configured probe read a websocket as in \<open>Speech_Services\<close>.
\<close>

section \<open>The configured probe\<close>

definition empty_event :: ws_event where
  "empty_event = \<lparr>we_type = TypeMissing, we_audio = AudioMissing, we_transcript = None\<rparr>"

fun probe_receive_json :: "socket_input list \<Rightarrow> (string + ws_event) \<times> socket_input list" where
  "probe_receive_json (Message (Binary n) # ws) = (Inr empty_event, ws)"
| "probe_receive_json (Message (Text_Message n e) # ws) =
     (case e of Not_Json \<Rightarrow> Inl ''JSONDecodeError'' | Not_Object \<Rightarrow> Inr empty_event | Object e \<Rightarrow> Inr e, ws)"
| "probe_receive_json (Closed # ws) = (Inl ''ConnectionClosed'', ws)"
| "probe_receive_json (Broken # ws) = (Inl ''OSError'', ws)"
| "probe_receive_json (Timed_Out # ws) = (Inl ''TimeoutError'', ws)"
| "probe_receive_json [] = (Inl ''TimeoutError'', [])"

fun probe_receive_until :: "nat \<Rightarrow> string set \<Rightarrow> socket_input list \<Rightarrow> string + bool" where
  "probe_receive_until 0 expected ws = Inr False"
| "probe_receive_until (Suc n) expected ws =
     (case probe_receive_json ws of
        (Inl e, _) \<Rightarrow> Inl e
      | (Inr e, ws) \<Rightarrow>
          if we_type e = TypeUnhashable then Inl ''TypeError''
          else if has_type expected e then Inr True
          else if has_type {''error'', ''response.failed''} e then Inr False
          else probe_receive_until n expected ws)"

definition probe_discover :: "config \<Rightarrow> string \<Rightarrow> string + string \<times> string" where
  "probe_discover c service =
     (let provider = (if service = ''stt'' then cf_stt_provider c else cf_tts_provider c);
          endpoint = (if service = ''stt'' then cf_stt_endpoint c else cf_tts_endpoint c) in
      if provider \<noteq> ''local'' then Inr (''hosted'', provider)
      else case endpoint of None \<Rightarrow> Inl ''ValueError'' | Some e \<Rightarrow> Inr e)"

definition has_text :: "string option \<Rightarrow> bool" where
  "has_text v \<longleftrightarrow> v \<noteq> None \<and> v \<noteq> Some []"

definition hosted_healthcheck :: "config \<Rightarrow> string \<Rightarrow> string \<Rightarrow> bool" where
  "hosted_healthcheck c service address =
     (if service = ''stt'' then address = ''deepgram'' \<and> has_text (cf_deepgram_api_key c)
      else address = ''cartesia'' \<and> has_text (cf_cartesia_api_key c) \<and> has_text (cf_cartesia_voice_id c))"

text \<open>\<open>dialled\<close> is what the connection delivers, or the exception of the connect.\<close>

definition local_healthcheck :: "config \<Rightarrow> string \<Rightarrow> string + socket_input list \<Rightarrow> string + bool" where
  "local_healthcheck c service dialled =
     (case dialled of
        Inl e \<Rightarrow> Inl e
      | Inr ws \<Rightarrow>
          (case probe_receive_json ws of
             (Inl e, _) \<Rightarrow> Inl e
           | (Inr hello, ws) \<Rightarrow>
               if \<not> has_type {''server.hello''} hello then Inr False
               else if service = ''stt'' then
                 (case probe_receive_json ws of
                    (Inl e, _) \<Rightarrow> Inl e
                  | (Inr created, ws) \<Rightarrow>
                      if \<not> has_type {''session.created''} created then Inr False
                      else if cf_stt_language c \<noteq> []
                      then probe_receive_until 128 {''session.updated'', ''transcription_session.updated''} ws
                      else Inr True)
               else if cf_tts_voice_id c \<noteq> [] then probe_receive_until 128 {''session.created'', ''session.updated''} ws
               else Inr True))"

definition probe_healthcheck ::
    "(string \<Rightarrow> string \<Rightarrow> string + socket_input list) \<Rightarrow> config \<Rightarrow> string \<Rightarrow> string \<Rightarrow> string \<Rightarrow> string + bool" where
  "probe_healthcheck wire c service transport address =
     (if transport = ''hosted'' then Inr (hosted_healthcheck c service address)
      else local_healthcheck c service (wire transport address))"

section \<open>The report\<close>

record preflight_report =
  pr_ok :: bool
  pr_config :: config
  pr_endpoints :: "(string, string \<times> string) dict"
  pr_failures :: "(string, string) dict"
  pr_capability :: string

record probe =
  pb_discover :: "string \<Rightarrow> string + string \<times> string"
  pb_healthcheck :: "string \<Rightarrow> string \<Rightarrow> string \<Rightarrow> string + bool"

definition unreachable :: "string \<Rightarrow> string" where
  "unreachable service = service @ '' endpoint is unreachable or health/protocol incompatible''"

definition preflight_failed :: "string \<Rightarrow> string \<Rightarrow> string" where
  "preflight_failed service exception = service @ '' endpoint preflight failed: '' @ exception"

definition check_service ::
    "probe \<Rightarrow> string \<Rightarrow> (string, string \<times> string) dict \<times> (string, string) dict \<Rightarrow> (string, string \<times> string) dict \<times> (string, string) dict" where
  "check_service p service s =
     (let (endpoints, failures) = s;
          failed = (\<lambda>e. AList.update service (preflight_failed service e) failures) in
      case pb_discover p service of
        Inl e \<Rightarrow> (endpoints, failed e)
      | Inr (transport, address) \<Rightarrow>
          if transport = [] \<or> address = [] then (endpoints, failed ''ValueError'')
          else
            let endpoints = AList.update service (transport, address) endpoints in
            (case pb_healthcheck p service transport address of
               Inl e \<Rightarrow> (endpoints, failed e)
             | Inr healthy \<Rightarrow> (endpoints, if healthy then failures else AList.update service (unreachable service) failures)))"

fun discover_config :: "platform \<Rightarrow> (string, string \<times> string) dict \<Rightarrow> config \<Rightarrow> cfg_error + config" where
  "discover_config pl [] c = Inr c"
| "discover_config pl ((service, transport, address) # es) c =
     (if transport = ''hosted'' then discover_config pl es c
      else case with_discovered_endpoint pl service transport address c of Inl e \<Rightarrow> Inl e | Inr c \<Rightarrow> discover_config pl es c)"

definition run_preflight :: "platform \<Rightarrow> probe \<Rightarrow> (config \<Rightarrow> string) option \<Rightarrow> config \<Rightarrow> cfg_error + preflight_report" where
  "run_preflight pl p capability_check c =
     (let (endpoints, failures) = check_service p ''tts'' (check_service p ''stt'' ([], []));
          capability = (case capability_check of Some f \<Rightarrow> f c | None \<Rightarrow> ''unavailable'');
          valid = capability \<in> {''available'', ''unavailable'', ''unconfirmed''};
          failures = (if valid then failures
                      else AList.update ''openai'' ''authenticated capability check returned an invalid status'' failures);
          capability = (if valid then capability else ''unconfirmed'') in
      case discover_config pl endpoints c of
        Inl e \<Rightarrow> Inl e
      | Inr d \<Rightarrow> Inr \<lparr>pr_ok = (failures = []), pr_config = d, pr_endpoints = endpoints, pr_failures = failures, pr_capability = capability\<rparr>)"

definition preflight_main :: "platform \<Rightarrow> (string \<Rightarrow> string \<Rightarrow> string + socket_input list) \<Rightarrow> config \<Rightarrow> cfg_error + preflight_report \<times> nat" where
  "preflight_main pl wire c =
     (case run_preflight pl \<lparr>pb_discover = probe_discover c, pb_healthcheck = probe_healthcheck wire c\<rparr>
             (Some (\<lambda>c. if has_text (cf_openai_api_key c) then ''available'' else ''unavailable'')) c of
        Inl e \<Rightarrow> Inl e
      | Inr r \<Rightarrow> Inr (r, if pr_ok r then 0 else 1))"

section \<open>Constructing the services\<close>

datatype built_stt = Deepgram string string string | LocalStt "string \<times> string" string

datatype built_tts = Cartesia string string string | LocalTts "string \<times> string" string

definition create_stt :: "config \<Rightarrow> cfg_error + built_stt option" where
  "create_stt c =
     (if cf_stt_provider c = ''deepgram'' then
        (case cf_deepgram_api_key c of
           Some key \<Rightarrow> if key \<noteq> [] then Inr (Some (Deepgram key (cf_stt_model c) (cf_stt_language c))) else Inl (ConfigError ''DEEPGRAM_API_KEY'')
         | None \<Rightarrow> Inl (ConfigError ''DEEPGRAM_API_KEY''))
      else Inr (map_option (\<lambda>e. LocalStt e (cf_stt_language c)) (cf_stt_endpoint c)))"

definition create_tts :: "config \<Rightarrow> cfg_error + built_tts option" where
  "create_tts c =
     (if cf_tts_provider c = ''cartesia'' then
        if \<not> has_text (cf_cartesia_api_key c) then Inl (ConfigError ''CARTESIA_API_KEY'')
        else if \<not> has_text (cf_cartesia_voice_id c) then Inl (ConfigError ''CARTESIA_VOICE_ID'')
        else Inr (Some (Cartesia (the (cf_cartesia_api_key c)) (the (cf_cartesia_voice_id c)) (cf_tts_model c)))
      else Inr (map_option (\<lambda>e. LocalTts e (cf_tts_voice_id c)) (cf_tts_endpoint c)))"

section \<open>Properties\<close>

lemma update_not_empty [simp]: "AList.update k v d \<noteq> []"
  by (cases d) auto

lemma check_service_clean:
  assumes "check_service p service (es, fs) = (es', [])"
  shows "fs = [] \<and> (\<exists>t a. pb_discover p service = Inr (t, a) \<and> t \<noteq> [] \<and> a \<noteq> [] \<and> pb_healthcheck p service t a = Inr True)"
  using assms by (auto simp: check_service_def Let_def split: sum.splits if_splits)

text \<open>What discovery writes into a configuration.\<close>

lemma post_init_same: "post_init_config pl c = Inr d \<Longrightarrow> d = c"
  by (simp add: post_init_config_def split: sum.splits)

lemma discovered_endpoint:
  assumes "with_discovered_endpoint pl service t a c = Inr d"
  shows "d = c\<lparr>cf_stt_endpoint := Some (t, a)\<rparr> \<or> d = c\<lparr>cf_tts_endpoint := Some (t, a)\<rparr>"
  using assms by (auto simp: with_discovered_endpoint_def split: if_splits dest!: post_init_same)

definition same_providers :: "config \<Rightarrow> config \<Rightarrow> bool" where
  "same_providers c d \<longleftrightarrow>
     cf_stt_provider d = cf_stt_provider c \<and> cf_tts_provider d = cf_tts_provider c \<and>
     cf_deepgram_api_key d = cf_deepgram_api_key c \<and> cf_cartesia_api_key d = cf_cartesia_api_key c \<and>
     cf_cartesia_voice_id d = cf_cartesia_voice_id c \<and>
     (cf_stt_endpoint c \<noteq> None \<longrightarrow> cf_stt_endpoint d \<noteq> None) \<and> (cf_tts_endpoint c \<noteq> None \<longrightarrow> cf_tts_endpoint d \<noteq> None)"

lemma discover_config_keeps: "discover_config pl es c = Inr d \<Longrightarrow> same_providers c d"
proof (induction es arbitrary: c)
  case (Cons e es)
  obtain service t a where e: "e = (service, t, a)" by (cases e)
  show ?case
  proof (cases "t = ''hosted''")
    case False
    with Cons.prems e obtain m where m: "with_discovered_endpoint pl service t a c = Inr m" "discover_config pl es m = Inr d"
      by (auto split: sum.splits)
    show ?thesis using discovered_endpoint [OF m(1)] Cons.IH [OF m(2)] by (auto simp: same_providers_def)
  qed (use Cons e in simp)
qed (simp add: same_providers_def)

text \<open>
  When the preflight of a configuration exits with status 0, both speech services can be built from the configuration it reports: neither
  constructor raises and neither is left out.
\<close>
theorem ready_preflight_builds_services:
  assumes "preflight_main pl wire c = Inr (r, 0)"
  shows "\<exists>s t. create_stt (pr_config r) = Inr (Some s) \<and> create_tts (pr_config r) = Inr (Some t)"
proof -
  let ?p = "\<lparr>pb_discover = probe_discover c, pb_healthcheck = probe_healthcheck wire c\<rparr>"
  obtain es1 fs1 where one: "check_service ?p ''stt'' ([], []) = (es1, fs1)" by (cases "check_service ?p ''stt'' ([], [])")
  obtain es fs where two: "check_service ?p ''tts'' (es1, fs1) = (es, fs)" by (cases "check_service ?p ''tts'' (es1, fs1)")
  have d: "discover_config pl es c = Inr (pr_config r)" and fs: "fs = []"
    using assms one two by (auto simp: preflight_main_def run_preflight_def Let_def split: sum.splits if_splits)
  note tts = check_service_clean [OF two [unfolded fs]]
  then have stt: "\<exists>t a. probe_discover c ''stt'' = Inr (t, a) \<and> probe_healthcheck wire c ''stt'' t a = Inr True"
    using check_service_clean one by fastforce
  have "\<exists>s. create_stt (pr_config r) = Inr (Some s)"
    using stt discover_config_keeps [OF d]
    by (auto simp: same_providers_def create_stt_def probe_discover_def probe_healthcheck_def hosted_healthcheck_def has_text_def Let_def split: option.splits if_splits)
  moreover have "\<exists>t. create_tts (pr_config r) = Inr (Some t)"
    using tts discover_config_keeps [OF d]
    by (auto simp: same_providers_def create_tts_def probe_discover_def probe_healthcheck_def hosted_healthcheck_def has_text_def Let_def split: option.splits if_splits)
  ultimately show ?thesis by blast
qed

lemma tts_client_implies_probe:
  assumes "tts_client_connect (cf_tts_voice_id c \<noteq> []) ws = Inr hello"
  shows "local_healthcheck c ''tts'' (Inr ws) = Inr True"
proof -
  have receive: "receive_json ws = (Inr e, vs) \<Longrightarrow> probe_receive_json ws = (Inr e, vs)" for e vs ws
    by (cases ws rule: receive_json.cases) (auto split: if_splits parsed.splits)
  have until: "probe_receive_json ws = (Inr e, vs) \<Longrightarrow> has_type ts e \<Longrightarrow> probe_receive_until 128 ts ws = Inr True" for e vs ws ts
    using probe_receive_until.simps(2) [of 127 ts ws] by (auto simp: has_type_def split: event_type.splits)
  show ?thesis
    using assms
    by (auto simp: tts_client_connect_def local_healthcheck_def split: prod.splits sum.splits if_splits dest!: receive intro: until)
qed


definition typed_event :: "string \<Rightarrow> ws_event" where
  "typed_event t = \<lparr>we_type = TypeText t, we_audio = AudioMissing, we_transcript = None\<rparr>"

definition demo_speech_wire :: "socket_input list" where
  "demo_speech_wire =
     [Message (Text_Message 30 (Object (typed_event ''server.hello''))), Message (Text_Message 30 (Object (typed_event ''session.alias''))),
      Message (Text_Message 30 (Object (typed_event ''session.updated'')))]"


definition demo_preflight_config :: config where
  "demo_preflight_config =
     (default_config sample_platform)\<lparr>cf_stt_endpoint := Some (''ws'', ''a''), cf_tts_endpoint := Some (''ws'', ''b'')\<rparr>"

definition demo_preflight_wire :: "string \<Rightarrow> string \<Rightarrow> string + socket_input list" where
  "demo_preflight_wire transport address =
     Inr (if address = ''b'' then demo_speech_wire
          else map (\<lambda>t. Message (Text_Message 30 (Object (typed_event t)))) [''server.hello'', ''session.created'', ''session.updated''])"

lemma demo_discovered:
  "with_discovered_endpoint sample_platform ''stt'' ''ws'' ''a'' demo_preflight_config = Inr demo_preflight_config"
  "with_discovered_endpoint sample_platform ''tts'' ''ws'' ''b'' demo_preflight_config = Inr demo_preflight_config"
proof -
  have "post_init_checks sample_platform demo_preflight_config = post_init_checks sample_platform (default_config sample_platform)"
    by (simp add: demo_preflight_config_def post_init_checks_def)
  then have "post_init_config sample_platform demo_preflight_config = Inr demo_preflight_config"
    using default_checks post_init_ok by metis
  moreover have "demo_preflight_config\<lparr>cf_stt_endpoint := Some (''ws'', ''a'')\<rparr> = demo_preflight_config"
    "demo_preflight_config\<lparr>cf_tts_endpoint := Some (''ws'', ''b'')\<rparr> = demo_preflight_config"
    by (simp_all add: demo_preflight_config_def default_config_def)
  ultimately show "with_discovered_endpoint sample_platform ''stt'' ''ws'' ''a'' demo_preflight_config = Inr demo_preflight_config"
    "with_discovered_endpoint sample_platform ''tts'' ''ws'' ''b'' demo_preflight_config = Inr demo_preflight_config"
    by (simp_all add: with_discovered_endpoint_def)
qed

lemma demo_checks:
  "check_service \<lparr>pb_discover = probe_discover demo_preflight_config, pb_healthcheck = probe_healthcheck demo_preflight_wire demo_preflight_config\<rparr>
     ''stt'' ([], []) = ([(''stt'', ''ws'', ''a'')], [])"
  "check_service \<lparr>pb_discover = probe_discover demo_preflight_config, pb_healthcheck = probe_healthcheck demo_preflight_wire demo_preflight_config\<rparr>
     ''tts'' ([(''stt'', ''ws'', ''a'')], []) = ([(''stt'', ''ws'', ''a''), (''tts'', ''ws'', ''b'')], [])"
  by code_simp+

lemma ready_preflight_builds_services_witness:
  "\<exists>r. preflight_main sample_platform demo_preflight_wire demo_preflight_config = Inr (r, 0) \<and> create_tts (pr_config r) \<noteq> Inr None"
proof -
  have "\<exists>r. preflight_main sample_platform demo_preflight_wire demo_preflight_config = Inr (r, 0)"
    by (simp add: preflight_main_def run_preflight_def demo_checks demo_discovered)
  then show ?thesis using ready_preflight_builds_services by fastforce
qed

end
