(* ===== verification/Model_Replies.thy ===== *)
theory Model_Replies
  imports Grounded_Results
begin

text \<open>
  Small parts around the language model: strict JSON schemas for its structured outputs (\<open>server/structured_outputs.py\<close>), the replies
  to outcomes that the router owns (\<open>server/main_responder.py\<close>) and the interruption policy (\<open>server/interruptions.py\<close>).
\<close>

section \<open>Strict schemas\<close>

datatype json = JNull | JBool bool | JNumber string | JText string | JList "json list" | JObject "(string \<times> json) list"

definition require_properties :: "(string, json) dict \<Rightarrow> (string, json) dict" where
  "require_properties result =
     (case map_of result ''properties'' of
        Some (JObject ps) \<Rightarrow> AList.update ''required'' (JList (map JText (dkeys ps))) result
      | _ \<Rightarrow> result)"

fun strict_json_schema :: "json \<Rightarrow> json" where
  "strict_json_schema (JList xs) = JList (map strict_json_schema xs)"
| "strict_json_schema (JObject kvs) =
     JObject (AList.delete ''default'' (require_properties (map (\<lambda>(k, v). (k, strict_json_schema v)) kvs)))"
| "strict_json_schema v = v"

definition structured_text_format :: "json \<Rightarrow> string \<Rightarrow> json" where
  "structured_text_format schema name =
     JObject [(''format'', JObject [(''type'', JText ''json_schema''), (''name'', JText name), (''strict'', JBool True),
                                   (''schema'', strict_json_schema schema)])]"

text \<open>What the provider asks of a strict schema: every object that lists properties requires all of them, and no defaults.\<close>

definition strict_object :: "(string, json) dict \<Rightarrow> bool" where
  "strict_object kvs \<longleftrightarrow> map_of kvs ''default'' = None \<and>
     (case map_of kvs ''properties'' of
        Some (JObject ps) \<Rightarrow> map_of kvs ''required'' = Some (JList (map JText (dkeys ps)))
      | _ \<Rightarrow> True)"

fun strict_schema :: "json \<Rightarrow> bool" where
  "strict_schema (JList xs) \<longleftrightarrow> list_all strict_schema xs"
| "strict_schema (JObject kvs) \<longleftrightarrow> strict_object kvs \<and> list_all (\<lambda>(k, v). strict_schema v) kvs"
| "strict_schema v \<longleftrightarrow> True"

lemma map_of_require: "k \<noteq> ''required'' \<Longrightarrow> map_of (require_properties r) k = map_of r k"
  by (auto simp: require_properties_def split: option.split json.split)

lemma require_strict: "strict_object (AList.delete ''default'' (require_properties r))"
  using map_of_require [of "''properties''" r]
  by (auto simp: strict_object_def split: option.split json.split) (auto simp: require_properties_def split: option.splits json.splits)

lemma strict_members:
  assumes "list_all (\<lambda>(k, v). P v) r" and "\<And>ps. P (JList (map JText ps))"
  shows "list_all (\<lambda>(k, v). P v) (AList.delete ''default'' (require_properties r))"
proof -
  have "list_all (\<lambda>(k, v). P v) (AList.update k (JList (map JText ps)) r)" for k ps
    using assms by (induction r) auto
  then have "list_all (\<lambda>(k, v). P v) (require_properties r)"
    using assms(1) by (auto simp: require_properties_def simp del: map_map split: option.split json.split)
  then show ?thesis by (auto simp: list_all_iff AList.delete_eq)
qed

lemma strict_schema_result: "strict_schema (strict_json_schema v)"
proof (induction v rule: strict_json_schema.induct)
  case (2 kvs)
  then have "list_all (\<lambda>(k, v). strict_schema v) (map (\<lambda>(k, v). (k, strict_json_schema v)) kvs)" by (force simp: list_all_iff)
  from strict_members [where P = strict_schema, OF this] show ?case by (simp add: require_strict list_all_iff)
qed (auto simp: list_all_iff)

lemma update_same: "map_of d k = Some v \<Longrightarrow> AList.update k v d = d"
  by (induction d) (auto split: if_splits)

lemma delete_absent: "map_of d k = None \<Longrightarrow> AList.delete k d = d"
  by (induction d) (auto split: if_splits)

lemma strict_object_fixed: "strict_object kvs \<Longrightarrow> AList.delete ''default'' (require_properties kvs) = kvs"
  by (auto simp: strict_object_def require_properties_def update_same delete_absent split: option.splits json.splits)

text \<open>
  C40. The schema sent with a structured output is strict at every depth (each object that lists properties requires exactly those, in order,
  and carries no default), a strict schema is sent unchanged, and so making a schema strict twice changes nothing.
\<close>
theorem strict_json_schema_normalizes:
  "strict_schema (strict_json_schema v) \<and> (strict_schema w \<longleftrightarrow> strict_json_schema w = w) \<and>
   strict_json_schema (strict_json_schema v) = strict_json_schema v"
proof -
  have fixed: "strict_schema w \<Longrightarrow> strict_json_schema w = w" for w
  proof (induction w rule: strict_json_schema.induct)
    case (2 kvs)
    then have "map (\<lambda>(k, v). (k, strict_json_schema v)) kvs = kvs" by (force simp: list_all_iff intro!: map_idI)
    with 2(2) show ?case by (simp add: strict_object_fixed)
  qed (auto simp: list_all_iff intro: map_idI)
  show ?thesis using fixed strict_schema_result by metis
qed

text \<open>The keyword is taken away by name, so a property that is called \<open>default\<close> goes with it.\<close>

lemma property_called_default_lost:
  "strict_json_schema (JObject [(''properties'', JObject [(''default'', JObject []), (''x'', JObject [])])]) =
   JObject [(''properties'', JObject [(''x'', JObject [])]), (''required'', JList [JText ''x''])]"
  by code_simp

section \<open>Replies to router-owned outcomes\<close>

record main_response =
  mr_action :: string
  mr_prose :: "string option"
  mr_text :: "string option"

datatype main_error = NotRouterOwned | EmptyResponse | InvalidResponse | ActionMismatch

definition has_words :: "string option \<Rightarrow> bool" where
  "has_words v \<longleftrightarrow> v \<noteq> None \<and> v \<noteq> Some []"

definition require_text :: "main_response \<Rightarrow> main_error + main_response" where
  "require_text r = (if \<not> has_words (mr_prose r) \<and> \<not> has_words (mr_text r) then Inl EmptyResponse else Inr r)"

text \<open>A reply is a string, a response object, or data that validation turns into a response or refuses.\<close>

datatype raw_reply = ReplyText string | ReplyObject main_response | ReplyData "main_response option"

definition read_reply :: "string \<Rightarrow> raw_reply \<Rightarrow> main_error + main_response" where
  "read_reply action raw =
     (case raw of
        ReplyText t \<Rightarrow> require_text \<lparr>mr_action = action, mr_prose = Some t, mr_text = None\<rparr>
      | ReplyObject r \<Rightarrow> Inr r
      | ReplyData None \<Rightarrow> Inl InvalidResponse
      | ReplyData (Some r) \<Rightarrow> require_text r)"

definition main_prompt :: "string \<Rightarrow> string \<Rightarrow> string" where
  "main_prompt action transcript = ''Answer concisely for validated action '' @ action @ ''. Transcript: '' @ transcript"

text \<open>\<open>call\<close> is the answer to the prompt (or of an injected model, which is asked with the transcript and the decision); \<open>fresh\<close> is the hexadecimal part of the result id.\<close>

definition respond :: "(string \<Rightarrow> raw_reply) \<Rightarrow> string \<Rightarrow> string \<Rightarrow> string \<Rightarrow> main_error + projected_result" where
  "respond call fresh transcript action =
     (if action \<notin> {''direct'', ''unsupported'', ''clarify''} then Inl NotRouterOwned
      else
        case read_reply action (call (main_prompt action transcript)) of
          Inl e \<Rightarrow> Inl e
        | Inr r \<Rightarrow>
            if mr_action r \<noteq> action then Inl ActionMismatch
            else
              let prose = the (if has_words (mr_prose r) then mr_prose r else mr_text r) in
              Inr \<lparr>pr_result_id = ''main-'' @ fresh, pr_text = prose, pr_citations = [], pr_timestamp = None\<rparr>)"

section \<open>Interruptions\<close>

record interruption_controller =
  ic_policy :: string
  ic_pending :: "(string, string \<times> string) dict"
  ic_delivery :: "(string, delivery_state) dict"

definition init_interruptions :: "string \<Rightarrow> interruption_controller" where
  "init_interruptions policy = \<lparr>ic_policy = policy, ic_pending = [], ic_delivery = []\<rparr>"

definition result_ready :: "string \<Rightarrow> string \<Rightarrow> interruption_controller \<Rightarrow> interruption_controller" where
  "result_ready result_id work_item_id s = s\<lparr>ic_pending := AList.update result_id (result_id, work_item_id) (ic_pending s)\<rparr>"

record interruption_event =
  ie_interruption_id :: string
  ie_stage :: string
  ie_policy :: string
  ie_template_used :: bool
  ie_resume_outcome :: string
  ie_work_item_id :: string
  ie_run_id :: string
  ie_utterance_id :: string

text \<open>\<open>None\<close>: the event refuses the stage.\<close>

definition interrupt_utterance ::
    "string \<Rightarrow> string \<Rightarrow> string \<Rightarrow> string \<Rightarrow> interruption_controller \<Rightarrow> interruption_controller \<times> interruption_event option" where
  "interrupt_utterance stage work_item_id run_id utterance_id s =
     (let template = (ic_policy s = ''resume_after_soft_interrupt'' \<and> stage = ''speech_active'') in
      if stage \<notin> {''result_pending'', ''voice_llm_accepted'', ''speech_active''} then (s, None)
      else
        (s\<lparr>ic_delivery := AList.update utterance_id INTERRUPTED (ic_delivery s)\<rparr>,
         Some \<lparr>ie_interruption_id = ''interrupt-'' @ utterance_id, ie_stage = stage, ie_policy = ic_policy s, ie_template_used = template,
               ie_resume_outcome = (if template then ''resumed'' else ''declined''), ie_work_item_id = work_item_id, ie_run_id = run_id,
               ie_utterance_id = utterance_id\<rparr>))"

definition mark_delivery :: "string \<Rightarrow> delivery_state \<Rightarrow> interruption_controller \<Rightarrow> interruption_controller \<times> delivery_state" where
  "mark_delivery utterance_id state s =
     (case map_of (ic_delivery s) utterance_id of
        Some d \<Rightarrow>
          if d \<in> {INTERRUPTED, INTERRUPTED_BY_RECONNECT, DELIVERY_COMPLETED, DELIVERY_UNKNOWN} then (s, d)
          else (s\<lparr>ic_delivery := AList.update utterance_id state (ic_delivery s)\<rparr>, state)
      | None \<Rightarrow> (s\<lparr>ic_delivery := AList.update utterance_id state (ic_delivery s)\<rparr>, state))"

lemma marked_final:
  assumes "map_of (ic_delivery s) u = Some d" and "d \<in> {INTERRUPTED, INTERRUPTED_BY_RECONNECT, DELIVERY_COMPLETED, DELIVERY_UNKNOWN}"
  shows "map_of (ic_delivery (fst (mark_delivery v e s))) u = Some d" and "snd (mark_delivery u e s) = d"
  using assms by (auto simp: mark_delivery_def split: option.split)

section \<open>The provider of the router\<close>

text \<open>
  The client of the Responses API is outside the repository: \<open>create\<close> is what it answers to a request (\<open>None\<close>: it raises; else the
  \<open>output_text\<close> of the response, if that is a string), and \<open>loads\<close> is \<open>json.loads\<close>. \<open>envelope\<close> is the schema of
  \<open>RouterEnvelope\<close>.
\<close>

definition effective_router_reasoning_effort :: "string \<Rightarrow> string option \<Rightarrow> string option" where
  "effective_router_reasoning_effort model resolved =
     (if resolved \<noteq> None then resolved else default_reasoning_effort_for_model model)"

record router_request =
  rq_model :: string
  rq_input :: string
  rq_store :: bool
  rq_timeout :: py_float
  rq_text :: json
  rq_reasoning_effort :: "string option"

definition build_router_request_kwargs :: "json \<Rightarrow> string \<Rightarrow> string option \<Rightarrow> string \<Rightarrow> py_float \<Rightarrow> router_request" where
  "build_router_request_kwargs envelope model effort prompt timeout =
     \<lparr>rq_model = model, rq_input = prompt, rq_store = False, rq_timeout = timeout,
      rq_text = structured_text_format envelope ''router_envelope'', rq_reasoning_effort = effective_router_reasoning_effort model effort\<rparr>"

datatype provider_error =
    ConfigRaised cfg_error
  | ProviderUnavailable
  | ProviderRaised
  | NoStructuredOutput
  | InvalidJson
  | NonObjectEnvelope

record lazy_router_provider =
  lp_config :: config
  lp_factory :: bool
  lp_client :: bool
  lp_built :: nat

definition get_responses :: "lazy_router_provider \<Rightarrow> lazy_router_provider \<times> (provider_error + unit)" where
  "get_responses p =
     (if lp_client p then (p, Inr ())
      else if \<not> lp_factory p \<and> \<not> has_words (cf_openai_api_key (lp_config p)) then (p, Inl ProviderUnavailable)
      else (p\<lparr>lp_client := True, lp_built := lp_built p + 1\<rparr>, Inr ()))"

definition router_response_text :: "string option \<Rightarrow> provider_error + string" where
  "router_response_text output = (case output of Some t \<Rightarrow> if t \<noteq> [] then Inr t else Inl NoStructuredOutput | None \<Rightarrow> Inl NoStructuredOutput)"

definition read_envelope :: "(string \<Rightarrow> json option) \<Rightarrow> string option option \<Rightarrow> provider_error + (string \<times> json) list" where
  "read_envelope loads answer =
     (case answer of
        None \<Rightarrow> Inl ProviderRaised
      | Some output \<Rightarrow>
          (case router_response_text output of
             Inl e \<Rightarrow> Inl e
           | Inr t \<Rightarrow> (case loads t of None \<Rightarrow> Inl InvalidJson | Some (JObject kvs) \<Rightarrow> Inr kvs | Some _ \<Rightarrow> Inl NonObjectEnvelope)))"

definition call_router_provider ::
    "(string \<Rightarrow> json option) \<Rightarrow> json \<Rightarrow> (router_request \<Rightarrow> string option option) \<Rightarrow> string \<Rightarrow> lazy_router_provider \<Rightarrow>
     lazy_router_provider \<times> (provider_error + (string \<times> json) list)" where
  "call_router_provider loads envelope create prompt p =
     (case resolve_router_model (lp_config p) ''fast'' of
        Inl e \<Rightarrow> (p, Inl (ConfigRaised e))
      | Inr model \<Rightarrow>
          (case resolve_router_reasoning_effort (lp_config p) ''fast'' of
             Inl e \<Rightarrow> (p, Inl (ConfigRaised e))
           | Inr effort \<Rightarrow>
               (case get_responses p of
                  (p, Inl e) \<Rightarrow> (p, Inl e)
                | (p, Inr _) \<Rightarrow>
                    (p, read_envelope loads
                          (create (build_router_request_kwargs envelope model effort prompt (cf_router_timeout_seconds (lp_config p))))))))"

text \<open>However often the router asks, the client is built at most once.\<close>

lemma client_built_once:
  assumes "lp_built p = (if lp_client p then 1 else 0)"
  shows "lp_built (fold (\<lambda>t p. fst (call_router_provider loads envelope create t p)) ts p) \<le> 1"
proof -
  have step: "lp_built q = (if lp_client q then 1 else 0) \<Longrightarrow>
      lp_built (fst (call_router_provider loads envelope create t q)) = (if lp_client (fst (call_router_provider loads envelope create t q)) then 1 else 0)" for t q
    by (auto simp: call_router_provider_def get_responses_def split: sum.split)
  have "lp_built (fold (\<lambda>t p. fst (call_router_provider loads envelope create t p)) ts p) =
      (if lp_client (fold (\<lambda>t p. fst (call_router_provider loads envelope create t p)) ts p) then 1 else 0)"
    using assms by (induction ts arbitrary: p) (simp_all add: step)
  then show ?thesis by simp
qed

end
