(* ===== verification/Spec2Isabelle.thy ===== *)
theory Spec2Isabelle
  imports Lifecycle_Liveness Turn_Ack_Properties Routing_Properties Observers_Properties Coordinator_Properties Session_Host_Properties
    Perf_Accounting Perf_Records Configuration_Loading Arbitration_Properties Http_Gate Turns
    Web_Search_Properties Worker_Mailbox Turn_Outcomes
    Host_Connection_Properties Preflight Model_Replies
begin

text \<open>
  Verification of the session core of the voice-agent server.
\<close>

end
